(* ===== verification/Prelude.thy ===== *)
theory Prelude
  imports Main "HOL-Library.Word" "HOL-Library.AList"
begin

text \<open>
  Shared vocabulary of the development: bytes, times and identifiers, Go results as sums,
  Go maps that are iterated as association lists, and a small memory of byte buffers for
  the components whose correctness depends on which slices share storage.
\<close>

unbundle bit_operations_syntax

named_theorems outcome_simps "rewriting of results, bindings and their cases"
named_theorems mem_simps "reading and writing byte buffers"
named_theorems inv_intros "an operation keeps the invariant of its component"

section \<open>Basic types\<close>

text \<open>
  Times and durations are integers in nanoseconds (Go's \<^verbatim>\<open>time.Time\<close> and
  \<^verbatim>\<open>time.Duration\<close>); an identifier of type \<^verbatim>\<open>uuid.UUID\<close> is its canonical text.
\<close>

type_synonym byte = "8 word"
type_synonym bytes = "byte list"
type_synonym time = int
type_synonym uuid = string

abbreviation second :: time where "second \<equiv> 1000000000"
abbreviation millisecond :: time where "millisecond \<equiv> 1000000"
abbreviation minute :: time where "minute \<equiv> 60 * second"
abbreviation hour :: time where "hour \<equiv> 60 * minute"

definition uuid_nil :: uuid where
  "uuid_nil = ''00000000-0000-0000-0000-000000000000''"

section \<open>Results\<close>

text \<open>
  A Go function that returns \<^verbatim>\<open>(value, error)\<close> returns \<open>Inr value\<close> or \<open>Inl error\<close>.
\<close>

fun is_ok :: "'e + 'a \<Rightarrow> bool" where
  "is_ok (Inl _) = False"
| "is_ok (Inr _) = True"

lemma is_ok_iff [outcome_simps]: "is_ok r \<longleftrightarrow> (\<exists>x. r = Inr x)"
  by (cases r) auto

section \<open>Association lists\<close>

text \<open>
  A Go map that the code iterates over is an association list with distinct keys, updated
  with \<open>AList.update\<close> and \<open>AList.delete\<close>; its order stands for the iteration order, about
  which no lemma assumes anything.
\<close>

abbreviation keys :: "('k \<times> 'v) list \<Rightarrow> 'k list" where "keys \<equiv> map fst"

lemma map_of_update [simp]: "map_of (AList.update k v al) = (map_of al)(k \<mapsto> v)"
  by (rule update_conv')

lemma map_of_delete [simp]: "map_of (AList.delete k al) = (map_of al)(k := None)"
  by (rule delete_conv')

lemma distinct_keys_update [simp]: "distinct (keys al) \<Longrightarrow> distinct (keys (AList.update k v al))"
  by (rule distinct_update)

lemma distinct_keys_delete [simp]: "distinct (keys al) \<Longrightarrow> distinct (keys (AList.delete k al))"
  by (rule distinct_delete)

lemma set_update_subset: "set (AList.update k v al) \<subseteq> insert (k, v) (set al)"
  by (induction al) auto

lemma set_delete_subset: "set (AList.delete k al) \<subseteq> set al"
  by (auto simp: AList.delete_eq)

lemma map_of_filter_key:
  assumes "distinct (keys al)"
  shows "map_of (filter (\<lambda>e. P (snd e)) al) k
    = (case map_of al k of None \<Rightarrow> None | Some v \<Rightarrow> if P v then Some v else None)"
  using assms
proof (induction al)
  case Nil
  then show ?case by simp
next
  case (Cons e al)
  then show ?case by (cases e) (force split: option.splits dest: map_of_SomeD)
qed

lemma distinct_keys_filter [simp]: "distinct (keys al) \<Longrightarrow> distinct (keys (filter P al))"
  by (rule distinct_map_filter)

lemma map_of_filter_fst [simp]:
  "map_of (filter (\<lambda>(k', _). P k') al) k = (if P k then map_of al k else None)"
  by (induction al) auto

section \<open>Byte buffers\<close>

text \<open>
  A slice whose backing array matters is an address in a memory; \<open>brk\<close> is the next fresh
  address. \<open>alloc\<close> is \<^verbatim>\<open>make\<close> followed by \<^verbatim>\<open>copy\<close>.
\<close>

record mem =
  heap :: "nat \<Rightarrow> bytes"
  brk :: nat

definition empty_mem :: mem where
  "empty_mem = \<lparr>heap = (\<lambda>_. []), brk = 0\<rparr>"

definition alloc :: "bytes \<Rightarrow> mem \<Rightarrow> nat \<times> mem" where
  "alloc bs m = (brk m, m\<lparr>heap := (heap m)(brk m := bs), brk := Suc (brk m)\<rparr>)"

definition write_buf :: "nat \<Rightarrow> bytes \<Rightarrow> mem \<Rightarrow> mem" where
  "write_buf a bs m = m\<lparr>heap := (heap m)(a := bs)\<rparr>"

lemma fst_alloc [mem_simps]: "fst (alloc bs m) = brk m"
  by (simp add: alloc_def)

lemma brk_alloc [mem_simps]: "brk (snd (alloc bs m)) = Suc (brk m)"
  by (simp add: alloc_def)

lemma heap_alloc [mem_simps]: "heap (snd (alloc bs m)) = (heap m)(brk m := bs)"
  by (simp add: alloc_def)

lemma heap_write_buf [mem_simps]: "heap (write_buf a bs m) = (heap m)(a := bs)"
  by (simp add: write_buf_def)

lemma brk_write_buf [mem_simps]: "brk (write_buf a bs m) = brk m"
  by (simp add: write_buf_def)

section \<open>Arithmetic\<close>

text \<open>Go's integer division truncates towards zero.\<close>

definition go_quot :: "int \<Rightarrow> int \<Rightarrow> int" where
  "go_quot n d =
     (let q = \<bar>n\<bar> div \<bar>d\<bar> in if (n < 0) \<longleftrightarrow> (d < 0) then q else - q)"

lemma go_quot_nonneg: "0 \<le> n \<Longrightarrow> 0 < d \<Longrightarrow> go_quot n d = n div d"
  by (simp add: go_quot_def)

definition go_rem :: "int \<Rightarrow> int \<Rightarrow> int" where
  "go_rem n d = n - go_quot n d * d"

lemma go_rem_nonneg: "0 \<le> n \<Longrightarrow> 0 < d \<Longrightarrow> go_rem n d = n mod d"
  by (simp add: go_rem_def go_quot_nonneg minus_div_mult_eq_mod)

text \<open>Arithmetic on Go's \<^verbatim>\<open>int64\<close> (and \<^verbatim>\<open>time.Duration\<close>) wraps around.\<close>

definition wrap64 :: "int \<Rightarrow> int" where
  "wrap64 n = (n + 2 ^ 63) mod 2 ^ 64 - 2 ^ 63"

lemma wrap64_id: "- (2 ^ 63) \<le> n \<Longrightarrow> n < 2 ^ 63 \<Longrightarrow> wrap64 n = n"
  by (simp add: wrap64_def)

section \<open>Lists\<close>

lemma all_splits_Cons:
  "(\<forall>pre y post. x # xs = pre @ y # post \<longrightarrow> Q pre y)
     \<longleftrightarrow> Q [] x \<and> (\<forall>pre y post. xs = pre @ y # post \<longrightarrow> Q (x # pre) y)"
  unfolding Cons_eq_append_conv by blast

lemma find_SomeD: "find P xs = Some x \<Longrightarrow> x \<in> set xs \<and> P x"
  by (induction xs) (auto split: if_splits)

lemma take_append_same [simp]: "n = length xs \<Longrightarrow> take n (xs @ ys) = xs"
  by simp

lemma drop_append_same [simp]: "n = length xs \<Longrightarrow> drop n (xs @ ys) = ys"
  by simp

lemma length_filter_update:
  "i < length xs \<Longrightarrow> length (filter P (xs[i := y]))
     = length (filter P xs) + (if P y then 1 else 0) - (if P (xs ! i) then 1 else 0)"
proof (induction xs arbitrary: i)
  case (Cons x xs)
  have "i' < length xs \<Longrightarrow> P (xs ! i') \<Longrightarrow> 0 < length (filter P xs)" for i'
    by (auto simp: filter_empty_conv)
  with Cons show ?case by (cases i) auto
qed simp

lemma map_xor_cancel:
  fixes xs :: "'a::len word list"
  assumes "length xs \<le> length ys"
  shows "map2 (XOR) (map2 (XOR) xs ys) ys = xs"
  using assms
proof (induction xs arbitrary: ys)
  case Nil
  then show ?case by simp
next
  case (Cons x xs)
  then show ?case by (cases ys) (auto simp: xor.assoc)
qed

end
