(* ===== verification/TtlStore.thy ===== *)
theory TtlStore
  imports Prelude
begin

text \<open>
  The contract of a store of values that expire: what the caches of the program promise to
  the code that calls them. A value put at time \<open>t\<close> is found until \<open>t\<close> plus the store's time
  to live, other keys are untouched, and a removed key is gone. The client's view of any
  sequence of calls is proved once here.
\<close>

datatype 'v store_op = Put time string 'v | Remove string

locale ttl_store =
  fixes inv :: "'s \<Rightarrow> bool"
    and lookup :: "time \<Rightarrow> string \<Rightarrow> 's \<Rightarrow> 'v option"
    and put :: "time \<Rightarrow> string \<Rightarrow> 'v \<Rightarrow> 's \<Rightarrow> 's"
    and remove :: "string \<Rightarrow> 's \<Rightarrow> 's"
    and ttl :: "'s \<Rightarrow> time"
  assumes put_inv: "inv s \<Longrightarrow> inv (put t k v s)"
    and remove_inv: "inv s \<Longrightarrow> inv (remove k s)"
    and lookup_put: "inv s \<Longrightarrow> lookup t' k' (put t k v s)
      = (if k' = k then (if t' \<le> t + ttl s then Some v else None) else lookup t' k' s)"
    and lookup_remove: "inv s \<Longrightarrow> lookup t' k' (remove k s) = (if k' = k then None else lookup t' k' s)"
    and ttl_put: "ttl (put t k v s) = ttl s"
    and ttl_remove: "ttl (remove k s) = ttl s"
    and lookup_earlier: "lookup t k s = Some v \<Longrightarrow> t' \<le> t \<Longrightarrow> lookup t' k s = Some v"
begin

fun apply_op :: "'v store_op \<Rightarrow> 's \<Rightarrow> 's" where
  "apply_op (Put t k v) s = put t k v s"
| "apply_op (Remove k) s = remove k s"

definition run :: "'v store_op list \<Rightarrow> 's \<Rightarrow> 's" where
  "run ops s = fold apply_op ops s"

text \<open>The abstract store: the last operation on a key decides what a lookup returns.\<close>

fun answer :: "time \<Rightarrow> time \<Rightarrow> string \<Rightarrow> 'v store_op list \<Rightarrow> 'v option \<Rightarrow> 'v option" where
  "answer d t k [] old = old"
| "answer d t k (Put t0 k0 v # ops) old =
     answer d t k ops (if k = k0 then (if t \<le> t0 + d then Some v else None) else old)"
| "answer d t k (Remove k0 # ops) old = answer d t k ops (if k = k0 then None else old)"

lemma apply_op_inv: "inv s \<Longrightarrow> inv (apply_op x s)"
  by (cases x) (auto intro: put_inv remove_inv)

lemma apply_op_ttl: "ttl (apply_op x s) = ttl s"
  by (cases x) (auto simp: ttl_put ttl_remove)

lemma run_inv: "inv s \<Longrightarrow> inv (run ops s)"
  unfolding run_def by (induction ops arbitrary: s) (auto intro: apply_op_inv)

theorem run_refines_answer:
  "inv s \<Longrightarrow> lookup t k (run ops s) = answer (ttl s) t k ops (lookup t k s)"
  unfolding run_def
proof (induction ops arbitrary: s)
  case Nil
  then show ?case by simp
next
  case (Cons x ops)
  then have "lookup t k (fold apply_op ops (apply_op x s))
      = answer (ttl (apply_op x s)) t k ops (lookup t k (apply_op x s))"
    by (intro Cons.IH apply_op_inv)
  with Cons.prems show ?case
    by (cases x) (simp_all add: apply_op_ttl ttl_put ttl_remove lookup_put lookup_remove)
qed

lemma hit_after_put: "inv s \<Longrightarrow> t' \<le> t + ttl s \<Longrightarrow> lookup t' k (put t k v s) = Some v"
  by (simp add: lookup_put)

lemma miss_after_expiry: "inv s \<Longrightarrow> t + ttl s < t' \<Longrightarrow> lookup t' k (put t k v s) = None"
  by (simp add: lookup_put)

end

end
