(* ===== verification/KeyCache.thy ===== *)
theory KeyCache
  imports TtlStore
begin

text \<open>
  The in-memory cache of decrypted keys (internal/encrypt/key_cache.go). Buffers are
  addresses of a memory, because the code copies keys on the way in and out so that nobody
  else can change a cached key, and overwrites the cached copy with zeros when it drops it.
\<close>

section \<open>State and operations\<close>

record cached_key =
  ck_key :: nat
  ck_expires :: time

record key_cache =
  kc_cache :: "(string \<times> cached_key) list"
  kc_ttl :: time

definition new_key_cache :: "int \<Rightarrow> key_cache" where
  "new_key_cache ttl_seconds = \<lparr>kc_cache = [], kc_ttl = ttl_seconds * second\<rparr>"

definition zero_bytes :: "nat \<Rightarrow> mem \<Rightarrow> mem" where
  "zero_bytes a m = write_buf a (map (\<lambda>_. 0) (heap m a)) m"

definition kc_get :: "time \<Rightarrow> string \<Rightarrow> key_cache \<Rightarrow> mem \<Rightarrow> nat option \<times> mem" where
  "kc_get now k kc m =
     (case map_of (kc_cache kc) k of
        None \<Rightarrow> (None, m)
      | Some c \<Rightarrow>
          if now > ck_expires c then (None, m)
          else (let (a, m') = alloc (heap m (ck_key c)) m in (Some a, m')))"

definition kc_set :: "time \<Rightarrow> string \<Rightarrow> nat \<Rightarrow> key_cache \<Rightarrow> mem \<Rightarrow> key_cache \<times> mem" where
  "kc_set now k key kc m =
     (let (a, m') = alloc (heap m key) m
      in (kc\<lparr>kc_cache := AList.update k \<lparr>ck_key = a, ck_expires = now + kc_ttl kc\<rparr> (kc_cache kc)\<rparr>, m'))"

definition kc_delete :: "string \<Rightarrow> key_cache \<Rightarrow> mem \<Rightarrow> key_cache \<times> mem" where
  "kc_delete k kc m =
     (case map_of (kc_cache kc) k of
        None \<Rightarrow> (kc, m)
      | Some c \<Rightarrow> (kc\<lparr>kc_cache := AList.delete k (kc_cache kc)\<rparr>, zero_bytes (ck_key c) m))"

definition kc_clear :: "key_cache \<Rightarrow> mem \<Rightarrow> key_cache \<times> mem" where
  "kc_clear kc m =
     (kc\<lparr>kc_cache := []\<rparr>, fold (\<lambda>e. zero_bytes (ck_key (snd e))) (kc_cache kc) m)"

text \<open>One tick of the cleanup goroutine: the body of the loop, for every entry of the map.\<close>

definition kc_cleanup :: "time \<Rightarrow> key_cache \<Rightarrow> mem \<Rightarrow> key_cache \<times> mem" where
  "kc_cleanup now kc m =
     fold (\<lambda>(k, c) (kc, m).
         if now > ck_expires c
         then (kc\<lparr>kc_cache := AList.delete k (kc_cache kc)\<rparr>, zero_bytes (ck_key c) m)
         else (kc, m)) (kc_cache kc) (kc, m)"

definition kc_size :: "key_cache \<Rightarrow> nat" where
  "kc_size kc = length (kc_cache kc)"

section \<open>Invariant\<close>

text \<open>
  Keys are distinct, every cached buffer is allocated, and no two entries share a buffer.
\<close>

definition kc_owned :: "key_cache \<Rightarrow> nat set" where
  "kc_owned kc = ck_key ` ran (map_of (kc_cache kc))"

definition kc_ok :: "key_cache \<Rightarrow> mem \<Rightarrow> bool" where
  "kc_ok kc m \<longleftrightarrow> distinct (keys (kc_cache kc))
     \<and> (\<forall>k c. map_of (kc_cache kc) k = Some c \<longrightarrow> ck_key c < brk m)
     \<and> (\<forall>k k' c c'. map_of (kc_cache kc) k = Some c \<longrightarrow> map_of (kc_cache kc) k' = Some c'
          \<longrightarrow> ck_key c = ck_key c' \<longrightarrow> k = k')"

lemma heap_zero_bytes [mem_simps]:
  "heap (zero_bytes a m) = (heap m)(a := map (\<lambda>_. 0) (heap m a))"
  by (simp add: zero_bytes_def mem_simps)

lemma brk_zero_bytes [mem_simps]: "brk (zero_bytes a m) = brk m"
  by (simp add: zero_bytes_def mem_simps)

lemma heap_zero_fold:
  "heap (fold (\<lambda>e. zero_bytes (f e)) es m) a
     = (if a \<in> f ` set es then map (\<lambda>_. 0) (heap m a) else heap m a)"
  by (induction es arbitrary: m) (auto simp: mem_simps)

lemma brk_zero_fold [mem_simps]: "brk (fold (\<lambda>e. zero_bytes (f e)) es m) = brk m"
  by (induction es arbitrary: m) (auto simp: mem_simps)

lemma kc_owned_iff: "a \<in> kc_owned kc \<longleftrightarrow> (\<exists>k c. map_of (kc_cache kc) k = Some c \<and> a = ck_key c)"
  by (auto simp: kc_owned_def ran_def)

lemma kc_ok_owned_below: "kc_ok kc m \<Longrightarrow> a \<in> kc_owned kc \<Longrightarrow> a < brk m"
  by (auto simp: kc_ok_def kc_owned_iff)

lemma kc_ok_below: "kc_ok kc m \<Longrightarrow> map_of (kc_cache kc) k = Some c \<Longrightarrow> ck_key c < brk m"
  unfolding kc_ok_def by blast

lemma kc_ok_distinct: "kc_ok kc m \<Longrightarrow> distinct (keys (kc_cache kc))"
  by (simp add: kc_ok_def)

lemma kc_owned_mono:
  "(\<And>k c. map_of (kc_cache kc') k = Some c \<Longrightarrow> map_of (kc_cache kc) k = Some c)
    \<Longrightarrow> kc_owned kc' \<subseteq> kc_owned kc"
  unfolding kc_owned_iff subset_iff by blast

lemma kc_ok_new [inv_intros]: "kc_ok (new_key_cache n) m"
  by (simp add: kc_ok_def new_key_cache_def)

lemma kc_ok_brk_mono: "kc_ok kc m \<Longrightarrow> brk m \<le> brk m' \<Longrightarrow> kc_ok kc m'"
  by (force simp: kc_ok_def)

lemma kc_get_brk: "brk m \<le> brk (snd (kc_get now k kc m))"
  by (auto simp: kc_get_def alloc_def split: option.splits)

lemma kc_get_ok [inv_intros]: "kc_ok kc m \<Longrightarrow> kc_ok kc (snd (kc_get now k kc m))"
  by (rule kc_ok_brk_mono [OF _ kc_get_brk])

lemma kc_set_eq:
  "kc_set now k a kc m =
     (kc\<lparr>kc_cache := AList.update k \<lparr>ck_key = brk m, ck_expires = now + kc_ttl kc\<rparr> (kc_cache kc)\<rparr>,
      m\<lparr>heap := (heap m)(brk m := heap m a), brk := Suc (brk m)\<rparr>)"
  by (simp add: kc_set_def alloc_def)

lemma kc_set_ok [inv_intros]:
  assumes ok: "kc_ok kc m" and set: "kc_set now k a kc m = (kc', m')"
  shows "kc_ok kc' m'"
proof -
  have below: "ck_key c < brk m" if "map_of (kc_cache kc) j = Some c" for j c
    using ok that by (simp add: kc_ok_def)
  have uniq: "i = j" if "map_of (kc_cache kc) i = Some c" "map_of (kc_cache kc) j = Some c'"
      "ck_key c = ck_key c'" for i j c c'
    using ok that unfolding kc_ok_def by blast
  have lookup: "map_of (kc_cache kc') j = (if j = k
      then Some \<lparr>ck_key = brk m, ck_expires = now + kc_ttl kc\<rparr> else map_of (kc_cache kc) j)" for j
    using set by (auto simp: kc_set_eq)
  have "distinct (keys (kc_cache kc'))" using set ok by (auto simp: kc_set_eq kc_ok_def)
  moreover have "\<forall>j c. map_of (kc_cache kc') j = Some c \<longrightarrow> ck_key c < brk m'"
    using set below by (auto simp: lookup kc_set_eq less_SucI split: if_splits)
  moreover have "i = j" if "map_of (kc_cache kc') i = Some c" "map_of (kc_cache kc') j = Some c'"
      "ck_key c = ck_key c'" for i j c c'
    using that below [of i c] below [of j c'] uniq [of i c j c'] by (auto simp: lookup split: if_splits)
  ultimately show ?thesis unfolding kc_ok_def by blast
qed

lemma kc_delete_ok [inv_intros]: "kc_ok kc m \<Longrightarrow> kc_delete k kc m = (kc', m') \<Longrightarrow> kc_ok kc' m'"
  by (auto simp: kc_ok_def kc_delete_def mem_simps split: option.splits if_splits)

lemma kc_clear_ok [inv_intros]: "kc_clear kc m = (kc', m') \<Longrightarrow> kc_ok kc' m'"
  by (auto simp: kc_ok_def kc_clear_def)

subsection \<open>The cleanup loop\<close>

text \<open>
  The loop deletes while it ranges over the map. Seen from outside it drops exactly the
  expired entries and zeroes exactly their buffers.
\<close>

lemma cleanup_loop:
  "fold (\<lambda>(k, c) (kc, m).
       if now > ck_expires c
       then (kc\<lparr>kc_cache := AList.delete k (kc_cache kc)\<rparr>, zero_bytes (ck_key c) m)
       else (kc, m)) es (kc, m)
   = (kc\<lparr>kc_cache := fold (\<lambda>e. AList.delete (fst e)) (filter (\<lambda>e. now > ck_expires (snd e)) es) (kc_cache kc)\<rparr>,
      fold (\<lambda>e. zero_bytes (ck_key (snd e))) (filter (\<lambda>e. now > ck_expires (snd e)) es) m)"
  by (induction es arbitrary: kc m) auto

lemma map_of_fold_delete:
  "map_of (fold (\<lambda>e. AList.delete (fst e)) es al) k
     = (if k \<in> fst ` set es then None else map_of al k)"
  by (induction es arbitrary: al) auto

lemma distinct_fold_delete:
  "distinct (keys al) \<Longrightarrow> distinct (keys (fold (\<lambda>e. AList.delete (fst e)) es al))"
  by (induction es arbitrary: al) auto

lemma kc_cleanup_lookup:
  assumes "distinct (keys (kc_cache kc))"
  shows "map_of (kc_cache (fst (kc_cleanup now kc m))) k
    = (case map_of (kc_cache kc) k of None \<Rightarrow> None
       | Some c \<Rightarrow> if now > ck_expires c then None else Some c)"
proof -
  have "k \<in> fst ` set (filter (\<lambda>e. now > ck_expires (snd e)) (kc_cache kc))
      \<longleftrightarrow> (\<exists>c. map_of (kc_cache kc) k = Some c \<and> now > ck_expires c)"
    using map_of_eq_Some_iff [OF assms] by force
  then show ?thesis
    by (auto simp: kc_cleanup_def cleanup_loop map_of_fold_delete split: option.splits)
qed

lemma kc_cleanup_heap:
  assumes "distinct (keys (kc_cache kc))"
  shows "heap (snd (kc_cleanup now kc m)) a
    = (if \<exists>k c. map_of (kc_cache kc) k = Some c \<and> ck_key c = a \<and> now > ck_expires c
       then map (\<lambda>_. 0) (heap m a) else heap m a)"
proof -
  have "a \<in> (\<lambda>e. ck_key (snd e)) ` set (filter (\<lambda>e. now > ck_expires (snd e)) (kc_cache kc))
      \<longleftrightarrow> (\<exists>k c. map_of (kc_cache kc) k = Some c \<and> ck_key c = a \<and> now > ck_expires c)"
    using map_of_eq_Some_iff [OF assms] by force
  then show ?thesis by (auto simp: kc_cleanup_def cleanup_loop heap_zero_fold)
qed

lemma kc_cleanup_brk: "brk (snd (kc_cleanup now kc m)) = brk m"
  by (simp add: kc_cleanup_def cleanup_loop mem_simps)

lemma kc_cleanup_ok [inv_intros]:
  assumes "kc_ok kc m" and "kc_cleanup now kc m = (kc', m')"
  shows "kc_ok kc' m'"
proof -
  have d: "distinct (keys (kc_cache kc))" using assms(1) by (simp add: kc_ok_def)
  have kc': "kc' = fst (kc_cleanup now kc m)" and m': "m' = snd (kc_cleanup now kc m)"
    using assms(2) by auto
  have "distinct (keys (kc_cache kc'))"
    using d by (simp add: kc' kc_cleanup_def cleanup_loop distinct_fold_delete)
  then show ?thesis using assms(1)
    by (auto simp: kc_ok_def kc' m' kc_cleanup_lookup [OF d] kc_cleanup_brk
        split: option.splits if_splits)
qed

section \<open>Behaviour\<close>

lemma zeroed_key: "heap (zero_bytes a m) a = replicate (length (heap m a)) 0"
  by (simp add: mem_simps map_replicate_const)

text \<open>The value a caller reads through the buffer that \<open>kc_get\<close> hands out.\<close>

definition kc_lookup :: "time \<Rightarrow> string \<Rightarrow> key_cache \<times> mem \<Rightarrow> bytes option" where
  "kc_lookup now k s =
     (case kc_get now k (fst s) (snd s) of
        (None, _) \<Rightarrow> None | (Some a, m') \<Rightarrow> Some (heap m' a))"

text \<open>A caller that stores the bytes \<open>v\<close>: it has them in a buffer of its own.\<close>

definition kc_put :: "time \<Rightarrow> string \<Rightarrow> bytes \<Rightarrow> key_cache \<times> mem \<Rightarrow> key_cache \<times> mem" where
  "kc_put now k v s = (let (a, m) = alloc v (snd s) in kc_set now k a (fst s) m)"

definition kc_remove :: "string \<Rightarrow> key_cache \<times> mem \<Rightarrow> key_cache \<times> mem" where
  "kc_remove k s = kc_delete k (fst s) (snd s)"

lemma kc_lookup_eq:
  "kc_lookup now k (kc, m) =
     (case map_of (kc_cache kc) k of None \<Rightarrow> None
      | Some c \<Rightarrow> if now > ck_expires c then None else Some (heap m (ck_key c)))"
  by (simp add: kc_lookup_def kc_get_def alloc_def split: option.split)

lemma kc_get_fresh:
  assumes "kc_ok kc m" and "kc_get now k kc m = (Some a, m')"
  shows "a \<notin> kc_owned kc" and "a < brk m'" and "brk m \<le> a"
proof -
  have a: "a = brk m" "brk m' = Suc (brk m)"
    using assms(2) by (auto simp: kc_get_def alloc_def split: option.splits if_splits)
  then show "a < brk m'" "brk m \<le> a" by simp_all
  show "a \<notin> kc_owned kc" using kc_ok_owned_below [OF assms(1), of a] a by auto
qed

text \<open>No buffer outside the cache carries cached contents by reference.\<close>

lemma kc_lookup_foreign_write:
  "a \<notin> kc_owned kc \<Longrightarrow> kc_lookup now k (kc, write_buf a bs m) = kc_lookup now k (kc, m)"
  by (auto simp: kc_lookup_eq mem_simps kc_owned_iff split: option.split)

interpretation key_store: ttl_store
  "\<lambda>s. kc_ok (fst s) (snd s)" kc_lookup kc_put kc_remove "\<lambda>s. kc_ttl (fst s)"
proof (unfold_locales, goal_cases)
  case (1 s t k v)
  then have "kc_ok (fst s) (snd (alloc v (snd s)))"
    by (rule kc_ok_brk_mono) (simp add: mem_simps)
  then show ?case
    by (cases "alloc v (snd s)") (auto simp: kc_put_def intro: kc_set_ok split: prod.split)
next
  case (2 s k)
  then show ?case
    by (cases "kc_remove k s") (auto simp: kc_remove_def intro: kc_delete_ok)
next
  case (3 s t' k' t k v)
  obtain kc m where s: "s = (kc, m)" by (cases s)
  have "ck_key c < brk m" if "map_of (kc_cache kc) k' = Some c" for c
    using 3 s that kc_ok_below by fastforce
  then show ?case
    by (auto simp: s kc_put_def kc_set_def alloc_def kc_lookup_eq split: option.split dest: less_imp_neq)
next
  case (4 s t' k' k)
  obtain kc m where s: "s = (kc, m)" by (cases s)
  show ?case
  proof (cases "map_of (kc_cache kc) k")
    case None
    then show ?thesis by (simp add: s kc_remove_def kc_delete_def kc_lookup_eq)
  next
    case (Some c)
    have "ck_key c' \<noteq> ck_key c" if "map_of (kc_cache kc) k' = Some c'" "k' \<noteq> k" for c'
      using 4 that Some unfolding s kc_ok_def fst_conv snd_conv by metis
    with Some show ?thesis
      by (auto simp: s kc_remove_def kc_delete_def kc_lookup_eq mem_simps split: option.splits)
  qed
next
  case (5 t k v s)
  then show ?case by (simp add: kc_put_def kc_set_def alloc_def)
next
  case (6 k s)
  then show ?case by (simp add: kc_remove_def kc_delete_def split: option.split)
next
  case (7 t k s v t')
  then show ?case by (cases s) (auto simp: kc_lookup_eq split: option.splits if_splits)
qed

text \<open>What the cache holds, expired or not: the view of the services that keep it coherent.\<close>

definition kc_contents :: "key_cache \<Rightarrow> mem \<Rightarrow> string \<Rightarrow> bytes option" where
  "kc_contents kc m k = map_option (\<lambda>c. heap m (ck_key c)) (map_of (kc_cache kc) k)"

lemma kc_get_contents:
  "kc_get now k kc m = (Some a, m') \<Longrightarrow> kc_contents kc m k = Some (heap m' a)"
  by (auto simp: kc_get_def kc_contents_def alloc_def split: option.splits if_splits)

lemma kc_contents_alloc:
  "kc_ok kc m \<Longrightarrow> kc_contents kc (snd (alloc bs m)) k = kc_contents kc m k"
  by (cases "map_of (kc_cache kc) k")
    (auto simp: kc_contents_def mem_simps dest: kc_ok_below)

lemma kc_contents_zero: "a \<notin> kc_owned kc \<Longrightarrow> kc_contents kc (zero_bytes a m) k = kc_contents kc m k"
  by (cases "map_of (kc_cache kc) k") (auto simp: kc_contents_def mem_simps kc_owned_iff)

lemma kc_contents_set:
  assumes "kc_ok kc m"
  shows "kc_contents (fst (kc_set now k a kc m)) (snd (kc_set now k a kc m)) k'
    = (if k' = k then Some (heap m a) else kc_contents kc m k')"
proof (cases "map_of (kc_cache kc) k'")
  case None
  then show ?thesis by (simp add: kc_contents_def kc_set_eq)
next
  case (Some c)
  with kc_ok_below [OF assms this] show ?thesis by (auto simp: kc_contents_def kc_set_eq)
qed

lemma kc_contents_delete:
  assumes "kc_ok kc m"
  shows "kc_contents (fst (kc_delete k kc m)) (snd (kc_delete k kc m)) k'
    = (if k' = k then None else kc_contents kc m k')"
proof (cases "map_of (kc_cache kc) k")
  case None
  then show ?thesis by (simp add: kc_contents_def kc_delete_def)
next
  case (Some c)
  have "ck_key c' \<noteq> ck_key c" if "map_of (kc_cache kc) k' = Some c'" "k' \<noteq> k" for c'
    using assms Some that unfolding kc_ok_def by metis
  with Some show ?thesis
    by (cases "map_of (kc_cache kc) k'") (auto simp: kc_contents_def kc_delete_def mem_simps)
qed

lemma kc_contents_cleanup:
  assumes "kc_ok kc m" and "kc_contents (fst (kc_cleanup now kc m)) (snd (kc_cleanup now kc m)) k = Some v"
  shows "kc_contents kc m k = Some v"
proof -
  note d = kc_ok_distinct [OF assms(1)]
  obtain c where c: "map_of (kc_cache kc) k = Some c" "\<not> now > ck_expires c"
    and v: "v = heap (snd (kc_cleanup now kc m)) (ck_key c)"
    using assms(2) by (auto simp: kc_contents_def kc_cleanup_lookup [OF d] split: option.splits if_splits)
  have "\<not> (\<exists>k' c'. map_of (kc_cache kc) k' = Some c' \<and> ck_key c' = ck_key c \<and> now > ck_expires c')"
    using assms(1) c unfolding kc_ok_def by (metis option.inject)
  then have "heap (snd (kc_cleanup now kc m)) (ck_key c) = heap m (ck_key c)"
    by (subst kc_cleanup_heap [OF d]) (rule if_not_P, blast)
  then show ?thesis using c v by (simp add: kc_contents_def)
qed

section \<open>The cache among its callers\<close>

text \<open>
  Any interleaving of cache operations, cleanup ticks and writes that callers make to
  buffers they hold. A caller holds the buffers it allocated and those \<open>kc_get\<close> returned;
  \<open>held\<close> is that set.
\<close>

record kc_world =
  w_cache :: key_cache
  w_mem :: mem
  held :: "nat set"

inductive kc_step :: "kc_world \<Rightarrow> kc_world \<Rightarrow> bool" where
  caller_alloc: "alloc bs (w_mem w) = (a, m) \<Longrightarrow>
    kc_step w (w\<lparr>w_mem := m, held := insert a (held w)\<rparr>)"
| caller_write: "a \<in> held w \<Longrightarrow> kc_step w (w\<lparr>w_mem := write_buf a bs (w_mem w)\<rparr>)"
| get_hit: "kc_get now k (w_cache w) (w_mem w) = (Some a, m) \<Longrightarrow>
    kc_step w (w\<lparr>w_mem := m, held := insert a (held w)\<rparr>)"
| get_miss: "kc_get now k (w_cache w) (w_mem w) = (None, m) \<Longrightarrow> kc_step w (w\<lparr>w_mem := m\<rparr>)"
| set_key: "a \<in> held w \<Longrightarrow> kc_set now k a (w_cache w) (w_mem w) = (kc, m) \<Longrightarrow>
    kc_step w (w\<lparr>w_cache := kc, w_mem := m\<rparr>)"
| delete_key: "kc_delete k (w_cache w) (w_mem w) = (kc, m) \<Longrightarrow>
    kc_step w (w\<lparr>w_cache := kc, w_mem := m\<rparr>)"
| clear_all: "kc_clear (w_cache w) (w_mem w) = (kc, m) \<Longrightarrow>
    kc_step w (w\<lparr>w_cache := kc, w_mem := m\<rparr>)"
| cleanup_tick: "kc_cleanup now (w_cache w) (w_mem w) = (kc, m) \<Longrightarrow>
    kc_step w (w\<lparr>w_cache := kc, w_mem := m\<rparr>)"

inductive_cases kc_stepE: "kc_step w w'"

definition kc_initial :: "int \<Rightarrow> kc_world" where
  "kc_initial n = \<lparr>w_cache = new_key_cache n, w_mem = empty_mem, held = {}\<rparr>"

definition kc_separate :: "kc_world \<Rightarrow> bool" where
  "kc_separate w \<longleftrightarrow> kc_ok (w_cache w) (w_mem w) \<and> held w \<inter> kc_owned (w_cache w) = {}
     \<and> (\<forall>a \<in> held w. a < brk (w_mem w))"

lemma kc_owned_set: "kc_owned (fst (kc_set now k a kc m)) \<subseteq> insert (brk m) (kc_owned kc)"
  by (auto simp: kc_owned_iff kc_set_eq split: if_splits)

lemma kc_owned_delete: "kc_owned (fst (kc_delete k kc m)) \<subseteq> kc_owned kc"
  by (rule kc_owned_mono) (auto simp: kc_delete_def split: option.splits if_splits)

lemma kc_owned_clear: "kc_owned (fst (kc_clear kc m)) = {}"
  by (auto simp: kc_owned_iff kc_clear_def)

lemma kc_owned_cleanup: "kc_ok kc m \<Longrightarrow> kc_owned (fst (kc_cleanup now kc m)) \<subseteq> kc_owned kc"
  by (rule kc_owned_mono)
    (simp add: kc_cleanup_lookup [OF kc_ok_distinct] split: option.splits if_splits)

lemma brk_ops:
  "brk (snd (kc_set now k a kc m)) = Suc (brk m)" "brk (snd (kc_delete k kc m)) = brk m"
  "brk (snd (kc_clear kc m)) = brk m" "brk (snd (kc_cleanup now kc m)) = brk m"
  by (auto simp: kc_set_eq kc_delete_def kc_clear_def kc_cleanup_brk mem_simps split: option.split)

lemma kc_separate_update:
  assumes "kc_separate w" and "kc_ok kc m"
    and "kc_owned kc \<subseteq> insert (brk (w_mem w)) (kc_owned (w_cache w))"
    and "brk (w_mem w) \<le> brk m"
  shows "kc_separate (w\<lparr>w_cache := kc, w_mem := m\<rparr>)"
proof -
  have "brk (w_mem w) \<notin> held w" using assms(1) by (auto simp: kc_separate_def)
  then show ?thesis using assms by (force simp: kc_separate_def)
qed

lemma kc_separate_hold:
  assumes "kc_separate w" and "a = brk (w_mem w)" and "brk m = Suc (brk (w_mem w))"
  shows "kc_separate (w\<lparr>w_mem := m, held := insert a (held w)\<rparr>)"
proof -
  have "a \<notin> kc_owned (w_cache w)"
    using assms kc_ok_owned_below by (fastforce simp: kc_separate_def)
  moreover have "kc_ok (w_cache w) m"
    using assms kc_ok_brk_mono [of "w_cache w" "w_mem w" m] by (simp add: kc_separate_def)
  ultimately show ?thesis using assms by (auto simp: kc_separate_def less_SucI)
qed

lemma kc_step_separate: "kc_step w w' \<Longrightarrow> kc_separate w \<Longrightarrow> kc_separate w'"
proof (induction rule: kc_step.induct)
  case (caller_alloc bs w a m)
  then show ?case by (intro kc_separate_hold) (auto simp: alloc_def)
next
  case (caller_write a w bs)
  then show ?case
    by (auto simp: kc_separate_def mem_simps intro: kc_ok_brk_mono)
next
  case (get_hit now k w a m)
  then show ?case
    by (intro kc_separate_hold) (auto simp: kc_get_def alloc_def split: option.splits if_splits)
next
  case (get_miss now k w m)
  then have "m = w_mem w" by (auto simp: kc_get_def alloc_def split: option.splits if_splits)
  with get_miss show ?case by simp
next
  case (set_key a w now k kc m)
  moreover have "kc = fst (kc_set now k a (w_cache w) (w_mem w))"
      "m = snd (kc_set now k a (w_cache w) (w_mem w))" using set_key by simp_all
  ultimately show ?case
    using kc_owned_set [of now k a "w_cache w" "w_mem w"] kc_set_ok
    by (intro kc_separate_update) (auto simp: brk_ops kc_separate_def)
next
  case (delete_key k w kc m)
  moreover have "kc = fst (kc_delete k (w_cache w) (w_mem w))"
      "m = snd (kc_delete k (w_cache w) (w_mem w))" using delete_key by simp_all
  ultimately show ?case
    using kc_owned_delete [of k "w_cache w" "w_mem w"] kc_delete_ok
    by (intro kc_separate_update) (auto simp: brk_ops kc_separate_def)
next
  case (clear_all w kc m)
  moreover have "kc = fst (kc_clear (w_cache w) (w_mem w))"
      "m = snd (kc_clear (w_cache w) (w_mem w))" using clear_all by simp_all
  ultimately show ?case
    using kc_owned_clear [of "w_cache w" "w_mem w"] kc_clear_ok
    by (intro kc_separate_update) (auto simp: brk_ops kc_separate_def)
next
  case (cleanup_tick now w kc m)
  moreover have "kc = fst (kc_cleanup now (w_cache w) (w_mem w))"
      "m = snd (kc_cleanup now (w_cache w) (w_mem w))" using cleanup_tick by simp_all
  ultimately show ?case
    using kc_owned_cleanup [of "w_cache w" "w_mem w" now] kc_cleanup_ok
    by (intro kc_separate_update) (auto simp: brk_ops kc_separate_def)
qed

inductive kc_reachable :: "int \<Rightarrow> kc_world \<Rightarrow> bool" for n where
  start: "kc_reachable n (kc_initial n)"
| step: "kc_reachable n w \<Longrightarrow> kc_step w w' \<Longrightarrow> kc_reachable n w'"

lemma kc_reachable_separate: "kc_reachable n w \<Longrightarrow> kc_separate w"
proof (induction rule: kc_reachable.induct)
  case start
  show ?case
    by (simp add: kc_separate_def kc_initial_def kc_ok_new)
next
  case (step w w')
  then show ?case by (blast intro: kc_step_separate)
qed

text \<open>
  C8: Cached keys cannot be changed from outside. In every state the callers and the cleanup
  goroutine can reach, a write to any buffer a caller holds (the ones it passed in and the
  copies it got back) leaves what the cache answers for every key unchanged.
\<close>

theorem cached_keys_isolated:
  assumes "kc_reachable n w" and "a \<in> held w"
  shows "kc_lookup now k (w_cache w, write_buf a bs (w_mem w)) = kc_lookup now k (w_cache w, w_mem w)"
  using kc_reachable_separate [OF assms(1)] assms(2)
  by (intro kc_lookup_foreign_write) (auto simp: kc_separate_def)

theorem cached_keys_isolated_witness:
  "\<exists>w a. kc_reachable 300 w \<and> a \<in> held w
     \<and> kc_lookup 0 ''k'' (w_cache w, write_buf a [0] (w_mem w)) = kc_lookup 0 ''k'' (w_cache w, w_mem w)"
proof -
  let ?w0 = "kc_initial 300"
  obtain a m where am: "alloc [1] (w_mem ?w0) = (a, m)" by fastforce
  let ?w1 = "?w0\<lparr>w_mem := m, held := insert a (held ?w0)\<rparr>"
  have "kc_reachable 300 ?w1"
    by (rule kc_reachable.step [OF kc_reachable.start kc_step.caller_alloc [OF am]])
  moreover have "a \<in> held ?w1" by simp
  ultimately show ?thesis using cached_keys_isolated [of 300 ?w1 a 0 "''k''" "[0]"] by blast
qed

text \<open>
  Dropped keys are scrubbed. After a delete, a clear or a cleanup tick, the buffer of every
  entry that is gone holds only zeros, and the entries that stay keep their contents.
\<close>

theorem dropped_keys_scrubbed:
  assumes "kc_ok kc m" and "map_of (kc_cache kc) k = Some c"
    and "r \<in> {kc_delete k kc m, kc_clear kc m, kc_cleanup now kc m}"
    and "map_of (kc_cache (fst r)) k = None"
  shows "heap (snd r) (ck_key c) = replicate (length (heap m (ck_key c))) 0
    \<and> (\<forall>j v. kc_contents (fst r) (snd r) j = Some v \<longrightarrow> kc_contents kc m j = Some v)"
proof -
  note d = kc_ok_distinct [OF assms(1)]
  consider "r = kc_delete k kc m" | "r = kc_clear kc m" | "r = kc_cleanup now kc m" using assms(3) by auto
  then show ?thesis
  proof cases
    case 1
    then show ?thesis using assms(2) kc_contents_delete [OF assms(1), of k]
      by (auto simp: kc_delete_def zeroed_key split: if_splits)
  next
    case 2
    then show ?thesis using map_of_SomeD [OF assms(2)]
      by (force simp: kc_clear_def heap_zero_fold kc_contents_def map_replicate_const)
  next
    case 3
    have "now > ck_expires c"
      using assms(2,4) 3 by (simp add: kc_cleanup_lookup [OF d] split: if_splits)
    then have "heap (snd r) (ck_key c) = map (\<lambda>_. 0) (heap m (ck_key c))"
      using assms(2) 3 by (auto simp: kc_cleanup_heap [OF d])
    then show ?thesis using kc_contents_cleanup [OF assms(1)] 3 by (auto simp: map_replicate_const)
  qed
qed

theorem dropped_keys_scrubbed_witness:
  "let m = \<lparr>heap = (\<lambda>_. []) (0 := [7, 7]), brk = 1\<rparr>;
       kc = \<lparr>kc_cache = [(''k'', \<lparr>ck_key = 0, ck_expires = 10\<rparr>)], kc_ttl = 300\<rparr>
   in heap (snd (kc_cleanup 11 kc m)) 0 = [0, 0]"
proof -
  let ?m = "\<lparr>heap = (\<lambda>_. []) (0 := [7, 7]), brk = 1\<rparr> :: mem"
  let ?kc = "\<lparr>kc_cache = [(''k'', \<lparr>ck_key = 0, ck_expires = 10\<rparr>)], kc_ttl = 300\<rparr>"
  have "kc_ok ?kc ?m" by (simp add: kc_ok_def)
  moreover have "map_of (kc_cache (fst (kc_cleanup 11 ?kc ?m))) ''k'' = None"
    by (simp add: kc_cleanup_def)
  ultimately have "heap (snd (kc_cleanup 11 ?kc ?m)) 0 = replicate (length (heap ?m 0)) 0"
    using dropped_keys_scrubbed [of ?kc ?m "''k''" "\<lparr>ck_key = 0, ck_expires = 10\<rparr>" "kc_cleanup 11 ?kc ?m" 11]
    by simp
  then show ?thesis by (simp add: numeral_2_eq_2)
qed

text \<open>
  C15: The cache is a store with expiry. After any sequence of puts and removals the answer for
  a key is decided by the last operation on that key: its value until 300 seconds (the time to
  live the cache was made with) after it was put, nothing afterwards or after a removal.
\<close>

theorem key_cache_refines_store:
  assumes "kc_ok kc m"
  shows "kc_lookup t k (key_store.run ops (kc, m)) = key_store.answer (kc_ttl kc) t k ops (kc_lookup t k (kc, m))"
  using key_store.run_refines_answer [of "(kc, m)" t k ops] assms by simp

theorem key_cache_refines_store_witness:
  "kc_lookup (200 * second) ''a''
     (key_store.run [Put 0 ''a'' [1], Put 5 ''b'' [2], Put 10 ''a'' [3]] (new_key_cache 300, empty_mem)) = Some [3]"
  by (subst key_cache_refines_store)
    (simp_all add: kc_ok_new, simp add: new_key_cache_def)

text \<open>
  Overwriting an entry is the one way a cached key leaves the cache without being zeroed: the
  old buffer is no longer referenced and keeps the key.
\<close>

lemma overwrite_keeps_old_key:
  assumes "kc_ok kc m" and "map_of (kc_cache kc) k = Some c" and "kc_set now k a kc m = (kc', m')"
  shows "heap m' (ck_key c) = heap m (ck_key c)" and "ck_key c \<notin> kc_owned kc'"
proof -
  have below: "ck_key c < brk m" by (rule kc_ok_below [OF assms(1,2)])
  show "heap m' (ck_key c) = heap m (ck_key c)" using below assms(3) by (auto simp: kc_set_eq)
  have "ck_key c' \<noteq> ck_key c" if "map_of (kc_cache kc') j = Some c'" for j c'
  proof (cases "j = k")
    case True
    with that assms(3) below show ?thesis by (auto simp: kc_set_eq)
  next
    case False
    with that assms(3) have "map_of (kc_cache kc) j = Some c'" by (auto simp: kc_set_eq)
    with False assms(1,2) show ?thesis unfolding kc_ok_def by metis
  qed
  then show "ck_key c \<notin> kc_owned kc'" by (fastforce simp: kc_owned_iff)
qed

end
