(* ===== verification/Kms.thy ===== *)
theory Kms
  imports Prelude
begin

text \<open>
  The interface to the key-management service (internal/encrypt/encryption_service.go,
  \<^verbatim>\<open>KMSClient\<close>), its AWS client and its mock client (internal/encrypt/kms_client.go).
\<close>

section \<open>The interface\<close>

record data_key =
  dk_plaintext :: bytes
  dk_ciphertext :: bytes
  dk_key_id :: string

datatype kms_error =
    AwsEncryptFailed string
  | AwsDecryptFailed string
  | AwsGenerateFailed string
  | KmsRefused string

type_synonym kms_fun = "string \<Rightarrow> bytes \<Rightarrow> kms_error + bytes"

text \<open>
  What every service relies on: a key that was encrypted under a key identifier is decrypted
  under the same identifier to the same bytes.
\<close>

locale kms_client =
  fixes encrypt :: kms_fun
    and decrypt :: kms_fun
  assumes decrypt_encrypt: "encrypt kid p = Inr c \<Longrightarrow> decrypt kid c = Inr p"
begin

lemma encrypt_inj: "encrypt kid p = Inr c \<Longrightarrow> encrypt kid p' = Inr c \<Longrightarrow> p = p'"
  by (metis decrypt_encrypt sum.inject(2))

end

text \<open>A provider that also generates data keys, wrapped under the requested key.\<close>

locale kms_generating = kms_client +
  fixes generate :: "string \<Rightarrow> kms_error + data_key"
  assumes generate_wraps: "generate kid = Inr dk
      \<Longrightarrow> dk_key_id dk = kid \<and> encrypt kid (dk_plaintext dk) = Inr (dk_ciphertext dk)"
begin

lemma generate_unwraps: "generate kid = Inr dk \<Longrightarrow> decrypt kid (dk_ciphertext dk) = Inr (dk_plaintext dk)"
  using generate_wraps decrypt_encrypt by blast

end

section \<open>The AWS client\<close>

text \<open>
  The three operations of the AWS API are parameters: \<open>api_encrypt\<close>, \<open>api_decrypt\<close> and
  \<open>api_generate\<close>. The client passes the key identifier and wraps the error.
\<close>

definition aws_encrypt :: "(string \<Rightarrow> bytes \<Rightarrow> string + bytes) \<Rightarrow> kms_fun" where
  "aws_encrypt api_encrypt key_id plaintext =
     (case api_encrypt key_id plaintext of
        Inl err \<Rightarrow> Inl (AwsEncryptFailed err)
      | Inr blob \<Rightarrow> Inr blob)"

definition aws_decrypt :: "(string \<Rightarrow> bytes \<Rightarrow> string + bytes) \<Rightarrow> kms_fun" where
  "aws_decrypt api_decrypt key_id ciphertext =
     (case api_decrypt key_id ciphertext of
        Inl err \<Rightarrow> Inl (AwsDecryptFailed err)
      | Inr plaintext \<Rightarrow> Inr plaintext)"

definition aws_generate_data_key ::
  "(string \<Rightarrow> string \<Rightarrow> string + bytes \<times> bytes) \<Rightarrow> string \<Rightarrow> kms_error + data_key" where
  "aws_generate_data_key api_generate key_id =
     (case api_generate key_id ''AES_256'' of
        Inl err \<Rightarrow> Inl (AwsGenerateFailed err)
      | Inr (plaintext, blob) \<Rightarrow>
          Inr \<lparr>dk_plaintext = plaintext, dk_ciphertext = blob, dk_key_id = key_id\<rparr>)"

lemma aws_client_lawful:
  assumes "\<And>kid p c. api_encrypt kid p = Inr c \<Longrightarrow> api_decrypt kid c = Inr p"
  shows "kms_client (aws_encrypt api_encrypt) (aws_decrypt api_decrypt)"
  by unfold_locales (auto simp: aws_encrypt_def aws_decrypt_def assms split: sum.splits)

section \<open>The mock client\<close>

text \<open>The master key is made with \<^verbatim>\<open>make\<close> and never filled.\<close>

definition new_mock_kms :: bytes where
  "new_mock_kms = replicate 32 0"

definition mock_xor :: "bytes \<Rightarrow> bytes \<Rightarrow> bytes" where
  "mock_xor master bs = map (\<lambda>i. bs ! i XOR master ! (i mod length master)) [0..<length bs]"

definition mock_encrypt :: "bytes \<Rightarrow> kms_fun" where
  "mock_encrypt master key_id plaintext = Inr (mock_xor master plaintext)"

definition mock_decrypt :: "bytes \<Rightarrow> kms_fun" where
  "mock_decrypt master key_id ciphertext = Inr (mock_xor master ciphertext)"

definition mock_generate_data_key :: "bytes \<Rightarrow> string \<Rightarrow> kms_error + data_key" where
  "mock_generate_data_key master key_id =
     (let dek = replicate 32 0
      in case mock_encrypt master key_id dek of
           Inl e \<Rightarrow> Inl e
         | Inr encrypted \<Rightarrow>
             Inr \<lparr>dk_plaintext = dek, dk_ciphertext = encrypted, dk_key_id = key_id\<rparr>)"

lemma length_mock_xor [simp]: "length (mock_xor master bs) = length bs"
  by (simp add: mock_xor_def)

lemma nth_mock_xor: "i < length bs \<Longrightarrow> mock_xor master bs ! i = bs ! i XOR master ! (i mod length master)"
  by (simp add: mock_xor_def)

lemma mock_xor_involution [simp]: "mock_xor master (mock_xor master bs) = bs"
  by (rule nth_equalityI) (simp_all add: nth_mock_xor xor.assoc)

interpretation mock: kms_generating "mock_encrypt master" "mock_decrypt master"
  "mock_generate_data_key master" for master
  by unfold_locales
    (auto simp: mock_encrypt_def mock_decrypt_def mock_generate_data_key_def Let_def)

lemma mock_xor_zero_key: "mock_xor (replicate n 0) bs = bs" if "0 < n"
  by (rule nth_equalityI) (use that in \<open>simp_all add: nth_mock_xor\<close>)

text \<open>
  The mock KMS round-trips every key under every key identifier: what it encrypts it
  decrypts to the same bytes, and a generated data key is delivered with its own wrapping.
\<close>

theorem mock_kms_round_trip:
  "(\<forall>c. mock_encrypt master kid p = Inr c \<longrightarrow> mock_decrypt master kid c = Inr p)
   \<and> (\<exists>dk. mock_generate_data_key master kid = Inr dk
        \<and> mock_decrypt master kid (dk_ciphertext dk) = Inr (dk_plaintext dk))"
proof -
  obtain dk where "mock_generate_data_key master kid = Inr dk"
    by (simp add: mock_generate_data_key_def mock_encrypt_def Let_def)
  then show ?thesis using mock.decrypt_encrypt mock.generate_unwraps by blast
qed

theorem mock_kms_round_trip_witness:
  "mock_encrypt [1, 2] ''k'' [7, 7, 7] = Inr [6, 5, 6] \<and> mock_decrypt [1, 2] ''k'' [6, 5, 6] = Inr [7, 7, 7]"
proof -
  have e: "mock_encrypt [1, 2] ''k'' [7, 7, 7] = Inr [6, 5, 6]"
    by (simp add: mock_encrypt_def mock_xor_def upt_rec numeral_eq_Suc)
  with mock_kms_round_trip [of "[1, 2]" "''k''" "[7, 7, 7]"] show ?thesis by blast
qed

text \<open>
  A mock client as the constructor builds it encrypts nothing: its master key is 32 zero
  bytes, so the ciphertext of every key is the key itself, and every generated data key is
  32 zero bytes.
\<close>

theorem mock_kms_is_identity:
  "mock_encrypt new_mock_kms kid p = Inr p
   \<and> (\<exists>dk. mock_generate_data_key new_mock_kms kid = Inr dk \<and> dk_plaintext dk = replicate 32 0)"
  by (simp add: mock_encrypt_def new_mock_kms_def mock_xor_zero_key mock_generate_data_key_def Let_def)

end
