(* ===== verification/GoLib.thy ===== *)
theory GoLib
  imports Prelude
begin

text \<open>
  The functions of Go's standard library that the modelled code calls: decimal printing
  (\<^verbatim>\<open>%d\<close>), string tests of package strings, and \<^verbatim>\<open>filepath.Join\<close> on component lists.
\<close>

section \<open>Decimal printing\<close>

definition digit_char :: "nat \<Rightarrow> char" where
  "digit_char d = char_of (48 + d)"

fun show_nat :: "nat \<Rightarrow> string" where
  "show_nat n = (if n < 10 then [digit_char n] else show_nat (n div 10) @ [digit_char (n mod 10)])"

declare show_nat.simps [simp del]

lemma digit_char_inj: "a < 10 \<Longrightarrow> b < 10 \<Longrightarrow> digit_char a = digit_char b \<longleftrightarrow> a = b"
proof
  assume "a < 10" "b < 10" "digit_char a = digit_char b"
  then have "of_char (char_of (48 + a) :: char) = (of_char (char_of (48 + b) :: char) :: nat)"
    by (simp add: digit_char_def)
  then show "a = b" using \<open>a < 10\<close> \<open>b < 10\<close> by (simp add: of_char_of)
qed simp

lemma show_nat_nonempty [simp]: "show_nat n \<noteq> []"
  by (subst show_nat.simps) simp

lemma Nil_show_nat [simp]: "[] \<noteq> show_nat n"
  using show_nat_nonempty [of n] by metis

lemma show_nat_inj: "show_nat a = show_nat b \<longleftrightarrow> a = b"
proof (induction a arbitrary: b rule: show_nat.induct)
  case (1 a)
  show ?case
  proof (cases "a < 10")
    case True
    then show ?thesis
      by (cases "b < 10")
         (auto simp: show_nat.simps [of a] show_nat.simps [of b] digit_char_inj)
  next
    case False
    note IH = "1.IH" [OF False]
    show ?thesis
    proof (cases "b < 10")
      case True
      with False show ?thesis by (subst (1 2) show_nat.simps) auto
    next
      case b: False
      then have "show_nat a = show_nat b
          \<longleftrightarrow> a div 10 = b div 10 \<and> a mod 10 = b mod 10"
        using False IH by (subst (1 2) show_nat.simps) (simp add: digit_char_inj)
      also have "\<dots> \<longleftrightarrow> a = b" by (metis div_mult_mod_eq)
      finally show ?thesis .
    qed
  qed
qed

lemma set_show_nat: "set (show_nat n) \<subseteq> digit_char ` {..<10}"
proof (induction n rule: show_nat.induct)
  case (1 n)
  show ?case
  proof (cases "n < 10")
    case True
    then show ?thesis by (subst show_nat.simps) auto
  next
    case False
    with "1.IH" show ?thesis by (subst show_nat.simps) auto
  qed
qed

definition show_int :: "int \<Rightarrow> string" where
  "show_int i = (if i < 0 then ''-'' @ show_nat (nat (- i)) else show_nat (nat i))"

lemma digit_not_minus: "d < 10 \<Longrightarrow> digit_char d \<noteq> CHR ''-''"
proof
  assume d: "d < 10" and "digit_char d = CHR ''-''"
  then have "of_char (digit_char d) = (of_char (CHR ''-'') :: nat)" by simp
  with d show False by (simp add: digit_char_def of_char_of)
qed

lemma digit_not_slash: "d < 10 \<Longrightarrow> digit_char d \<noteq> CHR ''/''"
proof
  assume d: "d < 10" and "digit_char d = CHR ''/''"
  then have "of_char (digit_char d) = (of_char (CHR ''/'') :: nat)" by simp
  with d show False by (simp add: digit_char_def of_char_of)
qed

lemma show_nat_no_slash: "CHR ''/'' \<notin> set (show_nat n)"
  using set_show_nat [of n] digit_not_slash by fastforce

lemma show_nat_no_minus: "CHR ''-'' \<notin> set (show_nat n)"
  using set_show_nat [of n] digit_not_minus by fastforce

lemma show_int_inj: "show_int a = show_int b \<longleftrightarrow> a = b"
proof -
  have "CHR ''-'' # xs \<noteq> show_nat n" for xs n
    using show_nat_no_minus [of n] by (metis list.set_intros(1))
  then show ?thesis
    by (auto simp: show_int_def show_nat_inj) metis+
qed

section \<open>Reading numbers\<close>

text \<open>\<^verbatim>\<open>strconv.Atoi\<close>: an optional sign and decimal digits, in the range of \<^verbatim>\<open>int\<close> (64 bits).\<close>

definition digit_value :: "char \<Rightarrow> nat option" where
  "digit_value c = (let n = of_char c :: nat in if 48 \<le> n \<and> n \<le> 57 then Some (n - 48) else None)"

fun read_digits :: "nat \<Rightarrow> string \<Rightarrow> nat option" where
  "read_digits acc [] = Some acc"
| "read_digits acc (c # cs) = (case digit_value c of None \<Rightarrow> None | Some d \<Rightarrow> read_digits (10 * acc + d) cs)"

definition atoi :: "string \<Rightarrow> int option" where
  "atoi s =
     (let (neg, digits) = (case s of [] \<Rightarrow> (False, []) | c # cs \<Rightarrow>
             if c = CHR ''-'' then (True, cs) else if c = CHR ''+'' then (False, cs) else (False, c # cs))
      in if digits = [] then None
         else case read_digits 0 digits of
                None \<Rightarrow> None
              | Some n \<Rightarrow> let i = (if neg then - int n else int n)
                          in if - (2 ^ 63) \<le> i \<and> i < 2 ^ 63 then Some i else None)"

lemma read_digits_append: "read_digits acc (xs @ ys) = (case read_digits acc xs of None \<Rightarrow> None | Some n \<Rightarrow> read_digits n ys)"
  by (induction xs arbitrary: acc) (auto split: option.split)

lemma digit_value_char [simp]: "d < 10 \<Longrightarrow> digit_value (digit_char d) = Some d"
  by (simp add: digit_value_def digit_char_def of_char_of)

lemma read_show_nat: "read_digits 0 (show_nat n) = Some n"
proof (induction n rule: show_nat.induct)
  case (1 n)
  show ?case
  proof (cases "n < 10")
    case True
    then show ?thesis by (subst show_nat.simps) simp
  next
    case False
    with 1 show ?thesis by (subst show_nat.simps) (simp add: read_digits_append)
  qed
qed

lemma atoi_show_nat: "int n < 2 ^ 63 \<Longrightarrow> atoi (show_nat n) = Some (int n)"
proof -
  assume n: "int n < 2 ^ 63"
  obtain c cs where c: "show_nat n = c # cs" using show_nat_nonempty by (cases "show_nat n") auto
  then have "c \<in> digit_char ` {..<10}" using set_show_nat [of n] by auto
  then obtain d where d: "d < 10" "c = digit_char d" by auto
  have "digit_char d \<noteq> CHR ''+''"
  proof
    assume "digit_char d = CHR ''+''"
    then have "of_char (digit_char d) = (of_char (CHR ''+'') :: nat)" by simp
    with d show False by (simp add: digit_char_def of_char_of)
  qed
  then show ?thesis
    using n c d digit_not_minus [of d] read_show_nat [of n] by (simp add: atoi_def)
qed

section \<open>Strings\<close>

definition has_prefix :: "string \<Rightarrow> string \<Rightarrow> bool" where
  "has_prefix s p \<longleftrightarrow> take (length p) s = p"

definition has_suffix :: "string \<Rightarrow> string \<Rightarrow> bool" where
  "has_suffix s p \<longleftrightarrow> length p \<le> length s \<and> drop (length s - length p) s = p"

fun str_contains :: "string \<Rightarrow> string \<Rightarrow> bool" where
  "str_contains [] p = (p = [])"
| "str_contains (c # s) p = (has_prefix (c # s) p \<or> str_contains s p)"

definition trim_suffix :: "string \<Rightarrow> string \<Rightarrow> string" where
  "trim_suffix s p = (if has_suffix s p then take (length s - length p) s else s)"

definition trim_prefix :: "string \<Rightarrow> string \<Rightarrow> string" where
  "trim_prefix s p = (if has_prefix s p then drop (length p) s else s)"

text \<open>\<^verbatim>\<open>s[:strings.Index(s, c)]\<close>, or \<open>s\<close> when \<open>c\<close> does not occur.\<close>

definition before_char :: "char \<Rightarrow> string \<Rightarrow> string" where
  "before_char c s = takeWhile (\<lambda>x. x \<noteq> c) s"

fun split_on :: "char \<Rightarrow> string \<Rightarrow> string list" where
  "split_on c [] = [[]]"
| "split_on c (x # xs) =
     (if x = c then [] # split_on c xs
      else (case split_on c xs of [] \<Rightarrow> [[x]] | w # ws \<Rightarrow> (x # w) # ws))"

fun join_with :: "string \<Rightarrow> string list \<Rightarrow> string" where
  "join_with sep [] = []"
| "join_with sep [w] = w"
| "join_with sep (w # ws) = w @ sep @ join_with sep ws"

definition lower_char :: "char \<Rightarrow> char" where
  "lower_char c = (let n = of_char c :: nat in if 65 \<le> n \<and> n \<le> 90 then char_of (n + 32) else c)"

definition to_lower :: "string \<Rightarrow> string" where
  "to_lower = map lower_char"

lemma has_suffix_append [simp]: "has_suffix (xs @ ys) ys"
  by (simp add: has_suffix_def)

lemma has_prefix_append [simp]: "has_prefix (xs @ ys) xs"
  by (simp add: has_prefix_def)

lemma has_suffix_past:
  assumes "has_suffix (xs @ c # ys) suf" and "c \<notin> set suf"
  shows "has_suffix ys suf"
proof -
  have "xs @ c # ys = take (length (xs @ c # ys) - length suf) (xs @ c # ys) @ suf"
    using assms(1) append_take_drop_id [of "length (xs @ c # ys) - length suf" "xs @ c # ys"]
    by (simp only: has_suffix_def)
  then obtain us where "xs @ c # ys = us @ suf" by blast
  with assms(2) obtain vs where "ys = vs @ suf" by (auto simp: append_eq_append_conv2 append_eq_Cons_conv Cons_eq_append_conv)
  then show ?thesis by simp
qed

lemma trim_suffix_append [simp]: "trim_suffix (xs @ ys) ys = xs"
  by (simp add: trim_suffix_def)

lemma trim_prefix_append [simp]: "trim_prefix (xs @ ys) xs = ys"
  by (simp add: trim_prefix_def)

lemma before_char_append [simp]: "c \<notin> set xs \<Longrightarrow> before_char c (xs @ c # ys) = xs"
  by (simp add: before_char_def takeWhile_append)

lemma before_char_id [simp]: "c \<notin> set xs \<Longrightarrow> before_char c xs = xs"
  by (auto simp: before_char_def takeWhile_eq_all_conv)

lemma str_contains_append: "str_contains (xs @ p @ ys) p"
proof (induction xs)
  case Nil
  then show ?case using has_prefix_append [of p ys] by (cases "p @ ys") auto
qed simp

lemma split_on_nonempty [simp]: "split_on c xs \<noteq> []"
  by (induction xs) (auto split: list.splits)

lemma split_on_id: "c \<notin> set xs \<Longrightarrow> split_on c xs = [xs]"
  by (induction xs) auto

lemma split_on_append: "c \<notin> set xs \<Longrightarrow> split_on c (xs @ c # ys) = xs # split_on c ys"
  by (induction xs) auto

lemma split_on_at: "split_on c (xs @ c # ys) = split_on c xs @ split_on c ys"
  by (induction xs) (auto split: list.split)

lemma split_on_prefix: "c \<notin> set pre \<Longrightarrow> split_on c (pre @ s) = (pre @ hd (split_on c s)) # tl (split_on c s)"
  by (induction pre) auto

lemma split_on_suffix: "c \<notin> set suf \<Longrightarrow> split_on c (s @ suf) = butlast (split_on c s) @ [last (split_on c s) @ suf]"
proof (induction s)
  case Nil
  then show ?case by (simp add: split_on_id)
next
  case (Cons x s)
  then show ?case by (auto split: list.split)
qed

lemma join_with_Cons: "ws \<noteq> [] \<Longrightarrow> join_with sep (w # ws) = w @ sep @ join_with sep ws"
  by (cases ws) simp_all

lemma join_with_extend: "join_with sep ((x # w) # ws) = x # join_with sep (w # ws)"
  by (cases ws) simp_all

lemma join_split: "join_with [c] (split_on c s) = s"
proof (induction s)
  case (Cons x s)
  show ?case
  proof (cases "x = c")
    case True
    with Cons.IH show ?thesis by (simp add: join_with_Cons)
  next
    case False
    obtain w ws where "split_on c s = w # ws" by (cases "split_on c s") auto
    with Cons.IH False show ?thesis by (simp add: join_with_extend)
  qed
qed simp

lemma split_on_inj: "split_on c xs = split_on c ys \<longleftrightarrow> xs = ys"
  by (metis join_split)

lemma last_split_on:
  assumes "c \<notin> set ys" and "xs = [] \<or> last xs = c"
  shows "last (split_on c (xs @ ys)) = ys"
proof (cases xs rule: rev_cases)
  case Nil
  with assms show ?thesis by (simp add: split_on_id)
next
  case (snoc zs x)
  with assms show ?thesis by (simp add: split_on_at split_on_id)
qed

lemma prefix_char_unique:
  assumes "xs @ c # ys = xs' @ c # ys'" and "c \<notin> set xs" and "c \<notin> set xs'"
  shows "xs = xs' \<and> ys = ys'"
  using assms
proof (induction xs arbitrary: xs')
  case Nil
  then show ?case by (cases xs') auto
next
  case (Cons x xs)
  then show ?case by (cases xs') auto
qed

section \<open>Paths\<close>

text \<open>
  \<^verbatim>\<open>filepath.Clean\<close> on the components of a rooted path: empty components and \<^verbatim>\<open>.\<close> are
  dropped, \<^verbatim>\<open>..\<close> removes the component before it (and is dropped at the root).
\<close>

type_synonym path = "string list"

fun clean_onto :: "path \<Rightarrow> string list \<Rightarrow> path" where
  "clean_onto acc [] = rev acc"
| "clean_onto acc (c # cs) =
     (if c = [] \<or> c = ''.'' then clean_onto acc cs
      else if c = ''..'' then clean_onto (tl acc) cs
      else clean_onto (c # acc) cs)"

definition path_join :: "path \<Rightarrow> string list \<Rightarrow> path" where
  "path_join base parts = clean_onto [] (concat (map (split_on CHR ''/'') (base @ parts)))"

definition plain_name :: "string \<Rightarrow> bool" where
  "plain_name s \<longleftrightarrow> s \<noteq> [] \<and> s \<noteq> ''.'' \<and> s \<noteq> ''..'' \<and> CHR ''/'' \<notin> set s"

definition plain_path :: "string \<Rightarrow> bool" where
  "plain_path p \<longleftrightarrow> list_all plain_name (split_on CHR ''/'' p)"

lemma clean_onto_plain: "list_all plain_name cs \<Longrightarrow> clean_onto acc cs = rev acc @ cs"
  by (induction cs arbitrary: acc) (auto simp: plain_name_def)

lemma concat_split_plain:
  "list_all plain_name cs \<Longrightarrow> concat (map (split_on CHR ''/'') cs) = cs"
  by (induction cs) (auto simp: plain_name_def split_on_id)

lemma path_join_plain:
  "list_all plain_name base \<Longrightarrow> list_all plain_name parts \<Longrightarrow> path_join base parts = base @ parts"
  by (simp add: path_join_def clean_onto_plain concat_split_plain del: map_append)

lemma path_join_segments:
  assumes "list_all plain_name base" and "list_all plain_name (concat (map (split_on CHR ''/'') parts))"
  shows "path_join base parts = base @ concat (map (split_on CHR ''/'') parts)"
  using assms by (simp add: path_join_def clean_onto_plain concat_split_plain)

lemma clean_onto_snoc: "plain_name n \<Longrightarrow> clean_onto acc (cs @ [n]) = clean_onto acc cs @ [n]"
  by (induction cs arbitrary: acc) (auto simp: plain_name_def)

lemma list_all_tl: "list_all P xs \<Longrightarrow> list_all P (tl xs)"
  by (cases xs) auto

lemma clean_onto_rooted: "list_all plain_name acc \<Longrightarrow> list_all plain_name (clean_onto acc (concat (map (split_on CHR ''/'') cs)))"
proof -
  have parts: "\<forall>w \<in> set (split_on CHR ''/'' s). CHR ''/'' \<notin> set w" for s
    by (induction s) (auto split: list.splits)
  have clean: "list_all plain_name acc \<Longrightarrow> \<forall>w \<in> set ws. CHR ''/'' \<notin> set w \<Longrightarrow> list_all plain_name (clean_onto acc ws)" for acc ws
    by (induction acc ws rule: clean_onto.induct) (auto simp: list_all_tl plain_name_def)
  show "list_all plain_name acc \<Longrightarrow> ?thesis" using parts by (intro clean) auto
qed

lemma path_join_is_plain [simp]: "list_all plain_name (path_join base parts)"
  unfolding path_join_def by (rule clean_onto_rooted) simp

lemma path_join_plain_tail:
  "list_all plain_name ns \<Longrightarrow> path_join base (parts @ ns) = path_join base parts @ ns"
proof (induction ns rule: rev_induct)
  case Nil
  then show ?case by simp
next
  case (snoc n ns)
  have "split_on CHR ''/'' n = [n]" using snoc.prems by (simp add: split_on_id plain_name_def)
  then show ?case
    using snoc by (simp add: path_join_def clean_onto_snoc flip: append_assoc)
qed

lemma path_join_Nil [simp]: "list_all plain_name p \<Longrightarrow> path_join p [] = p"
  using path_join_plain [of p "[]"] by simp

text \<open>Names that climb: as many \<^verbatim>\<open>../\<close> as wanted.\<close>

definition climb :: "nat \<Rightarrow> string" where
  "climb k = concat (replicate k ''../'')"

lemma split_climb: "split_on CHR ''/'' (climb k @ t) = replicate k ''..'' @ split_on CHR ''/'' t"
proof (induction k)
  case (Suc k)
  then show ?case using split_on_append [of "CHR ''/''" "''..''" "climb k @ t"] by (simp add: climb_def)
qed (simp add: climb_def)

lemma clean_onto_dots: "clean_onto acc (replicate k ''..'' @ cs) = clean_onto (drop k acc) cs"
  by (induction k arbitrary: acc) (simp_all add: drop_Suc)

lemma clean_onto_append: "list_all plain_name cs \<Longrightarrow> clean_onto acc (cs @ ds) = clean_onto (rev cs @ acc) ds"
  by (induction cs arbitrary: acc) (auto simp: plain_name_def)

section \<open>Character classes\<close>

definition char_between :: "char \<Rightarrow> char \<Rightarrow> char \<Rightarrow> bool" where
  "char_between a b c \<longleftrightarrow> (of_char a :: nat) \<le> of_char c \<and> (of_char c :: nat) \<le> of_char b"

definition is_lower_alnum :: "char \<Rightarrow> bool" where
  "is_lower_alnum c \<longleftrightarrow> char_between CHR ''a'' CHR ''z'' c \<or> char_between CHR ''0'' CHR ''9'' c"

definition is_alnum :: "char \<Rightarrow> bool" where
  "is_alnum c \<longleftrightarrow> is_lower_alnum c \<or> char_between CHR ''A'' CHR ''Z'' c"

end
