(* ===== verification/Envelope.thy ===== *)
theory Envelope
  imports Kms GoLib
begin

text \<open>
  Envelope encryption of artifacts (internal/encrypt/encryption_service.go) and the
  passphrase functions of internal/encrypt/encryption.go. AES block modes are parameters:
  \<open>seal key nonce plaintext aad\<close> and \<open>open key nonce ciphertext aad\<close> for GCM, \<open>ctr key iv\<close>
  for the CTR key stream applied to a byte string. A panic of the standard library is the
  error \<open>Panic\<close>. Random bytes are arguments: \<open>None\<close> when the generator fails.
\<close>

section \<open>Data and errors\<close>

record encrypted_data =
  ed_ciphertext :: bytes
  ed_encrypted_dek :: bytes
  ed_nonce :: bytes
  ed_algorithm :: string
  ed_key_version :: int
  ed_tenant_id :: string
  ed_encrypted_at :: int

datatype enc_error =
    DekGenerationFailed
  | CipherFailed
  | NonceGenerationFailed
  | DekEncryptFailed kms_error
  | DekDecryptFailed kms_error
  | TenantRequired
  | OpenFailed
  | StreamFailed
  | MetadataFieldFailed string
  | CiphertextTooShort
  | UnsupportedAlgorithm string
  | InvalidNonceSize nat
  | KekDerivationFailed
  | Panic string

type_synonym seal_fun = "bytes \<Rightarrow> bytes \<Rightarrow> bytes \<Rightarrow> bytes \<Rightarrow> bytes"
type_synonym open_fun = "bytes \<Rightarrow> bytes \<Rightarrow> bytes \<Rightarrow> bytes \<Rightarrow> bytes option"

definition bytes_of :: "string \<Rightarrow> bytes" where
  "bytes_of s = map of_char s"

text \<open>\<^verbatim>\<open>rand.Read\<close> fills the whole buffer or fails.\<close>

definition rand_read :: "nat \<Rightarrow> bytes option \<Rightarrow> bytes option" where
  "rand_read n r = map_option (\<lambda>bs. take n (bs @ replicate n 0)) r"

text \<open>\<^verbatim>\<open>aes.NewCipher\<close> accepts 16, 24 and 32 byte keys; \<^verbatim>\<open>cipher.NewCTR\<close> panics unless
  the initialisation vector is one block; GCM panics on a nonce that is not 12 bytes.\<close>

definition aes_key_ok :: "bytes \<Rightarrow> bool" where
  "aes_key_ok key \<longleftrightarrow> length key \<in> {16, 24, 32}"

definition gcm_nonce_size :: nat where "gcm_nonce_size = 12"
definition aes_block_size :: nat where "aes_block_size = 16"

definition new_ctr :: "(bytes \<Rightarrow> bytes \<Rightarrow> bytes \<Rightarrow> bytes) \<Rightarrow> bytes \<Rightarrow> bytes \<Rightarrow> enc_error + (bytes \<Rightarrow> bytes)" where
  "new_ctr ctr key iv =
     (if length iv \<noteq> aes_block_size then Inl (Panic ''cipher.NewCTR: IV length must equal block size'')
      else Inr (ctr key iv))"

definition gcm_open :: "open_fun \<Rightarrow> bytes \<Rightarrow> bytes \<Rightarrow> bytes \<Rightarrow> bytes \<Rightarrow> enc_error + bytes" where
  "gcm_open op key nonce ct aad =
     (if length nonce \<noteq> gcm_nonce_size then Inl (Panic ''crypto/cipher: incorrect nonce length given to GCM'')
      else case op key nonce ct aad of None \<Rightarrow> Inl OpenFailed | Some p \<Rightarrow> Inr p)"

definition current_unix_timestamp :: int where
  "current_unix_timestamp = 0"

section \<open>Artifacts\<close>

definition encrypt_artifact ::
  "seal_fun \<Rightarrow> kms_fun \<Rightarrow> bytes option \<Rightarrow> bytes option \<Rightarrow> string \<Rightarrow> bytes \<Rightarrow> string
     \<Rightarrow> enc_error + encrypted_data" where
  "encrypt_artifact seal kms_encrypt rand1 rand2 tenant_id plaintext kek_key_id =
     (case rand_read 32 rand1 of
        None \<Rightarrow> Inl DekGenerationFailed
      | Some dek \<Rightarrow>
          if \<not> aes_key_ok dek then Inl CipherFailed
          else (case rand_read gcm_nonce_size rand2 of
                  None \<Rightarrow> Inl NonceGenerationFailed
                | Some nonce \<Rightarrow>
                    let ciphertext = seal dek nonce plaintext (bytes_of tenant_id)
                    in case kms_encrypt kek_key_id dek of
                         Inl e \<Rightarrow> Inl (DekEncryptFailed e)
                       | Inr encrypted_dek \<Rightarrow>
                           Inr \<lparr>ed_ciphertext = ciphertext, ed_encrypted_dek = encrypted_dek,
                                ed_nonce = nonce, ed_algorithm = ''AES-256-GCM'',
                                ed_key_version = 1, ed_tenant_id = tenant_id,
                                ed_encrypted_at = current_unix_timestamp\<rparr>))"

definition decrypt_artifact ::
  "open_fun \<Rightarrow> kms_fun \<Rightarrow> encrypted_data \<Rightarrow> string \<Rightarrow> enc_error + bytes" where
  "decrypt_artifact op kms_decrypt ed kek_key_id =
     (if ed_tenant_id ed = [] then Inl TenantRequired
      else case kms_decrypt kek_key_id (ed_encrypted_dek ed) of
             Inl e \<Rightarrow> Inl (DekDecryptFailed e)
           | Inr dek \<Rightarrow>
               if \<not> aes_key_ok dek then Inl CipherFailed
               else gcm_open op dek (ed_nonce ed) (ed_ciphertext ed) (bytes_of (ed_tenant_id ed)))"

section \<open>Streams\<close>

text \<open>
  The result holds what was written to the writer beside the metadata. \<open>read_ok\<close> and
  \<open>write_ok\<close> say whether \<^verbatim>\<open>io.Copy\<close> met an error.
\<close>

definition encrypt_stream ::
  "(bytes \<Rightarrow> bytes \<Rightarrow> bytes \<Rightarrow> bytes) \<Rightarrow> kms_fun \<Rightarrow> bytes option \<Rightarrow> bytes option \<Rightarrow> bool
     \<Rightarrow> string \<Rightarrow> bytes \<Rightarrow> string \<Rightarrow> enc_error + encrypted_data \<times> bytes" where
  "encrypt_stream ctr kms_encrypt rand1 rand2 copy_ok tenant_id input kek_key_id =
     (case rand_read 32 rand1 of
        None \<Rightarrow> Inl DekGenerationFailed
      | Some dek \<Rightarrow>
          if \<not> aes_key_ok dek then Inl CipherFailed
          else (case rand_read gcm_nonce_size rand2 of
                  None \<Rightarrow> Inl NonceGenerationFailed
                | Some nonce \<Rightarrow>
                    case new_ctr ctr dek nonce of
                      Inl e \<Rightarrow> Inl e
                    | Inr stream \<Rightarrow>
                        if \<not> copy_ok then Inl StreamFailed
                        else (case kms_encrypt kek_key_id dek of
                                Inl e \<Rightarrow> Inl (DekEncryptFailed e)
                              | Inr encrypted_dek \<Rightarrow>
                                  Inr (\<lparr>ed_ciphertext = [], ed_encrypted_dek = encrypted_dek,
                                        ed_nonce = nonce, ed_algorithm = ''AES-256-CTR'',
                                        ed_key_version = 1, ed_tenant_id = tenant_id,
                                        ed_encrypted_at = current_unix_timestamp\<rparr>,
                                       stream input))))"

definition decrypt_stream ::
  "(bytes \<Rightarrow> bytes \<Rightarrow> bytes \<Rightarrow> bytes) \<Rightarrow> kms_fun \<Rightarrow> bool \<Rightarrow> encrypted_data \<Rightarrow> bytes \<Rightarrow> string
     \<Rightarrow> enc_error + bytes" where
  "decrypt_stream ctr kms_decrypt copy_ok ed input kek_key_id =
     (case kms_decrypt kek_key_id (ed_encrypted_dek ed) of
        Inl e \<Rightarrow> Inl (DekDecryptFailed e)
      | Inr dek \<Rightarrow>
          if \<not> aes_key_ok dek then Inl CipherFailed
          else (case new_ctr ctr dek (ed_nonce ed) of
                  Inl e \<Rightarrow> Inl e
                | Inr stream \<Rightarrow> if \<not> copy_ok then Inl StreamFailed else Inr (stream input)))"

section \<open>Keys, metadata, checks\<close>

definition derive_kek :: "(bytes \<Rightarrow> bytes \<Rightarrow> nat \<Rightarrow> bytes option) \<Rightarrow> bytes \<Rightarrow> string \<Rightarrow> enc_error + bytes" where
  "derive_kek hkdf tmk context =
     (case hkdf tmk (bytes_of context) 32 of None \<Rightarrow> Inl KekDerivationFailed | Some kek \<Rightarrow> Inr kek)"

definition generate_tmk :: "bytes option \<Rightarrow> enc_error + bytes" where
  "generate_tmk r = (case rand_read 32 r of None \<Rightarrow> Inl DekGenerationFailed | Some tmk \<Rightarrow> Inr tmk)"

text \<open>One draw of randomness per field; only the ciphertext is kept of each envelope.\<close>

fun encrypt_metadata ::
  "seal_fun \<Rightarrow> kms_fun \<Rightarrow> (bytes \<Rightarrow> string) \<Rightarrow> string \<Rightarrow> string
     \<Rightarrow> ((string \<times> string) \<times> bytes option \<times> bytes option) list \<Rightarrow> enc_error + (string \<times> string) list" where
  "encrypt_metadata seal kms_encrypt base64 tenant_id kek_key_id [] = Inr []"
| "encrypt_metadata seal kms_encrypt base64 tenant_id kek_key_id (((key, value), r1, r2) # others) =
     (case encrypt_artifact seal kms_encrypt r1 r2 tenant_id (bytes_of value) kek_key_id of
        Inl e \<Rightarrow> Inl (MetadataFieldFailed key)
      | Inr ed \<Rightarrow>
          (case encrypt_metadata seal kms_encrypt base64 tenant_id kek_key_id others of
             Inl e \<Rightarrow> Inl e
           | Inr encrypted \<Rightarrow> Inr ((key, base64 (ed_ciphertext ed)) # encrypted)))"

definition envelope_verify_integrity :: "encrypted_data \<Rightarrow> enc_error + unit" where
  "envelope_verify_integrity ed =
     (if ed_algorithm ed \<noteq> ''AES-256-GCM'' \<and> ed_algorithm ed \<noteq> ''AES-256-CTR''
      then Inl (UnsupportedAlgorithm (ed_algorithm ed))
      else if length (ed_nonce ed) \<noteq> 12 then Inl (InvalidNonceSize (length (ed_nonce ed)))
      else Inr ())"

section \<open>Passphrase encryption\<close>

text \<open>\<open>Encrypt\<close> drops the error of \<^verbatim>\<open>aes.NewCipher\<close>; GCM on the nil block panics.\<close>

definition passphrase_encrypt :: "seal_fun \<Rightarrow> bytes option \<Rightarrow> bytes \<Rightarrow> string \<Rightarrow> enc_error + bytes" where
  "passphrase_encrypt seal r data passphrase =
     (if \<not> aes_key_ok (bytes_of passphrase) then Inl (Panic ''nil pointer dereference'')
      else (case rand_read gcm_nonce_size r of
              None \<Rightarrow> Inl NonceGenerationFailed
            | Some nonce \<Rightarrow> Inr (nonce @ seal (bytes_of passphrase) nonce data [])))"

definition passphrase_decrypt :: "open_fun \<Rightarrow> bytes \<Rightarrow> string \<Rightarrow> enc_error + bytes" where
  "passphrase_decrypt op data passphrase =
     (if \<not> aes_key_ok (bytes_of passphrase) then Inl CipherFailed
      else if length data < gcm_nonce_size then Inl CiphertextTooShort
      else gcm_open op (bytes_of passphrase) (take gcm_nonce_size data) (drop gcm_nonce_size data) [])"

definition file_buffer_size :: nat where "file_buffer_size = 1024 * 1024"

text \<open>
  The loop of \<open>EncryptFile\<close> over buffers of \<open>n\<close> bytes: every buffer is sealed on its own,
  with the nonce written at the start of the file.
\<close>

function seal_chunks :: "nat \<Rightarrow> (bytes \<Rightarrow> bytes) \<Rightarrow> bytes \<Rightarrow> bytes" where
  "seal_chunks n seal1 input =
     (if input = [] \<or> n = 0 then []
      else seal1 (take n input) @ seal_chunks n seal1 (drop n input))"
  by pat_completeness auto
termination
  by (relation "measure (\<lambda>(n, _, input). length input)") auto

declare seal_chunks.simps [simp del]

datatype file_error = OpenInput | CreateOutput | BadKey | NonceFailed | WriteNonce

definition encrypt_file ::
  "seal_fun \<Rightarrow> bytes option \<Rightarrow> bool \<Rightarrow> bool \<Rightarrow> bytes option \<Rightarrow> bytes \<Rightarrow> file_error + bytes" where
  "encrypt_file seal input create_ok write_ok r key =
     (case input of
        None \<Rightarrow> Inl OpenInput
      | Some content \<Rightarrow>
          if \<not> create_ok then Inl CreateOutput
          else if \<not> aes_key_ok key then Inl BadKey
          else (case rand_read gcm_nonce_size r of
                  None \<Rightarrow> Inl NonceFailed
                | Some nonce \<Rightarrow>
                    if \<not> write_ok then Inl WriteNonce
                    else Inr (nonce @ seal_chunks file_buffer_size (\<lambda>c. seal key nonce c []) content)))"

section \<open>Documented behaviour of the ciphers\<close>

definition gcm_correct :: "seal_fun \<Rightarrow> open_fun \<Rightarrow> bool" where
  "gcm_correct seal op \<longleftrightarrow>
     (\<forall>key nonce p aad. length nonce = gcm_nonce_size \<longrightarrow> op key nonce (seal key nonce p aad) aad = Some p)"

definition gcm_binds_aad :: "seal_fun \<Rightarrow> open_fun \<Rightarrow> bool" where
  "gcm_binds_aad seal op \<longleftrightarrow>
     (\<forall>key nonce p aad aad'. aad \<noteq> aad' \<longrightarrow> op key nonce (seal key nonce p aad) aad' = None)"

text \<open>An instance, for witnesses: the additional data travels in front, with its length in unary.\<close>

definition toy_header :: "bytes \<Rightarrow> bytes" where
  "toy_header aad = replicate (length aad) 1 @ 0 # aad"

definition toy_seal :: seal_fun where
  "toy_seal key nonce p aad = toy_header aad @ p"

definition toy_open :: open_fun where
  "toy_open key nonce ct aad =
     (let h = toy_header aad
      in if take (length h) ct = h then Some (drop (length h) ct) else None)"

lemma toy_header_prefix: "toy_header a @ xs = toy_header b @ ys \<Longrightarrow> a = b"
proof -
  assume eq: "toy_header a @ xs = toy_header b @ ys"
  have run: "length (takeWhile (\<lambda>x. x = 1) (toy_header c @ zs)) = length c" for c zs
    by (simp add: toy_header_def takeWhile_append)
  from eq have "length a = length b" using run [of a xs] run [of b ys] by simp
  with eq show "a = b" by (simp add: toy_header_def)
qed

lemma toy_gcm_correct: "gcm_correct toy_seal toy_open"
  by (simp add: gcm_correct_def toy_seal_def toy_open_def Let_def)

lemma toy_gcm_binds: "gcm_binds_aad toy_seal toy_open"
  unfolding gcm_binds_aad_def
proof (intro allI impI)
  fix key nonce p aad aad' :: bytes
  assume ne: "aad \<noteq> aad'"
  have "take (length (toy_header aad')) (toy_header aad @ p) \<noteq> toy_header aad'"
  proof
    assume "take (length (toy_header aad')) (toy_header aad @ p) = toy_header aad'"
    then have "toy_header aad' @ drop (length (toy_header aad')) (toy_header aad @ p) = toy_header aad @ p"
      by (metis append_take_drop_id)
    with ne show False by (metis toy_header_prefix)
  qed
  then show "toy_open key nonce (toy_seal key nonce p aad) aad' = None"
    by (simp add: toy_open_def toy_seal_def)
qed

lemma length_rand_read: "rand_read n r = Some bs \<Longrightarrow> length bs = n"
  by (auto simp: rand_read_def)

lemma bytes_of_inj: "bytes_of s = bytes_of t \<longleftrightarrow> s = t"
proof -
  have "inj (of_char :: char \<Rightarrow> byte)"
  proof (rule injI)
    fix c d :: char
    assume "(of_char c :: byte) = of_char d"
    then have "(of_nat (of_char c) :: byte) = of_nat (of_char d)" by (simp only: of_nat_of_char)
    then have "unat (of_nat (of_char c) :: byte) = unat (of_nat (of_char d) :: byte)" by (rule arg_cong)
    then have "(of_char c :: nat) = of_char d"
      by (simp only: unat_of_nat) (simp del: of_nat_of_char)
    then show "c = d" by simp
  qed
  then show ?thesis unfolding bytes_of_def by (simp add: inj_map_eq_map)
qed

section \<open>The envelope under any lawful KMS\<close>

lemma encrypt_artifact_Inr:
  assumes "encrypt_artifact seal enc r1 r2 tenant p kek = Inr ed"
  obtains dek nonce wrapped where "length dek = 32" and "length nonce = gcm_nonce_size"
    and "enc kek dek = Inr wrapped"
    and "ed = \<lparr>ed_ciphertext = seal dek nonce p (bytes_of tenant), ed_encrypted_dek = wrapped,
      ed_nonce = nonce, ed_algorithm = ''AES-256-GCM'', ed_key_version = 1, ed_tenant_id = tenant,
      ed_encrypted_at = current_unix_timestamp\<rparr>"
  using assms
  by (auto simp: encrypt_artifact_def Let_def dest: length_rand_read
      split: option.splits if_splits sum.splits)

context kms_client begin

lemma unwraps_sealed:
  assumes "encrypt_artifact seal encrypt r1 r2 tenant p kek = Inr ed"
  shows "\<exists>dek. length dek = 32 \<and> decrypt kek (ed_encrypted_dek ed) = Inr dek
    \<and> ed_ciphertext ed = seal dek (ed_nonce ed) p (bytes_of (ed_tenant_id ed))
    \<and> length (ed_nonce ed) = gcm_nonce_size \<and> ed_tenant_id ed = tenant"
  using assms by (rule encrypt_artifact_Inr) (auto dest: decrypt_encrypt)

lemma decrypt_after_encrypt:
  assumes "gcm_correct seal op" and "tenant \<noteq> []"
    and "encrypt_artifact seal encrypt r1 r2 tenant p kek = Inr ed"
  shows "decrypt_artifact op decrypt ed kek = Inr p"
  using unwraps_sealed [OF assms(3)] assms(1,2)
  by (auto simp: decrypt_artifact_def gcm_open_def aes_key_ok_def gcm_correct_def)

lemma decrypt_for_other_tenant:
  assumes "gcm_binds_aad seal op" and "tenant' \<noteq> []" and "tenant' \<noteq> tenant"
    and "encrypt_artifact seal encrypt r1 r2 tenant p kek = Inr ed"
  shows "decrypt_artifact op decrypt (ed\<lparr>ed_tenant_id := tenant'\<rparr>) kek = Inl OpenFailed"
  using unwraps_sealed [OF assms(4)] assms(1-3)
  by (auto simp: decrypt_artifact_def gcm_open_def aes_key_ok_def gcm_binds_aad_def bytes_of_inj)

end

text \<open>
  C3: Envelope encryption round-trips. Whatever KMS wraps the data key, an artifact encrypted
  for a tenant decrypts, with the same key-encryption key, to the same plaintext.
\<close>

theorem artifact_round_trip:
  assumes "kms_client enc dec" and "gcm_correct seal op" and "tenant \<noteq> []"
    and "encrypt_artifact seal enc r1 r2 tenant p kek = Inr ed"
  shows "decrypt_artifact op dec ed kek = Inr p"
  using assms by (rule kms_client.decrypt_after_encrypt)

theorem artifact_round_trip_witness:
  "\<exists>ed. encrypt_artifact toy_seal (mock_encrypt [1]) (Some []) (Some [2]) ''t1'' [9, 8] ''kek'' = Inr ed
     \<and> decrypt_artifact toy_open (mock_decrypt [1]) ed ''kek'' = Inr [9, 8]"
proof -
  have enc: "\<exists>ed. encrypt_artifact toy_seal (mock_encrypt [1]) (Some []) (Some [2]) ''t1'' [9, 8] ''kek'' = Inr ed"
    by (simp add: encrypt_artifact_def rand_read_def aes_key_ok_def mock_encrypt_def Let_def gcm_nonce_size_def)
  show ?thesis
    using enc artifact_round_trip [OF mock.kms_client_axioms toy_gcm_correct, of "''t1''"] by blast
qed



text \<open>
  Streaming encryption never succeeds. The nonce is drawn with the 12 bytes GCM wants,
  and CTR mode panics on an initialisation vector shorter than a block, so every call ends
  in an error or in that panic, and no stream is ever written.
\<close>

theorem encrypt_stream_never_succeeds:
  "\<not> is_ok (encrypt_stream ctr enc r1 r2 copy_ok tenant input kek)
   \<and> ((\<exists>b1 b2. r1 = Some b1 \<and> r2 = Some b2) \<longleftrightarrow>
      encrypt_stream ctr enc r1 r2 copy_ok tenant input kek
        = Inl (Panic ''cipher.NewCTR: IV length must equal block size''))"
  by (auto simp: encrypt_stream_def rand_read_def aes_key_ok_def new_ctr_def gcm_nonce_size_def
      aes_block_size_def split: option.splits)

theorem encrypt_stream_never_succeeds_witness:
  "encrypt_stream (\<lambda>k iv p. p) (mock_encrypt [1]) (Some [1]) (Some [2]) True ''t1'' [5] ''kek''
     = Inl (Panic ''cipher.NewCTR: IV length must equal block size'')"
  using encrypt_stream_never_succeeds [of "\<lambda>k iv p. p" "mock_encrypt [1]" "Some [1]" "Some [2]"] by blast

text \<open>
  Passphrase encryption round-trips for every passphrase AES accepts, and panics for
  every other passphrase, because the cipher's error is dropped.
\<close>

theorem passphrase_round_trip:
  assumes "gcm_correct seal op"
  shows "(\<forall>ct. passphrase_encrypt seal r data pw = Inr ct \<longrightarrow> passphrase_decrypt op ct pw = Inr data)
    \<and> (length pw \<notin> {16, 24, 32} \<longrightarrow> passphrase_encrypt seal r data pw = Inl (Panic ''nil pointer dereference''))"
  using assms
  by (auto simp: passphrase_encrypt_def passphrase_decrypt_def gcm_open_def gcm_correct_def
      aes_key_ok_def bytes_of_def dest: length_rand_read split: option.splits)

theorem passphrase_round_trip_witness:
  "passphrase_decrypt toy_open (replicate 12 3 @ toy_seal (bytes_of ''0123456789abcdef'') (replicate 12 3) [4, 2] [])
     ''0123456789abcdef'' = Inr [4, 2]"
proof -
  have "passphrase_encrypt toy_seal (Some (replicate 12 3)) [4, 2] ''0123456789abcdef''
      = Inr (replicate 12 3 @ toy_seal (bytes_of ''0123456789abcdef'') (replicate 12 3) [4, 2] [])"
    by (simp add: passphrase_encrypt_def aes_key_ok_def bytes_of_def rand_read_def gcm_nonce_size_def)
  then show ?thesis using passphrase_round_trip [OF toy_gcm_correct] by blast
qed

text \<open>
  File encryption seals every buffer with the same key and nonce: a file that holds one
  full buffer twice is written as the nonce followed by the same sealed buffer twice.
\<close>

theorem encrypt_file_repeats_nonce:
  assumes "length block = file_buffer_size" and "aes_key_ok key"
    and "rand_read gcm_nonce_size r = Some nonce"
  shows "encrypt_file seal (Some (block @ block)) True True r key
    = Inr (nonce @ seal key nonce block [] @ seal key nonce block [])"
proof -
  have "0 < file_buffer_size" by (simp add: file_buffer_size_def)
  then have "block \<noteq> []" using assms(1) by auto
  have "seal_chunks file_buffer_size s (block @ block) = s block @ s block" for s
    using assms(1) \<open>block \<noteq> []\<close> \<open>0 < file_buffer_size\<close>
    by (simp add: seal_chunks.simps [of _ _ "block @ block"] seal_chunks.simps [of _ _ block]
        seal_chunks.simps [of _ _ "[]"])
  then show ?thesis using assms(2,3) by (simp add: encrypt_file_def)
qed

theorem encrypt_file_repeats_nonce_witness:
  "encrypt_file toy_seal (Some (replicate file_buffer_size 7 @ replicate file_buffer_size 7)) True True
     (Some []) (replicate 16 1)
   = Inr (replicate 12 0 @ toy_seal (replicate 16 1) (replicate 12 0) (replicate file_buffer_size 7) []
       @ toy_seal (replicate 16 1) (replicate 12 0) (replicate file_buffer_size 7) [])"
  by (rule encrypt_file_repeats_nonce)
    (simp_all add: aes_key_ok_def rand_read_def gcm_nonce_size_def)

end
