(* ===== verification/TenantKeys.thy ===== *)
theory TenantKeys
  imports KeyCache Envelope
begin

text \<open>
  Tenant master keys (internal/encrypt/tmk_service.go): the table of wrapped keys, the cache
  of decrypted keys in front of it, creation, lookup, rotation and export. The database, the
  clock, the random source and the identifiers are one environment \<open>tmk_env\<close>, so every error
  branch can be taken; the table keeps the constraints of its \<^verbatim>\<open>CREATE TABLE\<close>.
\<close>

section \<open>State\<close>

record tmk_row =
  row_id :: uuid
  row_tenant :: uuid
  row_key :: bytes
  row_kms :: string
  row_version :: int
  row_active :: bool
  row_created_at :: time
  row_rotated_at :: "time option"
  row_created_by :: "uuid option"
  row_access_count :: int

record key_audit =
  ka_tenant :: uuid
  ka_user :: "uuid option"
  ka_key_id :: string
  ka_operation :: string
  ka_success :: bool
  ka_error :: "kms_error option"

record tmk_state =
  tmk_rows :: "tmk_row list"
  tmk_cache :: key_cache
  tmk_mem :: mem
  tmk_audit :: "key_audit list"

datatype db_op = DbBegin | DbSelect | DbUpdate | DbInsert | DbCommit

record tmk_env =
  env_now :: time
  env_uuid :: uuid
  env_rand :: "bytes option"
  env_db_ok :: "db_op \<Rightarrow> bool"
  env_tenant_exists :: "uuid \<Rightarrow> bool"
  env_user_exists :: "uuid \<Rightarrow> bool"

datatype tmk_error =
    TmkRandomFailed
  | TmkEncryptFailed kms_error
  | TmkStoreFailed
  | TmkNotFound uuid
  | TmkQueryFailed
  | TmkDecryptFailed kms_error
  | TmkBeginFailed
  | TmkVersionQueryFailed
  | TmkDeactivateFailed
  | TmkInsertFailed
  | TmkCommitFailed
  | TmkExportFailed

section \<open>The table\<close>

text \<open>
  The constraints the table is created with: the primary key, one row per tenant
  (\<^verbatim>\<open>tenant_id UUID NOT NULL UNIQUE\<close>) and the two foreign keys.
\<close>

definition tmk_row_allowed :: "tmk_env \<Rightarrow> tmk_row \<Rightarrow> tmk_row list \<Rightarrow> bool" where
  "tmk_row_allowed env r rows \<longleftrightarrow>
     row_id r \<notin> row_id ` set rows
     \<and> row_tenant r \<notin> row_tenant ` set rows
     \<and> env_tenant_exists env (row_tenant r)
     \<and> (case row_created_by r of None \<Rightarrow> True | Some u \<Rightarrow> env_user_exists env u)"

definition tmk_insert :: "tmk_env \<Rightarrow> tmk_row \<Rightarrow> tmk_row list \<Rightarrow> tmk_row list option" where
  "tmk_insert env r rows =
     (if env_db_ok env DbInsert \<and> tmk_row_allowed env r rows then Some (rows @ [r]) else None)"

definition active_row :: "uuid \<Rightarrow> tmk_row list \<Rightarrow> tmk_row option" where
  "active_row tenant rows = List.find (\<lambda>r. row_tenant r = tenant \<and> row_active r) rows"

definition deactivate :: "time \<Rightarrow> uuid \<Rightarrow> tmk_row list \<Rightarrow> tmk_row list" where
  "deactivate now tenant rows =
     map (\<lambda>r. if row_tenant r = tenant \<and> row_active r
              then r\<lparr>row_active := False, row_rotated_at := Some now\<rparr> else r) rows"

definition tmk_cache_key :: "uuid \<Rightarrow> int \<Rightarrow> string" where
  "tmk_cache_key tenant version = ''tmk:'' @ tenant @ '':v'' @ show_int version"

text \<open>
  The audit entry is inserted by a goroutine nobody waits for; its \<^verbatim>\<open>user_id\<close> is NULL for
  the nil identifier.
\<close>

definition log_key_audit ::
  "uuid \<Rightarrow> uuid \<Rightarrow> string \<Rightarrow> string \<Rightarrow> bool \<Rightarrow> kms_error option \<Rightarrow> tmk_state \<Rightarrow> tmk_state" where
  "log_key_audit tenant user key_id operation success err st =
     st\<lparr>tmk_audit := tmk_audit st @
        [\<lparr>ka_tenant = tenant, ka_user = (if user = uuid_nil then None else Some user),
          ka_key_id = key_id, ka_operation = operation, ka_success = success, ka_error = err\<rparr>]\<rparr>"

text \<open>\<open>keyCache.Set\<close> on a buffer followed by zeroing that buffer.\<close>

definition cache_and_wipe :: "time \<Rightarrow> string \<Rightarrow> nat \<Rightarrow> tmk_state \<Rightarrow> tmk_state" where
  "cache_and_wipe now k a st =
     (let (kc, m) = kc_set now k a (tmk_cache st) (tmk_mem st)
      in st\<lparr>tmk_cache := kc, tmk_mem := zero_bytes a m\<rparr>)"

section \<open>Operations\<close>

definition new_tmk_service :: "tmk_row list \<Rightarrow> tmk_state" where
  "new_tmk_service rows =
     \<lparr>tmk_rows = rows, tmk_cache = new_key_cache 300, tmk_mem = empty_mem, tmk_audit = []\<rparr>"

definition create_tmk ::
  "kms_fun \<Rightarrow> tmk_env \<Rightarrow> uuid \<Rightarrow> uuid \<Rightarrow> string \<Rightarrow> tmk_state \<Rightarrow> (tmk_error + tmk_row) \<times> tmk_state" where
  "create_tmk enc env tenant created_by kms_key_id st =
     (case rand_read 32 (env_rand env) of
        None \<Rightarrow> (Inl TmkRandomFailed, st)
      | Some plaintext \<Rightarrow>
          let (a, m) = alloc plaintext (tmk_mem st); st = st\<lparr>tmk_mem := m\<rparr>
          in case enc kms_key_id plaintext of
               Inl e \<Rightarrow> (Inl (TmkEncryptFailed e), st)
             | Inr wrapped \<Rightarrow>
                 let r = \<lparr>row_id = env_uuid env, row_tenant = tenant, row_key = wrapped,
                          row_kms = kms_key_id, row_version = 1, row_active = True,
                          row_created_at = env_now env, row_rotated_at = None,
                          row_created_by = (if created_by = uuid_nil then None else Some created_by),
                          row_access_count = 0\<rparr>
                 in case tmk_insert env r (tmk_rows st) of
                      None \<Rightarrow> (Inl TmkStoreFailed, st)
                    | Some rows \<Rightarrow>
                        let st = st\<lparr>tmk_rows := rows\<rparr>;
                            st = cache_and_wipe (env_now env) (tmk_cache_key tenant 1) a st
                        in (Inr r, log_key_audit tenant created_by (row_id r) ''generate'' True None st))"

text \<open>The result is the buffer handed to the caller.\<close>

definition get_active_tmk ::
  "kms_fun \<Rightarrow> tmk_env \<Rightarrow> uuid \<Rightarrow> tmk_state \<Rightarrow> (tmk_error + nat) \<times> tmk_state" where
  "get_active_tmk dec env tenant st =
     (if \<not> env_db_ok env DbSelect then (Inl TmkQueryFailed, st)
      else case active_row tenant (tmk_rows st) of
        None \<Rightarrow> (Inl (TmkNotFound tenant), st)
      | Some r \<Rightarrow>
          (case kc_get (env_now env) (tmk_cache_key tenant (row_version r)) (tmk_cache st) (tmk_mem st) of
             (Some a, m) \<Rightarrow>
               (Inr a, log_key_audit tenant uuid_nil (row_id r) ''access'' True None (st\<lparr>tmk_mem := m\<rparr>))
           | (None, m) \<Rightarrow>
               (case dec (row_kms r) (row_key r) of
                  Inl e \<Rightarrow> (Inl (TmkDecryptFailed e),
                            log_key_audit tenant uuid_nil (row_id r) ''decrypt'' False (Some e) st)
                | Inr plaintext \<Rightarrow>
                    let (a, m) = alloc plaintext m;
                        (kc, m) = kc_set (env_now env) (tmk_cache_key tenant (row_version r)) a (tmk_cache st) m;
                        st = st\<lparr>tmk_cache := kc, tmk_mem := m\<rparr>
                    in (Inr a, log_key_audit tenant uuid_nil (row_id r) ''decrypt'' True None st))))"

text \<open>
  Rotation in a transaction: \<open>rows\<close> is the table as the transaction sees it, and every early
  return rolls back to \<open>tmk_rows st\<close>. The cache is not part of the transaction.
\<close>

definition rotate_tmk ::
  "kms_fun \<Rightarrow> tmk_env \<Rightarrow> uuid \<Rightarrow> uuid \<Rightarrow> string \<Rightarrow> tmk_state \<Rightarrow> (tmk_error + tmk_row) \<times> tmk_state" where
  "rotate_tmk enc env tenant rotated_by kms_key_id st =
     (if \<not> env_db_ok env DbBegin then (Inl TmkBeginFailed, st)
      else if \<not> env_db_ok env DbSelect then (Inl TmkVersionQueryFailed, st)
      else
        let current = active_row tenant (tmk_rows st);
            current_version = (case current of None \<Rightarrow> 0 | Some r \<Rightarrow> row_version r)
        in if current \<noteq> None \<and> \<not> env_db_ok env DbUpdate then (Inl TmkDeactivateFailed, st)
        else
          let rows = (if current = None then tmk_rows st
                      else deactivate (env_now env) tenant (tmk_rows st));
              st = (if current = None then st
                    else (let (kc, m) = kc_delete (tmk_cache_key tenant current_version)
                                          (tmk_cache st) (tmk_mem st)
                          in st\<lparr>tmk_cache := kc, tmk_mem := m\<rparr>))
          in case rand_read 32 (env_rand env) of
               None \<Rightarrow> (Inl TmkRandomFailed, st)
             | Some plaintext \<Rightarrow>
                 let (a, m) = alloc plaintext (tmk_mem st); st = st\<lparr>tmk_mem := m\<rparr>
                 in case enc kms_key_id plaintext of
                      Inl e \<Rightarrow> (Inl (TmkEncryptFailed e), st)
                    | Inr wrapped \<Rightarrow>
                        let r = \<lparr>row_id = env_uuid env, row_tenant = tenant, row_key = wrapped,
                                 row_kms = kms_key_id, row_version = current_version + 1,
                                 row_active = True, row_created_at = env_now env,
                                 row_rotated_at = None, row_created_by = Some rotated_by,
                                 row_access_count = 0\<rparr>
                        in case tmk_insert env r rows of
                             None \<Rightarrow> (Inl TmkInsertFailed, st)
                           | Some rows' \<Rightarrow>
                               if \<not> env_db_ok env DbCommit then (Inl TmkCommitFailed, st)
                               else
                                 let st = st\<lparr>tmk_rows := rows'\<rparr>;
                                     st = cache_and_wipe (env_now env)
                                            (tmk_cache_key tenant (row_version r)) a st
                                 in (Inr r, log_key_audit tenant rotated_by (row_id r) ''rotate'' True None st))"

record tmk_status =
  ts_version :: int
  ts_created_at :: time
  ts_last_rotated :: "time option"
  ts_days_since_rotation :: int
  ts_access_count :: int
  ts_rotation_recommended :: bool

text \<open>\<open>Inr None\<close> is the answer \<^verbatim>\<open>has_tmk: false\<close>; days are counted by the query.\<close>

definition get_tmk_status :: "tmk_env \<Rightarrow> uuid \<Rightarrow> tmk_state \<Rightarrow> tmk_error + tmk_status option" where
  "get_tmk_status env tenant st =
     (if \<not> env_db_ok env DbSelect then Inl TmkQueryFailed
      else case active_row tenant (tmk_rows st) of
             None \<Rightarrow> Inr None
           | Some r \<Rightarrow>
               let since = (case row_rotated_at r of None \<Rightarrow> row_created_at r | Some t \<Rightarrow> t);
                   days = go_quot (env_now env - since) (24 * hour)
               in Inr (Some \<lparr>ts_version = row_version r, ts_created_at = row_created_at r,
                             ts_last_rotated = row_rotated_at r, ts_days_since_rotation = days,
                             ts_access_count = row_access_count r,
                             ts_rotation_recommended = days > 90\<rparr>))"

definition export_tmk_for_backup ::
  "(bytes \<Rightarrow> string) \<Rightarrow> tmk_env \<Rightarrow> uuid \<Rightarrow> uuid \<Rightarrow> tmk_state \<Rightarrow> (tmk_error + string) \<times> tmk_state" where
  "export_tmk_for_backup base64 env tenant requested_by st =
     (if \<not> env_db_ok env DbSelect then (Inl TmkExportFailed, st)
      else case active_row tenant (tmk_rows st) of
             None \<Rightarrow> (Inl TmkExportFailed, st)
           | Some r \<Rightarrow>
               (Inr (''v'' @ show_int (row_version r) @ '':'' @ row_kms r @ '':'' @ base64 (row_key r)),
                log_key_audit tenant requested_by [] ''export'' True None st))"

section \<open>Cache keys\<close>

lemma show_int_no_v: "CHR ''v'' \<notin> set (show_int i)"
proof -
  have digit: "digit_char d \<noteq> CHR ''v''" if "d < 10" for d
  proof
    assume "digit_char d = CHR ''v''"
    then have "of_char (digit_char d) = (of_char (CHR ''v'') :: nat)" by simp
    with that show False by (simp add: digit_char_def of_char_of)
  qed
  have "CHR ''v'' \<notin> set (show_nat n)" for n
  proof
    assume "CHR ''v'' \<in> set (show_nat n)"
    then have "CHR ''v'' \<in> digit_char ` {..<10}" using set_show_nat by (rule rev_subsetD)
    then obtain d where "d < 10" "digit_char d = CHR ''v''" by (auto simp del: of_char_Char)
    then show False using digit by simp
  qed
  then show ?thesis by (simp add: show_int_def)
qed

lemma tmk_cache_key_inj: "tmk_cache_key t v = tmk_cache_key t' v' \<longleftrightarrow> t = t' \<and> v = v'"
proof
  assume "tmk_cache_key t v = tmk_cache_key t' v'"
  then have "rev (t @ '':v'' @ show_int v) = rev (t' @ '':v'' @ show_int v')"
    by (simp add: tmk_cache_key_def)
  then have "rev (show_int v) @ CHR ''v'' # CHR '':'' # rev t
      = rev (show_int v') @ CHR ''v'' # CHR '':'' # rev t'" by simp
  then have "rev (show_int v) = rev (show_int v') \<and> CHR '':'' # rev t = CHR '':'' # rev t'"
    by (rule prefix_char_unique) (simp_all add: show_int_no_v)
  then show "t = t' \<and> v = v'" by (simp add: show_int_inj)
qed simp

section \<open>Coherence of the cache with the table\<close>

text \<open>
  Every cached key is what the KMS makes of the wrapped key of that tenant and version.
\<close>

definition tmk_coherent :: "kms_fun \<Rightarrow> tmk_state \<Rightarrow> bool" where
  "tmk_coherent dec st \<longleftrightarrow> kc_ok (tmk_cache st) (tmk_mem st)
     \<and> distinct (map row_tenant (tmk_rows st))
     \<and> (\<forall>t v key. kc_contents (tmk_cache st) (tmk_mem st) (tmk_cache_key t v) = Some key
          \<longrightarrow> (\<exists>r \<in> set (tmk_rows st). row_tenant r = t \<and> row_version r = v
                \<and> dec (row_kms r) (row_key r) = Inr key))"

lemma tmk_coherentI:
  assumes "kc_ok (tmk_cache st) (tmk_mem st)" and "distinct (map row_tenant (tmk_rows st))"
    and "\<And>t v key. kc_contents (tmk_cache st) (tmk_mem st) (tmk_cache_key t v) = Some key \<Longrightarrow>
      \<exists>r \<in> set (tmk_rows st). row_tenant r = t \<and> row_version r = v \<and> dec (row_kms r) (row_key r) = Inr key"
  shows "tmk_coherent dec st"
  using assms by (auto simp: tmk_coherent_def)

lemma tmk_coherentD:
  assumes "tmk_coherent dec st"
  shows "kc_ok (tmk_cache st) (tmk_mem st)" and "distinct (map row_tenant (tmk_rows st))"
    and "kc_contents (tmk_cache st) (tmk_mem st) (tmk_cache_key t v) = Some key \<Longrightarrow>
      \<exists>r \<in> set (tmk_rows st). row_tenant r = t \<and> row_version r = v \<and> dec (row_kms r) (row_key r) = Inr key"
  using assms by (auto simp: tmk_coherent_def)

lemma coherent_audit [simp]:
  "tmk_coherent dec (log_key_audit t u kid op ok e st) = tmk_coherent dec st"
  "tmk_rows (log_key_audit t u kid op ok e st) = tmk_rows st"
  "tmk_mem (log_key_audit t u kid op ok e st) = tmk_mem st"
  "tmk_cache (log_key_audit t u kid op ok e st) = tmk_cache st"
  by (simp_all add: tmk_coherent_def log_key_audit_def)

lemma coherent_new: "distinct (map row_tenant rows) \<Longrightarrow> tmk_coherent dec (new_tmk_service rows)"
  by (simp add: tmk_coherent_def new_tmk_service_def kc_ok_new)
    (simp add: kc_contents_def new_key_cache_def)

lemma coherent_alloc:
  "tmk_coherent dec st \<Longrightarrow> alloc bs (tmk_mem st) = (a, m) \<Longrightarrow> tmk_coherent dec (st\<lparr>tmk_mem := m\<rparr>)"
  using kc_contents_alloc [of "tmk_cache st" "tmk_mem st" bs]
    kc_ok_brk_mono [of "tmk_cache st" "tmk_mem st" m]
  by (auto simp: tmk_coherent_def alloc_def)

lemma coherent_insert:
  assumes "tmk_coherent dec st" and "tmk_insert env r (tmk_rows st) = Some rows"
  shows "tmk_coherent dec (st\<lparr>tmk_rows := rows\<rparr>)"
proof -
  have rows: "rows = tmk_rows st @ [r]" and new: "row_tenant r \<notin> row_tenant ` set (tmk_rows st)"
    using assms(2) by (auto simp: tmk_insert_def tmk_row_allowed_def split: if_splits)
  show ?thesis using assms(1) new by (fastforce simp: tmk_coherent_def rows)
qed

lemma coherent_set:
  assumes "tmk_coherent dec st" and "kc_set now (tmk_cache_key (row_tenant r) (row_version r)) a
      (tmk_cache st) (tmk_mem st) = (kc, m)"
    and "r \<in> set (tmk_rows st)" and "dec (row_kms r) (row_key r) = Inr (heap (tmk_mem st) a)"
  shows "tmk_coherent dec (st\<lparr>tmk_cache := kc, tmk_mem := m\<rparr>)"
proof (rule tmk_coherentI, simp_all)
  show "kc_ok kc m" by (rule kc_set_ok [OF tmk_coherentD(1) [OF assms(1)] assms(2)])
  show "distinct (map row_tenant (tmk_rows st))" by (rule tmk_coherentD(2) [OF assms(1)])
  fix t v key
  assume "kc_contents kc m (tmk_cache_key t v) = Some key"
  then show "\<exists>r\<in>set (tmk_rows st). row_tenant r = t \<and> row_version r = v \<and> dec (row_kms r) (row_key r) = Inr key"
    using kc_contents_set [OF tmk_coherentD(1) [OF assms(1)],
        of now "tmk_cache_key (row_tenant r) (row_version r)" a "tmk_cache_key t v"]
      tmk_coherentD(3) [OF assms(1), of t v key] assms(2-4)
    by (auto simp: tmk_cache_key_inj split: if_splits)
qed

lemma coherent_wipe:
  assumes "tmk_coherent dec st" and "a \<notin> kc_owned (tmk_cache st)" and "a < brk (tmk_mem st)"
    and "r \<in> set (tmk_rows st)" and "dec (row_kms r) (row_key r) = Inr (heap (tmk_mem st) a)"
  shows "tmk_coherent dec (cache_and_wipe now (tmk_cache_key (row_tenant r) (row_version r)) a st)"
proof -
  let ?k = "tmk_cache_key (row_tenant r) (row_version r)"
  obtain kc m where set: "kc_set now ?k a (tmk_cache st) (tmk_mem st) = (kc, m)" by fastforce
  then have c: "tmk_coherent dec (st\<lparr>tmk_cache := kc, tmk_mem := m\<rparr>)"
    using coherent_set [OF assms(1) _ assms(4,5)] by blast
  have "a \<notin> kc_owned kc"
    using kc_owned_set [of now ?k a "tmk_cache st" "tmk_mem st"] set assms(2,3) by auto
  then show ?thesis using c
    by (auto simp: cache_and_wipe_def set tmk_coherent_def kc_contents_zero mem_simps
        intro: kc_ok_brk_mono)
qed

lemma coherent_delete:
  assumes "tmk_coherent dec st" and "kc_delete k (tmk_cache st) (tmk_mem st) = (kc, m)"
  shows "tmk_coherent dec (st\<lparr>tmk_cache := kc, tmk_mem := m\<rparr>)"
  using kc_contents_delete [OF tmk_coherentD(1) [OF assms(1)], of k] assms(2)
    kc_delete_ok [OF tmk_coherentD(1) [OF assms(1)] assms(2)] assms(1)
  by (auto simp: tmk_coherent_def split: if_splits)

lemma active_row_Some:
  "active_row t rows = Some r \<Longrightarrow> r \<in> set rows \<and> row_tenant r = t \<and> row_active r"
  by (auto simp: active_row_def find_Some_iff)

lemma active_row_append_new:
  "t \<notin> row_tenant ` set rows \<Longrightarrow> active_row t (rows @ [r]) = (if row_tenant r = t \<and> row_active r then Some r else None)"
  by (induction rows) (auto simp: active_row_def)

lemma tenant_deactivate: "row_tenant ` set (deactivate now t rows) = row_tenant ` set rows"
  unfolding deactivate_def by (induction rows) auto

section \<open>The operations keep coherence\<close>

lemma coherent_fresh:
  assumes "tmk_coherent dec st" and "alloc bs (tmk_mem st) = (a, m)"
  shows "a \<notin> kc_owned (tmk_cache st)" and "a < brk m" and "heap m a = bs"
  using kc_ok_owned_below [OF tmk_coherentD(1) [OF assms(1)], of a] assms(2)
  by (auto simp: alloc_def)

lemma coherent_store:
  assumes "tmk_coherent dec st" and "alloc plaintext (tmk_mem st) = (a, m)"
    and "dec (row_kms r) (row_key r) = Inr plaintext"
    and "tmk_insert env r (tmk_rows st) = Some rows"
  shows "tmk_coherent dec (cache_and_wipe now (tmk_cache_key (row_tenant r) (row_version r)) a
      (st\<lparr>tmk_mem := m, tmk_rows := rows\<rparr>))"
proof (rule coherent_wipe)
  have "tmk_coherent dec (st\<lparr>tmk_mem := m\<rparr>)" by (rule coherent_alloc [OF assms(1,2)])
  then show "tmk_coherent dec (st\<lparr>tmk_mem := m, tmk_rows := rows\<rparr>)"
    using coherent_insert [of dec "st\<lparr>tmk_mem := m\<rparr>" env r rows] assms(4) by simp
  show "r \<in> set (tmk_rows (st\<lparr>tmk_mem := m, tmk_rows := rows\<rparr>))"
    using assms(4) by (auto simp: tmk_insert_def split: if_splits)
qed (use coherent_fresh [OF assms(1,2)] assms(3) in simp_all)

lemma create_tmk_Inr:
  assumes "create_tmk enc env t u kid st = (Inr r, st')"
  obtains plaintext a m rows where "rand_read 32 (env_rand env) = Some plaintext"
    and "alloc plaintext (tmk_mem st) = (a, m)" and "enc kid plaintext = Inr (row_key r)"
    and "row_kms r = kid" and "row_tenant r = t" and "row_version r = 1" and "row_active r"
    and "tmk_insert env r (tmk_rows st) = Some rows"
    and "st' = log_key_audit t u (row_id r) ''generate'' True None
      (cache_and_wipe (env_now env) (tmk_cache_key t 1) a (st\<lparr>tmk_mem := m, tmk_rows := rows\<rparr>))"
  using assms by (auto simp: create_tmk_def Let_def split: option.splits prod.splits sum.splits)

lemma create_tmk_Inl:
  assumes "create_tmk enc env t u kid st = (Inl e, st')"
  shows "st' = st \<or> (\<exists>bs a m. alloc bs (tmk_mem st) = (a, m) \<and> st' = st\<lparr>tmk_mem := m\<rparr>)"
  using assms by (auto simp: create_tmk_def Let_def split: option.splits prod.splits sum.splits)

lemma cache_and_wipe_rows [simp]: "tmk_rows (cache_and_wipe now k a st) = tmk_rows st"
  by (simp add: cache_and_wipe_def split: prod.split)

lemma get_active_tmk_Inr:
  assumes "tmk_coherent dec st" and "get_active_tmk dec env t st = (Inr a, st')"
  shows "tmk_coherent dec st' \<and> tmk_rows st' = tmk_rows st \<and>
    (\<exists>r. active_row t (tmk_rows st) = Some r \<and> dec (row_kms r) (row_key r) = Inr (heap (tmk_mem st') a))"
proof -
  obtain r where r: "active_row t (tmk_rows st) = Some r"
    using assms(2) by (auto simp: get_active_tmk_def split: if_splits option.splits)
  have rt: "r \<in> set (tmk_rows st)" "row_tenant r = t" using active_row_Some [OF r] by simp_all
  let ?k = "tmk_cache_key t (row_version r)"
  obtain hit m where get: "kc_get (env_now env) ?k (tmk_cache st) (tmk_mem st) = (hit, m)" by fastforce
  show ?thesis
  proof (cases hit)
    case (Some b)
    have st': "a = b" "st' = log_key_audit t uuid_nil (row_id r) ''access'' True None (st\<lparr>tmk_mem := m\<rparr>)"
      using assms(2) Some get r by (auto simp: get_active_tmk_def split: if_splits)
    have "kc_contents (tmk_cache st) (tmk_mem st) ?k = Some (heap m b)"
      using kc_get_contents get Some by blast
    with tmk_coherentD(3) [OF assms(1)] obtain r' where r': "r' \<in> set (tmk_rows st)" "row_tenant r' = t"
      "dec (row_kms r') (row_key r') = Inr (heap m b)" by blast
    have "r' = r" using tmk_coherentD(2) [OF assms(1)] r' rt by (auto simp: distinct_map inj_on_def)
    moreover obtain bs where "alloc bs (tmk_mem st) = (b, m)"
      using get Some by (auto simp: kc_get_def split: option.splits if_splits prod.splits)
    then have "tmk_coherent dec (st\<lparr>tmk_mem := m\<rparr>)" by (rule coherent_alloc [OF assms(1)])
    ultimately show ?thesis using r r' by (simp add: st')
  next
    case None
    then have m: "m = tmk_mem st" using get by (auto simp: kc_get_def alloc_def split: option.splits if_splits)
    obtain key where key: "dec (row_kms r) (row_key r) = Inr key"
      using assms(2) None get r by (auto simp: get_active_tmk_def split: if_splits sum.splits)
    obtain b m1 where al: "alloc key (tmk_mem st) = (b, m1)" by fastforce
    obtain kc m2 where set: "kc_set (env_now env) ?k b (tmk_cache st) m1 = (kc, m2)" by fastforce
    have st': "a = b" "st' = log_key_audit t uuid_nil (row_id r) ''decrypt'' True None (st\<lparr>tmk_cache := kc, tmk_mem := m2\<rparr>)"
      using assms(2) None get r key al set by (auto simp: get_active_tmk_def m split: if_splits)
    have co: "tmk_coherent dec (st\<lparr>tmk_mem := m1\<rparr>)" by (rule coherent_alloc [OF assms(1) al])
    have "tmk_coherent dec (st\<lparr>tmk_mem := m1, tmk_cache := kc, tmk_mem := m2\<rparr>)"
    proof (rule coherent_set [OF co])
      show "dec (row_kms r) (row_key r) = Inr (heap (tmk_mem (st\<lparr>tmk_mem := m1\<rparr>)) b)"
        using key coherent_fresh(3) [OF assms(1) al] by simp
    qed (use set rt in simp_all)
    moreover have "heap m2 b = key"
      using set coherent_fresh(2,3) [OF assms(1) al] by (auto simp: kc_set_eq)
    ultimately show ?thesis using r key by (simp add: st')
  qed
qed

lemma get_active_tmk_Inl:
  "get_active_tmk dec env t st = (Inl e, st') \<Longrightarrow> tmk_rows st' = tmk_rows st \<and> tmk_cache st' = tmk_cache st \<and> tmk_mem st' = tmk_mem st"
  by (auto simp: get_active_tmk_def Let_def split: if_splits option.splits prod.splits sum.splits)

lemma coherent_cong:
  "tmk_rows st' = tmk_rows st \<Longrightarrow> tmk_cache st' = tmk_cache st \<Longrightarrow> tmk_mem st' = tmk_mem st
    \<Longrightarrow> tmk_coherent dec st \<Longrightarrow> tmk_coherent dec st'"
  by (simp add: tmk_coherent_def)

lemma get_active_tmk_coherent:
  "tmk_coherent dec st \<Longrightarrow> get_active_tmk dec env t st = (res, st') \<Longrightarrow> tmk_coherent dec st'"
  by (cases res) (auto dest: get_active_tmk_Inr get_active_tmk_Inl intro: coherent_cong)

text \<open>
  What a rotation leaves behind: only cache and memory changes after an error, and a new row
  only for a tenant that had none.
\<close>

definition drop_cached :: "uuid \<Rightarrow> tmk_state \<Rightarrow> tmk_state" where
  "drop_cached t st =
     (case active_row t (tmk_rows st) of None \<Rightarrow> st
      | Some r \<Rightarrow> let (kc, m) = kc_delete (tmk_cache_key t (row_version r)) (tmk_cache st) (tmk_mem st)
                  in st\<lparr>tmk_cache := kc, tmk_mem := m\<rparr>)"

lemma drop_cached_coherent: "tmk_coherent dec st \<Longrightarrow> tmk_coherent dec (drop_cached t st)"
  by (auto simp: drop_cached_def intro: coherent_delete split: option.split prod.split)

lemma drop_cached_rows [simp]: "tmk_rows (drop_cached t st) = tmk_rows st"
  by (auto simp: drop_cached_def split: option.split prod.split)

lemma insert_existing_tenant:
  "t \<in> row_tenant ` set rows \<Longrightarrow> row_tenant r = t \<Longrightarrow> tmk_insert env r rows = None"
  by (auto simp: tmk_insert_def tmk_row_allowed_def)

lemma rotate_tmk_Inl:
  assumes "rotate_tmk enc env t u kid st = (Inl e, st')"
  shows "st' = st \<or> st' = drop_cached t st
    \<or> (\<exists>bs a m. alloc bs (tmk_mem (drop_cached t st)) = (a, m) \<and> st' = (drop_cached t st)\<lparr>tmk_mem := m\<rparr>)"
  using assms
  by (auto simp: rotate_tmk_def drop_cached_def Let_def
      split: option.splits prod.splits sum.splits if_splits)

lemma rotate_tmk_Inr:
  assumes "rotate_tmk enc env t u kid st = (Inr r, st')"
  obtains plaintext a m rows where "active_row t (tmk_rows st) = None"
    and "t \<notin> row_tenant ` set (tmk_rows st)"
    and "alloc plaintext (tmk_mem st) = (a, m)" and "enc kid plaintext = Inr (row_key r)"
    and "row_kms r = kid" and "row_tenant r = t" and "row_version r = 1"
    and "tmk_insert env r (tmk_rows st) = Some rows"
    and "st' = log_key_audit t u (row_id r) ''rotate'' True None
      (cache_and_wipe (env_now env) (tmk_cache_key t 1) a (st\<lparr>tmk_mem := m, tmk_rows := rows\<rparr>))"
proof -
  have none: "active_row t (tmk_rows st) = None"
  proof (rule ccontr)
    assume "active_row t (tmk_rows st) \<noteq> None"
    then obtain q where q: "active_row t (tmk_rows st) = Some q" by auto
    then have "t \<in> row_tenant ` set (deactivate now t (tmk_rows st))" for now
      using active_row_Some [OF q] by (auto simp: tenant_deactivate)
    then have "tmk_insert env r' (deactivate now t (tmk_rows st)) = None" if "row_tenant r' = t" for r' now
      using that by (rule insert_existing_tenant)
    with assms q show False
      by (auto simp: rotate_tmk_def Let_def split: option.splits prod.splits sum.splits if_splits)
  qed
  show thesis
    using assms none
    by (auto simp: rotate_tmk_def Let_def tmk_insert_def tmk_row_allowed_def
        split: option.splits prod.splits sum.splits if_splits intro!: that)
qed

context kms_client begin

lemma create_tmk_coherent:
  assumes "tmk_coherent decrypt st" and "create_tmk encrypt env t u kid st = (res, st')"
  shows "tmk_coherent decrypt st'"
proof (cases res)
  case (Inl e)
  with assms create_tmk_Inl show ?thesis by (fastforce intro: coherent_alloc)
next
  case (Inr r)
  with assms(2) have "create_tmk encrypt env t u kid st = (Inr r, st')" by simp
  then show ?thesis
  proof (rule create_tmk_Inr)
    fix plaintext a m rows
    assume *: "alloc plaintext (tmk_mem st) = (a, m)" "encrypt kid plaintext = Inr (row_key r)"
      "row_kms r = kid" "row_tenant r = t" "row_version r = 1"
      "tmk_insert env r (tmk_rows st) = Some rows"
      "st' = log_key_audit t u (row_id r) ''generate'' True None
        (cache_and_wipe (env_now env) (tmk_cache_key t 1) a (st\<lparr>tmk_mem := m, tmk_rows := rows\<rparr>))"
    show "tmk_coherent decrypt st'"
      using coherent_store [OF assms(1) *(1) _ *(6), of "env_now env"] decrypt_encrypt [OF *(2)] *(3,4,5,7)
      by simp
  qed
qed

lemma rotate_tmk_coherent:
  assumes "tmk_coherent decrypt st" and "rotate_tmk encrypt env t u kid st = (res, st')"
  shows "tmk_coherent decrypt st'"
proof (cases res)
  case (Inl e)
  with assms(2) rotate_tmk_Inl drop_cached_coherent [OF assms(1)] assms(1) show ?thesis
    by (fastforce intro: coherent_alloc)
next
  case (Inr r)
  with assms(2) have "rotate_tmk encrypt env t u kid st = (Inr r, st')" by simp
  then show ?thesis
  proof (rule rotate_tmk_Inr)
    fix plaintext a m rows
    assume *: "alloc plaintext (tmk_mem st) = (a, m)" "encrypt kid plaintext = Inr (row_key r)"
      "row_kms r = kid" "row_tenant r = t" "row_version r = 1"
      "tmk_insert env r (tmk_rows st) = Some rows"
      "st' = log_key_audit t u (row_id r) ''rotate'' True None
        (cache_and_wipe (env_now env) (tmk_cache_key t 1) a (st\<lparr>tmk_mem := m, tmk_rows := rows\<rparr>))"
    show "tmk_coherent decrypt st'"
      using coherent_store [OF assms(1) *(1) _ *(6), of "env_now env"] decrypt_encrypt [OF *(2)] *(3,4,5,7)
      by simp
  qed
qed

end

section \<open>The service over time\<close>

inductive tmk_step :: "kms_fun \<Rightarrow> kms_fun \<Rightarrow> tmk_state \<Rightarrow> tmk_state \<Rightarrow> bool" for enc dec where
  create: "create_tmk enc env t u kid st = (res, st') \<Longrightarrow> tmk_step enc dec st st'"
| get: "get_active_tmk dec env t st = (ans, st') \<Longrightarrow> tmk_step enc dec st st'"
| rotate: "rotate_tmk enc env t u kid st = (res, st') \<Longrightarrow> tmk_step enc dec st st'"
| export: "export_tmk_for_backup base64 env t u st = (txt, st') \<Longrightarrow> tmk_step enc dec st st'"
| cleanup: "kc_cleanup now (tmk_cache st) (tmk_mem st) = (kc, m) \<Longrightarrow>
    tmk_step enc dec st (st\<lparr>tmk_cache := kc, tmk_mem := m\<rparr>)"
| caller_write: "a \<notin> kc_owned (tmk_cache st) \<Longrightarrow>
    tmk_step enc dec st (st\<lparr>tmk_mem := write_buf a bs (tmk_mem st)\<rparr>)"

inductive tmk_reachable :: "kms_fun \<Rightarrow> kms_fun \<Rightarrow> tmk_state \<Rightarrow> bool" for enc dec where
  start: "tmk_reachable enc dec (new_tmk_service [])"
| step: "tmk_reachable enc dec st \<Longrightarrow> tmk_step enc dec st st' \<Longrightarrow> tmk_reachable enc dec st'"

lemma coherent_cleanup:
  assumes "tmk_coherent dec st" and "kc_cleanup now (tmk_cache st) (tmk_mem st) = (kc, m)"
  shows "tmk_coherent dec (st\<lparr>tmk_cache := kc, tmk_mem := m\<rparr>)"
  using kc_contents_cleanup [OF tmk_coherentD(1) [OF assms(1)], of now]
    kc_cleanup_ok [OF tmk_coherentD(1) [OF assms(1)] assms(2)] assms
  by (auto simp: tmk_coherent_def)

lemma coherent_foreign_write:
  assumes "tmk_coherent dec st" and "a \<notin> kc_owned (tmk_cache st)"
  shows "tmk_coherent dec (st\<lparr>tmk_mem := write_buf a bs (tmk_mem st)\<rparr>)"
proof -
  have "kc_contents (tmk_cache st) (write_buf a bs (tmk_mem st)) k = kc_contents (tmk_cache st) (tmk_mem st) k" for k
    using assms(2) by (cases "map_of (kc_cache (tmk_cache st)) k") (auto simp: kc_contents_def mem_simps kc_owned_iff)
  then show ?thesis using assms(1) by (auto simp: tmk_coherent_def mem_simps intro: kc_ok_brk_mono)
qed

lemma export_coherent:
  "tmk_coherent dec st \<Longrightarrow> export_tmk_for_backup b64 env t u st = (txt, st') \<Longrightarrow> tmk_coherent dec st'"
  by (auto simp: export_tmk_for_backup_def split: if_splits option.splits)

context kms_client begin

lemma tmk_step_coherent: "tmk_step encrypt decrypt st st' \<Longrightarrow> tmk_coherent decrypt st \<Longrightarrow> tmk_coherent decrypt st'"
  by (induction rule: tmk_step.induct)
    (blast intro: create_tmk_coherent get_active_tmk_coherent rotate_tmk_coherent export_coherent
      coherent_cleanup coherent_foreign_write)+

lemma tmk_reachable_coherent: "tmk_reachable encrypt decrypt st \<Longrightarrow> tmk_coherent decrypt st"
  by (induction rule: tmk_reachable.induct) (auto intro: coherent_new tmk_step_coherent)

lemma created_key_is_served:
  assumes "tmk_coherent decrypt st" and "create_tmk encrypt env t u kid st = (Inr r, st1)"
    and "env_db_ok env' DbSelect"
  shows "\<exists>a st2. get_active_tmk decrypt env' t st1 = (Inr a, st2)
    \<and> rand_read 32 (env_rand env) = Some (heap (tmk_mem st2) a)"
proof -
  have co: "tmk_coherent decrypt st1" by (rule create_tmk_coherent [OF assms(1,2)])
  obtain plaintext rows where pt: "rand_read 32 (env_rand env) = Some plaintext"
    and r: "encrypt kid plaintext = Inr (row_key r)" "row_kms r = kid" "row_tenant r = t" "row_active r"
    and ins: "tmk_insert env r (tmk_rows st) = Some rows" and rows: "tmk_rows st1 = rows"
    by (rule create_tmk_Inr [OF assms(2)]) (rule that, simp_all)
  have active: "active_row t (tmk_rows st1) = Some r"
    using ins r(3,4) active_row_append_new [of t "tmk_rows st" r]
    by (auto simp: rows tmk_insert_def tmk_row_allowed_def split: if_splits)
  have dec: "decrypt (row_kms r) (row_key r) = Inr plaintext" using decrypt_encrypt r(1,2) by blast
  obtain res st2 where get: "get_active_tmk decrypt env' t st1 = (res, st2)" by fastforce
  have "\<exists>a. res = Inr a"
    using get active dec assms(3)
    by (auto simp: get_active_tmk_def Let_def split: option.splits prod.splits)
  then show ?thesis using get get_active_tmk_Inr [OF co] active dec pt by fastforce
qed

end

text \<open>
  C2: The service hands out the right key. Whatever sequence of creations, lookups, rotations,
  exports, cache cleanups and caller writes came before, and whatever the cache holds, the
  bytes a successful lookup returns for a tenant are what the KMS decrypts from the tenant's
  active row.
\<close>

theorem active_key_is_the_tenants_key:
  assumes "kms_client enc dec" and "tmk_reachable enc dec st" and "get_active_tmk dec env t st = (Inr a, st')"
  shows "\<exists>r. active_row t (tmk_rows st) = Some r \<and> row_tenant r = t
    \<and> dec (row_kms r) (row_key r) = Inr (heap (tmk_mem st') a)"
  using get_active_tmk_Inr [OF kms_client.tmk_reachable_coherent [OF assms(1,2)] assms(3)] active_row_Some
  by blast

text \<open>
  A created key is the key that is served. After a successful creation every lookup whose
  query succeeds returns the 32 random bytes that were drawn, although the creator's own
  buffer has been zeroed; it does so from the cache or, later, from the KMS.
\<close>

theorem created_key_served:
  assumes "kms_client enc dec" and "tmk_reachable enc dec st"
    and "create_tmk enc env t u kid st = (Inr r, st1)" and "env_db_ok env' DbSelect"
  shows "\<exists>a st2. get_active_tmk dec env' t st1 = (Inr a, st2)
    \<and> rand_read 32 (env_rand env) = Some (heap (tmk_mem st2) a)"
  using kms_client.created_key_is_served [OF assms(1) kms_client.tmk_reachable_coherent [OF assms(1,2)] assms(3,4)] .

text \<open>
  A tenant that has a key cannot rotate it. The table allows one row per tenant and
  rotation inserts a second one, so with the schema as created rotation always fails for such
  a tenant; the table is unchanged, and only the cached key is lost.
\<close>

theorem rotation_of_existing_key_fails:
  assumes "t \<in> row_tenant ` set (tmk_rows st)"
  shows "\<exists>e st'. rotate_tmk enc env t u kid st = (Inl e, st') \<and> tmk_rows st' = tmk_rows st
    \<and> tmk_audit st' = tmk_audit st"
proof -
  obtain res st' where rot: "rotate_tmk enc env t u kid st = (res, st')" by fastforce
  have "\<nexists>r. res = Inr r"
    using rot assms by (auto elim: rotate_tmk_Inr)
  then obtain e where "res = Inl e" by (cases res) auto
  moreover have "tmk_audit (drop_cached t st) = tmk_audit st"
    by (auto simp: drop_cached_def split: option.split prod.split)
  ultimately show ?thesis using rot rotate_tmk_Inl by fastforce
qed

text \<open>An environment in which every call of the outside succeeds, for the witnesses.\<close>

definition good_env :: "uuid \<Rightarrow> bytes \<Rightarrow> tmk_env" where
  "good_env rid rnd = \<lparr>env_now = 0, env_uuid = rid, env_rand = Some rnd, env_db_ok = (\<lambda>_. True),
     env_tenant_exists = (\<lambda>_. True), env_user_exists = (\<lambda>_. True)\<rparr>"

definition first_tmk :: "tmk_row \<times> tmk_state" where
  "first_tmk = (case create_tmk (mock_encrypt [1]) (good_env ''r1'' []) ''t1'' ''u1'' ''kek'' (new_tmk_service [])
     of (Inr r, st) \<Rightarrow> (r, st) | (Inl _, st) \<Rightarrow> (undefined, st))"

lemma first_tmk:
  "create_tmk (mock_encrypt [1]) (good_env ''r1'' []) ''t1'' ''u1'' ''kek'' (new_tmk_service [])
     = (Inr (fst first_tmk), snd first_tmk)"
  "tmk_rows (snd first_tmk) = [fst first_tmk]" "row_tenant (fst first_tmk) = ''t1''"
  by (simp_all add: first_tmk_def create_tmk_def good_env_def rand_read_def mock_encrypt_def tmk_insert_def
      tmk_row_allowed_def new_tmk_service_def alloc_def Let_def log_key_audit_def cache_and_wipe_rows)

theorem created_key_served_witness:
  "\<exists>a st2. get_active_tmk (mock_decrypt [1]) (good_env ''x'' []) ''t1'' (snd first_tmk) = (Inr a, st2)
     \<and> heap (tmk_mem st2) a = replicate 32 0"
  using created_key_served [OF mock.kms_client_axioms tmk_reachable.start first_tmk(1), of "good_env ''x'' []"]
  by (simp add: good_env_def rand_read_def) metis

theorem active_key_is_the_tenants_key_witness:
  "\<exists>a st' r. get_active_tmk (mock_decrypt [1]) (good_env ''x'' []) ''t1'' (snd first_tmk) = (Inr a, st')
     \<and> active_row ''t1'' (tmk_rows (snd first_tmk)) = Some r
     \<and> mock_decrypt [1] (row_kms r) (row_key r) = Inr (heap (tmk_mem st') a)"
proof -
  have reach: "tmk_reachable (mock_encrypt [1]) (mock_decrypt [1]) (snd first_tmk)"
    by (rule tmk_reachable.step [OF tmk_reachable.start tmk_step.create [OF first_tmk(1)]])
  obtain a st' where get: "get_active_tmk (mock_decrypt [1]) (good_env ''x'' []) ''t1'' (snd first_tmk) = (Inr a, st')"
    using mock.created_key_is_served [OF mock.tmk_reachable_coherent [OF tmk_reachable.start] first_tmk(1),
        of "good_env ''x'' []"] by (auto simp: good_env_def)
  then show ?thesis using active_key_is_the_tenants_key [OF mock.kms_client_axioms reach get] by blast
qed

theorem rotation_of_existing_key_fails_witness:
  "\<exists>e st'. rotate_tmk (mock_encrypt [1]) (good_env ''r2'' [5]) ''t1'' ''u1'' ''kek'' (snd first_tmk) = (Inl e, st')
     \<and> tmk_rows st' = tmk_rows (snd first_tmk)"
  using rotation_of_existing_key_fails [of "''t1''" "snd first_tmk"] by (simp add: first_tmk) blast

end
