(* ===== verification/Rewrap.thy ===== *)
theory Rewrap
  imports TenantKeys "HOL-Library.List_Lexorder" "HOL-Library.Char_ord"
begin

text \<open>
  Re-wrapping of data keys after a rotation (internal/encrypt/rewrap_service.go): the rewrite
  of one artifact's \<^verbatim>\<open>meta.json\<close>, the batch loop of a job, its status and cancellation.
  Identifiers are ordered as the database orders UUIDs, by their canonical text.
\<close>

section \<open>Text through JSON\<close>

text \<open>
  The wrapped key is kept as a Go string in a JSON document. \<^verbatim>\<open>encoding/json\<close> replaces every
  byte that is not part of a valid UTF-8 sequence by U+FFFD (bytes EF BF BD); \<open>json_text\<close> is
  what is read back. \<open>rune_len\<close> is the length of the valid sequence at the start, 0 if none.
\<close>

definition cont_byte :: "byte \<Rightarrow> bool" where
  "cont_byte b \<longleftrightarrow> 0x80 \<le> b \<and> b \<le> 0xBF"

fun rune_len :: "bytes \<Rightarrow> nat" where
  "rune_len [] = 0"
| "rune_len (a # bs) =
     (if a < 0x80 then 1
      else if 0xC2 \<le> a \<and> a \<le> 0xDF then
        (case bs of b # _ \<Rightarrow> if cont_byte b then 2 else 0 | [] \<Rightarrow> 0)
      else if 0xE0 \<le> a \<and> a \<le> 0xEF then
        (case bs of
           b # c # _ \<Rightarrow>
             if cont_byte b \<and> cont_byte c \<and> (a = 0xE0 \<longrightarrow> 0xA0 \<le> b) \<and> (a = 0xED \<longrightarrow> b \<le> 0x9F)
             then 3 else 0
         | _ \<Rightarrow> 0)
      else if 0xF0 \<le> a \<and> a \<le> 0xF4 then
        (case bs of
           b # c # d # _ \<Rightarrow>
             if cont_byte b \<and> cont_byte c \<and> cont_byte d
                \<and> (a = 0xF0 \<longrightarrow> 0x90 \<le> b) \<and> (a = 0xF4 \<longrightarrow> b \<le> 0x8F)
             then 4 else 0
         | _ \<Rightarrow> 0)
      else 0)"

lemma rune_len_le: "rune_len bs \<le> length bs"
  by (cases bs) (auto split: list.splits)

function json_text :: "bytes \<Rightarrow> bytes" where
  "json_text [] = []"
| "json_text (b # bs) =
     (let n = rune_len (b # bs)
      in if n = 0 then [0xEF, 0xBF, 0xBD] @ json_text bs
         else take n (b # bs) @ json_text (drop n (b # bs)))"
  by pat_completeness auto
termination
  by (relation "measure length") (auto simp del: rune_len.simps)

lemma json_text_ascii: "\<forall>b \<in> set bs. b < 0x80 \<Longrightarrow> json_text bs = bs"
  by (induction bs) (simp_all add: Let_def)

section \<open>State\<close>

record artifact_metadata =
  am_tenant_id :: string
  am_artifact_id :: string
  am_repository_id :: string
  am_wrapped_dek :: bytes
  am_kek_key_id :: string
  am_tmk_version :: int
  am_algorithm :: string
  am_nonce :: string
  am_last_rewrapped_at :: time

datatype meta_file = Parsed artifact_metadata | Garbage

datatype job_status = JobRunning | JobCompleted | JobFailed | JobCancelled

datatype rewrap_failure =
    ReadMetaFailed
  | ParseMetaFailed
  | OldTmkMissing
  | OldTmkDecryptFailed kms_error
  | OldKekFailed
  | UnwrapFailed kms_error
  | NewKekFailed
  | RewrapFailed kms_error
  | WriteTempFailed
  | RenameFailed

datatype job_error = NoTmk tmk_error | BatchQueryFailed nat | ArtifactFailed uuid rewrap_failure

record rewrap_error =
  re_error :: job_error
  re_timestamp :: time
  re_retryable :: bool

record rewrap_job =
  rj_id :: uuid
  rj_tenant :: uuid
  rj_old_version :: int
  rj_new_version :: int
  rj_started_at :: time
  rj_completed_at :: time
  rj_status :: job_status
  rj_total :: int
  rj_processed :: int
  rj_success :: int
  rj_failed :: int
  rj_current_batch :: nat
  rj_errors :: "rewrap_error list"
  rj_last_id :: uuid

record rewrap_audit_event =
  ra_job :: uuid
  ra_tenant :: uuid
  ra_artifact :: uuid
  ra_operation :: string
  ra_old_kek :: string
  ra_new_kek :: string

text \<open>
  The files of the job: \<open>rw_meta\<close> is what reading \<^verbatim>\<open><storage>/<tenant>/artifacts/<artifact>/meta.json\<close>
  gives, \<open>rw_temp\<close> the \<^verbatim>\<open>.tmp\<close> file beside it.
\<close>

record rewrap_world =
  rw_meta :: "(uuid \<times> uuid) \<rightharpoonup> meta_file"
  rw_temp :: "(uuid \<times> uuid) \<rightharpoonup> meta_file"
  rw_events :: "rewrap_audit_event list"
  rw_jobs :: "(uuid \<times> rewrap_job) list"

datatype temp_write = WriteOk | OpenFails | PartialWrite

record rewrap_env =
  re_now :: time
  re_has_callback :: bool
  re_query_old_ok :: bool
  re_temp_write :: "uuid \<Rightarrow> temp_write"
  re_rename_ok :: "uuid \<Rightarrow> bool"
  re_batch_ok :: "nat \<Rightarrow> bool"
  re_scan_ok :: "uuid \<Rightarrow> bool"

record rewrap_config =
  rc_batch_size :: nat
  rc_delay_between :: time

definition new_rewrap_service :: "rewrap_config \<Rightarrow> rewrap_config" where
  "new_rewrap_service c =
     \<lparr>rc_batch_size = (if rc_batch_size c = 0 then 100 else rc_batch_size c),
      rc_delay_between = (if rc_delay_between c = 0 then second else rc_delay_between c)\<rparr>"

section \<open>One artifact\<close>

type_synonym hkdf_fun = "bytes \<Rightarrow> bytes \<Rightarrow> nat \<Rightarrow> bytes option"

definition derive_old_kek ::
  "kms_fun \<Rightarrow> hkdf_fun \<Rightarrow> rewrap_env \<Rightarrow> tmk_row list \<Rightarrow> uuid \<Rightarrow> uuid \<Rightarrow> int \<Rightarrow> rewrap_failure + bytes" where
  "derive_old_kek dec hkdf env rows tenant repository version =
     (case (if re_query_old_ok env
            then List.find (\<lambda>r. row_tenant r = tenant \<and> row_version r = version) rows else None) of
        None \<Rightarrow> Inl OldTmkMissing
      | Some r \<Rightarrow>
          (case dec (row_kms r) (row_key r) of
             Inl e \<Rightarrow> Inl (OldTmkDecryptFailed e)
           | Inr old_tmk \<Rightarrow>
               (case derive_kek hkdf old_tmk repository of
                  Inl _ \<Rightarrow> Inl OldKekFailed
                | Inr kek \<Rightarrow> Inr kek)))"

definition new_kek_id :: "uuid \<Rightarrow> int \<Rightarrow> string" where
  "new_kek_id repository version = ''kek-'' @ repository @ ''-v'' @ show_int version"

definition rewrap_artifact ::
  "kms_fun \<Rightarrow> kms_fun \<Rightarrow> hkdf_fun \<Rightarrow> rewrap_env \<Rightarrow> tmk_row list \<Rightarrow> rewrap_job \<Rightarrow> uuid \<Rightarrow> uuid
     \<Rightarrow> bytes \<Rightarrow> rewrap_world \<Rightarrow> (rewrap_failure + unit) \<times> rewrap_world" where
  "rewrap_artifact enc dec hkdf env rows job artifact repository new_tmk w =
     (let p = (rj_tenant job, artifact)
      in case rw_meta w p of
           None \<Rightarrow> (Inl ReadMetaFailed, w)
         | Some Garbage \<Rightarrow> (Inl ParseMetaFailed, w)
         | Some (Parsed meta) \<Rightarrow>
             if am_tmk_version meta \<ge> rj_new_version job then (Inr (), w)
             else case derive_old_kek dec hkdf env rows (rj_tenant job) repository (rj_old_version job) of
               Inl e \<Rightarrow> (Inl e, w)
             | Inr old_kek \<Rightarrow>
                 (case dec (am_kek_key_id meta) (am_wrapped_dek meta) of
                    Inl e \<Rightarrow> (Inl (UnwrapFailed e), w)
                  | Inr dek \<Rightarrow>
                      (case derive_kek hkdf new_tmk repository of
                         Inl _ \<Rightarrow> (Inl NewKekFailed, w)
                       | Inr new_kek \<Rightarrow>
                           let kid = new_kek_id repository (rj_new_version job)
                           in case enc kid dek of
                                Inl e \<Rightarrow> (Inl (RewrapFailed e), w)
                              | Inr wrapped \<Rightarrow>
                                  let meta' = meta\<lparr>am_wrapped_dek := wrapped, am_kek_key_id := kid,
                                                am_tmk_version := rj_new_version job,
                                                am_last_rewrapped_at := re_now env\<rparr>;
                                      stored = meta'\<lparr>am_wrapped_dek := json_text (am_wrapped_dek meta')\<rparr>
                                  in case re_temp_write env artifact of
                                       OpenFails \<Rightarrow> (Inl WriteTempFailed, w)
                                     | PartialWrite \<Rightarrow>
                                         (Inl WriteTempFailed, w\<lparr>rw_temp := (rw_temp w)(p \<mapsto> Garbage)\<rparr>)
                                     | WriteOk \<Rightarrow>
                                         if \<not> re_rename_ok env artifact
                                         then (Inl RenameFailed, w\<lparr>rw_temp := (rw_temp w)(p := None)\<rparr>)
                                         else
                                           let w = w\<lparr>rw_meta := (rw_meta w)(p \<mapsto> Parsed stored),
                                                     rw_temp := (rw_temp w)(p := None)\<rparr>;
                                               ev = \<lparr>ra_job = rj_id job, ra_tenant = rj_tenant job,
                                                     ra_artifact = artifact, ra_operation = ''rewrap_success'',
                                                     ra_old_kek = am_kek_key_id meta', ra_new_kek = kid\<rparr>
                                           in (Inr (), if re_has_callback env
                                                       then w\<lparr>rw_events := rw_events w @ [ev]\<rparr> else w))))"

section \<open>The batch loop\<close>

text \<open>
  \<open>arts\<close> are the encrypted artifacts of the tenant with their repositories. A query returns
  the next \<open>n\<close> after the last identifier, in order; rows that fail to scan are skipped.
\<close>

definition next_batch :: "nat \<Rightarrow> uuid \<Rightarrow> (uuid \<times> uuid) list \<Rightarrow> (uuid \<times> uuid) list" where
  "next_batch n last_id arts = take n (filter (\<lambda>a. last_id < fst a) (sort_key fst arts))"

definition rewrap_one ::
  "kms_fun \<Rightarrow> kms_fun \<Rightarrow> hkdf_fun \<Rightarrow> rewrap_env \<Rightarrow> tmk_row list \<Rightarrow> bytes \<Rightarrow> uuid \<times> uuid
     \<Rightarrow> rewrap_job \<times> rewrap_world \<Rightarrow> rewrap_job \<times> rewrap_world" where
  "rewrap_one enc dec hkdf env rows new_tmk a s =
     (let (job, w) = s;
          (res, w) = rewrap_artifact enc dec hkdf env rows job (fst a) (snd a) new_tmk w;
          job = (case res of
                   Inl e \<Rightarrow> job\<lparr>rj_failed := rj_failed job + 1,
                              rj_errors := rj_errors job @ [\<lparr>re_error = ArtifactFailed (fst a) e,
                                re_timestamp = re_now env, re_retryable = True\<rparr>]\<rparr>
                 | Inr _ \<Rightarrow> job\<lparr>rj_success := rj_success job + 1\<rparr>)
      in (job\<lparr>rj_processed := rj_processed job + 1, rj_last_id := fst a\<rparr>, w))"

lemma next_batch_progress:
  assumes "a \<in> set (next_batch n last_id arts)"
  shows "a \<in> set arts" and "last_id < fst a"
  using assms by (auto simp: next_batch_def dest!: in_set_takeD)

lemma remaining_decreases:
  fixes arts :: "('a::linorder \<times> 'b) list"
  assumes "x \<in> set arts" and "last_id < fst x"
  shows "length (filter (\<lambda>a. fst x < fst a) arts) < length (filter (\<lambda>a. last_id < fst a) arts)"
proof -
  have eq: "filter (\<lambda>a. fst x < fst a) arts = filter (\<lambda>a. fst x < fst a) (filter (\<lambda>a. last_id < fst a) arts)"
    using assms(2) by (simp add: conj_commute) (rule filter_cong, auto intro: less_trans [OF assms(2)])
  have "x \<in> set (filter (\<lambda>a. last_id < fst a) arts)" using assms by simp
  then show ?thesis unfolding eq by (rule length_filter_less) simp
qed

function rewrap_batches ::
  "kms_fun \<Rightarrow> kms_fun \<Rightarrow> hkdf_fun \<Rightarrow> rewrap_env \<Rightarrow> tmk_row list \<Rightarrow> bytes \<Rightarrow> nat \<Rightarrow> (uuid \<times> uuid) list
     \<Rightarrow> nat \<Rightarrow> uuid \<Rightarrow> rewrap_job \<times> rewrap_world \<Rightarrow> rewrap_job \<times> rewrap_world" where
  "rewrap_batches enc dec hkdf env rows new_tmk bsize arts batch_num last_id s =
     (let n = Suc batch_num; job = (fst s)\<lparr>rj_current_batch := n\<rparr>; w = snd s
      in if \<not> re_batch_ok env n
         then (job\<lparr>rj_errors := rj_errors job @ [\<lparr>re_error = BatchQueryFailed n,
                 re_timestamp = re_now env, re_retryable = True\<rparr>]\<rparr>, w)
         else let batch = filter (\<lambda>a. re_scan_ok env (fst a)) (next_batch bsize last_id arts)
              in if batch = [] then (job, w)
                 else rewrap_batches enc dec hkdf env rows new_tmk bsize arts n (fst (last batch))
                        (fold (rewrap_one enc dec hkdf env rows new_tmk) batch (job, w)))"
  by pat_completeness auto

termination
proof (relation "measure (\<lambda>(_, _, _, _, _, _, _, arts, _, last_id, _). length (filter (\<lambda>a. last_id < fst a) arts))",
    goal_cases)
  case 1
  then show ?case by simp
next
  case (2 enc dec hkdf env rows new_tmk bsize arts batch_num last_id s n job w batch)
  from 2 have "batch \<noteq> []" by blast
  then have "last batch \<in> set batch" by (rule last_in_set)
  moreover have "set batch \<subseteq> set (next_batch bsize last_id arts)" using 2 by auto
  ultimately have "last batch \<in> set (next_batch bsize last_id arts)" by blast
  note remaining_decreases [OF next_batch_progress [OF this]]
  then show ?case by simp
qed

declare rewrap_batches.simps [simp del]

section \<open>Jobs\<close>

text \<open>The deferred function of \<^verbatim>\<open>processRewrapJob\<close>.\<close>

definition finish_job :: "time \<Rightarrow> rewrap_job \<Rightarrow> rewrap_job" where
  "finish_job now job =
     job\<lparr>rj_completed_at := now,
         rj_status := (if rj_success job = rj_total job then JobCompleted else JobFailed)\<rparr>"

definition process_rewrap_job ::
  "kms_fun \<Rightarrow> kms_fun \<Rightarrow> hkdf_fun \<Rightarrow> rewrap_env \<Rightarrow> tmk_env \<Rightarrow> nat \<Rightarrow> (uuid \<times> uuid) list
     \<Rightarrow> rewrap_job \<Rightarrow> rewrap_world \<Rightarrow> tmk_state \<Rightarrow> rewrap_job \<times> rewrap_world \<times> tmk_state" where
  "process_rewrap_job enc dec hkdf env tenv bsize arts job w st =
     (case get_active_tmk dec tenv (rj_tenant job) st of
        (Inl e, st) \<Rightarrow>
          (finish_job (re_now env)
             (job\<lparr>rj_status := JobFailed,
                  rj_errors := rj_errors job @ [\<lparr>re_error = NoTmk e, re_timestamp = re_now env,
                    re_retryable = True\<rparr>]\<rparr>), w, st)
      | (Inr a, st) \<Rightarrow>
          let (job, w) = rewrap_batches enc dec hkdf env (tmk_rows st) (heap (tmk_mem st) a) bsize arts
                           0 uuid_nil (job, w);
              st = st\<lparr>tmk_mem := zero_bytes a (tmk_mem st)\<rparr>
          in (finish_job (re_now env) job, w, st))"

text \<open>The job is stored and announced before the goroutine runs.\<close>

definition start_rewrap_job ::
  "rewrap_env \<Rightarrow> uuid \<Rightarrow> uuid \<Rightarrow> int \<Rightarrow> int \<Rightarrow> int option \<Rightarrow> rewrap_world \<Rightarrow> rewrap_job option \<times> rewrap_world" where
  "start_rewrap_job env job_id tenant old_version new_version count w =
     (case count of
        None \<Rightarrow> (None, w)
      | Some total_count \<Rightarrow>
          let job = \<lparr>rj_id = job_id, rj_tenant = tenant, rj_old_version = old_version,
                     rj_new_version = new_version, rj_started_at = re_now env, rj_completed_at = 0,
                     rj_status = JobRunning, rj_total = total_count, rj_processed = 0, rj_success = 0,
                     rj_failed = 0, rj_current_batch = 0, rj_errors = [], rj_last_id = uuid_nil\<rparr>;
              w = w\<lparr>rw_jobs := AList.update job_id job (rw_jobs w)\<rparr>;
              ev = \<lparr>ra_job = job_id, ra_tenant = tenant, ra_artifact = uuid_nil,
                    ra_operation = ''rewrap_start'', ra_old_kek = [], ra_new_kek = []\<rparr>
          in (Some job, if re_has_callback env then w\<lparr>rw_events := rw_events w @ [ev]\<rparr> else w))"

datatype job_lookup_error = JobNotFound uuid | JobNotRunning job_status

definition get_job_status :: "uuid \<Rightarrow> rewrap_world \<Rightarrow> job_lookup_error + rewrap_job" where
  "get_job_status job_id w =
     (case map_of (rw_jobs w) job_id of None \<Rightarrow> Inl (JobNotFound job_id) | Some job \<Rightarrow> Inr job)"

definition cancel_job :: "uuid \<Rightarrow> rewrap_world \<Rightarrow> (job_lookup_error + unit) \<times> rewrap_world" where
  "cancel_job job_id w =
     (case map_of (rw_jobs w) job_id of
        None \<Rightarrow> (Inl (JobNotFound job_id), w)
      | Some job \<Rightarrow>
          if rj_status job \<noteq> JobRunning then (Inl (JobNotRunning (rj_status job)), w)
          else (Inr (), w\<lparr>rw_jobs := AList.update job_id (job\<lparr>rj_status := JobCancelled\<rparr>) (rw_jobs w)\<rparr>))"

section \<open>One artifact: correctness\<close>

lemma rewrap_artifact_Inr:
  assumes "rewrap_artifact enc dec hkdf env rows job artifact repository new_tmk w = (Inr (), w')"
  obtains (skipped) meta where "rw_meta w (rj_tenant job, artifact) = Some (Parsed meta)"
      and "am_tmk_version meta \<ge> rj_new_version job" and "w' = w"
  | (rewrapped) meta dek wrapped where "rw_meta w (rj_tenant job, artifact) = Some (Parsed meta)"
      and "am_tmk_version meta < rj_new_version job"
      and "dec (am_kek_key_id meta) (am_wrapped_dek meta) = Inr dek"
      and "enc (new_kek_id repository (rj_new_version job)) dek = Inr wrapped"
      and "rw_meta w' = (rw_meta w)((rj_tenant job, artifact) \<mapsto> Parsed (meta\<lparr>
        am_kek_key_id := new_kek_id repository (rj_new_version job), am_tmk_version := rj_new_version job,
        am_last_rewrapped_at := re_now env, am_wrapped_dek := json_text wrapped\<rparr>))"
proof -
  obtain meta where meta: "rw_meta w (rj_tenant job, artifact) = Some (Parsed meta)"
    using assms by (auto simp: rewrap_artifact_def Let_def split: option.splits meta_file.splits)
  show thesis
  proof (cases "rj_new_version job \<le> am_tmk_version meta")
    case True
    with assms meta show ?thesis by (intro skipped [of meta]) (auto simp: rewrap_artifact_def)
  next
    case False
    with assms meta show ?thesis
      by (auto simp: rewrap_artifact_def Let_def split: if_splits sum.splits temp_write.splits
          intro!: rewrapped [of meta])
  qed
qed

lemma rewrap_artifact_Inl:
  "rewrap_artifact enc dec hkdf env rows job artifact repository new_tmk w = (Inl e, w')
    \<Longrightarrow> rw_meta w' = rw_meta w \<and> rw_events w' = rw_events w \<and> rw_jobs w' = rw_jobs w"
  by (auto simp: rewrap_artifact_def Let_def split: option.splits meta_file.splits if_splits
      sum.splits temp_write.splits)

text \<open>The data key an artifact's metadata gives access to.\<close>

definition dek_of :: "kms_fun \<Rightarrow> rewrap_world \<Rightarrow> uuid \<times> uuid \<Rightarrow> bytes option" where
  "dek_of dec w p =
     (case rw_meta w p of
        Some (Parsed meta) \<Rightarrow>
          (case dec (am_kek_key_id meta) (am_wrapped_dek meta) of Inl _ \<Rightarrow> None | Inr dek \<Rightarrow> Some dek)
      | _ \<Rightarrow> None)"

definition json_safe :: "kms_fun \<Rightarrow> bool" where
  "json_safe enc \<longleftrightarrow> (\<forall>kid p c. enc kid p = Inr c \<longrightarrow> json_text c = c)"

context kms_client begin

lemma rewrap_keeps_dek:
  assumes "json_safe encrypt"
    and "rewrap_artifact encrypt decrypt hkdf env rows job artifact repository new_tmk w = (Inr (), w')"
  shows "dek_of decrypt w' p = dek_of decrypt w p"
  using assms(2)
proof (cases rule: rewrap_artifact_Inr)
  case skipped
  then show ?thesis by simp
next
  case (rewrapped meta dek wrapped)
  have "json_text wrapped = wrapped" using assms(1) rewrapped(4) by (simp add: json_safe_def)
  with rewrapped decrypt_encrypt [OF rewrapped(4)] show ?thesis by (auto simp: dek_of_def)
qed

end


text \<open>
  The rewrite of \<^verbatim>\<open>meta.json\<close> is atomic: whenever re-wrapping an artifact fails, at any step,
  every metadata file is what it was.
\<close>

theorem rewrap_failure_keeps_metadata:
  assumes "rewrap_artifact enc dec hkdf env rows job artifact repository new_tmk w = (Inl e, w')"
  shows "rw_meta w' = rw_meta w"
  using rewrap_artifact_Inl [OF assms] by simp

text \<open>
  Re-wrapping with the mock KMS destroys binary data keys. The wrapped key is stored as a
  JSON string; for a data key that is not valid UTF-8 the re-wrap reports success and the key
  read back from the metadata is a different one.
\<close>

theorem rewrap_corrupts_binary_keys:
  assumes "json_text dek \<noteq> dek" and "am_wrapped_dek meta = dek"
    and "rw_meta w (rj_tenant job, artifact) = Some (Parsed meta)"
    and "rewrap_artifact (mock_encrypt new_mock_kms) (mock_decrypt new_mock_kms) hkdf env rows job
      artifact repository new_tmk w = (Inr (), w')"
    and "am_tmk_version meta < rj_new_version job"
  shows "dek_of (mock_decrypt new_mock_kms) w (rj_tenant job, artifact) = Some dek
    \<and> dek_of (mock_decrypt new_mock_kms) w' (rj_tenant job, artifact) = Some (json_text dek)"
  using assms(4)
proof (cases rule: rewrap_artifact_Inr)
  case (skipped meta')
  with assms(3,5) show ?thesis by simp
next
  case (rewrapped meta' dek' wrapped)
  with assms(2,3) show ?thesis
    by (simp add: dek_of_def mock_decrypt_def mock_encrypt_def new_mock_kms_def mock_xor_zero_key)
qed

section \<open>The loop processes every artifact once\<close>

lemma sorted_map_le_last: "sorted (map f xs) \<Longrightarrow> a \<in> set xs \<Longrightarrow> f a \<le> f (last xs)"
  by (induction xs) auto

lemma sort_key_filter_take:
  fixes xs :: "('a::linorder \<times> 'b) list"
  assumes "sorted (map fst xs)" and "distinct (map fst xs)" and "take n xs \<noteq> []"
  shows "filter (\<lambda>a. fst (last (take n xs)) < fst a) xs = drop n xs"
proof -
  let ?ys = "take n xs" and ?zs = "drop n xs"
  have xs: "xs = ?ys @ ?zs" by simp
  have sw: "sorted_wrt (<) (map fst (?ys @ ?zs))"
    using assms(1,2) by (simp add: strict_sorted_iff)
  have "\<not> fst (last ?ys) < fst a" if "a \<in> set ?ys" for a
  proof -
    have "sorted (map fst ?ys)" using assms(1) by (simp add: sorted_wrt_take flip: take_map)
    then have "fst a \<le> fst (last ?ys)" using that by (rule sorted_map_le_last)
    then show ?thesis by simp
  qed
  moreover have "fst (last ?ys) < fst a" if "a \<in> set ?zs" for a
    using sw that assms(3) unfolding map_append sorted_wrt_append by simp
  ultimately have "filter (\<lambda>a. fst (last ?ys) < fst a) ?ys = []"
      and "filter (\<lambda>a. fst (last ?ys) < fst a) ?zs = ?zs"
    by (simp_all add: filter_empty_conv filter_id_conv)
  then show ?thesis by (metis xs filter_append append_Nil)
qed

text \<open>The progress fields a step does not read: the batch number and the status.\<close>

definition recolour :: "nat \<Rightarrow> job_status \<Rightarrow> rewrap_job \<times> rewrap_world \<Rightarrow> rewrap_job \<times> rewrap_world" where
  "recolour n c s = ((fst s)\<lparr>rj_current_batch := n, rj_status := c\<rparr>, snd s)"

lemma rewrap_artifact_recolour:
  "rewrap_artifact enc dec hkdf env rows (job\<lparr>rj_current_batch := n, rj_status := c\<rparr>) a r k w
     = rewrap_artifact enc dec hkdf env rows job a r k w"
  unfolding rewrap_artifact_def by (simp cong: if_cong option.case_cong meta_file.case_cong sum.case_cong temp_write.case_cong
      add: Let_def)

lemma rewrap_one_recolour:
  "recolour n c (rewrap_one enc dec hkdf env rows k a s) = rewrap_one enc dec hkdf env rows k a (recolour n c s)"
  by (cases s) (auto simp: recolour_def rewrap_one_def Let_def rewrap_artifact_recolour split: prod.split sum.split)

lemma fold_rewrap_recolour:
  "recolour n c (fold (rewrap_one enc dec hkdf env rows k) xs s) = fold (rewrap_one enc dec hkdf env rows k) xs (recolour n c s)"
  by (induction xs arbitrary: s) (simp_all add: rewrap_one_recolour)

lemma recolour_recolour [simp]: "recolour n c (recolour n' c' s) = recolour n c s"
  by (simp add: recolour_def)

lemma recolour_step: "recolour n c ((fst s)\<lparr>rj_current_batch := m\<rparr>, snd s) = recolour n c s"
  by (simp add: recolour_def)

text \<open>
  With every query answered the batches are one pass over the sorted artifacts: no artifact is
  skipped or processed twice at a batch boundary, whatever the batch size.
\<close>

lemma rewrap_batches_one_pass:
  assumes "\<And>n. re_batch_ok env n" and "\<And>a. re_scan_ok env a" and "0 < bsize" and "distinct (map fst arts)"
  shows "recolour m c (rewrap_batches enc dec hkdf env rows k bsize arts batch_num last_id s)
    = fold (rewrap_one enc dec hkdf env rows k) (filter (\<lambda>a. last_id < fst a) (sort_key fst arts)) (recolour m c s)"
  using assms
proof (induction enc dec hkdf env rows k bsize arts batch_num last_id s rule: rewrap_batches.induct)
  case (1 enc dec hkdf env rows k bsize arts batch_num last_id s)
  let ?rest = "\<lambda>i. filter (\<lambda>a. i < fst a) (sort_key fst arts)"
  let ?batch = "take bsize (?rest last_id)"
  let ?s = "((fst s)\<lparr>rj_current_batch := Suc batch_num\<rparr>, snd s)"
  let ?one = "rewrap_one enc dec hkdf env rows k"
  have batch: "filter (\<lambda>a. re_scan_ok env (fst a)) (next_batch bsize last_id arts) = ?batch"
    using "1.prems"(2) by (simp add: next_batch_def)
  show ?case
  proof (cases "?batch = []")
    case True
    then have "?rest last_id = []" using "1.prems"(3) by simp
    with True batch "1.prems"(1) show ?thesis
      by (simp add: rewrap_batches.simps [of _ _ _ _ _ _ _ _ batch_num] Let_def recolour_step)
  next
    case False
    let ?last = "fst (last ?batch)"
    have unfold: "rewrap_batches enc dec hkdf env rows k bsize arts batch_num last_id s
        = rewrap_batches enc dec hkdf env rows k bsize arts (Suc batch_num) ?last (fold ?one ?batch ?s)"
      using False batch "1.prems"(1)
      by (subst rewrap_batches.simps) (simp add: Let_def)
    have "sorted (map fst (?rest last_id))" by (rule sorted_filter) simp
    moreover have "distinct (map fst (?rest last_id))"
      using "1.prems"(4) by (intro distinct_map_filter) (simp add: distinct_map)
    ultimately have "filter (\<lambda>a. ?last < fst a) (?rest last_id) = drop bsize (?rest last_id)"
      using False by (rule sort_key_filter_take)
    moreover have "last_id < ?last" using last_in_set [OF False] by (auto dest!: in_set_takeD)
    then have "filter (\<lambda>a. ?last < fst a) (?rest last_id) = ?rest ?last"
      by (simp add: conj_commute) (rule filter_cong, auto intro: less_trans)
    ultimately have rest: "?rest ?last = drop bsize (?rest last_id)" by simp
    have "recolour m c (rewrap_batches enc dec hkdf env rows k bsize arts (Suc batch_num) ?last (fold ?one ?batch ?s))
        = fold ?one (?rest ?last) (recolour m c (fold ?one ?batch ?s))"
      using "1.IH" [OF refl refl refl] batch False "1.prems" by simp
    also have "\<dots> = fold ?one (drop bsize (?rest last_id)) (fold ?one ?batch (recolour m c s))"
      by (simp only: rest fold_rewrap_recolour recolour_step)
    also have "\<dots> = fold ?one (?rest last_id) (recolour m c s)"
      by (metis append_take_drop_id fold_append comp_apply)
    finally show ?thesis using unfold by simp
  qed
qed

lemma rewrap_one_counts:
  "rj_processed (fst (rewrap_one enc dec hkdf env rows k a s)) = rj_processed (fst s) + 1
   \<and> rj_success (fst (rewrap_one enc dec hkdf env rows k a s)) + rj_failed (fst (rewrap_one enc dec hkdf env rows k a s))
     = rj_success (fst s) + rj_failed (fst s) + 1"
  by (cases s) (auto simp: rewrap_one_def Let_def split: prod.split sum.split)

lemma fold_rewrap_counts:
  "rj_processed (fst (fold (rewrap_one enc dec hkdf env rows k) xs s)) = rj_processed (fst s) + int (length xs)
   \<and> rj_success (fst (fold (rewrap_one enc dec hkdf env rows k) xs s)) + rj_failed (fst (fold (rewrap_one enc dec hkdf env rows k) xs s))
     = rj_success (fst s) + rj_failed (fst s) + int (length xs)"
proof (induction xs arbitrary: s)
  case Nil
  then show ?case by simp
next
  case (Cons x xs)
  show ?case
    using Cons.IH [of "rewrap_one enc dec hkdf env rows k x s"] rewrap_one_counts [of enc dec hkdf env rows k x s]
    by simp
qed

lemma rewrap_job_one_pass:
  assumes "\<And>n. re_batch_ok env n" and "\<And>a. re_scan_ok env a" and "0 < bsize"
    and "distinct (map fst arts)" and "\<And>a. a \<in> set arts \<Longrightarrow> uuid_nil < fst a"
    and "get_active_tmk dec tenv (rj_tenant job) st = (Inr b, st1)"
    and "process_rewrap_job enc dec hkdf env tenv bsize arts job w st = (job', w', st')"
  shows "w' = snd (fold (rewrap_one enc dec hkdf env (tmk_rows st1) (heap (tmk_mem st1) b)) (sort_key fst arts) (job, w))"
    and "rj_processed job' = rj_processed job + int (length arts)"
    and "rj_success job' + rj_failed job' = rj_success job + rj_failed job + int (length arts)"
    and "rj_status job' = (if rj_success job' = rj_total job' then JobCompleted else JobFailed)"
    and "\<forall>x \<in> set (heap (tmk_mem st') b). x = 0"
proof -
  let ?one = "rewrap_one enc dec hkdf env (tmk_rows st1) (heap (tmk_mem st1) b)"
  let ?r = "rewrap_batches enc dec hkdf env (tmk_rows st1) (heap (tmk_mem st1) b) bsize arts 0 uuid_nil (job, w)"
  let ?f = "fold ?one (sort_key fst arts) (recolour 0 JobRunning (job, w))"
  have all: "filter (\<lambda>a. uuid_nil < fst a) (sort_key fst arts) = sort_key fst arts"
    using assms(5) by (simp add: filter_id_conv)
  have pass: "recolour 0 JobRunning ?r = ?f"
    using rewrap_batches_one_pass [OF assms(1-4), of 0 JobRunning] by (simp only: all)
  have job': "job' = finish_job (re_now env) (fst ?r)" and w': "w' = snd ?r"
    and st': "st' = st1\<lparr>tmk_mem := zero_bytes b (tmk_mem st1)\<rparr>"
    using assms(6,7) by (auto simp: process_rewrap_job_def split: prod.splits)
  have "w' = snd ?f" by (simp add: w' flip: pass) (simp add: recolour_def)
  also have "\<dots> = snd (recolour 0 JobRunning (fold ?one (sort_key fst arts) (job, w)))"
    by (simp only: fold_rewrap_recolour)
  finally show "w' = snd (fold ?one (sort_key fst arts) (job, w))" by (simp add: recolour_def)
  have counts: "rj_processed (fst ?r) = rj_processed (fst ?f)" "rj_success (fst ?r) = rj_success (fst ?f)"
    "rj_failed (fst ?r) = rj_failed (fst ?f)"
    by (simp_all flip: pass) (simp_all add: recolour_def)
  show "rj_processed job' = rj_processed job + int (length arts)"
    and "rj_success job' + rj_failed job' = rj_success job + rj_failed job + int (length arts)"
    using fold_rewrap_counts [of enc dec hkdf env "tmk_rows st1" "heap (tmk_mem st1) b" "sort_key fst arts"
        "recolour 0 JobRunning (job, w)"]
    by (simp_all add: job' finish_job_def counts recolour_def)
  show "rj_status job' = (if rj_success job' = rj_total job' then JobCompleted else JobFailed)"
    by (simp add: job' finish_job_def)
  show "\<forall>x \<in> set (heap (tmk_mem st') b). x = 0" by (simp add: st' mem_simps)
qed

text \<open>
  A re-wrap job visits every encrypted artifact exactly once. When the queries succeed, the
  files after the job are those of one pass over the artifacts in identifier order, whatever the
  batch size; the counters add up to the number of artifacts, the job is completed exactly when
  the successes equal the total counted at the start, and the master key's buffer is zeroed.
\<close>

theorem rewrap_job_visits_each_artifact_once:
  assumes "\<forall>n. re_batch_ok env n" and "\<forall>a. re_scan_ok env a" and "0 < bsize"
    and "distinct (map fst arts)" and "\<forall>a \<in> set arts. uuid_nil < fst a"
    and "get_active_tmk dec tenv (rj_tenant job) st = (Inr b, st1)"
    and "process_rewrap_job enc dec hkdf env tenv bsize arts job w st = (job', w', st')"
  shows "w' = snd (fold (rewrap_one enc dec hkdf env (tmk_rows st1) (heap (tmk_mem st1) b)) (sort_key fst arts) (job, w))
    \<and> rj_processed job' = rj_processed job + int (length arts)
    \<and> rj_success job' + rj_failed job' = rj_success job + rj_failed job + int (length arts)
    \<and> rj_status job' = (if rj_success job' = rj_total job' then JobCompleted else JobFailed)
    \<and> (\<forall>x \<in> set (heap (tmk_mem st') b). x = 0)"
  by (intro conjI rewrap_job_one_pass [OF _ _ assms(3,4) _ assms(6,7)]) (use assms(1,2,5) in blast)+

section \<open>Cancellation\<close>

lemma rewrap_batches_recolour:
  "recolour 0 c (rewrap_batches enc dec hkdf env rows k bsize arts n last_id s)
     = recolour 0 c (rewrap_batches enc dec hkdf env rows k bsize arts n last_id (recolour m c' s))"
proof (induction enc dec hkdf env rows k bsize arts n last_id s arbitrary: m c' rule: rewrap_batches.induct)
  case (1 enc dec hkdf env rows k bsize arts n last_id s)
  let ?batch = "filter (\<lambda>a. re_scan_ok env (fst a)) (next_batch bsize last_id arts)"
  let ?one = "rewrap_one enc dec hkdf env rows k"
  have re: "((fst (recolour m c' s))\<lparr>rj_current_batch := Suc n\<rparr>, snd (recolour m c' s))
      = recolour (Suc n) c' ((fst s)\<lparr>rj_current_batch := Suc n\<rparr>, snd s)"
    by (simp add: recolour_def)
  show ?case
  proof (cases "re_batch_ok env (Suc n) \<and> ?batch \<noteq> []")
    case True
    then show ?thesis
      using "1.IH" [OF refl refl refl _ refl, of "Suc n" c']
      by (subst (1 2) rewrap_batches.simps)
        (simp add: Let_def re fold_rewrap_recolour [symmetric] del: recolour_recolour)
  next
    case False
    then show ?thesis by (subst (1 2) rewrap_batches.simps) (auto simp: Let_def recolour_def)
  qed
qed

text \<open>
  Cancelling a running job has no effect on it. The loop never reads the status and the
  deferred function overwrites it: a job whose status is set to cancelled writes the same
  files, and ends, as completed or failed, exactly like a job that was not cancelled.
\<close>

theorem cancel_has_no_effect:
  assumes "process_rewrap_job enc dec hkdf env tenv bsize arts job w st = (job1, w1, st1)"
    and "process_rewrap_job enc dec hkdf env tenv bsize arts (job\<lparr>rj_status := JobCancelled\<rparr>) w st = (job2, w2, st2)"
  shows "w2 = w1 \<and> st2 = st1 \<and> rj_status job2 = rj_status job1 \<and> rj_status job2 \<in> {JobCompleted, JobFailed}
    \<and> rj_success job2 = rj_success job1 \<and> rj_failed job2 = rj_failed job1"
proof (cases "get_active_tmk dec tenv (rj_tenant job) st")
  case (Pair ans st')
  show ?thesis
  proof (cases ans)
    case (Inl e)
    with Pair assms show ?thesis by (auto simp: process_rewrap_job_def finish_job_def split: if_splits)
  next
    case (Inr a)
    let ?r = "\<lambda>j. rewrap_batches enc dec hkdf env (tmk_rows st') (heap (tmk_mem st') a) bsize arts 0 uuid_nil (j, w)"
    have j2: "(job\<lparr>rj_status := JobCancelled\<rparr>, w) = recolour (rj_current_batch job) JobCancelled (job, w)"
      by (simp add: recolour_def)
    have eq: "recolour 0 JobRunning (?r job) = recolour 0 JobRunning (?r (job\<lparr>rj_status := JobCancelled\<rparr>))"
      unfolding j2 by (rule rewrap_batches_recolour)
    have "snd (?r job) = snd (?r (job\<lparr>rj_status := JobCancelled\<rparr>))"
      using arg_cong [OF eq, of snd] by (simp add: recolour_def)
    moreover have "f (fst (?r job)) = f (fst (?r (job\<lparr>rj_status := JobCancelled\<rparr>)))"
      if "\<And>j. f (j\<lparr>rj_current_batch := 0, rj_status := JobRunning\<rparr>) = f j" for f :: "rewrap_job \<Rightarrow> int"
      using arg_cong [OF eq, of "\<lambda>s. f (fst s)"] by (simp add: recolour_def that)
    from this [of rj_success] this [of rj_failed] this [of rj_total]
    have "rj_success (fst (?r job)) = rj_success (fst (?r (job\<lparr>rj_status := JobCancelled\<rparr>)))"
      "rj_failed (fst (?r job)) = rj_failed (fst (?r (job\<lparr>rj_status := JobCancelled\<rparr>)))"
      "rj_total (fst (?r job)) = rj_total (fst (?r (job\<lparr>rj_status := JobCancelled\<rparr>)))"
      by simp_all
    ultimately show ?thesis using Pair Inr assms
      by (auto simp: process_rewrap_job_def finish_job_def split: prod.splits if_splits)
  qed
qed

section \<open>Examples\<close>

text \<open>A KMS that wraps text only, and one artifact of one tenant under it.\<close>

definition text_kms :: kms_fun where
  "text_kms kid p = (if list_all (\<lambda>b. b < 0x80) p then Inr p else Inl (KmsRefused ''not text''))"

lemma text_kms_lawful: "kms_client text_kms (\<lambda>kid c. Inr c)"
  by unfold_locales (auto simp: text_kms_def split: if_splits)

lemma text_kms_json: "json_safe text_kms"
  by (auto simp: json_safe_def text_kms_def list_all_iff split: if_splits intro: json_text_ascii)

definition ex_meta :: "bytes \<Rightarrow> artifact_metadata" where
  "ex_meta dek = \<lparr>am_tenant_id = ''t1'', am_artifact_id = ''a1'', am_repository_id = ''r1'',
     am_wrapped_dek = dek, am_kek_key_id = ''kek-r1-v1'', am_tmk_version = 1,
     am_algorithm = ''AES-256-GCM'', am_nonce = ''n'', am_last_rewrapped_at = 0\<rparr>"

definition ex_world :: "bytes \<Rightarrow> rewrap_world" where
  "ex_world dek = \<lparr>rw_meta = [(''t1'', ''a1'') \<mapsto> Parsed (ex_meta dek)], rw_temp = Map.empty,
     rw_events = [], rw_jobs = []\<rparr>"

definition ex_env :: rewrap_env where
  "ex_env = \<lparr>re_now = 5, re_has_callback = False, re_query_old_ok = True, re_temp_write = (\<lambda>_. WriteOk),
     re_rename_ok = (\<lambda>_. True), re_batch_ok = (\<lambda>_. True), re_scan_ok = (\<lambda>_. True)\<rparr>"

definition ex_job :: rewrap_job where
  "ex_job = the (fst (start_rewrap_job ex_env ''j1'' ''t1'' 1 2 (Some 1) (ex_world [])))"

definition ex_row :: tmk_row where
  "ex_row = \<lparr>row_id = ''k1'', row_tenant = ''t1'', row_key = [1], row_kms = ''kek'', row_version = 1,
     row_active = True, row_created_at = 0, row_rotated_at = None, row_created_by = None, row_access_count = 0\<rparr>"

lemmas ex_defs = ex_meta_def ex_world_def ex_env_def ex_job_def ex_row_def start_rewrap_job_def
  rewrap_artifact_def derive_old_kek_def derive_kek_def

definition ex_rewrapped :: "kms_fun \<Rightarrow> kms_fun \<Rightarrow> bytes \<Rightarrow> rewrap_world" where
  "ex_rewrapped enc dec dek = snd (rewrap_artifact enc dec (\<lambda>_ _ _. Some [3]) ex_env [ex_row] ex_job ''a1'' ''r1'' [9] (ex_world dek))"

lemma ex_rewrap_text:
  "rewrap_artifact text_kms (\<lambda>kid c. Inr c) (\<lambda>_ _ _. Some [3]) ex_env [ex_row] ex_job ''a1'' ''r1'' [9] (ex_world [65, 66])
     = (Inr (), ex_rewrapped text_kms (\<lambda>kid c. Inr c) [65, 66])"
  by (simp add: ex_rewrapped_def ex_defs text_kms_def Let_def)

lemma ex_rewrap_binary:
  "rewrap_artifact (mock_encrypt new_mock_kms) (mock_decrypt new_mock_kms) (\<lambda>_ _ _. Some [3]) ex_env [ex_row] ex_job
     ''a1'' ''r1'' [9] (ex_world [0xFF])
     = (Inr (), ex_rewrapped (mock_encrypt new_mock_kms) (mock_decrypt new_mock_kms) [0xFF])"
  by (simp add: ex_rewrapped_def ex_defs mock_encrypt_def mock_decrypt_def Let_def)


theorem rewrap_failure_keeps_metadata_witness:
  "rw_meta (snd (rewrap_artifact text_kms (\<lambda>kid c. Inr c) (\<lambda>_ _ _. Some [3]) (ex_env\<lparr>re_rename_ok := \<lambda>_. False\<rparr>)
     [ex_row] ex_job ''a1'' ''r1'' [9] (ex_world [65]))) = rw_meta (ex_world [65])"
proof -
  obtain w' where "rewrap_artifact text_kms (\<lambda>kid c. Inr c) (\<lambda>_ _ _. Some [3]) (ex_env\<lparr>re_rename_ok := \<lambda>_. False\<rparr>)
      [ex_row] ex_job ''a1'' ''r1'' [9] (ex_world [65]) = (Inl RenameFailed, w')"
    by (simp add: ex_defs text_kms_def Let_def)
  then show ?thesis using rewrap_failure_keeps_metadata by fastforce
qed

theorem rewrap_corrupts_binary_keys_witness:
  "dek_of (mock_decrypt new_mock_kms) (ex_world [0xFF]) (''t1'', ''a1'') = Some [0xFF]
   \<and> dek_of (mock_decrypt new_mock_kms)
       (ex_rewrapped (mock_encrypt new_mock_kms) (mock_decrypt new_mock_kms) [0xFF]) (''t1'', ''a1'')
     = Some [0xEF, 0xBF, 0xBD]"
proof -
  have t: "rj_tenant ex_job = ''t1''" by (simp add: ex_job_def start_rewrap_job_def Let_def)
  have j: "json_text [0xFF] = [0xEF, 0xBF, 0xBD]" by (simp add: Let_def)
  have v: "am_tmk_version (ex_meta [0xFF]) < rj_new_version ex_job"
    by (simp add: ex_meta_def ex_job_def start_rewrap_job_def Let_def)
  have "json_text [0xFF] \<noteq> ([0xFF] :: bytes)" by (simp add: j)
  then show ?thesis
    using rewrap_corrupts_binary_keys [OF _ _ _ ex_rewrap_binary v, of "[0xFF]"] v
    by (simp add: t j ex_world_def ex_meta_def)
qed

definition ex_job_run :: "rewrap_job \<Rightarrow> rewrap_job \<times> rewrap_world \<times> tmk_state" where
  "ex_job_run job = process_rewrap_job text_kms (\<lambda>kid c. Inr c) (\<lambda>_ _ _. Some [3]) ex_env (good_env ''x'' []) 1
     [(''b1'', ''r1''), (''a1'', ''r1'')] job (ex_world [65]) (new_tmk_service [ex_row])"

theorem rewrap_job_visits_each_artifact_once_witness:
  "rj_processed (fst (ex_job_run ex_job)) = 2
   \<and> rj_success (fst (ex_job_run ex_job)) + rj_failed (fst (ex_job_run ex_job)) = 2"
proof -
  obtain job' w' st' where run: "ex_job_run ex_job = (job', w', st')" by (metis prod_cases3)
  obtain b st1 where get: "get_active_tmk (\<lambda>kid c. Inr c) (good_env ''x'' []) (rj_tenant ex_job) (new_tmk_service [ex_row]) = (Inr b, st1)"
    by (simp add: get_active_tmk_def good_env_def ex_job_def start_rewrap_job_def Let_def active_row_def ex_row_def
        new_tmk_service_def kc_get_def new_key_cache_def alloc_def kc_set_def)
  have less: "\<forall>a \<in> set [(''b1'', ''r1''), (''a1'', ''r1'')]. uuid_nil < fst a"
    by (simp add: uuid_nil_def less_char_def)
  have zero: "rj_processed ex_job = 0" "rj_success ex_job = 0" "rj_failed ex_job = 0"
    by (simp_all add: ex_job_def start_rewrap_job_def Let_def)
  from rewrap_job_visits_each_artifact_once [OF _ _ _ _ less get run [unfolded ex_job_run_def]]
  show ?thesis by (simp add: run zero ex_env_def)
qed

theorem cancel_has_no_effect_witness:
  "fst (snd (ex_job_run (ex_job\<lparr>rj_status := JobCancelled\<rparr>))) = fst (snd (ex_job_run ex_job))
   \<and> rj_status (fst (ex_job_run (ex_job\<lparr>rj_status := JobCancelled\<rparr>))) \<noteq> JobCancelled"
proof -
  obtain job1 w1 st1 where r1: "ex_job_run ex_job = (job1, w1, st1)" by (metis prod_cases3)
  obtain job2 w2 st2 where r2: "ex_job_run (ex_job\<lparr>rj_status := JobCancelled\<rparr>) = (job2, w2, st2)" by (metis prod_cases3)
  from cancel_has_no_effect [OF r1 [unfolded ex_job_run_def] r2 [unfolded ex_job_run_def]]
  show ?thesis by (auto simp: r1 r2)
qed

end
