(* ===== verification/Erasure.thy ===== *)
theory Erasure
  imports Prelude
begin

text \<open>
  Erasure coding of artifacts (internal/storage/erasure_coding.go). The Reed-Solomon encoder is
  a third-party package: the three operations the code calls are a record of functions, and
  \<open>rs_laws\<close> states what its documentation promises.
\<close>

section \<open>The encoder\<close>

record reed_solomon =
  rs_encode :: "bytes list \<Rightarrow> bytes list option"
  rs_reconstruct :: "bytes option list \<Rightarrow> bytes option list option"
  rs_verify :: "bytes option list \<Rightarrow> bool option"

text \<open>
  Shards of one positive length are encoded: the data shards stay and the parity shards are
  filled. Any \<open>k\<close> shards of an encoding give back all of them, and an encoding verifies.
  Empty shards are refused.
\<close>

definition survives :: "bytes option list \<Rightarrow> bytes list \<Rightarrow> nat \<Rightarrow> bool" where
  "survives shards full k \<longleftrightarrow>
     list_all2 (\<lambda>got s. got = None \<or> got = Some s) shards full
     \<and> k \<le> length (filter (\<lambda>got. got \<noteq> None) shards)"

definition rs_laws :: "nat \<Rightarrow> nat \<Rightarrow> reed_solomon \<Rightarrow> bool" where
  "rs_laws k m r \<longleftrightarrow>
     (\<forall>ds sz. length ds = k \<and> 0 < sz \<and> (\<forall>d \<in> set ds. length d = sz) \<longrightarrow>
        (\<exists>ps. length ps = m \<and> rs_encode r (ds @ replicate m (replicate sz 0)) = Some (ds @ ps)
          \<and> rs_verify r (map Some (ds @ ps)) = Some True
          \<and> (\<forall>shards. survives shards (ds @ ps) k \<longrightarrow> rs_reconstruct r shards = Some (map Some (ds @ ps)))))
     \<and> rs_encode r (replicate (k + m) []) = None"

section \<open>The coder\<close>

record erasure_coder =
  ec_data :: nat
  ec_parity :: nat
  ec_encoder :: reed_solomon

datatype erasure_error =
    NewEncoderFailed
  | EncodeFailed
  | WrongShardCount nat nat
  | ReconstructFailed
  | VerifyError
  | VerificationFailed
  | SlicePanic

definition new_erasure_coder ::
  "(int \<Rightarrow> int \<Rightarrow> reed_solomon option) \<Rightarrow> int \<Rightarrow> int \<Rightarrow> erasure_error + erasure_coder" where
  "new_erasure_coder rs_new data_shards parity_shards =
     (case rs_new data_shards parity_shards of
        None \<Rightarrow> Inl NewEncoderFailed
      | Some encoder \<Rightarrow>
          Inr \<lparr>ec_data = nat data_shards, ec_parity = nat parity_shards, ec_encoder = encoder\<rparr>)"

definition shard_size :: "nat \<Rightarrow> nat \<Rightarrow> nat" where
  "shard_size k len = (len + k - 1) div k"

definition data_shard :: "nat \<Rightarrow> bytes \<Rightarrow> nat \<Rightarrow> bytes" where
  "data_shard sz data i =
     (let start = i * sz; stop = start + sz
      in if start \<ge> length data then replicate sz 0
         else if stop > length data then drop start data @ replicate (sz - length (drop start data)) 0
         else take sz (drop start data))"

definition erasure_encode :: "erasure_coder \<Rightarrow> bytes \<Rightarrow> erasure_error + bytes list" where
  "erasure_encode ec data =
     (let sz = shard_size (ec_data ec) (length data);
          shards = map (data_shard sz data) [0..<ec_data ec] @ replicate (ec_parity ec) (replicate sz 0)
      in case rs_encode (ec_encoder ec) shards of
           None \<Rightarrow> Inl EncodeFailed
         | Some shards \<Rightarrow> Inr shards)"

definition erasure_decode :: "erasure_coder \<Rightarrow> bytes option list \<Rightarrow> int \<Rightarrow> erasure_error + bytes" where
  "erasure_decode ec shards original_size =
     (if length shards \<noteq> ec_data ec + ec_parity ec
      then Inl (WrongShardCount (ec_data ec + ec_parity ec) (length shards))
      else case rs_reconstruct (ec_encoder ec) shards of
        None \<Rightarrow> Inl ReconstructFailed
      | Some shards \<Rightarrow>
          (case rs_verify (ec_encoder ec) shards of
             None \<Rightarrow> Inl VerifyError
           | Some False \<Rightarrow> Inl VerificationFailed
           | Some True \<Rightarrow>
               let buf = concat (map (\<lambda>s. case s of None \<Rightarrow> [] | Some b \<Rightarrow> b) (take (ec_data ec) shards))
               in if int (length buf) > original_size
                  then (if original_size < 0 then Inl SlicePanic else Inr (take (nat original_size) buf))
                  else Inr buf))"

section \<open>Splitting and joining\<close>

lemma data_shard_slice:
  "data_shard sz data i = take sz (drop (i * sz) (data @ replicate ((i + 1) * sz) 0))"
proof -
  have "length data \<le> i * sz \<Longrightarrow> sz \<le> length data + (sz + i * sz) - i * sz" by simp
  then show ?thesis by (auto simp: data_shard_def Let_def min_def not_le)
qed

lemma length_data_shard [simp]: "length (data_shard sz data i) = sz"
  by (simp add: data_shard_slice)

lemma data_shard_padded:
  assumes "i < n" and "n * sz \<le> pad"
  shows "data_shard sz data i = take sz (drop (i * sz) (data @ replicate pad 0))"
proof -
  have "Suc i * sz \<le> n * sz" using assms(1) by (intro mult_le_mono1) simp
  then have "Suc i * sz \<le> pad" using assms(2) by simp
  then show ?thesis by (auto simp: data_shard_slice min_def)
qed

lemma concat_slices: "concat (map (\<lambda>i. take sz (drop (i * sz) xs)) [0..<n]) = take (n * sz) xs"
  by (induction n) (simp_all add: take_add add.commute [of sz])

lemma concat_data_shards:
  "concat (map (data_shard sz data) [0..<n]) = take (n * sz) (data @ replicate (n * sz) 0)"
proof -
  have "map (data_shard sz data) [0..<n] = map (\<lambda>i. take sz (drop (i * sz) (data @ replicate (n * sz) 0))) [0..<n]"
    using data_shard_padded [of _ n sz "n * sz" data] by simp
  then show ?thesis by (simp only: concat_slices)
qed

lemma shard_size_covers: "0 < k \<Longrightarrow> len \<le> k * shard_size k len"
proof -
  assume k: "0 < k"
  have "len + k - 1 < k * ((len + k - 1) div k) + k"
    using k dividend_less_times_div [of k "len + k - 1"] by simp
  then show ?thesis unfolding shard_size_def using k by linarith
qed

lemma shard_size_pos: "0 < k \<Longrightarrow> 0 < len \<Longrightarrow> 0 < shard_size k len"
  using shard_size_covers [of k len] by (cases "shard_size k len") auto

lemma joined_shards:
  "0 < k \<Longrightarrow> take (length data) (concat (map (data_shard (shard_size k (length data)) data) [0..<k])) = data"
  using shard_size_covers [of k "length data"] by (simp add: concat_data_shards)

section \<open>Round trip\<close>

lemma erasure_encode_law:
  assumes "rs_laws (ec_data ec) (ec_parity ec) (ec_encoder ec)" and "0 < ec_data ec" and "data \<noteq> []"
  obtains ps where "erasure_encode ec data
      = Inr (map (data_shard (shard_size (ec_data ec) (length data)) data) [0..<ec_data ec] @ ps)"
    and "length ps = ec_parity ec"
    and "\<And>shards. survives shards (map (data_shard (shard_size (ec_data ec) (length data)) data) [0..<ec_data ec] @ ps)
        (ec_data ec) \<Longrightarrow> erasure_decode ec shards (int (length data)) = Inr data"
proof -
  let ?k = "ec_data ec"
  let ?sz = "shard_size ?k (length data)"
  let ?ds = "map (data_shard ?sz data) [0..<?k]"
  have "0 < ?sz" using assms(2,3) by (simp add: shard_size_pos)
  then obtain ps where ps: "length ps = ec_parity ec"
    "rs_encode (ec_encoder ec) (?ds @ replicate (ec_parity ec) (replicate ?sz 0)) = Some (?ds @ ps)"
    "rs_verify (ec_encoder ec) (map Some (?ds @ ps)) = Some True"
    and rec: "\<And>shards. survives shards (?ds @ ps) ?k \<Longrightarrow> rs_reconstruct (ec_encoder ec) shards = Some (map Some (?ds @ ps))"
    using assms(1) unfolding rs_laws_def by (elim conjE allE [of _ ?ds] allE [of _ ?sz]) auto
  show thesis
  proof
    show "erasure_encode ec data = Inr (?ds @ ps)" using ps by (simp add: erasure_encode_def Let_def)
    show "length ps = ec_parity ec" by (rule ps)
    fix shards assume s: "survives shards (?ds @ ps) ?k"
    then have "length shards = ?k + ec_parity ec"
      using ps(1) by (auto simp: survives_def dest!: list_all2_lengthD)
    moreover have "concat (map (\<lambda>s. case s of None \<Rightarrow> [] | Some b \<Rightarrow> b) (take ?k (map Some (?ds @ ps)))) = concat ?ds"
      by (simp add: comp_def)
    moreover have "length data \<le> length (concat ?ds)" and "take (length data) (concat ?ds) = data"
      using joined_shards [OF assms(2), of data] shard_size_covers [OF assms(2), of "length data"]
      by (simp_all add: concat_data_shards)
    ultimately show "erasure_decode ec shards (int (length data)) = Inr data"
      using rec [OF s] ps(3) by (auto simp: erasure_decode_def Let_def)
  qed
qed

section \<open>An encoder that satisfies the laws\<close>

text \<open>One data shard and one copy of it as parity.\<close>

definition mirror_rs :: reed_solomon where
  "mirror_rs = \<lparr>
     rs_encode = (\<lambda>shards. case shards of [d, p] \<Rightarrow> if d = [] then None else Some [d, d] | _ \<Rightarrow> None),
     rs_reconstruct = (\<lambda>shards. case shards of
         [Some d, _] \<Rightarrow> Some [Some d, Some d] | [None, Some d] \<Rightarrow> Some [Some d, Some d] | _ \<Rightarrow> None),
     rs_verify = (\<lambda>shards. case shards of [a, b] \<Rightarrow> Some (a = b) | _ \<Rightarrow> None)\<rparr>"

definition mirror_coder :: erasure_coder where
  "mirror_coder = \<lparr>ec_data = 1, ec_parity = 1, ec_encoder = mirror_rs\<rparr>"

lemma mirror_laws: "rs_laws 1 1 mirror_rs"
  unfolding rs_laws_def
proof (intro conjI allI impI)
  fix ds :: "bytes list" and sz
  assume "length ds = 1 \<and> 0 < sz \<and> (\<forall>d\<in>set ds. length d = sz)"
  then obtain d where ds: "ds = [d]" "d \<noteq> []" by (auto simp: length_Suc_conv)
  have "rs_reconstruct mirror_rs shards = Some (map Some [d, d])" if "survives shards [d, d] 1" for shards
    using that
    by (auto simp: survives_def list_all2_Cons2 mirror_rs_def split: option.splits)
  then show "\<exists>ps. length ps = 1 \<and> rs_encode mirror_rs (ds @ replicate 1 (replicate sz 0)) = Some (ds @ ps)
      \<and> rs_verify mirror_rs (map Some (ds @ ps)) = Some True
      \<and> (\<forall>shards. survives shards (ds @ ps) 1 \<longrightarrow> rs_reconstruct mirror_rs shards = Some (map Some (ds @ ps)))"
    using ds by (intro exI [of _ "[d]"]) (auto simp: mirror_rs_def)
next
  show "rs_encode mirror_rs (replicate (1 + 1) []) = None"
    by (simp add: mirror_rs_def numeral_2_eq_2)
qed

text \<open>
  Erasure coding tolerates the loss of parity-many shards. A non-empty artifact is always
  encoded into data-plus-parity shards, and any subset of at least data-many of them, the
  others missing, decodes to the artifact, trimmed to its original size.
\<close>

theorem erasure_round_trip:
  assumes "rs_laws (ec_data ec) (ec_parity ec) (ec_encoder ec)" and "0 < ec_data ec" and "data \<noteq> []"
  shows "\<exists>full. erasure_encode ec data = Inr full \<and> length full = ec_data ec + ec_parity ec
    \<and> (\<forall>shards. survives shards full (ec_data ec) \<longrightarrow> erasure_decode ec shards (int (length data)) = Inr data)"
  using erasure_encode_law [OF assms] by (metis length_append length_map length_upt diff_zero)

theorem erasure_round_trip_witness:
  "erasure_encode mirror_coder [1, 2, 3] = Inr [[1, 2, 3], [1, 2, 3]]
   \<and> erasure_decode mirror_coder [None, Some [1, 2, 3]] 3 = Inr [1, 2, 3]"
proof -
  have laws: "rs_laws (ec_data mirror_coder) (ec_parity mirror_coder) (ec_encoder mirror_coder)"
    "0 < ec_data mirror_coder" using mirror_laws by (simp_all add: mirror_coder_def)
  have enc: "erasure_encode mirror_coder [1, 2, 3] = Inr [[1, 2, 3], [1, 2, 3]]"
    by (simp add: erasure_encode_def mirror_coder_def mirror_rs_def shard_size_def data_shard_def)
  have "survives [None, Some [1, 2, 3]] [[1, 2, 3], [1, 2, 3]] (ec_data mirror_coder)"
    by (simp add: survives_def mirror_coder_def)
  with erasure_round_trip [OF laws, of "[1, 2, 3]"] enc show ?thesis by auto
qed

text \<open>
  An empty artifact has empty shards, which the encoder refuses: it cannot be stored.
\<close>

lemma empty_artifact_refused:
  assumes "rs_laws (ec_data ec) (ec_parity ec) (ec_encoder ec)" and "0 < ec_data ec"
  shows "erasure_encode ec [] = Inl EncodeFailed"
proof -
  have "(ec_data ec - 1) div ec_data ec = 0" using assms(2) by simp
  moreover have "map (data_shard 0 []) [0..<n] @ replicate m [] = replicate (n + m) []" for n m
    by (induction n) (simp_all add: data_shard_def replicate_add replicate_app_Cons_same)
  ultimately show ?thesis
    using assms(1) by (simp add: erasure_encode_def shard_size_def rs_laws_def)
qed

end
