(* ===== verification/ArtifactStore.thy ===== *)
theory ArtifactStore
  imports Prelude
begin

text \<open>
  The contract of a store of artifacts as its clients use it: what was stored is fetched back,
  and operations on one artifact do not change what another one fetches. \<open>agree\<close> says that two
  calls see the same hash function, \<open>apart\<close> that two references do not overlap on the disk. The
  client's loop that fetches a list of parts and removes each is proved once here.
\<close>

locale artifact_store =
  fixes inv :: "'s \<Rightarrow> bool"
    and agree :: "'env \<Rightarrow> 'env \<Rightarrow> bool"
    and apart :: "'r \<Rightarrow> 'r \<Rightarrow> bool"
    and store :: "'env \<Rightarrow> 'r \<Rightarrow> bytes \<Rightarrow> 's \<Rightarrow> bool \<times> 's"
    and fetch :: "'env \<Rightarrow> 'r \<Rightarrow> 's \<Rightarrow> bytes option"
    and remove :: "'env \<Rightarrow> 'r \<Rightarrow> 's \<Rightarrow> 's"
  assumes fetch_stored: "inv s \<Longrightarrow> agree e e' \<Longrightarrow> store e r d s = (True, s') \<Longrightarrow> fetch e' r s' = Some d"
    and store_nonempty: "inv s \<Longrightarrow> store e r d s = (True, s') \<Longrightarrow> d \<noteq> []"
    and store_inv: "inv s \<Longrightarrow> inv (snd (store e r d s))"
    and remove_inv: "inv s \<Longrightarrow> inv (remove e r s)"
    and store_apart: "apart r r' \<Longrightarrow> fetch e' r' (snd (store e r d s)) = fetch e' r' s"
    and remove_apart: "apart r r' \<Longrightarrow> fetch e' r' (remove e r s) = fetch e' r' s"
begin

text \<open>Every part is fetched and then removed; the first one that is missing ends the loop.\<close>

fun gather :: "'env \<Rightarrow> 'r list \<Rightarrow> 's \<Rightarrow> bytes option \<times> 's" where
  "gather e [] s = (Some [], s)"
| "gather e (r # rs) s =
     (case fetch e r s of
        None \<Rightarrow> (None, s)
      | Some d \<Rightarrow>
          (case gather e rs (remove e r s) of
             (None, s) \<Rightarrow> (None, s)
           | (Some ds, s) \<Rightarrow> (Some (d @ ds), s)))"

lemma gather_inv: "inv s \<Longrightarrow> inv (snd (gather e rs s))"
proof (induction rs arbitrary: s)
  case (Cons r rs)
  have "inv (snd (gather e rs (remove e r s)))" by (rule Cons.IH [OF remove_inv [OF Cons.prems]])
  then show ?case using Cons.prems
    by (cases "gather e rs (remove e r s)") (auto split: option.split)
qed simp

lemma gather_all:
  assumes "\<forall>i < length rs. fetch e (rs ! i) s = Some (f i)" and "\<forall>i < length rs. \<forall>j < length rs. i \<noteq> j \<longrightarrow> apart (rs ! i) (rs ! j)"
  shows "fst (gather e rs s) = Some (concat (map f [0..<length rs]))"
  using assms
proof (induction rs arbitrary: s f)
  case (Cons r rs)
  have "fst (gather e rs (remove e r s)) = Some (concat (map (\<lambda>i. f (Suc i)) [0..<length rs]))"
  proof (rule Cons.IH)
    show "\<forall>i < length rs. fetch e (rs ! i) (remove e r s) = Some (f (Suc i))"
      using Cons.prems by (metis Suc_less_eq Zero_not_Suc length_Cons nth_Cons_0 nth_Cons_Suc remove_apart zero_less_Suc)
    show "\<forall>i < length rs. \<forall>j < length rs. i \<noteq> j \<longrightarrow> apart (rs ! i) (rs ! j)"
      using Cons.prems(2) by (metis Suc_less_eq Suc_inject length_Cons nth_Cons_Suc)
  qed
  moreover have "fetch e r s = Some (f 0)" using Cons.prems(1) by auto
  moreover have "map (\<lambda>i. f (Suc i)) [0..<length rs] = map f [Suc 0..<Suc (length rs)]"
    by (simp add: map_Suc_upt [symmetric] comp_def del: upt_Suc)
  ultimately show ?case
    by (simp add: upt_conv_Cons split: prod.split option.split del: upt_Suc) auto
qed simp

end

end
