(* ===== verification/BlobStore.thy ===== *)
theory BlobStore
  imports Erasure GoLib ArtifactStore "HOL-Library.List_Lexorder" "HOL-Library.Char_ord"
begin

text \<open>
  The blob storage (internal/storage/blob_storage.go): artifacts as erasure-coded shard files
  beside a metadata file under \<^verbatim>\<open>base/tenant/repository/artifact\<close>. The disk is two tables,
  the shard files (\<^verbatim>\<open>shard-i.bin\<close>) and the metadata files (\<^verbatim>\<open>metadata.json\<close>, \<open>None\<close> where
  the content does not parse); their names never coincide. Every operation holds the mutex,
  so it is one step of the state; the two nested read locks of \<^verbatim>\<open>VerifyIntegrity\<close> have a model
  of their own at the end.
\<close>

section \<open>State\<close>

record blob_metadata =
  bm_artifact_id :: string
  bm_original_size :: int
  bm_total_shards :: int
  bm_data_shards :: int
  bm_parity_shards :: int
  bm_checksum :: string
  bm_uploaded_at :: time
  bm_shard_checksums :: "(int \<times> string) list"

record blob_storage =
  bs_base :: path
  bs_coder :: erasure_coder
  bs_callback :: bool
  bs_db_and_logger :: bool
  bs_dirs :: "path list"
  bs_shards :: "(path \<times> bytes) list"
  bs_metas :: "(path \<times> blob_metadata option) list"

record artifact_ref =
  ar_tenant :: string
  ar_repo :: string
  ar_artifact :: string

text \<open>
  What the operating system decides: whether directories can be created, what becomes of each
  write (\<open>Torn n\<close> leaves the first \<open>n\<close> bytes), which files cannot be removed, the clock,
  and whether the JSON encoder accepts the metadata. \<open>be_sha\<close> is SHA-256 in hexadecimal.
\<close>

datatype disk_write = Written | NotOpened | Torn nat

record blob_env =
  be_sha :: "bytes \<Rightarrow> string"
  be_mkdir :: "path \<Rightarrow> bool"
  be_write :: "path \<Rightarrow> disk_write"
  be_stuck :: "path \<Rightarrow> bool"
  be_marshal :: bool
  be_now :: time

datatype blob_error =
    BasePathRequired
  | MkdirFailed path
  | CoderFailed erasure_error
  | ReadDataFailed
  | EncodeDataFailed erasure_error
  | WriteShardFailed nat
  | MarshalFailed
  | WriteMetadataFailed
  | ReadMetadataFailed
  | ParseMetadataFailed
  | ShardChecksumMismatch nat string string
  | InsufficientShards int nat
  | DecodeFailed erasure_error
  | DataChecksumMismatch string string
  | RemoveFailed
  | ReadDirFailed
  | NegativeShardCount

datatype replication_trigger = ByCallback | Direct | NotReplicated

section \<open>Paths\<close>

definition artifact_path :: "blob_storage \<Rightarrow> artifact_ref \<Rightarrow> path" where
  "artifact_path bs r = path_join (bs_base bs) [ar_tenant r, ar_repo r, ar_artifact r]"

definition metadata_path :: "blob_storage \<Rightarrow> artifact_ref \<Rightarrow> path" where
  "metadata_path bs r = path_join (bs_base bs) [ar_tenant r, ar_repo r, ar_artifact r, ''metadata.json'']"

definition shard_name :: "nat \<Rightarrow> string" where
  "shard_name i = ''shard-'' @ show_nat i @ ''.bin''"

definition shard_path :: "blob_storage \<Rightarrow> artifact_ref \<Rightarrow> nat \<Rightarrow> path" where
  "shard_path bs r i = path_join (artifact_path bs r) [shard_name i]"

definition below :: "path \<Rightarrow> path \<Rightarrow> bool" where
  "below dir p \<longleftrightarrow> take (length dir) p = dir"

section \<open>Construction\<close>

definition mkdir_all :: "path \<Rightarrow> path list \<Rightarrow> path list" where
  "mkdir_all p made = map (\<lambda>n. take n p) [1..<Suc (length p)] @ made"

fun mkdirs :: "blob_env \<Rightarrow> path list \<Rightarrow> path list \<Rightarrow> blob_error + path list" where
  "mkdirs env [] made = Inr made"
| "mkdirs env (d # ds) made = (if be_mkdir env d then mkdirs env ds (mkdir_all d made) else Inl (MkdirFailed d))"

definition ensure_directories :: "blob_env \<Rightarrow> blob_storage \<Rightarrow> blob_error + blob_storage" where
  "ensure_directories env bs =
     (case mkdirs env [path_join (bs_base bs) [''artifacts''], path_join (bs_base bs) [''metadata''],
                       path_join (bs_base bs) [''temp'']] (bs_dirs bs) of
        Inl e \<Rightarrow> Inl e
      | Inr made \<Rightarrow> Inr (bs\<lparr>bs_dirs := made\<rparr>))"

text \<open>
  \<open>bs_dirs\<close> are the directories made so far. The disk may already hold files: \<open>shards\<close> and \<open>metas\<close> are what an earlier process left.
\<close>

definition new_blob_storage ::
  "blob_env \<Rightarrow> (int \<Rightarrow> int \<Rightarrow> reed_solomon option) \<Rightarrow> string \<Rightarrow> int \<Rightarrow> int
    \<Rightarrow> (path \<times> bytes) list \<Rightarrow> (path \<times> blob_metadata option) list \<Rightarrow> blob_error + blob_storage" where
  "new_blob_storage env rs_new base data_shards parity_shards shards metas =
     (if base = [] then Inl BasePathRequired
      else if \<not> be_mkdir env [base] then Inl (MkdirFailed [base])
      else case new_erasure_coder rs_new data_shards parity_shards of
          Inl e \<Rightarrow> Inl (CoderFailed e)
        | Inr coder \<Rightarrow> ensure_directories env
            \<lparr>bs_base = [base], bs_coder = coder, bs_callback = False, bs_db_and_logger = False,
             bs_dirs = [[base]], bs_shards = shards, bs_metas = metas\<rparr>)"

definition set_replication_callback :: "blob_storage \<Rightarrow> blob_storage" where
  "set_replication_callback bs = bs\<lparr>bs_callback := True\<rparr>"

definition set_database_and_logger :: "blob_storage \<Rightarrow> blob_storage" where
  "set_database_and_logger bs = bs\<lparr>bs_db_and_logger := True\<rparr>"

section \<open>Upload, download, delete\<close>

definition remove_all :: "blob_env \<Rightarrow> path \<Rightarrow> blob_storage \<Rightarrow> blob_storage" where
  "remove_all env dir bs = bs\<lparr>
     bs_shards := filter (\<lambda>(p, _). \<not> below dir p \<or> be_stuck env p) (bs_shards bs),
     bs_metas := filter (\<lambda>(p, _). \<not> below dir p \<or> be_stuck env p) (bs_metas bs),
     bs_dirs := filter (\<lambda>d. \<not> below dir d \<or>
         (\<exists>p \<in> set (keys (bs_shards bs)) \<union> set (keys (bs_metas bs)). below d p \<and> be_stuck env p)) (bs_dirs bs)\<rparr>"

definition write_shard :: "blob_env \<Rightarrow> path \<Rightarrow> bytes \<Rightarrow> blob_storage \<Rightarrow> bool \<times> blob_storage" where
  "write_shard env p content bs =
     (case be_write env p of
        Written \<Rightarrow> (True, bs\<lparr>bs_shards := AList.update p content (bs_shards bs)\<rparr>)
      | NotOpened \<Rightarrow> (False, bs)
      | Torn n \<Rightarrow> (False, bs\<lparr>bs_shards := AList.update p (take n content) (bs_shards bs)\<rparr>))"

definition write_metadata :: "blob_env \<Rightarrow> path \<Rightarrow> blob_metadata \<Rightarrow> blob_storage \<Rightarrow> bool \<times> blob_storage" where
  "write_metadata env p md bs =
     (case be_write env p of
        Written \<Rightarrow> (True, bs\<lparr>bs_metas := AList.update p (Some md) (bs_metas bs)\<rparr>)
      | NotOpened \<Rightarrow> (False, bs)
      | Torn n \<Rightarrow> (False, bs\<lparr>bs_metas := AList.update p None (bs_metas bs)\<rparr>))"

definition cleanup_artifact :: "blob_env \<Rightarrow> artifact_ref \<Rightarrow> blob_storage \<Rightarrow> blob_storage" where
  "cleanup_artifact env r bs = remove_all env (artifact_path bs r) bs"

fun write_shards :: "blob_env \<Rightarrow> artifact_ref \<Rightarrow> nat \<Rightarrow> bytes list \<Rightarrow> blob_storage \<Rightarrow> nat option \<times> blob_storage" where
  "write_shards env r i [] bs = (None, bs)"
| "write_shards env r i (shard # shards) bs =
     (case write_shard env (shard_path bs r i) shard bs of
        (False, bs) \<Rightarrow> (Some i, bs)
      | (True, bs) \<Rightarrow> write_shards env r (Suc i) shards bs)"

definition upload_artifact ::
  "blob_env \<Rightarrow> artifact_ref \<Rightarrow> bytes option \<Rightarrow> blob_storage \<Rightarrow> (blob_error + replication_trigger) \<times> blob_storage" where
  "upload_artifact env r reader bs =
     (case reader of
        None \<Rightarrow> (Inl ReadDataFailed, bs)
      | Some data \<Rightarrow>
     (case erasure_encode (bs_coder bs) data of
        Inl e \<Rightarrow> (Inl (EncodeDataFailed e), bs)
      | Inr shards \<Rightarrow>
     (if \<not> be_mkdir env (artifact_path bs r) then (Inl (MkdirFailed (artifact_path bs r)), bs)
      else case write_shards env r 0 shards (bs\<lparr>bs_dirs := mkdir_all (artifact_path bs r) (bs_dirs bs)\<rparr>) of
        (Some i, bs) \<Rightarrow> (Inl (WriteShardFailed i), cleanup_artifact env r bs)
      | (None, bs) \<Rightarrow>
          let md = \<lparr>bm_artifact_id = ar_artifact r, bm_original_size = int (length data),
                    bm_total_shards = int (length shards),
                    bm_data_shards = int (ec_data (bs_coder bs)), bm_parity_shards = int (ec_parity (bs_coder bs)),
                    bm_checksum = be_sha env data, bm_uploaded_at = be_now env,
                    bm_shard_checksums = map (\<lambda>i. (int i, be_sha env (shards ! i))) [0..<length shards]\<rparr>
          in if \<not> be_marshal env then (Inl MarshalFailed, cleanup_artifact env r bs)
             else case write_metadata env (metadata_path bs r) md bs of
                 (False, bs) \<Rightarrow> (Inl WriteMetadataFailed, cleanup_artifact env r bs)
               | (True, bs) \<Rightarrow>
                   (Inr (if bs_callback bs then ByCallback else if bs_db_and_logger bs then Direct else NotReplicated), bs))))"

fun read_shards ::
  "blob_env \<Rightarrow> artifact_ref \<Rightarrow> blob_metadata \<Rightarrow> blob_storage \<Rightarrow> nat list \<Rightarrow> blob_error + bytes option list" where
  "read_shards env r md bs [] = Inr []"
| "read_shards env r md bs (i # is) =
     (case map_of (bs_shards bs) (shard_path bs r i) of
        None \<Rightarrow> (case read_shards env r md bs is of Inl e \<Rightarrow> Inl e | Inr rest \<Rightarrow> Inr (None # rest))
      | Some content \<Rightarrow>
          (case map_of (bm_shard_checksums md) (int i) of
             Some expected \<Rightarrow>
               if be_sha env content \<noteq> expected then Inl (ShardChecksumMismatch i expected (be_sha env content))
               else (case read_shards env r md bs is of Inl e \<Rightarrow> Inl e | Inr rest \<Rightarrow> Inr (Some content # rest))
           | None \<Rightarrow> (case read_shards env r md bs is of Inl e \<Rightarrow> Inl e | Inr rest \<Rightarrow> Inr (Some content # rest))))"

definition get_metadata :: "artifact_ref \<Rightarrow> blob_storage \<Rightarrow> blob_error + blob_metadata" where
  "get_metadata r bs =
     (case map_of (bs_metas bs) (metadata_path bs r) of
        None \<Rightarrow> Inl ReadMetadataFailed
      | Some None \<Rightarrow> Inl ParseMetadataFailed
      | Some (Some md) \<Rightarrow> Inr md)"

definition download_artifact :: "blob_env \<Rightarrow> artifact_ref \<Rightarrow> blob_storage \<Rightarrow> blob_error + bytes" where
  "download_artifact env r bs =
     (case get_metadata r bs of
        Inl e \<Rightarrow> Inl e
      | Inr md \<Rightarrow>
     (if bm_total_shards md < 0 then Inl NegativeShardCount
      else case read_shards env r md bs [0..<nat (bm_total_shards md)] of
        Inl e \<Rightarrow> Inl e
      | Inr shards \<Rightarrow>
          (let shards_read = length (filter (\<lambda>got. got \<noteq> None) shards)
           in if int shards_read < bm_data_shards md then Inl (InsufficientShards (bm_data_shards md) shards_read)
              else case erasure_decode (bs_coder bs) shards (bm_original_size md) of
                  Inl e \<Rightarrow> Inl (DecodeFailed e)
                | Inr data \<Rightarrow>
                    if be_sha env data \<noteq> bm_checksum md
                    then Inl (DataChecksumMismatch (bm_checksum md) (be_sha env data))
                    else Inr data)))"

definition delete_artifact :: "blob_env \<Rightarrow> artifact_ref \<Rightarrow> blob_storage \<Rightarrow> (blob_error + unit) \<times> blob_storage" where
  "delete_artifact env r bs =
     (let dir = artifact_path bs r;
          stuck = (\<exists>p \<in> set (keys (bs_shards bs)) \<union> set (keys (bs_metas bs)). below dir p \<and> be_stuck env p)
      in (if stuck then Inl RemoveFailed else Inr (), remove_all env dir bs))"

section \<open>Listing, integrity, statistics\<close>

definition list_artifacts :: "blob_storage \<Rightarrow> blob_error + string list" where
  "list_artifacts bs =
     (let dir = path_join (bs_base bs) [''metadata''];
          files = keys (bs_shards bs) @ keys (bs_metas bs);
          entries = sort (map last (filter (\<lambda>p. below dir p \<and> length p = Suc (length dir)) files))
      in if dir \<notin> set (bs_dirs bs) then Inl ReadDirFailed
         else Inr (map (\<lambda>n. take (length n - 5) n) (filter (\<lambda>n. has_suffix n ''.json'') entries)))"

definition shard_corrupt :: "blob_env \<Rightarrow> artifact_ref \<Rightarrow> blob_metadata \<Rightarrow> blob_storage \<Rightarrow> nat \<Rightarrow> bool" where
  "shard_corrupt env r md bs i =
     (case map_of (bs_shards bs) (shard_path bs r i) of
        None \<Rightarrow> True
      | Some content \<Rightarrow>
          (case map_of (bm_shard_checksums md) (int i) of
             None \<Rightarrow> False
           | Some expected \<Rightarrow> be_sha env content \<noteq> expected))"

definition verify_integrity :: "blob_env \<Rightarrow> artifact_ref \<Rightarrow> blob_storage \<Rightarrow> blob_error + bool \<times> nat list" where
  "verify_integrity env r bs =
     (case get_metadata r bs of
        Inl e \<Rightarrow> Inl e
      | Inr md \<Rightarrow>
          (let corrupted = filter (shard_corrupt env r md bs) [0..<nat (bm_total_shards md)]
           in Inr (corrupted = [], corrupted)))"

record storage_stats =
  ss_artifact_count :: int
  ss_total_size :: int
  ss_shard_count :: int

definition get_storage_stats :: "blob_storage \<Rightarrow> storage_stats" where
  "get_storage_stats bs = \<lparr>ss_artifact_count = 0, ss_total_size = 0, ss_shard_count = 0\<rparr>"

section \<open>Lemmas on paths\<close>

lemma plain_shard_name [simp]: "plain_name (shard_name i)"
  using show_nat_no_slash [of i] by (auto simp: plain_name_def shard_name_def)

lemma plain_metadata_json [simp]: "plain_name ''metadata.json''"
  by (simp add: plain_name_def)

lemma shard_name_inj: "shard_name i = shard_name j \<longleftrightarrow> i = j"
  by (simp add: shard_name_def show_nat_inj)

lemma shard_path_eq: "shard_path bs r i = artifact_path bs r @ [shard_name i]"
  using path_join_plain_tail [of "[shard_name i]" "artifact_path bs r" "[]"]
  by (simp add: shard_path_def artifact_path_def path_join_plain)

lemma metadata_path_eq: "metadata_path bs r = artifact_path bs r @ [''metadata.json'']"
  using path_join_plain_tail [of "[''metadata.json'']" "bs_base bs" "[ar_tenant r, ar_repo r, ar_artifact r]"]
  by (simp add: metadata_path_def artifact_path_def)

lemma below_self_append [simp]: "below d (d @ xs)"
  by (simp add: below_def)

definition plain_ref :: "artifact_ref \<Rightarrow> bool" where
  "plain_ref r \<longleftrightarrow> plain_name (ar_tenant r) \<and> plain_name (ar_repo r) \<and> plain_name (ar_artifact r)"

definition root_of :: "blob_storage \<Rightarrow> path" where
  "root_of bs = path_join (bs_base bs) []"

lemma artifact_path_plain:
  "plain_ref r \<Longrightarrow> artifact_path bs r = root_of bs @ [ar_tenant r, ar_repo r, ar_artifact r]"
  using path_join_plain_tail [of "[ar_tenant r, ar_repo r, ar_artifact r]" "bs_base bs" "[]"]
  by (simp add: artifact_path_def root_of_def plain_ref_def)

lemma plain_refs_disjoint:
  assumes "plain_ref r" and "plain_ref r'" and "r \<noteq> r'"
  shows "\<not> below (artifact_path bs r) (artifact_path bs r' @ xs)"
  using assms by (auto simp: below_def artifact_path_plain)

section \<open>What uploads leave behind\<close>

lemma artifact_path_base: "bs_base bs' = bs_base bs \<Longrightarrow> artifact_path bs' r = artifact_path bs r"
  by (simp add: artifact_path_def)

lemma artifact_path_updates [simp]:
  "artifact_path (bs\<lparr>bs_shards := a\<rparr>) r = artifact_path bs r"
  "artifact_path (bs\<lparr>bs_metas := b\<rparr>) r = artifact_path bs r"
  "artifact_path (bs\<lparr>bs_dirs := c\<rparr>) r = artifact_path bs r"
  by (simp_all add: artifact_path_def)

lemma shard_path_updates [simp]:
  "shard_path (bs\<lparr>bs_shards := a\<rparr>) r i = shard_path bs r i"
  "shard_path (bs\<lparr>bs_metas := b\<rparr>) r i = shard_path bs r i"
  "shard_path (bs\<lparr>bs_dirs := c\<rparr>) r i = shard_path bs r i"
  by (simp_all add: shard_path_eq)

lemma shard_path_inj [simp]: "shard_path bs r i = shard_path bs r j \<longleftrightarrow> i = j"
  by (simp add: shard_path_eq shard_name_inj)

lemma write_shard_frame:
  assumes "write_shard env p content bs = (ok, bs')"
  shows "bs_base bs' = bs_base bs \<and> bs_coder bs' = bs_coder bs \<and> bs_metas bs' = bs_metas bs
    \<and> bs_dirs bs' = bs_dirs bs \<and> bs_callback bs' = bs_callback bs \<and> bs_db_and_logger bs' = bs_db_and_logger bs
    \<and> (\<forall>q. q \<noteq> p \<longrightarrow> map_of (bs_shards bs') q = map_of (bs_shards bs) q)
    \<and> (ok \<longrightarrow> map_of (bs_shards bs') p = Some content)"
  using assms by (auto simp: write_shard_def split: disk_write.splits)

lemma write_shards_frame:
  "write_shards env r i shards bs = (res, bs') \<Longrightarrow>
   bs_base bs' = bs_base bs \<and> bs_coder bs' = bs_coder bs \<and> bs_metas bs' = bs_metas bs
    \<and> bs_dirs bs' = bs_dirs bs \<and> bs_callback bs' = bs_callback bs \<and> bs_db_and_logger bs' = bs_db_and_logger bs
    \<and> (\<forall>q. \<not> below (artifact_path bs r) q \<longrightarrow> map_of (bs_shards bs') q = map_of (bs_shards bs) q)
    \<and> (\<forall>j < i. map_of (bs_shards bs') (shard_path bs r j) = map_of (bs_shards bs) (shard_path bs r j))"
proof (induction env r i shards bs rule: write_shards.induct)
  case (1 env r i bs)
  then show ?case by simp
next
  case (2 env r i shard shards bs)
  obtain ok bs1 where w: "write_shard env (shard_path bs r i) shard bs = (ok, bs1)" by fastforce
  note f = write_shard_frame [OF w]
  have path: "shard_path bs1 r j = shard_path bs r j" for j
    using f artifact_path_base [of bs1 bs] by (simp add: shard_path_eq)
  have out: "\<not> below (artifact_path bs r) q \<Longrightarrow> q \<noteq> shard_path bs r i" for q
    by (auto simp: shard_path_eq)
  show ?case
  proof (cases ok)
    case False
    then show ?thesis using 2 w f out by auto
  next
    case True
    then have "write_shards env r (Suc i) shards bs1 = (res, bs')" using 2(2) w by simp
    from 2(1) [OF _ _ this] w True f show ?thesis
      using out path artifact_path_base [of bs1 bs r] by (auto simp: less_Suc_eq)
  qed
qed

lemma write_shards_content:
  "write_shards env r i shards bs = (None, bs') \<Longrightarrow>
   \<forall>j < length shards. map_of (bs_shards bs') (shard_path bs r (i + j)) = Some (shards ! j)"
proof (induction env r i shards bs rule: write_shards.induct)
  case (1 env r i bs)
  then show ?case by simp
next
  case (2 env r i shard shards bs)
  obtain ok bs1 where w: "write_shard env (shard_path bs r i) shard bs = (ok, bs1)" by fastforce
  note f = write_shard_frame [OF w]
  have path: "shard_path bs1 r j = shard_path bs r j" for j
    using f artifact_path_base [of bs1 bs] by (simp add: shard_path_eq)
  from 2(2) w have ok: ok and rest: "write_shards env r (Suc i) shards bs1 = (None, bs')"
    by (cases ok; simp)+
  have "map_of (bs_shards bs') (shard_path bs r i) = Some shard"
    using write_shards_frame [OF rest] f ok path by simp
  moreover have "\<forall>j < length shards. map_of (bs_shards bs') (shard_path bs r (Suc i + j)) = Some (shards ! j)"
    using 2(1) [OF _ _ rest] w ok path by simp
  ultimately show ?case by (auto simp: less_Suc_eq_0_disj)
qed

definition describes :: "blob_env \<Rightarrow> erasure_coder \<Rightarrow> bytes \<Rightarrow> bytes list \<Rightarrow> blob_metadata \<Rightarrow> bool" where
  "describes env ec data shards md \<longleftrightarrow>
     bm_original_size md = int (length data) \<and> bm_total_shards md = int (length shards)
     \<and> bm_data_shards md = int (ec_data ec) \<and> bm_checksum md = be_sha env data
     \<and> (\<forall>i < length shards. map_of (bm_shard_checksums md) (int i) = Some (be_sha env (shards ! i)))"

definition blob_stored :: "blob_env \<Rightarrow> artifact_ref \<Rightarrow> bytes \<Rightarrow> bytes list \<Rightarrow> blob_storage \<Rightarrow> bool" where
  "blob_stored env r data shards bs \<longleftrightarrow>
     (\<exists>md. get_metadata r bs = Inr md \<and> describes env (bs_coder bs) data shards md)
     \<and> (\<forall>i < length shards. map_of (bs_shards bs) (shard_path bs r i) = Some (shards ! i))"

lemma map_of_indexed:
  "i < n \<Longrightarrow> map_of (map (\<lambda>i. (int i, f i)) [0..<n]) (int i) = Some (f i)"
  by (rule map_of_is_SomeI) (auto simp: distinct_map comp_def inj_on_def)

lemma uploaded:
  assumes "upload_artifact env r reader bs = (Inr t, bs')"
  obtains data shards where "reader = Some data" and "erasure_encode (bs_coder bs) data = Inr shards"
    and "blob_stored env r data shards bs'" and "bs_coder bs' = bs_coder bs" and "bs_base bs' = bs_base bs"
proof -
  let ?bs0 = "bs\<lparr>bs_dirs := mkdir_all (artifact_path bs r) (bs_dirs bs)\<rparr>"
  obtain data where data: "reader = Some data" using assms by (cases reader) (simp_all add: upload_artifact_def)
  obtain shards where shards: "erasure_encode (bs_coder bs) data = Inr shards"
    using assms data by (cases "erasure_encode (bs_coder bs) data") (simp_all add: upload_artifact_def)
  obtain res bs1 where ws: "write_shards env r 0 shards ?bs0 = (res, bs1)" by fastforce
  note f = write_shards_frame [OF ws]
  from assms data shards ws have res: "res = None"
    by (cases res) (auto simp: upload_artifact_def split: if_splits)
  define md where "md = \<lparr>bm_artifact_id = ar_artifact r, bm_original_size = int (length data),
                    bm_total_shards = int (length shards),
                    bm_data_shards = int (ec_data (bs_coder bs1)), bm_parity_shards = int (ec_parity (bs_coder bs1)),
                    bm_checksum = be_sha env data, bm_uploaded_at = be_now env,
                    bm_shard_checksums = map (\<lambda>i. (int i, be_sha env (shards ! i))) [0..<length shards]\<rparr>"
  from assms data shards ws res have "write_metadata env (metadata_path bs1 r) md bs1 = (True, bs')"
    by (auto simp: upload_artifact_def md_def Let_def split: if_splits prod.splits bool.splits)
  then have bs': "bs' = bs1\<lparr>bs_metas := AList.update (metadata_path bs1 r) (Some md) (bs_metas bs1)\<rparr>"
    by (auto simp: write_metadata_def split: disk_write.splits)
  have "metadata_path bs' r = metadata_path bs1 r" by (simp add: bs' metadata_path_def)
  then have "get_metadata r bs' = Inr md" by (simp add: get_metadata_def bs')
  moreover have "describes env (bs_coder bs') data shards md"
    by (simp add: describes_def md_def bs' map_of_indexed)
  moreover have "shard_path bs' r i = shard_path ?bs0 r i" for i
    using f artifact_path_base [of bs1 bs] by (simp add: shard_path_eq bs')
  ultimately have "blob_stored env r data shards bs'"
    using write_shards_content [OF ws [unfolded res]] by (auto simp: blob_stored_def bs')
  then show thesis using that data shards f bs' by simp
qed

section \<open>A concrete store\<close>

definition demo_env :: blob_env where
  "demo_env = \<lparr>be_sha = map (\<lambda>b. char_of (unat b)), be_mkdir = (\<lambda>_. True), be_write = (\<lambda>_. Written),
     be_stuck = (\<lambda>_. False), be_marshal = True, be_now = 7\<rparr>"

definition demo_store :: blob_storage where
  "demo_store = \<lparr>bs_base = [''data''], bs_coder = mirror_coder, bs_callback = False, bs_db_and_logger = False,
     bs_dirs = [[''data''], [''data'', ''metadata'']], bs_shards = [], bs_metas = []\<rparr>"

definition demo_ref :: artifact_ref where
  "demo_ref = \<lparr>ar_tenant = ''t'', ar_repo = ''r'', ar_artifact = ''a''\<rparr>"

abbreviation demo_uploaded :: blob_storage where
  "demo_uploaded \<equiv> snd (upload_artifact demo_env demo_ref (Some [1, 2, 3]) demo_store)"

lemma demo_upload: "upload_artifact demo_env demo_ref (Some [1, 2, 3]) demo_store = (Inr NotReplicated, demo_uploaded)"
proof -
  have "fst (upload_artifact demo_env demo_ref (Some [1, 2, 3]) demo_store) = Inr NotReplicated" by code_simp
  then show ?thesis by (metis prod.collapse)
qed

lemma demo_coder: "rs_laws (ec_data (bs_coder demo_store)) (ec_parity (bs_coder demo_store)) (ec_encoder (bs_coder demo_store))"
    "0 < ec_data (bs_coder demo_store)"
  using mirror_laws by (simp_all add: demo_store_def mirror_coder_def)

section \<open>Downloads of stored artifacts\<close>

lemma read_shards_intact:
  assumes "\<forall>i \<in> set is. \<forall>c h. map_of (bs_shards bs) (shard_path bs r i) = Some c
      \<longrightarrow> map_of (bm_shard_checksums md) (int i) = Some h \<longrightarrow> be_sha env c = h"
  shows "read_shards env r md bs is = Inr (map (\<lambda>i. map_of (bs_shards bs) (shard_path bs r i)) is)"
  using assms by (induction "is") (auto split: option.splits)

lemma read_shards_result:
  "read_shards env r md bs is = Inr shards \<Longrightarrow> shards = map (\<lambda>i. map_of (bs_shards bs) (shard_path bs r i)) is"
  by (induction "is" arbitrary: shards) (auto split: option.splits sum.splits if_splits)

lemma download_checks:
  assumes "download_artifact env r bs = Inr data" and "get_metadata r bs = Inr md"
  shows "be_sha env data = bm_checksum md"
  using assms by (auto simp: download_artifact_def Let_def split: if_splits sum.splits)

definition lose_shards :: "(path \<Rightarrow> bool) \<Rightarrow> blob_storage \<Rightarrow> blob_storage" where
  "lose_shards lost bs = bs\<lparr>bs_shards := filter (\<lambda>(p, _). \<not> lost p) (bs_shards bs)\<rparr>"

lemma get_metadata_shards [simp]: "get_metadata r (bs\<lparr>bs_shards := a\<rparr>) = get_metadata r bs"
  by (simp add: get_metadata_def metadata_path_def)

lemma download_of_intact:
  assumes "get_metadata r bs = Inr md" and "describes env (bs_coder bs) data shards md"
    and rs: "rs_laws (ec_data (bs_coder bs)) (ec_parity (bs_coder bs)) (ec_encoder (bs_coder bs))"
    and "0 < ec_data (bs_coder bs)" and "data \<noteq> []"
    and enc: "erasure_encode (bs_coder bs) data = Inr shards"
    and intact: "\<forall>i < length shards. map_of (bs_shards bs) (shard_path bs r i) \<in> {None, Some (shards ! i)}"
    and enough: "ec_data (bs_coder bs) \<le> length (filter (\<lambda>i. map_of (bs_shards bs) (shard_path bs r i) \<noteq> None) [0..<length shards])"
  shows "download_artifact env r bs = Inr data"
proof -
  let ?got = "map (\<lambda>i. map_of (bs_shards bs) (shard_path bs r i)) [0..<length shards]"
  have read: "read_shards env r md bs [0..<length shards] = Inr ?got"
    using intact assms(2) by (intro read_shards_intact) (auto simp: describes_def)
  have count: "ec_data (bs_coder bs) \<le> length (filter (\<lambda>got. got \<noteq> None) ?got)"
    using enough by (simp add: filter_map comp_def)
  have "survives ?got shards (ec_data (bs_coder bs))"
    using count intact by (auto simp: survives_def list_all2_conv_all_nth)
  then have "erasure_decode (bs_coder bs) ?got (int (length data)) = Inr data"
    using erasure_encode_law [OF rs assms(4,5)] enc by (metis sum.inject(2))
  then show ?thesis
    using assms(1,2) read count by (simp add: download_artifact_def describes_def not_less)
qed

lemma download_after_loss:
  assumes "rs_laws (ec_data (bs_coder bs)) (ec_parity (bs_coder bs)) (ec_encoder (bs_coder bs))"
    and "0 < ec_data (bs_coder bs)" and "data \<noteq> []"
    and "upload_artifact env r (Some data) bs = (Inr t, bs')"
    and "ec_data (bs_coder bs) \<le>
      length (filter (\<lambda>i. \<not> lost (shard_path bs' r i)) [0..<ec_data (bs_coder bs) + ec_parity (bs_coder bs)])"
  shows "download_artifact env r (lose_shards lost bs') = Inr data"
proof -
  obtain shards where enc: "erasure_encode (bs_coder bs) data = Inr shards"
    and st: "blob_stored env r data shards bs'" and c: "bs_coder bs' = bs_coder bs"
    using uploaded [OF assms(4)] by (metis option.inject)
  obtain md where md: "get_metadata r bs' = Inr md" "describes env (bs_coder bs') data shards md"
    using st by (auto simp: blob_stored_def)
  have len: "length shards = ec_data (bs_coder bs) + ec_parity (bs_coder bs)"
    using erasure_encode_law [OF assms(1-3)] enc by (metis length_append length_map length_upt minus_nat.diff_0 sum.inject(2))
  have at: "map_of (bs_shards (lose_shards lost bs')) (shard_path (lose_shards lost bs') r i)
      = (if lost (shard_path bs' r i) then None else Some (shards ! i))" if "i < length shards" for i
    using st that by (simp add: lose_shards_def blob_stored_def)
  have same: "filter (\<lambda>i. map_of (bs_shards (lose_shards lost bs')) (shard_path (lose_shards lost bs') r i) \<noteq> None) [0..<length shards]
      = filter (\<lambda>i. \<not> lost (shard_path bs' r i)) [0..<length shards]"
    by (rule filter_cong) (simp_all add: at)
  show ?thesis
  proof (rule download_of_intact [where md = md and shards = shards])
    show "ec_data (bs_coder (lose_shards lost bs'))
       \<le> length (filter (\<lambda>i. map_of (bs_shards (lose_shards lost bs')) (shard_path (lose_shards lost bs') r i) \<noteq> None) [0..<length shards])"
      using assms(5) same by (simp only: c len) (simp add: lose_shards_def c)
  qed (use assms md at enc c in \<open>simp_all add: lose_shards_def\<close>)
qed



text \<open>
  A download never hands out other bytes than were uploaded without the checksum noticing.
  After a successful upload, whatever happens to the shard files, a download fails or returns
  data with the SHA-256 of the uploaded artifact.
\<close>

theorem tampering_needs_a_collision:
  assumes "upload_artifact env r (Some data) bs = (Inr t, bs')"
    and "download_artifact env r (bs'\<lparr>bs_shards := tampered\<rparr>) = Inr data'"
  shows "be_sha env data' = be_sha env data"
proof -
  obtain shards where "blob_stored env r data shards bs'"
    using uploaded [OF assms(1)] by blast
  then obtain md where "get_metadata r bs' = Inr md" "bm_checksum md = be_sha env data"
    unfolding blob_stored_def describes_def by blast
  then show ?thesis
    using download_checks [OF assms(2)] by simp
qed

theorem tampering_needs_a_collision_witness:
  "\<exists>data'. download_artifact demo_env demo_ref (demo_uploaded\<lparr>bs_shards := bs_shards demo_uploaded\<rparr>) = Inr data'
     \<and> be_sha demo_env data' = be_sha demo_env [1, 2, 3]"
proof -
  have "fst (upload_artifact demo_env demo_ref (Some [1, 2, 3]) demo_store) = Inr NotReplicated"
    "download_artifact demo_env demo_ref (demo_uploaded\<lparr>bs_shards := bs_shards demo_uploaded\<rparr>) = Inr [1, 2, 3]"
    by code_simp+
  with tampering_needs_a_collision [OF demo_upload this(2)] show ?thesis by blast
qed

text \<open>
  Rot in one shard defeats the erasure coding. When one shard file of an uploaded artifact
  changes to content with another checksum, every download fails with a checksum mismatch of
  that shard, although the remaining shards (by the previous properties) are enough to rebuild
  the artifact and the same download succeeds once the rotten file is deleted.
\<close>

theorem one_rotten_shard_blocks_download:
  assumes "upload_artifact env r (Some data) bs = (Inr t, bs')"
    and "erasure_encode (bs_coder bs) data = Inr shards" and "i < length shards"
    and "be_sha env rotten \<noteq> be_sha env (shards ! i)"
  shows "download_artifact env r (bs'\<lparr>bs_shards := AList.update (shard_path bs' r i) rotten (bs_shards bs')\<rparr>)
    = Inl (ShardChecksumMismatch i (be_sha env (shards ! i)) (be_sha env rotten))"
proof -
  let ?bs = "bs'\<lparr>bs_shards := AList.update (shard_path bs' r i) rotten (bs_shards bs')\<rparr>"
  have st: "blob_stored env r data shards bs'" using uploaded [OF assms(1)] assms(2) by (metis option.inject sum.inject(2))
  then obtain md where md: "get_metadata r bs' = Inr md" "describes env (bs_coder bs') data shards md"
    by (auto simp: blob_stored_def)
  have read: "read_shards env r md ?bs is = Inl (ShardChecksumMismatch i (be_sha env (shards ! i)) (be_sha env rotten))"
    if "i \<in> set is" "\<forall>j \<in> set is. j < length shards" for "is"
    using that st md(2) assms(4)
    by (induction "is") (auto simp: blob_stored_def describes_def split: option.splits)
  show ?thesis
    using read [of "[0..<length shards]"] md assms(3) by (simp add: download_artifact_def describes_def)
qed

theorem one_rotten_shard_blocks_download_witness:
  "download_artifact demo_env demo_ref
     (demo_uploaded\<lparr>bs_shards := AList.update (shard_path demo_uploaded demo_ref 1) [1, 2, 4] (bs_shards demo_uploaded)\<rparr>)
   = Inl (ShardChecksumMismatch 1 (be_sha demo_env [1, 2, 3]) (be_sha demo_env [1, 2, 4]))"
proof -
  have "erasure_encode (bs_coder demo_store) [1, 2, 3] = Inr [[1, 2, 3], [1, 2, 3]]"
    "be_sha demo_env [1, 2, 4] \<noteq> be_sha demo_env ([[1, 2, 3], [1, 2, 3]] ! 1)"
    by code_simp+
  from one_rotten_shard_blocks_download [OF demo_upload this(1) _ this(2)] show ?thesis by simp
qed

section \<open>Failures and isolation\<close>

definition same_outside :: "path \<Rightarrow> blob_storage \<Rightarrow> blob_storage \<Rightarrow> bool" where
  "same_outside dir bs bs' \<longleftrightarrow>
     bs_base bs' = bs_base bs \<and> bs_coder bs' = bs_coder bs
     \<and> (\<forall>p. \<not> below dir p \<longrightarrow> map_of (bs_shards bs') p = map_of (bs_shards bs) p
            \<and> map_of (bs_metas bs') p = map_of (bs_metas bs) p)"

lemma map_of_removed:
  "\<not> below dir p \<Longrightarrow> map_of (bs_shards (remove_all env dir bs)) p = map_of (bs_shards bs) p"
  "\<not> below dir p \<Longrightarrow> map_of (bs_metas (remove_all env dir bs)) p = map_of (bs_metas bs) p"
  by (simp_all add: remove_all_def map_of_filter_fst [where P = "\<lambda>p. \<not> below dir p \<or> be_stuck env p"])

lemma remove_all_same: "same_outside dir bs bs1 \<Longrightarrow> same_outside dir bs (remove_all env dir bs1)"
  by (auto simp: same_outside_def map_of_removed) (simp_all add: remove_all_def)

lemma same_outside_refl [simp]: "same_outside dir bs bs"
  by (simp add: same_outside_def)

lemma same_outside_path: "same_outside dir bs bs' \<Longrightarrow> artifact_path bs' r = artifact_path bs r"
  by (rule artifact_path_base) (simp add: same_outside_def)

lemma uploaded_fate:
  obtains "snd (upload_artifact env r reader bs) = bs" "\<not> is_ok (fst (upload_artifact env r reader bs))"
  | bs1 where "snd (upload_artifact env r reader bs) = remove_all env (artifact_path bs r) bs1"
      "\<not> is_ok (fst (upload_artifact env r reader bs))" "same_outside (artifact_path bs r) bs bs1"
  | "is_ok (fst (upload_artifact env r reader bs))"
      "same_outside (artifact_path bs r) bs (snd (upload_artifact env r reader bs))"
proof (cases "reader = None \<or> \<not> is_ok (erasure_encode (bs_coder bs) (the reader)) \<or> \<not> be_mkdir env (artifact_path bs r)")
  case True
  then have "snd (upload_artifact env r reader bs) = bs \<and> \<not> is_ok (fst (upload_artifact env r reader bs))"
    by (auto simp: upload_artifact_def split: option.splits sum.splits)
  then show thesis using that(1) by blast
next
  case False
  let ?dir = "artifact_path bs r"
  from False obtain data shards where d: "reader = Some data" "erasure_encode (bs_coder bs) data = Inr shards"
    by (auto simp: is_ok_iff)
  obtain res bs1 where ws: "write_shards env r 0 shards (bs\<lparr>bs_dirs := mkdir_all ?dir (bs_dirs bs)\<rparr>) = (res, bs1)"
    by fastforce
  have s1: "same_outside ?dir bs bs1" using write_shards_frame [OF ws] by (simp add: same_outside_def)
  note path = same_outside_path [OF s1]
  define md where "md = \<lparr>bm_artifact_id = ar_artifact r, bm_original_size = int (length data),
                    bm_total_shards = int (length shards),
                    bm_data_shards = int (ec_data (bs_coder bs1)), bm_parity_shards = int (ec_parity (bs_coder bs1)),
                    bm_checksum = be_sha env data, bm_uploaded_at = be_now env,
                    bm_shard_checksums = map (\<lambda>i. (int i, be_sha env (shards ! i))) [0..<length shards]\<rparr>"
  obtain ok bs2 where wm: "write_metadata env (metadata_path bs1 r) md bs1 = (ok, bs2)" by fastforce
  then have s2: "same_outside ?dir bs bs2"
    using s1 path by (auto simp: write_metadata_def same_outside_def metadata_path_eq split: disk_write.splits)
  consider i where "res = Some i" | "res = None" "\<not> be_marshal env" | "res = None" "be_marshal env" "\<not> ok"
    | "res = None" "be_marshal env" ok by (cases res) auto
  then show thesis
  proof cases
    case 1
    then show thesis using that(2) [of bs1] d False ws s1 path by (simp add: upload_artifact_def cleanup_artifact_def)
  next
    case 2
    then show thesis using that(2) [of bs1] d False ws s1 path by (simp add: upload_artifact_def cleanup_artifact_def)
  next
    case 3
    then show thesis using that(2) [of bs2] d False ws wm s2 same_outside_path [OF s2, of r]
      by (simp add: upload_artifact_def cleanup_artifact_def md_def)
  next
    case 4
    then show thesis using that(3) d False ws wm s2
      by (simp add: upload_artifact_def md_def)
  qed
qed

definition no_file_below :: "path \<Rightarrow> blob_storage \<Rightarrow> bool" where
  "no_file_below dir bs \<longleftrightarrow> (\<forall>p \<in> set (keys (bs_shards bs)) \<union> set (keys (bs_metas bs)). \<not> below dir p)"

text \<open>
  C7: A failed upload leaves no partial artifact. When an upload returns an error and the
  operating system lets the storage remove its files, either nothing at all has changed (the
  failure came before the first write) or no file is left below the artifact's directory -
  whichever shard or metadata write failed, and however much of it reached the disk.
\<close>

theorem failed_upload_leaves_no_partial_artifact:
  assumes "upload_artifact env r reader bs = (Inl e, bs')" and "\<forall>p. \<not> be_stuck env p"
  shows "bs' = bs \<or> no_file_below (artifact_path bs r) bs'"
proof (cases rule: uploaded_fate [of env r reader bs])
  case 1
  then show ?thesis using assms by simp
next
  case (2 bs1)
  then have "bs' = remove_all env (artifact_path bs r) bs1"
    using assms(1) by simp
  then show ?thesis using assms(2) by (auto simp: no_file_below_def remove_all_def)
next
  case 3
  then show ?thesis using assms(1) by simp
qed

theorem failed_upload_leaves_no_partial_artifact_witness:
  "no_file_below (artifact_path demo_store demo_ref)
     (snd (upload_artifact (demo_env\<lparr>be_write := \<lambda>p. if last p = ''shard-1.bin'' then Torn 1 else Written\<rparr>)
        demo_ref (Some [1, 2, 3]) demo_store))"
proof -
  let ?env = "demo_env\<lparr>be_write := \<lambda>p. if last p = ''shard-1.bin'' then Torn 1 else Written\<rparr>"
  let ?out = "upload_artifact ?env demo_ref (Some [1, 2, 3]) demo_store"
  have "fst ?out = Inl (WriteShardFailed 1)" by code_simp
  then have "?out = (Inl (WriteShardFailed 1), snd ?out)" by (metis prod.collapse)
  moreover have "\<forall>p. \<not> be_stuck ?env p" by (simp add: demo_env_def)
  ultimately have "snd ?out = demo_store \<or> no_file_below (artifact_path demo_store demo_ref) (snd ?out)"
    by (rule failed_upload_leaves_no_partial_artifact)
  moreover have "no_file_below (artifact_path demo_store demo_ref) demo_store"
    by (simp add: no_file_below_def demo_store_def)
  ultimately show ?thesis by auto
qed

datatype blob_op = Upload artifact_ref "bytes option" | Delete artifact_ref

fun op_ref :: "blob_op \<Rightarrow> artifact_ref" where
  "op_ref (Upload r _) = r"
| "op_ref (Delete r) = r"

fun blob_apply :: "blob_env \<Rightarrow> blob_op \<Rightarrow> blob_storage \<Rightarrow> blob_storage" where
  "blob_apply env (Upload r reader) bs = snd (upload_artifact env r reader bs)"
| "blob_apply env (Delete r) bs = snd (delete_artifact env r bs)"

text \<open>A run is a sequence of operations, each with what the operating system does during it.\<close>

definition blob_run :: "(blob_env \<times> blob_op) list \<Rightarrow> blob_storage \<Rightarrow> blob_storage" where
  "blob_run ops bs = fold (\<lambda>(env, op). blob_apply env op) ops bs"

lemma blob_apply_local: "same_outside (artifact_path bs (op_ref op)) bs (blob_apply env op bs)"
proof (cases op)
  case (Delete r)
  then show ?thesis by (simp add: delete_artifact_def Let_def remove_all_same)
next
  case (Upload r reader)
  then show ?thesis
    by (cases rule: uploaded_fate [of env r reader bs]) (simp_all add: remove_all_same)
qed

lemma download_cong:
  assumes "same_outside dir bs bs'" and "\<And>xs. \<not> below dir (artifact_path bs r @ xs)"
  shows "download_artifact env r bs' = download_artifact env r bs"
proof -
  have path: "artifact_path bs' r = artifact_path bs r"
    using assms(1) by (intro artifact_path_base) (simp add: same_outside_def)
  have "map_of (bs_shards bs') (shard_path bs' r i) = map_of (bs_shards bs) (shard_path bs r i)" for i
    using assms path by (simp add: shard_path_eq same_outside_def)
  then have read: "read_shards env r md bs' is = read_shards env r md bs is" for md "is"
    by (induction "is") (simp_all cong: option.case_cong sum.case_cong if_cong)
  have meta: "get_metadata r bs' = get_metadata r bs"
    using assms path by (simp add: get_metadata_def metadata_path_eq same_outside_def)
  have coder: "bs_coder bs' = bs_coder bs" using assms(1) by (simp add: same_outside_def)
  show ?thesis by (simp only: download_artifact_def read meta coder)
qed

text \<open>
  C5: Artifacts are isolated from each other. No sequence of uploads and deletions, successful
  or failing, of other artifacts changes what a download of an artifact returns, as long as
  tenant, repository and artifact identifiers are plain file names.
\<close>

theorem other_artifacts_untouched:
  assumes "plain_ref r" and "\<forall>(env, op) \<in> set ops. plain_ref (op_ref op) \<and> op_ref op \<noteq> r"
  shows "download_artifact env' r (blob_run ops bs) = download_artifact env' r bs"
  using assms(2)
proof (induction ops arbitrary: bs)
  case Nil
  then show ?case by (simp add: blob_run_def)
next
  case (Cons e ops)
  obtain env op where e: "e = (env, op)" by (cases e)
  have "download_artifact env' r (blob_apply env op bs) = download_artifact env' r bs"
    using Cons.prems e assms(1)
    by (intro download_cong [OF blob_apply_local] plain_refs_disjoint) auto
  with Cons show ?case by (simp add: blob_run_def e)
qed

theorem other_artifacts_untouched_witness:
  "download_artifact demo_env demo_ref
     (blob_run [(demo_env, Upload (demo_ref\<lparr>ar_repo := ''s''\<rparr>) (Some [9])), (demo_env, Delete (demo_ref\<lparr>ar_tenant := ''u''\<rparr>))]
        demo_uploaded)
   = download_artifact demo_env demo_ref demo_uploaded"
  by (rule other_artifacts_untouched) (simp_all add: plain_ref_def plain_name_def demo_ref_def)

text \<open>Without plain names, deleting one artifact can take others, or the whole storage, with it.\<close>

lemma dotdot_deletes_other_artifacts:
  "download_artifact demo_env demo_ref
     (snd (delete_artifact demo_env \<lparr>ar_tenant = ''t'', ar_repo = ''x'', ar_artifact = ''..''\<rparr> demo_uploaded))
   = Inl ReadMetadataFailed"
  by code_simp

section \<open>The contract with clients\<close>

definition sound_coder :: "blob_storage \<Rightarrow> bool" where
  "sound_coder bs \<longleftrightarrow> 0 < ec_data (bs_coder bs)
     \<and> rs_laws (ec_data (bs_coder bs)) (ec_parity (bs_coder bs)) (ec_encoder (bs_coder bs))"

definition apart_refs :: "artifact_ref \<Rightarrow> artifact_ref \<Rightarrow> bool" where
  "apart_refs r r' \<longleftrightarrow> (\<forall>bs xs. \<not> below (artifact_path bs r) (artifact_path bs r' @ xs))"

lemma download_of_upload:
  assumes "sound_coder bs" and "data \<noteq> []" and "upload_artifact env r (Some data) bs = (Inr t, bs')"
    and "be_sha env' = be_sha env"
  shows "download_artifact env' r bs' = Inr data"
proof -
  obtain shards where enc: "erasure_encode (bs_coder bs) data = Inr shards"
    and st: "blob_stored env r data shards bs'" and c: "bs_coder bs' = bs_coder bs"
    using uploaded [OF assms(3)] by (metis option.inject)
  obtain md where md: "get_metadata r bs' = Inr md" "describes env' (bs_coder bs') data shards md"
    using st assms(4) by (auto simp: blob_stored_def describes_def)
  have len: "length shards = ec_data (bs_coder bs) + ec_parity (bs_coder bs)"
    using erasure_encode_law [OF _ _ assms(2), of "bs_coder bs"] enc assms(1)
    by (metis sound_coder_def length_append length_map length_upt minus_nat.diff_0 sum.inject(2))
  show ?thesis
    by (rule download_of_intact [OF md])
      (use assms(1,2) c enc len st in \<open>simp_all add: sound_coder_def blob_stored_def\<close>)
qed

lemma empty_upload_fails: "sound_coder bs \<Longrightarrow> \<not> is_ok (fst (upload_artifact env r (Some []) bs))"
  by (simp add: upload_artifact_def sound_coder_def empty_artifact_refused)

interpretation blobs: artifact_store sound_coder "\<lambda>e e'. be_sha e' = be_sha e" apart_refs
  "\<lambda>e r d s. (is_ok (fst (upload_artifact e r (Some d) s)), snd (upload_artifact e r (Some d) s))"
  "\<lambda>e r s. case download_artifact e r s of Inl _ \<Rightarrow> None | Inr d \<Rightarrow> Some d"
  "\<lambda>e r s. snd (delete_artifact e r s)"
proof
  have local: "same_outside (artifact_path s (op_ref op)) s (blob_apply e op s)" for e op s
    by (rule blob_apply_local)
  have coder: "sound_coder s \<Longrightarrow> sound_coder (blob_apply e op s)" for e op s
    using local [of s op e] by (simp add: sound_coder_def same_outside_def)
  have other: "apart_refs (op_ref op) r \<Longrightarrow> download_artifact e' r (blob_apply e op s) = download_artifact e' r s" for e e' op r s
    by (rule download_cong [OF local]) (simp add: apart_refs_def)
  fix s s' e e' r r' d
  show "sound_coder s \<Longrightarrow> (is_ok (fst (upload_artifact e r (Some d) s)), snd (upload_artifact e r (Some d) s)) = (True, s') \<Longrightarrow> d \<noteq> []"
    using empty_upload_fails [of s e r] by auto
  then show "sound_coder s \<Longrightarrow> be_sha e' = be_sha e
    \<Longrightarrow> (is_ok (fst (upload_artifact e r (Some d) s)), snd (upload_artifact e r (Some d) s)) = (True, s')
    \<Longrightarrow> (case download_artifact e' r s' of Inl _ \<Rightarrow> None | Inr d \<Rightarrow> Some d) = Some d"
    using download_of_upload [of s d e r _ s' e'] by (auto simp: is_ok_iff prod_eq_iff)
  show "sound_coder s \<Longrightarrow> sound_coder (snd (is_ok (fst (upload_artifact e r (Some d) s)), snd (upload_artifact e r (Some d) s)))"
    using coder [of s e "Upload r (Some d)"] by simp
  show "sound_coder s \<Longrightarrow> sound_coder (snd (delete_artifact e r s))"
    using coder [of s e "Delete r"] by simp
  show "apart_refs r r' \<Longrightarrow>
      (case download_artifact e' r' (snd (is_ok (fst (upload_artifact e r (Some d) s)), snd (upload_artifact e r (Some d) s)))
         of Inl _ \<Rightarrow> None | Inr d \<Rightarrow> Some d) = (case download_artifact e' r' s of Inl _ \<Rightarrow> None | Inr d \<Rightarrow> Some d)"
    using other [of "Upload r (Some d)" r' e' e s] by simp
  show "apart_refs r r' \<Longrightarrow>
      (case download_artifact e' r' (snd (delete_artifact e r s)) of Inl _ \<Rightarrow> None | Inr d \<Rightarrow> Some d)
        = (case download_artifact e' r' s of Inl _ \<Rightarrow> None | Inr d \<Rightarrow> Some d)"
    using other [of "Delete r" r' e' e s] by simp
qed

section \<open>Listing\<close>

definition only_nested_files :: "blob_storage \<Rightarrow> bool" where
  "only_nested_files bs \<longleftrightarrow>
     (\<forall>p \<in> set (keys (bs_shards bs)) \<union> set (keys (bs_metas bs)). length p = length (root_of bs) + 4)
     \<and> path_join (bs_base bs) [''metadata''] \<in> set (bs_dirs bs)"

lemma metadata_dir_eq: "path_join (bs_base bs) [''metadata''] = root_of bs @ [''metadata'']"
  using path_join_plain_tail [of "[''metadata'']" "bs_base bs" "[]"] by (simp add: root_of_def plain_name_def)

lemma nested_files_not_listed: "only_nested_files bs \<Longrightarrow> list_artifacts bs = Inr []"
  by (auto simp: list_artifacts_def only_nested_files_def metadata_dir_eq Let_def filter_empty_conv)

lemma root_of_base: "bs_base bs' = bs_base bs \<Longrightarrow> root_of bs' = root_of bs"
  by (simp add: root_of_def)

lemma below_length: "below d p \<Longrightarrow> length d \<le> length p"
  unfolding below_def by (metis length_take min.cobounded1 min.commute)

lemma nested_remove_all:
  assumes "only_nested_files bs" and "length dir = length (root_of bs) + 3"
  shows "only_nested_files (remove_all env dir bs)"
proof -
  have "\<not> below dir (path_join (bs_base bs) [''metadata''])"
    using assms(2) below_length [of dir "root_of bs @ [''metadata'']"] by (auto simp: metadata_dir_eq)
  moreover have "root_of (remove_all env dir bs) = root_of bs"
    by (rule root_of_base) (simp add: remove_all_def)
  ultimately show ?thesis
    using assms(1) by (auto simp: only_nested_files_def remove_all_def)
qed

lemma set_keys_update: "set (keys (AList.update k v al)) \<subseteq> insert k (set (keys al))"
  by (simp add: dom_update)

lemma nested_update:
  assumes "only_nested_files bs" and "length p = length (root_of bs) + 4"
  shows "only_nested_files (bs\<lparr>bs_shards := AList.update p c (bs_shards bs)\<rparr>)"
    and "only_nested_files (bs\<lparr>bs_metas := AList.update p m (bs_metas bs)\<rparr>)"
  using assms by (auto simp: only_nested_files_def root_of_def dom_update)

lemma length_artifact_path: "plain_ref r \<Longrightarrow> length (artifact_path bs r) = length (root_of bs) + 3"
  by (simp add: artifact_path_plain)

lemma nested_write_shards:
  "write_shards env r i shards bs = (res, bs') \<Longrightarrow> plain_ref r \<Longrightarrow> only_nested_files bs \<Longrightarrow> only_nested_files bs'"
proof (induction env r i shards bs rule: write_shards.induct)
  case (1 env r i bs)
  then show ?case by simp
next
  case (2 env r i shard shards bs)
  obtain ok bs1 where w: "write_shard env (shard_path bs r i) shard bs = (ok, bs1)" by fastforce
  then have "only_nested_files bs1"
    using 2(3,4) by (auto simp: write_shard_def shard_path_eq length_artifact_path intro!: nested_update split: disk_write.splits)
  with 2 w show ?case by (cases ok) auto
qed

lemma upload_invariant:
  assumes "P bs"
    and mkdir: "\<And>bs d. P bs \<Longrightarrow> P (bs\<lparr>bs_dirs := mkdir_all d (bs_dirs bs)\<rparr>)"
    and shards: "\<And>bs i ss res bs'. write_shards env r i ss bs = (res, bs') \<Longrightarrow> P bs \<Longrightarrow> P bs'"
    and meta: "\<And>bs md ok bs'. write_metadata env (metadata_path bs r) md bs = (ok, bs') \<Longrightarrow> P bs \<Longrightarrow> P bs'"
    and cleanup: "\<And>bs. P bs \<Longrightarrow> P (cleanup_artifact env r bs)"
  shows "P (snd (upload_artifact env r reader bs))"
proof (cases "reader = None \<or> \<not> is_ok (erasure_encode (bs_coder bs) (the reader)) \<or> \<not> be_mkdir env (artifact_path bs r)")
  case True
  then show ?thesis using assms(1) by (auto simp: upload_artifact_def split: option.splits sum.splits)
next
  case False
  then obtain data ss where d: "reader = Some data" "erasure_encode (bs_coder bs) data = Inr ss"
    by (auto simp: is_ok_iff)
  obtain res bs1 where ws: "write_shards env r 0 ss (bs\<lparr>bs_dirs := mkdir_all (artifact_path bs r) (bs_dirs bs)\<rparr>) = (res, bs1)"
    by fastforce
  then have P1: "P bs1" using assms(1) by (intro shards [OF ws] mkdir)
  show ?thesis
  proof (cases "res = None \<and> be_marshal env")
    case False
    then show ?thesis using d \<open>\<not> (reader = None \<or> _)\<close> ws cleanup [OF P1]
      by (auto simp: upload_artifact_def Let_def split: option.splits)
  next
    case True
    then show ?thesis
      using d \<open>\<not> (reader = None \<or> _)\<close> ws P1 cleanup
      by (auto simp: upload_artifact_def Let_def dest: meta split: prod.splits bool.splits)
  qed
qed

lemma nested_blob_apply:
  assumes "only_nested_files bs" and "plain_ref (op_ref op)"
  shows "only_nested_files (blob_apply env op bs)"
proof (cases op)
  case (Delete r)
  then show ?thesis
    using assms by (simp add: delete_artifact_def Let_def nested_remove_all length_artifact_path)
next
  case (Upload r reader)
  have "only_nested_files (snd (upload_artifact env r reader bs))"
  proof (rule upload_invariant)
    show "only_nested_files bs" by (rule assms)
    show "only_nested_files (bs\<lparr>bs_dirs := mkdir_all d (bs_dirs bs)\<rparr>)" if "only_nested_files bs" for bs d
      using that by (simp add: only_nested_files_def root_of_def mkdir_all_def)
    show "only_nested_files bs'" if "write_shards env r i ss bs = (res, bs')" "only_nested_files bs" for bs i ss res bs'
      using that assms(2) Upload by (auto intro: nested_write_shards)
    show "only_nested_files bs'" if "write_metadata env (metadata_path bs r) md bs = (ok, bs')" "only_nested_files bs" for bs md ok bs'
      using that assms(2) Upload
      by (auto simp: write_metadata_def metadata_path_eq length_artifact_path intro!: nested_update split: disk_write.splits)
    show "only_nested_files (cleanup_artifact env r bs)" if "only_nested_files bs" for bs
      using that assms(2) Upload by (simp add: cleanup_artifact_def nested_remove_all length_artifact_path)
  qed
  with Upload show ?thesis by simp
qed

lemma new_store_nested:
  assumes "new_blob_storage env rs_new base k m [] [] = Inr bs"
  shows "only_nested_files bs"
proof -
  have "p \<in> set (mkdir_all p ds)" if "p \<noteq> []" for p ds
    using that by (cases p) (auto simp: mkdir_all_def image_iff intro!: bexI [of _ "length p"])
  moreover have "q \<in> set ds \<Longrightarrow> q \<in> set (mkdir_all p ds)" for p q ds by (auto simp: mkdir_all_def)
  ultimately have "q \<noteq> [] \<Longrightarrow> q \<in> set (mkdir_all p (mkdir_all q ds))" for p q ds by blast
  then have "path_join [base] [''metadata''] \<in> set (bs_dirs bs)" "bs_base bs = [base]"
    "bs_shards bs = []" "bs_metas bs = []"
    using assms path_join_plain_tail [of "[''metadata'']" "[base]" "[]"]
    by (auto simp: new_blob_storage_def ensure_directories_def plain_name_def split: if_splits sum.splits)
  then show ?thesis by (simp add: only_nested_files_def)
qed

text \<open>
  \<^verbatim>\<open>ListArtifacts\<close> never lists an uploaded artifact. Whatever is uploaded to (or deleted
  from) a fresh storage under plain names, the listing is empty: it reads the directory
  \<^verbatim>\<open>base/metadata\<close>, into which no upload ever writes.
\<close>

theorem uploads_are_never_listed:
  assumes "new_blob_storage env rs_new base k m [] [] = Inr bs" and "\<forall>(env, op) \<in> set ops. plain_ref (op_ref op)"
  shows "list_artifacts (blob_run ops bs) = Inr []"
proof -
  have "only_nested_files (blob_run ops bs)" if "only_nested_files bs" for bs
    using assms(2) that
    by (induction ops arbitrary: bs) (auto simp: blob_run_def nested_blob_apply split: prod.splits)
  then show ?thesis using new_store_nested [OF assms(1)] by (simp add: nested_files_not_listed)
qed

theorem uploads_are_never_listed_witness:
  "\<exists>bs. new_blob_storage demo_env (\<lambda>_ _. Some mirror_rs) ''data'' 1 1 [] [] = Inr bs
     \<and> list_artifacts (blob_run [(demo_env, Upload demo_ref (Some [1, 2, 3]))] bs) = Inr []"
proof -
  have "is_ok (new_blob_storage demo_env (\<lambda>_ _. Some mirror_rs) ''data'' 1 1 [] [])" by code_simp
  then obtain bs where bs: "new_blob_storage demo_env (\<lambda>_ _. Some mirror_rs) ''data'' 1 1 [] [] = Inr bs"
    by (auto simp: is_ok_iff)
  have "\<forall>(env, op) \<in> set [(demo_env, Upload demo_ref (Some [1, 2, 3]))]. plain_ref (op_ref op)"
    by (simp add: demo_ref_def plain_ref_def plain_name_def)
  with uploads_are_never_listed [OF bs] bs show ?thesis by blast
qed

section \<open>The integrity check\<close>

text \<open>
  The integrity check is sound. When it reports no corrupted shard of an uploaded artifact,
  whatever happened to the shard files in between, and no other content has the SHA-256 of one of
  its shards, the artifact downloads to the uploaded bytes.
\<close>

theorem integrity_check_sound:
  assumes "rs_laws (ec_data (bs_coder bs)) (ec_parity (bs_coder bs)) (ec_encoder (bs_coder bs))"
    and "0 < ec_data (bs_coder bs)" and "data \<noteq> []"
    and "upload_artifact env r (Some data) bs = (Inr t, bs')" and "erasure_encode (bs_coder bs) data = Inr shards"
    and "\<forall>s \<in> set shards. \<forall>c. be_sha env c = be_sha env s \<longrightarrow> c = s"
    and "verify_integrity env r (bs'\<lparr>bs_shards := found\<rparr>) = Inr (True, bad)"
  shows "download_artifact env r (bs'\<lparr>bs_shards := found\<rparr>) = Inr data"
proof -
  have st: "blob_stored env r data shards bs'" and c: "bs_coder bs' = bs_coder bs"
    using uploaded [OF assms(4)] assms(5) by (metis option.inject sum.inject(2))+
  then obtain md where md: "get_metadata r bs' = Inr md" "describes env (bs_coder bs') data shards md"
    by (auto simp: blob_stored_def)
  have len: "ec_data (bs_coder bs) \<le> length shards"
    using erasure_encode_law [OF assms(1-3)] assms(5) by (metis le_add1 length_append length_map length_upt minus_nat.diff_0 sum.inject(2))
  have clean: "\<not> shard_corrupt env r md (bs'\<lparr>bs_shards := found\<rparr>) i" if "i < length shards" for i
    using assms(7) md that by (auto simp: verify_integrity_def Let_def describes_def filter_empty_conv)
  have found: "map_of found (shard_path bs' r i) = Some (shards ! i)" if "i < length shards" for i
    using clean [OF that] md(2) that assms(6) by (auto simp: shard_corrupt_def describes_def split: option.splits)
  have all: "filter (\<lambda>i. map_of found (shard_path bs' r i) \<noteq> None) [0..<length shards] = [0..<length shards]"
    by (rule filter_True) (simp add: found)
  show ?thesis
    by (rule download_of_intact [where md = md and shards = shards])
      (use assms md c found len all in \<open>simp_all\<close>)
qed

theorem integrity_check_sound_witness:
  "verify_integrity demo_env demo_ref (demo_uploaded\<lparr>bs_shards := bs_shards demo_uploaded\<rparr>) = Inr (True, [])
   \<and> download_artifact demo_env demo_ref (demo_uploaded\<lparr>bs_shards := bs_shards demo_uploaded\<rparr>) = Inr [1, 2, 3]"
proof -
  have v: "verify_integrity demo_env demo_ref (demo_uploaded\<lparr>bs_shards := bs_shards demo_uploaded\<rparr>) = Inr (True, [])"
    and e: "erasure_encode (bs_coder demo_store) [1, 2, 3] = Inr [[1, 2, 3], [1, 2, 3]]"
    by code_simp+
  have "inj (\<lambda>b :: byte. char_of (unat b))"
  proof (rule injI)
    fix a b :: byte
    assume "(char_of (unat a) :: char) = char_of (unat b)"
    then have "(of_char (char_of (unat a) :: char) :: nat) = of_char (char_of (unat b) :: char)" by simp
    then show "a = b" using unsigned_less [of a, where 'a = nat] unsigned_less [of b, where 'a = nat]
      by (simp add: of_char_of word_unat_eq_iff)
  qed
  then have "\<forall>s \<in> set [[1, 2, 3], [1, 2, 3]]. \<forall>c. be_sha demo_env c = be_sha demo_env s \<longrightarrow> c = s"
    by (auto simp: demo_env_def inj_map_eq_map simp del: list.map)
  with integrity_check_sound [OF demo_coder _ demo_upload e _ v] v show ?thesis by simp
qed

section \<open>The read lock taken twice\<close>

text \<open>
  \<^verbatim>\<open>VerifyIntegrity\<close> calls \<^verbatim>\<open>GetMetadata\<close> while it holds the read lock, and \<^verbatim>\<open>GetMetadata\<close> takes it
  again. A \<^verbatim>\<open>sync.RWMutex\<close> lets no new reader in once a writer waits. The lock and the threads
  that use it are a transition system; a thread is the list of lock actions it has left.
\<close>

datatype lock_action = RLock | RUnlock | WRequest | WAcquire | WUnlock

record lock_state =
  ls_readers :: nat
  ls_pending :: bool
  ls_threads :: "lock_action list list"

definition download_locks :: "lock_action list" where "download_locks = [RLock, RUnlock]"
definition get_metadata_locks :: "lock_action list" where "get_metadata_locks = [RLock, RUnlock]"
definition verify_integrity_locks :: "lock_action list" where
  "verify_integrity_locks = [RLock] @ get_metadata_locks @ [RUnlock]"
definition upload_locks :: "lock_action list" where "upload_locks = [WRequest, WAcquire, WUnlock]"

fun lock_act :: "lock_action \<Rightarrow> lock_state \<Rightarrow> lock_state option" where
  "lock_act RLock s = (if ls_pending s then None else Some (s\<lparr>ls_readers := Suc (ls_readers s)\<rparr>))"
| "lock_act RUnlock s = Some (s\<lparr>ls_readers := ls_readers s - 1\<rparr>)"
| "lock_act WRequest s = (if ls_pending s then None else Some (s\<lparr>ls_pending := True\<rparr>))"
| "lock_act WAcquire s = (if ls_readers s = 0 then Some s else None)"
| "lock_act WUnlock s = Some (s\<lparr>ls_pending := False\<rparr>)"

fun thread_step :: "nat \<Rightarrow> lock_state \<Rightarrow> lock_state option" where
  "thread_step i s =
     (case ls_threads s ! i of
        [] \<Rightarrow> None
      | a # rest \<Rightarrow> map_option (\<lambda>s'. s'\<lparr>ls_threads := (ls_threads s)[i := rest]\<rparr>) (lock_act a s))"

definition lock_next :: "lock_state \<Rightarrow> lock_state list" where
  "lock_next s = List.map_filter (\<lambda>i. thread_step i s) [0..<length (ls_threads s)]"

definition lock_init :: "lock_action list list \<Rightarrow> lock_state" where
  "lock_init threads = \<lparr>ls_readers = 0, ls_pending = False, ls_threads = threads\<rparr>"

inductive lock_reach :: "lock_action list list \<Rightarrow> lock_state \<Rightarrow> bool" for threads where
  start: "lock_reach threads (lock_init threads)"
| step: "lock_reach threads s \<Longrightarrow> s' \<in> set (lock_next s) \<Longrightarrow> lock_reach threads s'"

definition deadlocked :: "lock_state \<Rightarrow> bool" where
  "deadlocked s \<longleftrightarrow> lock_next s = [] \<and> (\<exists>t \<in> set (ls_threads s). t \<noteq> [])"

fun lock_explore :: "nat \<Rightarrow> lock_state list \<Rightarrow> lock_state list" where
  "lock_explore 0 seen = seen"
| "lock_explore (Suc n) seen = lock_explore n (remdups (seen @ concat (map lock_next seen)))"

lemma explored_reachable:
  "\<forall>s \<in> set seen. lock_reach threads s \<Longrightarrow> \<forall>s \<in> set (lock_explore n seen). lock_reach threads s"
proof (induction n arbitrary: seen)
  case (Suc n)
  have "\<forall>s \<in> set (remdups (seen @ concat (map lock_next seen))). lock_reach threads s"
    using Suc.prems by (auto intro: lock_reach.step)
  from Suc.IH [OF this] show ?case by simp
qed simp

lemma explored_complete:
  assumes "lock_reach threads s" and "lock_init threads \<in> set S" and "\<forall>s \<in> set S. set (lock_next s) \<subseteq> set S"
  shows "s \<in> set S"
  using assms(1) by induction (use assms in auto)

text \<open>
  The integrity check can deadlock with an upload. There is a reachable interleaving of one
  integrity check and one upload in which neither has finished and neither can ever move: the
  check holds the read lock and waits to take it again, behind the waiting writer.
\<close>

theorem integrity_check_can_deadlock:
  "\<exists>s. lock_reach [verify_integrity_locks, upload_locks] s \<and> deadlocked s"
proof -
  let ?init = "lock_init [verify_integrity_locks, upload_locks]"
  have "list_ex deadlocked (lock_explore 3 [?init])" by code_simp
  then obtain s where "s \<in> set (lock_explore 3 [?init])" "deadlocked s" by (auto simp: list_ex_iff)
  moreover have "lock_reach [verify_integrity_locks, upload_locks] s" if "s \<in> set (lock_explore 3 [?init])" for s
    using explored_reachable [of "[?init]" "[verify_integrity_locks, upload_locks]" 3] that by (simp add: lock_reach.start)
  ultimately show ?thesis by blast
qed

text \<open>Downloads, which take the lock once, never deadlock with uploads.\<close>

lemma downloads_do_not_deadlock:
  assumes "lock_reach [download_locks, download_locks, upload_locks] s"
  shows "\<not> deadlocked s"
proof -
  let ?S = "lock_explore 7 [lock_init [download_locks, download_locks, upload_locks]]"
  have "lock_init [download_locks, download_locks, upload_locks] \<in> set ?S"
    "list_all (\<lambda>s. list_all (\<lambda>s'. s' \<in> set ?S) (lock_next s)) ?S" "list_all (\<lambda>s. \<not> deadlocked s) ?S"
    by code_simp+
  then show ?thesis using explored_complete [OF assms, of ?S] by (auto simp: list_all_iff)
qed

end
