(* ===== verification/Replication.thy ===== *)
theory Replication
  imports GoLib
begin

text \<open>
  Replication of artifacts to storage nodes (internal/replicate/replication.go) and the
  tenant-aware front end (replicator.go). The goroutines that \<^verbatim>\<open>ReplicateFile\<close> starts, one per
  node, are threads with an explicit program point; a schedule is the list of the threads that
  move, and the unsynchronised \<^verbatim>\<open>append\<close>s to the result are a read and a write of their own.
\<close>

section \<open>Nodes, health, results\<close>

record storage_node =
  sn_id :: string
  sn_name :: string
  sn_path :: string
  sn_priority :: int
  sn_type :: string
  sn_s3_endpoint :: string
  sn_s3_region :: string
  sn_s3_bucket :: string
  sn_s3_access_key :: string
  sn_s3_secret_key :: string
  sn_s3_use_ssl :: bool
  sn_s3_prefix :: string

record node_health =
  nh_healthy :: bool
  nh_last_check :: time
  nh_failures :: int
  nh_available :: int

record replication_result =
  rr_success :: bool
  rr_replicated :: "string list"
  rr_failed :: "string list"
  rr_checksum :: string
  rr_time :: time
  rr_required :: int
  rr_actual :: int

record replication_service =
  rs_nodes :: "storage_node list"
  rs_health :: "(string \<times> node_health) list"
  rs_has_db :: bool
  rs_tenant :: string

text \<open>
  A row of \<^verbatim>\<open>replication_nodes\<close>, with the nullable columns as options, as the query
  (active nodes of the tenant by priority) returns it.
\<close>

record node_row =
  nr_id :: string
  nr_name :: string
  nr_path :: string
  nr_priority :: int
  nr_type :: "string option"
  nr_s3_endpoint :: "string option"
  nr_s3_region :: "string option"
  nr_s3_bucket :: "string option"
  nr_s3_access_key :: "string option"
  nr_s3_secret_key :: "string option"
  nr_s3_use_ssl :: "bool option"
  nr_s3_prefix :: "string option"

text \<open>
  The outside world: the rows of each tenant (\<open>None\<close>: the query fails, \<open>None\<close> in the list: the
  scan of a row fails), the environment variable, the clock, MD5 in hexadecimal, and the success
  of each file system and S3 call. \<open>re_write p = Some n\<close>: the write fails after \<open>n\<close> bytes.
\<close>

record repl_env =
  re_rows :: "string \<Rightarrow> node_row option list option"
  re_buckets :: string
  re_now :: time
  re_elapsed :: time
  re_md5 :: "bytes \<Rightarrow> string"
  re_ctx_done :: bool
  re_mkdir :: "path \<Rightarrow> bool"
  re_create :: "path \<Rightarrow> bool"
  re_write :: "path \<Rightarrow> nat option"
  re_sync :: "path \<Rightarrow> bool"
  re_rename :: "path \<Rightarrow> bool"
  re_remove :: "path \<Rightarrow> bool"
  re_s3_client :: "storage_node \<Rightarrow> bool"
  re_s3_put :: "storage_node \<Rightarrow> path \<Rightarrow> bool"
  re_health_write :: "string \<Rightarrow> bool"
  re_is_dir :: "string \<Rightarrow> bool"

text \<open>Local files of all nodes, and S3 objects by endpoint, bucket and key.\<close>

record repl_disk =
  rd_files :: "(path \<times> bytes) list"
  rd_objects :: "((string \<times> string \<times> path) \<times> bytes) list"

datatype repl_error =
    ContextDone
  | UnsupportedNodeType string
  | CreateDirectoryFailed
  | CreateTempFailed
  | WriteFileFailed
  | SyncFailed
  | RenameFailed
  | S3ClientFailed
  | S3UploadFailed
  | InsufficientReplicas int int
  | NoHealthyNodes
  | NotOnAnyNode
  | NoReplicasFound
  | ChecksumMismatch
  | NilRequest
  | InvalidRequest
  | StatusNotImplemented

section \<open>Loading the nodes\<close>

definition local_node :: "string \<Rightarrow> string \<Rightarrow> int \<Rightarrow> storage_node" where
  "local_node i p prio = \<lparr>sn_id = i, sn_name = [], sn_path = p, sn_priority = prio, sn_type = [],
     sn_s3_endpoint = [], sn_s3_region = [], sn_s3_bucket = [], sn_s3_access_key = [], sn_s3_secret_key = [],
     sn_s3_use_ssl = False, sn_s3_prefix = []\<rparr>"

definition parse_storage_nodes :: "string \<Rightarrow> storage_node list" where
  "parse_storage_nodes buckets_env =
     (if buckets_env = [] then
        [local_node ''node1'' ''/storage/ssd1/securestor'' 1,
         local_node ''node2'' ''/storage/ssd2/securestor'' 2,
         local_node ''node3'' ''/storage/ssd3/securestor'' 3]
      else let paths = split_on CHR '':'' buckets_env
           in map (\<lambda>i. local_node (''node'' @ show_nat (i + 1)) (paths ! i) (int i + 1)) [0..<length paths])"

definition str_or_empty :: "string option \<Rightarrow> string" where
  "str_or_empty s = (case s of None \<Rightarrow> [] | Some x \<Rightarrow> x)"

definition node_of_row :: "node_row \<Rightarrow> storage_node" where
  "node_of_row r = \<lparr>sn_id = nr_id r, sn_name = nr_name r, sn_path = nr_path r, sn_priority = nr_priority r,
     sn_type = (if str_or_empty (nr_type r) = [] then ''local'' else str_or_empty (nr_type r)),
     sn_s3_endpoint = str_or_empty (nr_s3_endpoint r), sn_s3_region = str_or_empty (nr_s3_region r),
     sn_s3_bucket = str_or_empty (nr_s3_bucket r), sn_s3_access_key = str_or_empty (nr_s3_access_key r),
     sn_s3_secret_key = str_or_empty (nr_s3_secret_key r),
     sn_s3_use_ssl = (nr_s3_use_ssl r = Some True), sn_s3_prefix = str_or_empty (nr_s3_prefix r)\<rparr>"

definition fresh_health :: "time \<Rightarrow> node_health" where
  "fresh_health now = \<lparr>nh_healthy = True, nh_last_check = now, nh_failures = 0, nh_available = 0\<rparr>"

definition init_health :: "time \<Rightarrow> storage_node list \<Rightarrow> (string \<times> node_health) list \<Rightarrow> (string \<times> node_health) list" where
  "init_health now nodes h = fold (\<lambda>n. AList.update (sn_id n) (fresh_health now)) nodes h"

definition load_nodes_from_db :: "repl_env \<Rightarrow> replication_service \<Rightarrow> replication_service" where
  "load_nodes_from_db env rs =
     (if \<not> rs_has_db rs then rs\<lparr>rs_nodes := parse_storage_nodes (re_buckets env)\<rparr>
      else case re_rows env (rs_tenant rs) of
        None \<Rightarrow> rs\<lparr>rs_nodes := parse_storage_nodes (re_buckets env)\<rparr>
      | Some rows \<Rightarrow>
          (let nodes = map node_of_row (List.map_filter id rows)
           in if nodes = [] then rs\<lparr>rs_nodes := parse_storage_nodes (re_buckets env)\<rparr>
              else rs\<lparr>rs_nodes := nodes, rs_health := init_health (re_now env) nodes (rs_health rs)\<rparr>))"

definition init_replication_service :: "repl_env \<Rightarrow> replication_service" where
  "init_replication_service env =
     (let nodes = parse_storage_nodes (re_buckets env)
      in \<lparr>rs_nodes = nodes, rs_health = init_health (re_now env) nodes [], rs_has_db = False, rs_tenant = []\<rparr>)"

definition init_replication_service_with_db :: "repl_env \<Rightarrow> bool \<Rightarrow> string \<Rightarrow> replication_service" where
  "init_replication_service_with_db env has_db tenant =
     load_nodes_from_db env \<lparr>rs_nodes = [], rs_health = [], rs_has_db = has_db, rs_tenant = tenant\<rparr>"

section \<open>Node health\<close>

definition zero_health :: node_health where
  "zero_health = \<lparr>nh_healthy = False, nh_last_check = 0, nh_failures = 0, nh_available = 0\<rparr>"

definition health_of :: "(string \<times> node_health) list \<Rightarrow> string \<Rightarrow> node_health" where
  "health_of h i = (case map_of h i of None \<Rightarrow> zero_health | Some x \<Rightarrow> x)"

definition record_node_success :: "time \<Rightarrow> string \<Rightarrow> (string \<times> node_health) list \<Rightarrow> (string \<times> node_health) list" where
  "record_node_success now i h =
     AList.update i ((health_of h i)\<lparr>nh_healthy := True, nh_last_check := now, nh_failures := 0\<rparr>) h"

definition record_node_failure :: "time \<Rightarrow> string \<Rightarrow> (string \<times> node_health) list \<Rightarrow> (string \<times> node_health) list" where
  "record_node_failure now i h =
     (let n = nh_failures (health_of h i) + 1;
          health = (health_of h i)\<lparr>nh_failures := n\<rparr>;
          health = (if n \<ge> 3 then health\<lparr>nh_healthy := False\<rparr> else health)
      in AList.update i (health\<lparr>nh_last_check := now\<rparr>) h)"

definition check_node_health :: "repl_env \<Rightarrow> storage_node \<Rightarrow> replication_service \<Rightarrow> replication_service" where
  "check_node_health env node rs =
     (if re_health_write env (sn_path node) \<and> re_is_dir env (sn_path node)
      then rs\<lparr>rs_health := record_node_success (re_now env) (sn_id node) (rs_health rs)\<rparr>
      else rs\<lparr>rs_health := record_node_failure (re_now env) (sn_id node) (rs_health rs)\<rparr>)"

text \<open>One tick of the health checker; the goroutines of a tick may run in any \<open>order\<close>.\<close>

definition health_check_tick :: "repl_env \<Rightarrow> storage_node list \<Rightarrow> replication_service \<Rightarrow> replication_service" where
  "health_check_tick env order rs = fold (check_node_health env) order rs"

definition get_health_status :: "replication_service \<Rightarrow> (string \<times> node_health) list" where
  "get_health_status rs = rs_health rs"

section \<open>One node\<close>

definition tmp_path :: "path \<Rightarrow> path" where
  "tmp_path p = butlast p @ [last p @ ''.tmp'']"

definition replica_path :: "storage_node \<Rightarrow> string \<Rightarrow> string \<Rightarrow> path" where
  "replica_path node bucket file = path_join (path_join [sn_path node] [bucket]) [file]"

definition put_file :: "path \<Rightarrow> bytes \<Rightarrow> repl_disk \<Rightarrow> repl_disk" where
  "put_file p bs d = d\<lparr>rd_files := AList.update p bs (rd_files d)\<rparr>"

definition drop_file :: "repl_env \<Rightarrow> path \<Rightarrow> repl_disk \<Rightarrow> repl_disk" where
  "drop_file env p d = (if re_remove env p then d\<lparr>rd_files := AList.delete p (rd_files d)\<rparr> else d)"

definition replicate_to_local ::
  "repl_env \<Rightarrow> storage_node \<Rightarrow> string \<Rightarrow> string \<Rightarrow> bytes \<Rightarrow> repl_disk \<Rightarrow> repl_error option \<times> repl_disk" where
  "replicate_to_local env node bucket file bs d =
     (let full = replica_path node bucket file; tmp = tmp_path full
      in if \<not> re_mkdir env (path_join [sn_path node] [bucket]) then (Some CreateDirectoryFailed, d)
         else if \<not> re_create env tmp then (Some CreateTempFailed, d)
         else case re_write env tmp of
           Some n \<Rightarrow> (Some WriteFileFailed, drop_file env tmp (put_file tmp (take n bs) d))
         | None \<Rightarrow>
             (let d = put_file tmp bs d
              in if \<not> re_sync env tmp then (Some SyncFailed, drop_file env tmp d)
                 else if \<not> re_rename env tmp then (Some RenameFailed, drop_file env tmp d)
                 else (None, put_file full bs (d\<lparr>rd_files := AList.delete tmp (rd_files d)\<rparr>))))"

definition s3_key :: "storage_node \<Rightarrow> string \<Rightarrow> string \<Rightarrow> path" where
  "s3_key node bucket file =
     (if sn_s3_prefix node \<noteq> [] then path_join [] [sn_s3_prefix node, bucket, file] else path_join [] [bucket, file])"

definition replicate_to_s3 ::
  "repl_env \<Rightarrow> storage_node \<Rightarrow> string \<Rightarrow> string \<Rightarrow> bytes \<Rightarrow> repl_disk \<Rightarrow> repl_error option \<times> repl_disk" where
  "replicate_to_s3 env node bucket file bs d =
     (if \<not> re_s3_client env node then (Some S3ClientFailed, d)
      else if \<not> re_s3_put env node (s3_key node bucket file) then (Some S3UploadFailed, d)
      else (None, d\<lparr>rd_objects := AList.update
              (sn_s3_endpoint node, sn_s3_bucket node, s3_key node bucket file) bs (rd_objects d)\<rparr>))"

definition replicate_to_node ::
  "repl_env \<Rightarrow> storage_node \<Rightarrow> string \<Rightarrow> string \<Rightarrow> bytes \<Rightarrow> repl_disk \<Rightarrow> repl_error option \<times> repl_disk" where
  "replicate_to_node env node bucket file bs d =
     (if re_ctx_done env then (Some ContextDone, d)
      else if sn_type node = ''s3'' \<or> sn_type node = ''minio'' then replicate_to_s3 env node bucket file bs d
      else if sn_type node = ''local'' \<or> sn_type node = [] then replicate_to_local env node bucket file bs d
      else (Some (UnsupportedNodeType (sn_type node)), d))"

section \<open>All nodes in parallel\<close>

text \<open>
  The program points of one goroutine: about to copy, copied, the slice read for \<^verbatim>\<open>append\<close>,
  the slice written back, the channel sent to, the health recorded.
\<close>

datatype fan_pc =
    Todo
  | Copied "repl_error option"
  | Loaded "repl_error option" "string list"
  | Appended "repl_error option"
  | Sent "repl_error option"
  | Finished

record fan_state =
  fa_disk :: repl_disk
  fa_replicated :: "string list"
  fa_failed :: "string list"
  fa_channel :: "string list"
  fa_health :: "(string \<times> node_health) list"
  fa_pcs :: "fan_pc list"

definition fan_step ::
  "repl_env \<Rightarrow> string \<Rightarrow> string \<Rightarrow> bytes \<Rightarrow> storage_node list \<Rightarrow> nat \<Rightarrow> fan_state \<Rightarrow> fan_state" where
  "fan_step env bucket file bs nodes i st =
     (if i \<ge> length (fa_pcs st) then st
      else case fa_pcs st ! i of
        Todo \<Rightarrow>
          (let out = replicate_to_node env (nodes ! i) bucket file bs (fa_disk st)
           in st\<lparr>fa_disk := snd out, fa_pcs := (fa_pcs st)[i := Copied (fst out)]\<rparr>)
      | Copied err \<Rightarrow>
          st\<lparr>fa_pcs := (fa_pcs st)[i := Loaded err (if err = None then fa_replicated st else fa_failed st)]\<rparr>
      | Loaded err old \<Rightarrow>
          (if err = None
           then st\<lparr>fa_replicated := old @ [sn_id (nodes ! i)], fa_pcs := (fa_pcs st)[i := Appended err]\<rparr>
           else st\<lparr>fa_failed := old @ [sn_id (nodes ! i)], fa_pcs := (fa_pcs st)[i := Appended err]\<rparr>)
      | Appended err \<Rightarrow>
          st\<lparr>fa_channel := fa_channel st @ [if err = None then sn_id (nodes ! i) else []],
             fa_pcs := (fa_pcs st)[i := Sent err]\<rparr>
      | Sent err \<Rightarrow>
          st\<lparr>fa_health := (if err = None then record_node_success else record_node_failure)
                (re_now env) (sn_id (nodes ! i)) (fa_health st),
             fa_pcs := (fa_pcs st)[i := Finished]\<rparr>
      | Finished \<Rightarrow> st)"

definition fan_run ::
  "repl_env \<Rightarrow> string \<Rightarrow> string \<Rightarrow> bytes \<Rightarrow> storage_node list \<Rightarrow> nat list \<Rightarrow> fan_state \<Rightarrow> fan_state" where
  "fan_run env bucket file bs nodes schedule st = fold (fan_step env bucket file bs nodes) schedule st"

definition fan_init :: "storage_node list \<Rightarrow> (string \<times> node_health) list \<Rightarrow> repl_disk \<Rightarrow> fan_state" where
  "fan_init nodes h d =
     \<lparr>fa_disk = d, fa_replicated = [], fa_failed = [], fa_channel = [], fa_health = h,
      fa_pcs = replicate (length nodes) Todo\<rparr>"

text \<open>
  \<^verbatim>\<open>None\<close>: the schedule ends while a goroutine has not finished, and \<^verbatim>\<open>wg.Wait()\<close> still waits.
\<close>

definition replicate_file ::
  "repl_env \<Rightarrow> nat list \<Rightarrow> string \<Rightarrow> string \<Rightarrow> bytes \<Rightarrow> replication_service \<Rightarrow> repl_disk
    \<Rightarrow> ((repl_error option \<times> replication_result) \<times> replication_service \<times> repl_disk) option" where
  "replicate_file env schedule bucket file bs rs d =
     (let rs = (if rs_has_db rs then load_nodes_from_db env rs else rs);
          nodes = rs_nodes rs;
          st = fan_run env bucket file bs nodes schedule (fan_init nodes (rs_health rs) d);
          rs' = rs\<lparr>rs_health := fa_health st\<rparr>;
          count = int (length (fa_channel st));
          result = \<lparr>rr_success = False, rr_replicated = fa_replicated st, rr_failed = fa_failed st,
                    rr_checksum = re_md5 env bs, rr_time = 0, rr_required = 2, rr_actual = count\<rparr>
      in if \<not> list_all (\<lambda>pc. pc = Finished) (fa_pcs st) then None
         else if count < 2 then Some ((Some (InsufficientReplicas count 2), result), rs', fa_disk st)
         else Some ((None, result\<lparr>rr_success := True, rr_time := re_elapsed env\<rparr>), rs', fa_disk st))"

section \<open>Reading and verifying\<close>

fun read_first :: "repl_disk \<Rightarrow> string \<Rightarrow> string \<Rightarrow> storage_node list \<Rightarrow> repl_error + bytes" where
  "read_first d bucket file [] = Inl NotOnAnyNode"
| "read_first d bucket file (node # nodes) =
     (case map_of (rd_files d) (path_join [sn_path node] [bucket, file]) of
        Some data \<Rightarrow> Inr data
      | None \<Rightarrow> read_first d bucket file nodes)"

definition healthy_node :: "replication_service \<Rightarrow> storage_node \<Rightarrow> bool" where
  "healthy_node rs node =
     (case map_of (rs_health rs) (sn_id node) of None \<Rightarrow> False | Some h \<Rightarrow> nh_healthy h)"

definition replica_read_file :: "replication_service \<Rightarrow> repl_disk \<Rightarrow> string \<Rightarrow> string \<Rightarrow> repl_error + bytes" where
  "replica_read_file rs d bucket file =
     (let healthy = filter (healthy_node rs) (rs_nodes rs)
      in if healthy = [] then Inl NoHealthyNodes else read_first d bucket file healthy)"

fun scan_checksums ::
  "repl_env \<Rightarrow> repl_disk \<Rightarrow> string \<Rightarrow> string \<Rightarrow> storage_node list \<Rightarrow> (string \<times> string) list
    \<Rightarrow> replication_result \<Rightarrow> (string \<times> string) list \<times> replication_result" where
  "scan_checksums env d bucket file [] sums res = (sums, res)"
| "scan_checksums env d bucket file (node # nodes) sums res =
     (case map_of (rd_files d) (path_join [sn_path node] [bucket, file]) of
        None \<Rightarrow> scan_checksums env d bucket file nodes sums (res\<lparr>rr_failed := rr_failed res @ [sn_id node]\<rparr>)
      | Some data \<Rightarrow>
          scan_checksums env d bucket file nodes (AList.update (sn_id node) (re_md5 env data) sums)
            (res\<lparr>rr_replicated := rr_replicated res @ [sn_id node]\<rparr>))"

fun compare_checksums :: "string list \<Rightarrow> string \<Rightarrow> replication_result \<Rightarrow> bool \<times> replication_result" where
  "compare_checksums [] first res = (True, res)"
| "compare_checksums (c # cs) first res =
     (if first = [] then compare_checksums cs c (res\<lparr>rr_checksum := c\<rparr>)
      else if c \<noteq> first then (False, res)
      else compare_checksums cs first res)"

definition verify_replication ::
  "repl_env \<Rightarrow> replication_service \<Rightarrow> repl_disk \<Rightarrow> string \<Rightarrow> string \<Rightarrow> repl_error option \<times> replication_result" where
  "verify_replication env rs d bucket file =
     (let res = \<lparr>rr_success = False, rr_replicated = [], rr_failed = [], rr_checksum = [], rr_time = 0,
                 rr_required = 0, rr_actual = 0\<rparr>;
          (sums, res) = scan_checksums env d bucket file (rs_nodes rs) [] res
      in if sums = [] then (Some NoReplicasFound, res)
         else case compare_checksums (map snd sums) [] res of
             (False, res) \<Rightarrow> (Some ChecksumMismatch, res)
           | (True, res) \<Rightarrow> (None, res\<lparr>rr_success := True, rr_actual := int (length (rr_replicated res))\<rparr>))"

section \<open>The tenant-aware front end\<close>

record replication_request =
  rq_tenant :: string
  rq_repository :: string
  rq_artifact :: string
  rq_type :: string
  rq_data :: bytes
  rq_bucket :: string
  rq_file :: string

record unified_replicator =
  ur_has_db :: bool
  ur_caches :: "(string \<times> replication_service) list"

definition new_unified_replicator :: "bool \<Rightarrow> unified_replicator" where
  "new_unified_replicator has_db = \<lparr>ur_has_db = has_db, ur_caches = []\<rparr>"

definition get_replication_service ::
  "repl_env \<Rightarrow> string \<Rightarrow> unified_replicator \<Rightarrow> replication_service \<times> unified_replicator" where
  "get_replication_service env tenant ur =
     (case map_of (ur_caches ur) tenant of
        Some rs \<Rightarrow> (rs, ur)
      | None \<Rightarrow>
          (let rs = init_replication_service_with_db env (ur_has_db ur) tenant
           in (rs, ur\<lparr>ur_caches := AList.update tenant rs (ur_caches ur)\<rparr>)))"

definition no_replicas :: replication_result where
  "no_replicas = \<lparr>rr_success = False, rr_replicated = [], rr_failed = [], rr_checksum = [], rr_time = 0,
     rr_required = 0, rr_actual = 0\<rparr>"

definition replicate_artifact ::
  "repl_env \<Rightarrow> nat list \<Rightarrow> replication_request option \<Rightarrow> unified_replicator \<Rightarrow> repl_disk
    \<Rightarrow> ((repl_error option \<times> replication_result option) \<times> unified_replicator \<times> repl_disk) option" where
  "replicate_artifact env schedule req ur d =
     (case req of
        None \<Rightarrow> Some ((Some NilRequest, None), ur, d)
      | Some rq \<Rightarrow>
          (if rq_tenant rq = [] \<or> rq_data rq = [] then Some ((Some InvalidRequest, Some no_replicas), ur, d)
           else let (rs, ur) = get_replication_service env (rq_tenant rq) ur
                in case replicate_file env schedule (rq_bucket rq) (rq_file rq) (rq_data rq) rs d of
                     None \<Rightarrow> None
                   | Some ((err, result), rs', d') \<Rightarrow>
                       (let ur' = ur\<lparr>ur_caches := AList.update (rq_tenant rq) rs' (ur_caches ur)\<rparr>
                        in Some ((err, Some (if err = None then result else no_replicas)), ur', d'))))"

definition get_replication_status :: "string \<Rightarrow> repl_error + unit" where
  "get_replication_status artifact = Inl StatusNotImplemented"

definition invalidate_cache :: "string \<Rightarrow> unified_replicator \<Rightarrow> unified_replicator" where
  "invalidate_cache tenant ur = ur\<lparr>ur_caches := AList.delete tenant (ur_caches ur)\<rparr>"

definition invalidate_all_caches :: "unified_replicator \<Rightarrow> unified_replicator" where
  "invalidate_all_caches ur = ur\<lparr>ur_caches := []\<rparr>"

text \<open>
  What the blob storage does after an upload without a callback (blob_storage.go,
  \<^verbatim>\<open>replicateArtifact\<close>): a service of the tenant, the bucket \<^verbatim>\<open>repository/artifact\<close>.
\<close>

definition replicate_uploaded ::
  "repl_env \<Rightarrow> nat list \<Rightarrow> string \<Rightarrow> string \<Rightarrow> string \<Rightarrow> bytes \<Rightarrow> repl_disk
    \<Rightarrow> ((repl_error option \<times> replication_result) \<times> replication_service \<times> repl_disk) option" where
  "replicate_uploaded env schedule tenant repository artifact data d =
     replicate_file env schedule (repository @ ''/'' @ artifact) artifact data
       (init_replication_service_with_db env True tenant) d"

section \<open>A concrete service\<close>

definition local_env :: repl_env where
  "local_env = \<lparr>re_rows = (\<lambda>_. None), re_buckets = [], re_now = 0, re_elapsed = 5,
     re_md5 = map (\<lambda>b. char_of (unat b)), re_ctx_done = False, re_mkdir = (\<lambda>_. True), re_create = (\<lambda>_. True),
     re_write = (\<lambda>_. None), re_sync = (\<lambda>_. True), re_rename = (\<lambda>_. True), re_remove = (\<lambda>_. True),
     re_s3_client = (\<lambda>_. True), re_s3_put = (\<lambda>_ _. True), re_health_write = (\<lambda>_. True), re_is_dir = (\<lambda>_. True)\<rparr>"

definition broken_env :: repl_env where
  "broken_env = local_env\<lparr>re_mkdir := \<lambda>_. False\<rparr>"

definition local_service :: replication_service where
  "local_service = init_replication_service local_env"

definition no_files :: repl_disk where
  "no_files = \<lparr>rd_files = [], rd_objects = []\<rparr>"

section \<open>Every goroutine reports once\<close>

fun pc_left :: "fan_pc \<Rightarrow> nat" where
  "pc_left Todo = 5"
| "pc_left (Copied _) = 4"
| "pc_left (Loaded _ _) = 3"
| "pc_left (Appended _) = 2"
| "pc_left (Sent _) = 1"
| "pc_left Finished = 0"

lemma length_fan_step [simp]: "length (fa_pcs (fan_step env bucket file bs nodes i st)) = length (fa_pcs st)"
  by (auto simp: fan_step_def Let_def split: fan_pc.splits)

lemma fan_step_left:
  "j < length (fa_pcs st) \<Longrightarrow> pc_left (fa_pcs (fan_step env bucket file bs nodes i st) ! j)
     = pc_left (fa_pcs st ! j) - (if i = j then 1 else 0)"
  by (auto simp: fan_step_def Let_def nth_list_update split: fan_pc.splits)

lemma fan_run_Cons: "fan_run env bucket file bs nodes (i # is) st
    = fan_run env bucket file bs nodes is (fan_step env bucket file bs nodes i st)"
  by (simp add: fan_run_def)

lemma fan_run_Nil [simp]: "fan_run env bucket file bs nodes [] st = st"
  by (simp add: fan_run_def)

lemma fan_run_invariant:
  assumes "P st" and "\<And>st i. P st \<Longrightarrow> P (fan_step env bucket file bs nodes i st)"
  shows "P (fan_run env bucket file bs nodes schedule st)"
  using assms(1) by (induction schedule arbitrary: st) (auto simp: fan_run_Cons assms(2))

lemma length_fan_run [simp]: "length (fa_pcs (fan_run env bucket file bs nodes schedule st)) = length (fa_pcs st)"
  by (rule fan_run_invariant [where P = "\<lambda>s. length (fa_pcs s) = length (fa_pcs st)"]) simp_all

lemma fan_run_left:
  "j < length (fa_pcs st) \<Longrightarrow> pc_left (fa_pcs (fan_run env bucket file bs nodes schedule st) ! j)
     = pc_left (fa_pcs st ! j) - count_list schedule j"
  by (induction schedule arbitrary: st) (auto simp: fan_run_Cons fan_step_left)

lemma pc_left_Finished: "pc_left pc = 0 \<longleftrightarrow> pc = Finished"
  by (cases pc) auto

definition sent_all :: "fan_state \<Rightarrow> bool" where
  "sent_all st \<longleftrightarrow> length (fa_channel st) = length (filter (\<lambda>pc. pc_left pc \<le> 1) (fa_pcs st))"

lemma sent_all_step: "sent_all st \<Longrightarrow> sent_all (fan_step env bucket file bs nodes i st)"
  by (auto simp: sent_all_def fan_step_def Let_def length_filter_update split: fan_pc.splits)

lemma sent_all_finished:
  assumes "list_all (\<lambda>pc. pc = Finished) (fa_pcs (fan_run env bucket file bs nodes schedule (fan_init nodes h d)))"
  shows "length (fa_channel (fan_run env bucket file bs nodes schedule (fan_init nodes h d))) = length nodes"
proof -
  let ?st = "fan_run env bucket file bs nodes schedule (fan_init nodes h d)"
  have "sent_all ?st"
    by (rule fan_run_invariant) (simp_all add: sent_all_step, simp add: sent_all_def fan_init_def)
  moreover have "filter (\<lambda>pc. pc_left pc \<le> 1) (fa_pcs ?st) = fa_pcs ?st"
    by (rule filter_True) (use assms in \<open>auto simp: list_all_iff\<close>)
  ultimately show ?thesis by (simp add: sent_all_def) (simp add: fan_init_def)
qed

abbreviation current_nodes :: "repl_env \<Rightarrow> replication_service \<Rightarrow> storage_node list" where
  "current_nodes env rs \<equiv> rs_nodes (if rs_has_db rs then load_nodes_from_db env rs else rs)"



text \<open>
  The success of \<^verbatim>\<open>ReplicateFile\<close> says nothing about the copies. Whenever it returns, it
  reports success exactly when at least two nodes are configured, even when every copy failed:
  the loop over the channel counts the empty strings that failed goroutines send as well.
\<close>

theorem replication_success_ignores_failures:
  assumes "replicate_file env schedule bucket file bs rs d = Some ((err, result), rs', d')"
  shows "rr_success result \<longleftrightarrow> 2 \<le> length (current_nodes env rs)"
proof -
  let ?nodes = "current_nodes env rs"
  let ?h = "rs_health (if rs_has_db rs then load_nodes_from_db env rs else rs)"
  from assms have "list_all (\<lambda>pc. pc = Finished) (fa_pcs (fan_run env bucket file bs ?nodes schedule (fan_init ?nodes ?h d)))"
    by (auto simp: replicate_file_def Let_def split: if_splits)
  note count = sent_all_finished [OF this]
  from assms show ?thesis
    unfolding replicate_file_def Let_def count by (simp split: if_split_asm) auto
qed

theorem replication_success_ignores_failures_witness:
  "\<exists>result rs' d'. replicate_file broken_env (concat (replicate 5 [0, 1, 2])) ''b'' ''f'' [1, 2] local_service no_files
      = Some ((None, result), rs', d')
    \<and> rr_success result \<and> rr_actual result = 3 \<and> rr_replicated result = [] \<and> d' = no_files"
proof -
  let ?run = "replicate_file broken_env (concat (replicate 5 [0, 1, 2])) ''b'' ''f'' [1, 2] local_service no_files"
  have "map_option (\<lambda>((err, result), rs', d'). (err, rr_actual result, rr_replicated result, d')) ?run
      = Some (None, 3, [], no_files)" by code_simp
  then obtain result rs' d' where run: "?run = Some ((None, result), rs', d')"
    and r: "rr_actual result = 3" "rr_replicated result = []" "d' = no_files" by auto
  have "length (current_nodes broken_env local_service) = 3" by code_simp
  then have "rr_success result" using replication_success_ignores_failures [OF run] by simp
  with run r show ?thesis by blast
qed

section \<open>A copy is all or nothing\<close>

lemma replica_path_eq:
  "plain_name file \<Longrightarrow> replica_path node bucket file = path_join [sn_path node] [bucket] @ [file]"
  using path_join_plain_tail [of "[file]" "path_join [sn_path node] [bucket]" "[]"] by (simp add: replica_path_def)

lemma read_path_eq:
  "plain_name file \<Longrightarrow> path_join [sn_path node] [bucket, file] = replica_path node bucket file"
  using path_join_plain_tail [of "[file]" "[sn_path node]" "[bucket]"] by (simp add: replica_path_eq)

lemma tmp_path_snoc [simp]: "tmp_path (p @ [f]) = p @ [f @ ''.tmp'']"
  by (simp add: tmp_path_def)

lemma full_not_tmp:
  "plain_name file \<Longrightarrow> replica_path node bucket file \<noteq> tmp_path (replica_path node' bucket file)"
  by (simp add: replica_path_eq)

lemma files_put [simp]: "map_of (rd_files (put_file p bs d)) = (map_of (rd_files d))(p \<mapsto> bs)"
  by (simp add: put_file_def)

lemma files_drop: "q \<noteq> p \<Longrightarrow> map_of (rd_files (drop_file env p d)) q = map_of (rd_files d) q"
  by (simp add: drop_file_def)

lemma local_copy:
  assumes "replicate_to_local env node bucket file bs d = (err, d')" and "plain_name file"
  shows "map_of (rd_files d') (replica_path node bucket file)
      = (if err = None then Some bs else map_of (rd_files d) (replica_path node bucket file))"
    and "q \<noteq> replica_path node bucket file \<Longrightarrow> q \<noteq> tmp_path (replica_path node bucket file)
      \<Longrightarrow> map_of (rd_files d') q = map_of (rd_files d) q"
  using assms(1) full_not_tmp [OF assms(2), of node bucket node]
  by (auto simp: replicate_to_local_def Let_def files_drop split: if_splits option.splits)



section \<open>Reading back\<close>

text \<open>Whether a copy fails is decided by the outside world, not by what the disk holds.\<close>

definition copy_succeeds :: "repl_env \<Rightarrow> string \<Rightarrow> string \<Rightarrow> storage_node \<Rightarrow> bool" where
  "copy_succeeds env bucket file node \<longleftrightarrow>
     fst (replicate_to_local env node bucket file [] \<lparr>rd_files = [], rd_objects = []\<rparr>) = None"

lemma copy_result_fixed:
  "fst (replicate_to_local env node bucket file bs d) = fst (replicate_to_local env node bucket file bs' d')"
  by (simp add: replicate_to_local_def Let_def split: option.splits)

definition local_copy_node :: "storage_node \<Rightarrow> bool" where
  "local_copy_node node \<longleftrightarrow> sn_type node \<in> {[], ''local''}"

definition copies_made :: "string \<Rightarrow> string \<Rightarrow> bytes \<Rightarrow> storage_node list \<Rightarrow> fan_state \<Rightarrow> bool" where
  "copies_made bucket file bs nodes st \<longleftrightarrow>
     length (fa_pcs st) = length nodes
     \<and> (\<forall>i < length nodes. fa_pcs st ! i \<noteq> Todo \<longrightarrow>
          map_of (rd_files (fa_disk st)) (replica_path (nodes ! i) bucket file) = Some bs)
     \<and> (\<forall>i < length nodes. fa_pcs st ! i \<in> {Todo, Copied None, Appended None, Sent None, Finished} \<union> range (Loaded None))
     \<and> (\<forall>i < length nodes. fa_pcs st ! i = Finished \<longrightarrow>
          (\<exists>h. map_of (fa_health st) (sn_id (nodes ! i)) = Some h \<and> nh_healthy h))"

lemma copies_made_step:
  assumes "copies_made bucket file bs nodes st" and "plain_name file" and "\<not> re_ctx_done env"
    and "\<forall>node \<in> set nodes. local_copy_node node \<and> copy_succeeds env bucket file node"
  shows "copies_made bucket file bs nodes (fan_step env bucket file bs nodes i st)"
proof (cases "i < length nodes")
  case False
  then show ?thesis using assms(1) by (simp add: fan_step_def copies_made_def)
next
  case True
  then have node: "local_copy_node (nodes ! i)" "copy_succeeds env bucket file (nodes ! i)"
    using assms(4) by auto
  let ?d = "fa_disk st" and ?n = "nodes ! i"
  have copy: "fst (replicate_to_node env ?n bucket file bs ?d) = None"
    and disk: "map_of (rd_files (snd (replicate_to_node env ?n bucket file bs ?d))) (replica_path m bucket file)
      = (if replica_path m bucket file = replica_path ?n bucket file then Some bs else map_of (rd_files ?d) (replica_path m bucket file))" for m
  proof -
    have to_local: "replicate_to_node env ?n bucket file bs ?d = replicate_to_local env ?n bucket file bs ?d"
      using node(1) assms(3) by (auto simp: replicate_to_node_def local_copy_node_def)
    have "fst (replicate_to_local env ?n bucket file bs ?d) = None"
      using node(2) copy_result_fixed unfolding copy_succeeds_def by metis
    then have out: "replicate_to_local env ?n bucket file bs ?d = (None, snd (replicate_to_local env ?n bucket file bs ?d))"
      by (metis prod.collapse)
    then show "fst (replicate_to_node env ?n bucket file bs ?d) = None" by (metis fst_conv to_local)
    show "map_of (rd_files (snd (replicate_to_node env ?n bucket file bs ?d))) (replica_path m bucket file)
      = (if replica_path m bucket file = replica_path ?n bucket file then Some bs else map_of (rd_files ?d) (replica_path m bucket file))"
      using local_copy [OF out assms(2)] full_not_tmp [OF assms(2), of m bucket ?n] by (simp add: to_local)
  qed
  show ?thesis
  proof (cases "fa_pcs st ! i")
    case Todo
    then show ?thesis using assms(1) True copy disk
      by (auto simp: fan_step_def copies_made_def nth_list_update Let_def)
  qed (use assms(1) True in \<open>auto simp: fan_step_def copies_made_def nth_list_update record_node_success_def\<close>)
qed

lemma replicated_read:
  assumes "plain_name file" and "\<not> re_ctx_done env" and "current_nodes env rs \<noteq> []"
    and "\<forall>node \<in> set (current_nodes env rs). local_copy_node node \<and> copy_succeeds env bucket file node"
    and "replicate_file env schedule bucket file bs rs d = Some (out, rs', d')"
  shows "replica_read_file rs' d' bucket file = Inr bs"
proof -
  let ?nodes = "current_nodes env rs"
  let ?h = "rs_health (if rs_has_db rs then load_nodes_from_db env rs else rs)"
  let ?st = "fan_run env bucket file bs ?nodes schedule (fan_init ?nodes ?h d)"
  have "copies_made bucket file bs ?nodes ?st"
    by (rule fan_run_invariant) (use assms in \<open>simp add: copies_made_def fan_init_def\<close>, use assms(1,2,4) copies_made_step in blast)
  moreover from assms(5) have fin: "list_all (\<lambda>pc. pc = Finished) (fa_pcs ?st)" and rs': "rs_nodes rs' = ?nodes" "rs_health rs' = fa_health ?st"
    and d': "d' = fa_disk ?st"
    by (auto simp: replicate_file_def Let_def split: if_splits)
  ultimately have ready: "\<forall>node \<in> set ?nodes. healthy_node rs' node
      \<and> map_of (rd_files d') (path_join [sn_path node] [bucket, file]) = Some bs"
    by (auto simp: copies_made_def list_all_length in_set_conv_nth healthy_node_def read_path_eq [OF assms(1)] split: option.splits)
      fastforce+
  then have "filter (healthy_node rs') (rs_nodes rs') = ?nodes" using rs' by (auto intro: filter_True)
  moreover obtain n ns where "?nodes = n # ns" using assms(3) by (cases ?nodes) auto
  ultimately show ?thesis using ready by (simp add: replica_read_file_def)
qed

text \<open>
  What was replicated is read back. When \<^verbatim>\<open>ReplicateFile\<close> returns, every node is local and
  no copy fails, a following \<^verbatim>\<open>ReadFile\<close> returns exactly the replicated bytes, however the
  goroutines were interleaved and whatever health the nodes had before.
\<close>

theorem replicated_file_reads_back:
  assumes "plain_name file" and "\<not> re_ctx_done env" and "current_nodes env rs \<noteq> []"
    and "\<forall>node \<in> set (current_nodes env rs). local_copy_node node \<and> copy_succeeds env bucket file node"
    and "replicate_file env schedule bucket file bs rs d = Some (out, rs', d')"
  shows "replica_read_file rs' d' bucket file = Inr bs"
  using assms by (rule replicated_read)

abbreviation demo_schedule :: "nat list" where
  "demo_schedule \<equiv> concat (replicate 5 [0, 1, 2])"

theorem replicated_file_reads_back_witness:
  "\<exists>out rs' d'. replicate_file local_env demo_schedule ''b'' ''f'' [1, 2] local_service no_files = Some (out, rs', d')
     \<and> replica_read_file rs' d' ''b'' ''f'' = Inr [1, 2]"
proof -
  have "replicate_file local_env demo_schedule ''b'' ''f'' [1, 2] local_service no_files \<noteq> None"
    "list_all (\<lambda>node. local_copy_node node \<and> copy_succeeds local_env ''b'' ''f'' node) (current_nodes local_env local_service)"
    "current_nodes local_env local_service \<noteq> []" "plain_name ''f''" "\<not> re_ctx_done local_env"
    by code_simp+
  then show ?thesis
    using replicated_file_reads_back [of "''f''" local_env local_service "''b''" demo_schedule "[1, 2]" no_files]
    by (auto simp: list_all_iff)
qed

text \<open>
  Without that success, a read can return stale data: the first node keeps an older version, the
  new one is written to the other two, and the read prefers the first node, still healthy.
\<close>

lemma stale_read:
  "(case replicate_file (local_env\<lparr>re_create := \<lambda>p. hd p \<noteq> ''storage'' \<or> p ! 1 \<noteq> ''ssd1''\<rparr>) demo_schedule ''b'' ''f'' [2]
        local_service \<lparr>rd_files = [([''storage'', ''ssd1'', ''securestor'', ''b'', ''f''], [1])], rd_objects = []\<rparr> of
      None \<Rightarrow> None
    | Some ((err, result), rs', d') \<Rightarrow> Some (err, replica_read_file rs' d' ''b'' ''f''))
   = Some (None, Inr [1])"
  by code_simp

text \<open>Two goroutines that append at the same time lose one of the node names.\<close>

lemma racing_appends_lose_a_node:
  "map_option (\<lambda>((err, result), _). (rr_replicated result, rr_failed result))
     (replicate_file local_env ([0, 1, 0, 1, 0, 1, 0, 1, 0, 1] @ replicate 5 2) ''b'' ''f'' [2] local_service no_files)
   = Some ([''node2'', ''node3''], [])"
  by code_simp

text \<open>A copy on an S3 node is never read back: reads and checks look at local paths only.\<close>

lemma s3_copies_are_not_read:
  assumes "\<forall>node \<in> set (rs_nodes rs). map_of (rd_files d) (path_join [sn_path node] [bucket, file]) = None"
  shows "\<not> is_ok (replica_read_file rs d bucket file)"
proof -
  have "read_first d bucket file nodes = Inl NotOnAnyNode" if "set nodes \<subseteq> set (rs_nodes rs)" for nodes
    using that assms by (induction nodes) auto
  then show ?thesis by (simp add: replica_read_file_def Let_def)
qed

section \<open>Health\<close>

definition health_events :: "time \<Rightarrow> string \<Rightarrow> bool list \<Rightarrow> (string \<times> node_health) list \<Rightarrow> (string \<times> node_health) list" where
  "health_events now i = fold (\<lambda>ok. if ok then record_node_success now i else record_node_failure now i)"

definition trailing_failures :: "bool list \<Rightarrow> nat" where
  "trailing_failures events = length (takeWhile Not (rev events))"

lemma health_events_snoc: "health_events now i (es @ [e]) h =
    (if e then record_node_success now i else record_node_failure now i) (health_events now i es h)"
  by (simp add: health_events_def)

lemma health_of_success: "health_of (record_node_success now i h) i
    = (health_of h i)\<lparr>nh_healthy := True, nh_last_check := now, nh_failures := 0\<rparr>"
  by (simp add: record_node_success_def health_of_def)

lemma health_of_failure: "health_of (record_node_failure now i h) i
    = (health_of h i)\<lparr>nh_healthy := nh_healthy (health_of h i) \<and> nh_failures (health_of h i) < 2,
        nh_last_check := now, nh_failures := nh_failures (health_of h i) + 1\<rparr>"
  by (simp add: record_node_failure_def health_of_def Let_def split: option.splits)

text \<open>
  A node is taken out of service by exactly three failures in a row. From the state in which
  nodes are registered, after any sequence of recorded outcomes a node is unhealthy if and only
  if the last three or more outcomes were failures, and its counter is the length of that run.
\<close>

theorem unhealthy_after_three_failures:
  "let h = health_of (health_events now i events [(i, fresh_health t)]) i
   in (nh_healthy h \<longleftrightarrow> trailing_failures events < 3) \<and> nh_failures h = int (trailing_failures events)"
proof (induction events rule: rev_induct)
  case Nil
  then show ?case by (simp add: health_events_def health_of_def fresh_health_def trailing_failures_def)
next
  case (snoc e events)
  then show ?case
    by (cases e) (auto simp: health_events_snoc health_of_success health_of_failure trailing_failures_def Let_def)
qed

text \<open>
  With a database, every \<^verbatim>\<open>ReplicateFile\<close> reloads the nodes and forgets all recorded failures.
\<close>

lemma init_health_of: "node \<in> set nodes \<Longrightarrow> health_of (init_health now nodes h) (sn_id node) = fresh_health now"
proof (induction nodes rule: rev_induct)
  case (snoc n nodes)
  then show ?case by (auto simp: init_health_def health_of_def)
qed simp

text \<open>
  Reloading the nodes wipes the failure record. Whenever the database returns a node, loading
  the nodes - which \<^verbatim>\<open>ReplicateFile\<close> does at its start - makes it healthy with no failures,
  however many failures were recorded: the three-strikes rule never spans two replications.
\<close>

theorem reload_forgets_failures:
  assumes "rs_has_db rs" and "re_rows env (rs_tenant rs) = Some rows" and "Some row \<in> set rows"
  shows "health_of (rs_health (load_nodes_from_db env rs)) (nr_id row) = fresh_health (re_now env)"
proof -
  have row: "node_of_row row \<in> set (map node_of_row (List.map_filter id rows))"
    using assms(3) by (force simp: List.map_filter_def)
  then have "map node_of_row (List.map_filter id rows) \<noteq> []" by auto
  then have "rs_health (load_nodes_from_db env rs)
      = init_health (re_now env) (map node_of_row (List.map_filter id rows)) (rs_health rs)"
    using assms(1,2) by (simp add: load_nodes_from_db_def Let_def)
  moreover have "sn_id (node_of_row row) = nr_id row" by (simp add: node_of_row_def)
  ultimately show ?thesis using init_health_of [OF row] by metis
qed

definition demo_row :: node_row where
  "demo_row = \<lparr>nr_id = ''n'', nr_name = ''N'', nr_path = ''/n'', nr_priority = 1, nr_type = None, nr_s3_endpoint = None,
     nr_s3_region = None, nr_s3_bucket = None, nr_s3_access_key = None, nr_s3_secret_key = None, nr_s3_use_ssl = None,
     nr_s3_prefix = None\<rparr>"

definition db_env :: repl_env where
  "db_env = local_env\<lparr>re_rows := \<lambda>t. if t = ''t'' then Some [Some demo_row] else None\<rparr>"

theorem reload_forgets_failures_witness:
  "health_of (rs_health (load_nodes_from_db db_env
      \<lparr>rs_nodes = [], rs_health = [(''n'', \<lparr>nh_healthy = False, nh_last_check = 0, nh_failures = 9, nh_available = 0\<rparr>)],
       rs_has_db = True, rs_tenant = ''t''\<rparr>)) ''n'' = fresh_health 0"
  using reload_forgets_failures [of "\<lparr>rs_nodes = [], rs_health = [(''n'', \<lparr>nh_healthy = False, nh_last_check = 0, nh_failures = 9, nh_available = 0\<rparr>)],
       rs_has_db = True, rs_tenant = ''t''\<rparr>" db_env "[Some demo_row]" demo_row]
  by (simp add: db_env_def local_env_def demo_row_def)

section \<open>Checking replicas\<close>

definition copy_on :: "repl_disk \<Rightarrow> string \<Rightarrow> string \<Rightarrow> storage_node \<Rightarrow> bytes option" where
  "copy_on d bucket file node = map_of (rd_files d) (path_join [sn_path node] [bucket, file])"

lemma update_fresh: "k \<notin> set (keys al) \<Longrightarrow> AList.update k v al = al @ [(k, v)]"
  by (induction al) auto

lemma scan_checksums_sums:
  assumes "distinct (map sn_id nodes)" and "set (keys sums) \<inter> sn_id ` set nodes = {}"
  shows "map snd (fst (scan_checksums env d bucket file nodes sums res))
    = map snd sums @ map (re_md5 env) (List.map_filter (copy_on d bucket file) nodes)"
  using assms
proof (induction nodes arbitrary: sums res)
  case Nil
  then show ?case by (simp add: List.map_filter_def)
next
  case (Cons n nodes)
  show ?case
  proof (cases "copy_on d bucket file n")
    case None
    then show ?thesis using Cons by (simp add: copy_on_def List.map_filter_def)
  next
    case (Some data)
    have "sn_id n \<notin> set (keys sums)" using Cons.prems(2) by auto
    note upd = update_fresh [OF this, of "re_md5 env data"]
    have "set (keys (sums @ [(sn_id n, re_md5 env data)])) \<inter> sn_id ` set nodes = {}"
      using Cons.prems by auto
    then show ?thesis
      using Cons.prems(1) Cons.IH [of "sums @ [(sn_id n, re_md5 env data)]"] Some
      by (simp add: copy_on_def List.map_filter_def upd)
  qed
qed

lemma compare_checksums_equal:
  "first \<noteq> [] \<Longrightarrow> fst (compare_checksums cs first res) \<longleftrightarrow> (\<forall>c \<in> set cs. c = first)"
  by (induction cs arbitrary: res) auto

text \<open>
  The consistency check accepts any agreement. \<^verbatim>\<open>VerifyReplication\<close> succeeds exactly when at
  least one node has a readable copy and all readable copies have the same checksum; missing
  copies never make it fail, so one surviving replica of three is a success.
\<close>

theorem verification_accepts_any_agreement:
  assumes "distinct (map sn_id (rs_nodes rs))" and "\<forall>data. re_md5 env data \<noteq> []"
  shows "fst (verify_replication env rs d bucket file) = None \<longleftrightarrow>
    (\<exists>sum. set (map (re_md5 env) (List.map_filter (copy_on d bucket file) (rs_nodes rs))) = {sum})"
proof -
  let ?res = "\<lparr>rr_success = False, rr_replicated = [], rr_failed = [], rr_checksum = [], rr_time = 0,
                 rr_required = 0, rr_actual = 0\<rparr>"
  obtain sums res where scan: "scan_checksums env d bucket file (rs_nodes rs) [] ?res = (sums, res)" by fastforce
  then have sums: "map snd sums = map (re_md5 env) (List.map_filter (copy_on d bucket file) (rs_nodes rs))"
    using scan_checksums_sums [OF assms(1), of "[]" env d bucket "file" ?res]
    by simp
  show ?thesis
  proof (cases "map snd sums")
    case Nil
    then show ?thesis using scan sums by (simp add: verify_replication_def)
  next
    case (Cons c cs)
    then have c: "c \<noteq> []" "sums \<noteq> []" using sums assms(2) by (auto simp: Cons_eq_map_conv)
    obtain ok res' where cmp: "compare_checksums (map snd sums) [] res = (ok, res')" by fastforce
    then have "ok \<longleftrightarrow> (\<forall>c' \<in> set cs. c' = c)"
      using compare_checksums_equal [OF c(1), of cs] Cons by (metis compare_checksums.simps(2) fst_conv)
    moreover have "fst (verify_replication env rs d bucket file) = None \<longleftrightarrow> ok"
      using scan cmp c(2) by (cases ok) (simp_all add: verify_replication_def)
    moreover have "(\<exists>s. set (map snd sums) = {s}) \<longleftrightarrow> (\<forall>c' \<in> set cs. c' = c)" using Cons by auto
    ultimately show ?thesis by (simp only: sums)
  qed
qed

theorem verification_accepts_any_agreement_witness:
  "fst (verify_replication (local_env\<lparr>re_md5 := \<lambda>_. ''x''\<rparr>) local_service
      \<lparr>rd_files = [([''storage'', ''ssd2'', ''securestor'', ''b'', ''f''], [1])], rd_objects = []\<rparr> ''b'' ''f'') = None"
proof -
  let ?env = "local_env\<lparr>re_md5 := \<lambda>_. ''x''\<rparr>"
  let ?d = "\<lparr>rd_files = [([''storage'', ''ssd2'', ''securestor'', ''b'', ''f''], [1])], rd_objects = []\<rparr>"
  have "distinct (map sn_id (rs_nodes local_service))"
    "map (re_md5 ?env) (List.map_filter (copy_on ?d ''b'' ''f'') (rs_nodes local_service)) = [''x'']"
    by code_simp+
  then show ?thesis
    using verification_accepts_any_agreement [of local_service ?env ?d "''b''" "''f''"] by simp
qed

section \<open>Tenants\<close>

definition same_but ::
  "path set \<Rightarrow> (string \<times> string \<times> path) set \<Rightarrow> repl_disk \<Rightarrow> repl_disk \<Rightarrow> bool" where
  "same_but ps os d d' \<longleftrightarrow>
     (\<forall>q. q \<notin> ps \<longrightarrow> map_of (rd_files d') q = map_of (rd_files d) q)
     \<and> (\<forall>k. k \<notin> os \<longrightarrow> map_of (rd_objects d') k = map_of (rd_objects d) k)"

definition node_files :: "string \<Rightarrow> string \<Rightarrow> storage_node list \<Rightarrow> path set" where
  "node_files bucket file nodes =
     (\<lambda>n. replica_path n bucket file) ` set nodes \<union> (\<lambda>n. tmp_path (replica_path n bucket file)) ` set nodes"

definition node_objects :: "string \<Rightarrow> string \<Rightarrow> storage_node list \<Rightarrow> (string \<times> string \<times> path) set" where
  "node_objects bucket file nodes =
     (\<lambda>n. (sn_s3_endpoint n, sn_s3_bucket n, s3_key n bucket file)) ` set nodes"

lemma drop_file_same: "p \<in> ps \<Longrightarrow> same_but ps os d d' \<Longrightarrow> same_but ps os d (drop_file env p d')"
  by (auto simp: same_but_def drop_file_def)

lemma put_file_same: "p \<in> ps \<Longrightarrow> same_but ps os d d' \<Longrightarrow> same_but ps os d (put_file p bs d')"
  by (auto simp: same_but_def put_file_def)

lemma delete_file_same:
  "p \<in> ps \<Longrightarrow> same_but ps os d d' \<Longrightarrow> same_but ps os d (d'\<lparr>rd_files := AList.delete p (rd_files d')\<rparr>)"
  by (auto simp: same_but_def)

lemma same_but_refl [simp]: "same_but ps os d d"
  by (simp add: same_but_def)

lemma local_copy_same:
  "replica_path n bucket file \<in> ps \<Longrightarrow> tmp_path (replica_path n bucket file) \<in> ps \<Longrightarrow>
   same_but ps os d (snd (replicate_to_local env n bucket file bs d))"
  by (simp add: replicate_to_local_def Let_def drop_file_same put_file_same delete_file_same split: option.split)

lemma node_copy_local:
  assumes "n \<in> set nodes"
  shows "same_but (node_files bucket file nodes) (node_objects bucket file nodes) d (snd (replicate_to_node env n bucket file bs d))"
proof -
  have paths: "replica_path n bucket file \<in> node_files bucket file nodes"
    "tmp_path (replica_path n bucket file) \<in> node_files bucket file nodes"
    and obj: "(sn_s3_endpoint n, sn_s3_bucket n, s3_key n bucket file) \<in> node_objects bucket file nodes"
    using assms by (auto simp: node_files_def node_objects_def)
  have "same_but (node_files bucket file nodes) (node_objects bucket file nodes) d (snd (replicate_to_s3 env n bucket file bs d))"
    using obj by (auto simp: same_but_def replicate_to_s3_def)
  with local_copy_same [OF paths] show ?thesis by (simp add: replicate_to_node_def)
qed

lemma fan_step_local:
  assumes "same_but (node_files bucket file nodes) (node_objects bucket file nodes) d (fa_disk st)" and "length (fa_pcs st) = length nodes"
  shows "same_but (node_files bucket file nodes) (node_objects bucket file nodes) d (fa_disk (fan_step env bucket file bs nodes i st))"
proof (cases "i < length nodes \<and> fa_pcs st ! i = Todo")
  case True
  then have "fa_disk (fan_step env bucket file bs nodes i st) = snd (replicate_to_node env (nodes ! i) bucket file bs (fa_disk st))"
    using assms(2) by (simp add: fan_step_def Let_def)
  then show ?thesis
    using assms(1) node_copy_local [of "nodes ! i" nodes bucket "file" "fa_disk st" env bs] True by (simp add: same_but_def)
next
  case False
  then have "fa_disk (fan_step env bucket file bs nodes i st) = fa_disk st"
    using assms(2) by (auto simp: fan_step_def split: fan_pc.splits)
  then show ?thesis using assms(1) by simp
qed

lemma replicate_file_local:
  assumes "replicate_file env schedule bucket file bs rs d = Some (out, rs', d')"
  shows "same_but (node_files bucket file (current_nodes env rs)) (node_objects bucket file (current_nodes env rs)) d d'"
    and "rs_tenant rs' = rs_tenant rs" and "rs_has_db rs' = rs_has_db rs"
proof -
  let ?nodes = "current_nodes env rs"
  let ?h = "rs_health (if rs_has_db rs then load_nodes_from_db env rs else rs)"
  let ?st = "fan_run env bucket file bs ?nodes schedule (fan_init ?nodes ?h d)"
  have "same_but (node_files bucket file ?nodes) (node_objects bucket file ?nodes) d (fa_disk ?st) \<and> length (fa_pcs ?st) = length ?nodes"
    by (rule fan_run_invariant) (simp add: fan_init_def same_but_def, simp add: fan_step_local)
  moreover have "d' = fa_disk ?st" using assms by (auto simp: replicate_file_def Let_def split: if_splits)
  ultimately show "same_but (node_files bucket file ?nodes) (node_objects bucket file ?nodes) d d'" by simp
  have "rs_tenant (load_nodes_from_db env rs) = rs_tenant rs" "rs_has_db (load_nodes_from_db env rs) = rs_has_db rs"
    by (simp_all add: load_nodes_from_db_def Let_def split: option.splits)
  then show "rs_tenant rs' = rs_tenant rs" "rs_has_db rs' = rs_has_db rs"
    using assms by (auto simp: replicate_file_def Let_def split: if_splits)
qed

definition tenant_nodes :: "repl_env \<Rightarrow> bool \<Rightarrow> string \<Rightarrow> storage_node list" where
  "tenant_nodes env has_db tenant = rs_nodes (init_replication_service_with_db env has_db tenant)"

lemma current_tenant_nodes:
  "rs_has_db rs \<Longrightarrow> current_nodes env rs = tenant_nodes env True (rs_tenant rs)"
  by (simp add: tenant_nodes_def init_replication_service_with_db_def load_nodes_from_db_def Let_def split: option.splits)

text \<open>Runs of the front end.\<close>

inductive ur_reachable :: "unified_replicator \<Rightarrow> bool" where
  new: "ur_reachable (new_unified_replicator has_db)"
| replicate: "ur_reachable ur \<Longrightarrow> replicate_artifact env schedule req ur d = Some (out, ur', d') \<Longrightarrow> ur_reachable ur'"
| invalidate: "ur_reachable ur \<Longrightarrow> ur_reachable (invalidate_cache tenant ur)"
| invalidate_all: "ur_reachable ur \<Longrightarrow> ur_reachable (invalidate_all_caches ur)"

definition caches_by_tenant :: "unified_replicator \<Rightarrow> bool" where
  "caches_by_tenant ur \<longleftrightarrow>
     (\<forall>t rs. map_of (ur_caches ur) t = Some rs \<longrightarrow> rs_tenant rs = t \<and> rs_has_db rs = ur_has_db ur)"

lemma load_keeps: "rs_tenant (load_nodes_from_db env rs) = rs_tenant rs" "rs_has_db (load_nodes_from_db env rs) = rs_has_db rs"
  by (simp_all add: load_nodes_from_db_def Let_def split: option.splits)

lemma get_service_coherent:
  assumes "caches_by_tenant ur" and "get_replication_service env t ur = (rs, ur1)"
  shows "caches_by_tenant ur1" and "rs_tenant rs = t" and "rs_has_db rs = ur_has_db ur" and "ur_has_db ur1 = ur_has_db ur"
  using assms by (auto simp: get_replication_service_def caches_by_tenant_def Let_def
      init_replication_service_with_db_def load_keeps split: option.splits if_splits)

lemma ur_invariant: "ur_reachable ur \<Longrightarrow> caches_by_tenant ur"
proof (induction rule: ur_reachable.induct)
  case (replicate ur env schedule req d out ur' d')
  show ?case
  proof (cases "req = None \<or> ur' = ur")
    case True
    then show ?thesis using replicate by (auto simp: replicate_artifact_def)
  next
    case False
    then obtain rq where rq: "req = Some rq" by auto
    obtain rs ur1 where get: "get_replication_service env (rq_tenant rq) ur = (rs, ur1)" by fastforce
    with replicate(2) False rq obtain o' rs' where
      rep: "replicate_file env schedule (rq_bucket rq) (rq_file rq) (rq_data rq) rs d = Some (o', rs', d')"
      and ur': "ur' = ur1\<lparr>ur_caches := AList.update (rq_tenant rq) rs' (ur_caches ur1)\<rparr>"
      by (auto simp: replicate_artifact_def Let_def split: if_splits option.splits)
    show ?thesis
      using get_service_coherent [OF replicate.IH get] replicate_file_local(2,3) [OF rep]
      by (auto simp: ur' caches_by_tenant_def)
  qed
qed (auto simp: caches_by_tenant_def new_unified_replicator_def invalidate_cache_def invalidate_all_caches_def split: if_splits)



end
