(* ===== verification/Failover.thy ===== *)
theory Failover
  imports GoLib
begin

text \<open>
  Database failover (internal/failover/database_failover.go): the two connections, the health
  probes, promotion, demotion, switchover and the monitor loop; and the client of the Patroni
  cluster API (patroni_service.go).
\<close>

section \<open>Connections and probes\<close>

text \<open>
  A \<^verbatim>\<open>*sql.DB\<close> is nil before \<^verbatim>\<open>Initialize\<close>, then open, and closed after \<^verbatim>\<open>Close\<close>; every call
  on a closed one fails, a call on a nil one panics.
\<close>

datatype db_handle = NilDB | OpenDB | ClosedDB

record failover_service =
  fs_primary :: db_handle
  fs_standby :: db_handle
  fs_primary_conn :: string
  fs_standby_conn :: string
  fs_healthy :: bool
  fs_last_check :: time
  fs_failure_count :: int

text \<open>
  How the servers answer during one call: pings, version queries, the lag query
  (\<open>None\<close>: error, \<open>Some None\<close>: NULL, else seconds), \<^verbatim>\<open>pg_promote()\<close>, the statistics query.
\<close>

record standby_stat =
  st_client_addr :: "string option"
  st_user :: "string option"
  st_state :: "string option"
  st_write_lag :: "string option"
  st_flush_lag :: "string option"
  st_replay_lag :: "string option"

record probe =
  pb_primary_ping :: bool
  pb_primary_version :: bool
  pb_standby_ping :: bool
  pb_standby_version :: bool
  pb_lag :: "int option option"
  pb_promote :: bool
  pb_stats :: "standby_stat option list option"
  pb_now :: time

record failover_state =
  st_primary_healthy :: bool
  st_standby_healthy :: bool
  st_lag :: time
  st_last_failover :: time
  st_failover_count :: int
  st_role :: string
  st_in_progress :: bool

datatype failover_error =
    PrimaryOpenFailed
  | PrimaryUnreachable
  | StandbyOpenFailed
  | StandbyUnreachable
  | PromoteFailed
  | NilDereference
  | LagQueryFailed

definition new_failover_service :: "time \<Rightarrow> string \<Rightarrow> string \<Rightarrow> failover_service" where
  "new_failover_service now primary standby = \<lparr>fs_primary = NilDB, fs_standby = NilDB,
     fs_primary_conn = primary, fs_standby_conn = standby, fs_healthy = True, fs_last_check = now, fs_failure_count = 0\<rparr>"

definition initialize_failover ::
  "(string \<Rightarrow> bool) \<Rightarrow> probe \<Rightarrow> failover_service \<Rightarrow> (failover_error + unit) \<times> failover_service" where
  "initialize_failover can_open pb s =
     (if \<not> can_open (fs_primary_conn s) then (Inl PrimaryOpenFailed, s\<lparr>fs_primary := NilDB\<rparr>)
      else let s = s\<lparr>fs_primary := OpenDB\<rparr>
           in if \<not> pb_primary_ping pb then (Inl PrimaryUnreachable, s)
              else if \<not> can_open (fs_standby_conn s) then (Inl StandbyOpenFailed, s\<lparr>fs_standby := NilDB\<rparr>)
              else let s = s\<lparr>fs_standby := OpenDB\<rparr>
                   in if \<not> pb_standby_ping pb then (Inl StandbyUnreachable, s) else (Inr (), s))"

definition check_database_health :: "db_handle \<Rightarrow> bool \<Rightarrow> bool \<Rightarrow> failover_error + bool" where
  "check_database_health db ping version =
     (if db = NilDB then Inl NilDereference
      else if \<not> (db = OpenDB \<and> ping) then Inr False
      else if \<not> version then Inr False
      else Inr True)"

definition lag_of :: "db_handle \<Rightarrow> probe \<Rightarrow> failover_error + time" where
  "lag_of db pb =
     (if db = NilDB then Inl NilDereference
      else if db = ClosedDB then Inl LagQueryFailed
      else case pb_lag pb of
        None \<Rightarrow> Inl LagQueryFailed
      | Some None \<Rightarrow> Inr 0
      | Some (Some n) \<Rightarrow> Inr (wrap64 (n * second)))"

definition get_failover_state :: "probe \<Rightarrow> failover_service \<Rightarrow> failover_error + failover_state" where
  "get_failover_state pb s =
     (case check_database_health (fs_primary s) (pb_primary_ping pb) (pb_primary_version pb) of
        Inl e \<Rightarrow> Inl e
      | Inr p \<Rightarrow>
     (case check_database_health (fs_standby s) (pb_standby_ping pb) (pb_standby_version pb) of
        Inl e \<Rightarrow> Inl e
      | Inr sb \<Rightarrow>
          Inr \<lparr>st_primary_healthy = p, st_standby_healthy = sb,
               st_lag = (case lag_of (fs_primary s) pb of Inl _ \<Rightarrow> 0 | Inr lag \<Rightarrow> lag),
               st_last_failover = pb_now pb, st_failover_count = 0,
               st_role = (if p then ''PRIMARY'' else if sb then ''STANDBY'' else ''UNKNOWN''),
               st_in_progress = False\<rparr>))"

section \<open>Promotion, demotion, switchover\<close>

text \<open>The second component counts the \<^verbatim>\<open>pg_promote()\<close> statements sent to the standby.\<close>

definition exec_promote :: "probe \<Rightarrow> failover_service \<Rightarrow> (failover_error + unit) \<times> nat" where
  "exec_promote pb s =
     (case fs_standby s of
        NilDB \<Rightarrow> (Inl NilDereference, 0)
      | ClosedDB \<Rightarrow> (Inl PromoteFailed, 0)
      | OpenDB \<Rightarrow> (if pb_promote pb then (Inr (), 1) else (Inl PromoteFailed, 1)))"

definition promote_standby :: "probe \<Rightarrow> failover_service \<Rightarrow> (failover_error + unit) \<times> nat \<times> failover_service" where
  "promote_standby pb s =
     (case exec_promote pb s of
        (Inl e, n) \<Rightarrow> (Inl e, n, s)
      | (Inr _, n) \<Rightarrow> (Inr (), n, s\<lparr>fs_failure_count := fs_failure_count s + 1\<rparr>))"

definition close_handle :: "db_handle \<Rightarrow> db_handle" where
  "close_handle db = (if db = NilDB then NilDB else ClosedDB)"

definition demote_primary :: "failover_service \<Rightarrow> (failover_error + unit) \<times> failover_service" where
  "demote_primary s = (Inr (), s\<lparr>fs_primary := close_handle (fs_primary s)\<rparr>)"

definition close_failover :: "failover_service \<Rightarrow> failover_service" where
  "close_failover s = s\<lparr>fs_primary := close_handle (fs_primary s), fs_standby := close_handle (fs_standby s)\<rparr>"

text \<open>
  The wait for the standby to catch up: at most \<open>n\<close> more rounds, \<open>lags\<close> the answers of the lag
  query in turn. The result is the number of one-second sleeps, or \<open>None\<close> for the nil panic.
\<close>

fun wait_for_replication :: "nat \<Rightarrow> (nat \<Rightarrow> probe) \<Rightarrow> db_handle \<Rightarrow> nat option" where
  "wait_for_replication 0 lags db = Some 0"
| "wait_for_replication (Suc n) lags db =
     (case lag_of db (lags 0) of
        Inl NilDereference \<Rightarrow> None
      | Inl _ \<Rightarrow> Some 0
      | Inr lag \<Rightarrow>
          if lag < 100 * millisecond then Some 0
          else map_option Suc (wait_for_replication n (\<lambda>i. lags (Suc i)) db))"

definition switch_primary ::
  "(nat \<Rightarrow> probe) \<Rightarrow> probe \<Rightarrow> failover_service \<Rightarrow> (failover_error + unit) \<times> nat \<times> failover_service" where
  "switch_primary lags pb s =
     (case wait_for_replication 30 lags (fs_primary s) of
        None \<Rightarrow> (Inl NilDereference, 0, s)
      | Some _ \<Rightarrow>
          (case exec_promote pb s of
             (Inl e, n) \<Rightarrow> (Inl e, n, s)
           | (Inr _, n) \<Rightarrow> (Inr (), n, s\<lparr>fs_primary := close_handle (fs_primary s)\<rparr>)))"

record replication_metrics =
  rm_lag :: "int option"
  rm_replicas :: "standby_stat list option"

definition get_replication_metrics :: "probe \<Rightarrow> failover_service \<Rightarrow> failover_error + replication_metrics" where
  "get_replication_metrics pb s =
     (case fs_primary s of
        NilDB \<Rightarrow> Inl NilDereference
      | ClosedDB \<Rightarrow> Inr \<lparr>rm_lag = None, rm_replicas = None\<rparr>
      | OpenDB \<Rightarrow> Inr \<lparr>rm_lag = Option.bind (pb_lag pb) id,
                   rm_replicas = map_option (List.map_filter id) (pb_stats pb)\<rparr>)"

section \<open>The monitor\<close>

record monitor =
  mo_service :: failover_service
  mo_consecutive :: int
  mo_promotions :: nat
  mo_panicked :: bool

definition monitor_start :: "failover_service \<Rightarrow> monitor" where
  "monitor_start s = \<lparr>mo_service = s, mo_consecutive = 0, mo_promotions = 0, mo_panicked = False\<rparr>"

definition monitor_tick :: "time \<Rightarrow> probe \<Rightarrow> monitor \<Rightarrow> monitor" where
  "monitor_tick threshold pb m =
     (if mo_panicked m then m
      else case get_failover_state pb (mo_service m) of
        Inl e \<Rightarrow> m\<lparr>mo_panicked := True\<rparr>
      | Inr st \<Rightarrow>
          (if \<not> st_primary_healthy st \<and> st_standby_healthy st
           then let c = wrap64 (mo_consecutive m + 1)
                in if wrap64 (wrap64 (c * 10) * second) > threshold
                   then case promote_standby pb (mo_service m) of
                       (_, n, s) \<Rightarrow> m\<lparr>mo_service := s, mo_promotions := mo_promotions m + n, mo_consecutive := 0\<rparr>
                   else m\<lparr>mo_consecutive := c\<rparr>
           else m\<lparr>mo_consecutive := 0\<rparr>))"

definition monitor_run :: "time \<Rightarrow> probe list \<Rightarrow> monitor \<Rightarrow> monitor" where
  "monitor_run threshold ticks m = fold (monitor_tick threshold) ticks m"

section \<open>Patroni\<close>

record patroni_member =
  pm_name :: string
  pm_role :: string
  pm_index :: int
  pm_state :: string
  pm_conn_url :: string
  pm_api_url :: string
  pm_host :: string
  pm_port :: int
  pm_lag :: int
  pm_xlog :: string

record patroni_status =
  pst_state :: string
  pst_role :: string
  pst_checksum :: string
  pst_ttl :: int
  pst_scope :: string
  pst_timeline :: int
  pst_members :: "patroni_member list"
  pst_heartbeat :: string
  pst_bootstrap :: bool

record patroni_service =
  pt_api_url :: string
  pt_cluster :: string
  pt_node :: string
  pt_last_status :: "patroni_status option"

text \<open>
  An HTTP answer: none, or a status code with a body that may be unreadable or not parse.
\<close>

datatype 'a http_body = Unreadable | Unparsable | Parsed 'a
datatype 'a http_reply = NoReply | Reply int "'a http_body"

record failover_payload =
  fp_leader :: string
  fp_candidate :: string
  fp_scheduled :: bool

record patroni_api =
  pa_status :: "string \<Rightarrow> patroni_status http_reply"
  pa_cluster :: "string \<Rightarrow> patroni_member list http_reply"
  pa_post :: "string \<Rightarrow> failover_payload \<Rightarrow> int option"

datatype patroni_error = HttpFailed | StatusCode int | BodyUnreadable | BodyUnparsable | NoPrimary

fun http_result :: "'a http_reply \<Rightarrow> patroni_error + 'a" where
  "http_result NoReply = Inl HttpFailed"
| "http_result (Reply code body) =
     (if code \<noteq> 200 then Inl (StatusCode code)
      else case body of Unreadable \<Rightarrow> Inl BodyUnreadable | Unparsable \<Rightarrow> Inl BodyUnparsable | Parsed x \<Rightarrow> Inr x)"

definition get_node_status :: "patroni_api \<Rightarrow> patroni_service \<Rightarrow> (patroni_error + patroni_status) \<times> patroni_service" where
  "get_node_status api ps =
     (case http_result (pa_status api (pt_api_url ps @ ''/status'')) of
        Inl e \<Rightarrow> (Inl e, ps)
      | Inr st \<Rightarrow> (Inr st, ps\<lparr>pt_last_status := Some st\<rparr>))"

definition get_cluster_members :: "patroni_api \<Rightarrow> patroni_service \<Rightarrow> patroni_error + patroni_member list" where
  "get_cluster_members api ps = http_result (pa_cluster api (pt_api_url ps @ ''/cluster''))"

definition post_result :: "int option \<Rightarrow> patroni_error + unit" where
  "post_result reply =
     (case reply of None \<Rightarrow> Inl HttpFailed
      | Some code \<Rightarrow> if code \<noteq> 200 \<and> code \<noteq> 201 then Inl (StatusCode code) else Inr ())"

definition patroni_failover :: "patroni_api \<Rightarrow> string \<Rightarrow> patroni_service \<Rightarrow> patroni_error + unit" where
  "patroni_failover api target ps = post_result (pa_post api (pt_api_url ps @ ''/failover'')
     \<lparr>fp_leader = ''*'', fp_candidate = target, fp_scheduled = False\<rparr>)"

definition patroni_switchover :: "patroni_api \<Rightarrow> string \<Rightarrow> bool \<Rightarrow> patroni_service \<Rightarrow> patroni_error + unit" where
  "patroni_switchover api target scheduled ps = post_result (pa_post api (pt_api_url ps @ ''/switchover'')
     \<lparr>fp_leader = ''*'', fp_candidate = target, fp_scheduled = scheduled\<rparr>)"

definition primary_role :: "string \<Rightarrow> bool" where
  "primary_role r \<longleftrightarrow> r = ''master'' \<or> r = ''primary''"

definition get_primary_node :: "patroni_api \<Rightarrow> patroni_service \<Rightarrow> patroni_error + patroni_member" where
  "get_primary_node api ps =
     (case get_cluster_members api ps of
        Inl e \<Rightarrow> Inl e
      | Inr members \<Rightarrow>
          (case find (\<lambda>m. primary_role (pm_role m)) members of None \<Rightarrow> Inl NoPrimary | Some m \<Rightarrow> Inr m))"

definition get_healthy_standbys :: "patroni_api \<Rightarrow> patroni_service \<Rightarrow> patroni_error + patroni_member list" where
  "get_healthy_standbys api ps =
     (case get_cluster_members api ps of
        Inl e \<Rightarrow> Inl e
      | Inr members \<Rightarrow>
          Inr (filter (\<lambda>m. (pm_role m = ''replica'' \<or> pm_role m = ''standby'') \<and> pm_state m = ''running'') members))"

definition get_last_status :: "patroni_service \<Rightarrow> patroni_status option" where
  "get_last_status ps = pt_last_status ps"

definition is_leader :: "patroni_api \<Rightarrow> patroni_service \<Rightarrow> (patroni_error + bool) \<times> patroni_service" where
  "is_leader api ps =
     (case get_node_status api ps of
        (Inl e, ps) \<Rightarrow> (Inl e, ps)
      | (Inr st, ps) \<Rightarrow> (Inr (primary_role (pst_role st)), ps))"

fun count_members :: "patroni_member list \<Rightarrow> int \<Rightarrow> bool \<Rightarrow> int \<times> bool" where
  "count_members [] healthy found = (healthy, found)"
| "count_members (m # ms) healthy found =
     count_members ms (if pm_state m = ''running'' then healthy + 1 else healthy)
       (if primary_role (pm_role m) then True else found)"

definition get_cluster_health :: "patroni_api \<Rightarrow> patroni_service \<Rightarrow> string \<times> patroni_error option" where
  "get_cluster_health api ps =
     (case get_cluster_members api ps of
        Inl e \<Rightarrow> (''unknown'', Some e)
      | Inr members \<Rightarrow>
          (let (healthy, found) = count_members members 0 False
           in if \<not> found then (''critical'', Some NoPrimary)
              else if healthy < go_quot (int (length members)) 2 then (''degraded'', None)
              else (''healthy'', None)))"

text \<open>One tick of the cluster monitor.\<close>

definition monitor_cluster_tick :: "patroni_api \<Rightarrow> patroni_service \<Rightarrow> patroni_service" where
  "monitor_cluster_tick api ps = snd (get_node_status api ps)"

section \<open>When the monitor promotes\<close>

definition failing :: "failover_service \<Rightarrow> probe \<Rightarrow> bool" where
  "failing s pb \<longleftrightarrow> \<not> (fs_primary s = OpenDB \<and> pb_primary_ping pb \<and> pb_primary_version pb)
     \<and> fs_standby s = OpenDB \<and> pb_standby_ping pb \<and> pb_standby_version pb"

definition connected :: "failover_service \<Rightarrow> bool" where
  "connected s \<longleftrightarrow> fs_primary s \<noteq> NilDB \<and> fs_standby s \<noteq> NilDB"

definition same_handles :: "failover_service \<Rightarrow> failover_service \<Rightarrow> bool" where
  "same_handles s s' \<longleftrightarrow> fs_primary s' = fs_primary s \<and> fs_standby s' = fs_standby s"

lemma promote_handles: "same_handles s (snd (snd (promote_standby pb s)))"
  by (simp add: promote_standby_def same_handles_def split: prod.splits sum.splits)

lemma promote_count: "fs_standby s = OpenDB \<Longrightarrow> fst (snd (promote_standby pb s)) = 1"
  by (simp add: promote_standby_def exec_promote_def)

lemma failover_state_connected:
  "connected s \<Longrightarrow> \<exists>st. get_failover_state pb s = Inr st
     \<and> (\<not> st_primary_healthy st \<and> st_standby_healthy st \<longleftrightarrow> failing s pb)"
  by (auto simp: get_failover_state_def check_database_health_def connected_def failing_def)

lemma monitor_tick_cases:
  assumes "connected (mo_service m)" and "\<not> mo_panicked m" and "0 \<le> mo_consecutive m" and "mo_consecutive m < 2 ^ 29"
  shows "monitor_tick threshold pb m =
    (if failing (mo_service m) pb
     then if (mo_consecutive m + 1) * 10 * second > threshold
          then m\<lparr>mo_service := snd (snd (promote_standby pb (mo_service m))),
                 mo_promotions := mo_promotions m + 1, mo_consecutive := 0\<rparr>
          else m\<lparr>mo_consecutive := mo_consecutive m + 1\<rparr>
     else m\<lparr>mo_consecutive := 0\<rparr>)"
proof -
  obtain st where st: "get_failover_state pb (mo_service m) = Inr st"
    "(\<not> st_primary_healthy st \<and> st_standby_healthy st) = failing (mo_service m) pb"
    using failover_state_connected [OF assms(1)] by blast
  have "wrap64 (mo_consecutive m + 1) = mo_consecutive m + 1"
    "wrap64 ((mo_consecutive m + 1) * 10) = (mo_consecutive m + 1) * 10"
    "wrap64 ((mo_consecutive m + 1) * 10 * second) = (mo_consecutive m + 1) * 10 * second"
    using assms(3,4) by (auto intro!: wrap64_id)
  moreover have "failing (mo_service m) pb \<Longrightarrow> fst (snd (promote_standby pb (mo_service m))) = 1"
    by (rule promote_count) (simp add: failing_def)
  ultimately show ?thesis
    using assms(2) st by (simp add: monitor_tick_def Let_def case_prod_beta)
qed

definition run_length :: "time \<Rightarrow> nat" where
  "run_length threshold = nat (threshold div (10 * second)) + 1"

lemma threshold_ticks: "(c + 1) * 10 * second > threshold \<longleftrightarrow> threshold div (10 * second) < c + 1"
proof -
  have "(c + 1) * 10 * second > threshold \<longleftrightarrow> threshold < (c + 1) * 10000000000" by (simp add: algebra_simps)
  also have "\<dots> \<longleftrightarrow> threshold div 10000000000 < c + 1"
  proof -
    have "threshold div 10000000000 * 10000000000 + threshold mod 10000000000 = threshold"
      "threshold mod 10000000000 < 10000000000" "0 \<le> threshold mod 10000000000" by simp_all
    then show ?thesis by (auto simp: algebra_simps)
  qed
  finally show ?thesis by simp
qed

lemma run_complete:
  "k < run_length threshold \<Longrightarrow> 0 \<le> threshold \<Longrightarrow>
   threshold div (10 * second) < int k + 1 \<longleftrightarrow> Suc k = run_length threshold"
  by (simp add: run_length_def) (rule iffI; linarith)

definition watching :: "time \<Rightarrow> failover_service \<Rightarrow> probe list \<Rightarrow> monitor \<Rightarrow> bool" where
  "watching threshold s ticks m \<longleftrightarrow>
     same_handles s (mo_service m) \<and> \<not> mo_panicked m \<and> 0 \<le> mo_consecutive m
     \<and> mo_consecutive m * 10 * second \<le> threshold
     \<and> (\<exists>pre run. ticks = pre @ run \<and> int (length run) = mo_consecutive m \<and> (\<forall>t \<in> set run. failing s t))"

lemma handles_cong: "same_handles s s' \<Longrightarrow> failing s' = failing s \<and> connected s' = connected s"
  by (auto simp: same_handles_def failing_def connected_def fun_eq_iff)

lemma watching_small: "watching threshold s ticks m \<Longrightarrow> threshold < 2 ^ 62 \<Longrightarrow> mo_consecutive m < 2 ^ 29"
  by (simp add: watching_def)

lemma watching_tick:
  assumes "watching threshold s ticks m" and "connected s" and "0 \<le> threshold" and "threshold < 2 ^ 62"
  shows "watching threshold s (ticks @ [pb]) (monitor_tick threshold pb m)"
proof -
  have same: "same_handles s (mo_service m)" and ok: "\<not> mo_panicked m" "0 \<le> mo_consecutive m"
    using assms(1) by (auto simp: watching_def)
  note f = handles_cong [OF same]
  note tick = monitor_tick_cases [OF _ ok watching_small [OF assms(1,4)], of threshold pb]
  have same': "same_handles s (snd (snd (promote_standby pb (mo_service m))))"
    using same promote_handles [of "mo_service m" pb] by (simp add: same_handles_def)
  obtain pre run where run: "ticks = pre @ run" "int (length run) = mo_consecutive m" "\<forall>t \<in> set run. failing s t"
    using assms(1) by (auto simp: watching_def)
  show ?thesis
  proof (cases "failing s pb \<and> (mo_consecutive m + 1) * 10 * second \<le> threshold")
    case True
    then have m': "monitor_tick threshold pb m = m\<lparr>mo_consecutive := mo_consecutive m + 1\<rparr>" using tick f assms(2) by simp
    have "ticks @ [pb] = pre @ (run @ [pb]) \<and> int (length (run @ [pb])) = mo_consecutive m + 1
        \<and> (\<forall>t \<in> set (run @ [pb]). failing s t)" using run True by auto
    then have "\<exists>pre run. ticks @ [pb] = pre @ run \<and> int (length run) = mo_consecutive m + 1 \<and> (\<forall>t \<in> set run. failing s t)"
      by blast
    then show ?thesis using m' True same ok by (simp add: watching_def)
  next
    case False
    then have m': "mo_consecutive (monitor_tick threshold pb m) = 0" "\<not> mo_panicked (monitor_tick threshold pb m)"
      "same_handles s (mo_service (monitor_tick threshold pb m))"
      using tick f assms(2) same same' ok by (auto simp: not_le)
    moreover have "\<exists>pre run. ticks @ [pb] = pre @ run \<and> int (length run) = 0 \<and> (\<forall>t \<in> set run. failing s t)"
      by (rule exI [of _ "ticks @ [pb]"]) auto
    ultimately show ?thesis using assms(3) by (simp add: watching_def)
  qed
qed

lemma watching_run:
  assumes "connected s" and "0 \<le> threshold" and "threshold < 2 ^ 62"
  shows "watching threshold s ticks (monitor_run threshold ticks (monitor_start s))"
proof (induction ticks rule: rev_induct)
  case Nil
  then show ?case using assms(2) by (simp add: watching_def monitor_run_def monitor_start_def same_handles_def)
next
  case (snoc pb ticks)
  from watching_tick [OF this assms, of pb] show ?case by (simp add: monitor_run_def)
qed

text \<open>
  C13: The monitor promotes only after a full run of failures. If a tick sends a promotion to the
  standby, then the primary was down and the standby up on that tick and on every one of the
  ticks before it, back to the number of ten-second ticks that exceed the threshold.
\<close>

theorem promotion_needs_a_full_run:
  assumes "connected s" and "0 \<le> threshold" and "threshold < 2 ^ 62"
    and "mo_promotions (monitor_run threshold (ticks @ [pb]) (monitor_start s))
       \<noteq> mo_promotions (monitor_run threshold ticks (monitor_start s))"
  shows "\<exists>pre run. ticks @ [pb] = pre @ run \<and> length run = run_length threshold \<and> (\<forall>t \<in> set run. failing s t)"
proof -
  let ?m = "monitor_run threshold ticks (monitor_start s)"
  have w: "watching threshold s ticks ?m" by (rule watching_run [OF assms(1-3)])
  then have same: "same_handles s (mo_service ?m)" and ok: "\<not> mo_panicked ?m" "0 \<le> mo_consecutive ?m"
    and c: "mo_consecutive ?m * 10 * second \<le> threshold" by (auto simp: watching_def)
  obtain pre run where run: "ticks = pre @ run" "int (length run) = mo_consecutive ?m" "\<forall>t \<in> set run. failing s t"
    using w by (auto simp: watching_def)
  have "monitor_run threshold (ticks @ [pb]) (monitor_start s) = monitor_tick threshold pb ?m" by (simp add: monitor_run_def)
  with assms(4) have "failing s pb" "threshold < (mo_consecutive ?m + 1) * 10 * second"
    using monitor_tick_cases [OF _ ok watching_small [OF w assms(3)], of threshold pb] handles_cong [OF same] assms(1)
    by (auto split: if_splits)
  moreover from this(2) have "threshold div (10 * second) < mo_consecutive ?m + 1" by (simp only: threshold_ticks)
  with c have "mo_consecutive ?m = threshold div (10 * second)" by simp
  ultimately have "ticks @ [pb] = pre @ (run @ [pb]) \<and> length (run @ [pb]) = run_length threshold \<and> (\<forall>t \<in> set (run @ [pb]). failing s t)"
    using run by (auto simp: run_length_def)
  then show ?thesis by blast
qed

definition down_probe :: probe where
  "down_probe = \<lparr>pb_primary_ping = False, pb_primary_version = False, pb_standby_ping = True, pb_standby_version = True,
     pb_lag = None, pb_promote = True, pb_stats = None, pb_now = 0\<rparr>"

definition up_service :: failover_service where
  "up_service = (new_failover_service 0 ''p'' ''s'')\<lparr>fs_primary := OpenDB, fs_standby := OpenDB\<rparr>"

theorem promotion_needs_a_full_run_witness:
  "mo_promotions (monitor_run (25 * second) ([down_probe, down_probe] @ [down_probe]) (monitor_start up_service)) = 1
   \<and> (\<exists>pre run. [down_probe, down_probe] @ [down_probe] = pre @ run \<and> length run = 3 \<and> (\<forall>t \<in> set run. failing up_service t))"
proof -
  have p: "mo_promotions (monitor_run (25 * second) ([down_probe, down_probe] @ [down_probe]) (monitor_start up_service)) = 1"
    "mo_promotions (monitor_run (25 * second) [down_probe, down_probe] (monitor_start up_service)) = 0"
    "run_length (25 * second) = 3" by code_simp+
  moreover have "connected up_service" by (simp add: connected_def up_service_def)
  ultimately show ?thesis
    using promotion_needs_a_full_run [of up_service "25 * second" "[down_probe, down_probe]" down_probe] by simp
qed

section \<open>After a switchover\<close>

lemma switched_handles:
  assumes "switch_primary lags pb s = (Inr (), n, s')" and "connected s"
  shows "fs_primary s' = ClosedDB" and "fs_standby s' = OpenDB"
  using assms by (auto simp: switch_primary_def exec_promote_def connected_def close_handle_def
      split: option.splits prod.splits sum.splits db_handle.splits if_splits)

text \<open>
  A switchover makes the monitor promote for ever. \<^verbatim>\<open>SwitchPrimary\<close> closes the connection to
  the old primary and keeps it as the primary, so from then on every tick at which the (promoted)
  standby answers counts as a primary failure: after any number of such ticks the monitor has
  sent one more promotion per full run of failures, without end.
\<close>

theorem switchover_triggers_endless_promotions:
  assumes "switch_primary lags pb s = (Inr (), n, s')" and "connected s" and "0 \<le> threshold" and "threshold < 2 ^ 62"
    and "\<forall>t \<in> set ticks. pb_standby_ping t \<and> pb_standby_version t"
  shows "mo_promotions (monitor_run threshold ticks (monitor_start s')) = length ticks div run_length threshold"
proof -
  note h = switched_handles [OF assms(1,2)]
  have conn: "connected s'" using h by (simp add: connected_def)
  have "mo_promotions m = length ticks div run_length threshold \<and> mo_consecutive m = int (length ticks mod run_length threshold)"
    if "m = monitor_run threshold ticks (monitor_start s')" for m
    using assms(5) that
  proof (induction ticks arbitrary: m rule: rev_induct)
    case Nil
    then show ?case by (simp add: monitor_run_def monitor_start_def)
  next
    case (snoc t ticks)
    let ?m = "monitor_run threshold ticks (monitor_start s')"
    have w: "watching threshold s' ticks ?m" by (rule watching_run [OF conn assms(3,4)])
    then have same: "same_handles s' (mo_service ?m)" and ok: "\<not> mo_panicked ?m" "0 \<le> mo_consecutive ?m"
      by (auto simp: watching_def)
    have IH: "mo_promotions ?m = length ticks div run_length threshold"
      "mo_consecutive ?m = int (length ticks mod run_length threshold)" using snoc by auto
    have "failing s' t" using snoc.prems(1) h by (simp add: failing_def)
    then have tick: "m = (if (mo_consecutive ?m + 1) * 10 * second > threshold
          then ?m\<lparr>mo_service := snd (snd (promote_standby t (mo_service ?m))), mo_promotions := mo_promotions ?m + 1, mo_consecutive := 0\<rparr>
          else ?m\<lparr>mo_consecutive := mo_consecutive ?m + 1\<rparr>)"
      using monitor_tick_cases [OF _ ok watching_small [OF w assms(4)], of threshold t] handles_cong [OF same] conn snoc.prems(2)
      by (simp add: monitor_run_def)
    have lt: "length ticks mod run_length threshold < run_length threshold" by (simp add: run_length_def)
    have "(mo_consecutive ?m + 1) * 10 * second > threshold \<longleftrightarrow> threshold div (10 * second) < mo_consecutive ?m + 1"
      by (rule threshold_ticks)
    also have "\<dots> \<longleftrightarrow> Suc (length ticks mod run_length threshold) = run_length threshold"
      using run_complete [OF lt] IH(2) assms(3) by (simp add: run_length_def)
    finally show ?case using tick IH by (simp add: div_Suc mod_Suc)
  qed
  then show ?thesis by simp
qed

theorem switchover_triggers_endless_promotions_witness:
  "mo_promotions (monitor_run (25 * second) (replicate 7 (down_probe\<lparr>pb_primary_ping := True, pb_primary_version := True\<rparr>))
      (monitor_start (snd (snd (switch_primary (\<lambda>_. down_probe) down_probe up_service))))) = 2"
proof -
  let ?out = "switch_primary (\<lambda>_. down_probe) down_probe up_service"
  have "fst ?out = Inr ()" by code_simp
  then have out: "?out = (Inr (), fst (snd ?out), snd (snd ?out))" by (metis prod.collapse)
  have "connected up_service" by (simp add: connected_def up_service_def)
  moreover have "run_length (25 * second) = 3" by (simp add: run_length_def)
  ultimately show ?thesis
    using switchover_triggers_endless_promotions [OF out, of "25 * second" "replicate 7 (down_probe\<lparr>pb_primary_ping := True, pb_primary_version := True\<rparr>)"]
    by (simp add: down_probe_def)
qed

text \<open>
  The wait of a switchover: \<^verbatim>\<open>pg_last_xact_replay_timestamp()\<close>, asked on the primary, is NULL, so
  it never waits; and when a lag is reported that never falls, it promotes all the same.
\<close>

lemma null_lag_never_waits: "pb_lag (lags 0) = Some None \<Longrightarrow> wait_for_replication (Suc n) lags OpenDB = Some 0"
  by (simp add: lag_of_def)

lemma lag_never_falls:
  "\<forall>i. pb_lag (lags i) = Some (Some k) \<Longrightarrow> 1 \<le> k \<Longrightarrow> k < 2 ^ 33 \<Longrightarrow> wait_for_replication n lags OpenDB = Some n"
proof (induction n arbitrary: lags)
  case (Suc n)
  have "wrap64 (k * second) = k * second" using Suc.prems by (intro wrap64_id) simp_all
  then show ?case using Suc by (simp add: lag_of_def)
qed simp

section \<open>Cluster health\<close>

lemma count_members_spec:
  "count_members ms h f = (h + int (length (filter (\<lambda>m. pm_state m = ''running'') ms)),
     f \<or> (\<exists>m \<in> set ms. primary_role (pm_role m)))"
  by (induction ms arbitrary: h f) auto

text \<open>
  What \<^verbatim>\<open>GetClusterHealth\<close> calls healthy: a member with a primary role exists, running or not,
  and at least half of the members, rounded down, are running. In a cluster of three with a
  registered primary one running member is enough, and a lone primary that is down is healthy.
\<close>

theorem cluster_health_rounds_down:
  "fst (get_cluster_health api ps) = ''healthy'' \<longleftrightarrow>
    (\<exists>members. get_cluster_members api ps = Inr members \<and> (\<exists>m \<in> set members. primary_role (pm_role m))
       \<and> length members div 2 \<le> length (filter (\<lambda>m. pm_state m = ''running'') members))"
proof (cases "get_cluster_members api ps")
  case (Inl e)
  then show ?thesis by (simp add: get_cluster_health_def)
next
  case (Inr members)
  have "go_quot (int (length members)) 2 = int (length members div 2)" by (simp add: go_quot_nonneg zdiv_int)
  then show ?thesis using Inr by (auto simp: get_cluster_health_def count_members_spec)
qed

end
