(* ===== verification/DiskCache.thy ===== *)
theory DiskCache
  imports GoLib
begin

text \<open>
  The disk cache of the proxy (internal/api/storage_l2.go): an index of entries with their data,
  a copy of each entry in two files, least-recently-used eviction by size, and expiry.
  Every operation holds the mutex, so it is one step. \<open>gob\<close> encoding and MD5 are parameters.
\<close>

section \<open>State\<close>

record l2_entry =
  le_key :: string
  le_data :: bytes
  le_size :: int
  le_created :: time
  le_accessed :: time
  le_ttl :: time
  le_hash :: string

record l2_storage =
  l2_max :: int
  l2_entries :: "(string \<times> l2_entry) list"
  l2_usage :: int
  l2_files :: "(path \<times> bytes) list"

text \<open>
  The outside world during one call: clock, encoder, MD5 in hexadecimal of a text and of bytes,
  and the success of file operations (\<open>lv_write p = Some n\<close>: fails after \<open>n\<close> bytes).
  Files are named by their path below the base directory. A cached value is an \<^verbatim>\<open>interface{}\<close>.
\<close>

datatype cached_value = NilValue | BytesValue bytes | TextValue string

record l2_env =
  lv_now :: time
  lv_gob :: "cached_value \<Rightarrow> bytes option"
  lv_md5_key :: "string \<Rightarrow> string"
  lv_md5 :: "bytes \<Rightarrow> string"
  lv_text :: "string \<Rightarrow> bytes"
  lv_mkdir :: "path \<Rightarrow> bool"
  lv_write :: "path \<Rightarrow> nat option"
  lv_remove :: "path \<Rightarrow> bool"

datatype l2_error =
    KeyNotFound string
  | KeyExpired string
  | IntegrityFailed string string
  | SerializeFailed
  | WriteFailed

section \<open>Files\<close>

definition get_data_path :: "l2_env \<Rightarrow> string \<Rightarrow> path" where
  "get_data_path env key = (let h = lv_md5_key env key in [take 2 h, drop 2 h, ''data''])"

definition get_meta_path :: "l2_env \<Rightarrow> string \<Rightarrow> path" where
  "get_meta_path env key = (let h = lv_md5_key env key in [take 2 h, drop 2 h, ''meta''])"

definition write_file :: "l2_env \<Rightarrow> path \<Rightarrow> bytes \<Rightarrow> (path \<times> bytes) list \<Rightarrow> bool \<times> (path \<times> bytes) list" where
  "write_file env p bs files =
     (case lv_write env p of
        None \<Rightarrow> (True, AList.update p bs files)
      | Some n \<Rightarrow> (False, AList.update p (take n bs) files))"

definition remove_file :: "l2_env \<Rightarrow> path \<Rightarrow> (path \<times> bytes) list \<Rightarrow> (path \<times> bytes) list" where
  "remove_file env p files = (if lv_remove env p then AList.delete p files else files)"

definition meta_line :: "l2_entry \<Rightarrow> string" where
  "meta_line e = le_hash e @ ''|'' @ show_int (le_created e div second) @ ''|''
     @ show_int (go_quot (le_ttl e) millisecond) @ ''|'' @ le_key e @ [CHR 0x0A]"

definition write_entry_to_disk :: "l2_env \<Rightarrow> l2_entry \<Rightarrow> l2_storage \<Rightarrow> bool \<times> l2_storage" where
  "write_entry_to_disk env e l2 =
     (if \<not> lv_mkdir env (butlast (get_data_path env (le_key e))) then (False, l2)
      else case write_file env (get_data_path env (le_key e)) (le_data e) (l2_files l2) of
        (False, files) \<Rightarrow> (False, l2\<lparr>l2_files := files\<rparr>)
      | (True, files) \<Rightarrow>
          (case write_file env (get_meta_path env (le_key e)) (lv_text env (meta_line e)) files of
             (ok, files) \<Rightarrow> (ok, l2\<lparr>l2_files := files\<rparr>)))"

definition remove_entry :: "l2_env \<Rightarrow> l2_entry \<Rightarrow> l2_storage \<Rightarrow> l2_storage" where
  "remove_entry env e l2 =
     l2\<lparr>l2_files := remove_file env (get_meta_path env (le_key e))
          (remove_file env (get_data_path env (le_key e)) (l2_files l2))\<rparr>"

section \<open>Operations\<close>

definition entry_expired :: "time \<Rightarrow> l2_entry \<Rightarrow> bool" where
  "entry_expired now e \<longleftrightarrow> le_ttl e > 0 \<and> now - le_created e > le_ttl e"

definition verify_data_integrity :: "l2_env \<Rightarrow> l2_entry \<Rightarrow> l2_error option" where
  "verify_data_integrity env e =
     (if lv_md5 env (le_data e) \<noteq> le_hash e then Some (IntegrityFailed (le_hash e) (lv_md5 env (le_data e))) else None)"

definition drop_entry :: "string \<Rightarrow> l2_storage \<Rightarrow> l2_storage" where
  "drop_entry key l2 = l2\<lparr>l2_entries := AList.delete key (l2_entries l2)\<rparr>"

definition l2_get :: "l2_env \<Rightarrow> string \<Rightarrow> l2_storage \<Rightarrow> (l2_error + bytes) \<times> l2_storage" where
  "l2_get env key l2 =
     (case map_of (l2_entries l2) key of
        None \<Rightarrow> (Inl (KeyNotFound key), l2)
      | Some e \<Rightarrow>
          (if entry_expired (lv_now env) e then (Inl (KeyExpired key), drop_entry key (remove_entry env e l2))
           else let e = e\<lparr>le_accessed := lv_now env\<rparr>;
                    l2 = l2\<lparr>l2_entries := AList.update key e (l2_entries l2)\<rparr>
                in case verify_data_integrity env e of
                     Some err \<Rightarrow> (Inl err, drop_entry key (remove_entry env e l2))
                   | None \<Rightarrow> (Inr (le_data e), l2)))"

fun evict_entries :: "l2_env \<Rightarrow> int \<Rightarrow> int \<Rightarrow> l2_entry list \<Rightarrow> l2_storage \<Rightarrow> l2_storage" where
  "evict_entries env needed freed [] l2 = l2"
| "evict_entries env needed freed (e # es) l2 =
     (if freed \<ge> needed then l2
      else let l2 = remove_entry env e l2;
               l2 = l2\<lparr>l2_usage := l2_usage l2 - le_size e\<rparr>
           in evict_entries env needed (freed + le_size e) es (drop_entry (le_key e) l2))"

text \<open>The order of entries with the same access time is that of the map iteration.\<close>

definition evict_lru :: "l2_env \<Rightarrow> int \<Rightarrow> l2_storage \<Rightarrow> l2_storage" where
  "evict_lru env needed l2 = evict_entries env needed 0 (sort_key le_accessed (map snd (l2_entries l2))) l2"

definition l2_set :: "l2_env \<Rightarrow> string \<Rightarrow> cached_value \<Rightarrow> time \<Rightarrow> l2_storage \<Rightarrow> l2_error option \<times> l2_storage" where
  "l2_set env key data ttl l2 =
     (case lv_gob env data of
        None \<Rightarrow> (Some SerializeFailed, l2)
      | Some bs \<Rightarrow>
          (let size = int (length bs);
               l2 = (if l2_usage l2 + size > l2_max l2 then evict_lru env (l2_usage l2 + size - l2_max l2) l2 else l2);
               e = \<lparr>le_key = key, le_data = bs, le_size = size, le_created = lv_now env, le_accessed = lv_now env,
                    le_ttl = ttl, le_hash = lv_md5 env bs\<rparr>
           in case write_entry_to_disk env e l2 of
                (False, l2) \<Rightarrow> (Some WriteFailed, l2)
              | (True, l2) \<Rightarrow>
                  (let l2 = (case map_of (l2_entries l2) key of
                               None \<Rightarrow> l2
                             | Some old \<Rightarrow> remove_entry env old (l2\<lparr>l2_usage := l2_usage l2 - le_size old\<rparr>))
                   in (None, l2\<lparr>l2_entries := AList.update key e (l2_entries l2), l2_usage := l2_usage l2 + size\<rparr>))))"

definition l2_delete :: "l2_env \<Rightarrow> string \<Rightarrow> l2_storage \<Rightarrow> l2_error option \<times> l2_storage" where
  "l2_delete env key l2 =
     (case map_of (l2_entries l2) key of
        None \<Rightarrow> (Some (KeyNotFound key), l2)
      | Some e \<Rightarrow> (None, drop_entry key ((remove_entry env e l2)\<lparr>l2_usage := l2_usage l2 - le_size e\<rparr>)))"

fun cleanup_entries :: "l2_env \<Rightarrow> (string \<times> l2_entry) list \<Rightarrow> l2_storage \<Rightarrow> l2_storage" where
  "cleanup_entries env [] l2 = l2"
| "cleanup_entries env ((key, e) # es) l2 =
     cleanup_entries env es
       (if entry_expired (lv_now env) e then remove_entry env e (l2\<lparr>l2_usage := l2_usage l2 - le_size e\<rparr>) else l2)"

definition l2_cleanup :: "l2_env \<Rightarrow> l2_storage \<Rightarrow> l2_storage" where
  "l2_cleanup env l2 =
     (let expired = map fst (filter (\<lambda>(key, e). entry_expired (lv_now env) e) (l2_entries l2))
      in fold drop_entry expired (cleanup_entries env (l2_entries l2) l2))"

record l2_stats =
  sz_max :: int
  sz_used :: int
  sz_count :: nat

definition l2_get_stats :: "l2_storage \<Rightarrow> l2_stats" where
  "l2_get_stats l2 = \<lparr>sz_max = l2_max l2, sz_used = l2_usage l2, sz_count = length (l2_entries l2)\<rparr>"

text \<open>
  Recovery at start: every file with the extension \<^verbatim>\<open>.meta\<close> below the base directory.
  \<^verbatim>\<open>filepath.Ext\<close> is the part of the name from its last dot.
\<close>

definition load_entry :: "l2_env \<Rightarrow> path \<Rightarrow> l2_storage \<Rightarrow> l2_storage" where
  "load_entry env p l2 =
     (if \<not> has_suffix (last p) ''.meta'' then l2
      else let rel = join_with ''/'' p; key = take (length rel - 5) rel
           in case map_of (l2_files l2) (get_data_path env key) of
                None \<Rightarrow> l2
              | Some data \<Rightarrow>
                  l2\<lparr>l2_entries := AList.update key
                        \<lparr>le_key = key, le_data = data, le_size = int (length data), le_created = lv_now env,
                         le_accessed = lv_now env, le_ttl = 0, le_hash = lv_md5 env data\<rparr> (l2_entries l2),
                     l2_usage := l2_usage l2 + int (length data)\<rparr>)"

definition load_entries_from_disk :: "l2_env \<Rightarrow> l2_storage \<Rightarrow> l2_storage" where
  "load_entries_from_disk env l2 = fold (load_entry env) (keys (l2_files l2)) l2"

definition new_l2_storage :: "l2_env \<Rightarrow> int \<Rightarrow> (path \<times> bytes) list \<Rightarrow> l2_storage option" where
  "new_l2_storage env max_bytes files =
     (if \<not> lv_mkdir env [] then None
      else Some (load_entries_from_disk env \<lparr>l2_max = max_bytes, l2_entries = [], l2_usage = 0, l2_files = files\<rparr>))"

section \<open>Well-formed indexes and the size they hold\<close>

definition l2_wf :: "l2_storage \<Rightarrow> bool" where
  "l2_wf l2 \<longleftrightarrow> distinct (keys (l2_entries l2))
     \<and> (\<forall>(k, e) \<in> set (l2_entries l2). le_key e = k \<and> 0 \<le> le_size e)"

definition held :: "(string \<times> l2_entry) list \<Rightarrow> int" where
  "held es = (\<Sum>(k, e) \<leftarrow> es. le_size e)"

definition size_at :: "string \<Rightarrow> (string \<times> l2_entry) list \<Rightarrow> int" where
  "size_at k es = (case map_of es k of None \<Rightarrow> 0 | Some e \<Rightarrow> le_size e)"

lemma held_simps [simp]: "held [] = 0" "held ((k, e) # es) = le_size e + held es"
  by (simp_all add: held_def)

lemma delete_fresh: "k \<notin> fst ` set es \<Longrightarrow> AList.delete k es = es"
  by (induction es) auto

lemma update_fresh_append: "k \<notin> fst ` set es \<Longrightarrow> AList.update k e es = es @ [(k, e)]"
  by (induction es) auto

lemma held_append [simp]: "held (xs @ ys) = held xs + held ys"
  by (induction xs) auto

lemma held_delete: "distinct (keys es) \<Longrightarrow> held (AList.delete k es) = held es - size_at k es"
proof (induction es)
  case (Cons x es)
  obtain k' e where x: "x = (k', e)" by (cases x)
  show ?case
  proof (cases "k' = k")
    case True
    then show ?thesis using Cons.prems x by (simp add: size_at_def delete_fresh)
  next
    case False
    then show ?thesis using Cons x by (simp add: size_at_def)
  qed
qed (simp add: size_at_def)

lemma held_update: "distinct (keys es) \<Longrightarrow> held (AList.update k e es) = held es - size_at k es + le_size e"
proof (induction es)
  case (Cons x es)
  obtain k' e' where "x = (k', e')" by (cases x)
  with Cons show ?case by (auto simp: size_at_def)
qed (simp add: size_at_def)

lemma wf_entry: "l2_wf l2 \<Longrightarrow> map_of (l2_entries l2) k = Some e \<Longrightarrow> le_key e = k \<and> 0 \<le> le_size e"
  by (auto simp: l2_wf_def dest: map_of_SomeD)

lemma wf_held: "l2_wf l2 \<Longrightarrow> 0 \<le> held (l2_entries l2)"
  by (auto simp: held_def l2_wf_def intro!: sum_list_nonneg)

lemma wf_size_at: "l2_wf l2 \<Longrightarrow> 0 \<le> size_at k (l2_entries l2)"
  by (auto simp: size_at_def dest: wf_entry split: option.splits)

text \<open>Bytes the counter still charges for entries that are gone.\<close>

definition leaked :: "l2_storage \<Rightarrow> int" where
  "leaked l2 = l2_usage l2 - held (l2_entries l2)"

lemma remove_entry_simps [simp]:
  "l2_entries (remove_entry env e l2) = l2_entries l2" "l2_usage (remove_entry env e l2) = l2_usage l2"
  "l2_max (remove_entry env e l2) = l2_max l2"
  by (simp_all add: remove_entry_def)

lemma drop_entry_simps [simp]:
  "l2_entries (drop_entry k l2) = AList.delete k (l2_entries l2)" "l2_usage (drop_entry k l2) = l2_usage l2"
  "l2_max (drop_entry k l2) = l2_max l2" "l2_files (drop_entry k l2) = l2_files l2"
  by (simp_all add: drop_entry_def)

lemma wf_drop: "l2_wf l2 \<Longrightarrow> l2_entries l2' = AList.delete k (l2_entries l2) \<Longrightarrow> l2_wf l2'"
  using set_delete_subset [of k "l2_entries l2"] by (auto simp: l2_wf_def)

lemma wf_put: "l2_wf l2 \<Longrightarrow> le_key e = k \<Longrightarrow> 0 \<le> le_size e \<Longrightarrow> l2_entries l2' = AList.update k e (l2_entries l2) \<Longrightarrow> l2_wf l2'"
  using set_update_subset [of k e "l2_entries l2"] by (auto simp: l2_wf_def)

section \<open>Eviction\<close>

definition evicted_from :: "l2_storage \<Rightarrow> int \<Rightarrow> l2_entry list \<Rightarrow> l2_storage \<Rightarrow> bool" where
  "evicted_from l2 needed es l2' \<longleftrightarrow>
     l2_wf l2' \<and> leaked l2' = leaked l2 \<and> l2_max l2' = l2_max l2
     \<and> (l2_usage l2' + needed \<le> l2_usage l2 \<or> (\<forall>e \<in> set es. map_of (l2_entries l2') (le_key e) = None))
     \<and> (\<forall>k. k \<notin> le_key ` set es \<longrightarrow> map_of (l2_entries l2') k = map_of (l2_entries l2) k)"

lemma evict_entries_spec:
  "l2_wf l2 \<Longrightarrow> \<forall>e \<in> set es. map_of (l2_entries l2) (le_key e) = Some e \<Longrightarrow> distinct (map le_key es) \<Longrightarrow>
   evicted_from l2 (needed - freed) es (evict_entries env needed freed es l2)"
proof (induction es arbitrary: freed l2)
  case Nil
  then show ?case by (simp add: evicted_from_def)
next
  case (Cons e es)
  let ?l2 = "drop_entry (le_key e) ((remove_entry env e l2)\<lparr>l2_usage := l2_usage l2 - le_size e\<rparr>)"
  have wf: "l2_wf ?l2" using Cons.prems(1) by (rule wf_drop) simp
  have at_e: "map_of (l2_entries l2) (le_key e) = Some e"
    and at_es: "\<And>x. x \<in> set es \<Longrightarrow> map_of (l2_entries l2) (le_key x) = Some x"
    using Cons.prems(2) by (meson list.set_intros)+
  have fresh: "le_key e \<notin> le_key ` set es" and dist: "distinct (map le_key es)" using Cons.prems(3) by simp_all
  have at: "\<forall>x \<in> set es. map_of (l2_entries ?l2) (le_key x) = Some x"
    using at_es fresh by (metis drop_entry_simps(1) fun_upd_other image_eqI l2_storage.select_convs(2) l2_storage.surjective l2_storage.update_convs(3) map_of_delete remove_entry_simps(1))
  have e: "size_at (le_key e) (l2_entries l2) = le_size e" "distinct (keys (l2_entries l2))"
    using Cons.prems(1) at_e by (simp_all add: size_at_def l2_wf_def)
  have "leaked ?l2 = leaked l2" by (simp add: leaked_def held_delete e)
  note leak = this
  define out where "out = evict_entries env needed (freed + le_size e) es ?l2"
  have IH: "evicted_from ?l2 (needed - (freed + le_size e)) es out"
    unfolding out_def by (intro Cons.IH wf at dist)
  have "evicted_from l2 (needed - freed) (e # es) out"
    unfolding evicted_from_def
  proof (intro conjI allI impI)
    show "l2_wf out" "leaked out = leaked l2" "l2_max out = l2_max l2"
      using IH leak by (simp_all add: evicted_from_def)
    have "map_of (l2_entries out) (le_key e) = None"
      using IH fresh by (simp add: evicted_from_def)
    then show "l2_usage out + (needed - freed) \<le> l2_usage l2 \<or> (\<forall>x \<in> set (e # es). map_of (l2_entries out) (le_key x) = None)"
      using IH by (auto simp: evicted_from_def)
    show "map_of (l2_entries out) k = map_of (l2_entries l2) k" if "k \<notin> le_key ` set (e # es)" for k
      using IH that by (simp add: evicted_from_def)
  qed
  moreover have "evict_entries env needed freed (e # es) l2 = (if freed \<ge> needed then l2 else out)"
    by (simp add: out_def Let_def)
  moreover have "freed \<ge> needed \<Longrightarrow> evicted_from l2 (needed - freed) (e # es) l2"
    using Cons.prems(1) by (simp add: evicted_from_def)
  ultimately show ?case by simp
qed

lemma evict_lru_spec:
  assumes "l2_wf l2"
  shows "l2_wf (evict_lru env needed l2)" and "leaked (evict_lru env needed l2) = leaked l2"
    and "l2_max (evict_lru env needed l2) = l2_max l2"
    and "l2_usage (evict_lru env needed l2) + needed \<le> l2_usage l2 \<or> l2_entries (evict_lru env needed l2) = []"
proof -
  let ?es = "sort_key le_accessed (map snd (l2_entries l2))"
  have k: "map (le_key \<circ> snd) (l2_entries l2) = keys (l2_entries l2)"
    using assms by (auto simp: l2_wf_def)
  have d: "distinct (map (le_key \<circ> snd) (l2_entries l2))" unfolding k using assms by (simp add: l2_wf_def)
  have "map_of (l2_entries l2) (le_key e) = Some e" if "e \<in> set ?es" for e
    using that assms by (force simp: l2_wf_def)
  moreover have "distinct (map le_key ?es)"
    using d distinct_map [of le_key "map snd (l2_entries l2)"] distinct_map [of le_key ?es]
    by simp
  ultimately have es: "\<forall>e \<in> set ?es. map_of (l2_entries l2) (le_key e) = Some e" "distinct (map le_key ?es)" by auto
  note spec = evict_entries_spec [OF assms es, of needed 0 env, unfolded evicted_from_def]
  show "l2_wf (evict_lru env needed l2)" "leaked (evict_lru env needed l2) = leaked l2"
    "l2_max (evict_lru env needed l2) = l2_max l2"
    using spec by (simp_all add: evict_lru_def)
  have "map_of (l2_entries (evict_lru env needed l2)) q = None"
    if "\<forall>e \<in> set ?es. map_of (l2_entries (evict_lru env needed l2)) (le_key e) = None" for q
  proof (cases "q \<in> le_key ` set ?es")
    case True
    then show ?thesis using that by auto
  next
    case False
    then have "q \<notin> set (keys (l2_entries l2))" using k by (metis image_set list.map_comp set_sort)
    then have "map_of (l2_entries l2) q = None" by (simp add: map_of_eq_None_iff)
    then show ?thesis using spec False by (simp add: evict_lru_def)
  qed
  then show "l2_usage (evict_lru env needed l2) + needed \<le> l2_usage l2 \<or> l2_entries (evict_lru env needed l2) = []"
    using spec unfolding evict_lru_def by (metis all_not_in_conv diff_zero image_is_empty map_of_eq_None_iff set_empty)
qed

section \<open>Operations and the size held\<close>

lemma write_entry_simps:
  "write_entry_to_disk env e l2 = (ok, l2') \<Longrightarrow>
   l2_entries l2' = l2_entries l2 \<and> l2_usage l2' = l2_usage l2 \<and> l2_max l2' = l2_max l2"
  by (auto simp: write_entry_to_disk_def split: if_splits prod.splits bool.splits)

lemma l2_set_spec:
  assumes "l2_wf l2" and "l2_set env key v ttl l2 = (err, l2')"
  shows "l2_wf l2' \<and> leaked l2' = leaked l2 \<and> l2_max l2' = l2_max l2
    \<and> (err = None \<longrightarrow> (\<exists>bs e. lv_gob env v = Some bs \<and> le_size e = int (length bs)
        \<and> map_of (l2_entries l2') key = Some e
        \<and> held (l2_entries l2') + min 0 (leaked l2) \<le> max (l2_max l2) (int (length bs))
        \<and> (l2_max l2 \<le> leaked l2 \<longrightarrow> bs \<noteq> [] \<longrightarrow> l2_entries l2' = [(key, e)])))"
proof (cases "lv_gob env v")
  case None
  then show ?thesis using assms by (auto simp: l2_set_def)
next
  case (Some bs)
  let ?size = "int (length bs)"
  define l1 where "l1 = (if l2_usage l2 + ?size > l2_max l2 then evict_lru env (l2_usage l2 + ?size - l2_max l2) l2 else l2)"
  define e where "e = \<lparr>le_key = key, le_data = bs, le_size = ?size, le_created = lv_now env, le_accessed = lv_now env,
                    le_ttl = ttl, le_hash = lv_md5 env bs\<rparr>"
  have l1: "l2_wf l1" "leaked l1 = leaked l2" "l2_max l1 = l2_max l2"
    "l2_usage l1 + ?size \<le> l2_max l2 \<or> l2_entries l1 = []"
    using assms(1) evict_lru_spec [OF assms(1), of env "l2_usage l2 + ?size - l2_max l2"] by (auto simp: l1_def)
  have full: "l2_entries l1 = []" if "l2_max l2 \<le> leaked l2" "bs \<noteq> []"
  proof -
    have "0 < int (length bs)" using that(2) by simp
    moreover have "0 \<le> held (l2_entries l1)" by (rule wf_held [OF l1(1)])
    ultimately show ?thesis using l1(2,4) that(1) unfolding leaked_def by linarith
  qed
  obtain ok l3 where w: "write_entry_to_disk env e l1 = (ok, l3)" by fastforce
  note f = write_entry_simps [OF w]
  have wf3: "l2_wf l3" using l1(1) f by (simp add: l2_wf_def)
  show ?thesis
  proof (cases ok)
    case False
    then show ?thesis using assms Some w wf3 f l1 by (auto simp: l2_set_def l1_def e_def leaked_def Let_def)
  next
    case True
    let ?es = "AList.update key e (l2_entries l1)"
    have out: "err = None" "l2_entries l2' = ?es" "l2_max l2' = l2_max l2"
      "l2_usage l2' = l2_usage l1 - size_at key (l2_entries l1) + ?size"
      using assms(2) Some w True f l1
      by (auto simp: l2_set_def l1_def [symmetric] e_def [symmetric] Let_def size_at_def split: option.splits)
    have d: "distinct (keys (l2_entries l1))" using l1(1) by (simp add: l2_wf_def)
    have held': "held (l2_entries l2') = held (l2_entries l1) - size_at key (l2_entries l1) + ?size"
      using held_update [OF d, of key e] out by (simp add: e_def)
    have wf': "l2_wf l2'" using wf_put [OF l1(1), of e key l2'] out by (simp add: e_def)
    have leak': "leaked l2' = leaked l2" using held' out l1(2) by (simp add: leaked_def)
    have bound: "held (l2_entries l2') + min 0 (leaked l2) \<le> max (l2_max l2) ?size"
    proof (cases "l2_entries l1 = []")
      case True
      then show ?thesis using held' by (simp add: size_at_def)
    next
      case False
      then have "l2_usage l1 + ?size \<le> l2_max l2" using l1(4) by simp
      moreover have "held (l2_entries l1) + leaked l2 = l2_usage l1" using l1(2) by (simp add: leaked_def)
      ultimately show ?thesis using held' wf_size_at [OF l1(1), of key] by simp
    qed
    have "map_of (l2_entries l2') key = Some e" using out by simp
    moreover have "l2_max l2 \<le> leaked l2 \<longrightarrow> bs \<noteq> [] \<longrightarrow> l2_entries l2' = [(key, e)]"
      using full out(2) by auto
    moreover have "le_size e = ?size" by (simp add: e_def)
    ultimately show ?thesis using Some wf' leak' out(3) bound by blast
  qed
qed

lemma l2_get_spec:
  assumes "l2_wf l2" and "l2_get env key l2 = (res, l2')"
  shows "l2_wf l2' \<and> l2_max l2' = l2_max l2 \<and> l2_usage l2' = l2_usage l2
    \<and> leaked l2' = leaked l2 + (if map_of (l2_entries l2') key = None then size_at key (l2_entries l2) else 0)"
proof (cases "map_of (l2_entries l2) key")
  case None
  then show ?thesis using assms by (simp add: l2_get_def size_at_def)
next
  case (Some e)
  note e = wf_entry [OF assms(1) Some]
  have d: "distinct (keys (l2_entries l2))" using assms(1) by (simp add: l2_wf_def)
  let ?e = "e\<lparr>le_accessed := lv_now env\<rparr>"
  let ?touched = "l2\<lparr>l2_entries := AList.update key ?e (l2_entries l2)\<rparr>"
  have t: "l2_wf ?touched" using e by (intro wf_put [OF assms(1)]) simp_all
  have h: "held (AList.update key ?e (l2_entries l2)) = held (l2_entries l2)" using held_update [OF d, of key ?e] Some by (simp add: size_at_def)
  have gone: "held (AList.delete key (AList.update key ?e (l2_entries l2))) = held (l2_entries l2) - le_size e"
    using held_delete [of "AList.update key ?e (l2_entries l2)" key] d h by (simp add: size_at_def)
  show ?thesis
  proof (cases "entry_expired (lv_now env) e")
    case True
    then have "l2' = drop_entry key (remove_entry env e l2)" using assms(2) Some by (simp add: l2_get_def)
    then show ?thesis using wf_drop [OF assms(1), of l2' key] held_delete [OF d, of key] by (simp add: leaked_def)
  next
    case False
    show ?thesis
    proof (cases "verify_data_integrity env ?e")
      case None
      then have "l2' = ?touched" using False assms(2) Some by (simp add: l2_get_def Let_def)
      then show ?thesis using t h by (simp add: leaked_def)
    next
      case (Some err)
      then have l2': "l2' = drop_entry key (remove_entry env ?e ?touched)"
        using False assms(2) \<open>map_of (l2_entries l2) key = Some e\<close> by (simp add: l2_get_def Let_def)
      then show ?thesis
        using wf_drop [OF t, of l2' key] gone \<open>map_of (l2_entries l2) key = Some e\<close> by (simp add: leaked_def size_at_def)
    qed
  qed
qed

lemma l2_delete_spec:
  assumes "l2_wf l2" and "l2_delete env key l2 = (err, l2')"
  shows "l2_wf l2' \<and> leaked l2' = leaked l2 \<and> l2_max l2' = l2_max l2"
proof (cases "map_of (l2_entries l2) key")
  case None
  then show ?thesis using assms by (simp add: l2_delete_def)
next
  case (Some e)
  have "distinct (keys (l2_entries l2))" using assms(1) by (simp add: l2_wf_def)
  note h = held_delete [OF this, of key]
  show ?thesis
    using Some assms h wf_drop [OF assms(1), of l2' key] by (auto simp: l2_delete_def leaked_def size_at_def)
qed

lemma held_split: "held (filter P es) + held (filter (\<lambda>x. \<not> P x) es) = held es"
  by (induction es) auto

lemma fold_drop_entries: "l2_entries (fold drop_entry ks l2) = filter (\<lambda>(k, _). k \<notin> set ks) (l2_entries l2)"
proof (induction ks arbitrary: l2)
  case (Cons k ks)
  have "filter (\<lambda>(k', _). k' \<notin> set ks) (AList.delete k es) = filter (\<lambda>(k', _). k' \<notin> set (k # ks)) es" for es :: "(string \<times> l2_entry) list"
    by (induction es) auto
  then show ?case using Cons by simp
qed simp

lemma fold_drop_keeps: "l2_usage (fold drop_entry ks l2) = l2_usage l2 \<and> l2_max (fold drop_entry ks l2) = l2_max l2"
  by (induction ks arbitrary: l2) auto

lemma cleanup_entries_spec:
  "l2_entries (cleanup_entries env es l2) = l2_entries l2 \<and> l2_max (cleanup_entries env es l2) = l2_max l2
   \<and> l2_usage (cleanup_entries env es l2) = l2_usage l2 - held (filter (\<lambda>(k, e). entry_expired (lv_now env) e) es)"
  by (induction env es l2 rule: cleanup_entries.induct) auto

lemma l2_cleanup_spec:
  assumes "l2_wf l2"
  shows "l2_wf (l2_cleanup env l2) \<and> leaked (l2_cleanup env l2) = leaked l2 \<and> l2_max (l2_cleanup env l2) = l2_max l2"
proof -
  let ?old = "\<lambda>(k, e). entry_expired (lv_now env) e"
  let ?es = "l2_entries l2"
  have "filter (\<lambda>(k, _). k \<notin> set (map fst (filter ?old ?es))) ?es = filter (\<lambda>x. \<not> ?old x) ?es"
  proof (rule filter_cong)
    fix x assume x: "x \<in> set ?es"
    have "\<And>y. y \<in> set ?es \<Longrightarrow> fst y = fst x \<Longrightarrow> y = x"
      using assms x unfolding l2_wf_def by (metis eq_key_imp_eq_value prod.collapse)
    then show "(case x of (k, _) \<Rightarrow> k \<notin> set (map fst (filter ?old ?es))) = (\<not> ?old x)"
      using x by (auto simp: image_iff split: prod.splits)
  qed simp
  then have es: "l2_entries (l2_cleanup env l2) = filter (\<lambda>x. \<not> ?old x) ?es"
    by (simp add: l2_cleanup_def fold_drop_entries cleanup_entries_spec)
  moreover have "l2_usage (l2_cleanup env l2) = l2_usage l2 - held (filter ?old ?es)" "l2_max (l2_cleanup env l2) = l2_max l2"
    by (simp_all add: l2_cleanup_def fold_drop_keeps cleanup_entries_spec)
  moreover have "l2_wf (l2_cleanup env l2)" using assms es by (auto simp: l2_wf_def)
  ultimately show ?thesis using held_split [of ?old ?es] by (simp add: leaked_def)
qed

section \<open>Runs\<close>

text \<open>
  The states of a cache that starts on an empty directory, with any interleaving of calls and any
  behaviour of the disk and the clock.
\<close>

inductive l2_reachable :: "l2_storage \<Rightarrow> bool" where
  new: "new_l2_storage env max_bytes [] = Some l2 \<Longrightarrow> l2_reachable l2"
| get: "l2_reachable l2 \<Longrightarrow> l2_get env key l2 = (res, l2') \<Longrightarrow> l2_reachable l2'"
| set: "l2_reachable l2 \<Longrightarrow> l2_set env key v ttl l2 = (err, l2') \<Longrightarrow> l2_reachable l2'"
| delete: "l2_reachable l2 \<Longrightarrow> l2_delete env key l2 = (err, l2') \<Longrightarrow> l2_reachable l2'"
| cleanup: "l2_reachable l2 \<Longrightarrow> l2_reachable (l2_cleanup env l2)"

lemma reachable_accounting: "l2_reachable l2 \<Longrightarrow> l2_wf l2 \<and> 0 \<le> leaked l2"
proof (induction rule: l2_reachable.induct)
  case (new env max_bytes l2)
  then show ?case
    by (auto simp: new_l2_storage_def load_entries_from_disk_def l2_wf_def leaked_def split: if_splits)
next
  case (get l2 env key res l2')
  then have "0 \<le> size_at key (l2_entries l2)" by (intro wf_size_at) simp
  with get l2_get_spec [of l2 env key res l2'] show ?case by (auto split: if_splits)
next
  case (set l2 env key v ttl err l2')
  then show ?case using l2_set_spec [of l2 env key v ttl err l2'] by simp
next
  case (delete l2 env key err l2')
  then show ?case using l2_delete_spec [of l2 env key err l2'] by simp
next
  case (cleanup l2 env)
  then show ?case using l2_cleanup_spec [of l2 env] by simp
qed

text \<open>
  C12: The disk cache respects its size limit. In every reachable state, after a successful
  \<^verbatim>\<open>Set\<close> the entries together hold at most the configured maximum, or only the new value when
  that alone is larger; eviction, replacement, expiry, failed writes and earlier accounting
  errors never break the bound.
\<close>

theorem disk_cache_within_limit:
  assumes "l2_reachable l2" and "l2_set env key v ttl l2 = (None, l2')" and "lv_gob env v = Some bs"
  shows "held (l2_entries l2') \<le> max (l2_max l2) (int (length bs))"
  using l2_set_spec [OF _ assms(2)] reachable_accounting [OF assms(1)] assms(3) by auto

definition disk_env :: "l2_env" where
  "disk_env = \<lparr>lv_now = 100, lv_gob = (\<lambda>v. case v of BytesValue b \<Rightarrow> Some b | _ \<Rightarrow> None), lv_md5_key = (\<lambda>k. ''00'' @ k), lv_md5 = (\<lambda>_. ''h''),
     lv_text = map (\<lambda>c. of_nat (of_char c)), lv_mkdir = (\<lambda>_. True), lv_write = (\<lambda>_. None), lv_remove = (\<lambda>_. True)\<rparr>"

definition empty_cache :: l2_storage where
  "empty_cache = \<lparr>l2_max = 3, l2_entries = [], l2_usage = 0, l2_files = []\<rparr>"

lemma empty_cache_reachable: "l2_reachable empty_cache"
  by (rule l2_reachable.new [of disk_env 3])
    (simp add: new_l2_storage_def disk_env_def load_entries_from_disk_def empty_cache_def)

theorem disk_cache_within_limit_witness:
  "held (l2_entries (snd (l2_set disk_env ''b'' (BytesValue [4, 5]) 0 (snd (l2_set disk_env ''a'' (BytesValue [1, 2]) 0 empty_cache))))) \<le> 3"
proof -
  let ?l = "snd (l2_set disk_env ''a'' (BytesValue [1, 2]) 0 empty_cache)"
  have "fst (l2_set disk_env ''b'' (BytesValue [4, 5]) 0 ?l) = None" "l2_max ?l = 3" by code_simp+
  then have out: "l2_set disk_env ''b'' (BytesValue [4, 5]) 0 ?l = (None, snd (l2_set disk_env ''b'' (BytesValue [4, 5]) 0 ?l))" by (metis prod.collapse)
  have "l2_reachable ?l" using l2_reachable.set [OF empty_cache_reachable] by (metis prod.collapse)
  from disk_cache_within_limit [OF this out, of "[4, 5]"] \<open>l2_max ?l = 3\<close> show ?thesis by (simp add: disk_env_def)
qed

text \<open>
  Expired and corrupted entries are charged for ever: \<^verbatim>\<open>Get\<close> removes them without lowering the
  usage counter.
\<close>

lemma expired_get_leaks:
  assumes "l2_wf l2" and "map_of (l2_entries l2) key = Some e" and "entry_expired (lv_now env) e"
  shows "leaked (snd (l2_get env key l2)) = leaked l2 + le_size e"
proof -
  have "snd (l2_get env key l2) = drop_entry key (remove_entry env e l2)"
    using assms by (simp add: l2_get_def)
  moreover have "distinct (keys (l2_entries l2))" using assms(1) by (simp add: l2_wf_def)
  ultimately show ?thesis using held_delete [of "l2_entries l2" key] assms(2) by (simp add: leaked_def size_at_def)
qed

text \<open>
  Leaked usage disables the cache for good. Once the bytes charged for entries that \<^verbatim>\<open>Get\<close>
  dropped reach the configured maximum, every further successful \<^verbatim>\<open>Set\<close> of a non-empty value
  leaves exactly one entry, the one just set, and the leak remains.
\<close>

theorem leaked_usage_disables_cache:
  assumes "l2_reachable l2" and "l2_max l2 \<le> leaked l2"
    and "l2_set env key v ttl l2 = (None, l2')" and "lv_gob env v \<noteq> Some []"
  shows "map fst (l2_entries l2') = [key] \<and> l2_max l2' \<le> leaked l2'"
  using l2_set_spec [OF _ assms(3)] reachable_accounting [OF assms(1)] assms(2,4) by auto

theorem leaked_usage_disables_cache_witness:
  "map fst (l2_entries (snd (l2_set (disk_env\<lparr>lv_now := 300\<rparr>) ''c'' (BytesValue [4]) 0
     (snd (l2_get (disk_env\<lparr>lv_now := 200\<rparr>) ''a'' (snd (l2_set disk_env ''a'' (BytesValue [1, 2, 3]) 10 empty_cache))))))) = [''c'']"
proof -
  let ?l1 = "snd (l2_set disk_env ''a'' (BytesValue [1, 2, 3]) 10 empty_cache)"
  let ?l2 = "snd (l2_get (disk_env\<lparr>lv_now := 200\<rparr>) ''a'' ?l1)"
  let ?out = "l2_set (disk_env\<lparr>lv_now := 300\<rparr>) ''c'' (BytesValue [4]) 0 ?l2"
  have "fst ?out = None" and full: "l2_max ?l2 \<le> leaked ?l2" by code_simp+
  then have out: "?out = (None, snd ?out)" by (metis prod.collapse)
  have "l2_reachable ?l1" using l2_reachable.set [OF empty_cache_reachable] by (metis prod.collapse)
  then have "l2_reachable ?l2" using l2_reachable.get by (metis prod.collapse)
  from leaked_usage_disables_cache [OF this full out] show ?thesis by (simp add: disk_env_def)
qed

section \<open>The copy on disk\<close>

definition good_names :: "(path \<times> bytes) list \<Rightarrow> bool" where
  "good_names files \<longleftrightarrow> (\<forall>(p, _) \<in> set files. last p \<in> {''data'', ''meta''})"

definition cache_file_names :: "l2_storage \<Rightarrow> bool" where
  "cache_file_names l2 \<longleftrightarrow> good_names (l2_files l2)"

lemma last_paths [simp]: "last (get_data_path env key) = ''data''" "last (get_meta_path env key) = ''meta''"
  by (simp_all add: get_data_path_def get_meta_path_def Let_def)

lemma good_names_update: "good_names files \<Longrightarrow> last p \<in> {''data'', ''meta''} \<Longrightarrow> good_names (AList.update p bs files)"
  using set_update_subset [of p bs files] by (auto simp: good_names_def)

lemma good_names_remove: "good_names files \<Longrightarrow> good_names (remove_file env p files)"
  using set_delete_subset [of p files] by (auto simp: good_names_def remove_file_def)

lemma good_names_write: "write_file env p bs files = (ok, files') \<Longrightarrow> good_names files \<Longrightarrow> last p \<in> {''data'', ''meta''} \<Longrightarrow> good_names files'"
  by (auto simp: write_file_def good_names_update split: option.splits)

lemma remove_entry_names: "cache_file_names l2 \<Longrightarrow> cache_file_names (remove_entry env e l2)"
  by (simp add: cache_file_names_def remove_entry_def good_names_remove)

lemma write_entry_names: "write_entry_to_disk env e l2 = (ok, l2') \<Longrightarrow> cache_file_names l2 \<Longrightarrow> cache_file_names l2'"
  by (auto simp: write_entry_to_disk_def cache_file_names_def split: if_splits prod.splits bool.splits)
    (metis good_names_write insertCI last_paths)+

lemma names_of_files: "l2_files l2' = l2_files l2 \<Longrightarrow> cache_file_names l2' = cache_file_names l2"
  by (simp add: cache_file_names_def)

lemma drop_entry_names [simp]: "cache_file_names (drop_entry k l2) = cache_file_names l2"
  by (rule names_of_files) simp

lemma evict_entries_names: "cache_file_names l2 \<Longrightarrow> cache_file_names (evict_entries env needed freed es l2)"
proof (induction env needed freed es l2 rule: evict_entries.induct)
  case (2 env needed freed e es l2)
  have "cache_file_names ((remove_entry env e l2)\<lparr>l2_usage := u\<rparr>)" for u
    using remove_entry_names [OF 2(2)] by (simp add: cache_file_names_def)
  then show ?case using 2 by (simp add: Let_def)
qed simp

lemma cleanup_entries_names: "cache_file_names l2 \<Longrightarrow> cache_file_names (cleanup_entries env es l2)"
proof (induction env es l2 rule: cleanup_entries.induct)
  case (2 env key e es l2)
  have "cache_file_names (remove_entry env e (l2\<lparr>l2_usage := u\<rparr>))" for u
    using 2(2) by (intro remove_entry_names) (simp add: cache_file_names_def)
  then show ?case using 2 by simp
qed simp

lemma fold_drop_names: "cache_file_names (fold drop_entry ks l2) = cache_file_names l2"
  by (induction ks arbitrary: l2) auto

lemma l2_set_names:
  assumes "cache_file_names l2" and "l2_set env key v ttl l2 = (err, l2')"
  shows "cache_file_names l2'"
proof (cases "lv_gob env v")
  case None
  then show ?thesis using assms by (simp add: l2_set_def)
next
  case (Some bs)
  define l1 where "l1 = (if l2_usage l2 + int (length bs) > l2_max l2 then evict_lru env (l2_usage l2 + int (length bs) - l2_max l2) l2 else l2)"
  define e where "e = \<lparr>le_key = key, le_data = bs, le_size = int (length bs), le_created = lv_now env, le_accessed = lv_now env,
                    le_ttl = ttl, le_hash = lv_md5 env bs\<rparr>"
  obtain ok l3 where w: "write_entry_to_disk env e l1 = (ok, l3)" by fastforce
  have "cache_file_names l1" using assms(1) by (simp add: l1_def evict_lru_def evict_entries_names)
  then have n3: "cache_file_names l3" by (rule write_entry_names [OF w])
  have rem: "cache_file_names (remove_entry env old (l3\<lparr>l2_usage := u\<rparr>))" for old u
    using n3 by (intro remove_entry_names) (simp add: cache_file_names_def)
  show ?thesis
  proof (cases ok)
    case False
    then show ?thesis using assms(2) Some w n3 by (auto simp: l2_set_def l1_def [symmetric] e_def [symmetric] Let_def)
  next
    case True
    then have "l2_files l2' = l2_files (case map_of (l2_entries l3) key of None \<Rightarrow> l3
        | Some old \<Rightarrow> remove_entry env old (l3\<lparr>l2_usage := l2_usage l3 - le_size old\<rparr>))"
      using assms(2) Some w by (auto simp: l2_set_def l1_def [symmetric] e_def [symmetric] Let_def)
    then have "cache_file_names l2' = cache_file_names (case map_of (l2_entries l3) key of None \<Rightarrow> l3
        | Some old \<Rightarrow> remove_entry env old (l3\<lparr>l2_usage := l2_usage l3 - le_size old\<rparr>))"
      by (rule names_of_files)
    then show ?thesis using n3 rem by (simp split: option.splits)
  qed
qed

lemma l2_get_names:
  assumes "cache_file_names l2" and "l2_get env key l2 = (res, l2')"
  shows "cache_file_names l2'"
proof -
  have "cache_file_names (remove_entry env e (l2\<lparr>l2_entries := es\<rparr>))" for e es
    using assms(1) by (intro remove_entry_names) (simp add: cache_file_names_def)
  moreover have "cache_file_names (l2\<lparr>l2_entries := es\<rparr>)" for es using assms(1) by (simp add: cache_file_names_def)
  ultimately show ?thesis
    using assms remove_entry_names [OF assms(1)]
    by (auto simp: l2_get_def Let_def split: option.splits if_splits)
qed

lemma reachable_file_names: "l2_reachable l2 \<Longrightarrow> cache_file_names l2"
proof (induction rule: l2_reachable.induct)
  case (new env max_bytes l2)
  then show ?case
    by (auto simp: new_l2_storage_def load_entries_from_disk_def cache_file_names_def good_names_def split: if_splits)
next
  case (delete l2 env key err l2')
  have "cache_file_names ((remove_entry env e l2)\<lparr>l2_usage := u\<rparr>)" for e u
    using remove_entry_names [OF delete.IH] by (simp add: cache_file_names_def)
  then show ?case using delete by (auto simp: l2_delete_def split: option.splits)
next
  case (cleanup l2 env)
  then show ?case by (simp add: l2_cleanup_def fold_drop_names cleanup_entries_names)
qed (auto intro: l2_get_names l2_set_names)

text \<open>
  A restart loses the disk cache. Whatever was cached, a new instance on the same directory
  starts with an empty index: recovery looks for files with the extension \<^verbatim>\<open>.meta\<close>, while the
  cache names them \<^verbatim>\<open>meta\<close>. The old files stay and are charged to nobody.
\<close>

theorem restart_loses_the_cache:
  assumes "l2_reachable l2" and "new_l2_storage env max_bytes (l2_files l2) = Some l2'"
  shows "l2_entries l2' = [] \<and> l2_usage l2' = 0 \<and> l2_files l2' = l2_files l2"
proof -
  have step: "fold (load_entry env) ps l = l" if "\<forall>p \<in> set ps. last p \<in> {''data'', ''meta''}" for ps l
    using that
  proof (induction ps)
    case (Cons p ps)
    then have "\<not> has_suffix (last p) ''.meta''" by (auto simp: has_suffix_def)
    then have "load_entry env p l = l" by (simp add: load_entry_def)
    then show ?case using Cons by simp
  qed simp
  have "\<forall>p \<in> set (keys (l2_files l2)). last p \<in> {''data'', ''meta''}"
    using reachable_file_names [OF assms(1)] by (auto simp: cache_file_names_def good_names_def)
  from step [OF this] show ?thesis
    using assms(2) by (auto simp: new_l2_storage_def load_entries_from_disk_def split: if_splits)
qed

theorem restart_loses_the_cache_witness:
  "map_option l2_entries (new_l2_storage disk_env 3 (l2_files (snd (l2_set disk_env ''a'' (BytesValue [1, 2]) 0 empty_cache)))) = Some []"
proof -
  let ?l = "snd (l2_set disk_env ''a'' (BytesValue [1, 2]) 0 empty_cache)"
  have "l2_reachable ?l" using l2_reachable.set [OF empty_cache_reachable] by (metis prod.collapse)
  moreover obtain l2' where "new_l2_storage disk_env 3 (l2_files ?l) = Some l2'"
    by (simp add: new_l2_storage_def disk_env_def)
  ultimately show ?thesis using restart_loses_the_cache by fastforce
qed

text \<open>
  Overwriting a cached key deletes its copy on disk. When \<^verbatim>\<open>Set\<close> replaces an entry without
  an eviction, the new data file is written and then removed again with the old entry, whose
  files have the same names: the key is served from memory only.
\<close>

theorem overwriting_deletes_the_disk_copy:
  assumes "l2_reachable l2" and "map_of (l2_entries l2) key = Some old"
    and "l2_set env key v ttl l2 = (None, l2')" and "lv_gob env v = Some bs"
    and "l2_usage l2 + int (length bs) \<le> l2_max l2" and "\<forall>p. lv_remove env p"
  shows "map_of (l2_files l2') (get_data_path env key) = None \<and> map_of (l2_files l2') (get_meta_path env key) = None"
proof -
  let ?e = "\<lparr>le_key = key, le_data = bs, le_size = int (length bs), le_created = lv_now env, le_accessed = lv_now env,
                    le_ttl = ttl, le_hash = lv_md5 env bs\<rparr>"
  obtain ok l3 where w: "write_entry_to_disk env ?e l2 = (ok, l3)" by fastforce
  have "map_of (l2_entries l3) key = Some old" using write_entry_simps [OF w] assms(2) by simp
  moreover have "le_key old = key" using wf_entry assms(2) reachable_accounting [OF assms(1)] by blast
  moreover have "get_data_path env key \<noteq> get_meta_path env key" by (simp add: get_data_path_def get_meta_path_def Let_def)
  ultimately show ?thesis
    using assms(3-6) w by (cases ok) (auto simp: l2_set_def Let_def remove_entry_def remove_file_def)
qed

theorem overwriting_deletes_the_disk_copy_witness:
  "let l2 = snd (l2_set disk_env ''a'' (BytesValue [1]) 0 empty_cache)
   in map_of (l2_files l2) [''00'', ''a'', ''data''] = Some [1]
    \<and> map_of (l2_files (snd (l2_set disk_env ''a'' (BytesValue [2]) 0 l2))) [''00'', ''a'', ''data''] = None"
proof -
  let ?l = "snd (l2_set disk_env ''a'' (BytesValue [1]) 0 empty_cache)"
  let ?out = "l2_set disk_env ''a'' (BytesValue [2]) 0 ?l"
  have reach: "l2_reachable ?l" using l2_reachable.set [OF empty_cache_reachable] by (metis prod.collapse)
  have "fst ?out = None" "map_of (l2_files ?l) [''00'', ''a'', ''data''] = Some [1]"
    "map_of (l2_entries ?l) ''a'' \<noteq> None" "l2_usage ?l + 1 \<le> l2_max ?l" by code_simp+
  moreover from this(3) obtain old where "map_of (l2_entries ?l) ''a'' = Some old" by auto
  moreover from calculation(1) have "?out = (None, snd ?out)" by (metis prod.collapse)
  ultimately show ?thesis
    using overwriting_deletes_the_disk_copy [OF reach, of "''a''" old disk_env "BytesValue [2]" 0 "snd ?out" "[2]"]
    by (simp add: disk_env_def get_data_path_def)
qed

end
