(* ===== verification/Scanning.thy ===== *)
theory Scanning
  imports Complex_Main GoLib "HOL-Library.Multiset" "HOL-Library.Product_Lexorder" "HOL-Library.List_Lexorder" "HOL-Library.Char_ord"
begin

text \<open>
  The scan pipeline (internal/scanner): the registry of scanners and workflows (registry.go), the
  parallel execution with retries (executor.go), the aggregation of the findings (aggregator.go)
  and the pipeline that connects them (pipeline.go).
\<close>

section \<open>Findings and results\<close>

record vulnerability =
  vu_id :: string
  vu_cve :: string
  vu_severity :: string
  vu_title :: string
  vu_description :: string
  vu_package :: string
  vu_version :: string
  vu_fixed_in :: string
  vu_references :: "string list"
  vu_cvss :: rat

record vulnerability_summary =
  su_critical :: int
  su_high :: int
  su_medium :: int
  su_low :: int
  su_total :: int

text \<open>Floating-point numbers (scores and durations in seconds) are rationals.\<close>

record scan_result =
  sr_scanner :: string
  sr_version :: string
  sr_type :: string
  sr_vulnerabilities :: "vulnerability list"
  sr_summary :: vulnerability_summary
  sr_duration :: rat

record aggregated_result =
  ag_path :: string
  ag_type :: string
  ag_workflow :: string
  ag_vulnerabilities :: "vulnerability list"
  ag_summary :: vulnerability_summary
  ag_results :: "scan_result list"
  ag_total :: int
  ag_successful :: int
  ag_failed :: int
  ag_duration :: time
  ag_timestamp :: time

text \<open>
  A scanner is a program outside the repository: its name and types, whether its binary is
  there, and the reply of each attempt (\<open>ScanNil\<close>: neither result nor error).
\<close>

datatype scan_reply = ScanOk scan_result | ScanNil | ScanErr string

record scanner =
  sc_name :: string
  sc_types :: "string list"
  sc_available :: bool
  sc_scan :: "nat \<Rightarrow> scan_reply"

datatype scan_error =
    AlreadyRegistered string
  | ScannerUnavailable string
  | WorkflowNotFound string
  | NoWorkflowForType string
  | PathRequired
  | TypeRequired
  | NoScanners
  | ScannerFailed string int "string option"
  | AllScannersFailed "scan_error list"
  | NilResult

section \<open>Registry\<close>

record workflow_config =
  wf_name :: string
  wf_types :: "string list"
  wf_scanners :: "string list"
  wf_parallel :: bool
  wf_timeout :: string
  wf_priority :: "string list"

record scanner_registry =
  reg_scanners :: "(string \<times> scanner) list"
  reg_workflows :: "(string \<times> workflow_config) list"

definition default_workflows :: "workflow_config list" where
  "default_workflows =
    [\<lparr>wf_name = ''python'', wf_types = [''pypi'', ''python'', ''wheel'', ''sdist''],
      wf_scanners = [''Syft/Grype'', ''OSV-Scanner (SBOM-based CVE)'', ''OWASP Dep-Scan'', ''Bandit'', ''TruffleHog Secret Scanner''],
      wf_parallel = True, wf_timeout = ''5m'', wf_priority = [''Bandit'', ''Syft/Grype'', ''OWASP Dep-Scan'']\<rparr>,
     \<lparr>wf_name = ''docker'', wf_types = [''docker''],
      wf_scanners = [''Docker/OCI Manifest Scanner (Syft+Grype+Trivy)'', ''Syft/Grype'', ''Trivy OS/Container Scanner'', ''TruffleHog Secret Scanner''],
      wf_parallel = True, wf_timeout = ''10m'', wf_priority = [''Trivy OS/Container Scanner'', ''Syft/Grype'']\<rparr>,
     \<lparr>wf_name = ''maven'', wf_types = [''maven''],
      wf_scanners = [''Syft/Grype'', ''OSV-Scanner (SBOM-based CVE)'', ''OWASP Dep-Scan'', ''TruffleHog Secret Scanner''],
      wf_parallel = True, wf_timeout = ''5m'', wf_priority = [''Syft/Grype'', ''OWASP Dep-Scan'']\<rparr>,
     \<lparr>wf_name = ''npm'', wf_types = [''npm'', ''nodejs'', ''javascript''],
      wf_scanners = [''NPM Package Scanner (OWASP dep-scan + Blint)'', ''Syft/Grype'', ''OSV-Scanner (SBOM-based CVE)'', ''TruffleHog Secret Scanner''],
      wf_parallel = True, wf_timeout = ''5m'', wf_priority = [''NPM Package Scanner (OWASP dep-scan + Blint)'', ''Syft/Grype'']\<rparr>,
     \<lparr>wf_name = ''generic'', wf_types = [''generic''], wf_scanners = [''TruffleHog Secret Scanner''],
      wf_parallel = False, wf_timeout = ''2m'', wf_priority = [''TruffleHog Secret Scanner'']\<rparr>]"

definition register_workflow :: "workflow_config \<Rightarrow> scanner_registry \<Rightarrow> scanner_registry" where
  "register_workflow w r = r\<lparr>reg_workflows := AList.update (wf_name w) w (reg_workflows r)\<rparr>"

definition initialize_default_workflows :: "scanner_registry \<Rightarrow> scanner_registry" where
  "initialize_default_workflows r = fold register_workflow default_workflows r"

definition new_scanner_registry :: scanner_registry where
  "new_scanner_registry = initialize_default_workflows \<lparr>reg_scanners = [], reg_workflows = []\<rparr>"

definition register_scanner :: "scanner \<Rightarrow> scanner_registry \<Rightarrow> scan_error option \<times> scanner_registry" where
  "register_scanner s r =
     (if map_of (reg_scanners r) (sc_name s) \<noteq> None then (Some (AlreadyRegistered (sc_name s)), r)
      else if \<not> sc_available s then (Some (ScannerUnavailable (sc_name s)), r)
      else (None, r\<lparr>reg_scanners := AList.update (sc_name s) s (reg_scanners r)\<rparr>))"

definition get_scanners_for_type :: "string \<Rightarrow> scanner_registry \<Rightarrow> scanner list" where
  "get_scanners_for_type t r =
     filter (\<lambda>s. list_ex (\<lambda>st. st = t \<or> st = ''generic'') (sc_types s)) (map snd (reg_scanners r))"

definition get_scanners_by_workflow :: "string \<Rightarrow> scanner_registry \<Rightarrow> scan_error + scanner list" where
  "get_scanners_by_workflow name r =
     (case map_of (reg_workflows r) name of
        None \<Rightarrow> Inl (WorkflowNotFound name)
      | Some w \<Rightarrow> Inr (List.map_filter (map_of (reg_scanners r)) (wf_scanners w)))"

definition get_workflow_for_type :: "string \<Rightarrow> scanner_registry \<Rightarrow> workflow_config option" where
  "get_workflow_for_type t r =
     (case find (\<lambda>w. t \<in> set (wf_types w)) (map snd (reg_workflows r)) of
        Some w \<Rightarrow> Some w
      | None \<Rightarrow> map_of (reg_workflows r) ''generic'')"

definition get_scanners_by_artifact_type :: "string \<Rightarrow> scanner_registry \<Rightarrow> scan_error + scanner list" where
  "get_scanners_by_artifact_type t r =
     (case get_workflow_for_type t r of
        None \<Rightarrow> Inl (NoWorkflowForType t)
      | Some w \<Rightarrow> get_scanners_by_workflow (wf_name w) r)"

section \<open>Execution\<close>

record scan_options =
  op_fail_fast :: bool
  op_retry_count :: int
  op_skip_unavailable :: bool
  op_priority :: "string list"

record scan_request =
  sq_path :: string
  sq_type :: string
  sq_workflow :: string
  sq_scanners :: "scanner list"
  sq_concurrency :: int
  sq_timeout :: time
  sq_options :: scan_options

record execution_result =
  er_scanner :: string
  er_result :: "scan_result option"
  er_error :: "scan_error option"

text \<open>
  The context of a run: whether it is cancelled after attempt \<open>n\<close> of scanner \<open>i\<close>, and whether
  it is cancelled during the wait before the next one.
\<close>

record scan_context =
  cx_done_after :: "nat \<Rightarrow> nat \<Rightarrow> bool"
  cx_done_waiting :: "nat \<Rightarrow> nat \<Rightarrow> bool"

text \<open>
  \<open>todo\<close> attempts are left, \<open>n\<close> is the number of the next one, \<open>err\<close> the last error. The
  \<^verbatim>\<open>break\<close> of the \<^verbatim>\<open>select\<close> in the wait leaves the \<^verbatim>\<open>select\<close>, not the loop: it only replaces
  the last error.
\<close>

fun attempt_scan :: "scan_context \<Rightarrow> nat \<Rightarrow> scanner \<Rightarrow> nat \<Rightarrow> nat \<Rightarrow> string option \<Rightarrow> (string option) + scan_result option" where
  "attempt_scan cx i s 0 n err = Inl err"
| "attempt_scan cx i s (Suc todo) n err =
     (case sc_scan s n of
        ScanOk r \<Rightarrow> Inr (Some r)
      | ScanNil \<Rightarrow> Inr None
      | ScanErr e \<Rightarrow>
          if cx_done_after cx i n then Inl (Some e)
          else if todo \<noteq> 0 \<and> cx_done_waiting cx i n then attempt_scan cx i s todo (Suc n) (Some ''context canceled'')
          else attempt_scan cx i s todo (Suc n) (Some e))"

definition execute_single_scanner :: "scan_context \<Rightarrow> nat \<Rightarrow> scanner \<Rightarrow> scan_request \<Rightarrow> execution_result" where
  "execute_single_scanner cx i s req =
     (if \<not> sc_available s
      then \<lparr>er_scanner = sc_name s, er_result = None, er_error = Some (ScannerUnavailable (sc_name s))\<rparr>
      else let retries = op_retry_count (sq_options req);
               max_retries = (if retries = 0 then 1 else retries)
           in case attempt_scan cx i s (nat max_retries) 1 None of
                Inr r \<Rightarrow> \<lparr>er_scanner = sc_name s, er_result = r, er_error = None\<rparr>
              | Inl e \<Rightarrow> \<lparr>er_scanner = sc_name s, er_result = None,
                           er_error = Some (ScannerFailed (sc_name s) max_retries e)\<rparr>)"

text \<open>
  The collecting loop over the results in the order in which they arrive. \<open>None\<close>: the nil
  dereference of a result that is neither a result nor an error.
\<close>

fun collect_results ::
  "bool \<Rightarrow> execution_result list \<Rightarrow> scan_result list \<Rightarrow> scan_error list \<Rightarrow> (scan_result list \<times> scan_error list) option" where
  "collect_results fail_fast [] results errors = Some (results, errors)"
| "collect_results fail_fast (er # ers) results errors =
     (case er_error er of
        Some e \<Rightarrow>
          if fail_fast then Some (results, errors @ [e])
          else collect_results fail_fast ers results (errors @ [e])
      | None \<Rightarrow>
          (case er_result er of
             None \<Rightarrow> None
           | Some r \<Rightarrow> collect_results fail_fast ers (results @ [r]) errors))"

text \<open>\<open>order\<close> is the order in which the scanners finish, as indices.\<close>

definition parallel_execute ::
  "scan_context \<Rightarrow> nat list \<Rightarrow> scan_request \<Rightarrow> scanner list \<Rightarrow> scan_error + scan_result list" where
  "parallel_execute cx order req scanners =
     (if scanners = [] then Inl NoScanners
      else case collect_results (op_fail_fast (sq_options req))
                  (map (\<lambda>i. execute_single_scanner cx i (scanners ! i) req) order) [] [] of
        None \<Rightarrow> Inl NilResult
      | Some (results, errors) \<Rightarrow>
          if results = [] \<and> errors \<noteq> [] \<and> \<not> op_skip_unavailable (sq_options req)
          then Inl (AllScannersFailed errors) else Inr results)"

section \<open>Aggregation\<close>

definition vulnerability_key :: "vulnerability \<Rightarrow> string" where
  "vulnerability_key v =
     (if vu_cve v \<noteq> [] then vu_cve v else vu_package v @ ''|'' @ vu_id v @ ''|'' @ vu_title v)"

fun dedupe_onto :: "string list \<Rightarrow> vulnerability list \<Rightarrow> vulnerability list" where
  "dedupe_onto seen [] = []"
| "dedupe_onto seen (v # vs) =
     (let key = vulnerability_key v
      in if key \<in> set seen then dedupe_onto seen vs else v # dedupe_onto (key # seen) vs)"

definition deduplicate_vulnerabilities :: "vulnerability list \<Rightarrow> vulnerability list" where
  "deduplicate_vulnerabilities vs = dedupe_onto [] vs"

definition empty_summary :: vulnerability_summary where
  "empty_summary = \<lparr>su_critical = 0, su_high = 0, su_medium = 0, su_low = 0, su_total = 0\<rparr>"

definition count_vulnerability :: "vulnerability \<Rightarrow> vulnerability_summary \<Rightarrow> vulnerability_summary" where
  "count_vulnerability v s =
     (let s = s\<lparr>su_total := su_total s + 1\<rparr>
      in if vu_severity v = ''CRITICAL'' then s\<lparr>su_critical := su_critical s + 1\<rparr>
         else if vu_severity v = ''HIGH'' then s\<lparr>su_high := su_high s + 1\<rparr>
         else if vu_severity v = ''MEDIUM'' then s\<lparr>su_medium := su_medium s + 1\<rparr>
         else if vu_severity v = ''LOW'' then s\<lparr>su_low := su_low s + 1\<rparr>
         else s)"

definition calculate_summary :: "vulnerability list \<Rightarrow> vulnerability_summary" where
  "calculate_summary vs = fold count_vulnerability vs empty_summary"

definition severity_priority :: "string \<Rightarrow> int" where
  "severity_priority s =
     (if s = ''CRITICAL'' then 4 else if s = ''HIGH'' then 3 else if s = ''MEDIUM'' then 2 else if s = ''LOW'' then 1 else 0)"

text \<open>
  The order of the comparison function: higher severity first, then higher score, then the
  CVE identifier. Findings equal in all three may come in any order; the model keeps theirs.
\<close>

datatype vuln_rank = Rank (rk_priority: int) (rk_cvss: rat) (rk_cve: string)

definition rank_key :: "vuln_rank \<Rightarrow> int \<times> rat \<times> string" where
  "rank_key r = (- rk_priority r, - rk_cvss r, rk_cve r)"

lemma rank_key_inj: "rank_key a = rank_key b \<longleftrightarrow> a = b"
  by (cases a; cases b) (auto simp: rank_key_def)

instantiation vuln_rank :: linorder
begin

definition less_eq_vuln_rank :: "vuln_rank \<Rightarrow> vuln_rank \<Rightarrow> bool" where
  "a \<le> b \<longleftrightarrow> rank_key a \<le> rank_key b"

definition less_vuln_rank :: "vuln_rank \<Rightarrow> vuln_rank \<Rightarrow> bool" where
  "a < b \<longleftrightarrow> rank_key a < rank_key b"

instance
proof
  fix a b c :: vuln_rank
  show "a < b \<longleftrightarrow> a \<le> b \<and> \<not> b \<le> a" 
    unfolding less_eq_vuln_rank_def less_vuln_rank_def by (rule less_le_not_le)
  show "a \<le> a" by (simp add: less_eq_vuln_rank_def)
  show "a \<le> b \<Longrightarrow> b \<le> c \<Longrightarrow> a \<le> c" by (auto simp: less_eq_vuln_rank_def)
  show "a = b" if "a \<le> b" "b \<le> a"
  proof -
    have "rank_key a = rank_key b" using that unfolding less_eq_vuln_rank_def by (rule antisym)
    then show ?thesis by (rule rank_key_inj [THEN iffD1])
  qed
  show "a \<le> b \<or> b \<le> a" by (auto simp: less_eq_vuln_rank_def)
qed

end

definition vulnerability_rank :: "vulnerability \<Rightarrow> vuln_rank" where
  "vulnerability_rank v = Rank (severity_priority (vu_severity v)) (vu_cvss v) (vu_cve v)"

definition sort_vulnerabilities :: "vulnerability list \<Rightarrow> vulnerability list" where
  "sort_vulnerabilities vs = sort_key vulnerability_rank vs"

definition truncate_rat :: "rat \<Rightarrow> int" where
  "truncate_rat r = (if 0 \<le> r then floor r else - floor (- r))"

definition aggregate :: "time \<Rightarrow> scan_result list \<Rightarrow> aggregated_result" where
  "aggregate now results =
     (let all = concat (map sr_vulnerabilities results);
          unique = deduplicate_vulnerabilities all
      in \<lparr>ag_path = [], ag_type = [], ag_workflow = [],
          ag_vulnerabilities = sort_vulnerabilities unique,
          ag_summary = calculate_summary unique,
          ag_results = results, ag_total = int (length results), ag_successful = int (length results), ag_failed = 0,
          ag_duration = sum_list (map (\<lambda>r. truncate_rat (sr_duration r * 1000000000)) results), ag_timestamp = now\<rparr>)"

definition severity_level :: "string \<Rightarrow> int" where
  "severity_level s =
     (if s = ''INFO'' then 1 else if s = ''LOW'' then 2 else if s = ''MEDIUM'' then 3
      else if s = ''HIGH'' then 4 else if s = ''CRITICAL'' then 5 else 0)"

definition filter_by_severity :: "vulnerability list \<Rightarrow> string \<Rightarrow> vulnerability list" where
  "filter_by_severity vs min_severity =
     (let min_level = severity_level min_severity
      in if min_level = 0 then vs else filter (\<lambda>v. severity_level (vu_severity v) \<ge> min_level) vs)"

definition vulnerabilities_by_scanner :: "scan_result list \<Rightarrow> (string \<times> vulnerability list) list" where
  "vulnerabilities_by_scanner results =
     fold (\<lambda>r. AList.update (sr_scanner r) (sr_vulnerabilities r)) results []"

section \<open>The pipeline\<close>

definition validate_request :: "scan_request \<Rightarrow> scan_error + scan_request" where
  "validate_request req =
     (if sq_path req = [] then Inl PathRequired
      else if sq_type req = [] then Inl TypeRequired
      else let req = (if sq_timeout req = 0 then req\<lparr>sq_timeout := 5 * minute\<rparr> else req)
           in Inr (if sq_concurrency req = 0 then req\<lparr>sq_concurrency := 10\<rparr> else req))"

definition select_scanners :: "scanner_registry \<Rightarrow> scan_request \<Rightarrow> scan_error + scanner list" where
  "select_scanners r req =
     (if sq_scanners req \<noteq> [] then Inr (sq_scanners req)
      else if sq_workflow req \<noteq> [] then get_scanners_by_workflow (sq_workflow req) r
      else Inr (get_scanners_for_type (sq_type req) r))"

definition pipeline_execute ::
  "scan_context \<Rightarrow> time \<Rightarrow> nat list \<Rightarrow> scanner_registry \<Rightarrow> scan_request \<Rightarrow> scan_error + aggregated_result" where
  "pipeline_execute cx now order r req =
     (case validate_request req of
        Inl e \<Rightarrow> Inl e
      | Inr req \<Rightarrow>
     (case select_scanners r req of
        Inl e \<Rightarrow> Inl e
      | Inr scanners \<Rightarrow>
     (case parallel_execute cx order req scanners of
        Inl e \<Rightarrow> Inl e
      | Inr results \<Rightarrow>
          Inr ((aggregate now results)\<lparr>ag_path := sq_path req, ag_type := sq_type req, ag_workflow := sq_workflow req\<rparr>))))"

section \<open>Aggregated reports\<close>

lemma dedupe_keys: "vulnerability_key ` set (dedupe_onto seen vs) = vulnerability_key ` set vs - set seen"
  by (induction seen vs rule: dedupe_onto.induct) (auto simp: Let_def)

lemma dedupe_distinct: "distinct (map vulnerability_key (dedupe_onto seen vs))"
proof (induction seen vs rule: dedupe_onto.induct)
  case (2 seen v vs)
  have "vulnerability_key v \<notin> vulnerability_key ` set (dedupe_onto (vulnerability_key v # seen) vs)"
    by (simp add: dedupe_keys)
  with 2 show ?case by (auto simp: Let_def)
qed simp

lemma summary_counts:
  "fold count_vulnerability vs s = \<lparr>
     su_critical = su_critical s + int (length (filter (\<lambda>v. vu_severity v = ''CRITICAL'') vs)),
     su_high = su_high s + int (length (filter (\<lambda>v. vu_severity v = ''HIGH'') vs)),
     su_medium = su_medium s + int (length (filter (\<lambda>v. vu_severity v = ''MEDIUM'') vs)),
     su_low = su_low s + int (length (filter (\<lambda>v. vu_severity v = ''LOW'') vs)),
     su_total = su_total s + int (length vs)\<rparr>"
  by (induction vs arbitrary: s) (simp_all add: count_vulnerability_def Let_def)

lemma set_aggregated: "set (ag_vulnerabilities (aggregate now results))
    = set (deduplicate_vulnerabilities (concat (map sr_vulnerabilities results)))"
  by (simp add: aggregate_def sort_vulnerabilities_def Let_def)

lemma aggregated_keys: "vulnerability_key ` set (ag_vulnerabilities (aggregate now results))
    = (\<Union>r \<in> set results. vulnerability_key ` set (sr_vulnerabilities r))"
  by (auto simp: set_aggregated deduplicate_vulnerabilities_def dedupe_keys)

text \<open>What one scanner contributes to a run.\<close>

definition findings :: "scan_context \<Rightarrow> scan_request \<Rightarrow> scanner list \<Rightarrow> nat \<Rightarrow> string set" where
  "findings cx req scanners i =
     (case er_result (execute_single_scanner cx i (scanners ! i) req) of
        None \<Rightarrow> {} | Some r \<Rightarrow> vulnerability_key ` set (sr_vulnerabilities r))"

lemma collect_all:
  "collect_results False ers rs es = Some (results, errors) \<Longrightarrow>
   set results = set rs \<union> {r. \<exists>er \<in> set ers. er_error er = None \<and> er_result er = Some r}
   \<and> set errors = set es \<union> {e. \<exists>er \<in> set ers. er_error er = Some e}"
proof (induction ers arbitrary: rs es)
  case (Cons er ers)
  show ?case
  proof (cases "er_error er")
    case (Some e)
    then show ?thesis using Cons.prems Cons.IH [of rs "es @ [e]"] by auto
  next
    case None
    then obtain r where "er_result er = Some r" using Cons.prems by (cases "er_result er") auto
    then show ?thesis using Cons.prems Cons.IH [of "rs @ [r]" es] None by auto
  qed
qed simp

lemma single_result_no_error: "er_result (execute_single_scanner cx i s req) = Some r \<Longrightarrow> er_error (execute_single_scanner cx i s req) = None"
  by (auto simp: execute_single_scanner_def Let_def split: if_splits sum.splits)

lemma pipeline_steps:
  assumes "pipeline_execute cx now order r req = Inr agg"
  obtains req' scanners results where "validate_request req = Inr req'" and "select_scanners r req' = Inr scanners"
    and "parallel_execute cx order req' scanners = Inr results"
    and "ag_vulnerabilities agg = ag_vulnerabilities (aggregate now results)"
    and "ag_summary agg = ag_summary (aggregate now results)" and "ag_failed agg = 0"
    and "ag_total agg = int (length results)"
  using assms by (auto simp: pipeline_execute_def aggregate_def Let_def split: sum.splits)

section \<open>A concrete run\<close>

definition vuln :: "string \<Rightarrow> string \<Rightarrow> vulnerability" where
  "vuln cve severity = \<lparr>vu_id = cve, vu_cve = cve, vu_severity = severity, vu_title = [], vu_description = [], vu_package = [],
     vu_version = [], vu_fixed_in = [], vu_references = [], vu_cvss = 0\<rparr>"

definition good_scanner :: "string \<Rightarrow> vulnerability list \<Rightarrow> scanner" where
  "good_scanner name vs = \<lparr>sc_name = name, sc_types = [''generic''], sc_available = True,
     sc_scan = (\<lambda>_. ScanOk \<lparr>sr_scanner = name, sr_version = [], sr_type = [], sr_vulnerabilities = vs,
        sr_summary = empty_summary, sr_duration = 1\<rparr>)\<rparr>"

definition missing_scanner :: "string \<Rightarrow> scanner" where
  "missing_scanner name = \<lparr>sc_name = name, sc_types = [''generic''], sc_available = False, sc_scan = (\<lambda>_. ScanErr [])\<rparr>"

definition scan_of :: "scanner list \<Rightarrow> bool \<Rightarrow> scan_request" where
  "scan_of ss skip = \<lparr>sq_path = ''p'', sq_type = ''npm'', sq_workflow = [], sq_scanners = ss, sq_concurrency = 1,
     sq_timeout = 1, sq_options = \<lparr>op_fail_fast = False, op_retry_count = 0, op_skip_unavailable = skip, op_priority = []\<rparr>\<rparr>"

definition calm :: scan_context where
  "calm = \<lparr>cx_done_after = (\<lambda>_ _. False), cx_done_waiting = (\<lambda>_ _. False)\<rparr>"

lemma scan_of_valid [simp]: "validate_request (scan_of ss skip) = Inr (scan_of ss skip)"
  "ss \<noteq> [] \<Longrightarrow> select_scanners r (scan_of ss skip) = Inr ss"
  by (simp_all add: validate_request_def select_scanners_def scan_of_def Let_def)

lemma good_scanner_findings:
  "ss ! i = good_scanner name vs \<Longrightarrow> findings cx (scan_of ss' skip) ss i = vulnerability_key ` set vs"
  by (simp add: findings_def execute_single_scanner_def good_scanner_def scan_of_def)

abbreviation two_scanners :: "scanner list" where
  "two_scanners \<equiv> [good_scanner ''a'' [vuln ''CVE-1'' ''LOW''], good_scanner ''b'' [vuln ''CVE-2'' ''HIGH'', vuln ''CVE-1'' ''LOW'']]"

lemma two_scanners_report:
  "\<exists>agg. pipeline_execute calm 0 [1, 0] new_scanner_registry (scan_of two_scanners False) = Inr agg"
  by (simp add: pipeline_execute_def parallel_execute_def execute_single_scanner_def good_scanner_def scan_of_def
      validate_request_def select_scanners_def)

text \<open>
  Two scanners that rate one CVE differently: the report depends on which of them finishes first.
\<close>

lemma report_depends_on_order:
  "let ss = [good_scanner ''a'' [vuln ''CVE-1'' ''LOW''], good_scanner ''b'' [vuln ''CVE-1'' ''CRITICAL'']]
   in case (pipeline_execute calm 0 [0, 1] new_scanner_registry (scan_of ss False),
            pipeline_execute calm 0 [1, 0] new_scanner_registry (scan_of ss False)) of
        (Inr x, Inr y) \<Rightarrow> su_critical (ag_summary x) = 0 \<and> su_critical (ag_summary y) = 1
      | _ \<Rightarrow> False"
  by code_simp

text \<open>
  C17: The pipeline reports every finding, and nothing else. Unless fail-fast is set, when a scan
  returns a report and every selected scanner finished, in whatever order, the keys of the
  reported vulnerabilities are exactly those of the findings of the scanners that succeeded.
\<close>

theorem pipeline_reports_every_finding:
  assumes "pipeline_execute cx now order r req = Inr agg" and "\<not> op_fail_fast (sq_options req)"
    and "validate_request req = Inr req'" and "select_scanners r req' = Inr scanners"
    and "set order = {..<length scanners}"
  shows "vulnerability_key ` set (ag_vulnerabilities agg) = (\<Union>i < length scanners. findings cx req' scanners i)"
proof -
  obtain req1 scanners1 results where v: "validate_request req = Inr req1" "select_scanners r req1 = Inr scanners1"
    and run1: "parallel_execute cx order req1 scanners1 = Inr results"
    and agg: "ag_vulnerabilities agg = ag_vulnerabilities (aggregate now results)"
    by (rule pipeline_steps [OF assms(1)])
  have run: "parallel_execute cx order req' scanners = Inr results" using v run1 assms(3,4) by simp
  have ff: "\<not> op_fail_fast (sq_options req')" using assms(2,3) by (auto simp: validate_request_def Let_def split: if_splits)
  let ?ers = "map (\<lambda>i. execute_single_scanner cx i (scanners ! i) req') order"
  obtain errors where "collect_results False ?ers [] [] = Some (results, errors)"
    using run ff by (auto simp: parallel_execute_def split: if_splits option.splits)
  then have "set results = {r. \<exists>er \<in> set ?ers. er_error er = None \<and> er_result er = Some r}"
    using collect_all by fastforce
  also have "\<dots> = {r. \<exists>i < length scanners. er_result (execute_single_scanner cx i (scanners ! i) req') = Some r}"
    unfolding set_map assms(5) by (auto dest: single_result_no_error)
  finally have res: "set results = \<dots>" .
  show ?thesis
    unfolding agg aggregated_keys res by (auto simp: findings_def split: option.splits) blast
qed

theorem pipeline_reports_every_finding_witness:
  "\<exists>agg. pipeline_execute calm 0 [1, 0] new_scanner_registry (scan_of two_scanners False) = Inr agg
     \<and> vulnerability_key ` set (ag_vulnerabilities agg) = {''CVE-1'', ''CVE-2''}"
proof -
  obtain agg where agg: "pipeline_execute calm 0 [1, 0] new_scanner_registry (scan_of two_scanners False) = Inr agg"
    using two_scanners_report by blast
  have "vulnerability_key ` set (ag_vulnerabilities agg)
      = (\<Union>i < length two_scanners. findings calm (scan_of two_scanners False) two_scanners i)"
    by (rule pipeline_reports_every_finding [OF agg]) (simp_all, simp add: scan_of_def, simp add: lessThan_Suc numeral_2_eq_2)
  also have "\<dots> = {''CVE-1'', ''CVE-2''}"
    by (simp add: good_scanner_findings lessThan_Suc numeral_2_eq_2 vulnerability_key_def vuln_def insert_commute)
  finally show ?thesis using agg by blast
qed

text \<open>
  A report is sorted, free of duplicates and counted right. The vulnerabilities of every
  report come by falling severity, then falling score, then CVE; no key occurs twice; and each
  number of the summary is the number of vulnerabilities of that severity in the report.
\<close>

theorem report_is_sorted_and_counted:
  assumes "pipeline_execute cx now order r req = Inr agg"
  shows "sorted (map vulnerability_rank (ag_vulnerabilities agg))
    \<and> distinct (map vulnerability_key (ag_vulnerabilities agg))
    \<and> su_total (ag_summary agg) = int (length (ag_vulnerabilities agg))
    \<and> su_critical (ag_summary agg) = int (length (filter (\<lambda>v. vu_severity v = ''CRITICAL'') (ag_vulnerabilities agg)))
    \<and> su_high (ag_summary agg) = int (length (filter (\<lambda>v. vu_severity v = ''HIGH'') (ag_vulnerabilities agg)))
    \<and> su_medium (ag_summary agg) = int (length (filter (\<lambda>v. vu_severity v = ''MEDIUM'') (ag_vulnerabilities agg)))
    \<and> su_low (ag_summary agg) = int (length (filter (\<lambda>v. vu_severity v = ''LOW'') (ag_vulnerabilities agg)))"
proof -
  obtain results where agg: "ag_vulnerabilities agg = ag_vulnerabilities (aggregate now results)"
    "ag_summary agg = ag_summary (aggregate now results)"
    by (rule pipeline_steps [OF assms])
  let ?u = "deduplicate_vulnerabilities (concat (map sr_vulnerabilities results))"
  have vs: "ag_vulnerabilities agg = sort_key vulnerability_rank ?u" and sum: "ag_summary agg = fold count_vulnerability ?u empty_summary"
    by (simp_all add: agg aggregate_def sort_vulnerabilities_def calculate_summary_def Let_def)
  have "length (filter P (sort_key vulnerability_rank ?u)) = length (filter P ?u)" for P
    by (metis mset_filter mset_sort size_mset)
  moreover have "distinct (map vulnerability_key (sort_key vulnerability_rank ?u))"
    using dedupe_distinct [of "[]"] by (simp add: deduplicate_vulnerabilities_def distinct_map)
  ultimately show ?thesis
    by (simp add: vs sum summary_counts empty_summary_def)
qed

theorem report_is_sorted_and_counted_witness:
  "\<exists>agg. pipeline_execute calm 0 [1, 0] new_scanner_registry (scan_of two_scanners False) = Inr agg
     \<and> sorted (map vulnerability_rank (ag_vulnerabilities agg))"
  using two_scanners_report report_is_sorted_and_counted by blast

text \<open>
  Skipping unavailable scanners turns a failed scan into a clean report. When no scanner
  produces a result - none is installed, or all fail - and the option is set, the pipeline
  returns success with no vulnerabilities and no failed scans.
\<close>

theorem skipping_hides_total_failure:
  assumes "validate_request req = Inr req'" and "select_scanners r req' = Inr scanners" and "scanners \<noteq> []"
    and "op_skip_unavailable (sq_options req)"
    and "\<forall>i \<in> set order. er_error (execute_single_scanner cx i (scanners ! i) req') \<noteq> None"
  shows "\<exists>agg. pipeline_execute cx now order r req = Inr agg \<and> ag_vulnerabilities agg = [] \<and> ag_failed agg = 0 \<and> ag_total agg = 0"
proof -
  have skip: "op_skip_unavailable (sq_options req')" using assms(1,4) by (auto simp: validate_request_def Let_def split: if_splits)
  have "\<exists>errors. collect_results ff ers [] es = Some ([], errors)" if "\<forall>er \<in> set ers. er_error er \<noteq> None" for ff ers es
    using that by (induction ers arbitrary: es) auto
  from this [of "map (\<lambda>i. execute_single_scanner cx i (scanners ! i) req') order"]
  have "parallel_execute cx order req' scanners = Inr []"
    using assms(3,5) skip by (fastforce simp: parallel_execute_def split: option.splits)
  then show ?thesis
    using assms(1,2)
    by (simp add: pipeline_execute_def aggregate_def deduplicate_vulnerabilities_def sort_vulnerabilities_def)
qed

theorem skipping_hides_total_failure_witness:
  "\<exists>agg. pipeline_execute calm 0 [0] new_scanner_registry (scan_of [missing_scanner ''a''] True) = Inr agg
     \<and> ag_vulnerabilities agg = [] \<and> ag_failed agg = 0 \<and> ag_total agg = 0"
  by (rule skipping_hides_total_failure [OF scan_of_valid(1) scan_of_valid(2)])
    (simp_all, simp add: scan_of_def, simp add: execute_single_scanner_def missing_scanner_def)

text \<open>A scanner is never tried more often than the retry count allows.\<close>

lemma attempts_bounded:
  assumes "\<forall>k \<le> n. sc_scan s k = sc_scan s' k" and "n = m + todo - 1" and "0 < todo"
  shows "attempt_scan cx i s todo m err = attempt_scan cx i s' todo m err"
  using assms
proof (induction todo arbitrary: m err)
  case (Suc todo)
  have "sc_scan s m = sc_scan s' m" using Suc.prems by simp
  moreover have "attempt_scan cx i s todo (Suc m) e = attempt_scan cx i s' todo (Suc m) e" for e
    using Suc by (cases "todo = 0") auto
  ultimately show ?case by (simp split: scan_reply.splits)
qed simp

end
