(* ===== verification/Resilience.thy ===== *)
theory Resilience
  imports Prelude
begin

text \<open>
  The circuit breaker and result cache of the scanners (internal/scanner/performance_enhancer.go)
  and the compliance score computed from scan results (internal/service/compliance_calculator.go).
\<close>

section \<open>Circuit breaker\<close>

datatype breaker_state = Closed | Open | HalfOpen

record circuit_breaker =
  cb_state :: breaker_state
  cb_failures :: int
  cb_last_fail :: time
  cb_threshold :: int
  cb_timeout :: time

definition new_circuit_breaker :: "int \<Rightarrow> time \<Rightarrow> circuit_breaker" where
  "new_circuit_breaker threshold timeout =
     \<lparr>cb_state = Closed, cb_failures = 0, cb_last_fail = 0, cb_threshold = threshold, cb_timeout = timeout\<rparr>"

definition can_execute :: "time \<Rightarrow> circuit_breaker \<Rightarrow> bool \<times> circuit_breaker" where
  "can_execute now cb =
     (case cb_state cb of
        Closed \<Rightarrow> (True, cb)
      | Open \<Rightarrow> if now - cb_last_fail cb > cb_timeout cb then (True, cb\<lparr>cb_state := HalfOpen\<rparr>) else (False, cb)
      | HalfOpen \<Rightarrow> (True, cb))"

definition record_success :: "circuit_breaker \<Rightarrow> circuit_breaker" where
  "record_success cb = cb\<lparr>cb_failures := 0, cb_state := Closed\<rparr>"

definition record_failure :: "time \<Rightarrow> circuit_breaker \<Rightarrow> circuit_breaker" where
  "record_failure now cb =
     (let cb = cb\<lparr>cb_failures := cb_failures cb + 1, cb_last_fail := now\<rparr>
      in if cb_failures cb \<ge> cb_threshold cb then cb\<lparr>cb_state := Open\<rparr> else cb)"

record cached_scan =
  cs_cached_at :: time
  cs_ttl :: time

definition is_expired :: "time \<Rightarrow> cached_scan \<Rightarrow> bool" where
  "is_expired now c \<longleftrightarrow> now - cs_cached_at c > cs_ttl c"

record performance_config =
  pc_max_concurrent :: int
  pc_scan_timeout :: time
  pc_result_cache :: bool
  pc_cache_ttl :: time
  pc_breaker :: bool
  pc_failure_threshold :: int
  pc_gc :: bool
  pc_gc_threshold :: int
  pc_max_memory_mb :: int
  pc_max_retries :: int
  pc_retry_backoff :: time

definition default_performance_config :: "int \<Rightarrow> performance_config" where
  "default_performance_config cpus = \<lparr>pc_max_concurrent = cpus * 2, pc_scan_timeout = 10 * minute,
     pc_result_cache = True, pc_cache_ttl = 30 * minute, pc_breaker = True, pc_failure_threshold = 5,
     pc_gc = True, pc_gc_threshold = 80, pc_max_memory_mb = 1024, pc_max_retries = 3, pc_retry_backoff = 2 * second\<rparr>"

text \<open>What a caller does: ask, and report the outcome of what it was allowed to run.\<close>

datatype breaker_event = Ask time | Succeeded | Failed time

fun breaker_step :: "breaker_event \<Rightarrow> circuit_breaker \<Rightarrow> circuit_breaker" where
  "breaker_step (Ask now) cb = snd (can_execute now cb)"
| "breaker_step Succeeded cb = record_success cb"
| "breaker_step (Failed now) cb = record_failure now cb"

definition breaker_run :: "breaker_event list \<Rightarrow> circuit_breaker \<Rightarrow> circuit_breaker" where
  "breaker_run es cb = fold breaker_step es cb"

fun fails_in_a_row :: "breaker_event list \<Rightarrow> int" where
  "fails_in_a_row [] = 0"
| "fails_in_a_row (Failed _ # es) = fails_in_a_row es + 1"
| "fails_in_a_row (Ask _ # es) = fails_in_a_row es"
| "fails_in_a_row (Succeeded # es) = 0"

definition tripped :: "int \<Rightarrow> time \<Rightarrow> breaker_event list \<Rightarrow> circuit_breaker \<Rightarrow> bool" where
  "tripped threshold timeout es cb \<longleftrightarrow>
     cb_threshold cb = threshold \<and> cb_timeout cb = timeout \<and> cb_failures cb = fails_in_a_row (rev es)
     \<and> (cb_state cb = Closed \<longleftrightarrow> fails_in_a_row (rev es) < threshold)"

lemma fails_nonneg: "0 \<le> fails_in_a_row es"
  by (induction es rule: fails_in_a_row.induct) auto

lemma tripped_step:
  "tripped threshold timeout es cb \<Longrightarrow> 0 < threshold \<Longrightarrow> tripped threshold timeout (es @ [e]) (breaker_step e cb)"
  by (cases e; cases "cb_state cb") (auto simp: tripped_def can_execute_def record_success_def record_failure_def Let_def)

lemma tripped_run: "0 < threshold \<Longrightarrow> tripped threshold timeout es (breaker_run es (new_circuit_breaker threshold timeout))"
proof (induction es rule: rev_induct)
  case Nil
  then show ?case by (simp add: tripped_def breaker_run_def new_circuit_breaker_def)
next
  case (snoc e es)
  then show ?case using tripped_step [of threshold timeout es _ e] by (simp add: breaker_run_def)
qed

text \<open>
  The circuit breaker trips on failures in a row and recovers by time. After any history that
  ends with a failure at time \<open>t\<close>, a request at time \<open>now\<close> is allowed exactly when fewer than the
  threshold of outcomes since the last success were failures, or more than the timeout has passed
  since \<open>t\<close>; in particular one failure of a half-open breaker closes the door for a full timeout.
\<close>

theorem breaker_allows_iff:
  assumes "0 < threshold"
  shows "fst (can_execute now (breaker_run (es @ [Failed t]) (new_circuit_breaker threshold timeout)))
    \<longleftrightarrow> fails_in_a_row (rev es) + 1 < threshold \<or> now - t > timeout"
proof -
  let ?cb = "breaker_run es (new_circuit_breaker threshold timeout)"
  have "tripped threshold timeout es ?cb" by (rule tripped_run [OF assms])
  moreover have "breaker_run (es @ [Failed t]) (new_circuit_breaker threshold timeout) = record_failure t ?cb"
    by (simp add: breaker_run_def)
  ultimately show ?thesis
    by (auto simp: tripped_def record_failure_def can_execute_def Let_def split: breaker_state.splits)
qed

theorem breaker_allows_iff_witness:
  "\<not> fst (can_execute 15 (breaker_run ([Failed 1, Ask 12] @ [Failed 13]) (new_circuit_breaker 1 10)))"
  using breaker_allows_iff [of 1 15 "[Failed 1, Ask 12]" 13 10] by simp

text \<open>
  A half-open breaker lets every request through, not a single probe: nothing changes until an
  outcome is reported.
\<close>

lemma half_open_admits_all: "cb_state cb = HalfOpen \<Longrightarrow> can_execute now cb = (True, cb)"
  by (simp add: can_execute_def)

section \<open>Compliance score\<close>

record vulnerability_counts =
  vc_critical :: int
  vc_high :: int
  vc_medium :: int
  vc_low :: int

definition compliance_score :: "vulnerability_counts \<Rightarrow> int" where
  "compliance_score v =
     (let score = 100;
          score = wrap64 (score - wrap64 (vc_critical v * 40));
          score = wrap64 (score - wrap64 (vc_high v * 20));
          score = wrap64 (score - wrap64 (vc_medium v * 10));
          score = wrap64 (score - wrap64 (vc_low v * 5))
      in if score < 0 then 0 else score)"

definition calculate_compliance :: "vulnerability_counts option \<Rightarrow> string \<times> int" where
  "calculate_compliance vs =
     (case vs of
        None \<Rightarrow> (''pending'', 0)
      | Some v \<Rightarrow>
          (let score = compliance_score v
           in (if vc_critical v > 0 then ''non-compliant''
               else if vc_high v > 2 then ''non-compliant''
               else if vc_high v > 0 \<or> vc_medium v > 5 then ''review''
               else if score \<ge> 80 then ''compliant''
               else if score \<ge> 60 then ''review''
               else ''non-compliant'', score)))"

record scan_results =
  sx_overall_score :: int
  sx_vulnerabilities :: "vulnerability_counts option"

definition calculate_overall_score :: "scan_results option \<Rightarrow> int" where
  "calculate_overall_score r =
     (case r of
        None \<Rightarrow> 0
      | Some s \<Rightarrow>
          if sx_overall_score s > 0 then sx_overall_score s
          else case sx_vulnerabilities s of
              Some v \<Rightarrow> snd (calculate_compliance (Some v))
            | None \<Rightarrow> 50)"

definition plausible :: "vulnerability_counts \<Rightarrow> bool" where
  "plausible v \<longleftrightarrow> (\<forall>n \<in> {vc_critical v, vc_high v, vc_medium v, vc_low v}. 0 \<le> n \<and> n < 2 ^ 40)"

lemma compliance_score_exact:
  assumes "plausible v"
  shows "compliance_score v = max 0 (100 - 40 * vc_critical v - 20 * vc_high v - 10 * vc_medium v - 5 * vc_low v)"
  using assms by (simp add: compliance_score_def plausible_def wrap64_id Let_def mult.commute)

text \<open>
  More findings can improve the compliance status. An artifact with nine or more low findings
  (at most five medium, nothing worse) and a score below sixty is non-compliant, but with one or
  two additional high findings, and a lower score, the same artifact is only up for review.
\<close>

theorem more_findings_better_status:
  assumes "plausible v" and "vc_critical v = 0" and "vc_high v = 0" and "vc_medium v \<le> 5"
    and "2 * vc_medium v + vc_low v \<ge> 9" and "1 \<le> h" and "h \<le> 2"
  shows "fst (calculate_compliance (Some v)) = ''non-compliant''
    \<and> fst (calculate_compliance (Some (v\<lparr>vc_high := h\<rparr>))) = ''review''
    \<and> snd (calculate_compliance (Some (v\<lparr>vc_high := h\<rparr>))) \<le> snd (calculate_compliance (Some v))"
proof -
  have "plausible (v\<lparr>vc_high := h\<rparr>)" using assms by (simp add: plausible_def)
  then show ?thesis
    using assms by (simp add: calculate_compliance_def compliance_score_exact Let_def max_def)
qed

theorem more_findings_better_status_witness:
  "fst (calculate_compliance (Some \<lparr>vc_critical = 0, vc_high = 0, vc_medium = 0, vc_low = 9\<rparr>)) = ''non-compliant''
   \<and> fst (calculate_compliance (Some \<lparr>vc_critical = 0, vc_high = 1, vc_medium = 0, vc_low = 9\<rparr>)) = ''review''"
  using more_findings_better_status [of "\<lparr>vc_critical = 0, vc_high = 0, vc_medium = 0, vc_low = 9\<rparr>" 1]
  by (simp add: plausible_def)

text \<open>The score itself only falls, and stays between 0 and 100.\<close>

lemma score_bounds: "plausible v \<Longrightarrow> 0 \<le> compliance_score v \<and> compliance_score v \<le> 100"
  by (auto simp: compliance_score_exact plausible_def)

lemma score_monotone:
  "plausible v \<Longrightarrow> plausible w \<Longrightarrow> vc_critical v \<le> vc_critical w \<Longrightarrow> vc_high v \<le> vc_high w \<Longrightarrow>
   vc_medium v \<le> vc_medium w \<Longrightarrow> vc_low v \<le> vc_low w \<Longrightarrow> compliance_score w \<le> compliance_score v"
  by (simp add: compliance_score_exact)

end
