(* ===== verification/RefreshTokens.thy ===== *)
theory RefreshTokens
  imports Prelude
begin

text \<open>
  Refresh tokens (internal/auth/refresh_token_service.go): the table, storing, validation,
  rotation in a transaction, revocation, cleanup and statistics. Rotation is two steps, as its
  validation reads outside the transaction that revokes and inserts.
\<close>

section \<open>Table and environment\<close>

record refresh_token =
  rt_id :: int
  rt_token_hash :: string
  rt_user :: int
  rt_session :: string
  rt_client :: "string option"
  rt_expires :: time
  rt_revoked :: bool
  rt_revoked_at :: "time option"
  rt_parent :: "int option"
  rt_created :: time

record token_table =
  tb_rows :: "refresh_token list"
  tb_next :: int

datatype token_stmt = TkBegin | TkSelect | TkUpdate | TkInsert | TkCommit | TkDelete | TkRowsAffected

text \<open>
  During one call: the clock, the token hash (SHA-256 in base64), which statements succeed, and
  whether the service has a logger; a nil logger panics when it is used.
\<close>

record token_env =
  tv_now :: time
  tv_hash :: "string \<Rightarrow> string"
  tv_ok :: "token_stmt \<Rightarrow> bool"
  tv_logger :: bool

datatype token_error =
    TokenStoreFailed
  | InvalidToken
  | TokenQueryFailed
  | TokenBeginFailed
  | TokenRevokeFailed
  | TokenCreateFailed
  | TokenCommitFailed
  | TokenNotFound
  | TokenDeleteFailed
  | TokenRandomFailed
  | NilLogger

section \<open>Operations\<close>

definition insert_token :: "refresh_token \<Rightarrow> token_table \<Rightarrow> refresh_token \<times> token_table" where
  "insert_token r t =
     (let r = r\<lparr>rt_id := tb_next t\<rparr> in (r, t\<lparr>tb_rows := tb_rows t @ [r], tb_next := tb_next t + 1\<rparr>))"

definition store_refresh_token ::
  "token_env \<Rightarrow> int \<Rightarrow> string \<Rightarrow> string \<Rightarrow> string option \<Rightarrow> time \<Rightarrow> token_table \<Rightarrow> (token_error + refresh_token) \<times> token_table" where
  "store_refresh_token env user session token client expires t =
     (if \<not> tv_ok env TkInsert then (Inl TokenStoreFailed, t)
      else let (r, t) = insert_token \<lparr>rt_id = 0, rt_token_hash = tv_hash env token, rt_user = user, rt_session = session,
                 rt_client = client, rt_expires = expires, rt_revoked = False, rt_revoked_at = None,
                 rt_parent = None, rt_created = tv_now env\<rparr> t
           in (Inr r, t))"

definition token_live :: "token_env \<Rightarrow> string \<Rightarrow> refresh_token \<Rightarrow> bool" where
  "token_live env token r \<longleftrightarrow> rt_token_hash r = tv_hash env token \<and> \<not> rt_revoked r \<and> rt_expires r > tv_now env"

definition validate_refresh_token :: "token_env \<Rightarrow> string \<Rightarrow> token_table \<Rightarrow> token_error + refresh_token" where
  "validate_refresh_token env token t =
     (if \<not> tv_ok env TkSelect then Inl TokenQueryFailed
      else case find (token_live env token) (tb_rows t) of None \<Rightarrow> Inl InvalidToken | Some r \<Rightarrow> Inr r)"

definition revoke_rows :: "token_env \<Rightarrow> (refresh_token \<Rightarrow> bool) \<Rightarrow> token_table \<Rightarrow> token_table" where
  "revoke_rows env P t = t\<lparr>tb_rows :=
     map (\<lambda>r. if P r then r\<lparr>rt_revoked := True, rt_revoked_at := Some (tv_now env)\<rparr> else r) (tb_rows t)\<rparr>"

text \<open>The first half of a rotation; the transaction it opens reads nothing itself.\<close>

definition rotate_read :: "token_env \<Rightarrow> string \<Rightarrow> token_table \<Rightarrow> token_error + refresh_token" where
  "rotate_read env old t =
     (if \<not> tv_ok env TkBegin then Inl TokenBeginFailed else validate_refresh_token env old t)"

text \<open>
  The second half: revoke by row number, insert, commit. A failure rolls back; the log line
  comes after the commit.
\<close>

definition rotate_write ::
  "token_env \<Rightarrow> refresh_token \<Rightarrow> string \<Rightarrow> time \<Rightarrow> token_table \<Rightarrow> (token_error + refresh_token) \<times> token_table" where
  "rotate_write env old new expires t =
     (if \<not> tv_ok env TkUpdate then (Inl TokenRevokeFailed, t)
      else let t1 = revoke_rows env (\<lambda>r. rt_id r = rt_id old) t
           in if \<not> tv_ok env TkInsert then (Inl TokenCreateFailed, t)
              else let (r, t2) = insert_token \<lparr>rt_id = 0, rt_token_hash = tv_hash env new, rt_user = rt_user old,
                         rt_session = rt_session old, rt_client = rt_client old, rt_expires = expires,
                         rt_revoked = False, rt_revoked_at = None, rt_parent = Some (rt_id old),
                         rt_created = tv_now env\<rparr> t1
                   in if \<not> tv_ok env TkCommit then (Inl TokenCommitFailed, t)
                      else if \<not> tv_logger env then (Inl NilLogger, t2)
                      else (Inr r, t2))"

definition rotate_refresh_token ::
  "token_env \<Rightarrow> string \<Rightarrow> string \<Rightarrow> time \<Rightarrow> token_table \<Rightarrow> (token_error + refresh_token) \<times> token_table" where
  "rotate_refresh_token env old new expires t =
     (case rotate_read env old t of Inl e \<Rightarrow> (Inl e, t) | Inr r \<Rightarrow> rotate_write env r new expires t)"

definition revoke_refresh_token :: "token_env \<Rightarrow> string \<Rightarrow> token_table \<Rightarrow> (token_error + unit) \<times> token_table" where
  "revoke_refresh_token env token t =
     (let P = (\<lambda>r. rt_token_hash r = tv_hash env token \<and> \<not> rt_revoked r)
      in if \<not> tv_ok env TkUpdate then (Inl TokenRevokeFailed, t)
         else let t1 = revoke_rows env P t
              in if \<not> tv_ok env TkRowsAffected then (Inl TokenQueryFailed, t1)
                 else if filter P (tb_rows t) = [] then (Inl TokenNotFound, t1)
                 else (Inr (), t1))"

definition revoke_logged :: "token_env \<Rightarrow> (refresh_token \<Rightarrow> bool) \<Rightarrow> token_table \<Rightarrow> (token_error + unit) \<times> token_table" where
  "revoke_logged env P t =
     (if \<not> tv_ok env TkUpdate then (Inl TokenRevokeFailed, t)
      else let t1 = revoke_rows env (\<lambda>r. P r \<and> \<not> rt_revoked r) t
           in if \<not> tv_ok env TkRowsAffected then (Inl TokenQueryFailed, t1)
              else if \<not> tv_logger env then (Inl NilLogger, t1)
              else (Inr (), t1))"

definition revoke_all_user_tokens :: "token_env \<Rightarrow> int \<Rightarrow> token_table \<Rightarrow> (token_error + unit) \<times> token_table" where
  "revoke_all_user_tokens env user t = revoke_logged env (\<lambda>r. rt_user r = user) t"

definition revoke_session_tokens :: "token_env \<Rightarrow> string \<Rightarrow> token_table \<Rightarrow> (token_error + unit) \<times> token_table" where
  "revoke_session_tokens env session t = revoke_logged env (\<lambda>r. rt_session r = session) t"

definition cleanup_expired_tokens :: "token_env \<Rightarrow> token_table \<Rightarrow> (token_error + int) \<times> token_table" where
  "cleanup_expired_tokens env t =
     (let old = (\<lambda>r. rt_expires r < tv_now env - 7 * 24 * hour); n = int (length (filter old (tb_rows t)))
      in if \<not> tv_ok env TkDelete then (Inl TokenDeleteFailed, t)
         else let t1 = t\<lparr>tb_rows := filter (\<lambda>r. \<not> old r) (tb_rows t)\<rparr>
              in if \<not> tv_ok env TkRowsAffected then (Inl TokenQueryFailed, t1)
                 else if n > 0 \<and> \<not> tv_logger env then (Inl NilLogger, t1)
                 else (Inr n, t1))"

record token_stats =
  tt_total :: nat
  tt_active :: nat
  tt_revoked :: nat
  tt_expired :: nat
  tt_recent :: nat

definition get_token_stats :: "token_env \<Rightarrow> token_table \<Rightarrow> token_error + token_stats" where
  "get_token_stats env t =
     (if \<not> tv_ok env TkSelect then Inl TokenQueryFailed
      else let count = (\<lambda>P. length (filter P (tb_rows t)))
           in Inr \<lparr>tt_total = length (tb_rows t), tt_active = count (\<lambda>r. \<not> rt_revoked r), tt_revoked = count rt_revoked,
                   tt_expired = count (\<lambda>r. rt_expires r < tv_now env), tt_recent = count (\<lambda>r. rt_created r > tv_now env - 24 * hour)\<rparr>)"

definition get_user_tokens :: "token_env \<Rightarrow> int \<Rightarrow> token_table \<Rightarrow> token_error + refresh_token list" where
  "get_user_tokens env user t =
     (if \<not> tv_ok env TkSelect then Inl TokenQueryFailed
      else Inr (sort_key (\<lambda>r. - rt_created r) (filter (\<lambda>r. rt_user r = user \<and> \<not> rt_revoked r) (tb_rows t))))"

text \<open>\<open>random\<close>: the 32 bytes read, if the read succeeds; \<open>base64\<close> the encoder.\<close>

definition generate_refresh_token :: "(bytes \<Rightarrow> string) \<Rightarrow> bytes option \<Rightarrow> token_error + string" where
  "generate_refresh_token base64 random = (case random of None \<Rightarrow> Inl TokenRandomFailed | Some b \<Rightarrow> Inr (base64 b))"

section \<open>Lemmas\<close>

definition table_ok :: "token_table \<Rightarrow> bool" where
  "table_ok t \<longleftrightarrow> distinct (map rt_id (tb_rows t)) \<and> (\<forall>r \<in> set (tb_rows t). rt_id r < tb_next t)
     \<and> distinct (map rt_token_hash (tb_rows t))"

lemma validated:
  "validate_refresh_token env token t = Inr r \<Longrightarrow> r \<in> set (tb_rows t) \<and> token_live env token r"
  by (auto simp: validate_refresh_token_def find_Some_iff split: if_splits option.splits)

lemma validate_unique:
  assumes "table_ok t" and "r \<in> set (tb_rows t)" and "token_live env token r" and "tv_ok env TkSelect"
  shows "validate_refresh_token env token t = Inr r"
proof -
  have "find (token_live env token) (tb_rows t) \<noteq> None" using assms(2,3) by (auto simp: find_None_iff)
  then obtain r' where r': "find (token_live env token) (tb_rows t) = Some r'" by auto
  then have "r' \<in> set (tb_rows t)" "rt_token_hash r' = rt_token_hash r"
    using assms(3) by (auto simp: find_Some_iff token_live_def)
  then have "r' = r" using assms(1,2) by (metis table_ok_def distinct_map inj_onD)
  then show ?thesis using r' assms(4) by (simp add: validate_refresh_token_def)
qed

lemma revoke_rows_simps [simp]:
  "map rt_id (tb_rows (revoke_rows env P t)) = map rt_id (tb_rows t)"
  "map rt_token_hash (tb_rows (revoke_rows env P t)) = map rt_token_hash (tb_rows t)"
  "tb_next (revoke_rows env P t) = tb_next t"
  by (simp_all add: revoke_rows_def)

lemma table_ok_revoke [intro]: "table_ok t \<Longrightarrow> table_ok (revoke_rows env P t)"
proof -
  have "rt_id ` set (tb_rows (revoke_rows env P t)) = rt_id ` set (tb_rows t)"
    using revoke_rows_simps(1) [of env P t] by (metis list.set_map)
  then have "(\<forall>r \<in> set (tb_rows (revoke_rows env P t)). rt_id r < tb_next t) = (\<forall>r \<in> set (tb_rows t). rt_id r < tb_next t)"
    by (metis (no_types, lifting) image_iff)
  then show "table_ok t \<Longrightarrow> table_ok (revoke_rows env P t)" by (simp add: table_ok_def)
qed

lemma table_ok_insert:
  "table_ok t \<Longrightarrow> rt_token_hash r \<notin> rt_token_hash ` set (tb_rows t) \<Longrightarrow> table_ok (snd (insert_token r t))"
  by (fastforce simp: table_ok_def insert_token_def Let_def)

definition fresh_token :: "token_env \<Rightarrow> string \<Rightarrow> token_table \<Rightarrow> bool" where
  "fresh_token env token t \<longleftrightarrow> tv_hash env token \<notin> rt_token_hash ` set (tb_rows t)"

definition issued :: "token_env \<Rightarrow> refresh_token \<Rightarrow> string \<Rightarrow> time \<Rightarrow> token_table \<Rightarrow> refresh_token" where
  "issued env old new expires t = \<lparr>rt_id = tb_next t, rt_token_hash = tv_hash env new, rt_user = rt_user old,
     rt_session = rt_session old, rt_client = rt_client old, rt_expires = expires, rt_revoked = False,
     rt_revoked_at = None, rt_parent = Some (rt_id old), rt_created = tv_now env\<rparr>"

definition all_ok :: "token_env \<Rightarrow> bool" where
  "all_ok env \<longleftrightarrow> (\<forall>s. tv_ok env s) \<and> tv_logger env"

lemma rotate_write_ok:
  assumes "rotate_write env old new expires t = (Inr r, t')"
  shows "r = issued env old new expires t
    \<and> tb_rows t' = tb_rows (revoke_rows env (\<lambda>x. rt_id x = rt_id old) t) @ [r] \<and> tb_next t' = tb_next t + 1"
  using assms by (auto simp: rotate_write_def insert_token_def issued_def Let_def split: if_splits)

lemma rotate_write_all_ok:
  "all_ok env \<Longrightarrow> \<exists>t'. rotate_write env old new expires t = (Inr (issued env old new expires t), t')"
  by (simp add: rotate_write_def insert_token_def issued_def all_ok_def Let_def)

lemma rotated_table_ok:
  assumes "table_ok t" and "fresh_token env new t" and "rotate_write env old new expires t = (Inr r, t')"
  shows "table_ok t'"
proof -
  let ?t = "revoke_rows env (\<lambda>x. rt_id x = rt_id old) t"
  have "table_ok ?t" using assms(1) by blast
  moreover have "rt_token_hash ` set (tb_rows ?t) = rt_token_hash ` set (tb_rows t)"
    using revoke_rows_simps(2) by (metis list.set_map)
  ultimately have "table_ok (snd (insert_token r ?t))"
    using assms(2) rotate_write_ok [OF assms(3)] by (intro table_ok_insert) (simp_all add: fresh_token_def issued_def)
  moreover have "snd (insert_token r ?t) = t'"
    using rotate_write_ok [OF assms(3)] by (simp add: insert_token_def issued_def Let_def)
  ultimately show ?thesis by simp
qed

section \<open>A table with one token\<close>

definition plain_env :: token_env where
  "plain_env = \<lparr>tv_now = 10, tv_hash = (\<lambda>s. s), tv_ok = (\<lambda>_. True), tv_logger = True\<rparr>"

definition one_token :: token_table where
  "one_token = snd (store_refresh_token plain_env 7 ''s'' ''old'' None 20 \<lparr>tb_rows = [], tb_next = 1\<rparr>)"

lemma one_token_rows: "tb_rows one_token = [\<lparr>rt_id = 1, rt_token_hash = ''old'', rt_user = 7, rt_session = ''s'', rt_client = None,
    rt_expires = 20, rt_revoked = False, rt_revoked_at = None, rt_parent = None, rt_created = 10\<rparr>]" "tb_next one_token = 2"
  by (simp_all add: one_token_def store_refresh_token_def insert_token_def plain_env_def Let_def)

lemma one_token_ok: "table_ok one_token"
  by (simp add: table_ok_def one_token_rows)

text \<open>The service of the login handler has no logger: a rotation commits and then panics.\<close>

lemma nil_logger_panics_after_commit:
  "let out = rotate_refresh_token (plain_env\<lparr>tv_logger := False\<rparr>) ''old'' ''new'' 50 one_token
   in fst out = Inl NilLogger \<and> validate_refresh_token plain_env ''old'' (snd out) = Inl InvalidToken"
  by code_simp

section \<open>Rotation\<close>



text \<open>
  One refresh token can be spent twice. When two rotations of the same valid token overlap so
  that both validate it before either writes, both succeed, and both new tokens are valid
  afterwards: the revocation does not check that the old token is still unrevoked.
\<close>

theorem overlapping_rotations_both_succeed:
  assumes "table_ok t" and "all_ok env" and "validate_refresh_token env old t = Inr r0"
    and "fresh_token env a t" and "fresh_token env b t" and "tv_hash env a \<noteq> tv_hash env b" and "tv_now env < expires"
  shows "\<exists>ra rb t1 t2. rotate_read env old t = Inr ra \<and> rotate_read env old t = Inr rb
    \<and> (\<exists>na. rotate_write env ra a expires t = (Inr na, t1)) \<and> (\<exists>nb. rotate_write env rb b expires t1 = (Inr nb, t2))
    \<and> is_ok (validate_refresh_token env a t2) \<and> is_ok (validate_refresh_token env b t2)"
proof -
  have sel: "tv_ok env TkSelect" and read: "rotate_read env old t = Inr r0"
    using assms(2,3) by (simp_all add: all_ok_def rotate_read_def)
  obtain t1 where w1: "rotate_write env r0 a expires t = (Inr (issued env r0 a expires t), t1)"
    using rotate_write_all_ok [OF assms(2)] by blast
  obtain t2 where w2: "rotate_write env r0 b expires t1 = (Inr (issued env r0 b expires t1), t2)"
    using rotate_write_all_ok [OF assms(2)] by blast
  let ?na = "issued env r0 a expires t" and ?nb = "issued env r0 b expires t1"
  have ok1: "table_ok t1" by (rule rotated_table_ok [OF assms(1,4) w1])
  have "rt_token_hash ` set (tb_rows t1) = insert (tv_hash env a) (rt_token_hash ` set (tb_rows t))"
    using rotate_write_ok [OF w1] revoke_rows_simps(2) [of env _ t]
    by (metis (no_types, lifting) Un_insert_right image_Un image_insert issued_def list.set(1) list.set(2) list.set_map refresh_token.select_convs(2) set_append sup_bot_right)
  then have fresh: "fresh_token env b t1" using assms(5,6) by (simp add: fresh_token_def)
  have ok2: "table_ok t2" by (rule rotated_table_ok [OF ok1 fresh w2])
  have live: "token_live env a ?na" "token_live env b ?nb" using assms(7) by (simp_all add: token_live_def issued_def)
  have "rt_id r0 < tb_next t" using validated [OF assms(3)] assms(1) by (auto simp: table_ok_def)
  then have "?na \<in> set (tb_rows t2)"
    using rotate_write_ok [OF w1] rotate_write_ok [OF w2] by (auto simp: revoke_rows_def issued_def)
  moreover have "?nb \<in> set (tb_rows t2)" using rotate_write_ok [OF w2] by simp
  ultimately have "is_ok (validate_refresh_token env a t2)" "is_ok (validate_refresh_token env b t2)"
    using validate_unique [OF ok2 _ live(1) sel] validate_unique [OF ok2 _ live(2) sel] by simp_all
  then show ?thesis using read w1 w2 by blast
qed

theorem overlapping_rotations_both_succeed_witness:
  "\<exists>ra rb t1 t2. rotate_read plain_env ''old'' one_token = Inr ra \<and> rotate_read plain_env ''old'' one_token = Inr rb
    \<and> (\<exists>na. rotate_write plain_env ra ''x'' 50 one_token = (Inr na, t1)) \<and> (\<exists>nb. rotate_write plain_env rb ''y'' 50 t1 = (Inr nb, t2))
    \<and> is_ok (validate_refresh_token plain_env ''x'' t2) \<and> is_ok (validate_refresh_token plain_env ''y'' t2)"
proof -
  have "is_ok (validate_refresh_token plain_env ''old'' one_token)" by code_simp
  then obtain r0 where "validate_refresh_token plain_env ''old'' one_token = Inr r0" by (auto simp: is_ok_iff)
  show ?thesis
    by (rule overlapping_rotations_both_succeed [OF one_token_ok _ \<open>validate_refresh_token plain_env ''old'' one_token = Inr r0\<close>])
      (simp_all add: all_ok_def plain_env_def fresh_token_def one_token_rows)
qed

text \<open>Revoking by user or session leaves no valid token of it.\<close>

lemma revoke_logged_none_left:
  assumes "revoke_logged env P t = (Inr (), t')" and "\<And>r. P (r\<lparr>rt_revoked := True, rt_revoked_at := Some (tv_now env)\<rparr>) = P r"
  shows "\<forall>r \<in> set (tb_rows t'). P r \<longrightarrow> \<not> token_live env' token r"
  using assms by (auto simp: revoke_logged_def revoke_rows_def token_live_def Let_def split: if_splits)

lemma user_tokens_revoked:
  "revoke_all_user_tokens env user t = (Inr (), t') \<Longrightarrow> validate_refresh_token env' token t' = Inr r \<Longrightarrow> rt_user r \<noteq> user"
  using revoke_logged_none_left [of env "\<lambda>r. rt_user r = user" t t' env' token] validated [of env' token t' r]
  by (auto simp: revoke_all_user_tokens_def)

lemma session_tokens_revoked:
  "revoke_session_tokens env session t = (Inr (), t') \<Longrightarrow> validate_refresh_token env' token t' = Inr r \<Longrightarrow> rt_session r \<noteq> session"
  using revoke_logged_none_left [of env "\<lambda>r. rt_session r = session" t t' env' token] validated [of env' token t' r]
  by (auto simp: revoke_session_tokens_def)

end
