(* ===== verification/Tenants.thy ===== *)
theory Tenants
  imports GoLib TtlStore
begin

text \<open>
  Tenants (internal/tenant): the cache of resolved tenants and the resolver over the table of
  tenants (resolver.go), and the middleware that finds the tenant of a request (middleware.go,
  context.go).
\<close>

section \<open>Cache\<close>

record tenant_info =
  ti_id :: uuid
  ti_slug :: string
  ti_name :: string
  ti_active :: bool
  ti_plan :: string

record tenant_entry =
  te_info :: tenant_info
  te_expires :: time

record tenant_cache =
  tc_entries :: "(string \<times> tenant_entry) list"
  tc_ttl :: time

definition new_tenant_cache :: "time \<Rightarrow> tenant_cache" where
  "new_tenant_cache ttl = \<lparr>tc_entries = [], tc_ttl = ttl\<rparr>"

definition tc_get :: "time \<Rightarrow> string \<Rightarrow> tenant_cache \<Rightarrow> tenant_info option" where
  "tc_get now slug c =
     (case map_of (tc_entries c) slug of
        None \<Rightarrow> None
      | Some e \<Rightarrow> if now > te_expires e then None else Some (te_info e))"

text \<open>The search by identifier excludes the instant of expiry, which \<open>tc_get\<close> still serves.\<close>

definition tc_get_by_id :: "time \<Rightarrow> uuid \<Rightarrow> tenant_cache \<Rightarrow> tenant_info option" where
  "tc_get_by_id now i c =
     map_option te_info (find (\<lambda>e. ti_id (te_info e) = i \<and> now < te_expires e) (map snd (tc_entries c)))"

definition tc_set :: "time \<Rightarrow> string \<Rightarrow> tenant_info \<Rightarrow> tenant_cache \<Rightarrow> tenant_cache" where
  "tc_set now slug info c =
     c\<lparr>tc_entries := AList.update slug \<lparr>te_info = info, te_expires = now + tc_ttl c\<rparr> (tc_entries c)\<rparr>"

definition tc_delete :: "string \<Rightarrow> tenant_cache \<Rightarrow> tenant_cache" where
  "tc_delete slug c = c\<lparr>tc_entries := AList.delete slug (tc_entries c)\<rparr>"

definition tc_clear :: "tenant_cache \<Rightarrow> tenant_cache" where
  "tc_clear c = c\<lparr>tc_entries := []\<rparr>"

text \<open>One tick of the cleanup goroutine.\<close>

definition tc_cleanup :: "time \<Rightarrow> tenant_cache \<Rightarrow> tenant_cache" where
  "tc_cleanup now c = c\<lparr>tc_entries := filter (\<lambda>(_, e). \<not> now > te_expires e) (tc_entries c)\<rparr>"

interpretation tenant_store: ttl_store
  "\<lambda>_. True" tc_get tc_set tc_delete tc_ttl
proof unfold_locales
  fix s :: tenant_cache and t t' :: time and k k' :: string and v :: tenant_info
  show "tc_get t' k' (tc_set t k v s)
      = (if k' = k then (if t' \<le> t + tc_ttl s then Some v else None) else tc_get t' k' s)"
    by (simp add: tc_get_def tc_set_def)
  show "tc_get t' k' (tc_delete k s) = (if k' = k then None else tc_get t' k' s)"
    by (simp add: tc_get_def tc_delete_def)
  show "tc_get t k s = Some v \<Longrightarrow> t' \<le> t \<Longrightarrow> tc_get t' k s = Some v"
    by (auto simp: tc_get_def split: option.splits if_splits)
qed (simp_all add: tc_set_def tc_delete_def)

section \<open>Resolver\<close>

record tenant_resolver =
  tr_cache :: "tenant_cache option"
  tr_enable_cache :: bool
  tr_cache_ttl :: time
  tr_default_slug :: string
  tr_default_id :: uuid

record resolver_config =
  rs_has_db :: bool
  rs_default_slug :: string
  rs_default_id :: uuid
  rs_cache_ttl :: time
  rs_enable_cache :: bool

text \<open>What the resolver asks of the world: the time, the rows of the table and whether a query works.\<close>

record tenant_env =
  tv_now :: time
  tv_rows :: "tenant_info list"
  tv_query_ok :: bool

datatype tenant_error =
    TenantNotFound string
  | TenantQueryFailed
  | NoDefaultTenant
  | NoDatabase
  | NoTenantContext

definition in_cache :: "(tenant_cache \<Rightarrow> 'a option) \<Rightarrow> tenant_resolver \<Rightarrow> 'a option" where
  "in_cache f r = (case (tr_enable_cache r, tr_cache r) of (True, Some c) \<Rightarrow> f c | _ \<Rightarrow> None)"

definition on_cache :: "(tenant_cache \<Rightarrow> tenant_cache) \<Rightarrow> tenant_resolver \<Rightarrow> tenant_resolver" where
  "on_cache f r =
     (case (tr_enable_cache r, tr_cache r) of (True, Some c) \<Rightarrow> r\<lparr>tr_cache := Some (f c)\<rparr> | _ \<Rightarrow> r)"

definition resolve_by_slug ::
  "tenant_env \<Rightarrow> string \<Rightarrow> tenant_resolver \<Rightarrow> (tenant_error + tenant_info) \<times> tenant_resolver" where
  "resolve_by_slug env slug r =
     (case in_cache (tc_get (tv_now env) slug) r of
        Some info \<Rightarrow> (Inr info, r)
      | None \<Rightarrow>
          if \<not> tv_query_ok env then (Inl TenantQueryFailed, r)
          else (case find (\<lambda>t. ti_slug t = slug \<and> ti_active t) (tv_rows env) of
                  None \<Rightarrow> (Inl (TenantNotFound slug), r)
                | Some info \<Rightarrow> (Inr info, on_cache (tc_set (tv_now env) slug info) r)))"

definition resolve_by_id ::
  "tenant_env \<Rightarrow> uuid \<Rightarrow> tenant_resolver \<Rightarrow> (tenant_error + tenant_info) \<times> tenant_resolver" where
  "resolve_by_id env i r =
     (case in_cache (tc_get_by_id (tv_now env) i) r of
        Some info \<Rightarrow> (Inr info, r)
      | None \<Rightarrow>
          if \<not> tv_query_ok env then (Inl TenantQueryFailed, r)
          else (case find (\<lambda>t. ti_id t = i \<and> ti_active t) (tv_rows env) of
                  None \<Rightarrow> (Inl (TenantNotFound i), r)
                | Some info \<Rightarrow> (Inr info, on_cache (tc_set (tv_now env) (ti_slug info) info) r)))"

definition get_default_tenant ::
  "tenant_env \<Rightarrow> tenant_resolver \<Rightarrow> (tenant_error + tenant_info) \<times> tenant_resolver" where
  "get_default_tenant env r =
     (if tr_default_slug r \<noteq> [] then resolve_by_slug env (tr_default_slug r) r
      else if tr_default_id r \<noteq> uuid_nil then resolve_by_id env (tr_default_id r) r
      else (Inl NoDefaultTenant, r))"

definition invalidate_tenant :: "string \<Rightarrow> tenant_resolver \<Rightarrow> tenant_resolver" where
  "invalidate_tenant slug r = on_cache (tc_delete slug) r"

definition clear_tenants :: "tenant_resolver \<Rightarrow> tenant_resolver" where
  "clear_tenants r = on_cache tc_clear r"

definition fresh_resolver :: "resolver_config \<Rightarrow> tenant_resolver" where
  "fresh_resolver cfg =
     (let ttl = (if rs_cache_ttl cfg = 0 then 5 * minute else rs_cache_ttl cfg)
      in \<lparr>tr_cache = (if rs_enable_cache cfg then Some (new_tenant_cache ttl) else None),
          tr_enable_cache = rs_enable_cache cfg, tr_cache_ttl = ttl,
          tr_default_slug = rs_default_slug cfg, tr_default_id = rs_default_id cfg\<rparr>)"

text \<open>A missing default tenant is only logged.\<close>

definition new_tenant_resolver :: "tenant_env \<Rightarrow> resolver_config \<Rightarrow> tenant_error + tenant_resolver" where
  "new_tenant_resolver env cfg =
     (if \<not> rs_has_db cfg then Inl NoDatabase
      else let r = fresh_resolver cfg
           in Inr (if rs_default_slug cfg = [] then r else snd (resolve_by_slug env (rs_default_slug cfg) r)))"

section \<open>Middleware\<close>

record tenant_middleware =
  tm_base_domain :: string
  tm_header_name :: string
  tm_allow_no_tenant :: bool

definition new_tenant_middleware :: "tenant_middleware \<Rightarrow> tenant_middleware" where
  "new_tenant_middleware c =
     \<lparr>tm_base_domain = (if tm_base_domain c = [] then ''localhost'' else tm_base_domain c),
      tm_header_name = (if tm_header_name c = [] then ''X-Tenant-Slug'' else tm_header_name c),
      tm_allow_no_tenant = tm_allow_no_tenant c\<rparr>"

record http_request =
  hr_path :: string
  hr_header :: "string \<Rightarrow> string"
  hr_host :: string
  hr_url_host :: string

definition public_paths :: "string list" where
  "public_paths =
    [''/api/v1/tenants/validate/'', ''/api/v1/auth/login'', ''/api/v1/auth/register'',
     ''/api/v1/auth/forgot-password'', ''/api/v1/auth/reset-password'', ''/health'', ''/metrics'']"

definition is_public_endpoint :: "string \<Rightarrow> bool" where
  "is_public_endpoint p = list_ex (has_prefix p) public_paths"

definition slug_of_host :: "string \<Rightarrow> string \<Rightarrow> string" where
  "slug_of_host base host =
     (if host = base \<or> host = ''localhost'' \<or> host = ''127.0.0.1'' then []
      else if \<not> has_suffix host (''.'' @ base) \<and> host \<noteq> base then []
      else last (split_on CHR ''.'' (trim_suffix host (''.'' @ base))))"

definition extract_tenant_slug :: "tenant_middleware \<Rightarrow> http_request \<Rightarrow> string" where
  "extract_tenant_slug m r =
     (let h = hr_header r (tm_header_name m)
      in if h \<noteq> [] then h
         else let host = (if hr_host r = [] then hr_url_host r else hr_host r)
              in slug_of_host (tm_base_domain m) (before_char CHR '':'' host))"

text \<open>
  What happens to a request: it is passed on without a tenant, with one, or it is refused; the
  flag of a refusal says that the default tenant could not be found.
\<close>

datatype tenant_outcome = PassedPublic | PassedAs tenant_info | Refused bool tenant_error

definition resolve_request ::
  "tenant_env \<Rightarrow> tenant_middleware \<Rightarrow> http_request \<Rightarrow> tenant_resolver \<Rightarrow> tenant_outcome \<times> tenant_resolver" where
  "resolve_request env m q r =
     (let slug = extract_tenant_slug m q;
          (res, r) = (if slug \<noteq> [] then (Inr slug, r)
                      else if tm_allow_no_tenant m
                      then (case get_default_tenant env r of
                              (Inl e, r) \<Rightarrow> (Inl (Refused True e), r)
                            | (Inr info, r) \<Rightarrow> (Inr (ti_slug info), r))
                      else (Inl (Refused False NoTenantContext), r))
      in case res of
           Inl refusal \<Rightarrow> (refusal, r)
         | Inr slug \<Rightarrow>
             (case resolve_by_slug env slug r of
                (Inl e, r) \<Rightarrow> (Refused False e, r)
              | (Inr info, r) \<Rightarrow> (PassedAs info, r)))"

text \<open>The \<^verbatim>\<open>net/http\<close> handler lets public paths through; the Gin adapter does not know them.\<close>

definition tenant_handler ::
  "tenant_env \<Rightarrow> tenant_middleware \<Rightarrow> http_request \<Rightarrow> tenant_resolver \<Rightarrow> tenant_outcome \<times> tenant_resolver" where
  "tenant_handler env m q r =
     (if is_public_endpoint (hr_path q) then (PassedPublic, r) else resolve_request env m q r)"

definition gin_middleware ::
  "tenant_env \<Rightarrow> tenant_middleware \<Rightarrow> http_request \<Rightarrow> tenant_resolver \<Rightarrow> tenant_outcome \<times> tenant_resolver" where
  "gin_middleware env m q r = resolve_request env m q r"

definition default_error_status :: "tenant_error \<Rightarrow> nat" where
  "default_error_status e =
     (case e of NoTenantContext \<Rightarrow> 400 | TenantNotFound _ \<Rightarrow> 404 | _ \<Rightarrow> 500)"

definition gin_error_status :: "bool \<Rightarrow> tenant_error \<Rightarrow> nat" where
  "gin_error_status at_default e = (if at_default then 500 else default_error_status e)"

section \<open>Lookups\<close>

lemma on_cache_keeps [simp]:
  "tr_enable_cache (on_cache f r) = tr_enable_cache r" "tr_cache_ttl (on_cache f r) = tr_cache_ttl r"
  "tr_default_slug (on_cache f r) = tr_default_slug r" "tr_default_id (on_cache f r) = tr_default_id r"
  by (auto simp: on_cache_def split: option.split bool.split)

lemma resolve_by_slug_cases:
  assumes "resolve_by_slug env slug r = (Inr info, r')"
  obtains (cached) c where "tr_enable_cache r" "tr_cache r = Some c" "tc_get (tv_now env) slug c = Some info" "r' = r"
  | (queried) "info \<in> set (tv_rows env)" "ti_slug info = slug" "ti_active info"
      "r' = on_cache (tc_set (tv_now env) slug info) r"
proof (cases "in_cache (tc_get (tv_now env) slug) r")
  case None
  with assms have "find (\<lambda>t. ti_slug t = slug \<and> ti_active t) (tv_rows env) = Some info"
      "r' = on_cache (tc_set (tv_now env) slug info) r"
    by (simp_all add: resolve_by_slug_def split: if_split_asm option.split_asm)
  then show ?thesis using queried by (blast dest: find_SomeD)
next
  case (Some info')
  with assms have "info' = info" "r' = r" by (simp_all add: resolve_by_slug_def)
  with Some show ?thesis using cached by (auto simp: in_cache_def split: bool.splits option.splits)
qed

lemma resolve_by_id_cases:
  assumes "resolve_by_id env i r = (Inr info, r')"
  obtains (cached) c where "tr_enable_cache r" "tr_cache r = Some c" "tc_get_by_id (tv_now env) i c = Some info" "r' = r"
  | (queried) "info \<in> set (tv_rows env)" "ti_id info = i" "ti_active info"
      "r' = on_cache (tc_set (tv_now env) (ti_slug info) info) r"
proof (cases "in_cache (tc_get_by_id (tv_now env) i) r")
  case None
  with assms have "find (\<lambda>t. ti_id t = i \<and> ti_active t) (tv_rows env) = Some info"
      "r' = on_cache (tc_set (tv_now env) (ti_slug info) info) r"
    by (simp_all add: resolve_by_id_def split: if_split_asm option.split_asm)
  then show ?thesis using queried by (blast dest: find_SomeD)
next
  case (Some info')
  with assms have "info' = info" "r' = r" by (simp_all add: resolve_by_id_def)
  with Some show ?thesis using cached by (auto simp: in_cache_def split: bool.splits option.splits)
qed

lemma resolve_error_keeps:
  "resolve_by_slug env slug r = (Inl e, r') \<Longrightarrow> r' = r" "resolve_by_id env i r = (Inl e, r') \<Longrightarrow> r' = r"
  unfolding resolve_by_slug_def resolve_by_id_def by (simp_all split: option.splits if_split_asm)

text \<open>
  A resolved tenant is answered from the cache until its time to live has passed, whatever the
  database does meanwhile; after an invalidation the table decides again.
\<close>

lemma resolved_stays_resolved:
  assumes "resolve_by_slug env slug r = (Inr info, r')" and "tr_cache r = Some c" and "tr_enable_cache r"
    and "tv_now env \<le> tv_now env'"
    and "tc_get (tv_now env) slug c = None \<Longrightarrow> tv_now env' \<le> tv_now env + tc_ttl c"
    and "tc_get (tv_now env) slug c \<noteq> None \<Longrightarrow> tc_get (tv_now env') slug c \<noteq> None"
  shows "resolve_by_slug env' slug r' = (Inr info, r')"
proof (cases "tc_get (tv_now env) slug c")
  case None
  then show ?thesis
    using assms
    by (auto simp: resolve_by_slug_def in_cache_def on_cache_def tenant_store.lookup_put
        split: if_split_asm option.split_asm)
next
  case (Some info0)
  then have r: "info0 = info" "r' = r" using assms(1-3) by (simp_all add: resolve_by_slug_def in_cache_def)
  obtain info' where later: "tc_get (tv_now env') slug c = Some info'" using assms(6) Some by auto
  then have "info' = info" using tenant_store.lookup_earlier [OF later assms(4)] Some r by simp
  with later r assms(2,3) show ?thesis by (simp add: resolve_by_slug_def in_cache_def)
qed

lemma invalidated_asks_table:
  assumes "tr_enable_cache r \<Longrightarrow> tr_cache r \<noteq> None"
  shows "fst (resolve_by_slug env slug (invalidate_tenant slug r))
    = (if \<not> tv_query_ok env then Inl TenantQueryFailed
       else case find (\<lambda>t. ti_slug t = slug \<and> ti_active t) (tv_rows env) of
              None \<Rightarrow> Inl (TenantNotFound slug) | Some info \<Rightarrow> Inr info)"
  using assms
  by (auto simp: resolve_by_slug_def invalidate_tenant_def on_cache_def in_cache_def tenant_store.lookup_remove
      split: option.splits bool.splits)

section \<open>Staleness\<close>

text \<open>
  The life of a resolver: time passes, the table is edited, requests resolve, the cache is
  invalidated, cleared and cleaned. \<open>tw_seen\<close> records which active rows the table had when.
\<close>

record tenant_world =
  tw_now :: time
  tw_rows :: "tenant_info list"
  tw_resolver :: tenant_resolver
  tw_seen :: "(time \<times> tenant_info) list"

definition observe :: "tenant_world \<Rightarrow> tenant_world" where
  "observe w = w\<lparr>tw_seen := map (Pair (tw_now w)) (filter ti_active (tw_rows w)) @ tw_seen w\<rparr>"

definition world_env :: "bool \<Rightarrow> tenant_world \<Rightarrow> tenant_env" where
  "world_env ok w = \<lparr>tv_now = tw_now w, tv_rows = tw_rows w, tv_query_ok = ok\<rparr>"

definition set_resolver :: "tenant_resolver \<Rightarrow> tenant_world \<Rightarrow> tenant_world" where
  "set_resolver r w = w\<lparr>tw_resolver := r\<rparr>"

inductive tenant_step :: "tenant_world \<Rightarrow> tenant_world \<Rightarrow> bool" where
  Tick: "0 \<le> d \<Longrightarrow> tenant_step w (observe (w\<lparr>tw_now := tw_now w + d\<rparr>))"
| Edit: "tenant_step w (observe (w\<lparr>tw_rows := rows\<rparr>))"
| BySlug: "tenant_step w (set_resolver (snd (resolve_by_slug (world_env ok w) slug (tw_resolver w))) w)"
| ById: "tenant_step w (set_resolver (snd (resolve_by_id (world_env ok w) i (tw_resolver w))) w)"
| Invalidate: "tenant_step w (set_resolver (invalidate_tenant slug (tw_resolver w)) w)"
| Clear: "tenant_step w (set_resolver (clear_tenants (tw_resolver w)) w)"
| Cleanup: "tenant_step w (set_resolver (on_cache (tc_cleanup (tw_now w)) (tw_resolver w)) w)"

inductive tenant_reachable :: "resolver_config \<Rightarrow> tenant_world \<Rightarrow> bool" for cfg where
  Start: "new_tenant_resolver (world_env ok w) cfg = Inr r \<Longrightarrow> tw_seen w = []
    \<Longrightarrow> tenant_reachable cfg (observe (set_resolver r w))"
| Step: "tenant_reachable cfg w \<Longrightarrow> tenant_step w w' \<Longrightarrow> tenant_reachable cfg w'"

text \<open>Every cached entry is an active row that the table had one time to live before it expires.\<close>

definition entry_ok :: "(time \<times> tenant_info) list \<Rightarrow> time \<Rightarrow> string \<times> tenant_entry \<Rightarrow> bool" where
  "entry_ok seen ttl x \<longleftrightarrow>
     ti_slug (te_info (snd x)) = fst x \<and> ti_active (te_info (snd x)) \<and> (te_expires (snd x) - ttl, te_info (snd x)) \<in> set seen"

definition cache_ok :: "(time \<times> tenant_info) list \<Rightarrow> time \<Rightarrow> tenant_resolver \<Rightarrow> bool" where
  "cache_ok seen ttl r \<longleftrightarrow>
     tr_cache_ttl r = ttl \<and>
     (case tr_cache r of None \<Rightarrow> True | Some c \<Rightarrow> tc_ttl c = ttl \<and> (\<forall>x \<in> set (tc_entries c). entry_ok seen ttl x))"

definition world_ok :: "time \<Rightarrow> tenant_world \<Rightarrow> bool" where
  "world_ok ttl w \<longleftrightarrow>
     cache_ok (tw_seen w) ttl (tw_resolver w)
     \<and> (\<forall>i \<in> set (tw_rows w). ti_active i \<longrightarrow> (tw_now w, i) \<in> set (tw_seen w))
     \<and> (\<forall>x \<in> set (tw_seen w). fst x \<le> tw_now w)"

lemma entry_ok_mono: "entry_ok seen ttl x \<Longrightarrow> set seen \<subseteq> set seen' \<Longrightarrow> entry_ok seen' ttl x"
  by (auto simp: entry_ok_def)

lemma cache_ok_mono: "cache_ok seen ttl r \<Longrightarrow> set seen \<subseteq> set seen' \<Longrightarrow> cache_ok seen' ttl r"
  by (auto simp: cache_ok_def intro: entry_ok_mono split: option.splits)

lemma cache_ok_on_cache:
  assumes "cache_ok seen ttl r"
    and "\<And>c. tc_ttl c = ttl \<Longrightarrow> \<forall>x \<in> set (tc_entries c). entry_ok seen ttl x
      \<Longrightarrow> tc_ttl (f c) = ttl \<and> (\<forall>x \<in> set (tc_entries (f c)). entry_ok seen ttl x)"
  shows "cache_ok seen ttl (on_cache f r)"
  using assms unfolding cache_ok_def on_cache_def by (auto split: option.splits bool.splits)

lemma cache_ok_set:
  assumes "cache_ok seen ttl r" and "(now, info) \<in> set seen" and "ti_active info" and "ti_slug info = slug"
  shows "cache_ok seen ttl (on_cache (tc_set now slug info) r)"
  using assms(1)
proof (rule cache_ok_on_cache)
  fix c :: tenant_cache assume c: "tc_ttl c = ttl" "\<forall>x \<in> set (tc_entries c). entry_ok seen ttl x"
  have "entry_ok seen ttl (slug, \<lparr>te_info = info, te_expires = now + tc_ttl c\<rparr>)"
    using assms c by (simp add: entry_ok_def)
  with c show "tc_ttl (tc_set now slug info c) = ttl \<and> (\<forall>x \<in> set (tc_entries (tc_set now slug info c)). entry_ok seen ttl x)"
    using set_update_subset [of slug "\<lparr>te_info = info, te_expires = now + tc_ttl c\<rparr>" "tc_entries c"]
    by (auto simp: tc_set_def)
qed

lemma cache_ok_drop:
  "cache_ok seen ttl r \<Longrightarrow> cache_ok seen ttl (invalidate_tenant slug r)"
  "cache_ok seen ttl r \<Longrightarrow> cache_ok seen ttl (clear_tenants r)"
  "cache_ok seen ttl r \<Longrightarrow> cache_ok seen ttl (on_cache (tc_cleanup now) r)"
proof -
  assume r: "cache_ok seen ttl r"
  show "cache_ok seen ttl (invalidate_tenant slug r)"
    unfolding invalidate_tenant_def using r
  proof (rule cache_ok_on_cache)
    fix c :: tenant_cache assume "tc_ttl c = ttl" "\<forall>x \<in> set (tc_entries c). entry_ok seen ttl x"
    then show "tc_ttl (tc_delete slug c) = ttl \<and> (\<forall>x \<in> set (tc_entries (tc_delete slug c)). entry_ok seen ttl x)"
      using set_delete_subset [of slug "tc_entries c"] by (auto simp: tc_delete_def)
  qed
  show "cache_ok seen ttl (clear_tenants r)" "cache_ok seen ttl (on_cache (tc_cleanup now) r)"
    unfolding clear_tenants_def using r by (auto intro!: cache_ok_on_cache simp: tc_clear_def tc_cleanup_def)
qed

lemma cache_ok_resolve:
  assumes "cache_ok seen ttl r" and "\<forall>i \<in> set (tv_rows env). ti_active i \<longrightarrow> (tv_now env, i) \<in> set seen"
  shows "cache_ok seen ttl (snd (resolve_by_slug env slug r))" "cache_ok seen ttl (snd (resolve_by_id env i r))"
proof -
  obtain res r' where slug: "resolve_by_slug env slug r = (res, r')" by fastforce
  obtain res2 r2 where id: "resolve_by_id env i r = (res2, r2)" by fastforce
  have "cache_ok seen ttl r'"
  proof (cases res)
    case (Inr info)
    with slug have "resolve_by_slug env slug r = (Inr info, r')" by simp
    then show ?thesis by (cases rule: resolve_by_slug_cases) (use assms in \<open>auto intro!: cache_ok_set\<close>)
  qed (use slug assms(1) resolve_error_keeps(1) [of env slug r] in auto)
  then show "cache_ok seen ttl (snd (resolve_by_slug env slug r))" using slug by simp
  have "cache_ok seen ttl r2"
  proof (cases res2)
    case (Inr info)
    with id have "resolve_by_id env i r = (Inr info, r2)" by simp
    then show ?thesis by (cases rule: resolve_by_id_cases) (use assms in \<open>auto intro!: cache_ok_set\<close>)
  qed (use id assms(1) resolve_error_keeps(2) [of env i r] in auto)
  then show "cache_ok seen ttl (snd (resolve_by_id env i r))" using id by simp
qed

definition effective_ttl :: "resolver_config \<Rightarrow> time" where
  "effective_ttl cfg = (if rs_cache_ttl cfg = 0 then 5 * minute else rs_cache_ttl cfg)"

lemma world_ok_observe:
  assumes "cache_ok (tw_seen w) ttl (tw_resolver w)" and "\<forall>x \<in> set (tw_seen w). fst x \<le> tw_now w"
  shows "world_ok ttl (observe w)"
  using assms unfolding world_ok_def by (auto simp: observe_def intro: cache_ok_mono)

lemma world_ok_resolver:
  "world_ok ttl w \<Longrightarrow> cache_ok (tw_seen w) ttl r \<Longrightarrow> world_ok ttl (set_resolver r w)"
  by (simp add: world_ok_def set_resolver_def)

lemma world_ok_step: "tenant_step w w' \<Longrightarrow> world_ok ttl w \<Longrightarrow> world_ok ttl w'"
proof (induction rule: tenant_step.induct)
  case (Tick d w)
  then show ?case by (intro world_ok_observe) (auto simp: world_ok_def)
next
  case (Edit w rows)
  then show ?case by (intro world_ok_observe) (auto simp: world_ok_def)
next
  case (BySlug w ok slug)
  then show ?case by (intro world_ok_resolver cache_ok_resolve) (auto simp: world_ok_def world_env_def)
next
  case (ById w ok i)
  then show ?case by (intro world_ok_resolver cache_ok_resolve) (auto simp: world_ok_def world_env_def)
next
  case (Invalidate w slug)
  then show ?case by (intro world_ok_resolver cache_ok_drop) (auto simp: world_ok_def)
next
  case (Clear w)
  then show ?case by (intro world_ok_resolver cache_ok_drop) (auto simp: world_ok_def)
next
  case (Cleanup w)
  then show ?case by (intro world_ok_resolver cache_ok_drop) (auto simp: world_ok_def)
qed

lemma world_ok_start:
  assumes "new_tenant_resolver (world_env ok w) cfg = Inr r" and "tw_seen w = []"
  shows "world_ok (effective_ttl cfg) (observe (set_resolver r w))"
proof -
  let ?seen = "map (Pair (tw_now w)) (filter ti_active (tw_rows w))"
  have seen: "\<forall>i \<in> set (tv_rows (world_env ok w)). ti_active i \<longrightarrow> (tv_now (world_env ok w), i) \<in> set ?seen"
    by (auto simp: world_env_def)
  have fresh: "cache_ok ?seen (effective_ttl cfg) (fresh_resolver cfg)"
    by (simp add: fresh_resolver_def Let_def effective_ttl_def cache_ok_def new_tenant_cache_def)
  have "cache_ok ?seen (effective_ttl cfg) r"
    using assms(1) fresh cache_ok_resolve(1) [OF fresh seen]
    by (auto simp: new_tenant_resolver_def Let_def split: if_splits)
  then show ?thesis
    using assms(2) by (auto simp: world_ok_def observe_def set_resolver_def)
qed

lemma reachable_world_ok: "tenant_reachable cfg w \<Longrightarrow> world_ok (effective_ttl cfg) w"
  by (induction rule: tenant_reachable.induct) (auto intro: world_ok_step world_ok_start)

lemma resolved_recently:
  assumes "world_ok ttl w" and "0 \<le> ttl" and "resolve_by_slug (world_env ok w) slug (tw_resolver w) = (Inr info, r')"
  shows "ti_slug info = slug \<and> ti_active info
    \<and> (\<exists>t. (t, info) \<in> set (tw_seen w) \<and> tw_now w - ttl \<le> t \<and> t \<le> tw_now w)"
  using assms(3)
proof (cases rule: resolve_by_slug_cases)
  case (cached c)
  then obtain e where e: "(slug, e) \<in> set (tc_entries c)" "te_info e = info" "tw_now w \<le> te_expires e"
    by (auto simp: tc_get_def world_env_def dest: map_of_SomeD split: option.splits if_splits)
  with assms(1) cached have "entry_ok (tw_seen w) ttl (slug, e)" by (auto simp: world_ok_def cache_ok_def)
  with e assms(1) show ?thesis
    by (auto simp: entry_ok_def world_ok_def intro!: exI [of _ "te_expires e - ttl"])
next
  case queried
  with assms show ?thesis by (auto simp: world_ok_def world_env_def intro!: exI [of _ "tw_now w"])
qed

lemma default_keeps_world_ok:
  assumes "world_ok ttl w" and "get_default_tenant (world_env ok w) (tw_resolver w) = (res, r')"
  shows "world_ok ttl (set_resolver r' w)"
proof -
  have rows: "\<forall>i \<in> set (tv_rows (world_env ok w)). ti_active i \<longrightarrow> (tv_now (world_env ok w), i) \<in> set (tw_seen w)"
    and cache: "cache_ok (tw_seen w) ttl (tw_resolver w)"
    using assms(1) by (auto simp: world_ok_def world_env_def)
  have "r' = snd (get_default_tenant (world_env ok w) (tw_resolver w))" using assms(2) by simp
  then have "cache_ok (tw_seen w) ttl r'"
    using cache cache_ok_resolve [OF cache rows] by (simp add: get_default_tenant_def)
  with assms(1) show ?thesis by (rule world_ok_resolver)
qed

lemma request_resolved:
  assumes "world_ok ttl w" and "0 \<le> ttl" and "resolve_request (world_env ok w) m q (tw_resolver w) = (PassedAs info, r')"
  shows "(extract_tenant_slug m q \<noteq> [] \<longrightarrow> ti_slug info = extract_tenant_slug m q) \<and> ti_active info
    \<and> (\<exists>t. (t, info) \<in> set (tw_seen w) \<and> tw_now w - ttl \<le> t \<and> t \<le> tw_now w)"
proof (cases "extract_tenant_slug m q = []")
  case False
  with assms(3) have "resolve_by_slug (world_env ok w) (extract_tenant_slug m q) (tw_resolver w) = (Inr info, r')"
    by (auto simp: resolve_request_def split: prod.splits sum.splits)
  from resolved_recently [OF assms(1,2) this] show ?thesis by simp
next
  case True
  with assms(3) obtain d r0 where d: "get_default_tenant (world_env ok w) (tw_resolver w) = (Inr d, r0)"
    and r: "resolve_by_slug (world_env ok w) (ti_slug d) r0 = (Inr info, r')"
    by (auto simp: resolve_request_def split: prod.splits sum.splits if_splits)
  note ok = default_keeps_world_ok [OF assms(1) d]
  have "world_env ok (set_resolver r0 w) = world_env ok w" by (simp add: world_env_def set_resolver_def)
  with r have "resolve_by_slug (world_env ok (set_resolver r0 w)) (ti_slug d) (tw_resolver (set_resolver r0 w)) = (Inr info, r')"
    by (simp add: set_resolver_def)
  from resolved_recently [OF ok assms(2) this] True show ?thesis by (simp add: set_resolver_def)
qed

text \<open>
  C19: Requests reach the tenant they name, and a deactivated tenant is cut off in time. In every
  state that resolutions, edits of the table, invalidations and cache clean-ups can lead to, a
  request that either middleware passes on for a tenant is passed on for the tenant whose slug it
  names (if it names one), and the table held that tenant as an active row, exactly as it is
  handed out, at some moment no longer ago than the cache's time to live.
\<close>

theorem requests_reach_their_tenant:
  assumes "tenant_reachable cfg w" and "0 \<le> rs_cache_ttl cfg"
    and "tenant_handler (world_env ok w) m q (tw_resolver w) = (PassedAs info, r')
      \<or> gin_middleware (world_env ok w) m q (tw_resolver w) = (PassedAs info, r')"
  shows "(extract_tenant_slug m q \<noteq> [] \<longrightarrow> ti_slug info = extract_tenant_slug m q) \<and> ti_active info
    \<and> (\<exists>t. (t, info) \<in> set (tw_seen w) \<and> tw_now w - effective_ttl cfg \<le> t \<and> t \<le> tw_now w)"
proof (rule request_resolved)
  show "world_ok (effective_ttl cfg) w" using assms(1) by (rule reachable_world_ok)
  show "0 \<le> effective_ttl cfg" using assms(2) by (simp add: effective_ttl_def)
  show "resolve_request (world_env ok w) m q (tw_resolver w) = (PassedAs info, r')"
    using assms(3) by (auto simp: tenant_handler_def gin_middleware_def split: if_splits)
qed

definition demo_tenant :: tenant_info where
  "demo_tenant = \<lparr>ti_id = ''1'', ti_slug = ''alpha'', ti_name = ''Alpha'', ti_active = True, ti_plan = ''basic''\<rparr>"

definition demo_config :: resolver_config where
  "demo_config = \<lparr>rs_has_db = True, rs_default_slug = ''alpha'', rs_default_id = uuid_nil, rs_cache_ttl = 0, rs_enable_cache = True\<rparr>"

definition demo_world :: tenant_world where
  "demo_world =
     (let w = \<lparr>tw_now = 0, tw_rows = [demo_tenant], tw_resolver = fresh_resolver demo_config, tw_seen = []\<rparr>
      in observe (set_resolver (projr (new_tenant_resolver (world_env True w) demo_config)) w))"

definition demo_middleware :: tenant_middleware where
  "demo_middleware = new_tenant_middleware \<lparr>tm_base_domain = ''securestor.io'', tm_header_name = [], tm_allow_no_tenant = True\<rparr>"

definition demo_request :: http_request where
  "demo_request = \<lparr>hr_path = ''/api/v1/artifacts'', hr_header = (\<lambda>_. []), hr_host = ''alpha.securestor.io:8080'', hr_url_host = []\<rparr>"

text \<open>The tenant was deactivated four minutes ago and is still served from the cache.\<close>

definition late_world :: tenant_world where
  "late_world = observe (observe (demo_world\<lparr>tw_rows := []\<rparr>)\<lparr>tw_now := tw_now (observe (demo_world\<lparr>tw_rows := []\<rparr>)) + 4 * minute\<rparr>)"

lemma late_reachable: "tenant_reachable demo_config late_world"
proof -
  let ?w = "\<lparr>tw_now = 0, tw_rows = [demo_tenant], tw_resolver = fresh_resolver demo_config, tw_seen = []\<rparr>"
  have "new_tenant_resolver (world_env True ?w) demo_config = Inr (projr (new_tenant_resolver (world_env True ?w) demo_config))"
    by (simp add: new_tenant_resolver_def Let_def demo_config_def)
  from tenant_reachable.Start [OF this] have "tenant_reachable demo_config demo_world"
    unfolding demo_world_def Let_def by simp
  then show ?thesis
    unfolding late_world_def by (rule Step [OF Step, OF _ Edit Tick]) simp
qed

theorem requests_reach_their_tenant_witness:
  "ti_active demo_tenant
    \<and> (\<exists>t. (t, demo_tenant) \<in> set (tw_seen late_world) \<and> tw_now late_world - effective_ttl demo_config \<le> t \<and> t \<le> tw_now late_world)"
proof -
  have "tenant_handler (world_env True late_world) demo_middleware demo_request (tw_resolver late_world)
      = (PassedAs demo_tenant, tw_resolver late_world)"
    by code_simp
  then show ?thesis
    using requests_reach_their_tenant [OF late_reachable, of True demo_middleware demo_request demo_tenant "tw_resolver late_world"]
    by (simp add: demo_config_def)
qed

section \<open>Hosts\<close>

text \<open>
  The host names the tenant. A tenant header decides alone; without one, a request to
  \<open>label.base\<close>, with any labels before it and any port, is for the tenant \<open>label\<close>, and a request
  to the base domain or to a host outside it is for no tenant in particular.
\<close>

theorem host_names_the_tenant:
  assumes "CHR ''.'' \<notin> set label" and "CHR '':'' \<notin> set (pre @ label @ tm_base_domain m)"
    and "pre = [] \<or> last pre = CHR ''.''" and "port = [] \<or> hd port = CHR '':''"
    and "pre @ label @ ''.'' @ tm_base_domain m \<noteq> ''127.0.0.1''"
    and "pre @ label @ ''.'' @ tm_base_domain m \<noteq> ''localhost''"
  shows "(hr_header q (tm_header_name m) \<noteq> [] \<longrightarrow> extract_tenant_slug m q = hr_header q (tm_header_name m))
    \<and> (hr_header q (tm_header_name m) = [] \<and> hr_host q = pre @ label @ ''.'' @ tm_base_domain m @ port
         \<longrightarrow> extract_tenant_slug m q = label)
    \<and> (hr_header q (tm_header_name m) = [] \<and> hr_host q \<noteq> []
         \<and> \<not> has_suffix (before_char CHR '':'' (hr_host q)) (''.'' @ tm_base_domain m) \<longrightarrow> extract_tenant_slug m q = [])"
proof (intro conjI impI)
  show "extract_tenant_slug m q = hr_header q (tm_header_name m)" if "hr_header q (tm_header_name m) \<noteq> []"
    using that by (simp add: extract_tenant_slug_def)
  show "extract_tenant_slug m q = []"
    if "hr_header q (tm_header_name m) = [] \<and> hr_host q \<noteq> []
      \<and> \<not> has_suffix (before_char CHR '':'' (hr_host q)) (''.'' @ tm_base_domain m)"
    using that by (auto simp: extract_tenant_slug_def slug_of_host_def Let_def)
  assume h: "hr_header q (tm_header_name m) = [] \<and> hr_host q = pre @ label @ ''.'' @ tm_base_domain m @ port"
  let ?host = "(pre @ label) @ ''.'' @ tm_base_domain m"
  have "before_char CHR '':'' (hr_host q) = ?host"
    using assms(2,4) h before_char_append [of "CHR '':''" ?host "tl port"] before_char_id [of "CHR '':''" ?host]
    by (cases port) auto
  moreover have "?host \<noteq> tm_base_domain m" by (auto dest: arg_cong [of _ _ length])
  with assms(5,6) have "slug_of_host (tm_base_domain m) ?host = last (split_on CHR ''.'' (pre @ label))"
    using has_suffix_append [of "pre @ label" "''.'' @ tm_base_domain m"]
      trim_suffix_append [of "pre @ label" "''.'' @ tm_base_domain m"]
    by (simp add: slug_of_host_def)
  ultimately show "extract_tenant_slug m q = label"
    using h last_split_on [OF assms(1,3)] by (simp add: extract_tenant_slug_def Let_def)
qed

theorem host_names_the_tenant_witness: "extract_tenant_slug demo_middleware demo_request = ''alpha''"
proof -
  have d: "tm_base_domain demo_middleware = ''securestor.io''" "hr_host demo_request = ''alpha.securestor.io:8080''"
    "hr_header demo_request (tm_header_name demo_middleware) = []"
    by (simp_all add: demo_middleware_def new_tenant_middleware_def demo_request_def)
  show ?thesis
    using host_names_the_tenant [of "''alpha''" "[]" demo_middleware "'':8080''" demo_request] by (simp add: d)
qed

section \<open>The middleware of the server\<close>

text \<open>
  The server installs another middleware (internal/middleware/gin_tenant_middleware.go) with its
  own reading of the host. Its context is a map; the handlers behind it are a function.
\<close>

datatype ctx_value = CtxId uuid | CtxText string

type_synonym gin_context = "string \<rightharpoonup> ctx_value"

definition split_host :: "string \<Rightarrow> string list" where
  "split_host host =
     (let parts = split_on CHR ''.'' (before_char CHR '':'' host)
      in if last parts = [] then butlast parts else parts)"

definition gin_extract_slug :: "string \<Rightarrow> string" where
  "gin_extract_slug host =
     (if host = ''localhost'' \<or> host = ''localhost:8080'' then []
      else let parts = split_host host in if length parts > 2 then hd parts else [])"

definition resolve_id_from_slug :: "string \<Rightarrow> uuid" where
  "resolve_id_from_slug slug =
     (if slug = ''default'' then ''bfbde431-c627-49fe-9295-9e51643dc190'' else uuid_nil)"

definition gin_tenant_chain ::
  "(gin_context \<Rightarrow> 'resp \<times> gin_context) \<Rightarrow> string \<Rightarrow> string \<Rightarrow> gin_context \<Rightarrow> 'resp \<times> gin_context" where
  "gin_tenant_chain handlers header host ctx =
     (let (resp, ctx) = handlers ctx
      in if ctx ''tenant_id'' \<noteq> None then (resp, ctx)
         else let slug = (if header = [] then gin_extract_slug host else header);
                  slug = (if slug = [] then ''default'' else slug)
              in (resp, ctx(''tenant_id'' \<mapsto> CtxId (resolve_id_from_slug slug), ''tenant_slug'' \<mapsto> CtxText slug)))"

lemma tenant_set_after_handlers:
  "fst (gin_tenant_chain handlers header host ctx) = fst (handlers ctx)"
  by (simp add: gin_tenant_chain_def Let_def split: prod.split)

lemma two_readings_of_a_host:
  "gin_extract_slug ''api.alpha.securestor.io'' = ''api''"
  "slug_of_host ''securestor.io'' ''api.alpha.securestor.io'' = ''alpha''"
  by code_simp+

text \<open>The origins that may send credentials (the CORS configuration in internal/api/server.go).\<close>

definition cors_allows :: "string \<Rightarrow> bool" where
  "cors_allows origin \<longleftrightarrow>
     origin = [] \<or> str_contains origin ''localhost:3000'' \<or> str_contains origin ''localhost:8080''
     \<or> origin = ''http://localhost'' \<or> origin = ''http://localhost:80'' \<or> str_contains origin ''.securestor.io''"

lemma cors_allows_lookalikes: "cors_allows (''https://'' @ host @ ''.securestor.io'' @ rest)"
  using str_contains_append [of "''https://'' @ host" "''.securestor.io''" rest] by (simp add: cors_allows_def)

end
