(* ===== verification/Plugins.thy ===== *)
theory Plugins
  imports Scanning
begin

text \<open>
  Scanner plugins (internal/scanner): metadata and registration (plugin_manager.go), the registry
  with its search indices (workflow_engine.go), the selection strategies
  (selection_strategies.go) and the health monitor (health_checker.go).
\<close>

section \<open>Plugins\<close>

record performance =
  pf_speed :: string
  pf_accuracy :: string
  pf_coverage :: string
  pf_false_positives :: string

record capability =
  cp_type :: string
  cp_description :: string
  cp_confidence :: rat
  cp_performance :: performance

record resources =
  rq_cpu :: string
  rq_memory :: string
  rq_disk :: string
  rq_network :: string

record plugin_metadata =
  pm_id :: string
  pm_name :: string
  pm_version :: string
  pm_tags :: "string list"
  pm_categories :: "string list"
  pm_priority :: int
  pm_resources :: resources

datatype health = Healthy | Unhealthy | Degraded | HealthUnknown

record health_status =
  hs_status :: health
  hs_message :: string

text \<open>
  A plugin is code behind an interface: what its methods answer. Its health can differ from check
  to check; a check can also hang or panic.
\<close>

datatype health_reply = HealthReply health_status | HealthHangs | HealthPanics

record scanner_plugin =
  sp_meta :: plugin_metadata
  sp_capabilities :: "capability list"
  sp_config_valid :: bool
  sp_initializes :: bool
  sp_health :: "time \<Rightarrow> health_status"
  sp_scan :: "string \<Rightarrow> string \<Rightarrow> scan_reply"

record selection_request =
  sl_type :: string
  sl_capabilities :: "string list"
  sl_categories :: "string list"
  sl_max_scanners :: int
  sl_max_duration :: time
  sl_min_confidence :: rat
  sl_limits :: resources
  sl_strategy :: string

section \<open>Registry\<close>

record plugin_registry =
  pr_plugins :: "(string \<times> plugin_metadata) list"
  pr_indices :: "string \<Rightarrow> string list"

definition new_plugin_registry :: plugin_registry where
  "new_plugin_registry = \<lparr>pr_plugins = [], pr_indices = (\<lambda>_. [])\<rparr>"

definition category_key :: "string \<Rightarrow> string" where "category_key c = ''category:'' @ c"
definition tag_key :: "string \<Rightarrow> string" where "tag_key t = ''tag:'' @ t"

definition index_under :: "string \<Rightarrow> string \<Rightarrow> plugin_registry \<Rightarrow> plugin_registry" where
  "index_under i key r = r\<lparr>pr_indices := (pr_indices r)(key := pr_indices r key @ [i])\<rparr>"

definition update_indices :: "plugin_metadata \<Rightarrow> plugin_registry \<Rightarrow> plugin_registry" where
  "update_indices md r =
     fold (\<lambda>t. index_under (pm_id md) (tag_key t)) (pm_tags md)
       (fold (\<lambda>c. index_under (pm_id md) (category_key c)) (pm_categories md) r)"

definition registry_register :: "plugin_metadata \<Rightarrow> plugin_registry \<Rightarrow> plugin_registry" where
  "registry_register md r =
     update_indices md (r\<lparr>pr_plugins := AList.update (pm_id md) md (pr_plugins r)\<rparr>)"

definition find_by_category :: "string \<Rightarrow> plugin_registry \<Rightarrow> string list" where
  "find_by_category c r = pr_indices r (category_key c)"

definition find_by_tag :: "string \<Rightarrow> plugin_registry \<Rightarrow> string list" where
  "find_by_tag t r = pr_indices r (tag_key t)"

definition registry_get :: "string \<Rightarrow> plugin_registry \<Rightarrow> plugin_metadata option" where
  "registry_get i r = map_of (pr_plugins r) i"

definition registry_list :: "plugin_registry \<Rightarrow> plugin_metadata list" where
  "registry_list r = map snd (pr_plugins r)"

section \<open>Selection strategies\<close>

text \<open>Points for the levels of a capability; a level that is not listed gives none.\<close>

definition calculate_performance_score :: "performance \<Rightarrow> rat" where
  "calculate_performance_score p =
     (if pf_speed p = ''fast'' then 30 else if pf_speed p = ''medium'' then 20 else if pf_speed p = ''slow'' then 10 else 0)
     + (if pf_accuracy p = ''high'' then 25 else if pf_accuracy p = ''medium'' then 15 else if pf_accuracy p = ''low'' then 5 else 0)
     + (if pf_coverage p = ''comprehensive'' then 25 else if pf_coverage p = ''moderate'' then 15
        else if pf_coverage p = ''basic'' then 5 else 0)
     + (if pf_false_positives p = ''low'' then 20 else if pf_false_positives p = ''medium'' then 10
        else if pf_false_positives p = ''high'' then - 10 else 0)"

definition calculate_resource_score :: "resources \<Rightarrow> rat" where
  "calculate_resource_score required =
     50 - (if rq_cpu required = ''high'' then 15 else if rq_cpu required = ''medium'' then 5 else 0)
        - (if rq_memory required = ''high'' then 15 else if rq_memory required = ''medium'' then 5 else 0)"

definition capability_score :: "capability list \<Rightarrow> string \<Rightarrow> rat" where
  "capability_score caps req =
     (case find (\<lambda>c. cp_type c = req) caps of None \<Rightarrow> 0 | Some c \<Rightarrow> cp_confidence c * 50)"

definition average :: "rat list \<Rightarrow> rat" where
  "average xs = sum_list xs / of_nat (length xs)"

text \<open>
  A score is a float: \<open>None\<close> is the NaN that the division by the number of capabilities gives
  when there are none.
\<close>

definition calculate_optimal_score :: "scanner_plugin \<Rightarrow> selection_request \<Rightarrow> rat option" where
  "calculate_optimal_score p req =
     (let caps = sp_capabilities p
      in Some (of_int (pm_priority (sp_meta p))
           + sum_list (map (capability_score caps) (sl_capabilities req))
           + (if caps = [] then 0 else average (map (\<lambda>c. calculate_performance_score (cp_performance c)) caps))
           + calculate_resource_score (pm_resources (sp_meta p))))"

definition calculate_speed_score :: "scanner_plugin \<Rightarrow> selection_request \<Rightarrow> rat option" where
  "calculate_speed_score p req =
     (let caps = sp_capabilities p
      in if caps = [] then None
         else Some (average (map (\<lambda>c. let s = pf_speed (cp_performance c)
                      in if s = ''fast'' then 100 else if s = ''medium'' then 50 else if s = ''slow'' then 10 else 0) caps)))"

definition coverage_points :: "string \<Rightarrow> rat" where
  "coverage_points c = (if c = ''comprehensive'' then 100 else if c = ''moderate'' then 60 else if c = ''basic'' then 20 else 0)"

definition accuracy_points :: "string \<Rightarrow> rat" where
  "accuracy_points a = (if a = ''high'' then 100 else if a = ''medium'' then 60 else if a = ''low'' then 20 else 0)"

definition calculate_comprehensive_score :: "scanner_plugin \<Rightarrow> selection_request \<Rightarrow> rat option" where
  "calculate_comprehensive_score p req =
     (let caps = sp_capabilities p
      in if caps = [] then None
         else Some (average (map (\<lambda>c. (coverage_points (pf_coverage (cp_performance c))
                      + accuracy_points (pf_accuracy (cp_performance c))) * cp_confidence c) caps)))"

text \<open>
  Highest score first. \<^verbatim>\<open>sort.Slice\<close> is not stable: plugins of equal score may come in any order
  and a NaN makes the order unspecified; the model keeps the order of equals.
\<close>

definition score_key :: "rat option \<Rightarrow> rat" where
  "score_key s = (case s of Some x \<Rightarrow> - x | None \<Rightarrow> 0)"

definition sort_scored :: "(scanner_plugin \<times> rat option) list \<Rightarrow> (scanner_plugin \<times> rat option) list" where
  "sort_scored ps = sort_key (\<lambda>p. score_key (snd p)) ps"

definition select_top :: "int \<Rightarrow> (scanner_plugin \<times> rat option) list \<Rightarrow> selection_request \<Rightarrow> scanner_plugin list" where
  "select_top default_max scored req =
     (let limit = (if sl_max_scanners req \<le> 0 then default_max else sl_max_scanners req)
      in map fst (take (nat limit) scored))"

definition pick ::
  "(scanner_plugin \<Rightarrow> selection_request \<Rightarrow> rat option) \<Rightarrow> int \<Rightarrow> scanner_plugin list \<Rightarrow> selection_request \<Rightarrow> scanner_plugin list" where
  "pick score default_max eligible req =
     select_top default_max (sort_scored (map (\<lambda>p. (p, score p req)) eligible)) req"

text \<open>Every \<^verbatim>\<open>getEligibleScanners\<close> is a stub that returns the empty slice.\<close>

definition get_eligible_scanners :: "selection_request \<Rightarrow> scanner_plugin list" where
  "get_eligible_scanners req = []"

definition optimal_pick :: "scanner_plugin list \<Rightarrow> selection_request \<Rightarrow> scanner_plugin list" where
  "optimal_pick = pick calculate_optimal_score 5"

definition fastest_pick :: "scanner_plugin list \<Rightarrow> selection_request \<Rightarrow> scanner_plugin list" where
  "fastest_pick = pick calculate_speed_score 3"

definition comprehensive_pick :: "scanner_plugin list \<Rightarrow> selection_request \<Rightarrow> scanner_plugin list" where
  "comprehensive_pick = pick calculate_comprehensive_score 8"

type_synonym strategy = "selection_request \<Rightarrow> string + scanner_plugin list"

definition optimal_strategy :: strategy where
  "optimal_strategy req = Inr (optimal_pick (get_eligible_scanners req) req)"

definition fastest_strategy :: strategy where
  "fastest_strategy req = Inr (fastest_pick (get_eligible_scanners req) req)"

definition comprehensive_strategy :: strategy where
  "comprehensive_strategy req = Inr (comprehensive_pick (get_eligible_scanners req) req)"

definition balanced_strategy :: strategy where
  "balanced_strategy req = Inr []"

definition security_focused_strategy :: strategy where
  "security_focused_strategy req = Inr []"

section \<open>Manager\<close>

record plugin_manager =
  mg_plugins :: "(string \<times> scanner_plugin) list"
  mg_strategies :: "string \<rightharpoonup> strategy"
  mg_registry :: plugin_registry

datatype plugin_error =
    EmptyPluginId | EmptyPluginName | EmptyPluginVersion
  | PluginAlreadyRegistered string
  | InvalidDefaultConfig
  | InitializationFailed
  | PluginUnhealthy string
  | SelectionFailed string

definition default_strategies :: "string \<rightharpoonup> strategy" where
  "default_strategies = map_of
    [(''optimal'', optimal_strategy), (''fastest'', fastest_strategy), (''comprehensive'', comprehensive_strategy),
     (''balanced'', balanced_strategy), (''security_focused'', security_focused_strategy)]"

definition new_plugin_manager :: plugin_manager where
  "new_plugin_manager =
     \<lparr>mg_plugins = [], mg_strategies = default_strategies, mg_registry = new_plugin_registry\<rparr>"

definition validate_plugin :: "scanner_plugin \<Rightarrow> plugin_manager \<Rightarrow> plugin_error option" where
  "validate_plugin p m =
     (let md = sp_meta p
      in if pm_id md = [] then Some EmptyPluginId
         else if pm_name md = [] then Some EmptyPluginName
         else if pm_version md = [] then Some EmptyPluginVersion
         else if map_of (mg_plugins m) (pm_id md) \<noteq> None then Some (PluginAlreadyRegistered (pm_id md))
         else if \<not> sp_config_valid p then Some InvalidDefaultConfig
         else None)"

definition register_plugin :: "time \<Rightarrow> scanner_plugin \<Rightarrow> plugin_manager \<Rightarrow> plugin_error option \<times> plugin_manager" where
  "register_plugin now p m =
     (case validate_plugin p m of
        Some e \<Rightarrow> (Some e, m)
      | None \<Rightarrow>
          if \<not> sp_initializes p then (Some InitializationFailed, m)
          else if hs_status (sp_health p now) = Unhealthy then (Some (PluginUnhealthy (hs_message (sp_health p now))), m)
          else (None, m\<lparr>mg_plugins := AList.update (pm_id (sp_meta p)) p (mg_plugins m),
                       mg_registry := registry_register (sp_meta p) (mg_registry m)\<rparr>))"

text \<open>\<open>None\<close>: the call of a nil strategy panics.\<close>

definition manager_select :: "time \<Rightarrow> selection_request \<Rightarrow> plugin_manager \<Rightarrow> (plugin_error + scanner_plugin list) option" where
  "manager_select now req m =
     (case (case mg_strategies m (sl_strategy req) of None \<Rightarrow> mg_strategies m ''optimal'' | Some s \<Rightarrow> Some s) of
        None \<Rightarrow> None
      | Some s \<Rightarrow>
          Some (case s req of
                  Inl e \<Rightarrow> Inl (SelectionFailed e)
                | Inr ps \<Rightarrow> Inr (filter (\<lambda>p. hs_status (sp_health p now) \<in> {Healthy, Degraded}) ps)))"

definition get_plugin :: "string \<Rightarrow> plugin_manager \<Rightarrow> scanner_plugin option" where
  "get_plugin i m = map_of (mg_plugins m) i"

definition list_plugins :: "plugin_manager \<Rightarrow> plugin_metadata list" where
  "list_plugins m = map (\<lambda>(_, p). sp_meta p) (mg_plugins m)"

definition get_plugins_by_category :: "string \<Rightarrow> plugin_manager \<Rightarrow> scanner_plugin list" where
  "get_plugins_by_category c m = filter (\<lambda>p. c \<in> set (pm_categories (sp_meta p))) (map snd (mg_plugins m))"

definition get_plugins_by_capability :: "string \<Rightarrow> plugin_manager \<Rightarrow> scanner_plugin list" where
  "get_plugins_by_capability t m = filter (\<lambda>p. \<exists>c \<in> set (sp_capabilities p). cp_type c = t) (map snd (mg_plugins m))"

text \<open>\<open>fails\<close> says which plugins return an error from their shutdown; all of them are called.\<close>

definition shutdown_plugins :: "(scanner_plugin \<Rightarrow> bool) \<Rightarrow> plugin_manager \<Rightarrow> string list" where
  "shutdown_plugins fails m = map fst (filter (\<lambda>(_, p). fails p) (mg_plugins m))"

section \<open>Adaptive strategy\<close>

record scan_history =
  sh_type :: string
  sh_scanners :: "string list"
  sh_duration :: time
  sh_vulns :: int
  sh_effectiveness :: rat
  sh_time :: time

definition record_scan_result :: "scan_history \<Rightarrow> scan_history list \<Rightarrow> scan_history list" where
  "record_scan_result h hist =
     (let hist = hist @ [h] in if length hist > 1000 then drop (length hist - 1000) hist else hist)"

section \<open>Health monitor\<close>

text \<open>\<open>hc_pending\<close> are the checks whose goroutines have been started and have not written yet.\<close>

record health_checker =
  hc_plugins :: "(string \<times> scanner_plugin) list"
  hc_cache :: "(string \<times> health_status) list"
  hc_period :: time
  hc_pending :: "string list"

definition new_health_checker :: health_checker where
  "new_health_checker = \<lparr>hc_plugins = [], hc_cache = [], hc_period = 30 * second, hc_pending = []\<rparr>"

definition hc_register :: "time \<Rightarrow> scanner_plugin \<Rightarrow> health_checker \<Rightarrow> health_checker" where
  "hc_register now p hc =
     hc\<lparr>hc_plugins := AList.update (pm_id (sp_meta p)) p (hc_plugins hc),
        hc_cache := AList.update (pm_id (sp_meta p)) (sp_health p now) (hc_cache hc)\<rparr>"

definition hc_unregister :: "string \<Rightarrow> health_checker \<Rightarrow> health_checker" where
  "hc_unregister i hc =
     hc\<lparr>hc_plugins := AList.delete i (hc_plugins hc), hc_cache := AList.delete i (hc_cache hc)\<rparr>"

definition get_health :: "string \<Rightarrow> health_checker \<Rightarrow> health_status option" where
  "get_health i hc = map_of (hc_cache hc) i"

definition get_all_health :: "health_checker \<Rightarrow> (string \<times> health_status) list" where
  "get_all_health hc = hc_cache hc"

definition get_healthy_plugins :: "health_checker \<Rightarrow> string list" where
  "get_healthy_plugins hc = map fst (filter (\<lambda>(_, h). hs_status h = Healthy) (hc_cache hc))"

text \<open>A tick starts one goroutine per plugin.\<close>

definition perform_health_checks :: "health_checker \<Rightarrow> health_checker" where
  "perform_health_checks hc = hc\<lparr>hc_pending := hc_pending hc @ keys (hc_plugins hc)\<rparr>"

text \<open>
  A check writes what the plugin answered, or that it timed out. The plugin is asked in a goroutine
  of its own, which no \<^verbatim>\<open>recover\<close> covers: a panic there ends the process (\<open>None\<close>).
\<close>

definition check_plugin_health :: "health_reply \<Rightarrow> string \<Rightarrow> health_checker \<Rightarrow> health_checker option" where
  "check_plugin_health reply i hc =
     (case reply of
        HealthPanics \<Rightarrow> None
      | HealthHangs \<Rightarrow>
          Some (hc\<lparr>hc_cache := AList.update i \<lparr>hs_status = Unhealthy, hs_message = ''Health check timed out''\<rparr> (hc_cache hc),
                  hc_pending := remove1 i (hc_pending hc)\<rparr>)
      | HealthReply h \<Rightarrow>
          Some (hc\<lparr>hc_cache := AList.update i h (hc_cache hc), hc_pending := remove1 i (hc_pending hc)\<rparr>))"

definition set_check_period :: "time \<Rightarrow> health_checker \<Rightarrow> health_checker" where
  "set_check_period d hc = hc\<lparr>hc_period := d\<rparr>"

record health_statistics =
  ht_total :: int
  ht_healthy :: int
  ht_unhealthy :: int
  ht_degraded :: int
  ht_unknown :: int

definition get_statistics :: "health_checker \<Rightarrow> health_statistics" where
  "get_statistics hc =
     (let n = (\<lambda>s. int (length (filter (\<lambda>(_, h). hs_status h = s) (hc_cache hc))))
      in \<lparr>ht_total = int (length (hc_plugins hc)), ht_healthy = n Healthy, ht_unhealthy = n Unhealthy,
          ht_degraded = n Degraded, ht_unknown = n HealthUnknown\<rparr>)"

lemma check_after_unregister_revives:
  assumes "i \<in> set (hc_pending hc)"
  shows "map_option (get_health i) (check_plugin_health (HealthReply h) i (hc_unregister i hc)) = Some (Some h)
    \<and> map_of (hc_plugins (hc_unregister i hc)) i = None"
  by (simp add: check_plugin_health_def get_health_def hc_unregister_def)

lemma panicking_check_ends_process: "check_plugin_health HealthPanics i hc = None"
  by (simp add: check_plugin_health_def)

section \<open>What a strategy promises\<close>

text \<open>
  A strategy chooses among the eligible plugins: no plugin more often than it is eligible, as many
  as the limit allows, and (when every score is a number) none worse than one left out.
\<close>

locale selection =
  fixes select :: "scanner_plugin list \<Rightarrow> selection_request \<Rightarrow> scanner_plugin list"
    and score :: "scanner_plugin \<Rightarrow> selection_request \<Rightarrow> rat option"
    and limit :: "selection_request \<Rightarrow> nat"
  assumes picks_eligible: "mset (select E r) \<subseteq># mset E"
    and picks_enough: "length (select E r) = min (limit r) (length E)"
    and picks_best: "\<forall>p \<in> set E. score p r \<noteq> None \<Longrightarrow> p \<in> set (select E r)
      \<Longrightarrow> q \<in># mset E - mset (select E r) \<Longrightarrow> the (score q r) \<le> the (score p r)"
begin

lemma picks_subset: "set (select E r) \<subseteq> set E"
  using set_mset_mono [OF picks_eligible [of E r]] by simp

lemma picks_distinct:
  assumes "distinct E"
  shows "distinct (select E r)"
  unfolding distinct_count_atmost_1
proof (intro allI)
  fix a
  have "count (mset (select E r)) a \<le> count (mset E) a" by (rule mset_subset_eq_count [OF picks_eligible])
  also have "\<dots> \<le> 1" using assms by (simp add: distinct_count_atmost_1)
  finally have "count (mset (select E r)) a \<le> 1" .
  moreover have "a \<in> set (select E r) \<Longrightarrow> 0 < count (mset (select E r)) a" by (simp add: count_greater_zero_iff)
  ultimately show "count (mset (select E r)) a = (if a \<in> set (select E r) then 1 else 0)"
    by (simp add: count_mset_0_iff le_antisym Suc_leI)
qed

lemma picks_all: "length E \<le> limit r \<Longrightarrow> mset (select E r) = mset E"
  using picks_eligible [of E r] picks_enough [of E r]
  by (metis min.absorb2 mset_subset_size nless_le size_mset subset_mset.less_le subset_mset.nless_le)

lemma left_out:
  assumes "q \<in> set E" and "q \<notin> set S"
  shows "q \<in># mset E - mset S"
  using assms by (simp add: in_diff_count count_mset_0_iff [THEN iffD2])

lemma best_choice:
  assumes "distinct E" and "\<forall>p \<in> set E. score p r \<noteq> None"
  shows "distinct (select E r) \<and> set (select E r) \<subseteq> set E \<and> length (select E r) = min (limit r) (length E)
    \<and> (\<forall>p \<in> set (select E r). \<forall>q \<in> set E - set (select E r). the (score q r) \<le> the (score p r))"
proof (intro conjI ballI)
  show "the (score q r) \<le> the (score p r)" if "p \<in> set (select E r)" "q \<in> set E - set (select E r)" for p q
    using picks_best [OF assms(2) that(1) left_out] that(2) by simp
qed (rule picks_distinct [OF assms(1)] picks_subset picks_enough)+

lemma managed:
  assumes "mg_strategies m (sl_strategy r) = Some (\<lambda>r. Inr (select E r))"
  obtains ps where "manager_select now r m = Some (Inr ps)" "set ps \<subseteq> set E" "length ps \<le> limit r"
    "\<forall>p \<in> set ps. hs_status (sp_health p now) \<in> {Healthy, Degraded}"
proof
  let ?ps = "filter (\<lambda>p. hs_status (sp_health p now) \<in> {Healthy, Degraded}) (select E r)"
  show "manager_select now r m = Some (Inr ?ps)" using assms by (simp add: manager_select_def)
  show "set ?ps \<subseteq> set E" using picks_subset [of E r] by auto
  show "length ?ps \<le> limit r" using picks_enough [of E r] by (intro le_trans [OF length_filter_le]) simp
qed simp

end

definition top_limit :: "int \<Rightarrow> selection_request \<Rightarrow> nat" where
  "top_limit default_max r = nat (if sl_max_scanners r \<le> 0 then default_max else sl_max_scanners r)"

lemma pick_alt:
  "pick score d E r = take (top_limit d r) (sort_key (\<lambda>p. score_key (score p r)) E)"
proof -
  have "map fst (sort_key (\<lambda>p. score_key (snd p)) (map (\<lambda>p. (p, score p r)) E)) = sort_key (\<lambda>p. score_key (score p r)) E"
    for E :: "scanner_plugin list"
  proof -
    have "sort_key (\<lambda>p. score_key (snd p)) (map (\<lambda>p. (p, score p r)) E)
        = map (\<lambda>p. (p, score p r)) (sort_key (\<lambda>p. score_key (score p r)) E)"
    proof (induction E)
      case (Cons x E)
      have "insort_key (\<lambda>p. score_key (snd p)) (x, score x r) (map (\<lambda>p. (p, score p r)) ps)
          = map (\<lambda>p. (p, score p r)) (insort_key (\<lambda>p. score_key (score p r)) x ps)" for ps
        by (induction ps) simp_all
      with Cons show ?case by simp
    qed simp
    then show ?thesis by (simp add: comp_def)
  qed
  then show ?thesis by (simp add: pick_def select_top_def sort_scored_def top_limit_def Let_def flip: take_map)
qed

lemma pick_selection: "selection (pick score d) score (top_limit d)"
proof
  fix E r and p q :: scanner_plugin
  let ?n = "top_limit d r" and ?s = "sort_key (\<lambda>p. score_key (score p r)) E"
  show "mset (pick score d E r) \<subseteq># mset E"
    unfolding pick_alt by (metis append_take_drop_id mset_append mset_sort mset_subset_eq_add_left)
  show "length (pick score d E r) = min (top_limit d r) (length E)"
    by (simp add: pick_alt min.commute)
  assume numbers: "\<forall>p \<in> set E. score p r \<noteq> None" and p: "p \<in> set (pick score d E r)"
    and q: "q \<in># mset E - mset (pick score d E r)"
  have "mset E = mset (take ?n ?s) + mset (drop ?n ?s)"
    by (metis append_take_drop_id mset_append mset_sort)
  then have q': "q \<in> set (drop ?n ?s)" using q by (simp add: pick_alt)
  have p': "p \<in> set (take ?n ?s)" using p by (simp add: pick_alt)
  have "sorted (map (\<lambda>p. score_key (score p r)) (take ?n ?s @ drop ?n ?s))" by simp
  then have le: "score_key (score p r) \<le> score_key (score q r)"
    using p' q' unfolding map_append sorted_append by auto
  have "p \<in> set E" "q \<in> set E" using p' q' by (auto dest: in_set_takeD in_set_dropD)
  then obtain x y where "score p r = Some x" "score q r = Some y" using numbers by blast
  with le show "the (score q r) \<le> the (score p r)" by (simp add: score_key_def)
qed

interpretation optimal: selection optimal_pick calculate_optimal_score "top_limit 5"
  unfolding optimal_pick_def by (rule pick_selection)

interpretation fastest: selection fastest_pick calculate_speed_score "top_limit 3"
  unfolding fastest_pick_def by (rule pick_selection)

interpretation comprehensive: selection comprehensive_pick calculate_comprehensive_score "top_limit 8"
  unfolding comprehensive_pick_def by (rule pick_selection)

lemma numbered_scores:
  assumes "\<forall>p \<in> set E. sp_capabilities p \<noteq> []"
  shows "\<forall>p \<in> set E. calculate_optimal_score p r \<noteq> None" "\<forall>p \<in> set E. calculate_speed_score p r \<noteq> None"
    "\<forall>p \<in> set E. calculate_comprehensive_score p r \<noteq> None"
  using assms
  by (simp_all add: calculate_optimal_score_def calculate_speed_score_def calculate_comprehensive_score_def Let_def)

text \<open>
  The ranking strategies choose well. From any eligible plugins that declare what they can do,
  each of the three ranking strategies picks as many as its limit allows, none twice and none that
  is not eligible, and no plugin it leaves out scores higher than one it takes.
\<close>

theorem strategies_pick_the_best:
  assumes "distinct E" and "\<forall>p \<in> set E. sp_capabilities p \<noteq> []"
    and "(sel, score, d) = (optimal_pick, calculate_optimal_score, 5)
      \<or> (sel, score, d) = (fastest_pick, calculate_speed_score, 3)
      \<or> (sel, score, d) = (comprehensive_pick, calculate_comprehensive_score, 8)"
  shows "distinct (sel E r) \<and> set (sel E r) \<subseteq> set E \<and> length (sel E r) = min (top_limit d r) (length E)
    \<and> (\<forall>p \<in> set (sel E r). \<forall>q \<in> set E - set (sel E r). the (score q r) \<le> the (score p r))"
  using assms(3) optimal.best_choice [OF assms(1) numbered_scores(1) [OF assms(2)]]
    fastest.best_choice [OF assms(1) numbered_scores(2) [OF assms(2)]]
    comprehensive.best_choice [OF assms(1) numbered_scores(3) [OF assms(2)]]
  by (elim disjE) simp_all

definition demo_plugin :: "string \<Rightarrow> string \<Rightarrow> scanner_plugin" where
  "demo_plugin i speed =
     \<lparr>sp_meta = \<lparr>pm_id = i, pm_name = i, pm_version = ''1'', pm_tags = [], pm_categories = [''sbom''], pm_priority = 1,
                  pm_resources = \<lparr>rq_cpu = ''low'', rq_memory = ''low'', rq_disk = ''low'', rq_network = ''low''\<rparr>\<rparr>,
      sp_capabilities = [\<lparr>cp_type = ''sbom_generation'', cp_description = [], cp_confidence = 1,
        cp_performance = \<lparr>pf_speed = speed, pf_accuracy = ''high'', pf_coverage = ''basic'', pf_false_positives = ''low''\<rparr>\<rparr>],
      sp_config_valid = True, sp_initializes = True,
      sp_health = (\<lambda>_. \<lparr>hs_status = Healthy, hs_message = []\<rparr>), sp_scan = (\<lambda>_ _. ScanErr ''x'')\<rparr>"

definition demo_selection :: selection_request where
  "demo_selection =
     \<lparr>sl_type = ''docker'', sl_capabilities = [], sl_categories = [], sl_max_scanners = 1, sl_max_duration = 0, sl_min_confidence = 0,
      sl_limits = \<lparr>rq_cpu = [], rq_memory = [], rq_disk = [], rq_network = []\<rparr>, sl_strategy = ''fastest''\<rparr>"

lemma demo_plugins_differ: "demo_plugin ''a'' x \<noteq> demo_plugin ''b'' y"
  by (auto simp: demo_plugin_def)

theorem strategies_pick_the_best_witness:
  "distinct (fastest_pick [demo_plugin ''a'' ''slow'', demo_plugin ''b'' ''fast''] demo_selection)
    \<and> length (fastest_pick [demo_plugin ''a'' ''slow'', demo_plugin ''b'' ''fast''] demo_selection) = 1"
  using strategies_pick_the_best
    [of "[demo_plugin ''a'' ''slow'', demo_plugin ''b'' ''fast'']" fastest_pick calculate_speed_score 3 demo_selection]
    demo_plugins_differ [of "''slow''" "''fast''"]
  by (auto simp: top_limit_def demo_selection_def) (simp_all add: demo_plugin_def)

section \<open>Managers in use\<close>

inductive manager_reachable :: "plugin_manager \<Rightarrow> bool" where
  New: "manager_reachable new_plugin_manager"
| Register: "manager_reachable m \<Longrightarrow> manager_reachable (snd (register_plugin now p m))"

text \<open>The registry repeats the manager's plugins, and its index is a count over them.\<close>

definition manager_ok :: "plugin_manager \<Rightarrow> bool" where
  "manager_ok m \<longleftrightarrow>
     mg_strategies m = default_strategies \<and> distinct (keys (mg_plugins m))
     \<and> (\<forall>(i, p) \<in> set (mg_plugins m). pm_id (sp_meta p) = i)
     \<and> pr_plugins (mg_registry m) = map (\<lambda>(i, p). (i, sp_meta p)) (mg_plugins m)
     \<and> (\<forall>c. find_by_category c (mg_registry m)
          = concat (map (\<lambda>(i, p). replicate (count_list (pm_categories (sp_meta p)) c) i) (mg_plugins m)))"

lemma key_simps [simp]:
  "category_key c = category_key c' \<longleftrightarrow> c = c'" "tag_key t = tag_key t' \<longleftrightarrow> t = t'"
  "category_key c \<noteq> tag_key t" "tag_key t \<noteq> category_key c"
  by (simp_all add: category_key_def tag_key_def)

lemma index_under_simps [simp]:
  "pr_plugins (index_under i key r) = pr_plugins r"
  "pr_indices (index_under i key r) k = pr_indices r k @ (if k = key then [i] else [])"
  by (simp_all add: index_under_def)

lemma fold_tags [simp]:
  "pr_plugins (fold (\<lambda>t. index_under i (tag_key t)) ts r) = pr_plugins r"
  "find_by_category c (fold (\<lambda>t. index_under i (tag_key t)) ts r) = find_by_category c r"
  by (induction ts arbitrary: r) (simp_all add: find_by_category_def)

lemma fold_categories [simp]:
  "pr_plugins (fold (\<lambda>c. index_under i (category_key c)) cs r) = pr_plugins r"
  "find_by_category c (fold (\<lambda>c. index_under i (category_key c)) cs r) = find_by_category c r @ replicate (count_list cs c) i"
proof (induction cs arbitrary: r)
  case (Cons d cs)
  { case 1 show ?case using Cons by simp }
  { case 2 show ?case using Cons by (simp add: find_by_category_def) }
qed simp_all

lemma registry_register_simps [simp]:
  "pr_plugins (registry_register md r) = AList.update (pm_id md) md (pr_plugins r)"
  "find_by_category c (registry_register md r) = find_by_category c r @ replicate (count_list (pm_categories md) c) (pm_id md)"
  by (simp_all add: registry_register_def update_indices_def find_by_category_def [of c "r\<lparr>pr_plugins := _\<rparr>"])
    (simp add: find_by_category_def)

lemma update_new: "k \<notin> set (keys al) \<Longrightarrow> AList.update k v al = al @ [(k, v)]"
  by (induction al) auto

lemma manager_ok_register:
  assumes "manager_ok m"
  shows "manager_ok (snd (register_plugin now p m))"
proof (cases "fst (register_plugin now p m)")
  case (Some e)
  then have "snd (register_plugin now p m) = m"
    by (auto simp: register_plugin_def split: option.splits if_splits)
  with assms show ?thesis by simp
next
  case None
  then have fresh: "pm_id (sp_meta p) \<notin> set (keys (mg_plugins m))"
    and m': "snd (register_plugin now p m) = m\<lparr>mg_plugins := AList.update (pm_id (sp_meta p)) p (mg_plugins m),
      mg_registry := registry_register (sp_meta p) (mg_registry m)\<rparr>"
    by (auto simp: register_plugin_def validate_plugin_def Let_def map_of_eq_None_iff split: option.splits if_splits)
  have "pm_id (sp_meta p) \<notin> set (keys (map (\<lambda>(i, p). (i, sp_meta p)) (mg_plugins m)))" using fresh by force
  with fresh assms show ?thesis unfolding m' by (auto simp: manager_ok_def update_new)
qed

lemma reachable_manager_ok: "manager_reachable m \<Longrightarrow> manager_ok m"
proof (induction rule: manager_reachable.induct)
  case New
  show ?case
    by (simp add: manager_ok_def new_plugin_manager_def new_plugin_registry_def find_by_category_def)
qed (rule manager_ok_register)

lemma no_strategy_selects:
  assumes "manager_reachable m"
  shows "manager_select now r m = Some (Inr [])"
proof -
  have strategies: "mg_strategies m = default_strategies" using reachable_manager_ok [OF assms] by (simp add: manager_ok_def)
  have empty: "s r = Inr []" if "default_strategies n = Some s" for n s
    using that
    by (auto simp: default_strategies_def optimal_strategy_def fastest_strategy_def comprehensive_strategy_def
        balanced_strategy_def security_focused_strategy_def get_eligible_scanners_def optimal_pick_def fastest_pick_def
        comprehensive_pick_def pick_alt split: if_splits)
  obtain n s where "(case default_strategies (sl_strategy r) of None \<Rightarrow> default_strategies ''optimal'' | Some s \<Rightarrow> Some s) = Some s"
      "default_strategies n = Some s"
  proof (cases "default_strategies (sl_strategy r)")
    case None
    moreover have "default_strategies ''optimal'' = Some optimal_strategy" by (simp add: default_strategies_def)
    ultimately show ?thesis using that by simp
  next
    case (Some s)
    with that show ?thesis by simp
  qed
  then show ?thesis using strategies empty [of n s] by (simp add: manager_select_def cong: option.case_cong)
qed

text \<open>
  The search index is exact. After any registrations, accepted or refused, the registry finds
  under a category exactly the plugins that declare it, each once per declaration, and knows the
  metadata of exactly the registered plugins.
\<close>

theorem index_agrees_with_plugins:
  assumes "manager_reachable m"
  shows "set (find_by_category c (mg_registry m)) = (\<lambda>p. pm_id (sp_meta p)) ` set (get_plugins_by_category c m)
    \<and> (\<forall>i. registry_get i (mg_registry m) = map_option sp_meta (get_plugin i m))
    \<and> (\<forall>i p. get_plugin i m = Some p
         \<longrightarrow> count_list (find_by_category c (mg_registry m)) i = count_list (pm_categories (sp_meta p)) c)"
proof -
  note ok = reachable_manager_ok [OF assms, unfolded manager_ok_def]
  have count: "distinct (keys al) \<Longrightarrow> (i, p) \<in> set al
      \<Longrightarrow> count_list (concat (map (\<lambda>(i, p). replicate (f p) i) al)) i = f p"
    for al :: "(string \<times> scanner_plugin) list" and f :: "scanner_plugin \<Rightarrow> nat" and i p
  proof (induction al)
    case (Cons x al)
    have "count_list (replicate n j) i = (if i = j then n else 0)" for n j by (induction n) auto
    moreover have "i \<notin> set (keys al) \<Longrightarrow> count_list (concat (map (\<lambda>(i, p). replicate (f p) i) al)) i = 0"
      by (intro count_notin) force
    ultimately show ?case using Cons by (cases x) force
  qed simp
  have names: "set (concat (map (\<lambda>(i, p). replicate (count_list (pm_categories (sp_meta p)) c) i) al))
      = (\<lambda>p. pm_id (sp_meta p)) ` set (filter (\<lambda>p. c \<in> set (pm_categories (sp_meta p))) (map snd al))"
    if "\<forall>(i, p) \<in> set al. pm_id (sp_meta p) = i" for al
    using that
  proof (induction al)
    case (Cons x al)
    have "count_list cs c = 0 \<longleftrightarrow> c \<notin> set cs" for cs by (simp add: count_list_0_iff)
    with Cons show ?case by (cases x) (simp add: set_replicate_conv_if)
  qed simp
  have "set (find_by_category c (mg_registry m)) = (\<lambda>p. pm_id (sp_meta p)) ` set (get_plugins_by_category c m)"
    using ok names [of "mg_plugins m"] by (simp add: get_plugins_by_category_def)
  moreover have "registry_get i (mg_registry m) = map_option sp_meta (get_plugin i m)" for i
    using ok by (simp add: registry_get_def get_plugin_def map_of_map)
  moreover have "count_list (find_by_category c (mg_registry m)) i = count_list (pm_categories (sp_meta p)) c"
    if "get_plugin i m = Some p" for i p
  proof -
    have "(i, p) \<in> set (mg_plugins m)" using that unfolding get_plugin_def by (rule map_of_SomeD)
    with ok show ?thesis using count [of "mg_plugins m" i p "\<lambda>p. count_list (pm_categories (sp_meta p)) c"] by simp
  qed
  ultimately show ?thesis by blast
qed

definition demo_manager :: plugin_manager where
  "demo_manager = snd (register_plugin 0 (demo_plugin ''a'' ''fast'') new_plugin_manager)"

theorem index_agrees_with_plugins_witness:
  "set (find_by_category ''sbom'' (mg_registry demo_manager))
    = (\<lambda>p. pm_id (sp_meta p)) ` set (get_plugins_by_category ''sbom'' demo_manager)"
  using index_agrees_with_plugins [of demo_manager "''sbom''"] manager_reachable.intros
  unfolding demo_manager_def by blast

end
