(* ===== verification/Workflows.thy ===== *)
theory Workflows
  imports Plugins
begin

text \<open>
  The workflow engine (internal/scanner/workflow_engine.go): registration and validation of
  workflows, their construction from a configuration file, and their execution stage by stage
  with conditions, dependencies and scanner rules.
\<close>

section \<open>Workflows\<close>

record stage_condition =
  cn_type :: string
  cn_parameter :: string
  cn_operator :: string
  cn_value :: "string option"

record scanner_rule =
  ru_type :: string
  ru_strategy :: string
  ru_requirements :: selection_request

record workflow_stage =
  wg_name :: string
  wg_description :: string
  wg_rules :: "scanner_rule list"
  wg_parallel :: bool
  wg_continue :: bool
  wg_timeout :: time
  wg_dependencies :: "string list"
  wg_conditions :: "stage_condition list"

record retry_policy =
  rp_max_retries :: int
  rp_backoff :: rat
  rp_initial_delay :: time
  rp_max_delay :: time

record workflow_configuration =
  wc_max_concurrency :: int
  wc_global_timeout :: time
  wc_fail_fast :: bool
  wc_retry :: retry_policy
  wc_aggregation :: string
  wc_deduplication :: bool

record scan_workflow =
  sw_id :: string
  sw_name :: string
  sw_description :: string
  sw_types :: "string list"
  sw_stages :: "workflow_stage list"
  sw_configuration :: workflow_configuration
  sw_created :: "time option"
  sw_updated :: time

datatype workflow_error =
    EmptyWorkflowId | EmptyWorkflowName | NoStages
  | UndefinedDependency string string
  | NoSuchWorkflow string
  | ContextDone
  | DependencyWaitFailed string workflow_error
  | StageFailed string workflow_error
  | UnsupportedRule string
  | RuleSelectionFailed plugin_error

record workflow_engine =
  we_workflows :: "(string \<times> scan_workflow) list"

definition validate_workflow :: "scan_workflow \<Rightarrow> workflow_error option" where
  "validate_workflow w =
     (if sw_id w = [] then Some EmptyWorkflowId
      else if sw_name w = [] then Some EmptyWorkflowName
      else if sw_stages w = [] then Some NoStages
      else (let names = map wg_name (sw_stages w)
            in map_option (\<lambda>(s, d). UndefinedDependency s d)
                 (find (\<lambda>(s, d). d \<notin> set names)
                    (concat (map (\<lambda>g. map (Pair (wg_name g)) (wg_dependencies g)) (sw_stages w))))))"

definition engine_register :: "time \<Rightarrow> scan_workflow \<Rightarrow> workflow_engine \<Rightarrow> workflow_error option \<times> workflow_engine" where
  "engine_register now w e =
     (case validate_workflow w of
        Some err \<Rightarrow> (Some err, e)
      | None \<Rightarrow>
          let w = w\<lparr>sw_updated := now, sw_created := (case sw_created w of None \<Rightarrow> Some now | Some t \<Rightarrow> Some t)\<rparr>
          in (None, e\<lparr>we_workflows := AList.update (sw_id w) w (we_workflows e)\<rparr>))"

section \<open>Execution\<close>

text \<open>A call returns, panics, or waits for ever.\<close>

datatype 'a outcome = Returned 'a | Panicked | WaitsForever

record stage_result =
  gs_name :: string
  gs_status :: string
  gs_results :: "scan_result option list"
  gs_errors :: "workflow_error list"

record workflow_result =
  wr_workflow :: string
  wr_status :: string
  wr_stages :: "(string \<times> stage_result) list"
  wr_aggregated :: "aggregated_result option"

text \<open>
  The artifact, the time, and whether the caller's context is done at the \<open>n\<close>-th poll of a wait.
\<close>

record engine_env =
  en_path :: string
  en_type :: string
  en_now :: time
  en_done :: "nat \<Rightarrow> bool"

definition evaluate_string_condition :: "string \<Rightarrow> string \<Rightarrow> string option \<Rightarrow> bool" where
  "evaluate_string_condition value operator expected =
     (case expected of
        None \<Rightarrow> False
      | Some e \<Rightarrow>
          if operator = ''equals'' then value = e
          else if operator = ''not_equals'' then value \<noteq> e
          else if operator = ''contains'' then value = e
          else False)"

definition evaluate_condition :: "engine_env \<Rightarrow> stage_condition \<Rightarrow> bool" where
  "evaluate_condition env c =
     (if cn_type c = ''artifact_type'' then evaluate_string_condition (en_type env) (cn_operator c) (cn_value c) else True)"

definition should_run_stage :: "engine_env \<Rightarrow> workflow_stage \<Rightarrow> bool" where
  "should_run_stage env g = list_all (evaluate_condition env) (wg_conditions g)"

text \<open>
  The wait for one dependency polls every 100 milliseconds. Nothing else runs meanwhile that could
  complete the stage, so \<open>ready\<close> is fixed; \<open>None\<close> is the wait that does not end.
\<close>

partial_function (option) poll_dependency :: "(nat \<Rightarrow> bool) \<Rightarrow> bool \<Rightarrow> nat \<Rightarrow> workflow_error option option" where
  "poll_dependency finished ready n =
     (if ready then Some None
      else if finished n then Some (Some ContextDone)
      else poll_dependency finished ready (Suc n))"

fun wait_for_dependencies ::
  "engine_env \<Rightarrow> (string \<times> stage_result) list \<Rightarrow> string list \<Rightarrow> workflow_error option option" where
  "wait_for_dependencies env results [] = Some None"
| "wait_for_dependencies env results (d # ds) =
     (case poll_dependency (en_done env)
             (case map_of results d of None \<Rightarrow> False | Some r \<Rightarrow> gs_status r = ''completed'') 0 of
        None \<Rightarrow> None
      | Some (Some e) \<Rightarrow> Some (Some e)
      | Some None \<Rightarrow> wait_for_dependencies env results ds)"

text \<open>A scan may return neither a result nor an error; the nil result is kept.\<close>

definition scan_with :: "engine_env \<Rightarrow> scanner_plugin list \<Rightarrow> scan_result option list" where
  "scan_with env ps =
     concat (map (\<lambda>p. case sp_scan p (en_path env) (en_type env) of
                        ScanErr _ \<Rightarrow> [] | ScanNil \<Rightarrow> [None] | ScanOk r \<Rightarrow> [Some r]) ps)"

definition execute_strategy_rule ::
  "engine_env \<Rightarrow> plugin_manager \<Rightarrow> scanner_rule \<Rightarrow> (workflow_error + scan_result option list) option" where
  "execute_strategy_rule env m ru =
     (let req = (ru_requirements ru)\<lparr>sl_type := en_type env, sl_strategy := ru_strategy ru\<rparr>
      in case manager_select (en_now env) req m of
           None \<Rightarrow> None
         | Some (Inl e) \<Rightarrow> Some (Inl (RuleSelectionFailed e))
         | Some (Inr ps) \<Rightarrow> Some (Inr (scan_with env ps)))"

definition execute_fixed_rule :: "workflow_error + scan_result option list" where
  "execute_fixed_rule = Inr []"

definition execute_scanner_rule ::
  "engine_env \<Rightarrow> plugin_manager \<Rightarrow> scanner_rule \<Rightarrow> (workflow_error + scan_result option list) option" where
  "execute_scanner_rule env m ru =
     (if ru_type ru = ''strategy'' then execute_strategy_rule env m ru
      else if ru_type ru = ''fixed'' then Some execute_fixed_rule
      else Some (Inl (UnsupportedRule (ru_type ru))))"

fun execute_rules ::
  "engine_env \<Rightarrow> plugin_manager \<Rightarrow> scanner_rule list \<Rightarrow> scan_result option list \<Rightarrow> workflow_error list
     \<Rightarrow> (scan_result option list \<times> workflow_error list) option" where
  "execute_rules env m [] results errors = Some (results, errors)"
| "execute_rules env m (ru # rus) results errors =
     (case execute_scanner_rule env m ru of
        None \<Rightarrow> None
      | Some (Inl e) \<Rightarrow> execute_rules env m rus results (errors @ [e])
      | Some (Inr rs) \<Rightarrow> execute_rules env m rus (results @ rs) errors)"

text \<open>A stage never returns an error of its own; the second component is the error it could return.\<close>

definition execute_stage ::
  "engine_env \<Rightarrow> plugin_manager \<Rightarrow> workflow_stage \<Rightarrow> (stage_result \<times> workflow_error option) option" where
  "execute_stage env m g =
     map_option (\<lambda>(results, errors).
       (\<lparr>gs_name = wg_name g, gs_status = ''completed'', gs_results = results, gs_errors = errors\<rparr>, None))
       (execute_rules env m (wg_rules g) [] [])"

fun execute_stages ::
  "engine_env \<Rightarrow> plugin_manager \<Rightarrow> workflow_stage list \<Rightarrow> (string \<times> stage_result) list
     \<Rightarrow> (workflow_error + (string \<times> stage_result) list) outcome" where
  "execute_stages env m [] results = Returned (Inr results)"
| "execute_stages env m (g # gs) results =
     (if \<not> should_run_stage env g then execute_stages env m gs results
      else case wait_for_dependencies env results (wg_dependencies g) of
        None \<Rightarrow> WaitsForever
      | Some (Some e) \<Rightarrow> Returned (Inl (DependencyWaitFailed (wg_name g) e))
      | Some None \<Rightarrow>
          (case execute_stage env m g of
             None \<Rightarrow> Panicked
           | Some (res, err) \<Rightarrow>
               (case err of
                  Some e \<Rightarrow>
                    if \<not> wg_continue g then Returned (Inl (StageFailed (wg_name g) e))
                    else execute_stages env m gs
                           (AList.update (wg_name g) (res\<lparr>gs_errors := gs_errors res @ [e]\<rparr>) results)
                | None \<Rightarrow> execute_stages env m gs (AList.update (wg_name g) res results))))"

text \<open>The stage results are a Go map; their order stands for the order of iteration. A nil result panics.\<close>

definition aggregate_results :: "time \<Rightarrow> (string \<times> stage_result) list \<Rightarrow> aggregated_result option" where
  "aggregate_results now results =
     (let all = concat (map (\<lambda>(_, r). gs_results r) results)
      in if None \<in> set all then None else Some (aggregate now (map the all)))"

definition execute_workflow ::
  "engine_env \<Rightarrow> plugin_manager \<Rightarrow> string \<Rightarrow> workflow_engine \<Rightarrow> (workflow_error + workflow_result) outcome" where
  "execute_workflow env m i e =
     (case map_of (we_workflows e) i of
        None \<Rightarrow> Returned (Inl (NoSuchWorkflow i))
      | Some w \<Rightarrow>
          (case execute_stages env m (sw_stages w) [] of
             WaitsForever \<Rightarrow> WaitsForever
           | Panicked \<Rightarrow> Panicked
           | Returned (Inl err) \<Rightarrow> Returned (Inl err)
           | Returned (Inr results) \<Rightarrow>
               (case aggregate_results (en_now env) results of
                  None \<Rightarrow> Panicked
                | Some ag \<Rightarrow>
                    Returned (Inr \<lparr>wr_workflow = sw_id w, wr_status = ''completed'', wr_stages = results,
                                   wr_aggregated = Some ag\<rparr>))))"

definition get_workflow :: "string \<Rightarrow> workflow_engine \<Rightarrow> scan_workflow option" where
  "get_workflow i e = map_of (we_workflows e) i"

definition list_workflows :: "workflow_engine \<Rightarrow> scan_workflow list" where
  "list_workflows e = map snd (we_workflows e)"

definition get_workflows_for_type :: "string \<Rightarrow> workflow_engine \<Rightarrow> scan_workflow list" where
  "get_workflows_for_type t e = filter (\<lambda>w. t \<in> set (sw_types w)) (map snd (we_workflows e))"

section \<open>Workflows from the configuration\<close>

record workflow_definition =
  wd_name :: string
  wd_types :: "string list"
  wd_scanners :: "string list"
  wd_policy_path :: string
  wd_description :: string
  wd_strategy :: string
  wd_failure_policy :: string
  wd_enabled :: bool

definition no_limits :: resources where
  "no_limits = \<lparr>rq_cpu = [], rq_memory = [], rq_disk = [], rq_network = []\<rparr>"

definition ranked_rule :: "string \<Rightarrow> nat \<Rightarrow> time \<Rightarrow> scanner_rule" where
  "ranked_rule name n d =
     \<lparr>ru_type = ''strategy'', ru_strategy = name,
      ru_requirements = \<lparr>sl_type = [], sl_capabilities = [], sl_categories = [], sl_max_scanners = int n,
        sl_max_duration = d, sl_min_confidence = 0, sl_limits = no_limits, sl_strategy = []\<rparr>\<rparr>"

definition is_fast_scanner :: "string \<Rightarrow> bool" where
  "is_fast_scanner s \<longleftrightarrow> s \<in> {''syft'', ''bandit'', ''trufflehog''}"

definition create_stages_from_scanners :: "string list \<Rightarrow> workflow_stage list" where
  "create_stages_from_scanners scanners =
     (let fast = filter is_fast_scanner scanners; thorough = filter (\<lambda>s. \<not> is_fast_scanner s) scanners
      in (if fast = [] then []
          else [\<lparr>wg_name = ''fast_scan'', wg_description = ''Quick security scan'',
                 wg_rules = [ranked_rule ''fastest'' (length fast) (3 * minute)], wg_parallel = True, wg_continue = True,
                 wg_timeout = 5 * minute, wg_dependencies = [], wg_conditions = []\<rparr>])
         @ (if thorough = [] then []
            else [\<lparr>wg_name = ''comprehensive_scan'', wg_description = ''Comprehensive security analysis'',
                   wg_rules = [ranked_rule ''comprehensive'' (length thorough) (10 * minute)], wg_parallel = True,
                   wg_continue = True, wg_timeout = 12 * minute,
                   wg_dependencies = (if fast = [] then [] else [''fast_scan'']), wg_conditions = []\<rparr>]))"

definition workflow_id_of :: "string \<Rightarrow> string" where
  "workflow_id_of name = to_lower (map (\<lambda>c. if c = CHR '' '' then CHR ''_'' else c) name)"

definition convert_config_to_workflow :: "time \<Rightarrow> workflow_definition \<Rightarrow> scan_workflow" where
  "convert_config_to_workflow now d =
     \<lparr>sw_id = workflow_id_of (wd_name d), sw_name = wd_name d, sw_description = wd_description d, sw_types = wd_types d,
      sw_stages = create_stages_from_scanners (wd_scanners d),
      sw_configuration =
        \<lparr>wc_max_concurrency = (if wd_strategy d = ''parallel'' then 5 else 1), wc_global_timeout = 15 * minute,
         wc_fail_fast = (wd_failure_policy d = ''stop_on_critical''),
         wc_retry = \<lparr>rp_max_retries = 2, rp_backoff = 3 / 2, rp_initial_delay = second, rp_max_delay = 30 * second\<rparr>,
         wc_aggregation = ''merge'', wc_deduplication = True\<rparr>,
      sw_created = Some now, sw_updated = now\<rparr>"

definition load_workflows :: "time \<Rightarrow> workflow_definition list \<Rightarrow> workflow_engine \<Rightarrow> workflow_engine" where
  "load_workflows now ds e =
     fold (\<lambda>d e. snd (engine_register now (convert_config_to_workflow now d) e)) (filter wd_enabled ds) e"

definition docker_workflow :: scan_workflow where
  "docker_workflow =
     \<lparr>sw_id = ''docker_comprehensive'', sw_name = ''Docker Comprehensive Scan'',
      sw_description = ''Comprehensive security scanning for Docker images'', sw_types = [''docker''],
      sw_stages =
        [\<lparr>wg_name = ''fast_scan'', wg_description = ''Quick vulnerability scan'',
          wg_rules = [ranked_rule ''fastest'' 2 (2 * minute)], wg_parallel = True, wg_continue = True,
          wg_timeout = 3 * minute, wg_dependencies = [], wg_conditions = []\<rparr>,
         \<lparr>wg_name = ''comprehensive_scan'', wg_description = ''Thorough security analysis'',
          wg_rules = [ranked_rule ''comprehensive'' 5 (10 * minute)], wg_parallel = True, wg_continue = True,
          wg_timeout = 15 * minute, wg_dependencies = [''fast_scan''], wg_conditions = []\<rparr>],
      sw_configuration =
        \<lparr>wc_max_concurrency = 4, wc_global_timeout = 20 * minute, wc_fail_fast = False,
         wc_retry = \<lparr>rp_max_retries = 0, rp_backoff = 0, rp_initial_delay = 0, rp_max_delay = 0\<rparr>,
         wc_aggregation = [], wc_deduplication = False\<rparr>,
      sw_created = None, sw_updated = 0\<rparr>"

text \<open>\<open>file\<close> is what reading and parsing \<^verbatim>\<open>configs/workflows.json\<close> gives.\<close>

definition new_workflow_engine :: "time \<Rightarrow> workflow_definition list option \<Rightarrow> workflow_engine" where
  "new_workflow_engine now conf =
     (case conf of
        Some ds \<Rightarrow> load_workflows now ds \<lparr>we_workflows = []\<rparr>
      | None \<Rightarrow> snd (engine_register now docker_workflow \<lparr>we_workflows = []\<rparr>))"

section \<open>Waiting\<close>

lemma poll_result:
  assumes "poll_dependency f r n = Some x"
  shows "if r then x = None else x = Some ContextDone \<and> (\<exists>k \<ge> n. f k)"
proof (rule poll_dependency.raw_induct
    [where P = "\<lambda>f r n x. if r then x = None else x = Some ContextDone \<and> (\<exists>k \<ge> n. f k)", OF _ assms])
  fix poll and f :: "nat \<Rightarrow> bool" and r n x
  assume IH: "\<And>f r n x. poll f r n = Some x \<Longrightarrow> if r then x = None else x = Some ContextDone \<and> (\<exists>k \<ge> n. f k)"
    and body: "(if r then Some None else if f n then Some (Some ContextDone) else poll f r (Suc n)) = Some x"
  show "if r then x = None else x = Some ContextDone \<and> (\<exists>k \<ge> n. f k)"
    using body IH [of f r "Suc n" x] by (auto split: if_splits dest: Suc_leD)
qed

lemma poll_ready [simp]: "poll_dependency f True n = Some None"
  by (simp add: poll_dependency.simps)

lemma poll_never: "\<forall>k. \<not> f k \<Longrightarrow> poll_dependency f False n = None"
  using poll_result [of f False n] by (cases "poll_dependency f False n") auto

lemma poll_done: "f k \<Longrightarrow> n \<le> k \<Longrightarrow> poll_dependency f False n = Some (Some ContextDone)"
proof (induction "k - n" arbitrary: n)
  case 0
  then show ?case by (subst poll_dependency.simps) simp
next
  case (Suc d)
  then show ?case by (subst poll_dependency.simps) simp
qed

definition all_done :: "(string \<times> stage_result) list \<Rightarrow> bool" where
  "all_done results \<longleftrightarrow> (\<forall>(_, r) \<in> set results. gs_status r = ''completed'' \<and> gs_results r = [])"

lemma all_done_update:
  "all_done results \<Longrightarrow> gs_status r = ''completed'' \<Longrightarrow> gs_results r = [] \<Longrightarrow> all_done (AList.update n r results)"
  using set_update_subset [of n r results] by (fastforce simp: all_done_def)

lemma ready_iff:
  assumes "all_done results"
  shows "(case map_of results d of None \<Rightarrow> False | Some r \<Rightarrow> gs_status r = ''completed'') \<longleftrightarrow> d \<in> set (keys results)"
proof (cases "map_of results d")
  case None
  then have "d \<notin> set (keys results)" by (simp add: map_of_eq_None_iff)
  with None show ?thesis by simp
next
  case (Some r)
  then have "(d, r) \<in> set results" by (rule map_of_SomeD)
  with Some assms show ?thesis by (force simp: all_done_def)
qed

lemma wait_met: "all_done results \<Longrightarrow> set ds \<subseteq> set (keys results) \<Longrightarrow> wait_for_dependencies env results ds = Some None"
  by (induction ds) (simp_all add: ready_iff)

lemma wait_unmet:
  "all_done results \<Longrightarrow> \<not> set ds \<subseteq> set (keys results) \<Longrightarrow> \<forall>k. \<not> en_done env k \<Longrightarrow> wait_for_dependencies env results ds = None"
proof (induction ds)
  case (Cons d ds)
  then show ?case by (cases "d \<in> set (keys results)") (simp_all add: ready_iff poll_never)
qed simp

lemma wait_done:
  assumes "en_done env k"
  shows "wait_for_dependencies env results ds \<noteq> None"
proof (induction ds)
  case (Cons d ds)
  have "poll_dependency (en_done env) b 0 \<noteq> None" for b
    using poll_done [of "en_done env" k 0] assms by (cases b) auto
  with Cons show ?case by (auto split: option.splits)
qed simp

section \<open>Running with a manager in use\<close>

lemma rules_select_nothing:
  assumes "manager_reachable m"
  shows "\<exists>errs. execute_rules env m rus [] errors = Some ([], errs)"
proof (induction rus arbitrary: errors)
  case (Cons ru rus)
  have "execute_scanner_rule env m ru = Some (Inr []) \<or> (\<exists>e. execute_scanner_rule env m ru = Some (Inl e))"
    by (auto simp: execute_scanner_rule_def execute_strategy_rule_def execute_fixed_rule_def scan_with_def
        no_strategy_selects [OF assms])
  with Cons show ?case by auto
qed simp

lemma stage_selects_nothing:
  assumes "manager_reachable m"
  obtains r where "execute_stage env m g = Some (r, None)" "gs_status r = ''completed''" "gs_results r = []"
  using rules_select_nothing [OF assms, of env "wg_rules g" "[]"] that by (auto simp: execute_stage_def)

text \<open>Every stage that runs finds its dependencies among \<open>names\<close> and the running stages before it.\<close>

fun deps_met :: "engine_env \<Rightarrow> string set \<Rightarrow> workflow_stage list \<Rightarrow> bool" where
  "deps_met env names [] \<longleftrightarrow> True"
| "deps_met env names (g # gs) \<longleftrightarrow>
     (if should_run_stage env g
      then set (wg_dependencies g) \<subseteq> names \<and> deps_met env (insert (wg_name g) names) gs
      else deps_met env names gs)"

lemma deps_met_iff:
  "deps_met env names gs \<longleftrightarrow>
     (\<forall>pre g post. gs = pre @ g # post \<longrightarrow> should_run_stage env g
        \<longrightarrow> set (wg_dependencies g) \<subseteq> names \<union> wg_name ` set (filter (should_run_stage env) pre))"
proof (induction env names gs rule: deps_met.induct)
  case (2 env names g gs)
  then show ?case unfolding all_splits_Cons by (cases "should_run_stage env g") simp_all
qed simp

lemma run_stages:
  assumes "manager_reachable m" and "\<forall>k. \<not> en_done env k"
  shows "all_done results \<Longrightarrow>
    (if deps_met env (set (keys results)) gs
     then \<exists>results'. execute_stages env m gs results = Returned (Inr results') \<and> all_done results'
       \<and> set (keys results') = set (keys results) \<union> wg_name ` set (filter (should_run_stage env) gs)
     else execute_stages env m gs results = WaitsForever)"
proof (induction gs arbitrary: results)
  case (Cons g gs)
  show ?case
  proof (cases "should_run_stage env g")
    case False
    with Cons.IH [OF Cons.prems] show ?thesis by (simp split: if_split_asm)
  next
    case run: True
    show ?thesis
    proof (cases "set (wg_dependencies g) \<subseteq> set (keys results)")
      case False
      with run Cons.prems show ?thesis by (simp add: wait_unmet [OF _ _ assms(2)])
    next
      case True
      obtain r where r: "execute_stage env m g = Some (r, None)" "gs_status r = ''completed''" "gs_results r = []"
        using assms(1) by (rule stage_selects_nothing)
      have keys: "set (keys (AList.update (wg_name g) r results)) = insert (wg_name g) (set (keys results))"
        by (simp add: dom_update flip: dom_map_of_conv_image_fst)
      have step: "execute_stages env m (g # gs) results = execute_stages env m gs (AList.update (wg_name g) r results)"
        using run r wait_met [OF Cons.prems True] by simp
      have deps: "deps_met env (set (keys results)) (g # gs) \<longleftrightarrow> deps_met env (set (keys (AList.update (wg_name g) r results))) gs"
        using run True by (simp add: keys del: set_map)
      have names: "set (keys results) \<union> wg_name ` set (filter (should_run_stage env) (g # gs))
          = set (keys (AList.update (wg_name g) r results)) \<union> wg_name ` set (filter (should_run_stage env) gs)"
        unfolding keys using run by simp
      show ?thesis
        unfolding step deps names by (rule Cons.IH [OF all_done_update [OF Cons.prems r(2,3)]])
    qed
  qed
qed simp

lemma aggregate_nothing: "aggregate now [] = (aggregate now [])\<lparr>ag_vulnerabilities := [], ag_summary := empty_summary\<rparr>"
  by (simp add: aggregate_def deduplicate_vulnerabilities_def sort_vulnerabilities_def calculate_summary_def Let_def)

lemma aggregate_all_done: "all_done results \<Longrightarrow> aggregate_results now results = Some (aggregate now [])"
proof -
  assume "all_done results"
  then have "concat (map (\<lambda>(_, r). gs_results r) results) = []" by (auto simp: all_done_def)
  then show ?thesis unfolding aggregate_results_def Let_def by (simp only:) simp
qed

lemma workflow_run:
  assumes "manager_reachable m" and "get_workflow i e = Some w" and "\<forall>k. \<not> en_done env k"
  shows "if deps_met env {} (sw_stages w)
    then \<exists>results. execute_workflow env m i e = Returned (Inr \<lparr>wr_workflow = sw_id w, wr_status = ''completed'',
          wr_stages = results, wr_aggregated = Some (aggregate (en_now env) [])\<rparr>) \<and> all_done results
        \<and> set (keys results) = wg_name ` set (filter (should_run_stage env) (sw_stages w))
    else execute_workflow env m i e = WaitsForever"
  using run_stages [OF assms(1,3), of "[]" "sw_stages w"] assms(2)
  by (auto simp: execute_workflow_def get_workflow_def aggregate_all_done all_done_def [of "[]"] split: if_splits)

text \<open>
  C20: When a workflow returns. Executed without a deadline, a registered workflow returns exactly if
  every stage whose conditions hold depends only on stages before it whose conditions hold too; it
  then completes with a result for exactly the stages whose conditions hold. Otherwise it waits for
  ever, although the validation at registration accepts any dependency on a stage of the workflow.
\<close>

theorem workflow_returns_iff:
  assumes "manager_reachable m" and "get_workflow i e = Some w" and "\<forall>k. \<not> en_done env k"
  shows "(execute_workflow env m i e \<noteq> WaitsForever \<longleftrightarrow>
      (\<forall>pre g post. sw_stages w = pre @ g # post \<longrightarrow> should_run_stage env g
         \<longrightarrow> set (wg_dependencies g) \<subseteq> wg_name ` set (filter (should_run_stage env) pre)))
    \<and> (execute_workflow env m i e \<noteq> WaitsForever \<longrightarrow>
      (\<exists>res. execute_workflow env m i e = Returned (Inr res) \<and> wr_status res = ''completed''
         \<and> set (keys (wr_stages res)) = wg_name ` set (filter (should_run_stage env) (sw_stages w))))"
  using workflow_run [OF assms] deps_met_iff [of env "{}" "sw_stages w"]
  by (cases "deps_met env {} (sw_stages w)") (auto simp del: set_map)

definition demo_stage :: "string \<Rightarrow> string list \<Rightarrow> workflow_stage" where
  "demo_stage n ds = \<lparr>wg_name = n, wg_description = [], wg_rules = [], wg_parallel = False, wg_continue = False, wg_timeout = 0,
     wg_dependencies = ds, wg_conditions = []\<rparr>"

definition demo_workflow :: scan_workflow where
  "demo_workflow = (convert_config_to_workflow 0 \<lparr>wd_name = ''w'', wd_types = [], wd_scanners = [], wd_policy_path = [],
     wd_description = [], wd_strategy = [], wd_failure_policy = [], wd_enabled = True\<rparr>)
     \<lparr>sw_stages := [demo_stage ''a'' [''b''], demo_stage ''b'' []]\<rparr>"

definition demo_engine :: workflow_engine where
  "demo_engine = snd (engine_register 0 demo_workflow \<lparr>we_workflows = []\<rparr>)"

definition patient_env :: engine_env where
  "patient_env = \<lparr>en_path = ''/a'', en_type = ''docker'', en_now = 0, en_done = (\<lambda>_. False)\<rparr>"

lemma demo_accepted: "fst (engine_register 0 demo_workflow \<lparr>we_workflows = []\<rparr>) = None"
  by code_simp

theorem workflow_returns_iff_witness: "execute_workflow patient_env new_plugin_manager ''w'' demo_engine = WaitsForever"
proof -
  obtain w where w: "get_workflow ''w'' demo_engine = Some w" "sw_stages w = [demo_stage ''a'' [''b''], demo_stage ''b'' []]"
    by (auto simp: get_workflow_def demo_engine_def engine_register_def validate_workflow_def demo_workflow_def demo_stage_def
        convert_config_to_workflow_def workflow_id_of_def to_lower_def lower_char_def)
  moreover have "should_run_stage patient_env (demo_stage ''a'' [''b''])" by code_simp
  ultimately show ?thesis
    using workflow_returns_iff [OF manager_reachable.New w(1), of patient_env]
    by (auto simp: patient_env_def demo_stage_def dest: spec [of _ "[]"])
qed

lemma workflow_with_deadline_returns:
  assumes "en_done env k"
  shows "execute_workflow env m i e \<noteq> WaitsForever"
proof -
  have "execute_stages env m gs results \<noteq> WaitsForever" for gs results
    by (induction gs arbitrary: results) (auto simp: wait_done [OF assms] split: option.splits)
  then show ?thesis by (auto simp: execute_workflow_def split: option.splits outcome.splits sum.splits)
qed

lemma stages_yield_nothing:
  assumes "manager_reachable m"
  shows "all_done results \<Longrightarrow> execute_stages env m gs results = Returned (Inr results') \<Longrightarrow> all_done results'"
proof (induction gs arbitrary: results)
  case (Cons g gs)
  obtain r where r: "execute_stage env m g = Some (r, None)" "gs_status r = ''completed''" "gs_results r = []"
    using assms by (rule stage_selects_nothing)
  show ?case
    using Cons.prems(2) Cons.IH [OF Cons.prems(1)] Cons.IH [OF all_done_update [OF Cons.prems(1) r(2,3)]]
    by (auto simp: r(1) split: if_split_asm option.split_asm)
qed simp

lemma stages_do_not_panic:
  assumes "manager_reachable m"
  shows "execute_stages env m gs results \<noteq> Panicked"
proof (induction gs arbitrary: results)
  case (Cons g gs)
  obtain r where "execute_stage env m g = Some (r, None)" using assms by (rule stage_selects_nothing)
  with Cons show ?case by (auto split: option.split)
qed simp

text \<open>
  Workflows report clean artifacts without scanning them. With any plugins registered, whatever
  the workflow and the artifact, an execution that returns a result has status \<open>completed\<close>, no stage
  holds a scanner result, and the aggregated report is complete, without a single vulnerability and
  without a scanner: no built-in strategy ever selects one.
\<close>

theorem workflows_never_scan:
  assumes "manager_reachable m" and "execute_workflow env m i e = Returned (Inr res)"
  shows "wr_status res = ''completed'' \<and> (\<forall>(_, r) \<in> set (wr_stages res). gs_status r = ''completed'' \<and> gs_results r = [])
    \<and> (\<exists>ag. wr_aggregated res = Some ag \<and> ag_vulnerabilities ag = [] \<and> ag_summary ag = empty_summary
         \<and> ag_results ag = [] \<and> ag_total ag = 0)"
proof -
  have "\<exists>(w :: scan_workflow) results ag. execute_stages env m (sw_stages w) [] = Returned (Inr results)
      \<and> aggregate_results (en_now env) results = Some ag \<and> res = \<lparr>wr_workflow = sw_id w, wr_status = ''completed'',
        wr_stages = results, wr_aggregated = Some ag\<rparr>"
    using assms(2)
    by (auto simp: execute_workflow_def split: option.split_asm outcome.split_asm sum.split_asm)
  then obtain w :: scan_workflow and results ag where run: "execute_stages env m (sw_stages w) [] = Returned (Inr results)"
    and res: "aggregate_results (en_now env) results = Some ag" "wr_status res = ''completed''" "wr_stages res = results"
      "wr_aggregated res = Some ag"
    by auto
  have "all_done results"
    using stages_yield_nothing [OF assms(1) _ run] by (simp add: all_done_def)
  then show ?thesis
    using res by (auto simp: aggregate_all_done all_done_def aggregate_def deduplicate_vulnerabilities_def
        sort_vulnerabilities_def calculate_summary_def Let_def)
qed

definition busy_plugin :: scanner_plugin where
  "busy_plugin = (demo_plugin ''busy'' ''fast'')\<lparr>sp_scan := (\<lambda>_ t. ScanOk \<lparr>sr_scanner = ''busy'', sr_version = [], sr_type = t,
     sr_vulnerabilities = [\<lparr>vu_id = ''1'', vu_cve = ''CVE-1'', vu_severity = ''CRITICAL'', vu_title = [], vu_description = [],
       vu_package = [], vu_version = [], vu_fixed_in = [], vu_references = [], vu_cvss = 10\<rparr>],
     sr_summary = empty_summary, sr_duration = 0\<rparr>)\<rparr>"

theorem workflows_never_scan_witness:
  "\<exists>res. execute_workflow patient_env (snd (register_plugin 0 busy_plugin new_plugin_manager)) ''docker_comprehensive''
      (new_workflow_engine 0 None) = Returned (Inr res) \<and> wr_status res = ''completed'' \<and> (\<exists>ag. wr_aggregated res = Some ag \<and> ag_vulnerabilities ag = [])"
proof -
  let ?m = "snd (register_plugin 0 busy_plugin new_plugin_manager)"
  have m: "manager_reachable ?m" by (intro manager_reachable.intros)
  let ?w = "docker_workflow\<lparr>sw_updated := 0, sw_created := Some 0\<rparr>"
  have w: "get_workflow ''docker_comprehensive'' (new_workflow_engine 0 None) = Some ?w" by code_simp
  have "deps_met patient_env {} (sw_stages ?w)" by (simp add: docker_workflow_def should_run_stage_def)
  then obtain res where "execute_workflow patient_env ?m ''docker_comprehensive'' (new_workflow_engine 0 None) = Returned (Inr res)"
    using workflow_run [OF m w, of patient_env] by (auto simp: patient_env_def)
  with workflows_never_scan [OF m this] show ?thesis by blast
qed

section \<open>Configured workflows\<close>

lemma created_stages_met: "deps_met env names (create_stages_from_scanners scanners)"
  by (simp add: create_stages_from_scanners_def Let_def should_run_stage_def)

lemma docker_stages_met: "deps_met env names (sw_stages docker_workflow)"
  by (simp add: docker_workflow_def should_run_stage_def)

lemma registered_stages:
  assumes "\<forall>w' \<in> set (list_workflows e). P (sw_stages w')" and "P (sw_stages w)"
  shows "\<forall>w' \<in> set (list_workflows (snd (engine_register now w e))). P (sw_stages w')"
proof (cases "validate_workflow w")
  case None
  let ?w = "w\<lparr>sw_updated := now, sw_created := (case sw_created w of None \<Rightarrow> Some now | Some t \<Rightarrow> Some t)\<rparr>"
  have "we_workflows (snd (engine_register now w e)) = AList.update (sw_id w) ?w (we_workflows e)"
    using None by (simp add: engine_register_def Let_def)
  moreover have "sw_stages ?w = sw_stages w" by simp
  ultimately show ?thesis
    using assms set_update_subset [of "sw_id w" ?w "we_workflows e"] unfolding list_workflows_def by force
next
  case (Some err)
  with assms show ?thesis by (simp add: engine_register_def)
qed

lemma new_engine_stages: "\<forall>w \<in> set (list_workflows (new_workflow_engine now conf)). deps_met env {} (sw_stages w)"
proof (cases conf)
  case None
  then show ?thesis
    using registered_stages [of "\<lparr>we_workflows = []\<rparr>" "deps_met env {}" docker_workflow now]
    by (simp add: new_workflow_engine_def docker_stages_met list_workflows_def)
next
  case (Some ds)
  have loaded: "\<forall>w \<in> set (list_workflows e). deps_met env {} (sw_stages w)
      \<Longrightarrow> \<forall>w \<in> set (list_workflows (load_workflows now ds e)). deps_met env {} (sw_stages w)" for e
    unfolding load_workflows_def
  proof (induction ds arbitrary: e)
    case (Cons d ds)
    have "\<forall>w \<in> set (list_workflows (snd (engine_register now (convert_config_to_workflow now d) e))). deps_met env {} (sw_stages w)"
      using Cons.prems by (rule registered_stages) (simp add: convert_config_to_workflow_def created_stages_met)
    with Cons show ?case by simp
  qed simp
  show ?thesis
    using Some loaded [of "\<lparr>we_workflows = []\<rparr>"] by (simp add: new_workflow_engine_def) (simp add: list_workflows_def)
qed

text \<open>
  Configured workflows finish. Whatever the configuration file says, and also when there is none,
  every workflow of a new engine returns a result from every execution without a deadline, with one
  stage result for each of its stages.
\<close>

theorem configured_workflows_finish:
  assumes "manager_reachable m" and "get_workflow i (new_workflow_engine now conf) = Some w" and "\<forall>k. \<not> en_done env k"
  shows "\<exists>res. execute_workflow env m i (new_workflow_engine now conf) = Returned (Inr res) \<and> wr_status res = ''completed''
    \<and> set (keys (wr_stages res)) = wg_name ` set (filter (should_run_stage env) (sw_stages w))"
proof -
  have "w \<in> set (list_workflows (new_workflow_engine now conf))"
    using assms(2) by (force simp: get_workflow_def list_workflows_def dest: map_of_SomeD)
  then have "deps_met env {} (sw_stages w)" using new_engine_stages by blast
  with workflow_run [OF assms] show ?thesis by auto
qed

theorem configured_workflows_finish_witness:
  "\<exists>res. execute_workflow patient_env new_plugin_manager ''my_scan'' (new_workflow_engine 5
      (Some [\<lparr>wd_name = ''My Scan'', wd_types = [''pypi''], wd_scanners = [''syft'', ''grype''], wd_policy_path = [], wd_description = [],
        wd_strategy = ''parallel'', wd_failure_policy = [], wd_enabled = True\<rparr>])) = Returned (Inr res) \<and> wr_status res = ''completed''"
  (is "\<exists>res. execute_workflow _ _ _ ?e = _ \<and> _")
proof -
  have "get_workflow ''my_scan'' ?e \<noteq> None" by code_simp
  then obtain w where "get_workflow ''my_scan'' ?e = Some w" by blast
  from configured_workflows_finish [OF manager_reachable.New this, of patient_env] show ?thesis
    by (auto simp: patient_env_def)
qed

end
