(* ===== verification/TierCache.thy ===== *)
theory TierCache
  imports GoLib Tenants
begin

text \<open>
  The cache in front of the public registries: the multi-tier cache manager
  (internal/cache/multi_tier_manager.go) over Redis and a directory, and the proxy handler that
  fetches and caches packages (internal/handlers/remote_proxy_handler.go).
\<close>

section \<open>State\<close>

datatype cache_source = FromRedis | FromDisk | FromCloud | FromRemote

record cached_artifact =
  ca_data :: bytes
  ca_size :: int
  ca_content_type :: string
  ca_checksum :: string
  ca_cached_at :: time
  ca_source :: "cache_source option"

text \<open>
  Redis holds values with the time of their expiry (never for a time to live of zero); a value in
  JSON is the value itself (content types are ASCII). The disk is its files; the directories are
  the paths above them.
\<close>

record tier_cache =
  mt_redis :: "(string \<times> (cached_artifact \<times> time option)) list"
  mt_base :: path
  mt_files :: "(path \<times> bytes) list"
  mt_cloud :: bool

datatype file_write = WrittenWhole | OpenRefused | CutShort nat

record tier_env =
  ev_now :: time
  ev_redis_up :: bool
  ev_mkdir_ok :: "path \<Rightarrow> bool"
  ev_write :: "path \<Rightarrow> file_write"
  ev_read_ok :: "path \<Rightarrow> bool"
  ev_remove_ok :: "path \<Rightarrow> bool"

datatype tier_error = RedisDown | MkdirFailed | WriteFailed

definition l1_max_size :: int where "l1_max_size = 10 * 1024 * 1024"
definition l2_max_size :: int where "l2_max_size = 1024 * 1024 * 1024"

definition new_tier_cache :: "path \<Rightarrow> (path \<times> bytes) list \<Rightarrow> tier_cache" where
  "new_tier_cache disk files =
     \<lparr>mt_redis = [], mt_base = path_join disk [''remote-cache''], mt_files = files, mt_cloud = False\<rparr>"

section \<open>Redis tier\<close>

definition redis_key :: "string \<Rightarrow> string" where
  "redis_key key = ''remote:artifact:'' @ key"

definition redis_live :: "time \<Rightarrow> cached_artifact \<times> time option \<Rightarrow> bool" where
  "redis_live now v = (case snd v of None \<Rightarrow> True | Some t \<Rightarrow> now < t)"

definition get_from_l1 :: "tier_env \<Rightarrow> string \<Rightarrow> tier_cache \<Rightarrow> cached_artifact option" where
  "get_from_l1 env key c =
     (if \<not> ev_redis_up env then None
      else case map_of (mt_redis c) (redis_key key) of
             None \<Rightarrow> None
           | Some v \<Rightarrow> if redis_live (ev_now env) v then Some ((fst v)\<lparr>ca_source := Some FromRedis\<rparr>) else None)"

definition set_in_l1 :: "tier_env \<Rightarrow> string \<Rightarrow> cached_artifact \<Rightarrow> time \<Rightarrow> tier_cache \<Rightarrow> tier_error option \<times> tier_cache" where
  "set_in_l1 env key a ttl c =
     (if \<not> ev_redis_up env then (Some RedisDown, c)
      else (None, c\<lparr>mt_redis := AList.update (redis_key key)
                     (a, if ttl = 0 then None else Some (ev_now env + ttl)) (mt_redis c)\<rparr>))"

section \<open>Disk tier\<close>

definition get_file_path :: "path \<Rightarrow> string \<Rightarrow> path" where
  "get_file_path base key =
     (if length key < 2 then path_join base [''default'', key] else path_join base [take 2 key, key])"

definition meta_path :: "path \<Rightarrow> path" where
  "meta_path p = (if p = [] then [''.meta''] else butlast p @ [last p @ ''.meta''])"

definition is_dir :: "(path \<times> bytes) list \<Rightarrow> path \<Rightarrow> bool" where
  "is_dir files p = list_ex (\<lambda>q. length p < length q \<and> take (length p) q = p) (keys files)"

text \<open>\<^verbatim>\<open>os.MkdirAll\<close> fails when a component of the path is a file.\<close>

definition make_dirs :: "tier_env \<Rightarrow> path \<Rightarrow> (path \<times> bytes) list \<Rightarrow> bool" where
  "make_dirs env p files \<longleftrightarrow>
     ev_mkdir_ok env p \<and> \<not> list_ex (\<lambda>q. length q \<le> length p \<and> take (length q) p = q) (keys files)"

text \<open>\<^verbatim>\<open>os.WriteFile\<close> truncates the file before it writes; it can stop half-way.\<close>

definition tier_write_file :: "tier_env \<Rightarrow> path \<Rightarrow> bytes \<Rightarrow> (path \<times> bytes) list \<Rightarrow> bool \<times> (path \<times> bytes) list" where
  "tier_write_file env p bs files =
     (if is_dir files p then (False, files)
      else case ev_write env p of
             OpenRefused \<Rightarrow> (False, files)
           | CutShort n \<Rightarrow> (False, AList.update p (take n bs) files)
           | WrittenWhole \<Rightarrow> (True, AList.update p bs files))"

definition ascii_bytes :: "string \<Rightarrow> bytes" where
  "ascii_bytes s = map (\<lambda>c. word_of_nat (of_char c)) s"

definition bytes_ascii :: "bytes \<Rightarrow> string" where
  "bytes_ascii bs = map (\<lambda>b. char_of (unat b)) bs"

definition disk_get :: "tier_env \<Rightarrow> string \<Rightarrow> tier_cache \<Rightarrow> cached_artifact option" where
  "disk_get env key c =
     (let p = get_file_path (mt_base c) key
      in case (if ev_read_ok env p then map_of (mt_files c) p else None) of
           None \<Rightarrow> None
         | Some data \<Rightarrow>
             let meta = (if ev_read_ok env (meta_path p) then map_of (mt_files c) (meta_path p) else None)
             in Some \<lparr>ca_data = data, ca_size = int (length data),
                      ca_content_type = (case meta of
                          None \<Rightarrow> ''application/octet-stream''
                        | Some m \<Rightarrow> if m = [] then ''application/octet-stream'' else bytes_ascii m),
                      ca_checksum = [], ca_cached_at = ev_now env, ca_source = Some FromDisk\<rparr>)"

definition disk_set :: "tier_env \<Rightarrow> string \<Rightarrow> cached_artifact \<Rightarrow> tier_cache \<Rightarrow> tier_error option \<times> tier_cache" where
  "disk_set env key a c =
     (let p = get_file_path (mt_base c) key
      in if \<not> make_dirs env (butlast p) (mt_files c) then (Some MkdirFailed, c)
         else case tier_write_file env p (ca_data a) (mt_files c) of
                (False, files) \<Rightarrow> (Some WriteFailed, c\<lparr>mt_files := files\<rparr>)
              | (True, files) \<Rightarrow>
                  (None, c\<lparr>mt_files := snd (tier_write_file env (meta_path p) (ascii_bytes (ca_content_type a)) files)\<rparr>))"

section \<open>Manager\<close>

text \<open>What \<^verbatim>\<open>Get\<close> starts in the background.\<close>

datatype promotion = PromoteToL1 string cached_artifact | PromoteToL2 string cached_artifact

definition get_from_l3 :: "string \<Rightarrow> tier_cache \<Rightarrow> cached_artifact option" where
  "get_from_l3 key c = None"

definition set_in_l3 :: "string \<Rightarrow> cached_artifact \<Rightarrow> tier_cache \<Rightarrow> tier_error option \<times> tier_cache" where
  "set_in_l3 key a c = (None, c)"

definition tier_get ::
  "tier_env \<Rightarrow> string \<Rightarrow> tier_cache \<Rightarrow> (cached_artifact \<times> cache_source) option \<times> promotion list" where
  "tier_get env key c =
     (case get_from_l1 env key c of
        Some a \<Rightarrow> (Some (a, FromRedis), [])
      | None \<Rightarrow>
          (case disk_get env key c of
             Some a \<Rightarrow> (Some (a, FromDisk), if ca_size a < l1_max_size then [PromoteToL1 key a] else [])
           | None \<Rightarrow>
               (case (if mt_cloud c then get_from_l3 key c else None) of
                  Some a \<Rightarrow> (Some (a, FromCloud), [PromoteToL2 key a])
                | None \<Rightarrow> (None, []))))"

fun promote :: "tier_env \<Rightarrow> promotion \<Rightarrow> tier_cache \<Rightarrow> tier_cache" where
  "promote env (PromoteToL1 key a) c = snd (set_in_l1 env key a (24 * hour) c)"
| "promote env (PromoteToL2 key a) c = snd (disk_set env key a c)"

definition tier_set ::
  "tier_env \<Rightarrow> string \<Rightarrow> bytes \<Rightarrow> string \<Rightarrow> string \<Rightarrow> time \<Rightarrow> tier_cache \<Rightarrow> tier_error option \<times> tier_cache" where
  "tier_set env key data ctype checksum ttl c =
     (let size = int (length data);
          a = \<lparr>ca_data = data, ca_size = size, ca_content_type = ctype, ca_checksum = checksum,
               ca_cached_at = ev_now env, ca_source = None\<rparr>
      in if size < l1_max_size
         then (None, snd (disk_set env key a (snd (set_in_l1 env key a ttl c))))
         else if size < l2_max_size then disk_set env key a c
         else if mt_cloud c then set_in_l3 key a c
         else disk_set env key a c)"

text \<open>The bytes a reader of the cached artifact gives.\<close>

definition tier_get_reader :: "tier_env \<Rightarrow> string \<Rightarrow> tier_cache \<Rightarrow> (bytes \<times> cache_source) option \<times> promotion list" where
  "tier_get_reader env key c =
     (case tier_get env key c of
        (None, ps) \<Rightarrow> (None, ps)
      | (Some (a, src), ps) \<Rightarrow> (Some (take (nat (ca_size a)) (ca_data a), src), ps))"

definition tier_remove_file :: "tier_env \<Rightarrow> path \<Rightarrow> (path \<times> bytes) list \<Rightarrow> (path \<times> bytes) list" where
  "tier_remove_file env p files = (if ev_remove_ok env p then AList.delete p files else files)"

definition tier_invalidate :: "tier_env \<Rightarrow> string \<Rightarrow> tier_cache \<Rightarrow> tier_cache" where
  "tier_invalidate env key c =
     (let c = (if ev_redis_up env then c\<lparr>mt_redis := AList.delete (redis_key key) (mt_redis c)\<rparr> else c);
          p = get_file_path (mt_base c) key
      in c\<lparr>mt_files := tier_remove_file env (meta_path p) (tier_remove_file env p (mt_files c))\<rparr>)"

text \<open>Flushing: the pattern for Redis is \<^verbatim>\<open>cache:*\<close>; on disk each entry of the base directory is removed.\<close>

definition flush_l1 :: "tier_env \<Rightarrow> tier_cache \<Rightarrow> tier_error option \<times> tier_cache" where
  "flush_l1 env c =
     (if \<not> ev_redis_up env then (Some RedisDown, c)
      else (None, c\<lparr>mt_redis := filter (\<lambda>(k, _). \<not> has_prefix k ''cache:'') (mt_redis c)\<rparr>))"

text \<open>A directory with files in it is not removed by \<^verbatim>\<open>os.Remove\<close>.\<close>

definition flush_l2 :: "tier_env \<Rightarrow> tier_cache \<Rightarrow> tier_cache" where
  "flush_l2 env c =
     c\<lparr>mt_files := filter (\<lambda>(p, _). \<not> (p \<noteq> [] \<and> butlast p = mt_base c \<and> ev_remove_ok env p)) (mt_files c)\<rparr>"

definition flush_l3 :: "tier_cache \<Rightarrow> tier_cache" where
  "flush_l3 c = c"

section \<open>Proxy handler\<close>

datatype proxy_protocol = Maven | PyPI | Helm | Docker | Npm

fun protocol_name :: "proxy_protocol \<Rightarrow> string" where
  "protocol_name Maven = ''maven''"
| "protocol_name PyPI = ''pypi''"
| "protocol_name Helm = ''helm''"
| "protocol_name Docker = ''docker''"
| "protocol_name Npm = ''npm''"

text \<open>The path after \<^verbatim>\<open>CutPrefix "/"\<close> and the address it is fetched from; \<open>None\<close> for a path PyPI does not know.\<close>

definition proxy_target :: "proxy_protocol \<Rightarrow> string \<Rightarrow> (string \<times> string) option" where
  "proxy_target proto raw =
     (let p = trim_prefix raw ''/''
      in case proto of
           Maven \<Rightarrow> Some (p, ''https://repo1.maven.org/maven2/'' @ p)
         | PyPI \<Rightarrow>
             if has_prefix p ''simple/''
             then Some (p, ''https://pypi.org/simple/'' @ trim_suffix (trim_prefix p ''simple/'') ''/'' @ ''/'')
             else if has_prefix p ''packages/'' then Some (p, ''https://files.pythonhosted.org/'' @ p)
             else None
         | Helm \<Rightarrow> Some (p, ''https://charts.helm.sh/stable/'' @ p)
         | Docker \<Rightarrow> Some (p, ''https://registry-1.docker.io/'' @ p)
         | Npm \<Rightarrow> Some (p, ''https://registry.npmjs.org/'' @ p))"

definition cache_key_of :: "proxy_protocol \<Rightarrow> string \<Rightarrow> string" where
  "cache_key_of proto p = protocol_name proto @ '':'' @ p"

definition cache_ttl_of :: "proxy_protocol \<Rightarrow> time" where
  "cache_ttl_of proto = (if proto = Docker then 168 * hour else 24 * hour)"

definition should_scan :: "string \<Rightarrow> bool" where
  "should_scan p = list_ex (has_suffix p) [''.jar'', ''.war'', ''.whl'', ''.tar.gz'', ''.tgz'', ''.zip'']"

text \<open>
  What the handler does besides answering: background promotions, replication and the scan. The
  upstream is a function of the address; \<open>None\<close> when it fails or does not answer 200.
\<close>

datatype proxy_response = BadPath | NotFoundUpstream | Hit cache_source bytes | Miss bytes string

datatype proxy_task = Promote promotion | PersistRecord string | Replicate uuid string bytes | Scan string bytes

record proxy_env =
  px_tier :: tier_env
  px_upstream :: "string \<Rightarrow> (bytes \<times> string) option"
  px_sha256 :: "bytes \<Rightarrow> string"
  px_replication :: bool
  px_user_tenant :: "uuid \<Rightarrow> uuid option"

definition fetch_from_remote :: "proxy_env \<Rightarrow> string \<Rightarrow> (bytes \<times> string) option" where
  "fetch_from_remote env url =
     map_option (\<lambda>(bs, ct). (bs, if ct = [] then ''application/octet-stream'' else ct)) (px_upstream env url)"

definition tenant_of_request :: "proxy_env \<Rightarrow> gin_context \<Rightarrow> uuid" where
  "tenant_of_request env ctx =
     (let t = (case ctx ''tenant_id'' of Some (CtxId t) \<Rightarrow> t | _ \<Rightarrow> uuid_nil)
      in if t \<noteq> uuid_nil then t
         else case ctx ''user_id'' of
                Some (CtxId u) \<Rightarrow> (case px_user_tenant env u of None \<Rightarrow> uuid_nil | Some t \<Rightarrow> t)
              | _ \<Rightarrow> uuid_nil)"

definition proxy_artifact ::
  "proxy_env \<Rightarrow> gin_context \<Rightarrow> proxy_protocol \<Rightarrow> string \<Rightarrow> string \<Rightarrow> tier_cache
     \<Rightarrow> proxy_response \<times> proxy_task list \<times> tier_cache" where
  "proxy_artifact env ctx proto p url c =
     (let key = cache_key_of proto p
      in case tier_get_reader (px_tier env) key c of
           (Some (bs, src), ps) \<Rightarrow> (Hit src bs, map Promote ps, c)
         | (None, ps) \<Rightarrow>
             (case fetch_from_remote env url of
                None \<Rightarrow> (NotFoundUpstream, [], c)
              | Some (bs, ct) \<Rightarrow>
                  let tenant = tenant_of_request env ctx;
                      c = snd (tier_set (px_tier env) key bs ct (px_sha256 env bs) (cache_ttl_of proto) c)
                  in (Miss bs ct,
                      [PersistRecord key]
                      @ (if px_replication env \<and> tenant \<noteq> uuid_nil then [Replicate tenant p bs] else [])
                      @ (if should_scan p then [Scan p bs] else []), c)))"

definition proxy_request ::
  "proxy_env \<Rightarrow> gin_context \<Rightarrow> proxy_protocol \<Rightarrow> string \<Rightarrow> tier_cache \<Rightarrow> proxy_response \<times> proxy_task list \<times> tier_cache" where
  "proxy_request env ctx proto raw c =
     (case proxy_target proto raw of
        None \<Rightarrow> (BadPath, [], c)
      | Some (p, url) \<Rightarrow> proxy_artifact env ctx proto p url c)"

section \<open>Where keys are stored\<close>

definition file_of :: "tier_cache \<Rightarrow> string \<Rightarrow> path" where
  "file_of c key = get_file_path (mt_base c) key"

lemma protocol_plain:
  "CHR ''/'' \<notin> set (protocol_name proto)" "take 2 (protocol_name proto @ s) = take 2 (protocol_name proto)"
  "plain_name (take 2 (protocol_name proto))" "\<not> length (protocol_name proto) < 2" "protocol_name proto \<noteq> []"
  by (cases proto; simp add: plain_name_def)+

lemma plain_key: "plain_path p \<Longrightarrow> plain_path (cache_key_of proto p)"
proof -
  assume p: "plain_path p"
  have "split_on CHR ''/'' (cache_key_of proto p)
      = ((protocol_name proto @ '':'') @ hd (split_on CHR ''/'' p)) # tl (split_on CHR ''/'' p)"
    using split_on_prefix [of "CHR ''/''" "protocol_name proto @ '':''" p] protocol_plain(1)
    by (simp add: cache_key_of_def)
  moreover have "list_all plain_name (tl (split_on CHR ''/'' p))" using p by (simp add: plain_path_def list_all_tl)
  moreover have "CHR ''/'' \<notin> set (hd (split_on CHR ''/'' p))"
    using p by (cases "split_on CHR ''/'' p") (auto simp: plain_path_def plain_name_def)
  then have "plain_name ((protocol_name proto @ '':'') @ hd (split_on CHR ''/'' p))"
    using protocol_plain(1) by (cases proto) (auto simp: plain_name_def)
  ultimately show ?thesis by (simp add: plain_path_def)
qed

lemma file_of_key:
  assumes "list_all plain_name (mt_base c)" and "plain_path p"
  shows "file_of c (cache_key_of proto p)
    = mt_base c @ take 2 (protocol_name proto) # split_on CHR ''/'' (cache_key_of proto p)"
proof -
  have t: "take 2 (cache_key_of proto p) = take 2 (protocol_name proto)" "\<not> length (cache_key_of proto p) < 2"
    by (cases proto; simp add: cache_key_of_def)+
  have "CHR ''/'' \<notin> set (take 2 (protocol_name proto))" using protocol_plain(1) by (blast dest: in_set_takeD)
  then show ?thesis
    using assms plain_key [OF assms(2)] protocol_plain(3)
      path_join_segments [of "mt_base c" "[take 2 (protocol_name proto), cache_key_of proto p]"]
    by (simp add: file_of_def get_file_path_def t split_on_id plain_path_def)
qed

lemma file_of_inj:
  assumes "list_all plain_name (mt_base c)" and "plain_path p" and "plain_path p'"
    and "cache_key_of proto p \<noteq> cache_key_of proto' p'"
  shows "file_of c (cache_key_of proto p) \<noteq> file_of c (cache_key_of proto' p')"
  using assms by (simp add: file_of_key split_on_inj)

lemma meta_path_snoc: "meta_path (xs @ [x]) = xs @ [x @ ''.meta'']"
  by (simp add: meta_path_def)

lemma meta_file_of:
  assumes "list_all plain_name (mt_base c)" and "plain_path p" and "plain_path p'" and "\<not> has_suffix p ''.meta''"
  shows "meta_path (file_of c (cache_key_of proto' p')) \<noteq> file_of c (cache_key_of proto p)"
proof
  assume same: "meta_path (file_of c (cache_key_of proto' p')) = file_of c (cache_key_of proto p)"
  obtain ws w where s: "split_on CHR ''/'' (cache_key_of proto' p') = ws @ [w]"
    by (metis split_on_nonempty rev_exhaust)
  then have "file_of c (cache_key_of proto' p') = (mt_base c @ take 2 (protocol_name proto') # ws) @ [w]"
    using file_of_key [OF assms(1,3), of proto'] by simp
  then have "meta_path (file_of c (cache_key_of proto' p')) = mt_base c @ take 2 (protocol_name proto') # ws @ [w @ ''.meta'']"
    by (simp only: meta_path_snoc) simp
  then have "split_on CHR ''/'' (cache_key_of proto p) = ws @ [w @ ''.meta'']"
    using same [unfolded file_of_key [OF assms(1,2)]] by (simp only: append_eq_append_conv same_append_eq list.inject simp_thms)
  also have "\<dots> = split_on CHR ''/'' (cache_key_of proto' p' @ ''.meta'')" by (simp add: split_on_suffix s)
  finally have "cache_key_of proto p = cache_key_of proto' p' @ ''.meta''" by (simp only: split_on_inj)
  then have "protocol_name proto @ CHR '':'' # p = cache_key_of proto' p' @ ''.meta''"
    unfolding cache_key_of_def [of proto p] by simp
  then have "has_suffix (protocol_name proto @ CHR '':'' # p) ''.meta''" by (simp only: has_suffix_append)
  then have "has_suffix p ''.meta''" by (rule has_suffix_past) simp
  then show False using assms(4) by simp
qed

section \<open>What an operation leaves alone\<close>

lemma tier_write_file_other: "q \<noteq> p \<Longrightarrow> map_of (snd (tier_write_file env p bs files)) q = map_of files q"
  by (auto simp: tier_write_file_def update_conv' split: file_write.split)

lemma write_file_result:
  "tier_write_file env p bs files = (ok, files') \<Longrightarrow> q \<noteq> p \<Longrightarrow> map_of files' q = map_of files q"
  by (metis tier_write_file_other snd_conv)

lemma set_in_l1_frame [simp]:
  "mt_base (snd (set_in_l1 env key a ttl c)) = mt_base c"
  "mt_files (snd (set_in_l1 env key a ttl c)) = mt_files c"
  by (simp_all add: set_in_l1_def)

lemma redis_key_inj [simp]: "redis_key k = redis_key k' \<longleftrightarrow> k = k'"
  by (simp add: redis_key_def)

lemma set_in_l1_other:
  "k \<noteq> key \<Longrightarrow> map_of (mt_redis (snd (set_in_l1 env key a ttl c))) (redis_key k) = map_of (mt_redis c) (redis_key k)"
  by (simp add: set_in_l1_def update_conv')

lemma disk_set_frame [simp]:
  "mt_base (snd (disk_set env key a c)) = mt_base c"
  "mt_redis (snd (disk_set env key a c)) = mt_redis c"
  by (auto simp: disk_set_def Let_def split: prod.splits bool.splits)

lemma disk_set_other:
  assumes "q \<noteq> file_of c key" and "q \<noteq> meta_path (file_of c key)"
  shows "map_of (mt_files (snd (disk_set env key a c))) q = map_of (mt_files c) q"
  using assms
  by (auto simp: disk_set_def Let_def file_of_def [symmetric] tier_write_file_other write_file_result split: prod.splits bool.splits)

lemma tier_set_frame [simp]: "mt_base (snd (tier_set env key bs ct h ttl c)) = mt_base c"
  by (simp add: tier_set_def set_in_l3_def Let_def)

lemma tier_set_other_key:
  "k \<noteq> key \<Longrightarrow> map_of (mt_redis (snd (tier_set env key bs ct h ttl c))) (redis_key k) = map_of (mt_redis c) (redis_key k)"
  by (simp add: tier_set_def set_in_l3_def Let_def set_in_l1_other)

lemma tier_set_other_file:
  assumes "q \<noteq> file_of c key" and "q \<noteq> meta_path (file_of c key)"
  shows "map_of (mt_files (snd (tier_set env key bs ct h ttl c))) q = map_of (mt_files c) q"
proof -
  have [simp]: "file_of (snd (set_in_l1 env key a ttl c)) key = file_of c key" for a by (simp add: file_of_def)
  show ?thesis using assms by (simp add: tier_set_def set_in_l3_def Let_def disk_set_other)
qed

lemma promotions_of_get:
  "tier_get env key c = (r, ps) \<Longrightarrow> ps = [] \<or> (\<exists>a. ps = [PromoteToL1 key a] \<and> r = Some (a, FromDisk))"
  by (auto simp: tier_get_def get_from_l3_def split: option.splits if_splits)

section \<open>A proxied artifact over time\<close>

record proxy_world =
  pw_cache :: tier_cache
  pw_pending :: "promotion list"

fun promotions_of :: "proxy_task list \<Rightarrow> promotion list" where
  "promotions_of [] = []"
| "promotions_of (Promote q # ts) = q # promotions_of ts"
| "promotions_of (_ # ts) = promotions_of ts"

definition reads_ok :: "tier_env \<Rightarrow> bool" where
  "reads_ok env \<longleftrightarrow> (\<forall>p. ev_read_ok env p)"

text \<open>
  Requests of any client for any plain path, promotions that come round in any order, and flushes
  of the whole cache; the clock, Redis, the upstream and the writes are free in each.
\<close>

inductive proxy_step :: "proxy_world \<Rightarrow> proxy_world \<Rightarrow> bool" where
  request: "proxy_target proto raw = Some (p, url) \<Longrightarrow> plain_path p \<Longrightarrow> reads_ok (px_tier env)
    \<Longrightarrow> proxy_request env ctx proto raw (pw_cache w) = (resp, tasks, c)
    \<Longrightarrow> proxy_step w \<lparr>pw_cache = c, pw_pending = pw_pending w @ promotions_of tasks\<rparr>"
| promotion: "q \<in> set (pw_pending w)
    \<Longrightarrow> proxy_step w \<lparr>pw_cache = promote tenv q (pw_cache w), pw_pending = remove1 q (pw_pending w)\<rparr>"
| flush: "proxy_step w (w\<lparr>pw_cache := flush_l3 (flush_l2 tenv (snd (flush_l1 tenv (pw_cache w))))\<rparr>)"

definition carries :: "bytes \<Rightarrow> cached_artifact \<Rightarrow> bool" where
  "carries bs a \<longleftrightarrow> ca_data a = bs \<and> ca_size a = int (length bs)"

definition frozen :: "path \<Rightarrow> string \<Rightarrow> bytes \<Rightarrow> proxy_world \<Rightarrow> bool" where
  "frozen base key bs w \<longleftrightarrow>
     mt_base (pw_cache w) = base
     \<and> map_of (mt_files (pw_cache w)) (get_file_path base key) = Some bs
     \<and> (\<forall>a t. map_of (mt_redis (pw_cache w)) (redis_key key) = Some (a, t) \<longrightarrow> carries bs a)
     \<and> (\<forall>q \<in> set (pw_pending w). \<exists>k a. q = PromoteToL1 k a \<and> (k = key \<longrightarrow> carries bs a))"

lemma frozen_get:
  assumes "frozen base key bs w" and "reads_ok env"
  obtains a src ps where "tier_get env key (pw_cache w) = (Some (a, src), ps)" and "carries bs a"
    and "\<forall>q \<in> set ps. q = PromoteToL1 key a"
proof (cases "get_from_l1 env key (pw_cache w)")
  case None
  moreover obtain a where "disk_get env key (pw_cache w) = Some a" and "carries bs a"
    using assms by (auto simp: frozen_def disk_get_def Let_def reads_ok_def carries_def)
  ultimately show thesis by (intro that [of a FromDisk]) (auto simp: tier_get_def)
next
  case (Some a)
  then obtain b where b: "a = b\<lparr>ca_source := Some FromRedis\<rparr>"
    and "\<exists>t. map_of (mt_redis (pw_cache w)) (redis_key key) = Some (b, t)"
    by (auto simp: get_from_l1_def split: if_splits option.splits)
  then have "carries bs a" using assms(1) by (auto simp: frozen_def carries_def)
  then show thesis using Some by (intro that [of a FromRedis "[]"]) (simp_all add: tier_get_def)
qed

lemma frozen_request:
  assumes "frozen base (cache_key_of proto p) bs w" and "reads_ok (px_tier env)"
    and "proxy_target proto raw = Some (p, url)"
  obtains src ts where "proxy_request env ctx proto raw (pw_cache w) = (Hit src bs, ts, pw_cache w)"
    and "\<forall>q \<in> set (promotions_of ts). \<exists>a. q = PromoteToL1 (cache_key_of proto p) a \<and> carries bs a"
proof -
  obtain a src ps where get: "tier_get (px_tier env) (cache_key_of proto p) (pw_cache w) = (Some (a, src), ps)"
    and "carries bs a" and ps: "\<forall>q \<in> set ps. q = PromoteToL1 (cache_key_of proto p) a"
    using frozen_get [OF assms(1,2)] by blast
  moreover have "promotions_of (map Promote ps) = ps" by (induction ps) simp_all
  ultimately show thesis
    using assms(3) by (intro that [of src "map Promote ps"])
      (auto simp: proxy_request_def proxy_artifact_def tier_get_reader_def carries_def Let_def)
qed

lemma frozen_step:
  assumes "proxy_step w w'" and "frozen base (cache_key_of proto p) bs w"
    and "list_all plain_name base" and "plain_path p" and "\<not> has_suffix p ''.meta''"
  shows "frozen base (cache_key_of proto p) bs w'"
  using assms(1)
proof (cases rule: proxy_step.cases)
  case (request proto' raw' p' url env ctx resp tasks c)
  show ?thesis
  proof (cases "cache_key_of proto' p' = cache_key_of proto p")
    case True
    obtain src ts where "proxy_request env ctx proto' raw' (pw_cache w) = (Hit src bs, ts, pw_cache w)"
      and "\<forall>q \<in> set (promotions_of ts). \<exists>a. q = PromoteToL1 (cache_key_of proto p) a \<and> carries bs a"
      using frozen_request [of base proto' p' bs w env] True assms(2) request by metis
    then show ?thesis using request assms(2) by (auto simp: frozen_def)
  next
    case False
    have base: "mt_base (pw_cache w) = base" using assms(2) by (simp add: frozen_def)
    have other: "file_of (pw_cache w) (cache_key_of proto p) \<noteq> file_of (pw_cache w) (cache_key_of proto' p')"
      "file_of (pw_cache w) (cache_key_of proto p) \<noteq> meta_path (file_of (pw_cache w) (cache_key_of proto' p'))"
      using file_of_inj [of "pw_cache w" p p' proto proto'] meta_file_of [of "pw_cache w" p p' proto' proto]
        assms(3-5) request(3) base False by auto
    have c: "c = pw_cache w \<or> (\<exists>bs' ct h ttl. c = snd (tier_set (px_tier env) (cache_key_of proto' p') bs' ct h ttl (pw_cache w)))"
      and tasks: "\<forall>q \<in> set (promotions_of tasks). \<exists>a. q = PromoteToL1 (cache_key_of proto' p') a"
      using request(2,5) promotions_of_get [of "px_tier env" "cache_key_of proto' p'" "pw_cache w"]
      by (auto simp: proxy_request_def proxy_artifact_def tier_get_reader_def Let_def
          split: prod.splits option.splits if_splits)
    from c have "mt_base c = base
        \<and> map_of (mt_redis c) (redis_key (cache_key_of proto p)) = map_of (mt_redis (pw_cache w)) (redis_key (cache_key_of proto p))
        \<and> map_of (mt_files c) (file_of (pw_cache w) (cache_key_of proto p))
          = map_of (mt_files (pw_cache w)) (file_of (pw_cache w) (cache_key_of proto p))"
      using other False base by (auto simp: tier_set_other_key tier_set_other_file)
    then show ?thesis using request(1) assms(2) tasks False base by (auto simp: frozen_def file_of_def)
  qed
next
  case (promotion q tenv)
  then obtain k a where "q = PromoteToL1 k a" and "k = cache_key_of proto p \<longrightarrow> carries bs a"
    using assms(2) by (auto simp: frozen_def)
  moreover have "\<forall>q' \<in> set (remove1 q (pw_pending w)). q' \<in> set (pw_pending w)"
    using set_remove1_subset by fast
  ultimately show ?thesis using promotion assms(2)
    by (auto simp: frozen_def set_in_l1_def update_conv')
next
  case (flush tenv)
  have "file_of (pw_cache w) (cache_key_of proto p) \<noteq> []
      \<and> butlast (file_of (pw_cache w) (cache_key_of proto p)) \<noteq> base"
    using file_of_key [of "pw_cache w" p proto] assms(2-4) by (auto simp: frozen_def butlast_append)
  then show ?thesis using flush assms(2)
    by (auto simp: frozen_def flush_l1_def flush_l2_def flush_l3_def file_of_def map_of_filter_key
        redis_key_def)
qed

lemma frozen_reachable:
  assumes "proxy_step\<^sup>*\<^sup>* w w'" and "frozen base (cache_key_of proto p) bs w"
    and "list_all plain_name base" and "plain_path p" and "\<not> has_suffix p ''.meta''"
  shows "frozen base (cache_key_of proto p) bs w'"
  using assms by (induction rule: rtranclp_induct) (blast intro: frozen_step)+

text \<open>
  the first copy of a package the proxy keeps is the copy it gives out for ever. After a miss
  whose bytes reached the disk, and after any further requests, promotions and cache flushes, a
  request for the same package answers with those bytes, whatever the registry now serves, whatever
  the time to live was and however often the cache has been flushed.
\<close>

theorem proxied_copy_is_frozen:
  assumes "proxy_target proto raw = Some (p, url)" and "plain_path p" and "\<not> has_suffix p ''.meta''"
    and "list_all plain_name (mt_base c)" and "map_of (mt_redis c) (redis_key (cache_key_of proto p)) = None"
    and "proxy_request env ctx proto raw c = (Miss bs ct, ts, c')"
    and "map_of (mt_files c') (get_file_path (mt_base c) (cache_key_of proto p)) = Some bs"
    and "proxy_step\<^sup>*\<^sup>* \<lparr>pw_cache = c', pw_pending = []\<rparr> w"
    and "reads_ok (px_tier env')"
  shows "\<exists>src. fst (proxy_request env' ctx' proto raw (pw_cache w)) = Hit src bs"
proof -
  obtain h ct' where c': "c' = snd (tier_set (px_tier env) (cache_key_of proto p) bs ct' h (cache_ttl_of proto) c)"
    using assms(1,6) by (auto simp: proxy_request_def proxy_artifact_def Let_def
        split: prod.splits option.splits if_splits)
  have "frozen (mt_base c) (cache_key_of proto p) bs \<lparr>pw_cache = c', pw_pending = []\<rparr>"
    using assms(5,7) by (auto simp: frozen_def c' tier_set_def set_in_l1_def set_in_l3_def Let_def
        update_conv' carries_def split: if_splits)
  then have "frozen (mt_base c) (cache_key_of proto p) bs w"
    by (rule frozen_reachable [OF assms(8) _ assms(4,2,3)])
  then obtain src ts' where "proxy_request env' ctx' proto raw (pw_cache w) = (Hit src bs, ts', pw_cache w)"
    using frozen_request [OF _ assms(9,1)] by blast
  then show ?thesis by simp
qed

definition example_tier_env :: tier_env where
  "example_tier_env = \<lparr>ev_now = 0, ev_redis_up = True, ev_mkdir_ok = (\<lambda>_. True), ev_write = (\<lambda>_. WrittenWhole),
     ev_read_ok = (\<lambda>_. True), ev_remove_ok = (\<lambda>_. True)\<rparr>"

definition example_proxy_env :: "bytes \<Rightarrow> proxy_env" where
  "example_proxy_env bs = \<lparr>px_tier = example_tier_env, px_upstream = (\<lambda>_. Some (bs, [])), px_sha256 = (\<lambda>_. []),
     px_replication = False, px_user_tenant = (\<lambda>_. None)\<rparr>"

definition example_tier :: tier_cache where
  "example_tier = new_tier_cache [''srv''] [([''etc'', ''secret''], [7, 7])]"

lemma proxied_copy_is_frozen_witness:
  "\<exists>src. fst (proxy_request (example_proxy_env [9]) Map.empty Npm ''/left-pad''
     (flush_l3 (flush_l2 example_tier_env (snd (flush_l1 example_tier_env
       (snd (snd (proxy_request (example_proxy_env [1, 2]) Map.empty Npm ''/left-pad'' example_tier)))))))) = Hit src [1, 2]"
proof -
  let ?r = "proxy_request (example_proxy_env [1, 2]) Map.empty Npm ''/left-pad'' example_tier"
  have "\<exists>src. fst (proxy_request (example_proxy_env [9]) Map.empty Npm ''/left-pad''
     (pw_cache (\<lparr>pw_cache = snd (snd ?r), pw_pending = []\<rparr>
        \<lparr>pw_cache := flush_l3 (flush_l2 example_tier_env (snd (flush_l1 example_tier_env
          (pw_cache \<lparr>pw_cache = snd (snd ?r), pw_pending = []\<rparr>))))\<rparr>))) = Hit src [1, 2]"
  proof (rule proxied_copy_is_frozen [where p = "''left-pad''" and c = example_tier
        and env = "example_proxy_env [1, 2]" and ctx = Map.empty])
    show "proxy_request (example_proxy_env [1, 2]) Map.empty Npm ''/left-pad'' example_tier
      = (Miss [1, 2] ''application/octet-stream'', fst (snd ?r), snd (snd ?r))"
      by code_simp
    show "proxy_step\<^sup>*\<^sup>* \<lparr>pw_cache = snd (snd ?r), pw_pending = []\<rparr>
        (\<lparr>pw_cache = snd (snd ?r), pw_pending = []\<rparr>\<lparr>pw_cache := flush_l3 (flush_l2 example_tier_env (snd (flush_l1 example_tier_env
          (pw_cache \<lparr>pw_cache = snd (snd ?r), pw_pending = []\<rparr>))))\<rparr>)"
      by (rule r_into_rtranclp) (rule proxy_step.flush)
    show "reads_ok (px_tier (example_proxy_env [9]))"
      by (simp add: reads_ok_def example_proxy_env_def example_tier_env_def)
  qed code_simp+
  then show ?thesis by simp
qed

section \<open>Names with dots\<close>

lemma climbing_path:
  assumes "list_all plain_name base" and "plain_path t" and "length base + 2 \<le> k"
  shows "get_file_path base (cache_key_of proto (''packages/'' @ climb k @ t)) = split_on CHR ''/'' t"
proof -
  define key where "key = cache_key_of proto (''packages/'' @ climb k @ t)"
  define pre where "pre = take 2 (protocol_name proto)"
  define dir where "dir = protocol_name proto @ '':packages''"
  have first: "CHR ''/'' \<notin> set dir" and len: "\<not> length key < 2" and two: "take 2 key = pre"
    and pre: "plain_name pre" and dir: "plain_name dir" and key: "key = dir @ CHR ''/'' # climb k @ t"
    by (cases proto; simp add: cache_key_of_def key_def pre_def dir_def plain_name_def)+
  have key: "split_on CHR ''/'' key = dir # replicate k ''..'' @ split_on CHR ''/'' t"
    unfolding key by (simp only: split_on_append [OF first] split_climb)
  have plain: "list_all plain_name (base @ [pre, dir])" using assms(1) pre dir by simp
  have "get_file_path base key = path_join base [pre, key]"
    using len by (simp add: get_file_path_def two)
  also have "\<dots> = clean_onto [] ((base @ [pre, dir]) @ replicate k ''..'' @ split_on CHR ''/'' t)"
    using assms(1) pre by (simp add: path_join_def key concat_split_plain plain_name_def split_on_id)
  also have "\<dots> = split_on CHR ''/'' t"
    using assms(2,3) plain
    by (simp only: clean_onto_append clean_onto_dots) (simp add: plain_path_def clean_onto_plain)
  finally show ?thesis by (simp only: key_def)
qed

text \<open>
  a package name with enough \<^verbatim>\<open>..\<close> in it reads any file the server can read. Whatever file \<open>t\<close>
  names from the root, a request of any protocol for the name that climbs out of the cache
  directory answers with the file's bytes as if they were a cached package, without asking the
  registry.
\<close>

theorem climbing_name_reads_any_file:
  assumes "list_all plain_name (mt_base c)" and "plain_path t" and "length (mt_base c) + 2 \<le> k"
    and "map_of (mt_files c) (split_on CHR ''/'' t) = Some bs"
    and "get_from_l1 (px_tier env) (cache_key_of proto (''packages/'' @ climb k @ t)) c = None"
    and "reads_ok (px_tier env)"
  shows "fst (proxy_request env ctx proto (''packages/'' @ climb k @ t) c) = Hit FromDisk bs"
proof -
  let ?p = "''packages/'' @ climb k @ t"
  have "\<exists>url. proxy_target proto ?p = Some (?p, url)"
    by (cases proto) (simp_all add: proxy_target_def trim_prefix_def has_prefix_def Let_def)
  moreover have "\<exists>a. disk_get (px_tier env) (cache_key_of proto ?p) c = Some a \<and> carries bs a"
    using assms by (simp add: disk_get_def climbing_path reads_ok_def carries_def Let_def del: append_Cons)
  ultimately show ?thesis using assms(5)
    by (auto simp: proxy_request_def proxy_artifact_def tier_get_reader_def tier_get_def carries_def Let_def
        simp del: append_Cons)
qed

lemma climbing_name_reads_any_file_witness:
  "fst (proxy_request (example_proxy_env []) Map.empty Npm ''packages/../../../../etc/secret'' example_tier) = Hit FromDisk [7, 7]"
proof -
  have "climb 4 @ ''etc/secret'' = ''../../../../etc/secret''" by code_simp
  moreover have "fst (proxy_request (example_proxy_env []) Map.empty Npm (''packages/'' @ climb 4 @ ''etc/secret'') example_tier)
      = Hit FromDisk [7, 7]"
  proof (rule climbing_name_reads_any_file)
    show "reads_ok (px_tier (example_proxy_env []))"
      by (simp add: reads_ok_def example_proxy_env_def example_tier_env_def)
  qed code_simp+
  ultimately show ?thesis by simp
qed

section \<open>Broken writes, invalidation and flushing\<close>

text \<open>
  a write that was cut short is a package from then on. When the disk stops half-way through
  the first copy, the next request is answered with the part that was written: nothing compares
  the checksum that was recorded with it.
\<close>

theorem half_written_copy_is_served:
  assumes "proxy_target proto raw = Some (p, url)" and "\<not> ev_redis_up (px_tier env)"
    and "proxy_request env ctx proto raw c = (Miss bs ct, ts, c')"
    and "int (length bs) < l2_max_size"
    and "make_dirs (px_tier env) (butlast (file_of c (cache_key_of proto p))) (mt_files c)"
    and "\<not> is_dir (mt_files c) (file_of c (cache_key_of proto p))"
    and "ev_write (px_tier env) (file_of c (cache_key_of proto p)) = CutShort n"
    and "get_from_l1 (px_tier env') (cache_key_of proto p) c' = None" and "reads_ok (px_tier env')"
  shows "fst (proxy_request env' ctx' proto raw c') = Hit FromDisk (take n bs)"
proof -
  obtain h ct' where c': "c' = snd (tier_set (px_tier env) (cache_key_of proto p) bs ct' h (cache_ttl_of proto) c)"
    using assms(1,3) by (auto simp: proxy_request_def proxy_artifact_def Let_def
        split: prod.splits option.splits if_splits)
  have "mt_base c' = mt_base c" by (simp add: c')
  moreover have "map_of (mt_files c') (file_of c (cache_key_of proto p)) = Some (take n bs)"
    using assms(2,4-7) by (simp add: c' tier_set_def set_in_l1_def disk_set_def tier_write_file_def update_conv' Let_def
        flip: file_of_def)
  ultimately have "\<exists>a. disk_get (px_tier env') (cache_key_of proto p) c' = Some a \<and> carries (take n bs) a"
    using assms(9) by (simp add: disk_get_def reads_ok_def carries_def file_of_def Let_def)
  then show ?thesis using assms(1,8)
    by (auto simp: proxy_request_def proxy_artifact_def tier_get_reader_def tier_get_def carries_def Let_def min_def)
qed

lemma half_written_copy_is_served_witness:
  "fst (proxy_request (example_proxy_env [9]) Map.empty Npm ''a'' (snd (snd (proxy_request
      (example_proxy_env [1, 2, 3] \<lparr>px_tier := example_tier_env\<lparr>ev_redis_up := False, ev_write := \<lambda>_. CutShort 2\<rparr>\<rparr>)
      Map.empty Npm ''a'' example_tier)))) = Hit FromDisk [1, 2]"
proof -
  let ?e = "example_proxy_env [1, 2, 3] \<lparr>px_tier := example_tier_env\<lparr>ev_redis_up := False, ev_write := \<lambda>_. CutShort 2\<rparr>\<rparr>"
  let ?r = "proxy_request ?e Map.empty Npm ''a'' example_tier"
  have "fst (proxy_request (example_proxy_env [9]) Map.empty Npm ''a'' (snd (snd ?r))) = Hit FromDisk (take 2 [1, 2, 3])"
  proof (rule half_written_copy_is_served [where p = "''a''" and env = ?e and c = example_tier and ctx = Map.empty])
    show "?r = (Miss [1, 2, 3] ''application/octet-stream'', fst (snd ?r), snd (snd ?r))" by code_simp
    show "reads_ok (px_tier (example_proxy_env [9]))"
      by (simp add: reads_ok_def example_proxy_env_def example_tier_env_def)
  qed code_simp+
  then show ?thesis by simp
qed

text \<open>A promotion under way brings an entry back after \<^verbatim>\<open>Invalidate\<close> has removed it everywhere.\<close>

lemma promotion_undoes_invalidate:
  assumes "tier_get env key c = (Some (a, FromDisk), [PromoteToL1 key a])" and "ev_redis_up env"
  shows "get_from_l1 env key (promote env (PromoteToL1 key a) (tier_invalidate env key c)) = Some (a\<lparr>ca_source := Some FromRedis\<rparr>)"
  using assms(2) by (simp add: get_from_l1_def set_in_l1_def update_conv' redis_live_def)

text \<open>\<^verbatim>\<open>FlushL1\<close> removes keys that start with \<^verbatim>\<open>cache:\<close>; the manager writes none.\<close>

lemma flush_l1_keeps_artifacts:
  "map_of (mt_redis (snd (flush_l1 env c))) (redis_key key) = map_of (mt_redis c) (redis_key key)"
  by (simp add: flush_l1_def redis_key_def has_prefix_def)

text \<open>\<^verbatim>\<open>FlushL2\<close> removes the entries of the base directory; the files are one directory deeper.\<close>

lemma flush_l2_keeps_artifacts:
  assumes "list_all plain_name (mt_base c)" and "plain_path p"
  shows "map_of (mt_files (flush_l2 env c)) (file_of c (cache_key_of proto p)) = map_of (mt_files c) (file_of c (cache_key_of proto p))"
proof -
  have "butlast (file_of c (cache_key_of proto p)) \<noteq> mt_base c"
    using file_of_key [OF assms] by (simp add: butlast_append)
  then show ?thesis by (simp add: flush_l2_def)
qed

text \<open>A package whose name is another's with \<^verbatim>\<open>.meta\<close> after it is stored where that one's content type is.\<close>

lemma meta_files_collide:
  "file_of c (cache_key_of Npm ''a.meta'') = meta_path (file_of c (cache_key_of Npm ''a''))" if "list_all plain_name (mt_base c)"
proof -
  have "plain_path ''a''" and "plain_path ''a.meta''" by (simp_all add: plain_path_def plain_name_def)
  then show ?thesis using file_of_key [OF that, of _ Npm]
    by (simp add: cache_key_of_def meta_path_def butlast_append)
qed

end
