(* ===== verification/ChunkedUpload.thy ===== *)
theory ChunkedUpload
  imports BlobStore
begin

text \<open>
  Resumable uploads (internal/api/chunked_upload_handler.go): a session is opened with the size
  that will come, the chunks are stored one by one as artifacts of the blob storage, and the
  completion joins them into one. A handler is a function of the request, of what the services
  it calls answer, and of the world.
\<close>

section \<open>State\<close>

datatype meta_value = MetaText string | MetaInt int

record upload_session =
  us_tenant :: uuid
  us_repo :: uuid
  us_name :: string
  us_version :: string
  us_total_size :: int
  us_total_chunks :: int
  us_chunk_size :: int
  us_uploaded :: "int list"
  us_checksums :: "(int \<times> string) list"
  us_metadata :: "(string \<times> meta_value) list"
  us_created :: time
  us_expires :: time

record artifact_record =
  rec_name :: string
  rec_version :: string
  rec_type :: string
  rec_repo :: uuid
  rec_tenant :: uuid
  rec_size :: int
  rec_checksum :: string
  rec_metadata :: "(string \<times> meta_value) list"

record upload_world =
  uw_sessions :: "(string \<times> upload_session) list"
  uw_blobs :: blob_storage
  uw_records :: "artifact_record list"
  uw_scans :: "artifact_record list"

record initiate_request =
  rq_name :: string
  rq_version :: string
  rq_repo :: string
  rq_total_size :: int
  rq_chunk_size :: int
  rq_metadata :: "(string \<times> meta_value) list"

text \<open>
  During one call: the clock, the tenant in the request's context, the body (\<open>None\<close> when reading
  or parsing fails), the fresh identifier, \<^verbatim>\<open>uuid.Parse\<close>, the repository service (the type of a
  repository), whether the artifact can be recorded, and the disk.
\<close>

record upload_env =
  ue_now :: time
  ue_unix :: int
  ue_tenant :: "uuid option"
  ue_body :: "bytes option"
  ue_new_id :: string
  ue_parse_uuid :: "string \<Rightarrow> uuid option"
  ue_repo :: "uuid \<Rightarrow> string option"
  ue_record_ok :: bool
  ue_blob :: blob_env

datatype upload_reply =
    BadBody | MissingFields | BadRepoId | RepoNotFound | NoTenant
  | ChunkRequired | BadChunkNumber | SessionNotFound | SessionExpired | ChunkOutOfRange | TenantMismatch
  | ReadFailed | ChunkTooLarge | StoreChunkFailed | Incomplete | ChunkLost int | StoreArtifactFailed
  | RecordFailed | Crashed
  | Initiated string int int time
  | ChunkStored int int int
  | Completed artifact_record
  | Progress string int int "int list" time
  | ProgressNotEncodable

definition default_chunk_size :: int where "default_chunk_size = 32 * 1024 * 1024"
definition max_chunk_size :: int where "max_chunk_size = 128 * 1024 * 1024"

section \<open>Handlers\<close>

definition effective_chunk_size :: "int \<Rightarrow> int" where
  "effective_chunk_size requested =
     (let cs = (if requested = 0 then default_chunk_size else requested)
      in if max_chunk_size < cs then max_chunk_size else cs)"

definition chunk_count :: "int \<Rightarrow> int \<Rightarrow> int" where
  "chunk_count bytes_in cs = go_quot (wrap64 (wrap64 (bytes_in + cs) - 1)) cs"

definition initiate_upload :: "upload_env \<Rightarrow> initiate_request option \<Rightarrow> upload_world \<Rightarrow> upload_reply \<times> upload_world" where
  "initiate_upload env request w =
     (case request of
        None \<Rightarrow> (BadBody, w)
      | Some rq \<Rightarrow>
          if rq_name rq = [] \<or> rq_version rq = [] \<or> rq_repo rq = [] \<or> rq_total_size rq \<le> 0 then (MissingFields, w)
          else case ue_parse_uuid env (rq_repo rq) of
            None \<Rightarrow> (BadRepoId, w)
          | Some repo \<Rightarrow>
              if ue_repo env repo = None then (RepoNotFound, w)
              else case ue_tenant env of
                None \<Rightarrow> (NoTenant, w)
              | Some tenant \<Rightarrow>
                  let cs = effective_chunk_size (rq_chunk_size rq);
                      n = chunk_count (rq_total_size rq) cs;
                      expires = ue_now env + 24 * hour;
                      s = \<lparr>us_tenant = tenant, us_repo = repo, us_name = rq_name rq, us_version = rq_version rq,
                           us_total_size = rq_total_size rq, us_total_chunks = n, us_chunk_size = cs,
                           us_uploaded = [], us_checksums = [], us_metadata = rq_metadata rq,
                           us_created = ue_now env, us_expires = expires\<rparr>
                  in (Initiated (ue_new_id env) cs n expires,
                      w\<lparr>uw_sessions := AList.update (ue_new_id env) s (uw_sessions w)\<rparr>))"

definition chunk_ref :: "upload_session \<Rightarrow> string \<Rightarrow> int \<Rightarrow> artifact_ref" where
  "chunk_ref s upload_id i =
     \<lparr>ar_tenant = us_tenant s, ar_repo = us_repo s, ar_artifact = upload_id @ ''/chunk-'' @ show_int i\<rparr>"

text \<open>The limit of chunk \<open>i\<close>: the last one may hold less than the others.\<close>

definition chunk_limit :: "upload_session \<Rightarrow> int \<Rightarrow> int" where
  "chunk_limit s i =
     (if i = go_quot (us_total_size s) (us_chunk_size s)
      then (let r = go_rem (us_total_size s) (us_chunk_size s) in if r = 0 then us_chunk_size s else r)
      else us_chunk_size s)"

definition mark_uploaded :: "int \<Rightarrow> string \<Rightarrow> upload_session \<Rightarrow> upload_session" where
  "mark_uploaded i checksum s =
     s\<lparr>us_uploaded := (if i \<in> set (us_uploaded s) then us_uploaded s else i # us_uploaded s),
       us_checksums := AList.update i checksum (us_checksums s)\<rparr>"

definition upload_chunk :: "upload_env \<Rightarrow> string \<Rightarrow> string \<Rightarrow> upload_world \<Rightarrow> upload_reply \<times> upload_world" where
  "upload_chunk env upload_id chunk w =
     (if chunk = [] then (ChunkRequired, w)
      else case atoi chunk of
        None \<Rightarrow> (BadChunkNumber, w)
      | Some i \<Rightarrow>
          if i < 0 then (BadChunkNumber, w)
          else case map_of (uw_sessions w) upload_id of
            None \<Rightarrow> (SessionNotFound, w)
          | Some s \<Rightarrow>
              if us_expires s < ue_now env
              then (SessionExpired, w\<lparr>uw_sessions := AList.delete upload_id (uw_sessions w)\<rparr>)
              else if us_total_chunks s \<le> i then (ChunkOutOfRange, w)
              else if ue_tenant env \<noteq> Some (us_tenant s) then (TenantMismatch, w)
              else case ue_body env of
                None \<Rightarrow> (ReadFailed, w)
              | Some body \<Rightarrow>
                  let limit = chunk_limit s i;
                      data = take (nat (limit + 1)) body
                  in if limit < int (length data) then (ChunkTooLarge, w)
                     else case upload_artifact (ue_blob env) (chunk_ref s upload_id i) (Some data) (uw_blobs w) of
                       (Inl _, bs) \<Rightarrow> (StoreChunkFailed, w\<lparr>uw_blobs := bs\<rparr>)
                     | (Inr _, bs) \<Rightarrow>
                         let s = mark_uploaded i (be_sha (ue_blob env) data) s
                         in (ChunkStored i (int (length (us_uploaded s))) (us_total_chunks s),
                             w\<lparr>uw_blobs := bs, uw_sessions := AList.update upload_id s (uw_sessions w)\<rparr>))"

text \<open>The loop of the completion: each chunk is read, appended and deleted.\<close>

fun assemble :: "upload_env \<Rightarrow> upload_session \<Rightarrow> string \<Rightarrow> int list \<Rightarrow> bytes \<Rightarrow> blob_storage \<Rightarrow> (int + bytes) \<times> blob_storage" where
  "assemble env s upload_id [] acc bs = (Inr acc, bs)"
| "assemble env s upload_id (i # is) acc bs =
     (case download_artifact (ue_blob env) (chunk_ref s upload_id i) bs of
        Inl _ \<Rightarrow> (Inl i, bs)
      | Inr data \<Rightarrow>
          assemble env s upload_id is (acc @ data)
            (snd (delete_artifact (ue_blob env) (chunk_ref s upload_id i) bs)))"

definition final_ref :: "upload_env \<Rightarrow> upload_session \<Rightarrow> artifact_ref" where
  "final_ref env s =
     \<lparr>ar_tenant = us_tenant s, ar_repo = us_repo s,
      ar_artifact = us_name s @ ''-'' @ us_version s @ ''-'' @ show_int (ue_unix env)\<rparr>"

definition complete_upload :: "upload_env \<Rightarrow> string \<Rightarrow> upload_world \<Rightarrow> upload_reply \<times> upload_world" where
  "complete_upload env upload_id w =
     (case map_of (uw_sessions w) upload_id of
        None \<Rightarrow> (SessionNotFound, w)
      | Some s \<Rightarrow>
          let w = w\<lparr>uw_sessions := AList.delete upload_id (uw_sessions w)\<rparr>
          in if ue_tenant env \<noteq> Some (us_tenant s) then (TenantMismatch, w)
             else if int (length (us_uploaded s)) \<noteq> us_total_chunks s then (Incomplete, w)
             else case assemble env s upload_id [0..us_total_chunks s - 1] [] (uw_blobs w) of
               (Inl i, bs) \<Rightarrow> (ChunkLost i, w\<lparr>uw_blobs := bs\<rparr>)
             | (Inr data, bs) \<Rightarrow>
                 (case upload_artifact (ue_blob env) (final_ref env s) (Some data) bs of
                    (Inl _, bs) \<Rightarrow> (StoreArtifactFailed, w\<lparr>uw_blobs := bs\<rparr>)
                  | (Inr _, bs) \<Rightarrow>
                      (case ue_repo env (us_repo s) of
                         None \<Rightarrow> (Crashed, w\<lparr>uw_blobs := bs\<rparr>)
                       | Some kind \<Rightarrow>
                           let r = \<lparr>rec_name = us_name s, rec_version = us_version s, rec_type = kind,
                                rec_repo = us_repo s, rec_tenant = us_tenant s, rec_size = int (length data),
                                rec_checksum = ''sha256:'' @ be_sha (ue_blob env) data,
                                rec_metadata =
                                  AList.update ''storage_id'' (MetaText (ar_artifact (final_ref env s)))
                                  (AList.update ''chunk_size'' (MetaInt (us_chunk_size s))
                                  (AList.update ''total_chunks'' (MetaInt (us_total_chunks s))
                                  (AList.update ''upload_type'' (MetaText ''chunked'') (us_metadata s))))\<rparr>
                           in if ue_record_ok env
                              then (Completed r, w\<lparr>uw_blobs := bs, uw_records := r # uw_records w, uw_scans := r # uw_scans w\<rparr>)
                              else (RecordFailed, w\<lparr>uw_blobs := snd (delete_artifact (ue_blob env) (final_ref env s) bs)\<rparr>)))) "

text \<open>The percentage is computed from the two counts; with no chunks at all it is not a number, which JSON cannot carry.\<close>

definition upload_progress :: "upload_env \<Rightarrow> string \<Rightarrow> upload_world \<Rightarrow> upload_reply" where
  "upload_progress env upload_id w =
     (case map_of (uw_sessions w) upload_id of
        None \<Rightarrow> SessionNotFound
      | Some s \<Rightarrow>
          if ue_tenant env \<noteq> Some (us_tenant s) then TenantMismatch
          else if us_total_chunks s = 0 then ProgressNotEncodable
          else Progress upload_id (us_total_chunks s) (int (length (us_uploaded s))) (us_uploaded s) (us_expires s))"

section \<open>Sessions stay well-formed\<close>

definition session_ok :: "upload_session \<Rightarrow> bool" where
  "session_ok s \<longleftrightarrow>
     0 < us_total_size s \<and> us_chunk_size s \<noteq> 0 \<and> us_chunk_size s \<le> max_chunk_size
     \<and> us_total_chunks s = chunk_count (us_total_size s) (us_chunk_size s)
     \<and> us_expires s = us_created s + 24 * hour
     \<and> distinct (us_uploaded s) \<and> set (us_uploaded s) \<subseteq> {0..<us_total_chunks s}
     \<and> set (keys (us_checksums s)) = set (us_uploaded s)"

definition sessions_ok :: "upload_world \<Rightarrow> bool" where
  "sessions_ok w \<longleftrightarrow> (\<forall>upload_id s. map_of (uw_sessions w) upload_id = Some s \<longrightarrow> session_ok s)"

inductive upload_step :: "upload_world \<Rightarrow> upload_world \<Rightarrow> bool" where
  "upload_step w (snd (initiate_upload env request w))"
| "upload_step w (snd (upload_chunk env upload_id chunk w))"
| "upload_step w (snd (complete_upload env upload_id w))"

lemma effective_chunk_size_bounds:
  "effective_chunk_size k \<noteq> 0" "effective_chunk_size k \<le> max_chunk_size" "0 \<le> k \<Longrightarrow> 0 < effective_chunk_size k"
  by (auto simp: effective_chunk_size_def default_chunk_size_def max_chunk_size_def Let_def)

lemma session_ok_marked: "session_ok s \<Longrightarrow> 0 \<le> i \<Longrightarrow> i < us_total_chunks s \<Longrightarrow> session_ok (mark_uploaded i h s)"
  by (auto simp: session_ok_def mark_uploaded_def dom_update)

lemma sessions_ok_update [intro]:
  "sessions_ok w \<Longrightarrow> session_ok s \<Longrightarrow> sessions_ok (w\<lparr>uw_sessions := AList.update k s (uw_sessions w)\<rparr>)"
  "sessions_ok w \<Longrightarrow> session_ok s \<Longrightarrow> sessions_ok (w\<lparr>uw_blobs := bs, uw_sessions := AList.update k s (uw_sessions w)\<rparr>)"
  by (simp_all add: sessions_ok_def)

lemma sessions_ok_delete [intro]: "sessions_ok w \<Longrightarrow> sessions_ok (w\<lparr>uw_sessions := AList.delete k (uw_sessions w)\<rparr>)"
  by (simp add: sessions_ok_def delete_conv')

lemma sessions_ok_frame [simp]: "sessions_ok (w\<lparr>uw_blobs := bs\<rparr>) \<longleftrightarrow> sessions_ok w"
  by (simp add: sessions_ok_def)

lemma initiate_ok: "sessions_ok w \<Longrightarrow> sessions_ok (snd (initiate_upload env request w))"
  unfolding initiate_upload_def Let_def
  by (cases request) (auto simp: session_ok_def effective_chunk_size_bounds split: option.split)

lemma upload_chunk_ok:
  assumes "sessions_ok w"
  shows "sessions_ok (snd (upload_chunk env upload_id chunk w))"
proof -
  have "session_ok (mark_uploaded i h s)"
    if "map_of (uw_sessions w) upload_id = Some s" "\<not> i < 0" "\<not> us_total_chunks s \<le> i" for i h s
    using assms that by (intro session_ok_marked) (auto simp: sessions_ok_def)
  with assms show ?thesis unfolding upload_chunk_def Let_def
    by (auto split: option.split prod.split sum.split)
qed

lemma complete_sessions: "uw_sessions (snd (complete_upload env upload_id w)) = AList.delete upload_id (uw_sessions w)"
  by (auto simp: complete_upload_def Let_def AList.delete_id map_of_eq_None_iff split: option.split prod.split sum.split)

text \<open>
  C21: every upload session is well-formed at all times: it came from a positive size and a chunk
  size of at most 128 MB other than zero, its number of chunks is the one computed from them, it
  expires a day after it was opened, the chunks it counts are distinct and within its range, and
  it holds a checksum for exactly those.
\<close>

theorem upload_sessions_well_formed:
  assumes "upload_step\<^sup>*\<^sup>* w0 w" and "uw_sessions w0 = []" and "map_of (uw_sessions w) upload_id = Some s"
  shows "session_ok s \<and> int (length (us_uploaded s)) \<le> max 0 (us_total_chunks s)"
proof -
  from assms(1,2) have "sessions_ok w"
  proof (induction rule: rtranclp_induct)
    case base
    then show ?case by (simp add: sessions_ok_def)
  next
    case (step y z)
    then have "sessions_ok y" by blast
    then have "sessions_ok (snd (complete_upload env i y))" for env i
      by (simp add: sessions_ok_def complete_sessions delete_conv')
    with step.hyps(2) \<open>sessions_ok y\<close> show ?case
      by cases (simp_all add: initiate_ok upload_chunk_ok)
  qed
  then have ok: "session_ok s" using assms(3) by (simp add: sessions_ok_def)
  then have "card (set (us_uploaded s)) \<le> card {0..<us_total_chunks s}"
    by (intro card_mono) (auto simp: session_ok_def)
  then have "length (us_uploaded s) \<le> nat (us_total_chunks s)"
    using ok by (simp add: session_ok_def distinct_card)
  then show ?thesis using ok by simp
qed

definition upload_example_env :: upload_env where
  "upload_example_env = \<lparr>ue_now = 0, ue_unix = 7, ue_tenant = Some ''t'', ue_body = Some [1, 2, 3], ue_new_id = ''u'',
     ue_parse_uuid = Some, ue_repo = (\<lambda>_. Some ''npm''), ue_record_ok = True, ue_blob = demo_env\<rparr>"

definition upload_example_request :: initiate_request where
  "upload_example_request = \<lparr>rq_name = ''lib'', rq_version = ''1'', rq_repo = ''r'', rq_total_size = 5,
     rq_chunk_size = 3, rq_metadata = []\<rparr>"

definition upload_example_world :: upload_world where
  "upload_example_world = \<lparr>uw_sessions = [], uw_blobs = demo_store, uw_records = [], uw_scans = []\<rparr>"

abbreviation upload_example_opened :: upload_world where
  "upload_example_opened \<equiv> snd (initiate_upload upload_example_env (Some upload_example_request) upload_example_world)"

lemma upload_sessions_well_formed_witness:
  "session_ok (the (map_of (uw_sessions upload_example_opened) ''u''))"
proof -
  have "upload_step\<^sup>*\<^sup>* upload_example_world upload_example_opened"
    by (rule r_into_rtranclp) (rule upload_step.intros)
  moreover have "map_of (uw_sessions upload_example_opened) ''u'' \<noteq> None" by code_simp
  then have "map_of (uw_sessions upload_example_opened) ''u'' = Some (the (map_of (uw_sessions upload_example_opened) ''u''))"
    by auto
  ultimately show ?thesis
    using upload_sessions_well_formed [of upload_example_world upload_example_opened "''u''"]
    by (simp add: upload_example_world_def)
qed

section \<open>The chunks of an upload\<close>

lemma show_int_no_slash: "CHR ''/'' \<notin> set (show_int i)"
  using show_nat_no_slash by (auto simp: show_int_def)

definition plain_session :: "string \<Rightarrow> upload_session \<Rightarrow> bool" where
  "plain_session upload_id s \<longleftrightarrow> plain_name upload_id \<and> plain_name (us_tenant s) \<and> plain_name (us_repo s)"

lemma chunk_path:
  assumes "plain_session upload_id s"
  shows "artifact_path bs (chunk_ref s upload_id i) = root_of bs @ [us_tenant s, us_repo s, upload_id, ''chunk-'' @ show_int i]"
proof -
  have chunk: "plain_name (''chunk-'' @ show_int i)" and id: "CHR ''/'' \<notin> set upload_id"
    using show_int_no_slash assms by (auto simp: plain_name_def plain_session_def)
  then have "split_on CHR ''/'' (upload_id @ CHR ''/'' # ''chunk-'' @ show_int i) = [upload_id, ''chunk-'' @ show_int i]"
    using split_on_append [OF id, of "''chunk-'' @ show_int i"] split_on_id [of "CHR ''/''" "''chunk-'' @ show_int i"]
    by (simp add: plain_name_def)
  then have "artifact_path bs (chunk_ref s upload_id i)
      = path_join (bs_base bs) [us_tenant s, us_repo s, upload_id, ''chunk-'' @ show_int i]"
    using id chunk by (simp add: artifact_path_def chunk_ref_def path_join_def split_on_id plain_name_def)
  then show ?thesis
    using path_join_plain_tail [of "[us_tenant s, us_repo s, upload_id, ''chunk-'' @ show_int i]" "bs_base bs" "[]"] chunk assms
    by (simp add: root_of_def plain_session_def)
qed

lemma chunks_apart: "plain_session upload_id s \<Longrightarrow> i \<noteq> j \<Longrightarrow> apart_refs (chunk_ref s upload_id i) (chunk_ref s upload_id j)"
  by (auto simp: apart_refs_def below_def chunk_path show_int_inj)

abbreviation fetch_blob :: "blob_env \<Rightarrow> artifact_ref \<Rightarrow> blob_storage \<Rightarrow> bytes option" where
  "fetch_blob e r bs \<equiv> (case download_artifact e r bs of Inl _ \<Rightarrow> None | Inr d \<Rightarrow> Some d)"

lemma assemble_gathers:
  "assemble env s upload_id is acc bs = (r, bs') \<Longrightarrow>
     snd (blobs.gather (ue_blob env) (map (chunk_ref s upload_id) is) bs) = bs'
     \<and> (case r of Inl _ \<Rightarrow> fst (blobs.gather (ue_blob env) (map (chunk_ref s upload_id) is) bs) = None
               | Inr data \<Rightarrow> \<exists>ds. fst (blobs.gather (ue_blob env) (map (chunk_ref s upload_id) is) bs) = Some ds \<and> data = acc @ ds)"
proof (induction "is" arbitrary: acc bs)
  case (Cons i "is")
  then show ?case
  proof (cases "download_artifact (ue_blob env) (chunk_ref s upload_id i) bs")
    case (Inr d)
    then have "assemble env s upload_id is (acc @ d) (snd (delete_artifact (ue_blob env) (chunk_ref s upload_id i) bs)) = (r, bs')"
      using Cons.prems by simp
    from Cons.IH [OF this] Inr show ?thesis
      by (auto split: sum.splits prod.split option.split)
  qed auto
qed auto

text \<open>Sending chunks: every one of them is accepted.\<close>

fun send_chunks :: "(upload_env \<times> string) list \<Rightarrow> string \<Rightarrow> upload_world \<Rightarrow> upload_world option" where
  "send_chunks [] upload_id w = Some w"
| "send_chunks ((env, chunk) # parts) upload_id w =
     (case upload_chunk env upload_id chunk w of
        (ChunkStored _ _ _, w) \<Rightarrow> send_chunks parts upload_id w
      | _ \<Rightarrow> None)"

text \<open>What the client sent last for chunk \<open>i\<close>.\<close>

fun last_sent :: "(upload_env \<times> string) list \<Rightarrow> int \<Rightarrow> bytes option" where
  "last_sent [] i = None"
| "last_sent ((env, chunk) # parts) i =
     (case last_sent parts i of
        Some d \<Rightarrow> Some d
      | None \<Rightarrow> if atoi chunk = Some i then ue_body env else None)"

lemma upload_chunk_stored:
  assumes "upload_chunk env upload_id chunk w = (ChunkStored i k n, w')"
  obtains s body t where "atoi chunk = Some i" and "0 \<le> i" and "i < us_total_chunks s"
    and "map_of (uw_sessions w) upload_id = Some s" and "ue_body env = Some body"
    and "int (length body) \<le> chunk_limit s i"
    and "upload_artifact (ue_blob env) (chunk_ref s upload_id i) (Some body) (uw_blobs w) = (Inr t, uw_blobs w')"
    and "map_of (uw_sessions w') upload_id = Some (mark_uploaded i (be_sha (ue_blob env) body) s)"
proof -
  have fits: "take (nat (l + 1)) body = body" "int (length body) \<le> l"
    if "\<not> l < int (length (take (nat (l + 1)) body))" for l and body :: bytes
    using that by (auto simp: min_def split: if_splits)
  from assms obtain j s body where j: "atoi chunk = Some j" and s: "map_of (uw_sessions w) upload_id = Some s"
    and body: "ue_body env = Some body"
    by (auto simp: upload_chunk_def Let_def split: if_splits option.splits)
  obtain r bs where up: "upload_artifact (ue_blob env) (chunk_ref s upload_id j)
      (Some (take (nat (chunk_limit s j + 1)) body)) (uw_blobs w) = (r, bs)" by fastforce
  from assms j s body up obtain t where r: "r = Inr t" and limit: "\<not> chunk_limit s j < int (length (take (nat (chunk_limit s j + 1)) body))"
    by (auto simp: upload_chunk_def Let_def split: if_splits sum.splits)
  note fits = fits [OF limit]
  from assms j s body up [unfolded fits] r fits limit have "i = j \<and> 0 \<le> j \<and> j < us_total_chunks s \<and> uw_blobs w' = bs
      \<and> map_of (uw_sessions w') upload_id = Some (mark_uploaded j (be_sha (ue_blob env) body) s)"
    by (auto simp: upload_chunk_def Let_def split: if_splits)
  then show thesis using that j s body fits(2) up [unfolded fits] r by blast
qed

text \<open>The chunks that a session counts are on the disk, each no longer than its limit.\<close>

definition holds :: "blob_env \<Rightarrow> string \<Rightarrow> (int \<Rightarrow> bytes option) \<Rightarrow> upload_session \<Rightarrow> upload_world \<Rightarrow> bool" where
  "holds e upload_id f s w \<longleftrightarrow>
     map_of (uw_sessions w) upload_id = Some s \<and> session_ok s \<and> sound_coder (uw_blobs w)
     \<and> (\<forall>i. i \<in> set (us_uploaded s) \<longleftrightarrow> f i \<noteq> None)
     \<and> (\<forall>i d. f i = Some d \<longrightarrow> fetch_blob e (chunk_ref s upload_id i) (uw_blobs w) = Some d
                \<and> int (length d) \<le> chunk_limit s i)"

definition same_announcement :: "upload_session \<Rightarrow> upload_session \<Rightarrow> bool" where
  "same_announcement s s' \<longleftrightarrow> us_tenant s' = us_tenant s \<and> us_repo s' = us_repo s \<and> us_name s' = us_name s
     \<and> us_version s' = us_version s \<and> us_total_size s' = us_total_size s \<and> us_total_chunks s' = us_total_chunks s
     \<and> us_chunk_size s' = us_chunk_size s"

lemma same_announcement_trans: "same_announcement s s' \<Longrightarrow> same_announcement s' s'' \<Longrightarrow> same_announcement s s''"
  by (simp add: same_announcement_def)

lemma same_announcement_refl [simp]: "same_announcement s s"
  by (simp add: same_announcement_def)

lemma same_announcement_cong:
  assumes "same_announcement s s'"
  shows "chunk_ref s' = chunk_ref s" and "chunk_limit s' = chunk_limit s"
    and "plain_session upload_id s' = plain_session upload_id s" and "final_ref env s' = final_ref env s"
  using assms by (simp_all add: fun_eq_iff same_announcement_def chunk_ref_def chunk_limit_def plain_session_def final_ref_def Let_def)

lemma marked_announcement [simp]: "same_announcement s (mark_uploaded i h s)"
  by (simp add: same_announcement_def mark_uploaded_def)

lemmas marked_cong [simp] = same_announcement_cong [OF marked_announcement]

lemma holds_chunk:
  assumes "holds e upload_id f s w" and "upload_chunk env upload_id chunk w = (ChunkStored i k n, w')"
    and "be_sha (ue_blob env) = be_sha e" and "plain_session upload_id s"
  shows "\<exists>s'. same_announcement s s' \<and> atoi chunk = Some i \<and> ue_body env \<noteq> None \<and> holds e upload_id (f(i := ue_body env)) s' w'"
proof -
  obtain s' body t where c': "atoi chunk = Some i" "0 \<le> i" "i < us_total_chunks s'" "ue_body env = Some body"
    "int (length body) \<le> chunk_limit s' i"
    "upload_artifact (ue_blob env) (chunk_ref s' upload_id i) (Some body) (uw_blobs w) = (Inr t, uw_blobs w')"
    "map_of (uw_sessions w') upload_id = Some (mark_uploaded i (be_sha (ue_blob env) body) s')"
    and "map_of (uw_sessions w) upload_id = Some s'"
    by (rule upload_chunk_stored [OF assms(2)])
  then have "s' = s" using assms(1) by (simp add: holds_def)
  note c = c' [unfolded this]
  let ?s = "mark_uploaded i (be_sha (ue_blob env) body) s"
  have h: "session_ok s" "sound_coder (uw_blobs w)" "\<And>j. j \<in> set (us_uploaded s) \<longleftrightarrow> f j \<noteq> None"
    "\<And>j d. f j = Some d \<Longrightarrow> fetch_blob e (chunk_ref s upload_id j) (uw_blobs w) = Some d \<and> int (length d) \<le> chunk_limit s j"
    using assms(1) by (auto simp: holds_def)
  have now: "fetch_blob e (chunk_ref s upload_id i) (uw_blobs w') = Some body"
    by (rule blobs.fetch_stored [where e = "ue_blob env", OF h(2)]) (simp_all add: c assms(3))
  have other: "fetch_blob e (chunk_ref s upload_id j) (uw_blobs w') = fetch_blob e (chunk_ref s upload_id j) (uw_blobs w)" if "j \<noteq> i" for j
    using blobs.store_apart [of "chunk_ref s upload_id i" "chunk_ref s upload_id j" e "ue_blob env" body "uw_blobs w"]
      chunks_apart [OF assms(4), of i j] that c(6) by simp
  have "sound_coder (uw_blobs w')"
    using blobs.store_inv [OF h(2), of "ue_blob env" "chunk_ref s upload_id i" body] c(6) by simp
  moreover have "j \<in> set (us_uploaded ?s) \<longleftrightarrow> (f(i := ue_body env)) j \<noteq> None" for j
    using h(3) c(4) by (auto simp: mark_uploaded_def)
  moreover have "fetch_blob e (chunk_ref ?s upload_id j) (uw_blobs w') = Some d \<and> int (length d) \<le> chunk_limit ?s j"
    if "(f(i := ue_body env)) j = Some d" for j d
    using that now other [of j] h(4) [of j d] c(4,5) by (cases "j = i") auto
  ultimately have "holds e upload_id (f(i := ue_body env)) ?s w'"
    using c(2,3,7) h(1) by (simp add: holds_def session_ok_marked del: fun_upd_apply)
  then show ?thesis using c(1,4) marked_announcement(1) by blast
qed

lemma holds_chunks:
  assumes "holds e upload_id f s w" and "send_chunks parts upload_id w = Some w'"
    and "\<forall>(env, chunk) \<in> set parts. be_sha (ue_blob env) = be_sha e" and "plain_session upload_id s"
  shows "\<exists>s'. same_announcement s s'
    \<and> holds e upload_id (\<lambda>i. case last_sent parts i of Some d \<Rightarrow> Some d | None \<Rightarrow> f i) s' w'"
  using assms
proof (induction parts arbitrary: w s f)
  case Nil
  then show ?case using same_announcement_refl by (auto intro!: exI [of _ s])
next
  case (Cons part parts)
  obtain env chunk where part: "part = (env, chunk)" by (cases part)
  obtain i k n w1 where up: "upload_chunk env upload_id chunk w = (ChunkStored i k n, w1)"
    and rest: "send_chunks parts upload_id w1 = Some w'"
    using Cons.prems(2) by (auto simp: part split: prod.splits upload_reply.splits)
  obtain s1 where s1: "same_announcement s s1" "atoi chunk = Some i" "ue_body env \<noteq> None"
    "holds e upload_id (f(i := ue_body env)) s1 w1"
    using holds_chunk [OF Cons.prems(1) up _ Cons.prems(4)] Cons.prems(3) by (auto simp: part)
  have hash: "\<forall>(env, chunk) \<in> set parts. be_sha (ue_blob env) = be_sha e" using Cons.prems(3) by simp
  have "plain_session upload_id s1" using Cons.prems(4) same_announcement_cong(3) [OF s1(1)] by simp
  then obtain s' where "same_announcement s1 s'"
    and h: "holds e upload_id (\<lambda>j. case last_sent parts j of Some d \<Rightarrow> Some d | None \<Rightarrow> (f(i := ue_body env)) j) s' w'"
    using Cons.IH [OF s1(4) rest hash] by blast
  moreover have "(\<lambda>j. case last_sent parts j of Some d \<Rightarrow> Some d | None \<Rightarrow> (f(i := ue_body env)) j)
      = (\<lambda>j. case last_sent (part # parts) j of Some d \<Rightarrow> Some d | None \<Rightarrow> f j)"
    using s1(2,3) by (auto simp: part fun_eq_iff split: option.split)
  ultimately have "holds e upload_id (\<lambda>j. case last_sent (part # parts) j of Some d \<Rightarrow> Some d | None \<Rightarrow> f j) s' w'" by simp
  then show ?case using same_announcement_trans [OF s1(1) \<open>same_announcement s1 s'\<close>] by blast
qed

lemma sent_chunks_held:
  assumes "holds e upload_id (\<lambda>_. None) s w" and "send_chunks parts upload_id w = Some w'"
    and "\<forall>(env, chunk) \<in> set parts. be_sha (ue_blob env) = be_sha e" and "plain_session upload_id s"
  obtains s' where "same_announcement s s'" and "holds e upload_id (last_sent parts) s' w'"
proof -
  have "(\<lambda>i. case last_sent parts i of Some d \<Rightarrow> Some d | None \<Rightarrow> None) = last_sent parts"
    by (auto split: option.split)
  with holds_chunks [OF assms] show thesis by (metis (no_types) that)
qed

section \<open>Completion\<close>

lemma completed:
  assumes "complete_upload env upload_id w = (Completed r, w')"
  obtains s data bs t where "map_of (uw_sessions w) upload_id = Some s"
    and "int (length (us_uploaded s)) = us_total_chunks s"
    and "assemble env s upload_id [0..us_total_chunks s - 1] [] (uw_blobs w) = (Inr data, bs)"
    and "upload_artifact (ue_blob env) (final_ref env s) (Some data) bs = (Inr t, uw_blobs w')"
    and "rec_size r = int (length data)" and "rec_checksum r = ''sha256:'' @ be_sha (ue_blob env) data"
    and "rec_tenant r = us_tenant s" and "rec_repo r = us_repo s" and "rec_name r = us_name s" and "rec_version r = us_version s"
proof -
  obtain s where s: "map_of (uw_sessions w) upload_id = Some s"
    using assms by (auto simp: complete_upload_def split: option.splits)
  obtain a bs where a: "assemble env s upload_id [0..us_total_chunks s - 1] [] (uw_blobs w) = (a, bs)" by fastforce
  have n: "int (length (us_uploaded s)) = us_total_chunks s"
    using assms s by (auto simp: complete_upload_def Let_def split: if_splits)
  then obtain data where data: "a = Inr data"
    using assms s a by (cases a) (auto simp: complete_upload_def Let_def split: if_splits)
  obtain u bs' where u: "upload_artifact (ue_blob env) (final_ref env s) (Some data) bs = (u, bs')" by fastforce
  then obtain t where t: "u = Inr t"
    using assms s a data n by (cases u) (auto simp: complete_upload_def Let_def split: if_splits)
  from assms s a data n u t show thesis
    by (intro that [OF s n a [unfolded data]])
       (auto simp: complete_upload_def Let_def split: if_splits option.splits)
qed

lemma upto_nat: "[0..n - 1] = map int [0..<nat n]"
  by (rule nth_equalityI) auto

lemma assembled_chunks:
  assumes "holds (ue_blob env) upload_id f s w" and "plain_session upload_id s"
    and "int (length (us_uploaded s)) = us_total_chunks s"
    and "assemble env s upload_id [0..us_total_chunks s - 1] [] (uw_blobs w) = (Inr data, bs)"
  shows "data = concat (map (\<lambda>i. the (f i)) [0..us_total_chunks s - 1]) \<and> sound_coder bs
    \<and> (\<forall>i. 0 \<le> i \<and> i < us_total_chunks s \<longrightarrow> f i \<noteq> None)"
proof -
  have h: "session_ok s" "sound_coder (uw_blobs w)" "\<And>j. j \<in> set (us_uploaded s) \<longleftrightarrow> f j \<noteq> None"
    "\<And>j d. f j = Some d \<Longrightarrow> fetch_blob (ue_blob env) (chunk_ref s upload_id j) (uw_blobs w) = Some d"
    using assms(1) by (auto simp: holds_def)
  have "set (us_uploaded s) \<subseteq> {0..<us_total_chunks s}" and "distinct (us_uploaded s)"
    using h(1) by (auto simp: session_ok_def)
  then have "set (us_uploaded s) = {0..<us_total_chunks s}"
    by (intro card_subset_eq) (simp_all add: distinct_card flip: assms(3))
  then have all: "\<forall>i. 0 \<le> i \<and> i < us_total_chunks s \<longrightarrow> f i \<noteq> None" using h(3) by auto
  let ?rs = "map (chunk_ref s upload_id) [0..us_total_chunks s - 1]"
  have "fst (blobs.gather (ue_blob env) ?rs (uw_blobs w)) = Some (concat (map (\<lambda>i. the (f (int i))) [0..<length ?rs]))"
  proof (rule blobs.gather_all)
    show "\<forall>i < length ?rs. fetch_blob (ue_blob env) (?rs ! i) (uw_blobs w) = Some (the (f (int i)))"
    proof (intro allI impI)
      fix i assume i: "i < length ?rs"
      then have "0 \<le> int i \<and> int i < us_total_chunks s" by auto
      then obtain d where "f (int i) = Some d" using all by blast
      then show "fetch_blob (ue_blob env) (?rs ! i) (uw_blobs w) = Some (the (f (int i)))"
        using h(4) i by (simp add: nth_upto)
    qed
    show "\<forall>i < length ?rs. \<forall>j < length ?rs. i \<noteq> j \<longrightarrow> apart_refs (?rs ! i) (?rs ! j)"
      using chunks_apart [OF assms(2)] by (auto simp: nth_upto)
  qed
  then have "data = concat (map (\<lambda>i. the (f (int i))) [0..<length ?rs])"
    and "snd (blobs.gather (ue_blob env) ?rs (uw_blobs w)) = bs"
    using assemble_gathers [OF assms(4)] by auto
  then show ?thesis
    using all blobs.gather_inv [OF h(2), of "ue_blob env" ?rs] by (auto simp: upto_nat comp_def)
qed

lemma initiated:
  assumes "initiate_upload env (Some rq) w = (Initiated upload_id cs n expires, w')" and "sound_coder (uw_blobs w)"
  obtains s where "holds e upload_id (\<lambda>_. None) s w'" and "us_total_chunks s = n" and "us_chunk_size s = cs"
    and "us_total_size s = rq_total_size rq" and "us_name s = rq_name rq" and "us_version s = rq_version rq"
    and "us_chunk_size s = effective_chunk_size (rq_chunk_size rq)"
    and "ue_tenant env = Some (us_tenant s)" and "ue_parse_uuid env (rq_repo rq) = Some (us_repo s)"
proof -
  have "sessions_ok (snd (initiate_upload env (Some rq) (w\<lparr>uw_sessions := []\<rparr>)))"
    by (rule initiate_ok) (simp add: sessions_ok_def)
  then show thesis
    using assms that
    by (fastforce simp: initiate_upload_def holds_def sessions_ok_def Let_def session_ok_def
        split: if_splits option.splits)
qed

text \<open>
  C22: a chunked upload is the concatenation of its chunks. When a session is opened, every chunk
  the client sends for it is accepted, and the completion answers with an artifact record, then a
  download of the stored artifact returns the chunks in the order of their numbers, each as it was
  sent last, however they were ordered and repeated; the record has the artifact's size and its
  SHA-256, and its name, version and tenant are those of the session.
\<close>

theorem chunked_upload_round_trip:
  assumes "sound_coder (uw_blobs w)"
    and "initiate_upload env0 (Some rq) w = (Initiated upload_id cs n expires, w1)"
    and "send_chunks parts upload_id w1 = Some w2"
    and "complete_upload env upload_id w2 = (Completed r, w3)"
    and "\<forall>(e, chunk) \<in> set parts. be_sha (ue_blob e) = be_sha (ue_blob env)"
    and "ue_tenant env0 = Some tenant" and "ue_parse_uuid env0 (rq_repo rq) = Some repo"
    and "plain_name upload_id" and "plain_name tenant" and "plain_name repo"
    and "data = concat (map (\<lambda>i. the (last_sent parts i)) [0..n - 1])"
  shows "download_artifact (ue_blob env) \<lparr>ar_tenant = tenant, ar_repo = repo,
      ar_artifact = rq_name rq @ ''-'' @ rq_version rq @ ''-'' @ show_int (ue_unix env)\<rparr> (uw_blobs w3) = Inr data
    \<and> rec_size r = int (length data) \<and> rec_checksum r = ''sha256:'' @ be_sha (ue_blob env) data
    \<and> rec_tenant r = tenant \<and> rec_repo r = repo \<and> rec_name r = rq_name rq \<and> rec_version r = rq_version rq"
proof -
  obtain s0 where s0: "holds (ue_blob env) upload_id (\<lambda>_. None) s0 w1" "us_total_chunks s0 = n"
    "us_name s0 = rq_name rq" "us_version s0 = rq_version rq"
    "us_tenant s0 = tenant" "us_repo s0 = repo"
    by (rule initiated [OF assms(2,1), of "ue_blob env"]) (simp add: assms(6,7))
  have plain: "plain_session upload_id s0" using assms(8-10) s0 by (simp add: plain_session_def)
  obtain s where s: "same_announcement s0 s" "holds (ue_blob env) upload_id (last_sent parts) s w2"
    by (rule sent_chunks_held [OF s0(1) assms(3,5) plain])
  obtain s' d bs t where c: "map_of (uw_sessions w2) upload_id = Some s'"
    "int (length (us_uploaded s')) = us_total_chunks s'"
    "assemble env s' upload_id [0..us_total_chunks s' - 1] [] (uw_blobs w2) = (Inr d, bs)"
    "upload_artifact (ue_blob env) (final_ref env s') (Some d) bs = (Inr t, uw_blobs w3)"
    "rec_size r = int (length d)" "rec_checksum r = ''sha256:'' @ be_sha (ue_blob env) d"
    "rec_tenant r = us_tenant s'" "rec_repo r = us_repo s'" "rec_name r = us_name s'" "rec_version r = us_version s'"
    by (rule completed [OF assms(4)])
  have "s' = s" using c(1) s(2) by (simp add: holds_def)
  note c = c [unfolded this]
  have "d = data \<and> sound_coder bs"
    using assembled_chunks [OF s(2) _ c(2,3)] plain same_announcement_cong(3) [OF s(1)] s(1) s0(2) assms(11)
    by (simp add: same_announcement_def)
  moreover from this have "fetch_blob (ue_blob env) (final_ref env s) (uw_blobs w3) = Some d"
    using c(4) by (intro blobs.fetch_stored [where e = "ue_blob env" and s = bs]) simp_all
  moreover have "final_ref env s = \<lparr>ar_tenant = tenant, ar_repo = repo,
      ar_artifact = rq_name rq @ ''-'' @ rq_version rq @ ''-'' @ show_int (ue_unix env)\<rparr>"
    using s0 s(1) by (simp add: same_announcement_def final_ref_def)
  ultimately show ?thesis
    using c(5-10) s0 s(1) by (auto simp: same_announcement_def split: sum.splits)
qed

definition upload_example_parts :: "(upload_env \<times> string) list" where
  "upload_example_parts =
     [(upload_example_env\<lparr>ue_body := Some [9, 9]\<rparr>, ''1''), (upload_example_env, ''0''),
      (upload_example_env\<lparr>ue_body := Some [4, 5]\<rparr>, ''1'')]"

abbreviation upload_example_sent :: upload_world where
  "upload_example_sent \<equiv> the (send_chunks upload_example_parts ''u'' upload_example_opened)"

lemma chunked_upload_round_trip_witness:
  "download_artifact demo_env \<lparr>ar_tenant = ''t'', ar_repo = ''r'', ar_artifact = ''lib-1-7''\<rparr>
     (uw_blobs (snd (complete_upload upload_example_env ''u'' upload_example_sent))) = Inr [1, 2, 3, 4, 5]"
proof -
  let ?out = "complete_upload upload_example_env ''u'' upload_example_sent"
  obtain r where r: "?out = (Completed r, snd ?out)"
  proof -
    have "(case fst ?out of Completed _ \<Rightarrow> True | _ \<Rightarrow> False)" by code_simp
    then show thesis using that by (cases "fst ?out") (auto simp: prod_eq_iff)
  qed
  have data: "[1, 2, 3, 4, 5] = concat (map (\<lambda>i. the (last_sent upload_example_parts i)) [0..2 - 1])" by code_simp
  have "download_artifact (ue_blob upload_example_env) \<lparr>ar_tenant = ''t'', ar_repo = ''r'',
      ar_artifact = rq_name upload_example_request @ ''-'' @ rq_version upload_example_request @ ''-''
        @ show_int (ue_unix upload_example_env)\<rparr> (uw_blobs (snd ?out)) = Inr [1, 2, 3, 4, 5]"
  proof (rule chunked_upload_round_trip [THEN conjunct1, OF _ _ _ r _ _ _ _ _ _ data])
    show "sound_coder (uw_blobs upload_example_world)"
      using demo_coder by (simp add: sound_coder_def upload_example_world_def)
    have "fst (initiate_upload upload_example_env (Some upload_example_request) upload_example_world)
      = Initiated ''u'' 3 2 86400000000000" by code_simp
    then show "initiate_upload upload_example_env (Some upload_example_request) upload_example_world
      = (Initiated ''u'' 3 2 86400000000000, upload_example_opened)" by (simp add: prod_eq_iff)
    have "send_chunks upload_example_parts ''u'' upload_example_opened \<noteq> None" by code_simp
    then show "send_chunks upload_example_parts ''u'' upload_example_opened = Some upload_example_sent" by auto
  qed (simp_all add: upload_example_parts_def upload_example_env_def upload_example_request_def plain_name_def)
  moreover have "rq_name upload_example_request @ ''-'' @ rq_version upload_example_request @ ''-''
      @ show_int (ue_unix upload_example_env) = ''lib-1-7''" by code_simp
  ultimately show ?thesis by (simp add: upload_example_env_def)
qed

section \<open>Sizes\<close>

lemma chunk_count_exact:
  assumes "0 < cs" and "0 < t" and "t + cs < 2 ^ 63"
  shows "chunk_count t cs = (t + cs - 1) div cs"
  using assms by (simp add: chunk_count_def wrap64_id go_quot_nonneg)

lemma limits_add_up:
  assumes "session_ok s" and "0 < us_chunk_size s" and "us_total_size s + us_chunk_size s < 2 ^ 63"
  shows "(\<Sum>i\<leftarrow>[0..us_total_chunks s - 1]. chunk_limit s i) = us_total_size s"
proof -
  let ?t = "us_total_size s" and ?c = "us_chunk_size s"
  define q where "q = ?t div ?c"
  have t: "0 < ?t" and n: "us_total_chunks s = (?t + ?c - 1) div ?c"
    using assms chunk_count_exact by (auto simp: session_ok_def)
  have q: "0 \<le> q" "?t = q * ?c + ?t mod ?c" using t assms(2) by (simp_all add: q_def pos_imp_zdiv_nonneg_iff)
  have limit: "chunk_limit s i = (if i = q \<and> ?t mod ?c \<noteq> 0 then ?t mod ?c else ?c)" for i
    using t assms(2) by (simp add: chunk_limit_def go_quot_nonneg go_rem_nonneg q_def Let_def)
  have full: "(\<Sum>i\<leftarrow>[0..q - 1]. chunk_limit s i) = q * ?c"
  proof -
    have "map (chunk_limit s) [0..q - 1] = map (\<lambda>_. ?c) [0..q - 1]" by (auto simp: limit)
    then show ?thesis using q(1) by (simp add: map_replicate_const sum_list_replicate)
  qed
  show ?thesis
  proof (cases "?t mod ?c = 0")
    case True
    then have eq: "?t + ?c - 1 = q * ?c + (?c - 1)" using q(2) by simp
    have "us_total_chunks s = (q * ?c + (?c - 1)) div ?c" by (simp only: n eq)
    also have "\<dots> = q + (?c - 1) div ?c" using assms(2) by (intro div_mult_self3) simp
    finally have "us_total_chunks s = q" using assms(2) by (simp add: div_pos_pos_trivial)
    then show ?thesis using full q(2) True by simp
  next
    case False
    have m: "0 < ?t mod ?c" "?t mod ?c < ?c" using False assms(2) by (simp_all add: le_neq_trans)
    have eq: "?t + ?c - 1 = (q + 1) * ?c + (?t mod ?c - 1)" using q(2) by (simp add: algebra_simps)
    have "us_total_chunks s = ((q + 1) * ?c + (?t mod ?c - 1)) div ?c" by (simp only: n eq)
    also have "\<dots> = q + 1 + (?t mod ?c - 1) div ?c" using assms(2) by (intro div_mult_self3) simp
    finally have "us_total_chunks s = q + 1" using m by (simp add: div_pos_pos_trivial)
    moreover have "[0..q] = [0..q - 1] @ [q]" using q(1) by (simp add: upto_rec2)
    ultimately show ?thesis using full q(2) False by (simp add: limit)
  qed
qed

lemma length_concat_int: "int (length (concat (map f xs))) = (\<Sum>x\<leftarrow>xs. int (length (f x)))"
  by (induction xs) simp_all

text \<open>
  an upload never grows past what was announced. When a session for a size that does not
  overflow, with a positive or default chunk size, is completed, the artifact is at most as long
  as the announced size, however the chunks were sent.
\<close>

theorem accepted_upload_within_announcement:
  assumes "sound_coder (uw_blobs w)"
    and "initiate_upload env0 (Some rq) w = (Initiated upload_id cs n expires, w1)"
    and "0 \<le> rq_chunk_size rq" and "rq_total_size rq + max_chunk_size < 2 ^ 63"
    and "send_chunks parts upload_id w1 = Some w2"
    and "complete_upload env upload_id w2 = (Completed r, w3)"
    and "\<forall>(e, chunk) \<in> set parts. be_sha (ue_blob e) = be_sha (ue_blob env)"
    and "ue_tenant env0 = Some tenant" and "ue_parse_uuid env0 (rq_repo rq) = Some repo"
    and "plain_name upload_id" and "plain_name tenant" and "plain_name repo"
  shows "rec_size r \<le> rq_total_size rq"
proof -
  obtain s0 where s0: "holds (ue_blob env) upload_id (\<lambda>_. None) s0 w1" "us_total_size s0 = rq_total_size rq"
    "us_chunk_size s0 = effective_chunk_size (rq_chunk_size rq)" "us_tenant s0 = tenant" "us_repo s0 = repo"
    by (rule initiated [OF assms(2,1), of "ue_blob env"]) (simp add: assms(8,9))
  have plain: "plain_session upload_id s0" using assms(10-12) s0 by (simp add: plain_session_def)
  obtain s where s: "same_announcement s0 s" "holds (ue_blob env) upload_id (last_sent parts) s w2"
    by (rule sent_chunks_held [OF s0(1) assms(5,7) plain])
  obtain s' d bs where c: "map_of (uw_sessions w2) upload_id = Some s'"
    "int (length (us_uploaded s')) = us_total_chunks s'"
    "assemble env s' upload_id [0..us_total_chunks s' - 1] [] (uw_blobs w2) = (Inr d, bs)" "rec_size r = int (length d)"
    by (rule completed [OF assms(6)])
  have "s' = s" using c(1) s(2) by (simp add: holds_def)
  note c = c [unfolded this]
  have ok: "session_ok s" using s(2) by (simp add: holds_def)
  have d: "d = concat (map (\<lambda>i. the (last_sent parts i)) [0..us_total_chunks s - 1])"
    and all: "\<forall>i. 0 \<le> i \<and> i < us_total_chunks s \<longrightarrow> last_sent parts i \<noteq> None"
    using assembled_chunks [OF s(2) _ c(2,3)] plain same_announcement_cong(3) [OF s(1)] by auto
  have "int (length d) = (\<Sum>i\<leftarrow>[0..us_total_chunks s - 1]. int (length (the (last_sent parts i))))"
    by (simp add: d length_concat_int)
  also have "\<dots> \<le> (\<Sum>i\<leftarrow>[0..us_total_chunks s - 1]. chunk_limit s i)"
    using all s(2) by (intro sum_list_mono) (fastforce simp: holds_def)
  also have "\<dots> = us_total_size s"
    using s0(2,3) s(1) assms(3,4) effective_chunk_size_bounds [of "rq_chunk_size rq"]
    by (intro limits_add_up [OF ok]) (simp_all add: same_announcement_def)
  finally show ?thesis using c(4) s0(2) s(1) by (simp add: same_announcement_def)
qed

lemma accepted_upload_within_announcement_witness:
  "\<exists>r. fst (complete_upload upload_example_env ''u'' upload_example_sent) = Completed r \<and> rec_size r \<le> 5"
proof -
  let ?out = "complete_upload upload_example_env ''u'' upload_example_sent"
  have "(case fst ?out of Completed _ \<Rightarrow> True | _ \<Rightarrow> False)" by code_simp
  then obtain r where r: "?out = (Completed r, snd ?out)" by (cases "fst ?out") (auto simp: prod_eq_iff)
  have "rec_size r \<le> rq_total_size upload_example_request"
  proof (rule accepted_upload_within_announcement [where tenant = "''t''" and repo = "''r''", OF _ _ _ _ _ r])
    show "sound_coder (uw_blobs upload_example_world)"
      using demo_coder by (simp add: sound_coder_def upload_example_world_def)
    have "fst (initiate_upload upload_example_env (Some upload_example_request) upload_example_world)
      = Initiated ''u'' 3 2 86400000000000" by code_simp
    then show "initiate_upload upload_example_env (Some upload_example_request) upload_example_world
      = (Initiated ''u'' 3 2 86400000000000, upload_example_opened)" by (simp add: prod_eq_iff)
    have "send_chunks upload_example_parts ''u'' upload_example_opened \<noteq> None" by code_simp
    then show "send_chunks upload_example_parts ''u'' upload_example_opened = Some upload_example_sent" by auto
  qed (simp_all add: upload_example_parts_def upload_example_env_def upload_example_request_def plain_name_def max_chunk_size_def)
  then show ?thesis using r by (auto simp: upload_example_request_def prod_eq_iff)
qed

section \<open>Losing an upload\<close>

text \<open>
  one failed completion destroys an upload. Whoever asks for the completion of a session -
  another tenant, a caller with no tenant at all, or its owner one chunk too early - the session
  is gone afterwards: every later chunk, completion and question about it is answered \<open>not found\<close>.
\<close>

theorem failed_completion_destroys_upload:
  assumes "map_of (uw_sessions w) upload_id = Some s"
    and "ue_tenant env \<noteq> Some (us_tenant s) \<or> int (length (us_uploaded s)) < us_total_chunks s"
    and "atoi chunk = Some i" and "0 \<le> i"
  shows "fst (complete_upload env upload_id w) \<in> {TenantMismatch, Incomplete}
    \<and> fst (upload_chunk env' upload_id chunk (snd (complete_upload env upload_id w))) = SessionNotFound
    \<and> fst (complete_upload env' upload_id (snd (complete_upload env upload_id w))) = SessionNotFound
    \<and> upload_progress env' upload_id (snd (complete_upload env upload_id w)) = SessionNotFound"
proof -
  have "map_of (uw_sessions (snd (complete_upload env upload_id w))) upload_id = None"
    by (simp add: complete_sessions delete_conv')
  moreover have "chunk \<noteq> []" using assms(3) by (auto simp: atoi_def)
  moreover have "fst (complete_upload env upload_id w) \<in> {TenantMismatch, Incomplete}"
    using assms(1,2) by (auto simp: complete_upload_def Let_def)
  ultimately show ?thesis using assms(3,4)
    by (simp add: upload_chunk_def complete_upload_def [of env'] upload_progress_def)
qed

lemma failed_completion_destroys_upload_witness:
  "fst (upload_chunk upload_example_env ''u'' ''0''
     (snd (complete_upload (upload_example_env\<lparr>ue_tenant := Some ''intruder''\<rparr>) ''u'' upload_example_sent))) = SessionNotFound"
proof -
  have "map_of (uw_sessions upload_example_sent) ''u'' \<noteq> None" by code_simp
  then obtain s where s: "map_of (uw_sessions upload_example_sent) ''u'' = Some s" by auto
  have "us_tenant (the (map_of (uw_sessions upload_example_sent) ''u'')) = ''t''" by code_simp
  then have "us_tenant s = ''t''" by (simp add: s)
  moreover have "atoi ''0'' = Some 0" by code_simp
  ultimately show ?thesis
    using failed_completion_destroys_upload [OF s, of "upload_example_env\<lparr>ue_tenant := Some ''intruder''\<rparr>" "''0''" 0]
    by (simp add: upload_example_env_def)
qed

text \<open>A negative chunk size is accepted; the session it opens takes no chunk and can never be completed.\<close>

lemma negative_chunk_size_is_accepted:
  "fst (initiate_upload upload_example_env (Some (upload_example_request\<lparr>rq_total_size := 10, rq_chunk_size := -1\<rparr>))
     upload_example_world) = Initiated ''u'' (- 1) (- 8) 86400000000000"
  by code_simp

lemma no_chunks_no_completion:
  assumes "map_of (uw_sessions w) upload_id = Some s" and "us_total_chunks s < 0" and "session_ok s"
  shows "fst (complete_upload env upload_id w) \<in> {TenantMismatch, Incomplete}"
  using assms by (auto simp: complete_upload_def Let_def)

text \<open>An announced size near the end of the range overflows: the number of chunks is negative.\<close>

lemma announced_size_overflows: "chunk_count (2 ^ 63 - 1) default_chunk_size < 0"
  by code_simp

text \<open>Fewer bytes than announced are accepted: the size of the chunks is only bounded from above.\<close>

lemma short_upload_is_accepted:
  "(case fst (complete_upload upload_example_env ''u'' (the (send_chunks
      [(upload_example_env\<lparr>ue_body := Some [9]\<rparr>, ''0''), (upload_example_env\<lparr>ue_body := Some [9]\<rparr>, ''1'')]
      ''u'' upload_example_opened))) of
      Completed r \<Rightarrow> rec_size r | _ \<Rightarrow> - 1) = 2"
  by code_simp

text \<open>The name and version go into the storage path unchecked: an upload can replace another tenant's artifact.\<close>

lemma upload_replaces_other_tenants_artifact:
  "download_artifact demo_env \<lparr>ar_tenant = ''victim'', ar_repo = ''r'', ar_artifact = ''lib-1-7''\<rparr>
     (uw_blobs (snd (complete_upload upload_example_env ''u'' (the (send_chunks upload_example_parts ''u''
       (snd (initiate_upload upload_example_env (Some (upload_example_request\<lparr>rq_name := ''../../victim/r/lib''\<rparr>))
          upload_example_world))))))) = Inr [1, 2, 3, 4, 5]"
  by code_simp

end
