(* ===== verification/Access.thy ===== *)
theory Access
  imports GoLib
begin

text \<open>
  Who may call the API: the signed tokens of the local login (internal/middleware/auth.go,
  gin_jwt_auth.go, optional_auth.go, health_auth.go), the tokens of an identity provider, client
  credentials, API keys and session cookies (internal/middleware/jwt_middleware.go), the checks on
  roles, scopes and permissions (internal/models/auth.go), and the API key service
  (internal/auth/apikey_service.go).
\<close>

section \<open>Signed tokens\<close>

record auth_claims =
  cl_user_id :: string
  cl_tenant_id :: string
  cl_username :: string
  cl_email :: string
  cl_is_admin :: bool
  cl_expires_at :: time
  cl_issued_at :: time
  cl_not_before :: time
  cl_issuer :: string
  cl_subject :: string

text \<open>
  The token library signs claims with a secret and parses a token at a time: it asks which key
  belongs to the method in the token's header, and reports the claims and whether they are valid.
  \<open>jwt_laws\<close> is what its documentation says of a token it signed with HMAC.
\<close>

datatype sign_method = HMAC | OtherMethod string

record jwt_library =
  jl_sign :: "string \<Rightarrow> auth_claims \<Rightarrow> string option"
  jl_parse :: "(sign_method \<Rightarrow> string option) \<Rightarrow> time \<Rightarrow> string \<Rightarrow> (auth_claims \<times> bool) option"

definition jwt_laws :: "jwt_library \<Rightarrow> bool" where
  "jwt_laws lib \<longleftrightarrow>
     (\<forall>secret claims token key now. jl_sign lib secret claims = Some token \<longrightarrow> key HMAC = Some secret \<longrightarrow>
        jl_parse lib key now token
          = (if cl_not_before claims \<le> now \<and> now < cl_expires_at claims then Some (claims, True) else None))"

record auth_env =
  au_now :: time
  au_jwt :: jwt_library
  au_parse_uuid :: "string \<Rightarrow> uuid option"

record jwt_auth =
  ja_secret :: string

definition new_jwt_auth :: "string option \<Rightarrow> jwt_auth" where
  "new_jwt_auth configured =
     \<lparr>ja_secret = (case configured of None \<Rightarrow> ''your-secret-key-change-in-production''
                  | Some s \<Rightarrow> if s = [] then ''your-secret-key-change-in-production'' else s)\<rparr>"

definition generate_token :: "auth_env \<Rightarrow> jwt_auth \<Rightarrow> uuid \<Rightarrow> uuid \<Rightarrow> string \<Rightarrow> string \<Rightarrow> bool \<Rightarrow> string option" where
  "generate_token env a user tenant name email is_admin =
     jl_sign (au_jwt env) (ja_secret a)
       \<lparr>cl_user_id = user, cl_tenant_id = tenant, cl_username = name, cl_email = email, cl_is_admin = is_admin,
        cl_expires_at = au_now env + 24 * hour, cl_issued_at = au_now env, cl_not_before = au_now env,
        cl_issuer = ''securestor'', cl_subject = user\<rparr>"

datatype jwt_error = TokenRejected | InvalidTokenClaims

definition validate_token :: "auth_env \<Rightarrow> jwt_auth \<Rightarrow> string \<Rightarrow> jwt_error + auth_claims" where
  "validate_token env a token =
     (case jl_parse (au_jwt env) (\<lambda>m. if m = HMAC then Some (ja_secret a) else None) (au_now env) token of
        None \<Rightarrow> Inl TokenRejected
      | Some (claims, valid) \<Rightarrow> if valid then Inr claims else Inl InvalidTokenClaims)"

section \<open>Handlers behind a token\<close>

record http_auth =
  ha_user_id :: uuid
  ha_tenant_id :: uuid
  ha_username :: string
  ha_email :: string
  ha_is_admin :: bool

datatype refusal =
    HeaderRequired | HeaderFormat | TokenInvalid jwt_error | BadUserId | BadTenantId | AdminRequired

text \<open>The value of the header is empty when there is none. The handler behind runs on \<open>Inr\<close> only.\<close>

definition bearer :: "string \<Rightarrow> string option" where
  "bearer header = (if has_prefix header ''Bearer '' then Some (drop 7 header) else None)"

definition require_auth :: "auth_env \<Rightarrow> jwt_auth \<Rightarrow> string \<Rightarrow> refusal + http_auth" where
  "require_auth env a header =
     (if header = [] then Inl HeaderRequired
      else case bearer header of
        None \<Rightarrow> Inl HeaderFormat
      | Some token \<Rightarrow>
          (case validate_token env a token of
             Inl e \<Rightarrow> Inl (TokenInvalid e)
           | Inr claims \<Rightarrow>
               (case au_parse_uuid env (cl_user_id claims) of
                  None \<Rightarrow> Inl BadUserId
                | Some user \<Rightarrow>
                    (case au_parse_uuid env (cl_tenant_id claims) of
                       None \<Rightarrow> Inl BadTenantId
                     | Some tenant \<Rightarrow>
                         Inr \<lparr>ha_user_id = user, ha_tenant_id = tenant, ha_username = cl_username claims,
                              ha_email = cl_email claims, ha_is_admin = cl_is_admin claims\<rparr>))))"

definition require_admin :: "auth_env \<Rightarrow> jwt_auth \<Rightarrow> string \<Rightarrow> refusal + http_auth" where
  "require_admin env a header =
     (case require_auth env a header of
        Inl e \<Rightarrow> Inl e
      | Inr auth \<Rightarrow> if ha_is_admin auth then Inr auth else Inl AdminRequired)"

section \<open>The same in Gin\<close>

text \<open>
  A Gin middleware gets the rest of the chain, which \<^verbatim>\<open>c.Next()\<close> runs unless it has been run or
  the request was aborted; when the middleware returns, Gin runs what is left. \<open>gs_world\<close> is what the
  handlers act on.
\<close>

record 'w gin_state =
  gs_auth :: "http_auth option"
  gs_past :: bool
  gs_aborted :: bool
  gs_refusals :: "refusal list"
  gs_world :: 'w

type_synonym 'w gin_handler = "'w gin_state \<Rightarrow> 'w gin_state"

definition gin_next :: "'w gin_handler \<Rightarrow> 'w gin_handler" where
  "gin_next rest c = (if gs_past c then c else rest (c\<lparr>gs_past := True\<rparr>))"

definition gin_abort :: "refusal \<Rightarrow> 'w gin_handler" where
  "gin_abort r c = c\<lparr>gs_past := True, gs_aborted := True, gs_refusals := gs_refusals c @ [r]\<rparr>"

definition gin_serve :: "('w gin_handler \<Rightarrow> 'w gin_handler) \<Rightarrow> 'w gin_handler \<Rightarrow> 'w \<Rightarrow> 'w gin_state" where
  "gin_serve middleware rest w =
     gin_next rest (middleware rest \<lparr>gs_auth = None, gs_past = False, gs_aborted = False, gs_refusals = [], gs_world = w\<rparr>)"

definition gin_require_auth :: "auth_env \<Rightarrow> jwt_auth \<Rightarrow> string \<Rightarrow> 'w gin_handler \<Rightarrow> 'w gin_handler" where
  "gin_require_auth env a header rest c =
     (case require_auth env a header of
        Inl e \<Rightarrow> gin_abort e c
      | Inr auth \<Rightarrow> gin_next rest (c\<lparr>gs_auth := Some auth\<rparr>))"

definition gin_require_admin :: "auth_env \<Rightarrow> jwt_auth \<Rightarrow> string \<Rightarrow> 'w gin_handler \<Rightarrow> 'w gin_handler" where
  "gin_require_admin env a header rest c =
     (let c = gin_require_auth env a header rest c
      in if gs_aborted c then c
         else case gs_auth c of
                None \<Rightarrow> gin_abort AdminRequired c
              | Some auth \<Rightarrow> if ha_is_admin auth then gin_next rest c else gin_abort AdminRequired c)"

text \<open>Identifiers that do not parse become the zero one.\<close>

definition lenient_uuid :: "auth_env \<Rightarrow> string \<Rightarrow> uuid" where
  "lenient_uuid env s = (case au_parse_uuid env s of None \<Rightarrow> uuid_nil | Some u \<Rightarrow> u)"

definition claims_auth :: "auth_env \<Rightarrow> auth_claims \<Rightarrow> http_auth" where
  "claims_auth env claims =
     \<lparr>ha_user_id = lenient_uuid env (cl_user_id claims), ha_tenant_id = lenient_uuid env (cl_tenant_id claims),
      ha_username = cl_username claims, ha_email = cl_email claims, ha_is_admin = cl_is_admin claims\<rparr>"

definition gin_optional_auth :: "auth_env \<Rightarrow> jwt_auth \<Rightarrow> string \<Rightarrow> 'w gin_handler \<Rightarrow> 'w gin_handler" where
  "gin_optional_auth env a header rest c =
     (case bearer header of
        None \<Rightarrow> gin_next rest c
      | Some token \<Rightarrow>
          (case validate_token env a token of
             Inl _ \<Rightarrow> gin_next rest c
           | Inr claims \<Rightarrow> gin_next rest (c\<lparr>gs_auth := Some (claims_auth env claims)\<rparr>)))"

section \<open>The context of an authenticated request\<close>

datatype auth_type = UserAuth | ClientCredentials | ApiKeyAuth

record auth_context =
  ac_user_id :: string
  ac_username :: string
  ac_email :: string
  ac_session_id :: string
  ac_roles :: "string list"
  ac_permissions :: "(string \<times> string list) list"
  ac_is_admin :: bool
  ac_scopes :: "string list"
  ac_type :: auth_type

definition empty_context :: "auth_type \<Rightarrow> auth_context" where
  "empty_context t = \<lparr>ac_user_id = [], ac_username = [], ac_email = [], ac_session_id = [], ac_roles = [],
     ac_permissions = [], ac_is_admin = False, ac_scopes = [], ac_type = t\<rparr>"

definition has_permission :: "auth_context \<Rightarrow> string \<Rightarrow> string \<Rightarrow> bool" where
  "has_permission ctx resource action \<longleftrightarrow>
     ac_is_admin ctx
     \<or> (case map_of (ac_permissions ctx) resource of
          None \<Rightarrow> False
        | Some actions \<Rightarrow> list_ex (\<lambda>x. x = action \<or> x = ''admin'') actions)"

definition has_role :: "auth_context \<Rightarrow> string \<Rightarrow> bool" where
  "has_role ctx name \<longleftrightarrow> list_ex (\<lambda>r. r = name) (ac_roles ctx)"

definition has_any_role :: "auth_context \<Rightarrow> string list \<Rightarrow> bool" where
  "has_any_role ctx names \<longleftrightarrow> list_ex (has_role ctx) names"

definition has_scope :: "auth_context \<Rightarrow> string \<Rightarrow> bool" where
  "has_scope ctx scope \<longleftrightarrow> list_ex (\<lambda>s. s = scope \<or> s = ''*'') (ac_scopes ctx)"

definition has_any_scope :: "auth_context \<Rightarrow> string list \<Rightarrow> bool" where
  "has_any_scope ctx scopes \<longleftrightarrow> list_ex (has_scope ctx) scopes"

definition is_m2m :: "auth_context \<Rightarrow> bool" where
  "is_m2m ctx \<longleftrightarrow> ac_type ctx = ClientCredentials \<or> ac_type ctx = ApiKeyAuth"

definition is_user_auth :: "auth_context \<Rightarrow> bool" where
  "is_user_auth ctx \<longleftrightarrow> ac_type ctx = UserAuth"

section \<open>Optional authentication\<close>

text \<open>The context the handler behind gets; there is none for an anonymous caller.\<close>

definition optional_auth :: "auth_env \<Rightarrow> jwt_auth \<Rightarrow> string \<Rightarrow> auth_context option" where
  "optional_auth env a header =
     (case bearer header of
        None \<Rightarrow> None
      | Some token \<Rightarrow>
          (case validate_token env a token of
             Inl _ \<Rightarrow> None
           | Inr claims \<Rightarrow> Some ((empty_context UserAuth)\<lparr>ac_user_id := cl_user_id claims, ac_email := cl_email claims,
                              ac_username := cl_username claims, ac_is_admin := cl_is_admin claims\<rparr>)))"

text \<open>
  Whether a repository may be read, and whether it is public. The query gives the flag and the
  owner; \<open>tenant\<close> is the one in the request's context.
\<close>

datatype 'a query = QueryFailed | NoRows | Row 'a

definition check_repository_access ::
  "(uuid \<Rightarrow> (bool \<times> uuid) query) \<Rightarrow> auth_context option \<Rightarrow> uuid option \<Rightarrow> uuid \<Rightarrow> unit + bool \<times> bool" where
  "check_repository_access repositories auth tenant repo =
     (case repositories repo of
        QueryFailed \<Rightarrow> Inl ()
      | NoRows \<Rightarrow> Inr (False, False)
      | Row (public, owner) \<Rightarrow>
          if public then Inr (True, True)
          else if auth = None then Inr (False, False)
          else case tenant of
            None \<Rightarrow> Inr (False, False)
          | Some t \<Rightarrow> if t \<noteq> owner then Inr (False, False) else Inr (True, False))"

section \<open>API keys\<close>

record api_key =
  ak_key_id :: string
  ak_key_hash :: string
  ak_name :: string
  ak_description :: string
  ak_scopes :: "string list"
  ak_user_id :: uuid
  ak_is_active :: bool
  ak_expires_at :: "time option"
  ak_last_used_at :: "time option"
  ak_created_at :: time
  ak_updated_at :: time

text \<open>
  The table has one row for a key identifier (the column is unique). During one call: the clock,
  the random bytes, bcrypt (a third-party package; \<open>bcrypt_laws\<close> is what it promises), the scopes
  in the database, whether the driver converts string arrays, and which statements succeed.
\<close>

record bcrypt =
  bc_generate :: "bytes \<Rightarrow> string \<Rightarrow> string option"
  bc_compare :: "string \<Rightarrow> string \<Rightarrow> bool"

definition bcrypt_laws :: "bcrypt \<Rightarrow> bool" where
  "bcrypt_laws b \<longleftrightarrow> (\<forall>salt pw h. bc_generate b salt pw = Some h \<longrightarrow> bc_compare b h pw)"

record key_env =
  ke_now :: time
  ke_random :: "(bytes \<times> bytes) option"
  ke_salt :: bytes
  ke_bcrypt :: bcrypt
  ke_available :: "string list option"
  ke_arrays :: bool
  ke_query_ok :: bool
  ke_exec_ok :: bool

datatype key_error =
    RandomFailed | HashFailed | ScopesUnavailable | InvalidScope string | InsertFailed
  | BadKeyFormat | KeyQueryFailed | UnknownKey | KeyExpired | WrongKey | KeyUpdateFailed | KeyNotOwned

definition hex_digit :: "nat \<Rightarrow> char" where
  "hex_digit n = (if n < 10 then char_of (48 + n) else char_of (87 + n))"

definition hex_encode :: "bytes \<Rightarrow> string" where
  "hex_encode bs = concat (map (\<lambda>b. [hex_digit (unat b div 16), hex_digit (unat b mod 16)]) bs)"

definition base64_digit :: "nat \<Rightarrow> char" where
  "base64_digit n =
     (if n < 26 then char_of (65 + n) else if n < 52 then char_of (71 + n) else if n < 62 then char_of (n - 4)
      else if n = 62 then CHR ''-'' else CHR ''_'')"

text \<open>\<^verbatim>\<open>base64.URLEncoding\<close>, with padding.\<close>

fun base64_url :: "bytes \<Rightarrow> string" where
  "base64_url (a # b # c # bs) =
     (let n = unat a * 65536 + unat b * 256 + unat c
      in [base64_digit (n div 262144), base64_digit (n div 4096 mod 64), base64_digit (n div 64 mod 64),
          base64_digit (n mod 64)] @ base64_url bs)"
| "base64_url [a, b] =
     (let n = unat a * 1024 + unat b * 4
      in [base64_digit (n div 4096), base64_digit (n div 64 mod 64), base64_digit (n mod 64), CHR ''=''])"
| "base64_url [a] = (let n = unat a * 16 in [base64_digit (n div 64), base64_digit (n mod 64), CHR ''='', CHR ''=''])"
| "base64_url [] = []"

definition generate_key_id :: "bytes \<Rightarrow> string" where
  "generate_key_id random = ''sk_'' @ hex_encode random"

definition generate_key_secret :: "bytes \<Rightarrow> string" where
  "generate_key_secret random = base64_url random"

definition validate_api_key_scopes :: "key_env \<Rightarrow> string list \<Rightarrow> key_error + string list" where
  "validate_api_key_scopes env scopes =
     (if scopes = [] then Inr [''read'']
      else case ke_available env of
        None \<Rightarrow> Inl ScopesUnavailable
      | Some available \<Rightarrow>
          (case find (\<lambda>s. s \<notin> set available) scopes of
             Some s \<Rightarrow> Inl (InvalidScope s)
           | None \<Rightarrow> Inr scopes))"

definition create_api_key ::
  "key_env \<Rightarrow> uuid \<Rightarrow> string \<Rightarrow> string \<Rightarrow> string list \<Rightarrow> time option \<Rightarrow> api_key list
     \<Rightarrow> (key_error + api_key \<times> string) \<times> api_key list" where
  "create_api_key env user name description scopes expires db =
     (case ke_random env of
        None \<Rightarrow> (Inl RandomFailed, db)
      | Some (r1, r2) \<Rightarrow>
          let key_id = generate_key_id r1;
              full = key_id @ ''.'' @ generate_key_secret r2
          in case bc_generate (ke_bcrypt env) (ke_salt env) full of
               None \<Rightarrow> (Inl HashFailed, db)
             | Some h \<Rightarrow>
                 (case validate_api_key_scopes env scopes of
                    Inl e \<Rightarrow> (Inl e, db)
                  | Inr valid \<Rightarrow>
                      let key = \<lparr>ak_key_id = key_id, ak_key_hash = h, ak_name = name, ak_description = description,
                           ak_scopes = valid, ak_user_id = user, ak_is_active = True, ak_expires_at = expires,
                           ak_last_used_at = None, ak_created_at = ke_now env, ak_updated_at = ke_now env\<rparr>
                      in if \<not> ke_arrays env \<or> \<not> ke_exec_ok env \<or> key_id \<in> set (map ak_key_id db) then (Inl InsertFailed, db)
                         else (Inr (key, full), key # db)))"

definition update_last_used :: "key_env \<Rightarrow> string \<Rightarrow> api_key list \<Rightarrow> api_key list" where
  "update_last_used env key_id db =
     (if ke_exec_ok env
      then map (\<lambda>k. if ak_key_id k = key_id then k\<lparr>ak_last_used_at := Some (ke_now env)\<rparr> else k) db else db)"

definition validate_api_key :: "key_env \<Rightarrow> string \<Rightarrow> api_key list \<Rightarrow> (key_error + api_key) \<times> api_key list" where
  "validate_api_key env presented db =
     (let parts = split_on CHR ''.'' presented
      in if length parts \<noteq> 2 then (Inl BadKeyFormat, db)
         else let key_id = hd parts
              in if \<not> ke_query_ok env then (Inl KeyQueryFailed, db)
                 else case find (\<lambda>k. ak_key_id k = key_id \<and> ak_is_active k) db of
                   None \<Rightarrow> (Inl UnknownKey, db)
                 | Some k \<Rightarrow>
                     if \<not> ke_arrays env then (Inl KeyQueryFailed, db)
                     else if (case ak_expires_at k of None \<Rightarrow> False | Some t \<Rightarrow> t < ke_now env) then (Inl KeyExpired, db)
                     else if \<not> bc_compare (ke_bcrypt env) (ak_key_hash k) presented then (Inl WrongKey, db)
                     else (Inr k, update_last_used env key_id db))"

definition list_api_keys :: "key_env \<Rightarrow> uuid \<Rightarrow> api_key list \<Rightarrow> key_error + api_key list" where
  "list_api_keys env user db =
     (if \<not> ke_query_ok env then Inl KeyQueryFailed
      else let keys = rev (sort_key ak_created_at (rev (filter (\<lambda>k. ak_user_id k = user) db)))
           in if keys \<noteq> [] \<and> \<not> ke_arrays env then Inl KeyQueryFailed
              else Inr (map (\<lambda>k. k\<lparr>ak_key_hash := []\<rparr>) keys))"

definition update_rows :: "(api_key \<Rightarrow> bool) \<Rightarrow> (api_key \<Rightarrow> api_key) \<Rightarrow> api_key list \<Rightarrow> nat \<times> api_key list" where
  "update_rows P f db = (length (filter P db), map (\<lambda>k. if P k then f k else k) db)"

definition revoke_api_key :: "key_env \<Rightarrow> string \<Rightarrow> uuid \<Rightarrow> api_key list \<Rightarrow> (key_error + unit) \<times> api_key list" where
  "revoke_api_key env key_id user db =
     (if \<not> ke_exec_ok env then (Inl KeyUpdateFailed, db)
      else case update_rows (\<lambda>k. ak_key_id k = key_id \<and> ak_user_id k = user)
                  (\<lambda>k. k\<lparr>ak_is_active := False, ak_updated_at := ke_now env\<rparr>) db of
             (n, db) \<Rightarrow> (if n = 0 then Inl KeyNotOwned else Inr (), db))"

definition update_api_key ::
  "key_env \<Rightarrow> string \<Rightarrow> uuid \<Rightarrow> string \<Rightarrow> string \<Rightarrow> string list \<Rightarrow> api_key list \<Rightarrow> (key_error + unit) \<times> api_key list" where
  "update_api_key env key_id user name description scopes db =
     (case validate_api_key_scopes env scopes of
        Inl e \<Rightarrow> (Inl e, db)
      | Inr valid \<Rightarrow>
          if \<not> ke_arrays env \<or> \<not> ke_exec_ok env then (Inl KeyUpdateFailed, db)
          else case update_rows (\<lambda>k. ak_key_id k = key_id \<and> ak_user_id k = user)
                  (\<lambda>k. k\<lparr>ak_name := name, ak_description := description, ak_scopes := valid,
                         ak_updated_at := ke_now env\<rparr>) db of
             (n, db) \<Rightarrow> (if n = 0 then Inl KeyNotOwned else Inr (), db))"

section \<open>Sessions and bearer tokens\<close>

record token_claims =
  tk_subject :: string
  tk_email :: string
  tk_username :: string
  tk_realm_roles :: "string list"

record new_token =
  nt_access :: string
  nt_refresh :: string
  nt_id :: "string option"
  nt_expiry :: time

text \<open>The identity provider: the verifier of ID tokens, the user-info endpoint, the token endpoint.\<close>

record oidc_provider =
  od_verify :: "string \<Rightarrow> token_claims option"
  od_user_info :: "string \<Rightarrow> token_claims option"
  od_refresh :: "string \<Rightarrow> new_token option"

record user_session =
  se_id :: string
  se_user_id :: uuid
  se_access_token :: string
  se_refresh_token :: string
  se_id_token :: string
  se_expires_at :: time

text \<open>What is left of a session after JSON: the three tokens are excluded from it (\<^verbatim>\<open>json:"-"\<close>).\<close>

definition json_session :: "user_session \<Rightarrow> user_session" where
  "json_session s = s\<lparr>se_access_token := [], se_refresh_token := [], se_id_token := []\<rparr>"

record jwt_env =
  je_now :: time
  je_redis_up :: bool
  je_oidc :: oidc_provider
  je_oauth2 :: bool
  je_keys :: "key_env option"

record jwt_state =
  js_redis :: "(string \<times> (user_session \<times> time)) list"
  js_keys :: "api_key list"

datatype auth_error =
    NoAuthentication | InvalidBearer | ApiKeysUnavailable | InvalidApiKey key_error
  | SessionNotFound | RedisFailed | RefreshFailed | SessionExpired | InvalidSessionToken

definition session_key :: "string \<Rightarrow> string" where
  "session_key session_id = ''session:'' @ session_id"

definition store_session :: "jwt_env \<Rightarrow> string \<Rightarrow> user_session \<Rightarrow> jwt_state \<Rightarrow> (auth_error + unit) \<times> jwt_state" where
  "store_session env session_id s st =
     (if \<not> je_redis_up env then (Inl RedisFailed, st)
      else (Inr (), st\<lparr>js_redis := AList.update (session_key session_id) (json_session s, je_now env + 24 * hour) (js_redis st)\<rparr>))"

definition get_session :: "jwt_env \<Rightarrow> string \<Rightarrow> jwt_state \<Rightarrow> auth_error + user_session" where
  "get_session env session_id st =
     (if \<not> je_redis_up env then Inl RedisFailed
      else case map_of (js_redis st) (session_key session_id) of
             None \<Rightarrow> Inl SessionNotFound
           | Some (s, gone) \<Rightarrow> if je_now env < gone then Inr s else Inl SessionNotFound)"

definition delete_session :: "jwt_env \<Rightarrow> string \<Rightarrow> jwt_state \<Rightarrow> (auth_error + unit) \<times> jwt_state" where
  "delete_session env session_id st =
     (if \<not> je_redis_up env then (Inl RedisFailed, st)
      else (Inr (), st\<lparr>js_redis := AList.delete (session_key session_id) (js_redis st)\<rparr>))"

definition get_token_from_session :: "jwt_env \<Rightarrow> string \<Rightarrow> jwt_state \<Rightarrow> (auth_error + string) \<times> jwt_state" where
  "get_token_from_session env session_id st =
     (case get_session env session_id st of
        Inl e \<Rightarrow> (Inl e, st)
      | Inr s \<Rightarrow>
          if se_expires_at s < je_now env
          then (if se_refresh_token s = [] then (Inl SessionExpired, st)
                else case od_refresh (je_oidc env) (se_refresh_token s) of
                  None \<Rightarrow> (Inl RefreshFailed, st)
                | Some t \<Rightarrow>
                    let s = s\<lparr>se_access_token := nt_access t,
                              se_id_token := (case nt_id t of None \<Rightarrow> se_id_token s | Some i \<Rightarrow> i),
                              se_refresh_token := (if nt_refresh t = [] then se_refresh_token s else nt_refresh t),
                              se_expires_at := nt_expiry t\<rparr>
                    in (Inr (se_access_token s), snd (store_session env session_id s st)))
          else (Inr (se_access_token s), st))"

definition middleware_token :: "jwt_env \<Rightarrow> string \<Rightarrow> token_claims option" where
  "middleware_token env token =
     (case od_verify (je_oidc env) token of Some c \<Rightarrow> Some c | None \<Rightarrow> od_user_info (je_oidc env) token)"

definition claims_context :: "token_claims \<Rightarrow> auth_context" where
  "claims_context c = (empty_context UserAuth)\<lparr>ac_user_id := tk_subject c, ac_username := tk_username c,
     ac_email := tk_email c, ac_roles := tk_realm_roles c\<rparr>"

definition validate_bearer :: "jwt_env \<Rightarrow> string \<Rightarrow> auth_error + auth_context" where
  "validate_bearer env token =
     (case middleware_token env token of
        Some c \<Rightarrow> Inr (claims_context c)
      | None \<Rightarrow> if je_oauth2 env then Inr (empty_context ClientCredentials) else Inl InvalidBearer)"

text \<open>\<^verbatim>\<open>%d\<close> of an identifier: its sixteen bytes in decimal.\<close>

definition hex_value :: "char \<Rightarrow> nat" where
  "hex_value c = (let n = of_char c :: nat in if n < 58 then n - 48 else n - 87)"

fun byte_pairs :: "string \<Rightarrow> nat list" where
  "byte_pairs (a # b # cs) = (16 * hex_value a + hex_value b) # byte_pairs cs"
| "byte_pairs _ = []"

definition uuid_in_decimal :: "uuid \<Rightarrow> string" where
  "uuid_in_decimal u =
     ''['' @ join_with '' '' (map show_nat (byte_pairs (filter (\<lambda>c. c \<noteq> CHR ''-'') u))) @ '']''"

definition middleware_api_key :: "jwt_env \<Rightarrow> string \<Rightarrow> jwt_state \<Rightarrow> (auth_error + auth_context) \<times> jwt_state" where
  "middleware_api_key env presented st =
     (case je_keys env of
        None \<Rightarrow> (Inl ApiKeysUnavailable, st)
      | Some ke \<Rightarrow>
          (case validate_api_key ke presented (js_keys st) of
             (Inl e, db) \<Rightarrow> (Inl (InvalidApiKey e), st\<lparr>js_keys := db\<rparr>)
           | (Inr k, db) \<Rightarrow>
               (Inr ((empty_context ApiKeyAuth)\<lparr>ac_user_id := uuid_in_decimal (ak_user_id k), ac_scopes := ak_scopes k\<rparr>),
                st\<lparr>js_keys := db\<rparr>)))"

definition validate_session_cookie :: "jwt_env \<Rightarrow> string \<Rightarrow> jwt_state \<Rightarrow> (auth_error + auth_context) \<times> jwt_state" where
  "validate_session_cookie env session_id st =
     (case get_token_from_session env session_id st of
        (Inl e, st) \<Rightarrow> (Inl e, st)
      | (Inr token, st) \<Rightarrow>
          (case middleware_token env token of
             None \<Rightarrow> (Inl InvalidSessionToken, st)
           | Some c \<Rightarrow> (Inr ((claims_context c)\<lparr>ac_session_id := session_id\<rparr>), st)))"

text \<open>\<open>cookie\<close> is the session cookie, if the request has one.\<close>

definition validate_authentication ::
  "jwt_env \<Rightarrow> string \<Rightarrow> string option \<Rightarrow> jwt_state \<Rightarrow> (auth_error + auth_context) \<times> jwt_state" where
  "validate_authentication env header cookie st =
     (if has_prefix header ''Bearer '' then (validate_bearer env (trim_prefix header ''Bearer ''), st)
      else if has_prefix header ''ApiKey '' then middleware_api_key env (trim_prefix header ''ApiKey '') st
      else case cookie of
             None \<Rightarrow> (Inl NoAuthentication, st)
           | Some session_id \<Rightarrow>
               if session_id = [] then (Inl NoAuthentication, st) else validate_session_cookie env session_id st)"

section \<open>Guards\<close>

datatype denial = Unauthenticated | UserAuthRequired | InsufficientPermissions | InsufficientScopes | UnknownAuthType

text \<open>\<open>None\<close> lets the request through; the context is missing when \<^verbatim>\<open>AuthRequired\<close> did not run.\<close>

definition require_role :: "string list \<Rightarrow> auth_context option \<Rightarrow> denial option" where
  "require_role roles ctx =
     (case ctx of
        None \<Rightarrow> Some Unauthenticated
      | Some c \<Rightarrow> if \<not> is_user_auth c then Some UserAuthRequired
                 else if \<not> has_any_role c roles then Some InsufficientPermissions else None)"

definition require_scope :: "string list \<Rightarrow> auth_context option \<Rightarrow> denial option" where
  "require_scope scopes ctx =
     (case ctx of
        None \<Rightarrow> Some Unauthenticated
      | Some c \<Rightarrow> if is_user_auth c then None
                 else if \<not> has_any_scope c scopes then Some InsufficientScopes else None)"

definition require_role_or_scope :: "string list \<Rightarrow> string list \<Rightarrow> auth_context option \<Rightarrow> denial option" where
  "require_role_or_scope roles scopes ctx =
     (case ctx of
        None \<Rightarrow> Some Unauthenticated
      | Some c \<Rightarrow>
          if is_user_auth c then (if \<not> has_any_role c roles then Some InsufficientPermissions else None)
          else if is_m2m c then (if \<not> has_any_scope c scopes then Some InsufficientScopes else None)
          else Some UnknownAuthType)"

definition role_permissions :: "(string \<times> string list) list" where
  "role_permissions =
     [(''developer'', [''artifacts:read'', ''artifacts:write'', ''artifacts:delete'',
                       ''scans:read'', ''scans:write'', ''compliance:read'']),
      (''auditor'', [''artifacts:read'', ''scans:read'', ''compliance:read'', ''compliance:write'']),
      (''user'', [''artifacts:read'', ''scans:read''])]"

definition role_has_permission :: "auth_context \<Rightarrow> string \<Rightarrow> bool" where
  "role_has_permission c permission \<longleftrightarrow>
     has_role c ''admin''
     \<or> list_ex (\<lambda>role. case map_of role_permissions role of
                          None \<Rightarrow> False | Some ps \<Rightarrow> list_ex (\<lambda>p. p = permission) ps) (ac_roles c)"

definition require_permission :: "string \<Rightarrow> auth_context option \<Rightarrow> denial option" where
  "require_permission permission ctx =
     (case ctx of
        None \<Rightarrow> Some Unauthenticated
      | Some c \<Rightarrow> if \<not> role_has_permission c permission then Some InsufficientPermissions else None)"

text \<open>The health endpoints: a signed token or an API key, both as bearer.\<close>

definition health_auth ::
  "auth_env \<Rightarrow> jwt_auth \<Rightarrow> key_env \<Rightarrow> string \<Rightarrow> api_key list \<Rightarrow> (refusal + http_auth) \<times> api_key list" where
  "health_auth env a ke header db =
     (if header = [] then (Inl HeaderRequired, db)
      else case bearer header of
        None \<Rightarrow> (Inl HeaderFormat, db)
      | Some token \<Rightarrow>
          (case validate_token env a token of
             Inr claims \<Rightarrow> (Inr (claims_auth env claims), db)
           | Inl e \<Rightarrow>
               (case validate_api_key ke token db of
                  (Inr k, db) \<Rightarrow> (Inr \<lparr>ha_user_id = ak_user_id k, ha_tenant_id = uuid_nil, ha_username = [],
                                       ha_email = [], ha_is_admin = False\<rparr>, db)
                | (Inl _, db) \<Rightarrow> (Inl (TokenInvalid e), db))))"

section \<open>Tokens and handlers\<close>

lemma bearer_of [simp]: "bearer (''Bearer '' @ token) = Some token"
  by (simp add: bearer_def has_prefix_def)


definition example_claims :: "auth_claims" where
  "example_claims = \<lparr>cl_user_id = ''u'', cl_tenant_id = ''t'', cl_username = ''n'', cl_email = ''e'', cl_is_admin = False,
     cl_expires_at = 24 * hour, cl_issued_at = 0, cl_not_before = 0, cl_issuer = ''securestor'', cl_subject = ''u''\<rparr>"

definition example_jwt :: jwt_library where
  "example_jwt =
     \<lparr>jl_sign = (\<lambda>secret claims. if secret = ''k'' \<and> claims = example_claims then Some ''signed'' else None),
      jl_parse = (\<lambda>key now token. if token = ''signed'' \<and> key HMAC = Some ''k'' \<and> 0 \<le> now \<and> now < 24 * hour
                                   then Some (example_claims, True) else None)\<rparr>"

definition example_auth_env :: auth_env where
  "example_auth_env = \<lparr>au_now = 0, au_jwt = example_jwt, au_parse_uuid = Some\<rparr>"

definition example_auth :: jwt_auth where
  "example_auth = new_jwt_auth (Some ''k'')"

lemma example_jwt_laws: "jwt_laws (au_jwt example_auth_env)"
  by (auto simp: jwt_laws_def example_auth_env_def example_jwt_def example_claims_def split: if_splits)


text \<open>An endpoint: it acts on the world and leaves the control of the request alone.\<close>

definition endpoint :: "('w \<Rightarrow> 'w) \<Rightarrow> 'w gin_handler" where
  "endpoint f c = c\<lparr>gs_world := f (gs_world c)\<rparr>"

text \<open>
  behind the Gin guard a handler runs once for a request whose token is accepted and not at
  all for any other; the request that is refused gets exactly one answer, the reason.
\<close>

theorem guarded_handler_runs_once:
  "(let c = gin_serve (gin_require_auth env a header) (endpoint f) w
    in case require_auth env a header of
         Inr auth \<Rightarrow> gs_world c = f w \<and> gs_auth c = Some auth \<and> gs_refusals c = [] \<and> \<not> gs_aborted c
       | Inl e \<Rightarrow> gs_world c = w \<and> gs_refusals c = [e] \<and> gs_aborted c)"
  by (simp add: gin_serve_def gin_require_auth_def gin_next_def gin_abort_def endpoint_def Let_def split: sum.split)

text \<open>
  the Gin guard for administrators comes after the handler. A request with a valid token that
  is not an administrator's is answered with a refusal, but only once the protected handler has
  run: the guard calls the one for tokens, which continues the chain before it returns.
\<close>

theorem admin_guard_refuses_too_late:
  assumes "require_auth env a header = Inr auth" and "\<not> ha_is_admin auth"
  shows "gs_world (gin_serve (gin_require_admin env a header) (endpoint f) w) = f w
    \<and> gs_refusals (gin_serve (gin_require_admin env a header) (endpoint f) w) = [AdminRequired]
    \<and> require_admin env a header = Inl AdminRequired"
  using assms
  by (simp add: gin_serve_def gin_require_admin_def gin_require_auth_def gin_next_def gin_abort_def endpoint_def
      require_admin_def Let_def)

lemma admin_guard_refuses_too_late_witness:
  "gs_world (gin_serve (gin_require_admin example_auth_env example_auth ''Bearer signed'') (endpoint (\<lambda>n. n + 1)) (0 :: nat)) = 1"
proof -
  have "require_auth example_auth_env example_auth ''Bearer signed''
      = Inr \<lparr>ha_user_id = ''u'', ha_tenant_id = ''t'', ha_username = ''n'', ha_email = ''e'', ha_is_admin = False\<rparr>"
    by code_simp
  from admin_guard_refuses_too_late [OF this, of "\<lambda>n. n + 1" "0 :: nat"] show ?thesis by simp
qed

text \<open>
  a private repository is open to every holder of a token who names the right tenant. The
  tenant in the token plays no part: access depends on the tenant of the request, which the host
  name or a header chooses, and on there being any valid token at all.
\<close>

theorem private_repository_follows_request_tenant:
  assumes "validate_token env a token = Inr claims" and "repositories repo = Row (False, owner)"
  shows "check_repository_access repositories (optional_auth env a (''Bearer '' @ token)) (Some tenant) repo
      = Inr (tenant = owner, False)
    \<and> check_repository_access repositories None (Some tenant) repo = Inr (False, False)"
  using assms bearer_of [of token] by (simp add: check_repository_access_def optional_auth_def del: append_Cons)

lemma private_repository_follows_request_tenant_witness:
  "check_repository_access (\<lambda>_. Row (False, ''other'')) (optional_auth example_auth_env example_auth ''Bearer signed'')
     (Some ''other'') ''r'' = Inr (True, False)"
proof -
  have "validate_token example_auth_env example_auth ''signed'' = Inr example_claims" by code_simp
  from private_repository_follows_request_tenant [OF this, of "\<lambda>_. Row (False, ''other'')" "''r''" "''other''" "''other''"]
  show ?thesis by simp
qed

text \<open>Without a secret in the environment tokens are signed with one that is in the source.\<close>

lemma unconfigured_secret_is_public:
  "ja_secret (new_jwt_auth None) = ''your-secret-key-change-in-production''"
  by (simp add: new_jwt_auth_def)

text \<open>A valid token whose identifiers do not parse passes the optional check as the zero user of the zero tenant.\<close>

lemma optional_auth_zero_identity:
  assumes "validate_token env a token = Inr claims" and "au_parse_uuid env (cl_user_id claims) = None"
    and "au_parse_uuid env (cl_tenant_id claims) = None"
  shows "\<exists>auth. gs_auth (gin_serve (gin_optional_auth env a (''Bearer '' @ token)) (endpoint f) w) = Some auth
    \<and> ha_user_id auth = uuid_nil \<and> ha_tenant_id auth = uuid_nil \<and> ha_is_admin auth = cl_is_admin claims"
  using assms bearer_of [of token]
  by (simp add: gin_serve_def gin_optional_auth_def gin_next_def endpoint_def claims_auth_def lenient_uuid_def del: append_Cons)

section \<open>Bearer tokens and sessions\<close>

text \<open>
  with the client credentials service set, a bearer token that nobody verified gets past the
  authentication, but no further guard: the context it yields has no role and no scope, and every
  check of a role, a scope or a permission turns it away.
\<close>

theorem unverified_token_has_no_rights:
  assumes "middleware_token env token = None" and "je_oauth2 env"
  shows "\<exists>ctx. validate_authentication env (''Bearer '' @ token) cookie st = (Inr ctx, st)
    \<and> require_role roles (Some ctx) \<noteq> None \<and> require_scope scopes (Some ctx) \<noteq> None
    \<and> require_role_or_scope roles scopes (Some ctx) \<noteq> None \<and> require_permission permission (Some ctx) \<noteq> None"
proof -
  have "validate_authentication env (''Bearer '' @ token) cookie st = (Inr (empty_context ClientCredentials), st)"
    using assms has_prefix_append [of "''Bearer ''" token] trim_prefix_append [of "''Bearer ''" token]
    by (simp add: validate_authentication_def validate_bearer_def del: append_Cons)
  moreover have "\<not> has_any_scope (empty_context ClientCredentials) scopes"
    by (simp add: has_any_scope_def has_scope_def empty_context_def list_ex_iff)
  ultimately show ?thesis
    by (simp add: require_role_def require_scope_def require_role_or_scope_def require_permission_def
        is_user_auth_def is_m2m_def role_has_permission_def has_role_def)
       (simp add: empty_context_def)
qed

text \<open>The life of the session table: logins, logouts and requests of any kind.\<close>

inductive jwt_step :: "jwt_state \<Rightarrow> jwt_state \<Rightarrow> bool" where
  "jwt_step st (snd (store_session env session_id s st))"
| "jwt_step st (snd (delete_session env session_id st))"
| "jwt_step st (snd (validate_authentication env header cookie st))"

definition tokenless :: "jwt_state \<Rightarrow> bool" where
  "tokenless st \<longleftrightarrow> (\<forall>k s t. map_of (js_redis st) k = Some (s, t) \<longrightarrow> se_access_token s = [] \<and> se_refresh_token s = [])"

lemma tokenless_store: "tokenless st \<Longrightarrow> tokenless (snd (store_session env session_id s st))"
  by (auto simp: tokenless_def store_session_def json_session_def split: if_splits)

lemma tokenless_get: "tokenless st \<Longrightarrow> get_session env session_id st = Inr s \<Longrightarrow> se_access_token s = [] \<and> se_refresh_token s = []"
  by (fastforce simp: tokenless_def get_session_def split: if_splits option.splits)

lemma tokenless_token:
  assumes "tokenless st"
  shows "snd (get_token_from_session env session_id st) = st"
    and "fst (get_token_from_session env session_id st) = Inr token \<Longrightarrow> token = []"
  using tokenless_get [OF assms, of env session_id]
  by (auto simp: get_token_from_session_def split: sum.splits if_splits)

lemma tokenless_cookie: "tokenless st \<Longrightarrow> snd (validate_session_cookie env session_id st) = st"
  using tokenless_token(1) [of st env session_id]
  by (auto simp: validate_session_cookie_def split: prod.split sum.split option.split)

lemma tokenless_step: "jwt_step st st' \<Longrightarrow> tokenless st \<Longrightarrow> tokenless st'"
proof (induction rule: jwt_step.induct)
  case (2 st env session_id)
  then show ?case by (auto simp: tokenless_def delete_session_def delete_conv' split: if_splits)
next
  case (3 st env header cookie)
  then show ?case
    by (auto simp: validate_authentication_def middleware_api_key_def tokenless_cookie tokenless_def
        split: option.splits prod.split sum.split)
qed (rule tokenless_store)

text \<open>
  the session cookie never authenticates anybody. A session is stored as JSON, which leaves
  its tokens out, so whatever logins, logouts and requests came before, the token of a stored
  session is empty and there is none to refresh it with: with a provider that rejects the empty
  token, every request that relies on the cookie is refused, live and expired sessions alike.
\<close>

theorem session_cookie_never_authenticates:
  assumes "jwt_step\<^sup>*\<^sup>* st0 st" and "js_redis st0 = []" and "middleware_token env [] = None"
    and "\<not> has_prefix header ''Bearer ''" and "\<not> has_prefix header ''ApiKey ''"
  shows "\<not> is_ok (fst (validate_authentication env header (Some session_id) st))"
proof -
  have "tokenless st0" using assms(2) by (simp add: tokenless_def)
  with assms(1) have "tokenless st"
    by (induction rule: rtranclp_induct) (blast intro: tokenless_step)+
  note token = tokenless_token(2) [OF this, of env session_id]
  have "\<not> is_ok (fst (validate_session_cookie env session_id st))"
  proof (cases "fst (get_token_from_session env session_id st)")
    case (Inl e)
    then show ?thesis by (simp add: validate_session_cookie_def split_beta)
  next
    case (Inr t)
    with token assms(3) show ?thesis by (simp add: validate_session_cookie_def split_beta)
  qed
  moreover have "fst (validate_authentication env header (Some session_id) st) =
      (if session_id = [] then Inl NoAuthentication else fst (validate_session_cookie env session_id st))"
    unfolding validate_authentication_def using assms(4,5) by (simp only: if_False option.case) simp
  ultimately show ?thesis by simp
qed

definition example_jwt_env :: "bool \<Rightarrow> jwt_env" where
  "example_jwt_env oauth2 =
     \<lparr>je_now = 1, je_redis_up = True,
      je_oidc = \<lparr>od_verify = (\<lambda>t. if t = ''good'' then Some \<lparr>tk_subject = ''u'', tk_email = [], tk_username = [], tk_realm_roles = []\<rparr> else None),
                 od_user_info = (\<lambda>_. None), od_refresh = (\<lambda>_. None)\<rparr>,
      je_oauth2 = oauth2, je_keys = None\<rparr>"

definition example_session :: user_session where
  "example_session = \<lparr>se_id = ''s'', se_user_id = ''u'', se_access_token = ''good'', se_refresh_token = ''r'',
     se_id_token = ''good'', se_expires_at = 9\<rparr>"

definition example_jwt_state :: jwt_state where
  "example_jwt_state = \<lparr>js_redis = [], js_keys = []\<rparr>"

lemma session_cookie_never_authenticates_witness:
  "\<not> is_ok (fst (validate_authentication (example_jwt_env False) [] (Some ''s'')
     (snd (store_session (example_jwt_env False) ''s'' example_session example_jwt_state))))"
proof (rule session_cookie_never_authenticates)
  show "jwt_step\<^sup>*\<^sup>* example_jwt_state (snd (store_session (example_jwt_env False) ''s'' example_session example_jwt_state))"
    by (rule r_into_rtranclp, rule jwt_step.intros)
  show "js_redis example_jwt_state = []" by (simp add: example_jwt_state_def)
qed code_simp+

lemma unverified_token_has_no_rights_witness:
  "fst (validate_authentication (example_jwt_env True) (''Bearer '' @ ''bad'') None example_jwt_state) \<noteq> Inl InvalidBearer"
proof -
  have "middleware_token (example_jwt_env True) ''bad'' = None" and "je_oauth2 (example_jwt_env True)"
    by code_simp+
  from unverified_token_has_no_rights [OF this, of None example_jwt_state "[]" "[]" "[]"]
  show ?thesis by (elim exE conjE) (simp only: fst_conv, simp)
qed

section \<open>The life of an API key\<close>

lemma byte_bound: "unat (b :: byte) < 256"
  using unsigned_less [of b] by simp

lemma hex_digit_no_dot [simp]:
  assumes "n < 16"
  shows "CHR ''.'' \<noteq> hex_digit n"
proof -
  have "\<forall>n \<in> set [0..<16]. CHR ''.'' \<noteq> hex_digit n" by code_simp
  then show ?thesis using assms by simp
qed

lemma hex_no_dot: "CHR ''.'' \<notin> set (hex_encode bs)"
proof -
  have "unat b div 16 < 16" "unat b mod 16 < 16" for b :: byte
    using byte_bound [of b] by (simp_all add: div_less_iff_less_mult)
  then show ?thesis by (simp add: hex_encode_def)
qed

lemma base64_digit_no_dot [simp]:
  assumes "n < 64"
  shows "CHR ''.'' \<noteq> base64_digit n"
proof -
  have "\<forall>n \<in> set [0..<64]. CHR ''.'' \<noteq> base64_digit n" by code_simp
  then show ?thesis using assms by simp
qed

lemma base64_no_dot: "CHR ''.'' \<notin> set (base64_url bs)"
proof (induction bs rule: base64_url.induct)
  case (1 a b c bs)
  have "unat a * 65536 + unat b * 256 + unat c < 16777216"
    using byte_bound [of a] byte_bound [of b] byte_bound [of c] by simp
  then have "(unat a * 65536 + unat b * 256 + unat c) div 262144 < 64" by (simp add: div_less_iff_less_mult)
  with 1 show ?case by (simp add: Let_def)
next
  case (2 a b)
  have "unat a * 1024 + unat b * 4 < 262144" using byte_bound [of a] byte_bound [of b] by simp
  then have "(unat a * 1024 + unat b * 4) div 4096 < 64" by (simp add: div_less_iff_less_mult)
  then show ?case by (simp add: Let_def)
next
  case (3 a)
  have "unat a * 16 div 64 < 64" using byte_bound [of a] by (simp add: div_less_iff_less_mult)
  then show ?case by (simp add: Let_def)
qed simp

text \<open>The two parts of a key.\<close>

lemma key_parts: "split_on CHR ''.'' (generate_key_id r1 @ ''.'' @ generate_key_secret r2) = [generate_key_id r1, generate_key_secret r2]"
proof -
  have "CHR ''.'' \<notin> set (generate_key_id r1)" using hex_no_dot by (simp add: generate_key_id_def)
  from split_on_append [OF this, of "generate_key_secret r2"] show ?thesis
    by (simp add: split_on_id base64_no_dot generate_key_secret_def)
qed

datatype key_op =
    CreateKey uuid string string "string list" "time option"
  | UseKey string
  | RevokeKey string uuid
  | UpdateKey string uuid string string "string list"

fun key_apply :: "key_env \<times> key_op \<Rightarrow> api_key list \<Rightarrow> api_key list" where
  "key_apply (env, CreateKey user name description scopes expires) db = snd (create_api_key env user name description scopes expires db)"
| "key_apply (env, UseKey presented) db = snd (validate_api_key env presented db)"
| "key_apply (env, RevokeKey key_id user) db = snd (revoke_api_key env key_id user db)"
| "key_apply (env, UpdateKey key_id user name description scopes) db = snd (update_api_key env key_id user name description scopes db)"

section \<open>Keys that live and keys that are revoked\<close>

definition key_row :: "string \<Rightarrow> api_key list \<Rightarrow> api_key option" where
  "key_row key_id db = find (\<lambda>k. ak_key_id k = key_id) db"

definition unique_keys :: "api_key list \<Rightarrow> bool" where
  "unique_keys db \<longleftrightarrow> distinct (map ak_key_id db)"

lemma key_row_map:
  "(\<And>k. ak_key_id (f k) = ak_key_id k) \<Longrightarrow> key_row key_id (map f db) = map_option f (key_row key_id db)"
  by (induction db) (simp_all add: key_row_def)

lemma unique_keys_map: "(\<And>k. ak_key_id (f k) = ak_key_id k) \<Longrightarrow> unique_keys (map f db) = unique_keys db"
  by (simp add: unique_keys_def comp_def)

lemma key_row_id: "key_row key_id db = Some k \<Longrightarrow> ak_key_id k = key_id \<and> k \<in> set db"
  by (auto simp: key_row_def dest: find_SomeD)

lemma find_active:
  assumes "unique_keys db"
  shows "find (\<lambda>k. ak_key_id k = key_id \<and> ak_is_active k) db
     = (case key_row key_id db of None \<Rightarrow> None | Some k \<Rightarrow> if ak_is_active k then Some k else None)"
  using assms
proof (induction db)
  case (Cons k db)
  have "find (\<lambda>k. ak_key_id k = key_id \<and> ak_is_active k) db = None" if "ak_key_id k = key_id"
    using Cons.prems that unfolding find_None_iff by (metis distinct.simps(2) image_eqI list.simps(9) set_map unique_keys_def)
  with Cons show ?case by (auto simp: unique_keys_def key_row_def)
qed (simp add: key_row_def)

lemma created_key:
  assumes "create_api_key env user name description scopes expires db = (Inr (key, full), db')"
  obtains r1 r2 where "full = generate_key_id r1 @ ''.'' @ generate_key_secret r2" and "ak_key_id key = generate_key_id r1"
    and "db' = key # db" and "ak_key_id key \<notin> set (map ak_key_id db)" and "ak_is_active key"
    and "bc_generate (ke_bcrypt env) (ke_salt env) full = Some (ak_key_hash key)"
    and "ak_scopes key = (if scopes = [] then [''read''] else scopes)" and "ak_user_id key = user" and "ak_expires_at key = expires"
  using assms
  by (auto simp: create_api_key_def validate_api_key_scopes_def Let_def intro!: that
      split: option.splits sum.splits if_splits prod.splits)

lemma snd_create:
  "snd (create_api_key env user name description scopes expires db) = db
   \<or> (\<exists>key. snd (create_api_key env user name description scopes expires db) = key # db \<and> ak_key_id key \<notin> set (map ak_key_id db))"
  by (auto simp: create_api_key_def Let_def split: option.split sum.split)

lemma snd_validate:
  "snd (validate_api_key env presented db) = db \<or> (\<exists>key_id. snd (validate_api_key env presented db) = update_last_used env key_id db)"
  by (auto simp: validate_api_key_def Let_def split: option.split)

lemma key_row_Cons: "ak_key_id key \<notin> set (map ak_key_id db) \<Longrightarrow> key_row key_id db = Some k \<Longrightarrow> key_row key_id (key # db) = Some k"
  using key_row_id [of key_id db k] by (auto simp: key_row_def)

text \<open>The key an operation revokes or changes, and the user in whose name.\<close>

fun op_owner :: "key_op \<Rightarrow> (string \<times> uuid) option" where
  "op_owner (RevokeKey key_id user) = Some (key_id, user)"
| "op_owner (UpdateKey key_id user _ _ _) = Some (key_id, user)"
| "op_owner _ = None"

text \<open>A property of a row that the operations keep, as long as they keep it in every row they touch.\<close>

definition row_holds :: "(api_key \<Rightarrow> bool) \<Rightarrow> string \<Rightarrow> api_key list \<Rightarrow> bool" where
  "row_holds P key_id db \<longleftrightarrow> unique_keys db \<and> (\<exists>k. key_row key_id db = Some k \<and> P k)"

lemma row_holds_map:
  assumes "row_holds P key_id db" and "\<And>k. ak_key_id (f k) = ak_key_id k" and "\<And>k. P k \<Longrightarrow> ak_key_id k = key_id \<Longrightarrow> P (f k)"
  shows "row_holds P key_id (map f db)"
  using assms by (auto simp: row_holds_def key_row_map unique_keys_map dest: key_row_id)

definition keeps :: "(api_key \<Rightarrow> bool) \<Rightarrow> string \<Rightarrow> key_op \<Rightarrow> bool" where
  "keeps P key_id op \<longleftrightarrow>
     (\<forall>k t. P k \<longrightarrow> P (k\<lparr>ak_last_used_at := t\<rparr>))
     \<and> (\<forall>k t. op = RevokeKey key_id (ak_user_id k) \<longrightarrow> P k \<longrightarrow> P (k\<lparr>ak_is_active := False, ak_updated_at := t\<rparr>))
     \<and> (\<forall>k t name d scopes valid. op = UpdateKey key_id (ak_user_id k) name d scopes \<longrightarrow> P k
          \<longrightarrow> P (k\<lparr>ak_name := name, ak_description := d, ak_scopes := valid, ak_updated_at := t\<rparr>))"

lemma row_holds_apply:
  assumes "row_holds P key_id db" and "keeps P key_id op"
  shows "row_holds P key_id (key_apply (env, op) db)"
proof (cases op)
  case (CreateKey user name description scopes expires)
  with snd_create [of env user name description scopes expires db] assms(1) show ?thesis
    by (auto simp: row_holds_def key_row_Cons unique_keys_def)
next
  case (UseKey presented)
  with snd_validate [of env presented db] assms show ?thesis
    by (auto simp: update_last_used_def keeps_def intro!: row_holds_map)
next
  case (RevokeKey key_id' user)
  with assms show ?thesis
    by (auto simp: revoke_api_key_def keeps_def update_rows_def intro!: row_holds_map)
next
  case (UpdateKey key_id' user name d scopes)
  with assms show ?thesis
    by (auto simp: update_api_key_def keeps_def update_rows_def intro!: row_holds_map split: sum.split)
qed

lemma row_holds_run:
  "row_holds P key_id db \<Longrightarrow> \<forall>(env, op) \<in> set ops. keeps P key_id op \<Longrightarrow> row_holds P key_id (fold key_apply ops db)"
  by (induction ops arbitrary: db) (auto simp: row_holds_apply)

lemma validate_row:
  assumes "row_holds P (generate_key_id r1) db" and "ke_query_ok env" and "ke_arrays env"
  obtains k where "P k" and "key_row (generate_key_id r1) db = Some k"
    and "fst (validate_api_key env (generate_key_id r1 @ ''.'' @ generate_key_secret r2) db)
       = (if \<not> ak_is_active k then Inl UnknownKey
          else if (case ak_expires_at k of None \<Rightarrow> False | Some t \<Rightarrow> t < ke_now env) then Inl KeyExpired
          else if \<not> bc_compare (ke_bcrypt env) (ak_key_hash k) (generate_key_id r1 @ ''.'' @ generate_key_secret r2) then Inl WrongKey
          else Inr k)"
proof -
  obtain k where "P k" and row: "key_row (generate_key_id r1) db = Some k" and "unique_keys db"
    using assms(1) by (auto simp: row_holds_def)
  then have "find (\<lambda>k. ak_key_id k = generate_key_id r1 \<and> ak_is_active k) db = (if ak_is_active k then Some k else None)"
    by (simp add: find_active)
  with \<open>P k\<close> row show thesis using assms(2,3) key_parts [of r1 r2]
    by (intro that) (auto simp: validate_api_key_def Let_def split: option.split)
qed


text \<open>
  a revoked API key never works again: once its owner has revoked it, whatever keys are
  created, used, revoked and updated afterwards, every attempt to use it is refused.
\<close>

theorem revoked_api_key_stays_dead:
  assumes "create_api_key env user name description scopes expires db = (Inr (key, full), db1)"
    and "unique_keys db" and "\<forall>(e, op) \<in> set before. op_owner op \<noteq> Some (ak_key_id key, user)"
    and "revoke_api_key env2 (ak_key_id key) user (fold key_apply before db1) = (Inr (), db2)"
  shows "\<not> is_ok (fst (validate_api_key env' full (fold key_apply ops db2)))"
proof -
  obtain r1 r2 where c: "full = generate_key_id r1 @ ''.'' @ generate_key_secret r2" "ak_key_id key = generate_key_id r1"
    "db1 = key # db" "ak_key_id key \<notin> set (map ak_key_id db)" "ak_user_id key = user"
    by (rule created_key [OF assms(1)])
  have "row_holds (\<lambda>k. ak_user_id k = user) (generate_key_id r1) db1"
    using assms(2) c by (auto simp: row_holds_def key_row_def unique_keys_def)
  then have "row_holds (\<lambda>k. ak_user_id k = user) (generate_key_id r1) (fold key_apply before db1)"
    by (rule row_holds_run) (auto simp: keeps_def)
  then have "row_holds (\<lambda>k. \<not> ak_is_active k) (generate_key_id r1) db2"
    using assms(4) c(2)
    by (auto simp: revoke_api_key_def update_rows_def row_holds_def key_row_map unique_keys_map split: if_splits dest: key_row_id)
  then have "row_holds (\<lambda>k. \<not> ak_is_active k) (generate_key_id r1) (fold key_apply ops db2)"
    by (rule row_holds_run) (auto simp: keeps_def)
  then obtain k where "\<not> ak_is_active k" and "key_row (generate_key_id r1) (fold key_apply ops db2) = Some k"
    and "unique_keys (fold key_apply ops db2)" by (auto simp: row_holds_def)
  then have "find (\<lambda>k. ak_key_id k = generate_key_id r1 \<and> ak_is_active k) (fold key_apply ops db2) = None"
    by (simp add: find_active)
  then show ?thesis using key_parts [of r1 r2] by (simp add: c(1) validate_api_key_def Let_def)
qed

definition example_key_env :: "byte \<Rightarrow> key_env" where
  "example_key_env b = \<lparr>ke_now = 0, ke_random = Some ([b], [b, b, b]), ke_salt = [],
     ke_bcrypt = \<lparr>bc_generate = (\<lambda>_ pw. Some pw), bc_compare = (\<lambda>h pw. h = pw)\<rparr>,
     ke_available = Some [''read'', ''write''], ke_arrays = True, ke_query_ok = True, ke_exec_ok = True\<rparr>"

definition example_created :: "(key_error + api_key \<times> string) \<times> api_key list" where
  "example_created = create_api_key (example_key_env 7) ''alice'' ''ci'' [] [''write''] None []"

definition example_ops :: "(key_env \<times> key_op) list" where
  "example_ops = [(example_key_env 9, CreateKey ''bob'' ''x'' [] [] None), (example_key_env 9, RevokeKey ''sk_07'' ''bob'')]"

definition example_revoked :: "(key_error + unit) \<times> api_key list" where
  "example_revoked = revoke_api_key (example_key_env 0) ''sk_07'' ''alice'' (snd example_created)"

lemma example_key_text: "generate_key_id [7] = ''sk_07''" "generate_key_secret [7, 7, 7] = ''BwcH''"
  by (simp_all add: generate_key_id_def hex_encode_def hex_digit_def generate_key_secret_def base64_digit_def char_of_def bit_0)

lemma example_scopes: "validate_api_key_scopes (example_key_env 7) [''write''] = Inr [''write'']"
  by (simp add: validate_api_key_scopes_def example_key_env_def)

definition example_key :: api_key where
  "example_key = \<lparr>ak_key_id = ''sk_07'', ak_key_hash = ''sk_07.BwcH'', ak_name = ''ci'', ak_description = [],
     ak_scopes = [''write''], ak_user_id = ''alice'', ak_is_active = True, ak_expires_at = None,
     ak_last_used_at = None, ak_created_at = 0, ak_updated_at = 0\<rparr>"

lemma example_created_ok:
  "create_api_key (example_key_env 7) ''alice'' ''ci'' [] [''write''] None [] = (Inr (example_key, ''sk_07.BwcH''), [example_key])"
  by (unfold create_api_key_def example_scopes) (simp add: example_key_env_def example_key_text example_key_def Let_def)

lemma example_created_rows: "snd example_created = [example_key]"
  by (simp only: example_created_def example_created_ok snd_conv)

lemma example_bcrypt: "bcrypt_laws (ke_bcrypt (example_key_env 7))" "unique_keys []"
  by (simp_all add: bcrypt_laws_def example_key_env_def unique_keys_def)


lemma revoked_api_key_stays_dead_witness:
  "\<not> is_ok (fst (validate_api_key (example_key_env 0) ''sk_07.BwcH'' (fold key_apply example_ops (snd example_revoked))))"
proof -
  have none: "\<forall>(e, op) \<in> set []. op_owner op \<noteq> Some (ak_key_id example_key, ''alice'')" by simp
  have "fst example_revoked = Inr ()"
    by (simp add: example_revoked_def revoke_api_key_def update_rows_def example_created_rows)
       (simp add: example_key_env_def example_key_def)
  then have "revoke_api_key (example_key_env 0) (ak_key_id example_key) ''alice'' (fold key_apply [] [example_key])
      = (Inr (), snd example_revoked)"
    by (simp add: example_key_def prod_eq_iff) (simp add: example_revoked_def example_created_rows example_key_def)
  then show ?thesis by (rule revoked_api_key_stays_dead [OF example_created_ok example_bcrypt(2) none])
qed

text \<open>The user in the context of an API key is the bytes of the identifier, never an identifier.\<close>

lemma api_key_user_is_unreadable: "hd u \<noteq> CHR ''['' \<Longrightarrow> uuid_in_decimal u \<noteq> u"
proof
  assume "hd u \<noteq> CHR ''[''" and "uuid_in_decimal u = u"
  moreover have "hd (uuid_in_decimal u) = CHR ''[''" by (simp add: uuid_in_decimal_def)
  ultimately show False by simp
qed

lemma uuid_in_decimal_example:
  "uuid_in_decimal ''00000000-0000-0000-0000-0000000000ff'' = ''[0 0 0 0 0 0 0 0 0 0 0 0 0 0 0 255]''"
  by code_simp

text \<open>With a driver that does not convert string arrays no key can be made and none is accepted.\<close>

lemma no_array_support_no_keys:
  assumes "\<not> ke_arrays env"
  shows "\<not> is_ok (fst (create_api_key env user name description scopes expires db))"
    and "\<not> is_ok (fst (validate_api_key env presented db))"
  using assms by (auto simp: create_api_key_def validate_api_key_def Let_def split: option.split sum.split)

text \<open>A scope guard lets every user through, whatever the scope.\<close>

lemma scope_guard_ignores_users: "is_user_auth c \<Longrightarrow> require_scope scopes (Some c) = None"
  by (simp add: require_scope_def)

end
