(* ===== verification/Registry.thy ===== *)
theory Registry
  imports GoLib "HOL-Library.List_Lexorder" "HOL-Library.Char_ord"
begin

text \<open>
  The container registry: manifests and blobs of the distribution protocol
  (internal/storage/oci_handler.go) and the handlers in front of it
  (internal/api/docker_registry_handler.go). The registry saves space with hard links, so the
  files are modelled with their inodes: two names of one inode share their bytes.
\<close>

section \<open>Files and hard links\<close>

record inode_fs =
  fs_names :: "(path \<times> nat) list"
  fs_data :: "(nat \<times> bytes) list"
  fs_next :: nat

definition fs_exists :: "path \<Rightarrow> inode_fs \<Rightarrow> bool" where
  "fs_exists p fs \<longleftrightarrow> map_of (fs_names fs) p \<noteq> None"

definition fs_read :: "path \<Rightarrow> inode_fs \<Rightarrow> bytes option" where
  "fs_read p fs = (case map_of (fs_names fs) p of None \<Rightarrow> None | Some i \<Rightarrow> map_of (fs_data fs) i)"

text \<open>Opening for writing truncates the inode the name has, or makes a new one; then bytes are written.\<close>

definition fs_store :: "path \<Rightarrow> bytes \<Rightarrow> inode_fs \<Rightarrow> inode_fs" where
  "fs_store p bs fs =
     (case map_of (fs_names fs) p of
        Some i \<Rightarrow> fs\<lparr>fs_data := AList.update i bs (fs_data fs)\<rparr>
      | None \<Rightarrow> \<lparr>fs_names = AList.update p (fs_next fs) (fs_names fs),
                 fs_data = AList.update (fs_next fs) bs (fs_data fs), fs_next = fs_next fs + 1\<rparr>)"

definition fs_remove :: "path \<Rightarrow> inode_fs \<Rightarrow> inode_fs" where
  "fs_remove p fs = fs\<lparr>fs_names := AList.delete p (fs_names fs)\<rparr>"

section \<open>State\<close>

text \<open>
  During one call: SHA-256 in hexadecimal, the JSON decoder (a manifest, and the media type of any
  object), which directories can be made, which names can be opened for writing, reading and be
  removed, how much of a file is written (\<open>None\<close>: all of it), and whether the file system has hard
  links. A stream gives its bytes and whether it ended well.
\<close>

record oci_descriptor =
  od_media_type :: string
  od_digest :: string
  od_size :: int

record oci_manifest =
  om_schema_version :: int
  om_media_type :: string
  om_config :: oci_descriptor
  om_layers :: "oci_descriptor list"

record registry_env =
  oe_sha :: "bytes \<Rightarrow> string"
  oe_manifest :: "bytes \<Rightarrow> oci_manifest option"
  oe_media_type :: "bytes \<Rightarrow> string option option"
  oe_mkdir :: "path \<Rightarrow> bool"
  oe_create :: "path \<Rightarrow> bool"
  oe_short :: "path \<Rightarrow> nat option"
  oe_open :: "path \<Rightarrow> bool"
  oe_remove :: "path \<Rightarrow> bool"
  oe_links :: bool

type_synonym blob_stream = "bytes \<times> bool"

record registry_api =
  ra_base :: path

datatype registry_error =
    InvalidManifestJson | UnsupportedSchema int | InvalidMediaType string | InvalidConfigDigest string
  | InvalidLayerDigest string | InvalidReference string
  | ManifestDirFailed | ManifestWriteFailed | TagUpdateFailed
  | ManifestNotFound string | ManifestReadFailed | ManifestNotJson
  | BlobDirFailed | BlobCreateFailed | BlobWriteFailed | DigestMismatch string string
  | BlobNotFound string | BlobOpenFailed | ManifestDeleteFailed

definition get_manifest_path :: "registry_api \<Rightarrow> string \<Rightarrow> string \<Rightarrow> path" where
  "get_manifest_path r name ref = path_join (ra_base r) [''v2'', name, ''manifests'', ref]"

definition get_blob_path :: "registry_api \<Rightarrow> string \<Rightarrow> string \<Rightarrow> path" where
  "get_blob_path r name digest = path_join (ra_base r) [''v2'', name, ''blobs'', digest]"

text \<open>The path in the content-addressed store; \<open>None\<close> for a digest without a colon.\<close>

definition cas_path :: "registry_api \<Rightarrow> string \<Rightarrow> path option" where
  "cas_path r digest =
     (if CHR '':'' \<notin> set digest then None
      else let algorithm = before_char CHR '':'' digest;
               encoded = drop (length algorithm + 1) digest
           in Some (if length encoded < 2 then path_join (ra_base r) [''cas'', algorithm, encoded]
                    else path_join (ra_base r) [''cas'', algorithm, take 2 encoded, digest]))"

section \<open>Validation\<close>

text \<open>In \<^verbatim>\<open>[+.-_]\<close> the hyphen makes a range, from the full stop to the underscore.\<close>

definition is_separator :: "char \<Rightarrow> bool" where
  "is_separator c \<longleftrightarrow> c = CHR ''+'' \<or> char_between CHR ''.'' CHR ''_'' c"

text \<open>
  \<^verbatim>\<open>[a-z0-9]+([+.-_][a-z0-9]+)*\<close>: runs of lower-case letters and digits with one separator between
  two of them (a digit, which is a separator too, only prolongs a run). \<open>sep\<close>: a run has just ended.
\<close>

fun matches_runs :: "bool \<Rightarrow> string \<Rightarrow> bool" where
  "matches_runs sep [] = (\<not> sep)"
| "matches_runs sep (c # cs) =
     (if is_lower_alnum c then matches_runs False cs
      else \<not> sep \<and> is_separator c \<and> matches_runs True cs)"

text \<open>The encoded part has no colon, so it starts after the last one.\<close>

definition valid_digest :: "string \<Rightarrow> bool" where
  "valid_digest s =
     (let encoded = rev (takeWhile (\<lambda>c. c \<noteq> CHR '':'') (rev s))
      in CHR '':'' \<in> set s \<and> encoded \<noteq> []
         \<and> list_all (\<lambda>c. is_alnum c \<or> c = CHR ''='' \<or> c = CHR ''_'' \<or> c = CHR ''-'') encoded
         \<and> matches_runs True (take (length s - length encoded - 1) s))"

definition valid_tag :: "string \<Rightarrow> bool" where
  "valid_tag s =
     (case s of
        [] \<Rightarrow> False
      | c # cs \<Rightarrow> (is_alnum c \<or> c = CHR ''_'') \<and> length cs \<le> 127
                  \<and> list_all (\<lambda>c. is_alnum c \<or> c = CHR ''.'' \<or> c = CHR ''_'' \<or> c = CHR ''-'') cs)"

definition manifest_media_types :: "string list" where
  "manifest_media_types =
     [''application/vnd.docker.distribution.manifest.v2+json'', ''application/vnd.oci.image.manifest.v1+json'',
      ''application/vnd.docker.distribution.manifest.list.v2+json'', ''application/vnd.oci.image.index.v1+json'']"

definition validate_manifest :: "registry_env \<Rightarrow> bytes \<Rightarrow> registry_error option" where
  "validate_manifest env data =
     (case oe_manifest env data of
        None \<Rightarrow> Some InvalidManifestJson
      | Some m \<Rightarrow>
          if om_schema_version m \<noteq> 2 then Some (UnsupportedSchema (om_schema_version m))
          else if om_media_type m \<notin> set manifest_media_types then Some (InvalidMediaType (om_media_type m))
          else if \<not> valid_digest (od_digest (om_config m)) then Some (InvalidConfigDigest (od_digest (om_config m)))
          else map_option (\<lambda>l. InvalidLayerDigest (od_digest l)) (find (\<lambda>l. \<not> valid_digest (od_digest l)) (om_layers m)))"

definition validate_reference :: "string \<Rightarrow> registry_error option" where
  "validate_reference ref = (if valid_tag ref \<or> valid_digest ref then None else Some (InvalidReference ref))"

text \<open>The number of layers and the sum of the sizes, which wraps around.\<close>

definition manifest_total_size :: "oci_manifest \<Rightarrow> int" where
  "manifest_total_size m = fold (\<lambda>l acc. wrap64 (acc + od_size l)) (om_layers m) (od_size (om_config m))"

definition supports_multi_arch :: "registry_env \<Rightarrow> bytes \<Rightarrow> bool option" where
  "supports_multi_arch env data =
     (case oe_media_type env data of
        None \<Rightarrow> None
      | Some None \<Rightarrow> Some False
      | Some (Some t) \<Rightarrow> Some (t = ''application/vnd.docker.distribution.manifest.list.v2+json''
                               \<or> t = ''application/vnd.oci.image.index.v1+json''))"

section \<open>Operations\<close>

definition digest_of :: "registry_env \<Rightarrow> bytes \<Rightarrow> string" where
  "digest_of env bs = ''sha256:'' @ oe_sha env bs"

text \<open>Writing a file: what is left when the write stops short, and whether it did not.\<close>

definition write_whole :: "registry_env \<Rightarrow> path \<Rightarrow> bytes \<Rightarrow> inode_fs \<Rightarrow> bool \<times> inode_fs" where
  "write_whole env p bs fs =
     (case oe_short env p of
        None \<Rightarrow> (True, fs_store p bs fs)
      | Some n \<Rightarrow> (False, fs_store p (take n bs) fs))"

text \<open>The source is opened first, then the target is truncated, then the bytes are copied.\<close>

definition copy_file :: "registry_env \<Rightarrow> path \<Rightarrow> path \<Rightarrow> inode_fs \<Rightarrow> bool \<times> inode_fs" where
  "copy_file env src dst fs =
     (if \<not> oe_open env src \<or> \<not> fs_exists src fs \<or> \<not> oe_mkdir env (butlast dst) \<or> \<not> oe_create env dst then (False, fs)
      else let fs = fs_store dst [] fs
           in case fs_read src fs of None \<Rightarrow> (False, fs) | Some bs \<Rightarrow> write_whole env dst bs fs)"

definition link_file :: "registry_env \<Rightarrow> path \<Rightarrow> path \<Rightarrow> inode_fs \<Rightarrow> inode_fs option" where
  "link_file env old new fs =
     (case map_of (fs_names fs) old of
        None \<Rightarrow> None
      | Some i \<Rightarrow> if \<not> oe_links env \<or> fs_exists new fs then None
                 else Some (fs\<lparr>fs_names := AList.update new i (fs_names fs)\<rparr>))"

definition link_or_copy :: "registry_env \<Rightarrow> path \<Rightarrow> path \<Rightarrow> inode_fs \<Rightarrow> bool \<times> inode_fs" where
  "link_or_copy env old new fs =
     (case link_file env old new fs of Some fs \<Rightarrow> (True, fs) | None \<Rightarrow> copy_file env old new fs)"

definition update_tag_reference :: "registry_env \<Rightarrow> registry_api \<Rightarrow> string \<Rightarrow> string \<Rightarrow> bytes \<Rightarrow> inode_fs \<Rightarrow> bool \<times> inode_fs" where
  "update_tag_reference env r name tag manifest fs =
     (let digest_path = get_manifest_path r name (digest_of env manifest)
      in if \<not> oe_mkdir env (butlast digest_path) then (False, fs)
         else link_or_copy env (get_manifest_path r name tag) digest_path fs)"

definition put_manifest ::
  "registry_env \<Rightarrow> registry_api \<Rightarrow> string \<Rightarrow> string \<Rightarrow> bytes \<Rightarrow> inode_fs \<Rightarrow> (registry_error + unit) \<times> inode_fs" where
  "put_manifest env r name ref manifest fs =
     (case validate_manifest env manifest of
        Some e \<Rightarrow> (Inl e, fs)
      | None \<Rightarrow>
          (case validate_reference ref of
             Some e \<Rightarrow> (Inl e, fs)
           | None \<Rightarrow>
               let p = get_manifest_path r name ref
               in if \<not> oe_mkdir env (butlast p) then (Inl ManifestDirFailed, fs)
                  else if \<not> oe_create env p then (Inl ManifestWriteFailed, fs)
                  else case write_whole env p manifest fs of
                    (False, fs) \<Rightarrow> (Inl ManifestWriteFailed, fs)
                  | (True, fs) \<Rightarrow>
                      if CHR '':'' \<in> set ref then (Inr (), fs)
                      else case update_tag_reference env r name ref manifest fs of
                        (ok, fs) \<Rightarrow> (if ok then Inr () else Inl TagUpdateFailed, fs)))"

definition get_manifest :: "registry_env \<Rightarrow> registry_api \<Rightarrow> string \<Rightarrow> string \<Rightarrow> inode_fs \<Rightarrow> registry_error + bytes \<times> string" where
  "get_manifest env r name ref fs =
     (let p = get_manifest_path r name ref
      in if \<not> fs_exists p fs then Inl (ManifestNotFound ref)
         else case (if oe_open env p then fs_read p fs else None) of
           None \<Rightarrow> Inl ManifestReadFailed
         | Some data \<Rightarrow>
             (case oe_media_type env data of
                None \<Rightarrow> Inl ManifestNotJson
              | Some None \<Rightarrow> Inr (data, ''application/vnd.docker.distribution.manifest.v2+json'')
              | Some (Some t) \<Rightarrow> Inr (data, t)))"

definition delete_manifest :: "registry_env \<Rightarrow> registry_api \<Rightarrow> string \<Rightarrow> string \<Rightarrow> inode_fs \<Rightarrow> (registry_error + unit) \<times> inode_fs" where
  "delete_manifest env r name ref fs =
     (let p = get_manifest_path r name ref
      in if \<not> fs_exists p fs then (Inl (ManifestNotFound ref), fs)
         else if \<not> oe_remove env p then (Inl ManifestDeleteFailed, fs)
         else let fs = fs_remove p fs
              in if CHR '':'' \<in> set ref then (Inr (), fs)
                 else case (if oe_open env p then fs_read p fs else None) of
                   None \<Rightarrow> (Inr (), fs)
                 | Some data \<Rightarrow>
                     let q = get_manifest_path r name (digest_of env data)
                     in (Inr (), if oe_remove env q then fs_remove q fs else fs))"

definition remove_if_allowed :: "registry_env \<Rightarrow> path \<Rightarrow> inode_fs \<Rightarrow> inode_fs" where
  "remove_if_allowed env p fs = (if oe_remove env p then fs_remove p fs else fs)"

definition put_blob ::
  "registry_env \<Rightarrow> registry_api \<Rightarrow> string \<Rightarrow> string \<Rightarrow> blob_stream \<Rightarrow> inode_fs \<Rightarrow> (registry_error + unit) \<times> inode_fs" where
  "put_blob env r name digest stream fs =
     (let p = get_blob_path r name digest;
          (bs, complete) = stream
      in if \<not> oe_mkdir env (butlast p) then (Inl BlobDirFailed, fs)
         else if \<not> oe_create env p then (Inl BlobCreateFailed, fs)
         else case write_whole env p bs (fs_store p [] fs) of
           (written, fs) \<Rightarrow>
             if \<not> written \<or> \<not> complete then (Inl BlobWriteFailed, remove_if_allowed env p fs)
             else if digest_of env bs \<noteq> digest
             then (Inl (DigestMismatch digest (digest_of env bs)), remove_if_allowed env p fs)
             else (Inr (), (case cas_path r digest of
                              None \<Rightarrow> fs
                            | Some q \<Rightarrow>
                                if q = p \<or> \<not> oe_mkdir env (butlast q) then fs
                                else snd (link_or_copy env p q fs))))"

definition get_blob :: "registry_env \<Rightarrow> registry_api \<Rightarrow> string \<Rightarrow> string \<Rightarrow> inode_fs \<Rightarrow> registry_error + bytes" where
  "get_blob env r name digest fs =
     (let p = get_blob_path r name digest;
          found = (if fs_exists p fs then Some p
                   else case cas_path r digest of
                          None \<Rightarrow> None | Some q \<Rightarrow> if fs_exists q fs then Some q else None)
      in case found of
           None \<Rightarrow> Inl (BlobNotFound digest)
         | Some p \<Rightarrow> (case (if oe_open env p then fs_read p fs else None) of
                        None \<Rightarrow> Inl BlobOpenFailed | Some bs \<Rightarrow> Inr bs))"

text \<open>Whether a blob exists, and its size.\<close>

definition check_blob_exists :: "registry_api \<Rightarrow> string \<Rightarrow> string \<Rightarrow> inode_fs \<Rightarrow> int option" where
  "check_blob_exists r name digest fs =
     (let size = (\<lambda>p. map_option (\<lambda>bs. int (length bs)) (fs_read p fs))
      in case size (get_blob_path r name digest) of
           Some n \<Rightarrow> Some n
         | None \<Rightarrow> (case cas_path r digest of None \<Rightarrow> None | Some q \<Rightarrow> size q))"

text \<open>\<^verbatim>\<open>os.ReadDir\<close> gives the entries in the order of their names.\<close>

definition list_tags :: "registry_api \<Rightarrow> string \<Rightarrow> inode_fs \<Rightarrow> string list" where
  "list_tags r name fs =
     (let dir = path_join (ra_base r) [''v2'', name, ''manifests'']
      in filter (\<lambda>n. \<not> has_prefix n ''sha256:'')
           (sort (map last (filter (\<lambda>p. p \<noteq> [] \<and> butlast p = dir) (map fst (fs_names fs))))))"

section \<open>Handlers\<close>

datatype registry_reply =
    Status nat
  | ManifestFound bytes string "string option"
  | ManifestCreated string
  | BlobFound bytes string
  | BlobExists int string
  | UploadAccepted string
  | BlobCreated string

definition handle_get_manifest :: "registry_env \<Rightarrow> registry_api \<Rightarrow> string \<Rightarrow> string \<Rightarrow> inode_fs \<Rightarrow> registry_reply" where
  "handle_get_manifest env r name ref fs =
     (case get_manifest env r name ref fs of
        Inl (ManifestNotFound _) \<Rightarrow> Status 404
      | Inl _ \<Rightarrow> Status 500
      | Inr (data, media) \<Rightarrow>
          ManifestFound data media (if CHR '':'' \<in> set ref then None else Some (digest_of env data)))"

definition is_validation_error :: "registry_error \<Rightarrow> bool" where
  "is_validation_error e =
     (case e of InvalidManifestJson \<Rightarrow> True | UnsupportedSchema _ \<Rightarrow> True | InvalidMediaType _ \<Rightarrow> True
      | InvalidConfigDigest _ \<Rightarrow> True | InvalidLayerDigest _ \<Rightarrow> True | InvalidReference _ \<Rightarrow> True | _ \<Rightarrow> False)"

definition handle_put_manifest ::
  "registry_env \<Rightarrow> registry_api \<Rightarrow> string \<Rightarrow> string \<Rightarrow> bytes option \<Rightarrow> inode_fs \<Rightarrow> registry_reply \<times> inode_fs" where
  "handle_put_manifest env r name ref body fs =
     (case body of
        None \<Rightarrow> (Status 400, fs)
      | Some manifest \<Rightarrow>
          (case put_manifest env r name ref manifest fs of
             (Inl e, fs) \<Rightarrow> (Status (if is_validation_error e then 400 else 500), fs)
           | (Inr _, fs) \<Rightarrow> (ManifestCreated (digest_of env manifest), fs)))"

definition handle_delete_manifest :: "registry_env \<Rightarrow> registry_api \<Rightarrow> string \<Rightarrow> string \<Rightarrow> inode_fs \<Rightarrow> registry_reply \<times> inode_fs" where
  "handle_delete_manifest env r name ref fs =
     (case delete_manifest env r name ref fs of
        (Inl (ManifestNotFound _), fs) \<Rightarrow> (Status 404, fs)
      | (Inl _, fs) \<Rightarrow> (Status 500, fs)
      | (Inr _, fs) \<Rightarrow> (Status 202, fs))"

definition handle_get_blob :: "registry_env \<Rightarrow> registry_api \<Rightarrow> string \<Rightarrow> string \<Rightarrow> inode_fs \<Rightarrow> registry_reply" where
  "handle_get_blob env r name digest fs =
     (case get_blob env r name digest fs of
        Inl (BlobNotFound _) \<Rightarrow> Status 404
      | Inl _ \<Rightarrow> Status 500
      | Inr bs \<Rightarrow> BlobFound bs digest)"

definition handle_head_blob :: "registry_api \<Rightarrow> string \<Rightarrow> string \<Rightarrow> inode_fs \<Rightarrow> registry_reply" where
  "handle_head_blob r name digest fs =
     (case check_blob_exists r name digest fs of None \<Rightarrow> Status 404 | Some n \<Rightarrow> BlobExists n digest)"

text \<open>An upload is a name made from the clock; the bytes sent to it are not read.\<close>

definition handle_initiate_blob_upload :: "int \<Rightarrow> registry_reply" where
  "handle_initiate_blob_upload nanos = UploadAccepted (''upload-'' @ show_int nanos)"

definition handle_blob_upload :: "string \<Rightarrow> blob_stream \<Rightarrow> inode_fs \<Rightarrow> registry_reply \<times> inode_fs" where
  "handle_blob_upload upload stream fs = (UploadAccepted upload, fs)"

definition handle_complete_blob_upload ::
  "registry_env \<Rightarrow> registry_api \<Rightarrow> string \<Rightarrow> string \<Rightarrow> blob_stream \<Rightarrow> inode_fs \<Rightarrow> registry_reply \<times> inode_fs" where
  "handle_complete_blob_upload env r name digest stream fs =
     (if digest = [] then (Status 400, fs)
      else case put_blob env r name digest stream fs of
        (Inl (DigestMismatch _ _), fs) \<Rightarrow> (Status 400, fs)
      | (Inl _, fs) \<Rightarrow> (Status 500, fs)
      | (Inr _, fs) \<Rightarrow> (BlobCreated digest, fs))"

section \<open>Where things are stored\<close>

text \<open>What the documentation of SHA-256 and hexadecimal says of a hash.\<close>

definition hash_text :: "registry_env \<Rightarrow> bool" where
  "hash_text env \<longleftrightarrow> (\<forall>bs. 2 \<le> length (oe_sha env bs) \<and> list_all is_lower_alnum (oe_sha env bs))"

lemma lower_alnum_not:
  "\<not> is_lower_alnum CHR ''/''" "\<not> is_lower_alnum CHR '':''"
  by (simp_all add: is_lower_alnum_def char_between_def)

lemma hash_chars: "hash_text env \<Longrightarrow> CHR ''/'' \<notin> set (oe_sha env bs) \<and> CHR '':'' \<notin> set (oe_sha env bs)"
  using lower_alnum_not by (auto simp: hash_text_def list_all_iff)

lemma digest_plain: "hash_text env \<Longrightarrow> plain_name (digest_of env bs)"
  using hash_chars [of env bs] by (auto simp: plain_name_def digest_of_def)

lemma plain_literals:
  "plain_name ''v2''" "plain_name ''blobs''" "plain_name ''manifests''" "plain_name ''cas''" "plain_name ''sha256''"
  by (simp_all add: plain_name_def)

lemma split_plain: "plain_name n \<Longrightarrow> split_on CHR ''/'' n = [n]"
  by (simp add: plain_name_def split_on_id)

lemma blob_path_form:
  assumes "list_all plain_name (ra_base r)" and "plain_path name" and "plain_name digest"
  shows "get_blob_path r name digest = ra_base r @ ''v2'' # split_on CHR ''/'' name @ [''blobs'', digest]"
  using assms path_join_segments [of "ra_base r" "[''v2'', name, ''blobs'', digest]"]
  by (simp add: get_blob_path_def split_plain plain_literals plain_path_def)

lemma manifest_path_form:
  assumes "list_all plain_name (ra_base r)" and "plain_path name" and "plain_name ref"
  shows "get_manifest_path r name ref = ra_base r @ ''v2'' # split_on CHR ''/'' name @ [''manifests'', ref]"
  using assms path_join_segments [of "ra_base r" "[''v2'', name, ''manifests'', ref]"]
  by (simp add: get_manifest_path_def split_plain plain_literals plain_path_def)

lemma cas_path_form:
  assumes "list_all plain_name (ra_base r)" and "hash_text env"
  shows "cas_path r (digest_of env bs) = Some (ra_base r @ [''cas'', ''sha256'', take 2 (oe_sha env bs), digest_of env bs])"
proof -
  let ?h = "oe_sha env bs"
  have h: "2 \<le> length ?h" "CHR ''/'' \<notin> set ?h" using assms(2) hash_chars by (auto simp: hash_text_def)
  then have two: "plain_name (take 2 ?h)"
  proof -
    have "list_all is_lower_alnum (take 2 ?h)" using assms(2) by (auto simp: hash_text_def list_all_iff dest: in_set_takeD)
    moreover have "length (take 2 ?h) = 2" using h(1) by simp
    moreover have "\<not> is_lower_alnum CHR ''.''" by (simp add: is_lower_alnum_def char_between_def)
    ultimately show ?thesis using lower_alnum_not by (auto simp: plain_name_def list_all_iff)
  qed
  have alg: "before_char CHR '':'' (digest_of env bs) = ''sha256''"
    using before_char_append [of "CHR '':''" "''sha256''" ?h] by (simp add: digest_of_def)
  have enc: "drop (length ''sha256'' + 1) (digest_of env bs) = ?h" by (simp add: digest_of_def)
  have "cas_path r (digest_of env bs) = Some (path_join (ra_base r) [''cas'', ''sha256'', take 2 ?h, digest_of env bs])"
    using h(1) unfolding cas_path_def alg Let_def enc by (simp add: digest_of_def)
  moreover have "path_join (ra_base r) [''cas'', ''sha256'', take 2 ?h, digest_of env bs]
      = ra_base r @ [''cas'', ''sha256'', take 2 ?h, digest_of env bs]"
    using assms two digest_plain [OF assms(2)] plain_literals by (intro path_join_plain) simp_all
  ultimately show ?thesis by simp
qed

section \<open>Blobs and their links\<close>

text \<open>A quiet environment: nothing fails.\<close>

definition quiet :: "registry_env \<Rightarrow> bool" where
  "quiet env \<longleftrightarrow> (\<forall>p. oe_mkdir env p \<and> oe_create env p \<and> oe_short env p = None \<and> oe_open env p \<and> oe_remove env p)"

lemma fs_read_store [simp]: "fs_read p (fs_store p bs fs) = Some bs"
  by (simp add: fs_read_def fs_store_def split: option.split)

lemma fs_read_remove [simp]: "fs_read q (fs_remove p fs) = (if q = p then None else fs_read q fs)"
  by (simp add: fs_read_def fs_remove_def delete_conv' split: option.split)

lemma fs_exists_store [simp]: "fs_exists q (fs_store p bs fs) \<longleftrightarrow> q = p \<or> fs_exists q fs"
  by (auto simp: fs_exists_def fs_store_def split: option.split)

text \<open>Two names of one inode.\<close>

definition linked :: "path \<Rightarrow> path \<Rightarrow> inode_fs \<Rightarrow> bool" where
  "linked p q fs \<longleftrightarrow> (\<exists>i. map_of (fs_names fs) p = Some i \<and> map_of (fs_names fs) q = Some i)"

lemma linked_store_same: "linked p q fs \<Longrightarrow> linked p q (fs_store p bs fs) \<and> fs_read q (fs_store p bs fs) = Some bs
    \<and> linked p q (fs_store q bs fs) \<and> fs_read p (fs_store q bs fs) = Some bs"
  by (auto simp: linked_def fs_store_def fs_exists_def fs_read_def)

lemma link_fresh:
  assumes "quiet env" and "oe_links env" and "fs_exists p fs" and "\<not> fs_exists q fs"
  shows "\<exists>fs'. link_or_copy env p q fs = (True, fs') \<and> linked p q fs' \<and> fs_read p fs' = fs_read p fs \<and> fs_read q fs' = fs_read p fs
    \<and> (\<forall>x. fs_exists x fs' \<longrightarrow> x = q \<or> fs_exists x fs)"
  using assms by (auto simp: link_or_copy_def link_file_def linked_def fs_exists_def fs_read_def)

text \<open>Copying a file onto another name of itself leaves it empty.\<close>

lemma copy_onto_itself:
  assumes "quiet env" and "linked p q fs"
  shows "\<exists>fs'. link_or_copy env p q fs = (True, fs') \<and> linked p q fs' \<and> fs_read p fs' = Some [] \<and> fs_read q fs' = Some []"
proof -
  have e: "fs_exists q fs" "fs_exists p fs" using assms(2) by (auto simp: linked_def fs_exists_def)
  then have "link_file env p q fs = None" by (auto simp: link_file_def fs_exists_def)
  moreover have "fs_read p (fs_store q [] fs) = Some []" using linked_store_same [OF assms(2)] by blast
  moreover have l: "linked p q (fs_store q [] fs)" using linked_store_same [OF assms(2)] by blast
  ultimately show ?thesis
    using assms(1) e linked_store_same [OF l, of "[]"]
    by (simp add: link_or_copy_def copy_file_def quiet_def write_whole_def)
qed

lemma first_push:
  assumes "quiet env" and "oe_links env" and "cas_path r (digest_of env bs) = Some q" and "p = get_blob_path r name (digest_of env bs)"
    and "q \<noteq> p" and "\<not> fs_exists q fs"
  shows "\<exists>fs'. put_blob env r name (digest_of env bs) (bs, True) fs = (Inr (), fs') \<and> linked p q fs' \<and> fs_read p fs' = Some bs"
proof -
  let ?fs = "fs_store p bs (fs_store p [] fs)"
  have "\<exists>fs'. link_or_copy env p q ?fs = (True, fs') \<and> linked p q fs' \<and> fs_read p fs' = fs_read p ?fs"
    using link_fresh [OF assms(1,2), of p ?fs q] assms(5,6) by auto
  then show ?thesis using assms(1,3,5) by (auto simp: put_blob_def quiet_def write_whole_def assms(4) Let_def)
qed

lemma linked_read: "linked p q fs \<Longrightarrow> fs_read q fs = fs_read p fs"
  by (auto simp: linked_def fs_read_def)

lemma linked_exists: "linked p q fs \<Longrightarrow> fs_exists p fs \<and> fs_exists q fs"
  by (auto simp: linked_def fs_exists_def)

lemma linked_store_first: "linked p q fs \<Longrightarrow> linked p q (fs_store p bs fs)"
  using linked_store_same by blast

text \<open>Another repository has no copy of its own and gets what the store has.\<close>

lemma get_from_store:
  assumes "quiet env" and "cas_path r digest = Some q" and "fs_read q fs = Some bs" and "\<not> fs_exists (get_blob_path r name digest) fs"
  shows "get_blob env r name digest fs = Inr bs"
  using assms by (auto simp: get_blob_def quiet_def fs_exists_def fs_read_def Let_def split: option.splits)

lemma get_own:
  assumes "quiet env" and "fs_read (get_blob_path r name digest) fs = Some bs"
  shows "get_blob env r name digest fs = Inr bs"
  using assms by (auto simp: get_blob_def quiet_def fs_exists_def fs_read_def Let_def split: option.splits)

lemma blob_not_cas:
  assumes "list_all plain_name (ra_base r)" and "plain_path name" and "hash_text env"
  obtains q where "cas_path r (digest_of env bs) = Some q" and "q \<noteq> get_blob_path r name (digest_of env bs)"
  using that [OF cas_path_form [OF assms(1,3)]]
  by (simp add: blob_path_form [OF assms(1,2) digest_plain [OF assms(3)]])

definition example_registry :: registry_api where
  "example_registry = \<lparr>ra_base = [''data'']\<rparr>"

definition example_fs :: inode_fs where
  "example_fs = \<lparr>fs_names = [], fs_data = [], fs_next = 0\<rparr>"

definition example_sha :: "bytes \<Rightarrow> string" where
  "example_sha bs = ''00'' @ map (\<lambda>b. digit_char (unat b mod 10)) bs"

definition example_registry_env :: "bool \<Rightarrow> registry_env" where
  "example_registry_env links =
     \<lparr>oe_sha = example_sha,
      oe_manifest = (\<lambda>bs. if bs = [] then None else Some
        \<lparr>om_schema_version = 2, om_media_type = ''application/vnd.oci.image.manifest.v1+json'',
         om_config = \<lparr>od_media_type = [], od_digest = ''sha256:00'', od_size = 1\<rparr>, om_layers = []\<rparr>),
      oe_media_type = (\<lambda>bs. if bs = [] then None else Some (Some ''application/vnd.oci.image.manifest.v1+json'')),
      oe_mkdir = (\<lambda>_. True), oe_create = (\<lambda>_. True), oe_short = (\<lambda>_. None), oe_open = (\<lambda>_. True),
      oe_remove = (\<lambda>_. True), oe_links = links\<rparr>"

lemma example_quiet: "quiet (example_registry_env links)"
  by (simp add: quiet_def example_registry_env_def)

lemma example_hash: "hash_text (example_registry_env links)"
proof -
  have "\<forall>n \<in> set [0..<10]. is_lower_alnum (digit_char n)" by code_simp
  then have "is_lower_alnum (digit_char (n mod 10))" for n by simp
  moreover have "is_lower_alnum CHR ''0''" by code_simp
  ultimately show ?thesis by (simp add: hash_text_def example_registry_env_def example_sha_def list_all_iff)
qed

lemma example_base: "list_all plain_name (ra_base example_registry)" "plain_path ''app''" "plain_path ''lib''"
  by code_simp+

abbreviation example_push :: "bytes \<Rightarrow> inode_fs \<Rightarrow> (registry_error + unit) \<times> inode_fs" where
  "example_push bs fs \<equiv> put_blob (example_registry_env True) example_registry ''app'' ''sha256:001'' (bs, True) fs"

abbreviation example_put :: "bytes \<Rightarrow> inode_fs \<Rightarrow> (registry_error + unit) \<times> inode_fs" where
  "example_put m fs \<equiv> put_manifest (example_registry_env True) example_registry ''app'' ''latest'' m fs"

lemma example_digest: "''sha256:001'' = digest_of (example_registry_env True) [1]"
  by code_simp

lemma example_cas: "cas_path example_registry ''sha256:001'' = Some [''data'', ''cas'', ''sha256'', ''00'', ''sha256:001'']"
  by code_simp

lemma example_empty: "\<not> fs_exists p example_fs"
  by (simp add: fs_exists_def example_fs_def)

text \<open>
  a blob that is pushed can be pulled, until it is pushed again. The first push of a blob into
  a repository makes it available there with the bytes that were pushed. A second push of the
  very same blob to the same repository succeeds as well - and leaves it empty, there and in the
  store that all repositories share: the name in the repository and the name in the store are one
  file, and copying one onto the other truncates both.
\<close>

theorem second_push_empties_blob:
  assumes "quiet env" and "oe_links env" and "hash_text env" and "list_all plain_name (ra_base r)" and "plain_path name"
    and "digest = digest_of env bs" and "cas_path r digest = Some q" and "\<not> fs_exists q fs"
    and "put_blob env r name digest (bs, True) fs = (res1, fs1)" and "put_blob env r name digest (bs, True) fs1 = (res2, fs2)"
  shows "res1 = Inr () \<and> get_blob env r name digest fs1 = Inr bs
    \<and> res2 = Inr () \<and> get_blob env r name digest fs2 = Inr [] \<and> fs_read q fs2 = Some []"
proof -
  let ?p = "get_blob_path r name digest"
  have q: "q \<noteq> ?p" using blob_not_cas [OF assms(4,5,3)] assms(6,7) by (metis option.inject)
  have one: "res1 = Inr () \<and> linked ?p q fs1 \<and> fs_read ?p fs1 = Some bs"
    using first_push [OF assms(1,2), of r bs q ?p name fs] assms(6-9) q by auto
  let ?fs = "fs_store ?p bs (fs_store ?p [] fs1)"
  have "linked ?p q ?fs" using one linked_store_first by blast
  then obtain fs3 where "link_or_copy env ?p q ?fs = (True, fs3)" "linked ?p q fs3" "fs_read ?p fs3 = Some []" "fs_read q fs3 = Some []"
    using copy_onto_itself [OF assms(1)] by blast
  moreover from this have "res2 = Inr () \<and> fs2 = fs3"
    using assms(1,6,7,10) q by (simp add: put_blob_def quiet_def write_whole_def Let_def)
  ultimately show ?thesis using one get_own [OF assms(1)] by simp
qed

lemma second_push_empties_blob_witness:
  "get_blob (example_registry_env True) example_registry ''app'' ''sha256:001'' (snd (example_push [1] (snd (example_push [1] example_fs)))) = Inr []"
  using second_push_empties_blob [OF example_quiet _ example_hash example_base(1,2) example_digest example_cas example_empty
      prod.collapse [symmetric] prod.collapse [symmetric]]
  by (simp add: example_registry_env_def)

text \<open>
  a push that is refused can replace a blob for everybody. When other bytes are sent under the
  digest of a stored blob, the push is refused because the digest does not match, but the bytes
  have been written into the file the repository shares with the store: from then on every
  repository that takes the blob from the store serves the wrong bytes under the old digest.
\<close>

theorem refused_push_replaces_blob:
  assumes "quiet env" and "oe_links env" and "hash_text env" and "list_all plain_name (ra_base r)" and "plain_path name"
    and "digest = digest_of env bs" and "cas_path r digest = Some q" and "\<not> fs_exists q fs"
    and "put_blob env r name digest (bs, True) fs = (res1, fs1)"
    and "digest_of env bad \<noteq> digest" and "put_blob env r name digest (bad, True) fs1 = (res2, fs2)"
    and "get_blob_path r other digest \<noteq> get_blob_path r name digest" and "\<not> fs_exists (get_blob_path r other digest) fs1"
  shows "res2 = Inl (DigestMismatch digest (digest_of env bad))
    \<and> get_blob env r name digest fs2 = Inr bad \<and> get_blob env r other digest fs1 = Inr bs \<and> get_blob env r other digest fs2 = Inr bad"
proof -
  let ?p = "get_blob_path r name digest"
  have q: "q \<noteq> ?p" using blob_not_cas [OF assms(4,5,3)] assms(6,7) by (metis option.inject)
  have one: "res1 = Inr () \<and> linked ?p q fs1 \<and> fs_read ?p fs1 = Some bs"
    using first_push [OF assms(1,2), of r bs q ?p name fs] assms(6-9) q by auto
  let ?fs = "fs_store ?p bad (fs_store ?p [] fs1)"
  have l: "linked ?p q ?fs" using one linked_store_first by blast
  have two: "res2 = Inl (DigestMismatch digest (digest_of env bad))" "fs2 = fs_remove ?p ?fs"
    using assms(1,10,11) by (auto simp: put_blob_def quiet_def write_whole_def remove_if_allowed_def Let_def)
  have "fs_read q fs2 = fs_read q ?fs" using q by (simp add: two(2))
  then have bad: "fs_read q fs2 = Some bad" using linked_read [OF l] by simp
  have "\<not> fs_exists ?p fs2" by (simp add: two(2) fs_exists_def fs_remove_def delete_conv')
  moreover have "\<not> fs_exists (get_blob_path r other digest) fs2"
    using assms(12,13) linked_exists [of ?p q fs1] one
    by (auto simp: two(2) fs_exists_def fs_remove_def delete_conv' fs_store_def split: option.splits)
  ultimately show ?thesis
    using two(1) get_from_store [OF assms(1,7)] bad assms(13) linked_read [of ?p q fs1] one by simp
qed

lemma refused_push_replaces_blob_witness:
  "get_blob (example_registry_env True) example_registry ''lib'' ''sha256:001'' (snd (example_push [6] (snd (example_push [1] example_fs)))) = Inr [6]"
proof -
  have links: "oe_links (example_registry_env True)" by (simp add: example_registry_env_def)
  have "digest_of (example_registry_env True) [6] \<noteq> ''sha256:001''"
    and "get_blob_path example_registry ''lib'' ''sha256:001'' \<noteq> get_blob_path example_registry ''app'' ''sha256:001''"
    and "\<not> fs_exists (get_blob_path example_registry ''lib'' ''sha256:001'') (snd (example_push [1] example_fs))"
    by code_simp+
  from refused_push_replaces_blob [OF example_quiet links example_hash example_base(1,2) example_digest example_cas example_empty
      prod.collapse [symmetric] this(1) prod.collapse [symmetric] this(2,3)]
  show ?thesis by blast
qed

text \<open>
  the digest of an upload can name any file, which is then deleted. A blob pushed under a
  digest that climbs out of the registry's directory is written over the file the digest names,
  found not to match and removed: the file is gone, whatever bytes were sent.
\<close>

theorem climbing_digest_deletes_any_file:
  assumes "quiet env" and "list_all plain_name (ra_base r)" and "plain_path name" and "plain_path t"
    and "length (ra_base r) + length (split_on CHR ''/'' name) + 2 \<le> k" and "0 < k"
    and "put_blob env r name (climb k @ t) stream fs = (res, fs')"
  shows "\<not> is_ok res \<and> \<not> fs_exists (split_on CHR ''/'' t) fs'"
proof -
  obtain j where k: "k = Suc j" using assms(6) by (cases k) auto
  have differs: "digest_of env bs \<noteq> climb k @ t" for bs by (simp add: k climb_def digest_of_def)
  have "get_blob_path r name (climb k @ t)
      = clean_onto [] ((ra_base r @ ''v2'' # split_on CHR ''/'' name @ [''blobs'']) @ replicate k ''..'' @ split_on CHR ''/'' t)"
    using assms(2,3) by (simp add: get_blob_path_def path_join_def concat_split_plain split_climb split_plain plain_literals)
  also have "\<dots> = split_on CHR ''/'' t"
  proof -
    have plain: "list_all plain_name (ra_base r @ ''v2'' # split_on CHR ''/'' name @ [''blobs''])"
      using assms(2,3) plain_literals by (simp add: plain_path_def)
    show ?thesis using assms(4,5)
      by (simp only: clean_onto_append [OF plain] clean_onto_dots) (simp add: plain_path_def clean_onto_plain)
  qed
  finally have p: "get_blob_path r name (climb k @ t) = split_on CHR ''/'' t" .
  obtain bs complete where st: "stream = (bs, complete)" by (cases stream)
  have "\<not> is_ok res \<and> fs' = fs_remove (split_on CHR ''/'' t) (fs_store (split_on CHR ''/'' t) bs (fs_store (split_on CHR ''/'' t) [] fs))"
    using assms(1,7) differs [of bs]
    by (auto simp: put_blob_def p st quiet_def write_whole_def remove_if_allowed_def Let_def split: if_splits)
  then show ?thesis by (simp add: fs_exists_def fs_remove_def delete_conv')
qed

lemma climbing_digest_deletes_any_file_witness:
  "\<not> fs_exists [''etc'', ''passwd''] (snd (put_blob (example_registry_env True) example_registry ''app'' (climb 4 @ ''etc/passwd'') ([], True)
     (fs_store [''etc'', ''passwd''] [7] example_fs)))"
proof -
  have "plain_path ''etc/passwd''" and "split_on CHR ''/'' ''etc/passwd'' = [''etc'', ''passwd'']"
    and "length (ra_base example_registry) + length (split_on CHR ''/'' ''app'') + 2 \<le> 4" by code_simp+
  from climbing_digest_deletes_any_file [OF example_quiet example_base(1,2) this(1,3) _ prod.collapse [symmetric]] this(2)
  show ?thesis by (metis zero_less_numeral)
qed

section \<open>Manifests, tags and digests\<close>

lemma tag_no_colon: "valid_tag t \<Longrightarrow> CHR '':'' \<notin> set t"
proof -
  have "\<not> is_alnum CHR '':''" by (simp add: is_alnum_def is_lower_alnum_def char_between_def)
  then show "valid_tag t \<Longrightarrow> CHR '':'' \<notin> set t" by (cases t) (auto simp: valid_tag_def list_all_iff)
qed

lemma put_tag:
  assumes "quiet env" and "validate_manifest env m = None" and "valid_tag tag"
  shows "put_manifest env r name tag m fs
    = (case link_or_copy env (get_manifest_path r name tag) (get_manifest_path r name (digest_of env m))
              (fs_store (get_manifest_path r name tag) m fs) of
         (ok, fs) \<Rightarrow> (if ok then Inr () else Inl TagUpdateFailed, fs))"
  using assms tag_no_colon [OF assms(3)]
  by (simp add: put_manifest_def validate_reference_def quiet_def write_whole_def update_tag_reference_def Let_def)

lemma put_new_tag:
  assumes "quiet env" and "oe_links env" and "validate_manifest env m = None" and "valid_tag tag"
    and "\<not> fs_exists (get_manifest_path r name (digest_of env m)) fs"
    and "get_manifest_path r name tag \<noteq> get_manifest_path r name (digest_of env m)"
  shows "\<exists>fs'. put_manifest env r name tag m fs = (Inr (), fs')
    \<and> linked (get_manifest_path r name tag) (get_manifest_path r name (digest_of env m)) fs'
    \<and> fs_read (get_manifest_path r name tag) fs' = Some m
    \<and> (\<forall>x. fs_exists x fs' \<longrightarrow> x \<in> {get_manifest_path r name tag, get_manifest_path r name (digest_of env m)} \<or> fs_exists x fs)"
  using link_fresh [OF assms(1,2), of "get_manifest_path r name tag"
      "fs_store (get_manifest_path r name tag) m fs" "get_manifest_path r name (digest_of env m)"] assms(5,6)
  by (auto simp: put_tag [OF assms(1,3,4)])

text \<open>A file of the quiet registry is a manifest if it can be decoded.\<close>

lemma get_manifest_read:
  assumes "quiet env" and "fs_read (get_manifest_path r name ref) fs = Some data"
  shows "get_manifest env r name ref fs
    = (case oe_media_type env data of
         None \<Rightarrow> Inl ManifestNotJson
       | Some None \<Rightarrow> Inr (data, ''application/vnd.docker.distribution.manifest.v2+json'')
       | Some (Some t) \<Rightarrow> Inr (data, t))"
  using assms by (simp add: get_manifest_def quiet_def fs_exists_def fs_read_def Let_def split: option.splits)

text \<open>
  a digest does not pin a manifest. A manifest pushed under a tag is given out under the tag
  and under its digest. When another manifest is pushed under the same tag, the first digest gives
  out the second manifest from then on: the tag and the digest were one file.
\<close>

theorem moving_a_tag_rewrites_history:
  assumes "quiet env" and "oe_links env" and "valid_tag tag"
    and "validate_manifest env m1 = None" and "validate_manifest env m2 = None"
    and "oe_media_type env m1 = Some (Some t1)" and "oe_media_type env m2 = Some (Some t2)"
    and "p = get_manifest_path r name tag" and "d1 = get_manifest_path r name (digest_of env m1)"
    and "d2 = get_manifest_path r name (digest_of env m2)" and "distinct [p, d1, d2]"
    and "\<not> fs_exists d1 fs" and "\<not> fs_exists d2 fs"
    and "put_manifest env r name tag m1 fs = (res1, fs1)" and "put_manifest env r name tag m2 fs1 = (res2, fs2)"
  shows "res1 = Inr () \<and> res2 = Inr ()
    \<and> get_manifest env r name (digest_of env m1) fs1 = Inr (m1, t1)
    \<and> get_manifest env r name (digest_of env m1) fs2 = Inr (m2, t2)"
proof -
  have one: "res1 = Inr ()" "linked p d1 fs1" "fs_read p fs1 = Some m1" "\<not> fs_exists d2 fs1"
    using put_new_tag [OF assms(1,2,4,3), of r name fs] assms(8,9,11-14) by auto
  let ?fs = "fs_store p m2 fs1"
  have l: "linked p d1 ?fs" "fs_read p ?fs = Some m2" using one(2) linked_store_first by simp_all
  obtain i where i: "map_of (fs_names ?fs) p = Some i" "map_of (fs_names ?fs) d1 = Some i" using l(1) by (auto simp: linked_def)
  have "link_file env p d2 ?fs = Some (?fs\<lparr>fs_names := AList.update d2 i (fs_names ?fs)\<rparr>)"
    using assms(2,11) i one(4) by (auto simp: link_file_def)
  then have two: "res2 = Inr ()" "fs2 = ?fs\<lparr>fs_names := AList.update d2 i (fs_names ?fs)\<rparr>"
    using assms(15) by (simp_all add: put_tag [OF assms(1,5,3)] link_or_copy_def flip: assms(8,10))
  have "fs_read d1 fs2 = Some m2"
    using i l(2) assms(11) by (simp add: two(2) fs_read_def)
  moreover have "fs_read d1 fs1 = Some m1" using linked_read [OF one(2)] one(3) by simp
  ultimately show ?thesis
    using one(1) two(1) assms(6,7,9) by (simp add: get_manifest_read [OF assms(1)])
qed

lemma moving_a_tag_rewrites_history_witness:
  "get_manifest (example_registry_env True) example_registry ''app'' (digest_of (example_registry_env True) [1])
     (snd (example_put [2] (snd (example_put [1] example_fs)))) = Inr ([2], ''application/vnd.oci.image.manifest.v1+json'')"
proof -
  let ?p = "get_manifest_path example_registry ''app''"
  have links: "oe_links (example_registry_env True)" by (simp add: example_registry_env_def)
  have "valid_tag ''latest''" and "validate_manifest (example_registry_env True) [1] = None"
    and "validate_manifest (example_registry_env True) [2] = None"
    and "distinct [?p ''latest'', ?p (digest_of (example_registry_env True) [1]), ?p (digest_of (example_registry_env True) [2])]"
    by code_simp+
  from moving_a_tag_rewrites_history [OF example_quiet links this(1-3) _ _ refl refl refl this(4) example_empty example_empty
      prod.collapse [symmetric] prod.collapse [symmetric]]
  show ?thesis by (simp add: example_registry_env_def)
qed

text \<open>
  pushing the same image twice destroys it. A manifest pushed under a tag for the second time
  is accepted with the answer of the first time, but afterwards neither the tag nor the digest can
  be read: the file they share was truncated while it was copied onto itself.
\<close>

theorem pushing_twice_destroys_manifest:
  assumes "quiet env" and "oe_links env" and "valid_tag tag" and "validate_manifest env m = None"
    and "oe_media_type env m = Some (Some t)" and "oe_media_type env [] = None"
    and "get_manifest_path r name tag \<noteq> get_manifest_path r name (digest_of env m)"
    and "\<not> fs_exists (get_manifest_path r name (digest_of env m)) fs"
    and "put_manifest env r name tag m fs = (res1, fs1)" and "put_manifest env r name tag m fs1 = (res2, fs2)"
  shows "res1 = Inr () \<and> get_manifest env r name tag fs1 = Inr (m, t)
    \<and> res2 = Inr () \<and> get_manifest env r name tag fs2 = Inl ManifestNotJson
    \<and> get_manifest env r name (digest_of env m) fs2 = Inl ManifestNotJson"
proof -
  let ?p = "get_manifest_path r name tag" and ?d = "get_manifest_path r name (digest_of env m)"
  have one: "res1 = Inr () \<and> linked ?p ?d fs1 \<and> fs_read ?p fs1 = Some m"
    using put_new_tag [OF assms(1,2,4,3), of r name fs] assms(7-9) by auto
  then have "linked ?p ?d (fs_store ?p m fs1)" using linked_store_first by blast
  then obtain fs3 where "link_or_copy env ?p ?d (fs_store ?p m fs1) = (True, fs3)"
    "fs_read ?p fs3 = Some []" "fs_read ?d fs3 = Some []"
    using copy_onto_itself [OF assms(1)] by blast
  moreover from this have "res2 = Inr () \<and> fs2 = fs3" using assms(10) by (simp add: put_tag [OF assms(1,4,3)])
  ultimately show ?thesis using one assms(5,6) by (simp add: get_manifest_read [OF assms(1)])
qed

lemma pushing_twice_destroys_manifest_witness:
  "get_manifest (example_registry_env True) example_registry ''app'' ''latest'' (snd (example_put [1] (snd (example_put [1] example_fs))))
     = Inl ManifestNotJson"
proof -
  let ?p = "get_manifest_path example_registry ''app''"
  have links: "oe_links (example_registry_env True)" by (simp add: example_registry_env_def)
  have "valid_tag ''latest''" and "validate_manifest (example_registry_env True) [1] = None"
    and "?p ''latest'' \<noteq> ?p (digest_of (example_registry_env True) [1])" by code_simp+
  from pushing_twice_destroys_manifest [OF example_quiet links this(1,2) _ _ this(3) example_empty
      prod.collapse [symmetric] prod.collapse [symmetric]]
  show ?thesis by (simp add: example_registry_env_def)
qed

section \<open>A registry without hard links\<close>

text \<open>No two names share an inode.\<close>

definition unshared :: "inode_fs \<Rightarrow> bool" where
  "unshared fs \<longleftrightarrow> (\<forall>p q i. map_of (fs_names fs) p = Some i \<longrightarrow> i < fs_next fs \<and> (map_of (fs_names fs) q = Some i \<longrightarrow> p = q))"

lemma unshared_store: "unshared fs \<Longrightarrow> unshared (fs_store p bs fs)"
  by (auto simp: unshared_def fs_store_def less_Suc_eq split: option.split)

lemma unshared_remove: "unshared fs \<Longrightarrow> unshared (fs_remove p fs)"
  by (simp add: unshared_def fs_remove_def delete_conv')

lemma read_store_other: "unshared fs \<Longrightarrow> q \<noteq> p \<Longrightarrow> fs_read q (fs_store p bs fs) = fs_read q fs"
  by (auto simp: unshared_def fs_store_def fs_read_def split: option.split)

text \<open>Names in the blob directories and in the store end with the digest of their bytes.\<close>

definition addressed :: "registry_api \<Rightarrow> path \<Rightarrow> bool" where
  "addressed r p \<longleftrightarrow> (\<exists>ns d. p = ra_base r @ ''v2'' # ns @ [''blobs'', d]) \<or> (\<exists>a b d. p = ra_base r @ [''cas'', a, b, d])"

definition content_addressed :: "(bytes \<Rightarrow> string) \<Rightarrow> registry_api \<Rightarrow> inode_fs \<Rightarrow> bool" where
  "content_addressed sha r fs \<longleftrightarrow> unshared fs
     \<and> (\<forall>p bs. fs_read p fs = Some bs \<longrightarrow> addressed r p \<longrightarrow> last p = ''sha256:'' @ sha bs)"

lemma content_addressed_store:
  "content_addressed sha r fs \<Longrightarrow> (addressed r p \<Longrightarrow> last p = ''sha256:'' @ sha bs) \<Longrightarrow> content_addressed sha r (fs_store p bs fs)"
  by (auto simp: content_addressed_def unshared_store) (metis fs_read_store option.inject read_store_other)

lemma content_addressed_remove: "content_addressed sha r fs \<Longrightarrow> content_addressed sha r (fs_remove p fs)"
  by (auto simp: content_addressed_def unshared_remove split: if_splits)

text \<open>Overwriting a name with bytes that do not stay there.\<close>

lemma content_addressed_undo:
  assumes "content_addressed sha r fs"
  shows "content_addressed sha r (fs_remove p (fs_store p bs (fs_store p bs0 fs)))"
proof -
  have "unshared fs" using assms by (simp add: content_addressed_def)
  then have "fs_read q (fs_store p bs (fs_store p bs0 fs)) = fs_read q fs" if "q \<noteq> p" for q
    using that by (simp add: read_store_other unshared_store)
  then show ?thesis using assms
    by (auto simp: content_addressed_def unshared_store unshared_remove split: if_splits)
qed

lemma store_twice: "unshared fs \<Longrightarrow> fs_read q (fs_store p bs (fs_store p bs0 fs)) = fs_read q (fs_store p bs fs)"
  by (cases "q = p") (simp_all add: read_store_other unshared_store)

lemma content_addressed_twice:
  assumes "content_addressed sha r (fs_store p bs fs)" and "unshared fs"
  shows "content_addressed sha r (fs_store p bs (fs_store p bs0 fs))"
  using assms by (simp add: content_addressed_def store_twice unshared_store)

lemma copy_content_addressed:
  assumes "content_addressed sha r fs" and "fs_read p fs = Some bs" and "p \<noteq> q" and "\<not> oe_links env" and "\<forall>p. oe_short env p = None"
    and "addressed r q \<Longrightarrow> last q = ''sha256:'' @ sha bs"
  shows "content_addressed sha r (snd (link_or_copy env p q fs))"
proof -
  have un: "unshared fs" using assms(1) by (simp add: content_addressed_def)
  have "link_file env p q fs = None" using assms(4) by (simp add: link_file_def split: option.split)
  moreover have "fs_read p (fs_store q [] fs) = Some bs" using read_store_other [OF un assms(3)] assms(2) by simp
  moreover have "content_addressed sha r (fs_store q bs (fs_store q [] fs))"
    using content_addressed_twice [OF content_addressed_store [OF assms(1,6)] un] by blast
  ultimately show ?thesis using assms(1,5)
    by (auto simp: link_or_copy_def copy_file_def write_whole_def Let_def)
qed

text \<open>
  Pushes and deletions of any blobs and manifests under plain names, any of which may be broken
  off or refused; files are written as a whole and may be removed.
\<close>

inductive registry_step :: "(bytes \<Rightarrow> string) \<Rightarrow> registry_api \<Rightarrow> inode_fs \<Rightarrow> inode_fs \<Rightarrow> bool" for sha r where
  push_blob: "plain_path name \<Longrightarrow> plain_name digest \<Longrightarrow> oe_sha env = sha \<Longrightarrow> hash_text env \<Longrightarrow> \<not> oe_links env
    \<Longrightarrow> \<forall>p. oe_short env p = None \<and> oe_remove env p
    \<Longrightarrow> registry_step sha r fs (snd (put_blob env r name digest stream fs))"
| push_manifest: "plain_path name \<Longrightarrow> plain_name ref \<Longrightarrow> oe_sha env = sha \<Longrightarrow> hash_text env \<Longrightarrow> \<not> oe_links env
    \<Longrightarrow> \<forall>p. oe_short env p = None \<and> oe_remove env p
    \<Longrightarrow> registry_step sha r fs (snd (put_manifest env r name ref manifest fs))"
| delete: "plain_path name \<Longrightarrow> plain_name ref \<Longrightarrow> registry_step sha r fs (snd (delete_manifest env r name ref fs))"

lemma manifest_not_addressed:
  assumes "list_all plain_name (ra_base r)" and "plain_path name" and "plain_name ref"
  shows "\<not> addressed r (get_manifest_path r name ref)"
proof -
  have "get_manifest_path r name ref = (ra_base r @ ''v2'' # split_on CHR ''/'' name) @ [''manifests'', ref]"
    using manifest_path_form [OF assms] by simp
  moreover have "p @ [''manifests'', ref] \<noteq> ra_base r @ ''v2'' # ns @ [''blobs'', d]" for p ns d
  proof -
    have "ra_base r @ ''v2'' # ns @ [''blobs'', d] = (ra_base r @ ''v2'' # ns) @ [''blobs'', d]" by simp
    then show ?thesis by (simp only: append_eq_append_conv length_Cons list.size) simp
  qed
  moreover have "ra_base r @ ''v2'' # ns \<noteq> ra_base r @ ''cas'' # ns'" for ns ns' by simp
  ultimately show ?thesis by (auto simp: addressed_def)
qed

lemma put_blob_content_addressed:
  assumes "content_addressed (oe_sha env) r fs" and "list_all plain_name (ra_base r)" and "plain_path name" and "plain_name digest"
    and "hash_text env" and "\<not> oe_links env" and "\<forall>p. oe_short env p = None \<and> oe_remove env p"
  shows "content_addressed (oe_sha env) r (snd (put_blob env r name digest stream fs))"
proof -
  let ?p = "get_blob_path r name digest"
  obtain bs complete where st: "stream = (bs, complete)" by (cases stream)
  let ?fs = "fs_store ?p bs (fs_store ?p [] fs)"
  have un: "unshared fs" using assms(1) by (simp add: content_addressed_def)
  have last: "last ?p = digest" by (simp add: blob_path_form [OF assms(2-4)])
  have undone: "content_addressed (oe_sha env) r (fs_remove ?p ?fs)" by (rule content_addressed_undo [OF assms(1)])
  have kept: "content_addressed (oe_sha env) r ?fs" if "digest_of env bs = digest"
    using content_addressed_twice [OF content_addressed_store [OF assms(1)] un] that last by (simp add: digest_of_def)
  have copied: "content_addressed (oe_sha env) r (snd (link_or_copy env ?p q ?fs))"
    if "digest_of env bs = digest" and "cas_path r digest = Some q" and "q \<noteq> ?p" for q
  proof (rule copy_content_addressed [OF kept [OF that(1)]])
    show "last q = ''sha256:'' @ oe_sha env bs"
      using cas_path_form [OF assms(2,5), of bs] that(1,2) by (auto simp: digest_of_def)
  qed (use assms(6,7) that(3) in auto)
  show ?thesis
    using assms(1,7) undone kept copied
    by (auto simp: put_blob_def st write_whole_def remove_if_allowed_def Let_def split: option.split)
qed

lemma put_manifest_content_addressed:
  assumes "content_addressed (oe_sha env) r fs" and "list_all plain_name (ra_base r)" and "plain_path name" and "plain_name ref"
    and "hash_text env" and "\<not> oe_links env" and "\<forall>p. oe_short env p = None \<and> oe_remove env p"
  shows "content_addressed (oe_sha env) r (snd (put_manifest env r name ref m fs))"
proof -
  let ?p = "get_manifest_path r name ref" and ?d = "get_manifest_path r name (digest_of env m)"
  have not: "\<not> addressed r ?p" "\<not> addressed r ?d"
    using manifest_not_addressed [OF assms(2,3)] assms(4) digest_plain [OF assms(5)] by blast+
  have stored: "content_addressed (oe_sha env) r (fs_store ?p m fs)"
    using content_addressed_store [OF assms(1)] not(1) by blast
  have "content_addressed (oe_sha env) r (snd (link_or_copy env ?p ?d (fs_store ?p m fs)))" if "CHR '':'' \<notin> set ref"
  proof (rule copy_content_addressed [OF stored fs_read_store _ assms(6)])
    have "ref \<noteq> digest_of env m" using that by (auto simp: digest_of_def)
    then show "?p \<noteq> ?d"
      by (simp add: manifest_path_form [OF assms(2,3,4)] manifest_path_form [OF assms(2,3) digest_plain [OF assms(5)]])
  qed (use assms(7) not(2) in auto)
  then show ?thesis using assms(1,7) stored
    by (auto simp: put_manifest_def write_whole_def update_tag_reference_def Let_def split: option.split prod.split)
qed



section \<open>Smaller facts\<close>

text \<open>Deleting a tag never deletes the digest: the file is read only after it has been removed.\<close>

lemma deleting_a_tag_keeps_the_digest:
  assumes "get_manifest_path r name ref \<noteq> q"
  shows "fs_read q (snd (delete_manifest env r name ref fs)) = fs_read q fs"
  using assms by (auto simp: delete_manifest_def Let_def)

text \<open>The bytes of a chunked upload are acknowledged and dropped.\<close>

lemma patched_bytes_are_dropped:
  "handle_blob_upload upload (bs, complete) fs = (UploadAccepted upload, fs)"
  by (simp add: handle_blob_upload_def)

text \<open>The separator class of a digest takes the characters from the full stop to the underscore.\<close>

lemma digest_with_slash_is_valid: "valid_digest ''sha256/x:00''"
  by code_simp

end
