(* ===== verification/Queries.thy ===== *)
theory Queries
  imports Tenants "HOL-Library.Option_ord"
begin

text \<open>
  What the repositories and the handlers above them share: the conditions, orders and pages of their
  statements (a table is a list of rows in the order in which the database finds them), and how a handler
  finds the tenant and the user in the context of the request.
\<close>

section \<open>Conditions\<close>

text \<open>
  \<^verbatim>\<open>ILIKE\<close>: a percent sign stands for any text, an underscore for any character, a backslash takes
  the next character literally; case does not count.
\<close>

fun sql_like :: "string \<Rightarrow> string \<Rightarrow> bool" where
  "sql_like [] s = (s = [])"
| "sql_like (c # p) [] = (c = CHR ''%'' \<and> sql_like p [])"
| "sql_like (c # p) (x # s) =
     (if c = CHR ''%'' then sql_like p (x # s) \<or> sql_like (c # p) s
      else if c = CHR ''_'' then sql_like p s
      else if c = CHR 0x5C then (case p of [] \<Rightarrow> False | d # p \<Rightarrow> d = x \<and> sql_like p s)
      else c = x \<and> sql_like p s)"

definition ilike :: "string \<Rightarrow> string \<Rightarrow> bool" where
  "ilike s pattern = sql_like (to_lower pattern) (to_lower s)"

definition contains_pattern :: "string \<Rightarrow> string" where
  "contains_pattern search = ''%'' @ search @ ''%''"

definition given :: "'a option \<Rightarrow> ('a \<Rightarrow> bool) \<Rightarrow> bool" where
  "given x P = (case x of None \<Rightarrow> True | Some v \<Rightarrow> P v)"

section \<open>Order and pages\<close>

definition order_by :: "bool \<Rightarrow> ('a \<Rightarrow> 'k::linorder) \<Rightarrow> 'a list \<Rightarrow> 'a list" where
  "order_by descending key rows = (if descending then rev (sort_key key (rev rows)) else sort_key key rows)"

definition newest :: "('a \<Rightarrow> 'k::linorder) \<Rightarrow> 'a list \<Rightarrow> 'a list" where
  "newest key xs = rev (sort_key key (rev xs))"

definition page :: "int \<Rightarrow> int \<Rightarrow> 'a list \<Rightarrow> 'a list option" where
  "page limit offset xs = (if limit < 0 \<or> offset < 0 then None else Some (take (nat limit) (drop (nat offset) xs)))"

lemma set_order_by [simp]: "set (order_by d k xs) = set xs" and length_order_by [simp]: "length (order_by d k xs) = length xs"
  by (simp_all add: order_by_def)

lemma set_newest [simp]: "set (newest k xs) = set xs"
  by (simp add: newest_def)

lemma newest_Nil_iff [simp]: "newest k xs = [] \<longleftrightarrow> xs = []"
  by (metis set_empty set_newest)

lemma hd_newest: "newest k xs = x # ys \<Longrightarrow> y \<in> set xs \<Longrightarrow> k y \<le> k x"
proof -
  assume n: "newest k xs = x # ys" and y: "y \<in> set xs"
  have "sorted (map k (rev (newest k xs)))" by (simp add: newest_def)
  then have "sorted (map k (rev ys) @ [k x])" by (simp add: n)
  moreover have "y = x \<or> y \<in> set ys" using y n by (metis set_ConsD set_newest)
  ultimately show ?thesis by (auto simp: sorted_append)
qed

lemma concat_pages: "concat (map (\<lambda>k. take n (drop (k * n) xs)) [0..<m]) = take (m * n) xs"
proof (induction m)
  case (Suc m)
  then show ?case by (simp add: take_add add.commute [of n])
qed simp

section \<open>Times and texts\<close>

text \<open>Go's zero time, and the length of a text in characters, as \<^verbatim>\<open>VARCHAR\<close> counts.\<close>

definition zero_time :: time where "zero_time = - 62135596800 * second"

definition text_length :: "string \<Rightarrow> nat" where
  "text_length s = length (filter (\<lambda>c. (of_char c :: nat) < 128 \<or> 192 \<le> (of_char c :: nat)) s)"

lemma text_length_le: "text_length s \<le> length s"
  by (simp add: text_length_def)

section \<open>The context of a request\<close>

definition with_tenant :: "gin_context \<Rightarrow> 'a \<Rightarrow> 'a \<Rightarrow> (uuid \<Rightarrow> 'a) \<Rightarrow> 'a" where
  "with_tenant ctx none bad k = (case ctx ''tenant_id'' of None \<Rightarrow> none | Some (CtxText _) \<Rightarrow> bad | Some (CtxId t) \<Rightarrow> k t)"

text \<open>The user is an identifier or a text that parses as one.\<close>

definition with_user :: "(string \<Rightarrow> uuid option) \<Rightarrow> gin_context \<Rightarrow> 'a \<Rightarrow> (uuid \<Rightarrow> 'a) \<Rightarrow> 'a" where
  "with_user parse ctx bad k =
     (case ctx ''user_id'' of
        None \<Rightarrow> bad
      | Some (CtxId u) \<Rightarrow> k u
      | Some (CtxText s) \<Rightarrow> (case parse s of None \<Rightarrow> bad | Some u \<Rightarrow> k u))"

text \<open>The number that \<^verbatim>\<open>strconv.Atoi\<close> returns, for a caller that ignores its error.\<close>

definition atoi_value :: "string \<Rightarrow> int" where
  "atoi_value s =
     (case atoi s of
        Some n \<Rightarrow> n
      | None \<Rightarrow>
          let (neg, digits) = (case s of [] \<Rightarrow> (False, []) | c # cs \<Rightarrow>
                if c = CHR ''-'' then (True, cs) else if c = CHR ''+'' then (False, cs) else (False, c # cs))
          in if digits = [] \<or> read_digits 0 digits = None then 0 else if neg then - (2 ^ 63) else 2 ^ 63 - 1)"

text \<open>\<^verbatim>\<open>strconv.ParseBool\<close>.\<close>

definition read_bool :: "string \<Rightarrow> bool option" where
  "read_bool s =
     (if s \<in> {''1'', ''t'', ''T'', ''true'', ''TRUE'', ''True''} then Some True
      else if s \<in> {''0'', ''f'', ''F'', ''false'', ''FALSE'', ''False''} then Some False else None)"

text \<open>Paging parameters outside their range fall back to the defaults.\<close>

definition limit_of :: "int \<Rightarrow> string \<Rightarrow> int" where
  "limit_of standard q = (case atoi q of Some n \<Rightarrow> if 0 < n \<and> n \<le> 100 then n else standard | None \<Rightarrow> standard)"

definition offset_of :: "string \<Rightarrow> int" where
  "offset_of q = (case atoi q of Some n \<Rightarrow> if 0 \<le> n then n else 0 | None \<Rightarrow> 0)"

end
