(* ===== verification/ArtifactRecords.thy ===== *)
theory ArtifactRecords
  imports Queries Scanning
begin

text \<open>
  The table of artifacts and its access layer (internal/repository/artifact_repository.go,
  internal/service/artifact_service.go, which passes every call on): creation with its update of an
  existing record, the tags, deletion, the download counter, and the two listings with their
  filters. The tags of an artifact are kept in its row.
\<close>

section \<open>Records\<close>

text \<open>A document of type JSONB as the code takes it apart: numbers are \<^verbatim>\<open>float64\<close> once read back.\<close>

datatype json = JText string | JNumber rat | JList "json list" | JOther

record stored_artifact =
  sa_id :: uuid
  sa_name :: string
  sa_version :: string
  sa_type :: string
  sa_repo :: uuid
  sa_tenant :: uuid
  sa_size :: int
  sa_checksum :: string
  sa_license :: "string option"
  sa_metadata :: "(string \<times> json) list"
  sa_tags :: "string list"
  sa_uploaded_at :: time
  sa_created_at :: time
  sa_downloads :: int
  sa_encrypted :: bool
  sa_enc_version :: int
  sa_enc_dek :: bytes
  sa_enc_algorithm :: string
  sa_enc_metadata :: "(string \<times> json) list option"

text \<open>
  During one call: the clock, the identifiers \<^verbatim>\<open>uuid.New\<close> returns (of a row, and the temporary
  one), the repositories (name, type,
  tenant), which statements succeed, whether the database takes the values of a row (lengths,
  valid text, foreign keys) or of a tag, and whether the driver sends a nil \<^verbatim>\<open>[]byte\<close> as NULL
  (the empty string is no document). \<open>re_collation\<close> gives the key by which the database's
  collation orders texts.
\<close>

record record_env =
  re_now :: time
  re_new_id :: uuid
  re_temp_id :: uuid
  re_repo :: "uuid \<Rightarrow> (string \<times> string \<times> uuid) option"
  re_get_ok :: bool
  re_find_ok :: bool
  re_refetch_ok :: bool
  re_update_ok :: bool
  re_delete_ok :: bool
  re_accepts :: "stored_artifact \<Rightarrow> bool"
  re_clear_tags_ok :: bool
  re_tag_ok :: "string \<Rightarrow> bool"
  re_nil_json_ok :: bool
  re_count_ok :: bool
  re_list_ok :: bool
  re_collation :: "string \<Rightarrow> string"

datatype record_error = TenantUnknown | InsertFailed | UpdateRefused | ClearTagsFailed | TagFailed | QueryFailed | NotFoundOrDenied

section \<open>Creating\<close>

definition same_release :: "string \<Rightarrow> string \<Rightarrow> uuid \<Rightarrow> stored_artifact \<Rightarrow> bool" where
  "same_release name version repo r \<longleftrightarrow> sa_name r = name \<and> sa_version r = version \<and> sa_repo r = repo"

text \<open>
  Except for the read by identifier the queries leave the columns of the encryption out, so that the
  record they return says that the artifact is not encrypted. The join drops a record whose
  repository is gone.
\<close>

definition without_encryption :: "stored_artifact \<Rightarrow> stored_artifact" where
  "without_encryption r = r\<lparr>sa_encrypted := False, sa_enc_version := 0, sa_enc_dek := [],
     sa_enc_algorithm := [], sa_enc_metadata := None\<rparr>"

definition get_by_name_version_repo ::
  "record_env \<Rightarrow> string \<Rightarrow> string \<Rightarrow> uuid \<Rightarrow> stored_artifact list \<Rightarrow> stored_artifact option" where
  "get_by_name_version_repo env name version repo rows =
     map_option without_encryption (List.find (\<lambda>r. same_release name version repo r \<and> re_repo env (sa_repo r) \<noteq> None) rows)"

definition row_of :: "uuid \<Rightarrow> stored_artifact list \<Rightarrow> stored_artifact option" where
  "row_of i rows = List.find (\<lambda>r. sa_id r = i) rows"

definition row_by_id :: "record_env \<Rightarrow> uuid \<Rightarrow> stored_artifact list \<Rightarrow> stored_artifact option" where
  "row_by_id env i rows = List.find (\<lambda>r. sa_id r = i \<and> re_repo env (sa_repo r) \<noteq> None) rows"

definition change_row :: "uuid \<Rightarrow> (stored_artifact \<Rightarrow> stored_artifact) \<Rightarrow> stored_artifact list \<Rightarrow> stored_artifact list" where
  "change_row i f rows = map (\<lambda>r. if sa_id r = i then f r else r) rows"

text \<open>
  The tags are inserted one by one until one is refused (\<^verbatim>\<open>ON CONFLICT DO NOTHING\<close>); those inserted
  before stay.
\<close>

fun insert_tags :: "record_env \<Rightarrow> string list \<Rightarrow> string list \<Rightarrow> bool \<times> string list" where
  "insert_tags env [] stored = (True, stored)"
| "insert_tags env (tag # tags) stored =
     (if \<not> re_tag_ok env tag then (False, stored)
      else insert_tags env tags (if tag \<in> set stored then stored else stored @ [tag]))"

definition add_tags :: "record_env \<Rightarrow> uuid \<Rightarrow> string list \<Rightarrow> stored_artifact list \<Rightarrow> (record_error + unit) \<times> stored_artifact list" where
  "add_tags env i tags rows =
     (case row_of i rows of
        None \<Rightarrow> (Inl TagFailed, rows)
      | Some r \<Rightarrow>
          let (ok, stored) = insert_tags env tags (sa_tags r)
          in (if ok then Inr () else Inl TagFailed, change_row i (\<lambda>r. r\<lparr>sa_tags := stored\<rparr>) rows))"

text \<open>
  An update replaces what describes the content; name, version, repository, tenant and the times
  stay. It is committed before the tags are touched.
\<close>

definition updated_row :: "stored_artifact \<Rightarrow> stored_artifact \<Rightarrow> stored_artifact" where
  "updated_row a r = r\<lparr>sa_type := sa_type a, sa_size := sa_size a, sa_checksum := sa_checksum a,
     sa_license := sa_license a, sa_metadata := sa_metadata a, sa_encrypted := sa_encrypted a,
     sa_enc_version := sa_enc_version a, sa_enc_dek := sa_enc_dek a, sa_enc_algorithm := sa_enc_algorithm a,
     sa_enc_metadata := sa_enc_metadata a\<rparr>"

definition update_artifact ::
  "record_env \<Rightarrow> stored_artifact \<Rightarrow> stored_artifact list \<Rightarrow> (record_error + stored_artifact) \<times> stored_artifact list" where
  "update_artifact env a rows =
     (case row_of (sa_id a) rows of
        None \<Rightarrow> (Inl UpdateRefused, rows)
      | Some r \<Rightarrow>
     (if \<not> re_update_ok env \<or> \<not> re_accepts env (updated_row a r) \<or> sa_enc_metadata a = None \<and> \<not> re_nil_json_ok env
      then (Inl UpdateRefused, rows)
      else let a = a\<lparr>sa_uploaded_at := sa_uploaded_at r, sa_created_at := sa_created_at r\<rparr>;
               rows = change_row (sa_id a) (updated_row a) rows
           in if sa_tags a = [] then (Inr a, rows)
              else if \<not> re_clear_tags_ok env then (Inl ClearTagsFailed, rows)
              else case add_tags env (sa_id a) (sa_tags a) (change_row (sa_id a) (\<lambda>r. r\<lparr>sa_tags := []\<rparr>) rows) of
                  (Inl e, rows) \<Rightarrow> (Inl e, rows)
                | (Inr _, rows) \<Rightarrow> (Inr a, rows)))"

text \<open>
  An insertion is refused by the primary key and by \<^verbatim>\<open>UNIQUE(tenant_id, repository_id, name, version)\<close>
  as a duplicate, which the caller takes for success.
\<close>

datatype insertion = RowInserted | Duplicate | InsertRefused

definition try_insert :: "record_env \<Rightarrow> stored_artifact \<Rightarrow> stored_artifact list \<Rightarrow> insertion" where
  "try_insert env a rows =
     (if \<not> re_accepts env a then InsertRefused
      else if \<exists>r \<in> set rows. sa_id r = sa_id a
             \<or> sa_tenant r = sa_tenant a \<and> same_release (sa_name a) (sa_version a) (sa_repo a) r
      then Duplicate else RowInserted)"

definition inserted_row :: "record_env \<Rightarrow> uuid \<Rightarrow> stored_artifact \<Rightarrow> stored_artifact" where
  "inserted_row env tenant a =
     a\<lparr>sa_id := re_new_id env, sa_tenant := tenant, sa_uploaded_at := re_now env, sa_created_at := re_now env,
       sa_downloads := 0, sa_tags := [], sa_enc_metadata := (if sa_enc_metadata a = Some [] then None else sa_enc_metadata a)\<rparr>"

definition insert_as ::
  "record_env \<Rightarrow> uuid \<Rightarrow> stored_artifact \<Rightarrow> stored_artifact list \<Rightarrow> (record_error + stored_artifact) \<times> stored_artifact list" where
  "insert_as env tenant a rows =
     (let row = inserted_row env tenant a;
          a = a\<lparr>sa_id := re_new_id env, sa_uploaded_at := re_now env, sa_created_at := re_now env\<rparr>
      in case try_insert env row rows of
           InsertRefused \<Rightarrow> (Inl InsertFailed, rows)
         | Duplicate \<Rightarrow>
             (case if re_refetch_ok env then get_by_name_version_repo env (sa_name a) (sa_version a) (sa_repo a) rows else None of
                Some r \<Rightarrow> (Inr (a\<lparr>sa_id := sa_id r, sa_uploaded_at := sa_uploaded_at r, sa_created_at := sa_created_at r\<rparr>), rows)
              | None \<Rightarrow> (Inr (a\<lparr>sa_id := re_temp_id env\<rparr>), rows))
         | RowInserted \<Rightarrow>
             if sa_tags a = [] then (Inr a, rows @ [row])
             else case add_tags env (sa_id a) (sa_tags a) (rows @ [row]) of
                 (Inl e, rows) \<Rightarrow> (Inl e, rows)
               | (Inr _, rows) \<Rightarrow> (Inr a, rows))"

text \<open>Without a tenant of its own the record gets that of the repository.\<close>

definition insert_artifact ::
  "record_env \<Rightarrow> stored_artifact \<Rightarrow> stored_artifact list \<Rightarrow> (record_error + stored_artifact) \<times> stored_artifact list" where
  "insert_artifact env a rows =
     (case if sa_tenant a = uuid_nil then map_option (\<lambda>(_, _, t). t) (re_repo env (sa_repo a)) else Some (sa_tenant a) of
        None \<Rightarrow> (Inl TenantUnknown, rows)
      | Some tenant \<Rightarrow> insert_as env tenant a rows)"

definition create_or_update ::
  "record_env \<Rightarrow> stored_artifact \<Rightarrow> stored_artifact list \<Rightarrow> (record_error + stored_artifact) \<times> stored_artifact list" where
  "create_or_update env a rows =
     (case if re_find_ok env then get_by_name_version_repo env (sa_name a) (sa_version a) (sa_repo a) rows else None of
        Some r \<Rightarrow> update_artifact env (a\<lparr>sa_id := sa_id r\<rparr>) rows
      | None \<Rightarrow> insert_artifact env a rows)"

section \<open>Reading, counting, deleting\<close>

definition get_by_id :: "record_env \<Rightarrow> uuid \<Rightarrow> stored_artifact list \<Rightarrow> record_error + stored_artifact" where
  "get_by_id env i rows =
     (if \<not> re_get_ok env then Inl QueryFailed
      else case row_by_id env i rows of None \<Rightarrow> Inl NotFoundOrDenied | Some r \<Rightarrow> Inr r)"

definition get_by_id_and_tenant :: "record_env \<Rightarrow> uuid \<Rightarrow> uuid \<Rightarrow> stored_artifact list \<Rightarrow> record_error + stored_artifact" where
  "get_by_id_and_tenant env i tenant rows =
     (if \<not> re_get_ok env then Inl QueryFailed
      else case List.find (\<lambda>r. sa_id r = i \<and> sa_tenant r = tenant \<and> re_repo env (sa_repo r) \<noteq> None) rows of
             None \<Rightarrow> Inl NotFoundOrDenied | Some r \<Rightarrow> Inr (without_encryption r))"

definition increment_downloads :: "record_env \<Rightarrow> uuid \<Rightarrow> stored_artifact list \<Rightarrow> stored_artifact list" where
  "increment_downloads env i rows =
     (if re_count_ok env then change_row i (\<lambda>r. r\<lparr>sa_downloads := sa_downloads r + 1\<rparr>) rows else rows)"

definition delete_row :: "record_env \<Rightarrow> uuid \<Rightarrow> stored_artifact list \<Rightarrow> (record_error + unit) \<times> stored_artifact list" where
  "delete_row env i rows =
     (if re_delete_ok env then (Inr (), filter (\<lambda>r. sa_id r \<noteq> i) rows) else (Inl QueryFailed, rows))"

definition delete_by_tenant :: "record_env \<Rightarrow> uuid \<Rightarrow> uuid \<Rightarrow> stored_artifact list \<Rightarrow> (record_error + unit) \<times> stored_artifact list" where
  "delete_by_tenant env i tenant rows =
     (if \<not> re_delete_ok env then (Inl QueryFailed, rows)
      else let kept = filter (\<lambda>r. \<not> (sa_id r = i \<and> sa_tenant r = tenant)) rows
           in if length kept = length rows then (Inl NotFoundOrDenied, rows) else (Inr (), kept))"

definition create_with_tenant ::
  "record_env \<Rightarrow> uuid \<Rightarrow> stored_artifact \<Rightarrow> stored_artifact list \<Rightarrow> (record_error + stored_artifact) \<times> stored_artifact list" where
  "create_with_tenant env tenant a rows = create_or_update env (a\<lparr>sa_tenant := tenant\<rparr>) rows"

section \<open>Listings\<close>

record artifact_filter =
  af_search :: string
  af_types :: "string list"
  af_repositories :: "string list"
  af_repository_id :: "uuid option"
  af_sort_by :: string
  af_sort_order :: string
  af_created_after :: "time option"
  af_created_before :: "time option"
  af_min_size :: "int option"
  af_max_size :: "int option"
  af_limit :: int
  af_offset :: int

text \<open>The conditions of \<^verbatim>\<open>buildWhereClause\<close>.\<close>

definition list_matches :: "record_env \<Rightarrow> artifact_filter \<Rightarrow> stored_artifact \<Rightarrow> bool" where
  "list_matches env f r \<longleftrightarrow>
     re_repo env (sa_repo r) \<noteq> None
     \<and> given (af_repository_id f) (\<lambda>i. sa_repo r = i)
     \<and> (af_search f = [] \<or> ilike (sa_name r) (contains_pattern (af_search f))
        \<or> ilike (sa_version r) (contains_pattern (af_search f)) \<or> ilike (sa_checksum r) (contains_pattern (af_search f)))
     \<and> (af_types f = [] \<or> sa_type r \<in> set (af_types f))
     \<and> (af_repositories f = [] \<or> fst (the (re_repo env (sa_repo r))) \<in> set (af_repositories f))
     \<and> given (af_created_after f) (\<lambda>t. t \<le> sa_created_at r) \<and> given (af_created_before f) (\<lambda>t. sa_created_at r \<le> t)
     \<and> given (af_min_size f) (\<lambda>n. n \<le> sa_size r) \<and> given (af_max_size f) (\<lambda>n. sa_size r \<le> n)"

definition effective_limit :: "artifact_filter \<Rightarrow> int" where
  "effective_limit f = (if af_limit f = 0 then 50 else af_limit f)"

text \<open>Ties are ordered by descending identifier, in both directions.\<close>

definition list_order :: "record_env \<Rightarrow> artifact_filter \<Rightarrow> stored_artifact list \<Rightarrow> stored_artifact list" where
  "list_order env f rows =
     (let rows = order_by True sa_id rows; desc = af_sort_order f = ''desc''; by = af_sort_by f
      in if by = ''name'' then order_by desc (re_collation env \<circ> sa_name) rows
         else if by = ''version'' then order_by desc (re_collation env \<circ> sa_version) rows
         else if by = ''size'' then order_by desc sa_size rows
         else if by = ''uploaded_at'' then order_by desc sa_uploaded_at rows
         else if by = ''downloads'' then order_by desc sa_downloads rows
         else if by = ''type'' then order_by desc (re_collation env \<circ> sa_type) rows
         else order_by True sa_uploaded_at rows)"

definition list_rows ::
  "record_env \<Rightarrow> artifact_filter \<Rightarrow> stored_artifact list \<Rightarrow> record_error + stored_artifact list \<times> nat" where
  "list_rows env f rows =
     (let found = filter (list_matches env f) rows
      in if \<not> re_count_ok env \<or> \<not> re_list_ok env \<or> effective_limit f < 0 \<or> af_offset f < 0 then Inl QueryFailed
         else Inr (map without_encryption (take (nat (effective_limit f)) (drop (nat (af_offset f)) (list_order env f found))),
                   length found))"

text \<open>
  The listing of one tenant. Its filter on types passes a Go slice as a parameter, which
  \<^verbatim>\<open>database/sql\<close> refuses; the count does not join the repositories; equal times keep the order of
  the table.
\<close>

definition tenant_matches :: "uuid \<Rightarrow> artifact_filter \<Rightarrow> stored_artifact \<Rightarrow> bool" where
  "tenant_matches tenant f r \<longleftrightarrow>
     sa_tenant r = tenant
     \<and> (af_search f = [] \<or> ilike (sa_name r) (contains_pattern (af_search f)) \<or> ilike (sa_version r) (contains_pattern (af_search f)))
     \<and> given (af_repository_id f) (\<lambda>i. sa_repo r = i)"

definition list_by_tenant ::
  "record_env \<Rightarrow> uuid \<Rightarrow> artifact_filter \<Rightarrow> stored_artifact list \<Rightarrow> record_error + stored_artifact list \<times> nat" where
  "list_by_tenant env tenant f rows =
     (let counted = filter (tenant_matches tenant f) rows;
          found = rev (sort_key sa_uploaded_at (rev (filter (\<lambda>r. re_repo env (sa_repo r) \<noteq> None) counted)));
          found = drop (nat (af_offset f)) found
      in if af_types f \<noteq> [] \<or> \<not> re_count_ok env \<or> \<not> re_list_ok env then Inl QueryFailed
         else Inr (map without_encryption (if 0 < af_limit f then take (nat (af_limit f)) found else found), length counted))"

definition get_by_name_version_type ::
  "record_env \<Rightarrow> string \<Rightarrow> string \<Rightarrow> string \<Rightarrow> stored_artifact list \<Rightarrow> record_error + stored_artifact list" where
  "get_by_name_version_type env name version type rows =
     (case list_rows env \<lparr>af_search = name @ '' '' @ version, af_types = [type], af_repositories = [], af_repository_id = None,
          af_sort_by = [], af_sort_order = [], af_created_after = None, af_created_before = None,
          af_min_size = None, af_max_size = None, af_limit = 10, af_offset = 0\<rparr> rows of
        Inl e \<Rightarrow> Inl e
      | Inr (found, _) \<Rightarrow> Inr (filter (\<lambda>r. sa_name r = name \<and> sa_version r = version \<and> sa_type r = type) found))"

section \<open>What the listings return\<close>

lemma without_encryption_simps [simp]:
  "sa_id (without_encryption r) = sa_id r" "sa_name (without_encryption r) = sa_name r"
  "sa_version (without_encryption r) = sa_version r" "sa_type (without_encryption r) = sa_type r"
  "sa_repo (without_encryption r) = sa_repo r" "sa_tenant (without_encryption r) = sa_tenant r"
  "sa_metadata (without_encryption r) = sa_metadata r" "sa_encrypted (without_encryption r) = False"
  by (simp_all add: without_encryption_def)

lemma set_list_order [simp]: "set (list_order env f xs) = set xs" and length_list_order [simp]: "length (list_order env f xs) = length xs"
  by (simp_all add: list_order_def Let_def)

lemma sql_like_spaces: "sql_like p s \<Longrightarrow> count_list p CHR '' '' \<le> count_list s CHR '' ''"
proof (induction p s rule: sql_like.induct)
  case (3 c p x s)
  then show ?case by (auto split: if_splits list.splits)
qed auto

lemma to_lower_spaces: "count_list (to_lower s) CHR '' '' = count_list s CHR '' ''"
proof -
  have "lower_char c = CHR '' '' \<longleftrightarrow> c = CHR '' ''" for c
  proof (cases "65 \<le> (of_char c :: nat) \<and> (of_char c :: nat) \<le> 90")
    case True
    then have "of_char (lower_char c) = (of_char c + 32 :: nat)" by (simp add: lower_char_def Let_def of_char_of)
    with True have "(of_char (lower_char c) :: nat) \<noteq> of_char (CHR '' '')" "(of_char c :: nat) \<noteq> of_char (CHR '' '')"
      by auto
    then show ?thesis by metis
  qed (auto simp: lower_char_def Let_def)
  then show ?thesis by (induction s) (auto simp: to_lower_def)
qed

text \<open>
  The exact search of the package registries finds nothing. Searching the listing for name and
  version joined by a space can only match texts with more spaces than the name or the version has,
  so no record is ever returned for it, whatever the table holds, as long as checksums are written
  without spaces; the answer is empty or the database's error.
\<close>

lemma exact_search_finds_nothing:
  assumes "\<forall>r \<in> set rows. CHR '' '' \<notin> set (sa_checksum r)"
  shows "get_by_name_version_type env name version type rows \<in> {Inr [], Inl QueryFailed}"
proof -
  let ?f = "\<lparr>af_search = name @ '' '' @ version, af_types = [type], af_repositories = [], af_repository_id = None,
          af_sort_by = [], af_sort_order = [], af_created_after = None, af_created_before = None,
          af_min_size = None, af_max_size = None, af_limit = 10, af_offset = 0\<rparr>"
  have less: "\<not> ilike s (contains_pattern (name @ '' '' @ version))"
    if "count_list s CHR '' '' \<le> count_list name CHR '' '' + count_list version CHR '' ''" for s
    using sql_like_spaces [of "to_lower (contains_pattern (name @ '' '' @ version))" "to_lower s"] that
    by (auto simp: ilike_def to_lower_spaces contains_pattern_def)
  have "\<not> list_matches env ?f r" if "r \<in> set rows" "sa_name r = name" "sa_version r = version" for r
    using that assms less [of name] less [of version] less [of "sa_checksum r"] by (auto simp: list_matches_def)
  then have none: "filter (\<lambda>r. sa_name r = name \<and> sa_version r = version \<and> sa_type r = type)
      (map without_encryption (take m (list_order env ?f (filter (list_matches env ?f) rows)))) = []" for m
    by (auto simp: filter_empty_conv dest!: in_set_takeD)
  show ?thesis
    using none by (simp add: get_by_name_version_type_def list_rows_def Let_def split del: if_split) simp
qed

lemma list_rows_found:
  assumes "list_rows env f rows = Inr (found, n)"
  shows "set found \<subseteq> without_encryption ` {r \<in> set rows. list_matches env f r}" and "n = length (filter (list_matches env f) rows)"
  using assms by (auto simp: list_rows_def Let_def split: if_splits dest!: in_set_takeD in_set_dropD)

lemma list_by_tenant_found:
  assumes "list_by_tenant env tenant f rows = Inr (found, n)"
  shows "set found \<subseteq> without_encryption ` {r \<in> set rows. sa_tenant r = tenant}" and "af_types f = []"
  using assms by (auto simp: list_by_tenant_def tenant_matches_def Let_def split: if_splits dest!: in_set_takeD in_set_dropD)

lemma list_pages:
  assumes "0 < l" and "re_count_ok env" and "re_list_ok env"
  shows "concat (map (\<lambda>k. fst (projr (list_rows env (f\<lparr>af_limit := int l, af_offset := int (k * l)\<rparr>) rows))) [0..<m])
    = map without_encryption (take (m * l) (list_order env f (filter (list_matches env f) rows)))"
proof -
  have "list_matches env (f\<lparr>af_limit := i, af_offset := j\<rparr>) = list_matches env f" for i j
    by (rule ext) (simp add: list_matches_def)
  moreover have "list_order env (f\<lparr>af_limit := i, af_offset := j\<rparr>) = list_order env f" for i j
    by (rule ext) (simp add: list_order_def)
  ultimately have "fst (projr (list_rows env (f\<lparr>af_limit := int l, af_offset := int (k * l)\<rparr>) rows))
      = map without_encryption (take l (drop (k * l) (list_order env f (filter (list_matches env f) rows))))" for k
    using assms by (simp add: list_rows_def effective_limit_def Let_def del: of_nat_mult)
  then show ?thesis by (simp add: concat_pages [symmetric] map_concat comp_def)
qed

section \<open>What creating changes\<close>

definition rows_ok :: "stored_artifact list \<Rightarrow> bool" where
  "rows_ok rows \<longleftrightarrow> distinct (map sa_id rows)"

lemma row_of_change:
  assumes "\<And>r. sa_id (f r) = sa_id r"
  shows "row_of i (change_row j f rows) = map_option (if i = j then f else (\<lambda>r. r)) (row_of i rows)"
  using assms by (induction rows) (auto simp: row_of_def change_row_def)

lemma row_of_id: "row_of i rows = Some r \<Longrightarrow> sa_id r = i"
  by (auto simp: row_of_def dest: find_SomeD)

lemma row_of_mem: "row_of i rows = Some r \<Longrightarrow> r \<in> set rows"
  by (auto simp: row_of_def dest: find_SomeD)

lemma row_of_member: "rows_ok rows \<Longrightarrow> r \<in> set rows \<Longrightarrow> row_of (sa_id r) rows = Some r"
  by (induction rows) (auto simp: row_of_def rows_ok_def)

lemma row_of_None: "row_of i rows = None \<longleftrightarrow> i \<notin> sa_id ` set rows"
  by (auto simp: row_of_def find_None_iff)

lemma row_of_append: "row_of i (rows @ [r]) = (case row_of i rows of Some r' \<Rightarrow> Some r' | None \<Rightarrow> if sa_id r = i then Some r else None)"
  by (induction rows) (auto simp: row_of_def)

lemma row_of_filter: "i \<noteq> j \<Longrightarrow> row_of i (filter (\<lambda>r. sa_id r \<noteq> j) rows) = row_of i rows"
  by (induction rows) (auto simp: row_of_def)

lemma row_by_id_eq:
  assumes "rows_ok rows"
  shows "row_by_id env i rows = (case row_of i rows of Some r \<Rightarrow> if re_repo env (sa_repo r) \<noteq> None then Some r else None | None \<Rightarrow> None)"
  using assms
proof (induction rows)
  case (Cons r rows)
  have "\<forall>x \<in> set rows. sa_id x \<noteq> sa_id r" using Cons.prems by (auto simp: rows_ok_def image_iff)
  then have "row_by_id env i rows = None" if "sa_id r = i"
    using that by (auto simp: row_by_id_def find_None_iff)
  with Cons show ?case by (auto simp: row_by_id_def row_of_def rows_ok_def simp del: not_None_eq)
qed (simp add: row_by_id_def row_of_def)

lemma rows_ok_change: "(\<And>r. sa_id (f r) = sa_id r) \<Longrightarrow> rows_ok (change_row i f rows) = rows_ok rows"
  by (simp add: rows_ok_def change_row_def comp_def if_distrib cong: if_cong)

lemma add_tags_rows:
  assumes "add_tags env j tags rows = (res, rows')"
  shows "rows_ok rows' = rows_ok rows" and "i \<noteq> j \<Longrightarrow> row_of i rows' = row_of i rows"
    and "row_of j rows = Some r \<Longrightarrow> \<exists>stored. row_of j rows' = Some (r\<lparr>sa_tags := stored\<rparr>)"
  using assms
  by (auto simp: add_tags_def row_of_change rows_ok_change Let_def option.map_ident split: option.splits prod.splits)

lemma updated_row_id [simp]: "sa_id (updated_row a r) = sa_id r"
  by (simp add: updated_row_def)

lemma updated_row_times [simp]: "updated_row (a\<lparr>sa_uploaded_at := t, sa_created_at := u\<rparr>) = updated_row a"
  by (rule ext) (simp add: updated_row_def)

lemma update_artifact_rows:
  assumes "update_artifact env a rows = (res, rows')"
  shows "rows_ok rows' = rows_ok rows" and "i \<noteq> sa_id a \<Longrightarrow> row_of i rows' = row_of i rows"
    and "res = Inr a' \<Longrightarrow> \<exists>r stored. row_of (sa_id a) rows = Some r \<and> sa_id a' = sa_id a
           \<and> row_of (sa_id a) rows' = Some ((updated_row a r)\<lparr>sa_tags := stored\<rparr>)"
proof -
  let ?rows = "change_row (sa_id a) (updated_row a) rows"
  let ?cleared = "change_row (sa_id a) (\<lambda>r. r\<lparr>sa_tags := []\<rparr>) ?rows"
  obtain res1 rows1 where tags: "add_tags env (sa_id a) (sa_tags a) ?cleared = (res1, rows1)" by fastforce
  note t = add_tags_rows [OF tags]
  have cases: "rows' = rows \<or> rows' = ?rows \<or> rows' = rows1"
    using assms tags by (auto simp: update_artifact_def Let_def split: if_splits option.splits sum.splits prod.splits)
  show "rows_ok rows' = rows_ok rows" using cases t(1) by (auto simp: rows_ok_change)
  show "i \<noteq> sa_id a \<Longrightarrow> row_of i rows' = row_of i rows" using cases t(2) by (auto simp: row_of_change option.map_ident)
  show "\<exists>r stored. row_of (sa_id a) rows = Some r \<and> sa_id a' = sa_id a
           \<and> row_of (sa_id a) rows' = Some ((updated_row a r)\<lparr>sa_tags := stored\<rparr>)" if ok: "res = Inr a'"
  proof -
    obtain r where r: "row_of (sa_id a) rows = Some r" and a': "sa_id a' = sa_id a"
        and fin: "rows' = ?rows \<or> rows' = rows1"
      using assms tags ok
      by (auto simp: update_artifact_def Let_def split: if_splits option.splits sum.splits prod.splits)
    have "row_of (sa_id a) ?rows = Some ((updated_row a r)\<lparr>sa_tags := sa_tags r\<rparr>)"
      using r by (simp add: row_of_change) (simp add: updated_row_def)
    moreover have "\<exists>stored. row_of (sa_id a) rows1 = Some ((updated_row a r)\<lparr>sa_tags := stored\<rparr>)"
      using t(3) [of "(updated_row a r)\<lparr>sa_tags := []\<rparr>"] r by (simp add: row_of_change)
    ultimately show ?thesis using r a' fin by blast
  qed
qed

lemma inserted_row_simps [simp]:
  "sa_id (inserted_row env tenant a) = re_new_id env" "sa_tenant (inserted_row env tenant a) = tenant"
  "sa_name (inserted_row env tenant a) = sa_name a" "sa_version (inserted_row env tenant a) = sa_version a"
  "sa_repo (inserted_row env tenant a) = sa_repo a" "sa_tags (inserted_row env tenant a) = []"
  by (simp_all add: inserted_row_def)

lemma insert_as_rows:
  assumes "insert_as env tenant a rows = (res, rows')"
  shows "rows_ok rows \<Longrightarrow> rows_ok rows'" and "row_of i rows = Some r \<Longrightarrow> row_of i rows' = Some r"
    and "res = Inr a' \<Longrightarrow> re_new_id env \<notin> sa_id ` set rows
      \<Longrightarrow> \<not> (\<exists>r \<in> set rows. sa_tenant r = tenant \<and> same_release (sa_name a) (sa_version a) (sa_repo a) r)
      \<Longrightarrow> sa_id a' = re_new_id env \<and> (\<exists>stored. row_of (re_new_id env) rows' = Some ((inserted_row env tenant a)\<lparr>sa_tags := stored\<rparr>))"
proof -
  let ?row = "inserted_row env tenant a"
  obtain res1 rows1 where tags: "add_tags env (re_new_id env) (sa_tags a) (rows @ [?row]) = (res1, rows1)" by fastforce
  note t = add_tags_rows [OF tags]
  have fate: "rows' = rows \<or> re_new_id env \<notin> sa_id ` set rows \<and> (rows' = rows @ [?row] \<or> rows' = rows1)"
    using assms tags
    by (auto simp: insert_as_def try_insert_def Let_def split: if_splits option.splits sum.splits prod.splits insertion.splits)
  show "rows_ok rows \<Longrightarrow> rows_ok rows'" using fate t(1) by (auto simp: rows_ok_def)
  show "row_of i rows' = Some r" if r: "row_of i rows = Some r"
  proof -
    have "i \<in> sa_id ` set rows" using r row_of_None [of i rows] by simp
    then have "rows' = rows \<or> i \<noteq> re_new_id env" using fate by blast
    with r fate t(2) [of i] show ?thesis by (auto simp: row_of_append)
  qed
  show "sa_id a' = re_new_id env \<and> (\<exists>stored. row_of (re_new_id env) rows' = Some (?row\<lparr>sa_tags := stored\<rparr>))"
    if ok: "res = Inr a'" and new: "re_new_id env \<notin> sa_id ` set rows"
      and alone: "\<not> (\<exists>r \<in> set rows. sa_tenant r = tenant \<and> same_release (sa_name a) (sa_version a) (sa_repo a) r)"
  proof -
    have "try_insert env ?row rows \<noteq> Duplicate" using new alone by (auto simp: try_insert_def) (metis image_eqI)
    then have fate: "sa_id a' = re_new_id env \<and> (rows' = rows @ [?row] \<or> rows' = rows1)"
      using assms ok tags
      by (auto simp: insert_as_def Let_def split: if_splits option.splits sum.splits prod.splits insertion.splits)
    have row: "row_of (re_new_id env) (rows @ [?row]) = Some ?row"
      using new row_of_None [of "re_new_id env" rows] by (simp add: row_of_append)
    moreover have "?row = ?row\<lparr>sa_tags := []\<rparr>" by (simp add: inserted_row_def)
    ultimately show ?thesis using fate t(3) [OF row] by metis
  qed
qed

lemma insert_artifact_rows:
  assumes "insert_artifact env a rows = (res, rows')"
  shows "rows_ok rows \<Longrightarrow> rows_ok rows'" and "row_of i rows = Some r \<Longrightarrow> row_of i rows' = Some r"
  using assms insert_as_rows
  by (auto simp: insert_artifact_def split: option.splits if_splits)

lemma found_release:
  assumes "get_by_name_version_repo env name version repo rows = Some r"
  shows "\<exists>r' \<in> set rows. sa_id r' = sa_id r \<and> same_release name version repo r'"
proof -
  obtain r' where "List.find (\<lambda>r. same_release name version repo r \<and> re_repo env (sa_repo r) \<noteq> None) rows = Some r'"
    and "r = without_encryption r'"
    using assms by (auto simp: get_by_name_version_repo_def)
  then show ?thesis using find_SomeD by fastforce
qed

lemma create_or_update_rows:
  assumes "create_or_update env a rows = (res, rows')"
  shows "rows_ok rows \<Longrightarrow> rows_ok rows'"
    and "rows_ok rows \<Longrightarrow> row_of i rows = Some r \<Longrightarrow> \<not> same_release (sa_name a) (sa_version a) (sa_repo a) r
      \<Longrightarrow> row_of i rows' = Some r"
proof -
  consider (update) r' where "get_by_name_version_repo env (sa_name a) (sa_version a) (sa_repo a) rows = Some r'"
        "update_artifact env (a\<lparr>sa_id := sa_id r'\<rparr>) rows = (res, rows')"
    | (insert) "insert_artifact env a rows = (res, rows')"
    using assms by (auto simp: create_or_update_def split: if_splits option.splits)
  note cases = this
  show "rows_ok rows \<Longrightarrow> rows_ok rows'"
    using cases by cases (auto dest: update_artifact_rows(1) insert_artifact_rows(1))
  show "row_of i rows' = Some r"
    if ok: "rows_ok rows" and r: "row_of i rows = Some r" and other: "\<not> same_release (sa_name a) (sa_version a) (sa_repo a) r"
    using cases
  proof cases
    case update
    obtain r'' where "r'' \<in> set rows" "sa_id r'' = sa_id r'" "same_release (sa_name a) (sa_version a) (sa_repo a) r''"
      using found_release [OF update(1)] by blast
    then have "i \<noteq> sa_id r'" using row_of_member [OF ok \<open>r'' \<in> set rows\<close>] r other by auto
    then show ?thesis using update_artifact_rows(2) [OF update(2), of i] r by simp
  next
    case insert
    then show ?thesis by (rule insert_artifact_rows(2)) (rule r)
  qed
qed

text \<open>A row that says of an artifact what was handed to \<^verbatim>\<open>Create\<close>.\<close>

definition records :: "stored_artifact \<Rightarrow> stored_artifact \<Rightarrow> bool" where
  "records a r \<longleftrightarrow>
     sa_name r = sa_name a \<and> sa_version r = sa_version a \<and> sa_type r = sa_type a \<and> sa_repo r = sa_repo a
     \<and> sa_tenant r = sa_tenant a \<and> sa_size r = sa_size a \<and> sa_checksum r = sa_checksum a
     \<and> sa_license r = sa_license a \<and> sa_metadata r = sa_metadata a \<and> sa_encrypted r = sa_encrypted a
     \<and> sa_enc_version r = sa_enc_version a \<and> sa_enc_dek r = sa_enc_dek a
     \<and> sa_enc_algorithm r = sa_enc_algorithm a \<and> sa_enc_metadata r = sa_enc_metadata a"

lemma create_or_update_records:
  assumes "create_or_update env a rows = (Inr a', rows')" and "rows_ok rows" and "re_find_ok env"
    and "sa_tenant a \<noteq> uuid_nil" and "re_repo env (sa_repo a) \<noteq> None" and "sa_enc_metadata a \<noteq> Some []"
    and "re_new_id env \<notin> sa_id ` set rows"
    and own: "\<And>r. r \<in> set rows \<Longrightarrow> same_release (sa_name a) (sa_version a) (sa_repo a) r \<Longrightarrow> sa_tenant r = sa_tenant a"
  shows "\<exists>r. row_of (sa_id a') rows' = Some r \<and> records a r"
proof (cases "get_by_name_version_repo env (sa_name a) (sa_version a) (sa_repo a) rows")
  case None
  have "sa_repo r \<noteq> sa_repo a \<or> sa_name r \<noteq> sa_name a \<or> sa_version r \<noteq> sa_version a" if "r \<in> set rows" for r
    using None that assms(5) by (auto simp: get_by_name_version_repo_def find_None_iff same_release_def)
  then have "\<not> (\<exists>r \<in> set rows. sa_tenant r = sa_tenant a \<and> same_release (sa_name a) (sa_version a) (sa_repo a) r)"
    by (auto simp: same_release_def)
  moreover have "insert_as env (sa_tenant a) a rows = (Inr a', rows')"
    using assms(1,3,4) None by (simp add: create_or_update_def insert_artifact_def)
  ultimately obtain stored where "sa_id a' = re_new_id env"
      "row_of (re_new_id env) rows' = Some ((inserted_row env (sa_tenant a) a)\<lparr>sa_tags := stored\<rparr>)"
    using insert_as_rows(3) [of env "sa_tenant a" a rows "Inr a'" rows' a'] assms(7) by blast
  then show ?thesis using assms(6) by (simp add: records_def inserted_row_def)
next
  case (Some r)
  then obtain r' where found: "r' \<in> set rows" "sa_id r' = sa_id r" "same_release (sa_name a) (sa_version a) (sa_repo a) r'"
    using found_release by blast
  have "update_artifact env (a\<lparr>sa_id := sa_id r'\<rparr>) rows = (Inr a', rows')"
    using assms(1,3) Some found(2) by (simp add: create_or_update_def)
  from update_artifact_rows(3) [OF this refl] row_of_member [OF assms(2) found(1)]
  obtain stored where "sa_id a' = sa_id r'"
      "row_of (sa_id r') rows' = Some ((updated_row (a\<lparr>sa_id := sa_id r'\<rparr>) r')\<lparr>sa_tags := stored\<rparr>)" by auto
  then show ?thesis
    using found(3) own [OF found(1,3)] by (simp add: records_def updated_row_def same_release_def)
qed

text \<open>An existing record of the release is the one that changes, whoever asks.\<close>

lemma create_or_update_found:
  assumes "create_or_update env a rows = (Inr a', rows')" and "rows_ok rows" and "re_find_ok env"
    and "re_repo env (sa_repo a) \<noteq> None" and "r \<in> set rows" and "same_release (sa_name a) (sa_version a) (sa_repo a) r"
    and only: "\<forall>r' \<in> set rows. same_release (sa_name a) (sa_version a) (sa_repo a) r' \<longrightarrow> r' = r"
  shows "sa_id a' = sa_id r \<and> (\<exists>stored. row_of (sa_id r) rows' = Some ((updated_row a r)\<lparr>sa_tags := stored\<rparr>))"
proof -
  have "sa_repo r = sa_repo a" using assms(6) by (simp add: same_release_def)
  then have "List.find (\<lambda>r. same_release (sa_name a) (sa_version a) (sa_repo a) r \<and> re_repo env (sa_repo r) \<noteq> None) rows \<noteq> None"
    using assms(4-6) by (metis (mono_tags, lifting) find_None_iff)
  then obtain r' where found: "get_by_name_version_repo env (sa_name a) (sa_version a) (sa_repo a) rows = Some r'"
    by (auto simp: get_by_name_version_repo_def)
  then have id: "sa_id r' = sa_id r" using found_release [OF found] only by auto
  have "update_artifact env (a\<lparr>sa_id := sa_id r\<rparr>) rows = (Inr a', rows')"
    using assms(1,3) found id by (simp add: create_or_update_def)
  from update_artifact_rows(3) [OF this refl] row_of_member [OF assms(2,5)]
  obtain stored where "sa_id a' = sa_id r" "row_of (sa_id r) rows' = Some ((updated_row (a\<lparr>sa_id := sa_id r\<rparr>) r)\<lparr>sa_tags := stored\<rparr>)"
    by auto
  moreover have "updated_row (a\<lparr>sa_id := sa_id r\<rparr>) r = updated_row a r" by (simp add: updated_row_def)
  ultimately show ?thesis by auto
qed

end
