(* ===== verification/ScanRecords.thy ===== *)
theory ScanRecords
  imports Queries Scanning
begin

text \<open>
  The tables of security scans and of their results (internal/repository/scan_repository.go, the
  types of internal/models/scan.go). The metadata column, which no modelled caller fills, is left out.
\<close>

section \<open>Scans and reports\<close>

record security_scan =
  scn_id :: uuid
  scn_tenant :: uuid
  scn_artifact :: uuid
  scn_status :: string
  scn_type :: string
  scn_priority :: string
  scn_vulnerability :: bool
  scn_malware :: bool
  scn_license :: bool
  scn_dependency :: bool
  scn_started_at :: time
  scn_completed_at :: "time option"
  scn_duration :: "int option"
  scn_error :: "string option"

record vulnerability_item =
  vi_id :: string
  vi_cve :: string
  vi_title :: string
  vi_description :: string
  vi_severity :: string
  vi_score :: rat
  vi_component :: string
  vi_version :: string
  vi_fixed_version :: string
  vi_references :: "string list"
  vi_status :: string

record vulnerability_report =
  vr_total :: int
  vr_critical :: int
  vr_high :: int
  vr_medium :: int
  vr_low :: int
  vr_info :: int
  vr_fixed :: int
  vr_unfixed :: int
  vr_items :: "vulnerability_item list"

record scan_report =
  rp_scan :: uuid
  rp_tenant :: uuid
  rp_score :: int
  rp_risk :: string
  rp_summary :: string
  rp_recommendations :: "string list"
  rp_vulnerabilities :: vulnerability_report
  rp_files_scanned :: int
  rp_threats_found :: int

record scan_tables =
  st_scans :: "security_scan list"
  st_reports :: "scan_report list"

text \<open>
  Whether queries and each kind of statement succeed, the identifier the database generates, and the
  tenant of an artifact.
\<close>

record scan_env =
  se_new_id :: uuid
  se_query_ok :: bool
  se_insert_ok :: bool
  se_update_ok :: bool
  se_save_ok :: bool
  se_artifact_tenant :: "uuid \<Rightarrow> uuid option"

section \<open>Writing\<close>

text \<open>A scan belongs to an artifact; a scan without a tenant gets the artifact's.\<close>

definition create_scan :: "scan_env \<Rightarrow> security_scan \<Rightarrow> scan_tables \<Rightarrow> security_scan option \<times> scan_tables" where
  "create_scan env s t =
     (case if scn_tenant s = uuid_nil then se_artifact_tenant env (scn_artifact s) else Some (scn_tenant s) of
        None \<Rightarrow> (None, t)
      | Some tenant \<Rightarrow>
          if \<not> se_insert_ok env \<or> se_artifact_tenant env (scn_artifact s) = None then (None, t)
          else (Some (s\<lparr>scn_id := se_new_id env\<rparr>),
                t\<lparr>st_scans := st_scans t @ [s\<lparr>scn_id := se_new_id env, scn_tenant := tenant,
                    scn_completed_at := None, scn_duration := None, scn_error := None\<rparr>]\<rparr>))"

text \<open>An update writes the status and the end of a scan, whatever its row said before.\<close>

definition update_scan :: "scan_env \<Rightarrow> security_scan \<Rightarrow> scan_tables \<Rightarrow> bool \<times> scan_tables" where
  "update_scan env s t =
     (if \<not> se_update_ok env then (False, t)
      else (True, t\<lparr>st_scans := map (\<lambda>r. if scn_id r = scn_id s
              then r\<lparr>scn_status := scn_status s, scn_completed_at := scn_completed_at s,
                     scn_duration := scn_duration s, scn_error := scn_error s\<rparr> else r) (st_scans t)\<rparr>))"

definition save_results :: "scan_env \<Rightarrow> scan_report \<Rightarrow> scan_tables \<Rightarrow> bool \<times> scan_tables" where
  "save_results env r t =
     (if \<not> se_save_ok env \<or> rp_scan r \<notin> scn_id ` set (st_scans t) \<or> rp_score r < 0 \<or> 100 < rp_score r
      then (False, t) else (True, t\<lparr>st_reports := st_reports t @ [r]\<rparr>))"

text \<open>Deleting an artifact takes its scans along, and they their results.\<close>

definition drop_artifact_scans :: "uuid \<Rightarrow> scan_tables \<Rightarrow> scan_tables" where
  "drop_artifact_scans artifact t =
     (let gone = map scn_id (filter (\<lambda>s. scn_artifact s = artifact) (st_scans t))
      in t\<lparr>st_scans := filter (\<lambda>s. scn_artifact s \<noteq> artifact) (st_scans t),
           st_reports := filter (\<lambda>r. rp_scan r \<notin> set gone) (st_reports t)\<rparr>)"

section \<open>Reading\<close>

definition scan_by_id :: "scan_env \<Rightarrow> uuid \<Rightarrow> scan_tables \<Rightarrow> security_scan option" where
  "scan_by_id env i t = (if se_query_ok env then List.find (\<lambda>s. scn_id s = i) (st_scans t) else None)"

definition results_of_scan :: "scan_env \<Rightarrow> uuid \<Rightarrow> scan_tables \<Rightarrow> scan_report option" where
  "results_of_scan env i t = (if se_query_ok env then List.find (\<lambda>r. rp_scan r = i) (st_reports t) else None)"

definition is_active :: "security_scan \<Rightarrow> bool" where
  "is_active s \<longleftrightarrow> scn_status s \<in> {''initiated'', ''running''}"

definition active_scan :: "scan_env \<Rightarrow> uuid \<Rightarrow> scan_tables \<Rightarrow> security_scan option" where
  "active_scan env artifact t =
     (if \<not> se_query_ok env then None
      else case newest scn_started_at (filter (\<lambda>s. scn_artifact s = artifact \<and> is_active s) (st_scans t)) of
             [] \<Rightarrow> None | s # _ \<Rightarrow> Some s)"

text \<open>In a descending order NULL comes first.\<close>

definition completion_key :: "security_scan \<Rightarrow> int \<times> time" where
  "completion_key s = (case scn_completed_at s of None \<Rightarrow> (1, 0) | Some t \<Rightarrow> (0, t))"

definition latest_result :: "scan_env \<Rightarrow> uuid \<Rightarrow> scan_tables \<Rightarrow> (security_scan \<times> scan_report option) option" where
  "latest_result env artifact t =
     (if \<not> se_query_ok env then None
      else case newest completion_key (filter (\<lambda>s. scn_artifact s = artifact
                  \<and> scn_status s \<in> {''completed'', ''completed_with_errors''}) (st_scans t)) of
             [] \<Rightarrow> None | s # _ \<Rightarrow> Some (s, results_of_scan env (scn_id s) t))"

definition latest_result_by_tenant ::
  "scan_env \<Rightarrow> uuid \<Rightarrow> uuid \<Rightarrow> scan_tables \<Rightarrow> (security_scan \<times> scan_report option) option" where
  "latest_result_by_tenant env artifact tenant t =
     (if \<not> se_query_ok env \<or> se_artifact_tenant env artifact \<noteq> Some tenant then None
      else case newest completion_key (filter (\<lambda>s. scn_artifact s = artifact \<and> scn_status s = ''completed'') (st_scans t)) of
             [] \<Rightarrow> None | s # _ \<Rightarrow> Some (s, results_of_scan env (scn_id s) t))"

definition get_scan_history :: "scan_env \<Rightarrow> uuid \<Rightarrow> int \<Rightarrow> int \<Rightarrow> scan_tables \<Rightarrow> (security_scan list \<times> nat) option" where
  "get_scan_history env artifact limit offset t =
     (if \<not> se_query_ok env then None
      else let found = filter (\<lambda>s. scn_artifact s = artifact) (st_scans t)
           in map_option (\<lambda>scans. (scans, length found)) (page limit offset (newest scn_started_at found)))"

text \<open>The empty filter and \<^verbatim>\<open>all\<close> let everything through.\<close>

definition passes :: "string \<Rightarrow> string \<Rightarrow> bool" where
  "passes wanted actual \<longleftrightarrow> wanted = [] \<or> wanted = ''all'' \<or> actual = wanted"

definition all_scans ::
  "scan_env \<Rightarrow> string \<Rightarrow> string \<Rightarrow> string \<Rightarrow> int \<Rightarrow> int \<Rightarrow> scan_tables \<Rightarrow> (security_scan list \<times> nat) option" where
  "all_scans env status type priority limit offset t =
     (if \<not> se_query_ok env then None
      else let found = filter (\<lambda>s. passes status (scn_status s) \<and> passes type (scn_type s) \<and> passes priority (scn_priority s)) (st_scans t)
           in map_option (\<lambda>scans. (scans, length found)) (page limit offset (newest scn_started_at found)))"

definition all_scans_by_tenant ::
  "scan_env \<Rightarrow> uuid \<Rightarrow> string \<Rightarrow> string \<Rightarrow> string \<Rightarrow> int \<Rightarrow> int \<Rightarrow> scan_tables \<Rightarrow> (security_scan list \<times> nat) option" where
  "all_scans_by_tenant env tenant status type priority limit offset t =
     all_scans env status type priority limit offset (t\<lparr>st_scans := filter (\<lambda>s. scn_tenant s = tenant) (st_scans t)\<rparr>)"

section \<open>Statistics\<close>

record scan_statistics =
  sx_total :: nat
  sx_completed :: nat
  sx_failed :: nat
  sx_active :: nat
  sx_average_minutes :: rat
  sx_by_type :: "string \<rightharpoonup> nat"
  sx_by_priority :: "string \<rightharpoonup> nat"
  sx_vulnerabilities :: int
  sx_threats :: int

definition count_scans :: "(security_scan \<Rightarrow> bool) \<Rightarrow> scan_tables \<Rightarrow> nat" where
  "count_scans P t = length (filter P (st_scans t))"

definition grouped :: "(security_scan \<Rightarrow> string) \<Rightarrow> scan_tables \<Rightarrow> string \<Rightarrow> nat option" where
  "grouped key t k = (if count_scans (\<lambda>s. key s = k) t = 0 then None else Some (count_scans (\<lambda>s. key s = k) t))"

definition durations :: "scan_tables \<Rightarrow> int list" where
  "durations t = List.map_filter scn_duration (st_scans t)"

text \<open>The average over no row is NULL, which does not scan into a \<^verbatim>\<open>float64\<close>.\<close>

definition get_scan_statistics :: "scan_env \<Rightarrow> scan_tables \<Rightarrow> scan_statistics option" where
  "get_scan_statistics env t =
     (if \<not> se_query_ok env \<or> durations t = [] then None
      else let finished = filter (\<lambda>r. \<exists>s \<in> set (st_scans t). scn_id s = rp_scan r \<and> scn_status s = ''completed'') (st_reports t)
           in Some \<lparr>sx_total = length (st_scans t), sx_completed = count_scans (\<lambda>s. scn_status s = ''completed'') t,
                    sx_failed = count_scans (\<lambda>s. scn_status s = ''failed'') t, sx_active = count_scans is_active t,
                    sx_average_minutes = of_int (sum_list (durations t)) / of_nat (length (durations t)) / 60,
                    sx_by_type = grouped scn_type t, sx_by_priority = grouped scn_priority t,
                    sx_vulnerabilities = sum_list (map (vr_total \<circ> rp_vulnerabilities) finished),
                    sx_threats = sum_list (map rp_threats_found finished)\<rparr>)"

section \<open>Lemmas\<close>

lemma no_statistics_without_durations: "\<forall>s \<in> set (st_scans t). scn_duration s = None \<Longrightarrow> get_scan_statistics env t = None"
  by (simp add: get_scan_statistics_def durations_def map_filter_def)

lemma active_scan_None: "active_scan env artifact t = None \<longleftrightarrow>
    \<not> se_query_ok env \<or> (\<forall>s \<in> set (st_scans t). scn_artifact s = artifact \<longrightarrow> \<not> is_active s)"
proof -
  have "(case l of [] \<Rightarrow> None | s # _ \<Rightarrow> Some s) = None \<longleftrightarrow> l = []" for l :: "security_scan list"
    by (cases l) auto
  then show ?thesis by (simp add: active_scan_def filter_empty_conv)
qed

lemma active_scan_Some:
  assumes "active_scan env artifact t = Some s"
  shows "s \<in> set (st_scans t)" and "scn_artifact s = artifact" and "is_active s"
proof -
  obtain rest where "newest scn_started_at (filter (\<lambda>s. scn_artifact s = artifact \<and> is_active s) (st_scans t)) = s # rest"
    using assms by (auto simp: active_scan_def split: if_splits list.splits)
  then have "s \<in> set (filter (\<lambda>s. scn_artifact s = artifact \<and> is_active s) (st_scans t))"
    by (metis list.set_intros(1) set_newest)
  then show "s \<in> set (st_scans t)" and "scn_artifact s = artifact" and "is_active s" by auto
qed

lemma latest_result_is_latest:
  assumes "latest_result env artifact t = Some (s, r)" and "s' \<in> set (st_scans t)" and "scn_artifact s' = artifact"
    and "scn_status s' = ''completed''"
  shows "completion_key s' \<le> completion_key s"
proof -
  let ?done = "filter (\<lambda>s. scn_artifact s = artifact \<and> scn_status s \<in> {''completed'', ''completed_with_errors''}) (st_scans t)"
  obtain rest where "newest completion_key ?done = s # rest"
    using assms(1) by (auto simp: latest_result_def split: if_splits list.splits)
  then show ?thesis by (rule hd_newest) (use assms in simp)
qed

lemma all_scans_found:
  assumes "all_scans env status type priority limit offset t = Some (scans, n)"
  shows "set scans \<subseteq> set (st_scans t)"
  using assms by (auto simp: all_scans_def page_def Let_def split: if_splits dest!: in_set_takeD in_set_dropD)

lemma tenant_scans_only:
  assumes "all_scans_by_tenant env tenant status type priority limit offset t = Some (scans, n)" and "s \<in> set scans"
  shows "scn_tenant s = tenant"
  using all_scans_found [OF assms(1) [unfolded all_scans_by_tenant_def]] assms(2) by auto

end
