(* ===== verification/Encoding.thy ===== *)
theory Encoding
  imports Prelude
begin

text \<open>
  \<^verbatim>\<open>encoding/base64\<close> with the standard alphabet and padding, as the handlers use it to keep a
  nonce in a JSON document: \<open>base64_encode\<close> is \<^verbatim>\<open>EncodeToString\<close>, \<open>base64_decode\<close> \<^verbatim>\<open>DecodeString\<close>,
  which skips line breaks and ignores the bits behind the last byte. Decoding undoes encoding.
\<close>

section \<open>Digits\<close>

definition std_digit :: "nat \<Rightarrow> char" where
  "std_digit n =
     (if n < 26 then char_of (65 + n) else if n < 52 then char_of (71 + n) else if n < 62 then char_of (n - 4)
      else if n = 62 then CHR ''+'' else CHR ''/'')"

definition std_value :: "char \<Rightarrow> nat option" where
  "std_value c =
     (let n = of_char c :: nat
      in if 65 \<le> n \<and> n \<le> 90 then Some (n - 65) else if 97 \<le> n \<and> n \<le> 122 then Some (n - 71)
         else if 48 \<le> n \<and> n \<le> 57 then Some (n + 4) else if n = 43 then Some 62 else if n = 47 then Some 63 else None)"

lemma std_value_digit [simp]: "n < 64 \<Longrightarrow> std_value (std_digit n) = Some n"
  by (auto simp: std_digit_def std_value_def Let_def)

lemma std_digit_plain [simp]:
  "n < 64 \<Longrightarrow> std_digit n \<noteq> CHR ''=''" "n < 64 \<Longrightarrow> std_digit n \<noteq> CHR 0x0A" "n < 64 \<Longrightarrow> std_digit n \<noteq> CHR 0x0D"
proof -
  have none: "std_value (CHR ''='') = None" "std_value (CHR 0x0A) = None" "std_value (CHR 0x0D) = None"
    by (simp_all add: std_value_def)
  show "n < 64 \<Longrightarrow> std_digit n \<noteq> CHR ''=''" "n < 64 \<Longrightarrow> std_digit n \<noteq> CHR 0x0A" "n < 64 \<Longrightarrow> std_digit n \<noteq> CHR 0x0D"
    by (metis none option.distinct(1) std_value_digit)+
qed

section \<open>Encoding\<close>

fun base64_encode :: "bytes \<Rightarrow> string" where
  "base64_encode (a # b # c # bs) =
     (let n = unat a * 65536 + unat b * 256 + unat c
      in [std_digit (n div 262144), std_digit (n div 4096 mod 64), std_digit (n div 64 mod 64), std_digit (n mod 64)]
         @ base64_encode bs)"
| "base64_encode [a, b] =
     (let n = unat a * 1024 + unat b * 4
      in [std_digit (n div 4096), std_digit (n div 64 mod 64), std_digit (n mod 64), CHR ''=''])"
| "base64_encode [a] = (let n = unat a * 16 in [std_digit (n div 64), std_digit (n mod 64), CHR ''='', CHR ''=''])"
| "base64_encode [] = []"

text \<open>For evaluation the sums are binary integers.\<close>

lemma nat_digit: "0 \<le> i \<Longrightarrow> nat (i div numeral d mod numeral m) = nat i div numeral d mod numeral m"
  by (simp add: nat_mod_distrib nat_div_distrib pos_imp_zdiv_nonneg_iff)

lemma base64_encode_code [code]:
  "base64_encode (a # b # c # bs) =
     (let n = uint a * 65536 + uint b * 256 + uint c; digit = (\<lambda>d. std_digit (nat (n div d mod 64)))
      in [std_digit (nat (n div 262144)), digit 4096, digit 64, digit 1] @ base64_encode bs)"
  "base64_encode [a, b] =
     (let n = uint a * 1024 + uint b * 4
      in [std_digit (nat (n div 4096)), std_digit (nat (n div 64 mod 64)), std_digit (nat (n mod 64)), CHR ''=''])"
  "base64_encode [a] = (let n = uint a * 16 in [std_digit (nat (n div 64)), std_digit (nat (n mod 64)), CHR ''='', CHR ''=''])"
  "base64_encode [] = []"
  by (simp_all add: Let_def nat_digit nat_div_distrib nat_mod_distrib nat_add_distrib nat_mult_distrib)

section \<open>Decoding\<close>

text \<open>Four digits make three bytes; two or one with padding, which ends the text.\<close>

fun decode_quads :: "string \<Rightarrow> bytes option" where
  "decode_quads (a # b # c # d # cs) =
     (case (std_value a, std_value b) of
        (Some x, Some y) \<Rightarrow>
          if c = CHR ''='' then (if d = CHR ''='' \<and> cs = [] then Some [word_of_nat ((x * 64 + y) div 16)] else None)
          else (case std_value c of
             None \<Rightarrow> None
           | Some z \<Rightarrow>
               if d = CHR ''=''
               then (if cs = [] then let n = (x * 64 + y) * 64 + z in Some [word_of_nat (n div 1024), word_of_nat (n div 4 mod 256)]
                     else None)
               else (case (std_value d, decode_quads cs) of
                  (Some w, Some bs) \<Rightarrow>
                    let n = ((x * 64 + y) * 64 + z) * 64 + w
                    in Some ([word_of_nat (n div 65536), word_of_nat (n div 256 mod 256), word_of_nat (n mod 256)] @ bs)
                | _ \<Rightarrow> None))
      | _ \<Rightarrow> None)"
| "decode_quads [] = Some []"
| "decode_quads _ = None"

definition base64_decode :: "string \<Rightarrow> bytes option" where
  "base64_decode s = decode_quads (filter (\<lambda>c. c \<noteq> CHR 0x0A \<and> c \<noteq> CHR 0x0D) s)"

section \<open>Round trip\<close>

lemma unat_byte [simp]: "unat (b :: byte) < 256"
  using unsigned_less [of b, where ?'a = nat] by simp

lemma base64_digits_only: "c \<in> set (base64_encode bs) \<Longrightarrow> c \<noteq> CHR 0x0A \<and> c \<noteq> CHR 0x0D"
proof (induction bs rule: base64_encode.induct)
  case (1 a b c' bs)
  have "unat a * 65536 + unat b * 256 + unat c' < 64 * 262144"
    using unat_byte [of a] unat_byte [of b] unat_byte [of c'] by linarith
  then have "(unat a * 65536 + unat b * 256 + unat c') div 262144 < 64" by (simp add: less_mult_imp_div_less)
  with 1 show ?case by (auto simp: Let_def)
next
  case (2 a b)
  have "(unat a * 1024 + unat b * 4) div 4096 < 64"
    using unat_byte [of a] unat_byte [of b] by (intro less_mult_imp_div_less) linarith
  with 2 show ?case by (auto simp: Let_def)
next
  case (3 a)
  have "unat a * 16 div 64 < 64" using unat_byte [of a] by (intro less_mult_imp_div_less) linarith
  with 3 show ?case by (auto simp: Let_def)
qed simp

lemma regroup:
  fixes n :: nat
  shows "(n div 4096 * 64 + n div 64 mod 64) * 64 + n mod 64 = n"
    and "((n div 262144 * 64 + n div 4096 mod 64) * 64 + n div 64 mod 64) * 64 + n mod 64 = n"
proof -
  have d: "n div 4096 = n div 64 div 64" "n div 262144 = n div 64 div 64 div 64"
    by (simp_all flip: div_mult2_eq)
  show "(n div 4096 * 64 + n div 64 mod 64) * 64 + n mod 64 = n"
    unfolding d by (simp only: div_mult_mod_eq)
  show "((n div 262144 * 64 + n div 4096 mod 64) * 64 + n div 64 mod 64) * 64 + n mod 64 = n"
    unfolding d by (simp only: div_mult_mod_eq)
qed

lemma split_bytes:
  fixes x y z :: nat
  assumes "y < 256" and "z < 256"
  shows "(x * 65536 + y * 256 + z) div 65536 = x" and "(x * 65536 + y * 256 + z) div 256 mod 256 = y"
    and "(x * 65536 + y * 256 + z) mod 256 = z"
    and "(x * 1024 + y * 4) div 1024 = x" and "(x * 1024 + y * 4) div 4 mod 256 = y"
proof -
  show "(x * 65536 + y * 256 + z) div 65536 = x" using assms by (intro div_nat_eqI) simp_all
  have "(x * 65536 + y * 256 + z) div 256 = x * 256 + y" using assms by (intro div_nat_eqI) simp_all
  with assms show "(x * 65536 + y * 256 + z) div 256 mod 256 = y" by simp
  have "x * 65536 + y * 256 + z = (x * 256 + y) * 256 + z" by simp
  with assms show "(x * 65536 + y * 256 + z) mod 256 = z" by (simp only: mod_mult_self3 mod_less)
  show "(x * 1024 + y * 4) div 1024 = x" using assms by (intro div_nat_eqI) simp_all
  have "(x * 1024 + y * 4) div 4 = x * 256 + y" using assms by (intro div_nat_eqI) simp_all
  with assms show "(x * 1024 + y * 4) div 4 mod 256 = y" by simp
qed

lemma decode_encoded: "decode_quads (base64_encode bs) = Some bs"
proof (induction bs rule: base64_encode.induct)
  case (1 a b c bs)
  let ?n = "unat a * 65536 + unat b * 256 + unat c"
  have "?n div 262144 < 64"
    using unat_byte [of a] unat_byte [of b] unat_byte [of c] by (intro less_mult_imp_div_less) linarith
  then show ?case using 1 split_bytes(1-3) [OF unat_byte unat_byte, of "unat a" b c] regroup(2) [of ?n]
    by (simp add: Let_def del: div_mult_mod_eq)
next
  case (2 a b)
  let ?n = "unat a * 1024 + unat b * 4"
  have "?n div 4096 < 64"
    using unat_byte [of a] unat_byte [of b] by (intro less_mult_imp_div_less) linarith
  then show ?case using split_bytes(4,5) [OF unat_byte unat_byte, of "unat a" b] regroup(1) [of ?n]
    by (simp add: Let_def)
next
  case (3 a)
  let ?n = "unat a * 16"
  have "?n div 64 < 64" using unat_byte [of a] by (intro less_mult_imp_div_less) linarith
  moreover have "?n div 64 * 64 + ?n mod 64 = ?n" by (rule div_mult_mod_eq)
  ultimately show ?case by (simp add: Let_def)
qed simp

lemma base64_round_trip [simp]: "base64_decode (base64_encode bs) = Some bs"
proof -
  have "filter (\<lambda>c. c \<noteq> CHR 0x0A \<and> c \<noteq> CHR 0x0D) (base64_encode bs) = base64_encode bs"
    using base64_digits_only [of _ bs] by (simp add: filter_id_conv)
  then show ?thesis by (simp add: base64_decode_def decode_encoded)
qed

end
