(* ===== verification/ArtifactApi.thy ===== *)
theory ArtifactApi
  imports ArtifactRecords ScanRecords Encoding TenantKeys BlobStore Tenants
begin

text \<open>
  The handlers that take artifacts in and hand them out
  (internal/handlers/upload_download_handler.go and the artifact handlers of
  internal/handlers/artifact_handler.go): the composition of the tenant keys, the envelope
  encryption, the blob storage and the table of artifacts. The background work a request starts
  (the scan and the audit entries) is recorded as it is started.
\<close>

section \<open>Requests and state\<close>

record upload_config =
  cf_encryption :: bool
  cf_kms_key :: string
  cf_data :: int
  cf_parity :: int
  cf_scans :: bool
  cf_audit :: bool

text \<open>
  The multipart form: whether it parses, the file (its name, and its content unless reading fails),
  the plain fields, and the two JSON fields as they decode: \<open>None\<close> for invalid JSON; the empty
  field and \<^verbatim>\<open>null\<close> are the empty list.
\<close>

record upload_form =
  fm_parses :: bool
  fm_file :: "(string \<times> bytes option) option"
  fm_name :: string
  fm_version :: string
  fm_repository :: string
  fm_license :: string
  fm_artifact_type :: string
  fm_tags :: "string list option"
  fm_metadata :: "(string \<times> json) list option"

record access_entry =
  ae_event :: string
  ae_tenant :: uuid
  ae_artifact :: uuid
  ae_user :: string
  ae_session :: string
  ae_address :: string

record api_world =
  aw_keys :: tmk_state
  aw_blobs :: blob_storage
  aw_rows :: "stored_artifact list"
  aw_scans :: scan_tables
  aw_audit :: "access_entry list"

text \<open>
  During one call: the database (\<open>pe_rec\<close>), the tenant keys' environment, the KMS, the cipher and
  its randomness, the disk, the clock in seconds, \<^verbatim>\<open>uuid.Parse\<close>, and the database as the scans see it.
\<close>

record api_env =
  pe_rec :: record_env
  pe_tmk :: tmk_env
  pe_kms_enc :: kms_fun
  pe_kms_dec :: kms_fun
  pe_seal :: seal_fun
  pe_open :: open_fun
  pe_rand1 :: "bytes option"
  pe_rand2 :: "bytes option"
  pe_blob :: blob_env
  pe_unix :: int
  pe_parse_uuid :: "string \<Rightarrow> uuid option"
  pe_scan :: scan_env

record upload_receipt =
  rc_id :: uuid
  rc_name :: string
  rc_version :: string
  rc_type :: string
  rc_repository :: string
  rc_size :: int
  rc_checksum :: string
  rc_uploaded_at :: time
  rc_shard_count :: int

datatype upload_answer =
    UpNoTenant | UpBadTenant | UpBadForm | UpNoFile | UpMissingFields | UpBadRepositoryId | UpRepositoryNotFound
  | UpBadTags | UpBadMetadata | UpReadFailed | UpNotImplemented
  | UpKeyFailed tmk_error | UpEncryptFailed enc_error | UpStoreFailed blob_error | UpRecordFailed record_error
  | Uploaded upload_receipt

section \<open>Upload\<close>

definition artifact_blob_id :: "string \<Rightarrow> string \<Rightarrow> int \<Rightarrow> string" where
  "artifact_blob_id name version unix = name @ ''-'' @ version @ ''-'' @ show_int unix"

text \<open>\<^verbatim>\<open>filepath.Ext\<close>: from the last dot of the last path element.\<close>

definition file_ext :: "string \<Rightarrow> string" where
  "file_ext path =
     (let base = last (split_on CHR ''/'' path); parts = split_on CHR ''.'' base
      in if length parts = 1 then [] else CHR ''.'' # last parts)"

text \<open>
  The master key of the tenant is fetched and, when that fails for whatever reason, created; the key
  itself is not used for the artifact.
\<close>

definition ensure_tenant_key ::
  "api_env \<Rightarrow> upload_config \<Rightarrow> gin_context \<Rightarrow> uuid \<Rightarrow> tmk_state \<Rightarrow> (tmk_error + unit) \<times> tmk_state" where
  "ensure_tenant_key env cfg ctx tenant st =
     (case get_active_tmk (pe_kms_dec env) (pe_tmk env) tenant st of
        (Inr _, st) \<Rightarrow> (Inr (), st)
      | (Inl _, st) \<Rightarrow>
          let created_by = (case ctx ''user_id'' of Some (CtxId u) \<Rightarrow> u | _ \<Rightarrow> uuid_nil)
          in case create_tmk (pe_kms_enc env) (pe_tmk env) tenant created_by (cf_kms_key cfg) st of
               (Inl e, st) \<Rightarrow> (Inl e, st)
             | (Inr _, st) \<Rightarrow> (Inr (), st))"

text \<open>The bytes to store and, with encryption, the envelope.\<close>

definition seal_content ::
  "api_env \<Rightarrow> upload_config \<Rightarrow> gin_context \<Rightarrow> uuid \<Rightarrow> bytes \<Rightarrow> tmk_state
     \<Rightarrow> (upload_answer + bytes \<times> encrypted_data option) \<times> tmk_state" where
  "seal_content env cfg ctx tenant content st =
     (if \<not> cf_encryption cfg then (Inr (content, None), st)
      else case ensure_tenant_key env cfg ctx tenant st of
        (Inl e, st) \<Rightarrow> (Inl (UpKeyFailed e), st)
      | (Inr _, st) \<Rightarrow>
          (case encrypt_artifact (pe_seal env) (pe_kms_enc env) (pe_rand1 env) (pe_rand2 env) tenant content (cf_kms_key cfg) of
             Inl e \<Rightarrow> (Inl (UpEncryptFailed e), st)
           | Inr ed \<Rightarrow> (Inr (ed_ciphertext ed, Some ed), st)))"

definition storage_metadata :: "upload_config \<Rightarrow> string \<Rightarrow> string \<Rightarrow> (string \<times> json) list \<Rightarrow> (string \<times> json) list" where
  "storage_metadata cfg blob_id filename m =
     (let m = AList.update ''storage_type'' (JText ''erasure_coded'') m;
          m = AList.update ''storage_id'' (JText blob_id) m;
          m = AList.update ''original_filename'' (JText filename) m;
          m = AList.update ''file_extension'' (JText (file_ext filename)) m;
          m = AList.update ''data_shards'' (JNumber (of_int (cf_data cfg))) m
      in AList.update ''parity_shards'' (JNumber (of_int (cf_parity cfg))) m)"

definition encryption_metadata :: "encrypted_data \<Rightarrow> (string \<times> json) list" where
  "encryption_metadata ed =
     [(''nonce'', JText (base64_encode (ed_nonce ed))), (''encrypted_at'', JNumber (of_int (ed_encrypted_at ed))),
      (''tenant_id'', JText (ed_tenant_id ed)), (''key_version'', JNumber (of_int (ed_key_version ed))),
      (''algorithm'', JText (ed_algorithm ed))]"

definition display_metadata :: "encrypted_data \<Rightarrow> (string \<times> json) list \<Rightarrow> (string \<times> json) list" where
  "display_metadata ed m =
     (let m = AList.update ''encryption_nonce'' (JText (base64_encode (ed_nonce ed))) m;
          m = AList.update ''encrypted_at'' (JNumber (of_int (ed_encrypted_at ed))) m
      in AList.update ''encryption_tenant_id'' (JText (ed_tenant_id ed)) m)"

text \<open>The record as the handler fills it; the repository decides the fields that stay at their zero.\<close>

definition artifact_of_upload ::
  "upload_config \<Rightarrow> upload_form \<Rightarrow> uuid \<Rightarrow> string \<Rightarrow> uuid \<Rightarrow> string \<Rightarrow> string \<Rightarrow> int \<Rightarrow> string
     \<Rightarrow> string list \<Rightarrow> (string \<times> json) list \<Rightarrow> encrypted_data option \<Rightarrow> stored_artifact" where
  "artifact_of_upload cfg f repo type tenant blob_id filename nbytes checksum tags metadata sealed =
     (let m = storage_metadata cfg blob_id filename metadata;
          a = \<lparr>sa_id = uuid_nil, sa_name = fm_name f, sa_version = fm_version f, sa_type = type, sa_repo = repo,
               sa_tenant = tenant, sa_size = nbytes, sa_checksum = checksum,
               sa_license = (if fm_license f = [] then None else Some (fm_license f)), sa_metadata = m, sa_tags = tags,
               sa_uploaded_at = 0, sa_created_at = 0, sa_downloads = 0, sa_encrypted = False, sa_enc_version = 0,
               sa_enc_dek = [], sa_enc_algorithm = [], sa_enc_metadata = None\<rparr>
      in case sealed of
           None \<Rightarrow> a
         | Some ed \<Rightarrow> a\<lparr>sa_encrypted := True, sa_enc_version := ed_key_version ed, sa_enc_dek := ed_encrypted_dek ed,
             sa_enc_algorithm := ed_algorithm ed, sa_enc_metadata := Some (encryption_metadata ed),
             sa_metadata := display_metadata ed m\<rparr>)"

definition new_scan :: "uuid \<Rightarrow> uuid \<Rightarrow> string \<Rightarrow> string \<Rightarrow> bool \<times> bool \<times> bool \<times> bool \<Rightarrow> time \<Rightarrow> security_scan" where
  "new_scan tenant artifact type priority parts started =
     (let (vulnerability, malware, license, dependency) = parts
      in \<lparr>scn_id = uuid_nil, scn_tenant = tenant, scn_artifact = artifact, scn_status = ''initiated'', scn_type = type,
          scn_priority = priority, scn_vulnerability = vulnerability, scn_malware = malware, scn_license = license,
          scn_dependency = dependency, scn_started_at = started, scn_completed_at = None, scn_duration = None, scn_error = None\<rparr>)"

text \<open>The scan is only recorded here; its run is a part of the scan service.\<close>

definition trigger_automatic_scan :: "api_env \<Rightarrow> upload_config \<Rightarrow> uuid \<Rightarrow> uuid \<Rightarrow> scan_tables \<Rightarrow> scan_tables" where
  "trigger_automatic_scan env cfg tenant artifact t =
     (if \<not> cf_scans cfg \<or> active_scan (pe_scan env) artifact t \<noteq> None then t
      else snd (create_scan (pe_scan env)
             (new_scan tenant artifact ''full'' ''normal'' (True, True, True, True) (re_now (pe_rec env))) t))"

text \<open>
  From the encryption on: the blob is stored under the tenant of the request, then the record is
  created; when that fails the blob is deleted again.
\<close>

definition store_and_record ::
  "api_env \<Rightarrow> upload_config \<Rightarrow> gin_context \<Rightarrow> uuid \<Rightarrow> upload_form \<Rightarrow> uuid \<Rightarrow> string \<Rightarrow> string \<Rightarrow> string \<Rightarrow> bytes
     \<Rightarrow> string list \<Rightarrow> (string \<times> json) list \<Rightarrow> api_world \<Rightarrow> upload_answer \<times> api_world" where
  "store_and_record env cfg ctx tenant f repo repo_name type filename content tags metadata w =
     (let checksum = ''sha256:'' @ be_sha (pe_blob env) content;
          blob_id = artifact_blob_id (fm_name f) (fm_version f) (pe_unix env);
          ref = \<lparr>ar_tenant = tenant, ar_repo = repo, ar_artifact = blob_id\<rparr>
      in case seal_content env cfg ctx tenant content (aw_keys w) of
        (Inl answer, st) \<Rightarrow> (answer, w\<lparr>aw_keys := st\<rparr>)
      | (Inr (stored, sealed), st) \<Rightarrow>
     (let w = w\<lparr>aw_keys := st\<rparr>
      in case upload_artifact (pe_blob env) ref (Some stored) (aw_blobs w) of
        (Inl e, bs) \<Rightarrow> (UpStoreFailed e, w\<lparr>aw_blobs := bs\<rparr>)
      | (Inr _, bs) \<Rightarrow>
     (let w = w\<lparr>aw_blobs := bs\<rparr>
      in case create_or_update (pe_rec env)
            (artifact_of_upload cfg f repo type tenant blob_id filename (int (length content)) checksum tags metadata sealed) (aw_rows w) of
        (Inl e, rows) \<Rightarrow>
          (UpRecordFailed e, w\<lparr>aw_rows := rows, aw_blobs := snd (delete_artifact (pe_blob env) ref (aw_blobs w))\<rparr>)
      | (Inr a, rows) \<Rightarrow>
          (Uploaded \<lparr>rc_id = sa_id a, rc_name = sa_name a, rc_version = sa_version a, rc_type = sa_type a,
             rc_repository = repo_name, rc_size = sa_size a, rc_checksum = sa_checksum a,
             rc_uploaded_at = sa_uploaded_at a, rc_shard_count = cf_data cfg + cf_parity cfg\<rparr>,
           w\<lparr>aw_rows := rows, aw_scans := trigger_automatic_scan env cfg tenant (sa_id a) (aw_scans w)\<rparr>))))"

definition upload_handler ::
  "api_env \<Rightarrow> upload_config \<Rightarrow> gin_context \<Rightarrow> upload_form \<Rightarrow> api_world \<Rightarrow> upload_answer \<times> api_world" where
  "upload_handler env cfg ctx f w =
     (case ctx ''tenant_id'' of
        None \<Rightarrow> (UpNoTenant, w)
      | Some (CtxText _) \<Rightarrow> (UpBadTenant, w)
      | Some (CtxId tenant) \<Rightarrow>
     (if \<not> fm_parses f then (UpBadForm, w)
      else case fm_file f of
        None \<Rightarrow> (UpNoFile, w)
      | Some (filename, file) \<Rightarrow>
     (if fm_name f = [] \<or> fm_version f = [] \<or> fm_repository f = [] then (UpMissingFields, w)
      else case pe_parse_uuid env (fm_repository f) of
        None \<Rightarrow> (UpBadRepositoryId, w)
      | Some repo \<Rightarrow>
     (case re_repo (pe_rec env) repo of
        None \<Rightarrow> (UpRepositoryNotFound, w)
      | Some (repo_name, type, _) \<Rightarrow>
     (case fm_tags f of
        None \<Rightarrow> (UpBadTags, w)
      | Some tags \<Rightarrow>
     (case fm_metadata f of
        None \<Rightarrow> (UpBadMetadata, w)
      | Some metadata \<Rightarrow>
     (case file of
        None \<Rightarrow> (UpReadFailed, w)
      | Some content \<Rightarrow>
          if type = ''docker'' \<and> fm_artifact_type f \<in> {''manifest'', ''blob''} then (UpNotImplemented, w)
          else store_and_record env cfg ctx tenant f repo repo_name type filename content tags metadata w)))))))"

section \<open>Download\<close>

text \<open>
  What the handler reads of the request's connection: two headers, the remote address and what
  \<^verbatim>\<open>net.SplitHostPort\<close> makes of it.
\<close>

record client_info =
  ci_forwarded_for :: string
  ci_real_ip :: string
  ci_remote :: string
  ci_remote_host :: "string option"

definition client_address :: "client_info \<Rightarrow> string" where
  "client_address c =
     (if ci_forwarded_for c \<noteq> [] then ci_forwarded_for c
      else if ci_real_ip c \<noteq> [] then ci_real_ip c
      else case ci_remote_host c of Some host \<Rightarrow> host | None \<Rightarrow> ci_remote c)"

text \<open>\<^verbatim>\<open>c.GetString\<close> is empty unless the value is a string.\<close>

definition ctx_string :: "gin_context \<Rightarrow> string \<Rightarrow> string" where
  "ctx_string ctx k = (case ctx k of Some (CtxText s) \<Rightarrow> s | _ \<Rightarrow> [])"

definition access_of :: "string \<Rightarrow> gin_context \<Rightarrow> client_info \<Rightarrow> uuid \<Rightarrow> uuid \<Rightarrow> access_entry" where
  "access_of event ctx c tenant i =
     \<lparr>ae_event = event, ae_tenant = tenant, ae_artifact = i,
      ae_user = (if ctx_string ctx ''user_id'' = [] then ''anonymous'' else ctx_string ctx ''user_id''),
      ae_session = ctx_string ctx ''session_id'', ae_address = client_address c\<rparr>"

definition text_in :: "(string \<times> json) list \<Rightarrow> string \<Rightarrow> string" where
  "text_in m k = (case map_of m k of Some (JText s) \<Rightarrow> s | _ \<Rightarrow> [])"

text \<open>A record without a storage identifier gets the one of the older uploads.\<close>

definition blob_id_of :: "stored_artifact \<Rightarrow> string" where
  "blob_id_of a =
     (if text_in (sa_metadata a) ''storage_id'' \<noteq> [] then text_in (sa_metadata a) ''storage_id''
      else artifact_blob_id (sa_name a) (sa_version a) (sa_created_at a div second))"

definition blob_ref_of :: "stored_artifact \<Rightarrow> artifact_ref" where
  "blob_ref_of a = \<lparr>ar_tenant = sa_tenant a, ar_repo = sa_repo a, ar_artifact = blob_id_of a\<rparr>"

record served_file =
  sv_data :: bytes
  sv_filename :: string
  sv_content_type :: string
  sv_checksum :: string
  sv_type :: string

datatype download_answer =
    DownBadId | DownNotFound | DownAuthRequired | DownAccessDenied | DownDataNotFound | DownFailed blob_error
  | DownKeyMissing | DownEncryptionMissing | DownNonceMissing | DownNonceFormat | DownNonceEncoding | DownNonceType
  | DownDecryptFailed enc_error | Served served_file

text \<open>A number becomes a byte by truncation (\<^verbatim>\<open>byte(float64)\<close>).\<close>

fun nonce_bytes :: "json list \<Rightarrow> bytes option" where
  "nonce_bytes [] = Some []"
| "nonce_bytes (JNumber x # vs) = map_option (\<lambda>bs. word_of_int (truncate_rat x) # bs) (nonce_bytes vs)"
| "nonce_bytes (_ # vs) = None"

definition stored_nonce :: "json \<Rightarrow> download_answer + bytes" where
  "stored_nonce v =
     (case v of
        JList vs \<Rightarrow> (case nonce_bytes vs of None \<Rightarrow> Inl DownNonceFormat | Some bs \<Rightarrow> Inr bs)
      | JText s \<Rightarrow> (case base64_decode s of None \<Rightarrow> Inl DownNonceEncoding | Some bs \<Rightarrow> Inr bs)
      | _ \<Rightarrow> Inl DownNonceType)"

definition open_content :: "api_env \<Rightarrow> upload_config \<Rightarrow> stored_artifact \<Rightarrow> bytes \<Rightarrow> download_answer + bytes" where
  "open_content env cfg a data =
     (if \<not> sa_encrypted a then Inr data
      else if sa_enc_dek a = [] then Inl DownKeyMissing
      else case sa_enc_metadata a of
        None \<Rightarrow> Inl DownEncryptionMissing
      | Some m \<Rightarrow>
     (case map_of m ''nonce'' of
        None \<Rightarrow> Inl DownNonceMissing
      | Some v \<Rightarrow>
     (case stored_nonce v of
        Inl e \<Rightarrow> Inl e
      | Inr nonce \<Rightarrow>
     (case decrypt_artifact (pe_open env) (pe_kms_dec env)
             \<lparr>ed_ciphertext = data, ed_encrypted_dek = sa_enc_dek a, ed_nonce = nonce, ed_algorithm = sa_enc_algorithm a,
              ed_key_version = sa_enc_version a, ed_tenant_id = sa_tenant a, ed_encrypted_at = 0\<rparr> (cf_kms_key cfg) of
        Inl e \<Rightarrow> Inl (DownDecryptFailed e)
      | Inr plaintext \<Rightarrow> Inr plaintext))))"

section \<open>Names and types of files\<close>

definition contains_only_digits :: "string \<Rightarrow> bool" where
  "contains_only_digits s \<longleftrightarrow> s \<noteq> [] \<and> (\<forall>c \<in> set s. 48 \<le> (of_char c :: nat) \<and> (of_char c :: nat) \<le> 57)"

definition sniffed_extension :: "bytes \<Rightarrow> string" where
  "sniffed_extension data =
     (if length data \<le> 4 then ''.bin''
      else if take 2 data = [0x1F, 0x8B] then ''.tar.gz''
      else if take 4 data = [0x50, 0x4B, 3, 4] then ''.zip''
      else if hd data \<in> {of_char CHR ''{'', of_char CHR ''[''} then ''.json'' else ''.bin'')"

definition type_extension :: "string \<Rightarrow> bytes \<Rightarrow> string" where
  "type_extension type data =
     (if type = ''npm'' then ''.tgz'' else if type = ''maven'' then ''.jar'' else if type = ''pypi'' then ''.whl''
      else if type = ''docker'' then ''.json'' else if type = ''helm'' then ''.tgz'' else sniffed_extension data)"

definition download_filename :: "stored_artifact \<Rightarrow> bytes \<Rightarrow> string" where
  "download_filename a data =
     (let original = text_in (sa_metadata a) ''original_filename''; ext = text_in (sa_metadata a) ''file_extension''
      in if original \<noteq> [] then original
         else sa_name a @ ''-'' @ sa_version a
           @ (if ext \<noteq> [] then (if length ext > 1 \<and> hd ext = CHR ''.'' \<and> \<not> contains_only_digits (tl ext) then ext else [])
              else type_extension (sa_type a) data))"

definition extension_types :: "(string \<times> string) list" where
  "extension_types =
     [(''.tar'', ''application/gzip''), (''.tar.gz'', ''application/gzip''), (''.tgz'', ''application/gzip''),
      (''.zip'', ''application/zip''), (''.json'', ''application/json''), (''.jar'', ''application/java-archive''),
      (''.war'', ''application/x-webarchive''), (''.whl'', ''application/zip''), (''.exe'', ''application/x-msdownload''),
      (''.deb'', ''application/x-debian-package''), (''.rpm'', ''application/x-rpm'')]"

definition content_type_of :: "string \<Rightarrow> string \<Rightarrow> string" where
  "content_type_of type filename =
     (case map_of extension_types (file_ext filename) of
        Some t \<Rightarrow> t
      | None \<Rightarrow>
          if type = ''docker'' then ''application/vnd.docker.distribution.manifest.v2+json''
          else if type = ''npm'' then ''application/gzip'' else if type = ''maven'' then ''application/java-archive''
          else if type = ''pypi'' then ''application/zip'' else ''application/octet-stream'')"

definition serve :: "stored_artifact \<Rightarrow> bytes \<Rightarrow> served_file" where
  "serve a data = \<lparr>sv_data = data, sv_filename = download_filename a data,
     sv_content_type = content_type_of (sa_type a) (download_filename a data),
     sv_checksum = sa_checksum a, sv_type = sa_type a\<rparr>"


section \<open>The handlers around the table\<close>

definition count_download :: "api_env \<Rightarrow> upload_config \<Rightarrow> gin_context \<Rightarrow> client_info \<Rightarrow> stored_artifact \<Rightarrow> api_world \<Rightarrow> api_world" where
  "count_download env cfg ctx c a w = w\<lparr>
     aw_rows := increment_downloads (pe_rec env) (sa_id a) (aw_rows w),
     aw_audit := aw_audit w
       @ (if cf_audit cfg \<and> sa_encrypted a then [access_of ''artifact_decryption'' ctx c (sa_tenant a) (sa_id a)] else [])
       @ (if cf_audit cfg then [access_of ''download'' ctx c (sa_tenant a) (sa_id a)] else [])\<rparr>"

definition download_handler ::
  "api_env \<Rightarrow> upload_config \<Rightarrow> gin_context \<Rightarrow> client_info \<Rightarrow> string \<Rightarrow> api_world \<Rightarrow> download_answer \<times> api_world" where
  "download_handler env cfg ctx c param w =
     (case pe_parse_uuid env param of
        None \<Rightarrow> (DownBadId, w)
      | Some i \<Rightarrow>
     (case get_by_id (pe_rec env) i (aw_rows w) of
        Inl _ \<Rightarrow> (DownNotFound, w)
      | Inr a \<Rightarrow>
     (case ctx ''tenant_id'' of
        None \<Rightarrow> (DownAuthRequired, w)
      | Some v \<Rightarrow>
     (if v \<noteq> CtxId (sa_tenant a) then (DownAccessDenied, w)
      else case download_artifact (pe_blob env) (blob_ref_of a) (aw_blobs w) of
        Inl e \<Rightarrow> (if e = ReadMetadataFailed then DownDataNotFound else DownFailed e, w)
      | Inr data \<Rightarrow>
     (case open_content env cfg a data of
        Inl answer \<Rightarrow> (answer, w)
      | Inr content \<Rightarrow> (Served (serve a content), count_download env cfg ctx c a w))))))"

datatype record_answer =
    RecNoTenant | RecBadTenant | RecBadId | RecNotFound | RecDenied | RecBadRequest | RecFailed
  | RecFound stored_artifact | RecCreated stored_artifact | RecDeleted

definition owned_record ::
  "api_env \<Rightarrow> gin_context \<Rightarrow> string \<Rightarrow> api_world \<Rightarrow> record_answer + stored_artifact" where
  "owned_record env ctx param w =
     (case ctx ''tenant_id'' of
        None \<Rightarrow> Inl RecNoTenant
      | Some (CtxText _) \<Rightarrow> Inl RecBadTenant
      | Some (CtxId tenant) \<Rightarrow>
     (case pe_parse_uuid env param of
        None \<Rightarrow> Inl RecBadId
      | Some i \<Rightarrow>
     (case get_by_id (pe_rec env) i (aw_rows w) of
        Inl _ \<Rightarrow> Inl RecNotFound
      | Inr a \<Rightarrow> if sa_tenant a \<noteq> tenant then Inl RecDenied else Inr a)))"

definition get_artifact_handler :: "api_env \<Rightarrow> gin_context \<Rightarrow> string \<Rightarrow> api_world \<Rightarrow> record_answer" where
  "get_artifact_handler env ctx param w = (case owned_record env ctx param w of Inl e \<Rightarrow> e | Inr a \<Rightarrow> RecFound a)"

text \<open>The blob of a deleted record stays.\<close>

definition delete_artifact_handler :: "api_env \<Rightarrow> gin_context \<Rightarrow> string \<Rightarrow> api_world \<Rightarrow> record_answer \<times> api_world" where
  "delete_artifact_handler env ctx param w =
     (case owned_record env ctx param w of
        Inl e \<Rightarrow> (e, w)
      | Inr a \<Rightarrow>
          (case delete_row (pe_rec env) (sa_id a) (aw_rows w) of
             (Inl _, rows) \<Rightarrow> (RecFailed, w\<lparr>aw_rows := rows\<rparr>)
           | (Inr _, rows) \<Rightarrow>
               (RecDeleted, w\<lparr>aw_rows := rows, aw_scans := drop_artifact_scans (sa_id a) (aw_scans w)\<rparr>)))"

record create_request =
  cr_name :: string
  cr_version :: string
  cr_type :: string
  cr_repo :: uuid
  cr_tags :: "string list"

text \<open>\<open>None\<close>: the body does not bind. A required identifier is not the nil one.\<close>

definition artifact_of_request :: "uuid \<Rightarrow> create_request \<Rightarrow> stored_artifact" where
  "artifact_of_request tenant q =
     \<lparr>sa_id = uuid_nil, sa_name = cr_name q, sa_version = cr_version q, sa_type = cr_type q, sa_repo = cr_repo q,
      sa_tenant = tenant, sa_size = 0, sa_checksum = [], sa_license = None, sa_metadata = [], sa_tags = cr_tags q,
      sa_uploaded_at = 0, sa_created_at = 0, sa_downloads = 0, sa_encrypted = False, sa_enc_version = 0,
      sa_enc_dek = [], sa_enc_algorithm = [], sa_enc_metadata = None\<rparr>"

definition create_artifact_handler ::
  "api_env \<Rightarrow> gin_context \<Rightarrow> create_request option \<Rightarrow> api_world \<Rightarrow> record_answer \<times> api_world" where
  "create_artifact_handler env ctx body w =
     (case ctx ''tenant_id'' of
        None \<Rightarrow> (RecNoTenant, w)
      | Some (CtxText _) \<Rightarrow> (RecBadTenant, w)
      | Some (CtxId tenant) \<Rightarrow>
     (case body of
        None \<Rightarrow> (RecBadRequest, w)
      | Some q \<Rightarrow>
          if cr_name q = [] \<or> cr_type q = [] \<or> cr_repo q = uuid_nil then (RecBadRequest, w)
          else case create_or_update (pe_rec env) (artifact_of_request tenant q) (aw_rows w) of
              (Inl _, rows) \<Rightarrow> (RecFailed, w\<lparr>aw_rows := rows\<rparr>)
            | (Inr a, rows) \<Rightarrow> (RecCreated a, w\<lparr>aw_rows := rows\<rparr>)))"

text \<open>The listing of a tenant; the search handler's filter has the same default.\<close>

definition list_artifacts_handler ::
  "api_env \<Rightarrow> gin_context \<Rightarrow> artifact_filter \<Rightarrow> api_world \<Rightarrow> record_answer + stored_artifact list \<times> nat" where
  "list_artifacts_handler env ctx f w =
     (case ctx ''tenant_id'' of
        None \<Rightarrow> Inl RecNoTenant
      | Some (CtxText _) \<Rightarrow> Inl RecBadTenant
      | Some (CtxId tenant) \<Rightarrow>
          (case list_by_tenant (pe_rec env) tenant f (aw_rows w) of Inl _ \<Rightarrow> Inl RecFailed | Inr found \<Rightarrow> Inr found))"

section \<open>Requests in sequence\<close>

datatype api_call =
    CallUpload upload_form | CallDownload client_info string | CallCreate "create_request option" | CallDelete string

fun api_apply :: "upload_config \<Rightarrow> api_env \<times> gin_context \<times> api_call \<Rightarrow> api_world \<Rightarrow> api_world" where
  "api_apply cfg (env, ctx, CallUpload f) w = snd (upload_handler env cfg ctx f w)"
| "api_apply cfg (env, ctx, CallDownload c param) w = snd (download_handler env cfg ctx c param w)"
| "api_apply cfg (env, ctx, CallCreate body) w = snd (create_artifact_handler env ctx body w)"
| "api_apply cfg (env, ctx, CallDelete param) w = snd (delete_artifact_handler env ctx param w)"

definition api_run :: "upload_config \<Rightarrow> (api_env \<times> gin_context \<times> api_call) list \<Rightarrow> api_world \<Rightarrow> api_world" where
  "api_run cfg calls w = fold (api_apply cfg) calls w"


section \<open>What an upload leaves\<close>

abbreviation blob_content :: "blob_env \<Rightarrow> artifact_ref \<Rightarrow> blob_storage \<Rightarrow> bytes option" where
  "blob_content e r bs \<equiv> (case download_artifact e r bs of Inl _ \<Rightarrow> None | Inr d \<Rightarrow> Some d)"

lemma blob_content_Some: "blob_content e r bs = Some d \<longleftrightarrow> download_artifact e r bs = Inr d"
  by (simp split: sum.split)

lemma storage_metadata_id [simp]: "text_in (storage_metadata cfg blob_id filename m) ''storage_id'' = blob_id"
  by (simp add: text_in_def storage_metadata_def Let_def)

lemma display_metadata_id [simp]: "text_in (display_metadata ed m) ''storage_id'' = text_in m ''storage_id''"
  by (simp add: text_in_def display_metadata_def Let_def)

lemma artifact_blob_id_nonempty [simp]: "artifact_blob_id name version unix \<noteq> []"
  by (simp add: artifact_blob_id_def)

lemma artifact_of_upload_simps [simp]:
  "sa_name (artifact_of_upload cfg f repo type tenant b file n h tags m s) = fm_name f"
  "sa_version (artifact_of_upload cfg f repo type tenant b file n h tags m s) = fm_version f"
  "sa_repo (artifact_of_upload cfg f repo type tenant b file n h tags m s) = repo"
  "sa_tenant (artifact_of_upload cfg f repo type tenant b file n h tags m s) = tenant"
  "sa_type (artifact_of_upload cfg f repo type tenant b file n h tags m s) = type"
  "sa_checksum (artifact_of_upload cfg f repo type tenant b file n h tags m s) = h"
  "text_in (sa_metadata (artifact_of_upload cfg f repo type tenant b file n h tags m s)) ''storage_id'' = b"
  by (simp_all add: artifact_of_upload_def Let_def split: option.split)

lemma no_empty_encryption [simp]: "sa_enc_metadata (artifact_of_upload cfg f repo type tenant b file n h tags m s) \<noteq> Some []"
  by (simp add: artifact_of_upload_def Let_def encryption_metadata_def split: option.split)

definition upload_ref :: "api_env \<Rightarrow> uuid \<Rightarrow> uuid \<Rightarrow> upload_form \<Rightarrow> artifact_ref" where
  "upload_ref env tenant repo f =
     \<lparr>ar_tenant = tenant, ar_repo = repo, ar_artifact = artifact_blob_id (fm_name f) (fm_version f) (pe_unix env)\<rparr>"

lemma blob_ref_of_upload [simp]:
  "blob_ref_of (artifact_of_upload cfg f repo type tenant (artifact_blob_id (fm_name f) (fm_version f) (pe_unix env)) file n h tags m s)
     = upload_ref env tenant repo f"
  by (simp add: blob_ref_of_def blob_id_of_def upload_ref_def)

lemma upload_reaches_storage:
  assumes "upload_handler env cfg ctx f w = (answer, w')"
  obtains (refused) "w' = w" "\<And>rc. answer \<noteq> Uploaded rc"
  | (stores) tenant filename content repo repo_name type other tags metadata where
      "ctx ''tenant_id'' = Some (CtxId tenant)" "fm_file f = Some (filename, Some content)"
      "pe_parse_uuid env (fm_repository f) = Some repo" "re_repo (pe_rec env) repo = Some (repo_name, type, other)"
      "store_and_record env cfg ctx tenant f repo repo_name type filename content tags metadata w = (answer, w')"
  using assms
  by (auto simp: upload_handler_def split: option.splits ctx_value.splits if_splits prod.splits)

definition uploaded_record ::
  "api_env \<Rightarrow> upload_config \<Rightarrow> uuid \<Rightarrow> upload_form \<Rightarrow> uuid \<Rightarrow> string \<Rightarrow> string \<Rightarrow> bytes \<Rightarrow> string list \<Rightarrow> (string \<times> json) list
     \<Rightarrow> encrypted_data option \<Rightarrow> stored_artifact" where
  "uploaded_record env cfg tenant f repo type filename content tags metadata sealed =
     artifact_of_upload cfg f repo type tenant (artifact_blob_id (fm_name f) (fm_version f) (pe_unix env)) filename
       (int (length content)) (''sha256:'' @ be_sha (pe_blob env) content) tags metadata sealed"

lemma store_and_record_cases:
  assumes "store_and_record env cfg ctx tenant f repo repo_name type filename content tags metadata w = (answer, w')"
  obtains (unsealed) st where "w' = w\<lparr>aw_keys := st\<rparr>" "\<And>rc. answer \<noteq> Uploaded rc"
  | (unstored) st e bs stored where "upload_artifact (pe_blob env) (upload_ref env tenant repo f) (Some stored) (aw_blobs w) = (Inl e, bs)"
      "w' = w\<lparr>aw_keys := st, aw_blobs := bs\<rparr>" "answer = UpStoreFailed e"
  | (unrecorded) st t bs stored sealed e rows where
      "upload_artifact (pe_blob env) (upload_ref env tenant repo f) (Some stored) (aw_blobs w) = (Inr t, bs)"
      "create_or_update (pe_rec env) (uploaded_record env cfg tenant f repo type filename content tags metadata sealed) (aw_rows w) = (Inl e, rows)"
      "w' = w\<lparr>aw_keys := st, aw_rows := rows, aw_blobs := snd (delete_artifact (pe_blob env) (upload_ref env tenant repo f) bs)\<rparr>"
      "answer = UpRecordFailed e"
  | (recorded) st t bs stored sealed a rows where
      "seal_content env cfg ctx tenant content (aw_keys w) = (Inr (stored, sealed), st)"
      "upload_artifact (pe_blob env) (upload_ref env tenant repo f) (Some stored) (aw_blobs w) = (Inr t, bs)"
      "create_or_update (pe_rec env) (uploaded_record env cfg tenant f repo type filename content tags metadata sealed) (aw_rows w) = (Inr a, rows)"
      "w' = w\<lparr>aw_keys := st, aw_rows := rows, aw_blobs := bs, aw_scans := trigger_automatic_scan env cfg tenant (sa_id a) (aw_scans w)\<rparr>"
      "\<exists>rc. answer = Uploaded rc \<and> rc_id rc = sa_id a"
proof -
  obtain r st where sc: "seal_content env cfg ctx tenant content (aw_keys w) = (r, st)" by fastforce
  show thesis
  proof (cases r)
    case (Inl e)
    have "\<And>rc. e \<noteq> Uploaded rc"
      using sc Inl by (auto simp: seal_content_def split: if_splits sum.splits prod.splits)
    then show thesis using assms sc Inl unsealed [of st] by (simp add: store_and_record_def Let_def)
  next
    case (Inr p)
    obtain stored sealed where p: "p = (stored, sealed)" by (cases p)
    obtain r bs where up: "upload_artifact (pe_blob env) (upload_ref env tenant repo f) (Some stored) (aw_blobs w) = (r, bs)" by fastforce
    obtain ra rows where cu: "create_or_update (pe_rec env)
        (uploaded_record env cfg tenant f repo type filename content tags metadata sealed) (aw_rows w) = (ra, rows)" by fastforce
    note facts = assms sc Inr p up cu
    show thesis
    proof (cases r)
      case (Inl e)
      then show thesis using facts unstored [of stored e bs st] by (auto simp: store_and_record_def Let_def upload_ref_def)
    next
      case up: (Inr t)
      show thesis
      proof (cases ra)
        case (Inl e)
        then show thesis using up facts unrecorded [of stored t bs sealed e rows st]
          by (auto simp: store_and_record_def Let_def upload_ref_def uploaded_record_def)
      next
        case (Inr a)
        then show thesis using up facts recorded [of stored sealed st t bs a rows]
          by (auto simp: store_and_record_def Let_def upload_ref_def uploaded_record_def)
      qed
    qed
  qed
qed


lemma uploaded_record_simps [simp]:
  "sa_name (uploaded_record env cfg tenant f repo type file content tags m s) = fm_name f"
  "sa_version (uploaded_record env cfg tenant f repo type file content tags m s) = fm_version f"
  "sa_repo (uploaded_record env cfg tenant f repo type file content tags m s) = repo"
  "sa_tenant (uploaded_record env cfg tenant f repo type file content tags m s) = tenant"
  "sa_checksum (uploaded_record env cfg tenant f repo type file content tags m s) = ''sha256:'' @ be_sha (pe_blob env) content"
  "sa_enc_metadata (uploaded_record env cfg tenant f repo type file content tags m s) \<noteq> Some []"
  "text_in (sa_metadata (uploaded_record env cfg tenant f repo type file content tags m s)) ''storage_id'' \<noteq> []"
  "blob_ref_of (uploaded_record env cfg tenant f repo type file content tags m s) = upload_ref env tenant repo f"
  by (simp_all add: uploaded_record_def)

section \<open>Requests that leave an artifact alone\<close>

text \<open>A record and its blob, with everything the handlers read of them.\<close>

definition keeps_upload :: "(bytes \<Rightarrow> string) \<Rightarrow> uuid \<Rightarrow> stored_artifact \<Rightarrow> bytes \<Rightarrow> api_world \<Rightarrow> bool" where
  "keeps_upload sha i a stored w \<longleftrightarrow>
     rows_ok (aw_rows w) \<and> (\<exists>r. row_of i (aw_rows w) = Some r \<and> records a r)
     \<and> (\<forall>e. be_sha e = sha \<longrightarrow> blob_content e (blob_ref_of a) (aw_blobs w) = Some stored)"

text \<open>
  A request that neither names the same release of the same repository nor stores its blob in the
  same place, and does not delete the record.
\<close>

definition leaves_alone :: "uuid \<Rightarrow> string \<times> string \<times> uuid \<Rightarrow> artifact_ref \<Rightarrow> api_env \<times> gin_context \<times> api_call \<Rightarrow> bool" where
  "leaves_alone i release ref = (\<lambda>(env, ctx, call). case call of
       CallUpload f \<Rightarrow> (\<forall>tenant repo. ctx ''tenant_id'' = Some (CtxId tenant) \<longrightarrow> pe_parse_uuid env (fm_repository f) = Some repo
           \<longrightarrow> (fm_name f, fm_version f, repo) \<noteq> release \<and> apart_refs (upload_ref env tenant repo f) ref)
     | CallDownload _ _ \<Rightarrow> True
     | CallCreate body \<Rightarrow> (\<forall>q. body = Some q \<longrightarrow> (cr_name q, cr_version q, cr_repo q) \<noteq> release)
     | CallDelete param \<Rightarrow> pe_parse_uuid env param \<noteq> Some i)"

abbreviation alone :: "uuid \<Rightarrow> stored_artifact \<Rightarrow> api_env \<times> gin_context \<times> api_call \<Rightarrow> bool" where
  "alone i a \<equiv> leaves_alone i (sa_name a, sa_version a, sa_repo a) (blob_ref_of a)"

lemma records_downloads [simp]: "records a (r\<lparr>sa_downloads := n\<rparr>) = records a r"
  by (simp add: records_def)

lemma records_release: "records a r \<Longrightarrow> same_release n v p r = same_release n v p a"
  by (simp add: records_def same_release_def)

lemma keeps_rows:
  assumes "keeps_upload sha i a stored w" and "create_or_update env b (aw_rows w) = (res, rows)"
    and "\<not> same_release (sa_name b) (sa_version b) (sa_repo b) a"
  shows "rows_ok rows \<and> (\<exists>r. row_of i rows = Some r \<and> records a r)"
  using assms create_or_update_rows [OF assms(2)] by (auto simp: keeps_upload_def records_release)

lemma keeps_blobs:
  assumes "keeps_upload sha i a stored w" and "apart_refs ref (blob_ref_of a)" and "be_sha e = sha"
  shows "blob_content e (blob_ref_of a) (snd (upload_artifact e' ref (Some d) (aw_blobs w))) = Some stored"
    and "blob_content e (blob_ref_of a) (snd (delete_artifact e'' ref (snd (upload_artifact e' ref (Some d) (aw_blobs w))))) = Some stored"
  using assms blobs.store_apart [OF assms(2), of e e' d "aw_blobs w"] blobs.remove_apart [OF assms(2)]
  by (simp_all add: keeps_upload_def)

lemma keeps_upload:
  assumes "keeps_upload sha i a stored w" and "alone i a (env, ctx, CallUpload f)"
  shows "keeps_upload sha i a stored (snd (upload_handler env cfg ctx f w))"
proof -
  obtain answer w' where h: "upload_handler env cfg ctx f w = (answer, w')" by fastforce
  show ?thesis
  proof (cases rule: upload_reaches_storage [OF h])
    case 1
    then show ?thesis using assms(1) h by simp
  next
    case (2 tenant filename content repo repo_name type other tags metadata)
    have other: "\<not> same_release (fm_name f) (fm_version f) repo a" and apart: "apart_refs (upload_ref env tenant repo f) (blob_ref_of a)"
      using assms(2) 2(1,3) by (auto simp: leaves_alone_def same_release_def)
    note rows = keeps_rows [OF assms(1)]
    note blobs = keeps_blobs [OF assms(1) apart]
    show ?thesis
    proof (cases rule: store_and_record_cases [OF 2(5)])
      case 1
      then show ?thesis using assms(1) h by (simp add: keeps_upload_def)
    next
      case (2 st e bs stored')
      then show ?thesis using assms(1) h blobs(1) [of _ "pe_blob env" stored'] by (simp add: keeps_upload_def)
    next
      case (3 st t bs stored' sealed e rows')
      then show ?thesis using h rows [OF 3(2)] other blobs(2) [of _ "pe_blob env" "pe_blob env" stored'] by (simp add: keeps_upload_def)
    next
      case (4 st t bs stored' sealed b rows')
      then show ?thesis using h rows [OF 4(3)] other blobs(1) [of _ "pe_blob env" stored'] by (simp add: keeps_upload_def)
    qed
  qed
qed


lemma keeps_update_rows:
  assumes "keeps_upload sha i a stored w" and "rows_ok rows" and "\<exists>r. row_of i rows = Some r \<and> records a r"
  shows "keeps_upload sha i a stored (w\<lparr>aw_rows := rows\<rparr>)"
  using assms by (simp add: keeps_upload_def)

lemma keeps_count:
  assumes "keeps_upload sha i a stored w"
  shows "keeps_upload sha i a stored (count_download env cfg ctx c b w)"
proof -
  have "rows_ok (increment_downloads env i' rows) = rows_ok rows" for env i' rows
    by (simp add: increment_downloads_def rows_ok_change)
  moreover have "\<exists>r'. row_of i (increment_downloads env i' rows) = Some r' \<and> records a r'"
    if "row_of i rows = Some r" "records a r" for env i' rows r
    using that by (simp add: increment_downloads_def row_of_change)
  ultimately show ?thesis using assms by (auto simp: keeps_upload_def count_download_def)
qed

lemma keeps_apply:
  assumes "keeps_upload sha i a stored w" and "alone i a (env, ctx, call)"
  shows "keeps_upload sha i a stored (api_apply cfg (env, ctx, call) w)"
proof (cases call)
  case (CallUpload f)
  then show ?thesis using keeps_upload [OF assms(1), of env ctx f cfg] assms(2) by simp
next
  case (CallDownload c param)
  then show ?thesis using assms(1) keeps_count [OF assms(1)]
    by (auto simp: download_handler_def split: option.split sum.split)
next
  case (CallCreate body)
  have "keeps_upload sha i a stored (w\<lparr>aw_rows := rows\<rparr>)"
    if "body = Some q" "create_or_update (pe_rec env) (artifact_of_request tenant q) (aw_rows w) = (res, rows)" for q tenant res rows
    using keeps_rows [OF assms(1) that(2)] assms(2) CallCreate that(1)
    by (intro keeps_update_rows [OF assms(1)]) (auto simp: leaves_alone_def artifact_of_request_def same_release_def)
  then show ?thesis using CallCreate assms(1)
    by (auto simp: create_artifact_handler_def split: option.split ctx_value.split sum.split prod.split)
next
  case (CallDelete param)
  have "keeps_upload sha i a stored (snd (delete_artifact_handler env ctx param w))"
  proof (cases "owned_record env ctx param w")
    case (Inr b)
    then have "pe_parse_uuid env param = Some (sa_id b)"
      by (auto simp: owned_record_def get_by_id_def row_by_id_def split: option.splits ctx_value.splits sum.splits if_splits
          dest!: find_SomeD)
    then have ne: "i \<noteq> sa_id b" using assms(2) CallDelete by (auto simp: leaves_alone_def)
    have "rows_ok (filter P (aw_rows w))" for P
      using assms(1) by (simp add: keeps_upload_def rows_ok_def distinct_map_filter)
    then show ?thesis using Inr assms(1) row_of_filter [OF ne, of "aw_rows w"]
      by (auto simp: delete_artifact_handler_def delete_row_def keeps_upload_def)
  qed (use assms(1) in \<open>simp add: delete_artifact_handler_def\<close>)
  then show ?thesis using CallDelete by simp
qed

lemma keeps_run:
  "keeps_upload sha i a stored w \<Longrightarrow> \<forall>call \<in> set calls. alone i a call \<Longrightarrow> keeps_upload sha i a stored (api_run cfg calls w)"
proof (induction calls arbitrary: w)
  case (Cons call calls)
  obtain env ctx c where "call = (env, ctx, c)" by (cases call)
  with Cons keeps_apply [of sha i a stored w env ctx c cfg] show ?case by (simp add: api_run_def)
qed (simp add: api_run_def)

section \<open>Opening what was sealed\<close>

lemma open_of_sealed:
  assumes "seal_content env cfg ctx tenant content st = (Inr (stored, sealed), st')"
    and "kms_client (pe_kms_enc env) (pe_kms_dec env')" and "gcm_correct (pe_seal env) (pe_open env')"
    and "\<And>key c. pe_kms_enc env (cf_kms_key cfg) key = Inr c \<Longrightarrow> length key = 32 \<Longrightarrow> c \<noteq> []" and "tenant \<noteq> []"
    and "records (uploaded_record env cfg tenant f repo type filename content' tags metadata sealed) r"
  shows "open_content env' cfg r stored = Inr content"
proof (cases "cf_encryption cfg")
  case False
  then show ?thesis using assms(1,6)
    by (simp add: seal_content_def open_content_def records_def uploaded_record_def artifact_of_upload_def)
next
  case True
  obtain ed where enc: "encrypt_artifact (pe_seal env) (pe_kms_enc env) (pe_rand1 env) (pe_rand2 env) tenant content (cf_kms_key cfg) = Inr ed"
      and ed: "stored = ed_ciphertext ed" "sealed = Some ed"
    using assms(1) True by (auto simp: seal_content_def split: sum.splits prod.splits)
  obtain dek where wrapped: "length dek = 32" "pe_kms_enc env (cf_kms_key cfg) dek = Inr (ed_encrypted_dek ed)" "ed_tenant_id ed = tenant"
      "ed_algorithm ed = ''AES-256-GCM''" "ed_key_version ed = 1" "ed_encrypted_at ed = current_unix_timestamp"
    using enc by (rule encrypt_artifact_Inr) auto
  have opened: "decrypt_artifact (pe_open env') (pe_kms_dec env') ed (cf_kms_key cfg) = Inr content"
    by (rule kms_client.decrypt_after_encrypt [OF assms(2,3,5) enc])
  have r: "sa_encrypted r" "sa_enc_dek r = ed_encrypted_dek ed" "sa_enc_metadata r = Some (encryption_metadata ed)"
      "sa_enc_algorithm r = ed_algorithm ed" "sa_enc_version r = ed_key_version ed" "sa_tenant r = tenant"
    using assms(6) ed(2) by (simp_all add: records_def uploaded_record_def artifact_of_upload_def Let_def)
  have "ed = \<lparr>ed_ciphertext = stored, ed_encrypted_dek = sa_enc_dek r, ed_nonce = ed_nonce ed, ed_algorithm = sa_enc_algorithm r,
      ed_key_version = sa_enc_version r, ed_tenant_id = sa_tenant r, ed_encrypted_at = 0\<rparr>"
    using r wrapped(3,6) ed(1) by (cases ed) (simp add: current_unix_timestamp_def)
  then show ?thesis
    using r wrapped assms(4) [OF wrapped(2,1)] opened
    by (simp add: open_content_def encryption_metadata_def stored_nonce_def)
qed


section \<open>Uploaded artifacts are served\<close>

lemma uploaded_keeps:
  assumes "upload_handler env cfg ctx f w = (Uploaded rc, w')"
    and "ctx ''tenant_id'' = Some (CtxId tenant)" and "fm_file f = Some (filename, Some content)"
    and "pe_parse_uuid env (fm_repository f) = Some repo" and "tenant \<noteq> uuid_nil"
    and "rows_ok (aw_rows w)" and "sound_coder (aw_blobs w)"
    and "re_find_ok (pe_rec env)" and "re_new_id (pe_rec env) \<notin> sa_id ` set (aw_rows w)"
    and own: "\<forall>r \<in> set (aw_rows w). same_release (fm_name f) (fm_version f) repo r \<longrightarrow> sa_tenant r = tenant"
  obtains type tags metadata sealed stored st where
    "seal_content env cfg ctx tenant content (aw_keys w) = (Inr (stored, sealed), st)"
    and "keeps_upload (be_sha (pe_blob env)) (rc_id rc)
          (uploaded_record env cfg tenant f repo type filename content tags metadata sealed) stored w'"
    and "\<exists>repo_name other. re_repo (pe_rec env) repo = Some (repo_name, type, other)"
proof (cases rule: upload_reaches_storage [OF assms(1)])
  case 1
  then show ?thesis using 1(2) [of rc] by simp
next
  case (2 tenant' filename' content' repo' repo_name type other tags metadata)
  have same: "tenant' = tenant" "filename' = filename" "content' = content" "repo' = repo"
    using 2(1-3) assms(2-4) by simp_all
  from 2(4) same have repo: "re_repo (pe_rec env) repo \<noteq> None" by simp
  note stores = 2(5) [unfolded same]
  show thesis
  proof (cases rule: store_and_record_cases [OF stores])
    case (1 st)
    then show thesis using 1(2) [of rc] by simp
  next
    case (4 st t bs stored sealed a rows)
    let ?a = "uploaded_record env cfg tenant f repo type filename content tags metadata sealed"
    have id: "rc_id rc = sa_id a" using 4(5) by auto
    have "\<exists>r. row_of (sa_id a) rows = Some r \<and> records ?a r"
      by (rule create_or_update_records [OF 4(3) assms(6,8)]) (use assms(5,9) own repo in simp_all)
    moreover have "rows_ok rows" using create_or_update_rows(1) [OF 4(3) assms(6)] .
    moreover have "blob_content e (upload_ref env tenant repo f) bs = Some stored" if "be_sha e = be_sha (pe_blob env)" for e
      by (rule blobs.fetch_stored [OF assms(7) that]) (use 4(2) in simp)
    ultimately have "keeps_upload (be_sha (pe_blob env)) (rc_id rc) ?a stored w'"
      using 4(4) id by (simp add: keeps_upload_def)
    with 4(1) show thesis by (rule that) (use 2(4) same in simp)
  qed simp_all
qed

lemma text_in_uploaded: "text_in (sa_metadata (uploaded_record env cfg tenant f repo type filename content tags m s)) ''original_filename'' = filename"
  by (simp add: uploaded_record_def artifact_of_upload_def storage_metadata_def display_metadata_def text_in_def Let_def split: option.split)

lemma download_of_kept:
  assumes "keeps_upload sha i a stored w" and "be_sha (pe_blob env) = sha" and "text_in (sa_metadata a) ''storage_id'' \<noteq> []"
    and "\<And>r. records a r \<Longrightarrow> open_content env cfg r stored = Inr content"
    and "pe_parse_uuid env param = Some i" and "re_get_ok (pe_rec env)" and "re_repo (pe_rec env) (sa_repo a) \<noteq> None"
  shows "\<exists>r. records a r \<and> fst (download_handler env cfg ctx c param w)
    = (case ctx ''tenant_id'' of None \<Rightarrow> DownAuthRequired
       | Some v \<Rightarrow> if v = CtxId (sa_tenant a) then Served (serve r content) else DownAccessDenied)"
proof -
  obtain r where r: "row_of i (aw_rows w) = Some r" "records a r" and ok: "rows_ok (aw_rows w)"
    using assms(1) by (auto simp: keeps_upload_def)
  have same: "sa_tenant r = sa_tenant a" "sa_repo r = sa_repo a" "blob_ref_of r = blob_ref_of a"
    using r(2) assms(3) by (simp_all add: records_def blob_ref_of_def blob_id_of_def)
  have "download_artifact (pe_blob env) (blob_ref_of r) (aw_blobs w) = Inr stored"
    using assms(1,2) by (simp add: keeps_upload_def same(3) blob_content_Some [symmetric] del: blob_content_Some)
  then have "fst (download_handler env cfg ctx c param w)
    = (case ctx ''tenant_id'' of None \<Rightarrow> DownAuthRequired
       | Some v \<Rightarrow> if v = CtxId (sa_tenant a) then Served (serve r content) else DownAccessDenied)"
    using r ok assms(4) [OF r(2)] assms(5-7) same
    by (simp add: download_handler_def get_by_id_def row_by_id_eq split: option.split)
  with r(2) show ?thesis by blast
qed



section \<open>A concrete server\<close>

definition api_example :: api_env where
  "api_example =
     \<lparr>pe_rec = \<lparr>re_now = 5, re_new_id = ''i'', re_temp_id = ''x'', re_repo = (\<lambda>_. Some (''lib'', ''npm'', ''t'')), re_get_ok = True,
        re_find_ok = True, re_refetch_ok = True, re_update_ok = True, re_delete_ok = True, re_accepts = (\<lambda>_. True),
        re_clear_tags_ok = True, re_tag_ok = (\<lambda>_. True), re_nil_json_ok = True, re_count_ok = True, re_list_ok = True,
        re_collation = (\<lambda>s. s)\<rparr>,
      pe_tmk = \<lparr>env_now = 0, env_uuid = ''k'', env_rand = Some [], env_db_ok = (\<lambda>_. True), env_tenant_exists = (\<lambda>_. True),
        env_user_exists = (\<lambda>_. True)\<rparr>,
      pe_kms_enc = mock_encrypt [1], pe_kms_dec = mock_decrypt [1], pe_seal = toy_seal, pe_open = toy_open,
      pe_rand1 = Some [7], pe_rand2 = Some [9], pe_blob = demo_env, pe_unix = 100, pe_parse_uuid = Some,
      pe_scan = \<lparr>se_new_id = ''s'', se_query_ok = True, se_insert_ok = True, se_update_ok = True, se_save_ok = True,
        se_artifact_tenant = (\<lambda>_. Some ''t'')\<rparr>\<rparr>"

definition api_config :: "bool \<Rightarrow> upload_config" where
  "api_config encryption = \<lparr>cf_encryption = encryption, cf_kms_key = ''kek'', cf_data = 1, cf_parity = 1, cf_scans = True, cf_audit = True\<rparr>"

definition api_form :: "string \<Rightarrow> string \<Rightarrow> bytes \<Rightarrow> upload_form" where
  "api_form name version content =
     \<lparr>fm_parses = True, fm_file = Some (name @ ''.tgz'', Some content), fm_name = name, fm_version = version,
      fm_repository = ''r'', fm_license = [], fm_artifact_type = [], fm_tags = Some [''new''], fm_metadata = Some []\<rparr>"

definition api_start :: api_world where
  "api_start = \<lparr>aw_keys = new_tmk_service [], aw_blobs = demo_store, aw_rows = [], aw_scans = \<lparr>st_scans = [], st_reports = []\<rparr>, aw_audit = []\<rparr>"

abbreviation as_tenant :: "uuid \<Rightarrow> gin_context" where
  "as_tenant t \<equiv> [''tenant_id'' \<mapsto> CtxId t]"

abbreviation api_uploaded :: "bool \<Rightarrow> api_world" where
  "api_uploaded encryption \<equiv> snd (upload_handler api_example (api_config encryption) (as_tenant ''t'') (api_form ''lib'' ''1'' [1, 2, 3]) api_start)"

definition example_receipt :: "string \<Rightarrow> string \<Rightarrow> bytes \<Rightarrow> uuid \<Rightarrow> upload_receipt" where
  "example_receipt name version content i =
     \<lparr>rc_id = i, rc_name = name, rc_version = version, rc_type = ''npm'', rc_repository = ''lib'', rc_size = int (length content),
      rc_checksum = ''sha256:'' @ be_sha demo_env content, rc_uploaded_at = 5, rc_shard_count = 2\<rparr>"

lemma example_upload:
  "upload_handler api_example (api_config True) (as_tenant ''t'') (api_form ''lib'' ''1'' [1, 2, 3]) api_start
     = (Uploaded (example_receipt ''lib'' ''1'' [1, 2, 3] ''i''), api_uploaded True)"
proof -
  have "fst (upload_handler api_example (api_config True) (as_tenant ''t'') (api_form ''lib'' ''1'' [1, 2, 3]) api_start)
      = Uploaded (example_receipt ''lib'' ''1'' [1, 2, 3] ''i'')" by code_simp
  then show ?thesis by (metis prod.collapse)
qed

lemma example_refs_apart:
  "plain_name t \<Longrightarrow> plain_name t' \<Longrightarrow> plain_name (artifact_blob_id (fm_name f) (fm_version f) (pe_unix env))
   \<Longrightarrow> plain_name (artifact_blob_id (fm_name g) (fm_version g) (pe_unix env'))
   \<Longrightarrow> plain_name p \<Longrightarrow> plain_name p'
   \<Longrightarrow> upload_ref env t p f \<noteq> upload_ref env' t' p' g \<Longrightarrow> apart_refs (upload_ref env t p f) (upload_ref env' t' p' g)"
  using plain_refs_disjoint [of "upload_ref env t p f" "upload_ref env' t' p' g"]
  by (auto simp: apart_refs_def plain_ref_def upload_ref_def)

lemma example_sound: "sound_coder demo_store"
  using demo_coder by (simp add: sound_coder_def)



section \<open>What the checks leave open\<close>

lemma download_apart: "apart_refs (op_ref op) r \<Longrightarrow> download_artifact e' r (blob_apply e op bs) = download_artifact e' r bs"
  by (rule download_cong [OF blob_apply_local]) (simp add: apart_refs_def)

text \<open>
  One tenant's upload makes another tenant's artifact unreadable. The record of a release is found
  by name, version and repository alone. When another tenant uploads the same release, the handler
  answers with success and the existing record then describes the new content, but keeps_upload its owner:
  the blob lies under the uploading tenant, so that the owner is told the data is missing, and the
  uploading tenant is denied. The owner's upload cannot be read by anyone.
\<close>

theorem foreign_upload_locks_artifact:
  assumes "upload_handler env cfg ctx f w = (Uploaded rc, w')"
    and "ctx ''tenant_id'' = Some (CtxId intruder)" and "pe_parse_uuid env (fm_repository f) = Some repo"
    and "rows_ok (aw_rows w)" and "re_find_ok (pe_rec env)"
    and "r \<in> set (aw_rows w)" and "same_release (fm_name f) (fm_version f) repo r"
    and "\<forall>r' \<in> set (aw_rows w). same_release (fm_name f) (fm_version f) repo r' \<longrightarrow> r' = r"
    and "sa_tenant r \<noteq> intruder" and "plain_ref (upload_ref env intruder repo f)" and "plain_name (sa_tenant r)"
    and "download_artifact (pe_blob env') (upload_ref env (sa_tenant r) repo f) (aw_blobs w) = Inl ReadMetadataFailed"
    and "re_get_ok (pe_rec env')" and "re_repo (pe_rec env') repo \<noteq> None" and "pe_parse_uuid env' param = Some (sa_id r)"
  shows "rc_id rc = sa_id r
    \<and> fst (download_handler env' cfg ctx' c param w')
      = (case ctx' ''tenant_id'' of None \<Rightarrow> DownAuthRequired
         | Some v \<Rightarrow> if v = CtxId (sa_tenant r) then DownDataNotFound else DownAccessDenied)"
proof (cases rule: upload_reaches_storage [OF assms(1)])
  case 1
  then show ?thesis using 1(2) [of rc] by simp
next
  case (2 tenant filename content repo' repo_name type other tags metadata)
  have same: "tenant = intruder" "repo' = repo" using 2(1,3) assms(2,3) by simp_all
  from 2(4) same have repo: "re_repo (pe_rec env) repo \<noteq> None" by simp
  note stores = 2(5) [unfolded same]
  show ?thesis
  proof (cases rule: store_and_record_cases [OF stores])
    case (1 st)
    then show ?thesis using 1(2) [of rc] by simp
  next
    case (4 st t bs stored sealed a rows)
    let ?a = "uploaded_record env cfg intruder f repo type filename content tags metadata sealed"
    have "sa_id a = sa_id r \<and> (\<exists>kept. row_of (sa_id r) rows = Some ((updated_row ?a r)\<lparr>sa_tags := kept\<rparr>))"
      by (rule create_or_update_found [OF 4(3) assms(4,5) _ assms(6)]) (use repo assms(7,8) in simp_all)
    then obtain kept where id: "sa_id a = sa_id r" and row: "row_of (sa_id r) rows = Some ((updated_row ?a r)\<lparr>sa_tags := kept\<rparr>)"
      by blast
    obtain r2 where row: "row_of (sa_id r) rows = Some r2" and r2: "sa_tenant r2 = sa_tenant r" "sa_repo r2 = repo"
        "blob_ref_of r2 = upload_ref env (sa_tenant r) repo f"
      using row assms(7) by (simp add: blob_ref_of_def blob_id_of_def updated_row_def upload_ref_def uploaded_record_def same_release_def)
    have "apart_refs (upload_ref env intruder repo f) (upload_ref env (sa_tenant r) repo f)"
      using plain_refs_disjoint [of "upload_ref env intruder repo f" "upload_ref env (sa_tenant r) repo f"] assms(9-11)
      by (auto simp: apart_refs_def plain_ref_def upload_ref_def)
    then have "download_artifact (pe_blob env') (upload_ref env (sa_tenant r) repo f) bs = Inl ReadMetadataFailed"
      using download_apart [of "Upload (upload_ref env intruder repo f) (Some stored)" "upload_ref env (sa_tenant r) repo f"
          "pe_blob env'" "pe_blob env" "aw_blobs w"] 4(2) assms(12) by simp
    moreover have "get_by_id (pe_rec env') (sa_id r) rows = Inr r2"
      using create_or_update_rows(1) [OF 4(3) assms(4)] row assms(13,14) r2(2) by (simp add: get_by_id_def row_by_id_eq)
    ultimately have "fst (download_handler env' cfg ctx' c param w')
      = (case ctx' ''tenant_id'' of None \<Rightarrow> DownAuthRequired
         | Some v \<Rightarrow> if v = CtxId (sa_tenant r) then DownDataNotFound else DownAccessDenied)"
      using 4(4) r2 assms(15) by (simp add: download_handler_def split: option.split)
    then show ?thesis using 4(5) id by auto
  qed simp_all
qed


theorem foreign_upload_locks_artifact_witness:
  "fst (download_handler api_example (api_config False) (as_tenant ''t'') \<lparr>ci_forwarded_for = [], ci_real_ip = [], ci_remote = ''h'', ci_remote_host = None\<rparr> ''i''
     (snd (upload_handler (api_example\<lparr>pe_unix := 101\<rparr>) (api_config False) (as_tenant ''u'') (api_form ''lib'' ''1'' [9]) (api_uploaded False))))
   = DownDataNotFound"
proof -
  let ?env = "api_example\<lparr>pe_unix := 101\<rparr>"
  let ?up = "upload_handler ?env (api_config False) (as_tenant ''u'') (api_form ''lib'' ''1'' [9]) (api_uploaded False)"
  have "fst ?up = Uploaded (example_receipt ''lib'' ''1'' [9] ''i'')" by code_simp
  then have up: "?up = (Uploaded (example_receipt ''lib'' ''1'' [9] ''i''), snd ?up)" by (metis prod.collapse)
  have row: "map (\<lambda>r. (sa_id r, sa_tenant r, sa_name r, sa_version r, sa_repo r)) (aw_rows (api_uploaded False))
      = [(''i'', ''t'', ''lib'', ''1'', ''r'')]" by code_simp
  then obtain r where r: "aw_rows (api_uploaded False) = [r]" "sa_id r = ''i''" "sa_tenant r = ''t''" "sa_name r = ''lib''" "sa_version r = ''1''" "sa_repo r = ''r''"
    by auto
  have none: "download_artifact demo_env \<lparr>ar_tenant = ''t'', ar_repo = ''r'', ar_artifact = ''lib-1-101''\<rparr> (aw_blobs (api_uploaded False)) = Inl ReadMetadataFailed"
    by code_simp
  have id: "artifact_blob_id ''lib'' ''1'' 101 = ''lib-1-101''" by code_simp
  have "rc_id (example_receipt ''lib'' ''1'' [9] ''i'') = sa_id r
    \<and> fst (download_handler api_example (api_config False) (as_tenant ''t'') \<lparr>ci_forwarded_for = [], ci_real_ip = [], ci_remote = ''h'', ci_remote_host = None\<rparr> ''i'' (snd ?up))
      = (case as_tenant ''t'' ''tenant_id'' of None \<Rightarrow> DownAuthRequired
         | Some v \<Rightarrow> if v = CtxId (sa_tenant r) then DownDataNotFound else DownAccessDenied)"
    by (rule foreign_upload_locks_artifact [where intruder = "''u''" and repo = "''r''" and r = r, OF up])
      (use r none id in \<open>simp_all add: api_form_def api_example_def rows_ok_def same_release_def upload_ref_def plain_ref_def plain_name_def\<close>)
  then show ?thesis by (simp add: r(3))
qed


lemma upload_keeps_sound: "sound_coder (aw_blobs w) \<Longrightarrow> sound_coder (aw_blobs (snd (upload_handler env cfg ctx f w)))"
proof -
  assume s: "sound_coder (aw_blobs w)"
  have up: "sound_coder bs" if "upload_artifact e r (Some d) (aw_blobs w) = (x, bs)" for e r d x bs
    using blobs.store_inv [OF s, of e r d] that by simp
  obtain answer w' where h: "upload_handler env cfg ctx f w = (answer, w')" by fastforce
  show ?thesis
  proof (cases rule: upload_reaches_storage [OF h])
    case (2 tenant filename content repo repo_name type other tags metadata)
    show ?thesis
      by (cases rule: store_and_record_cases [OF 2(5)]) (use h s up in \<open>auto intro: blobs.remove_inv\<close>)
  qed (use h s in simp)
qed

text \<open>
  Two releases can share a place on the disk. The blob's name joins name, version and second with
  hyphens, so that releases such as a-1 of version 2 and a of version 1-2, uploaded by a tenant to one
  repository in the same second, have the same blob: both uploads succeed, and the first record then
  serves the content of the second under the checksum of the first.
\<close>

theorem colliding_releases_swap_contents:
  assumes "upload_handler env cfg ctx f w = (Uploaded rc, w1)" and "upload_handler env2 cfg ctx2 g w1 = (Uploaded rc2, w2)"
    and "ctx ''tenant_id'' = Some (CtxId tenant)" and "ctx2 ''tenant_id'' = Some (CtxId tenant)" and "tenant \<noteq> uuid_nil"
    and "fm_file f = Some (file1, Some content1)" and "fm_file g = Some (file2, Some content2)"
    and "pe_parse_uuid env (fm_repository f) = Some repo" and "pe_parse_uuid env2 (fm_repository g) = Some repo"
    and "rows_ok (aw_rows w)" and "sound_coder (aw_blobs w)"
    and "re_find_ok (pe_rec env)" and "re_new_id (pe_rec env) \<notin> sa_id ` set (aw_rows w)"
    and "\<forall>r \<in> set (aw_rows w). same_release (fm_name f) (fm_version f) repo r \<longrightarrow> sa_tenant r = tenant"
    and "\<not> cf_encryption cfg" and "(fm_name g, fm_version g) \<noteq> (fm_name f, fm_version f)"
    and "upload_ref env2 tenant repo g = upload_ref env tenant repo f"
    and "be_sha (pe_blob env') = be_sha (pe_blob env)" and "be_sha (pe_blob env2) = be_sha (pe_blob env)"
    and "re_get_ok (pe_rec env')" and "re_repo (pe_rec env') repo \<noteq> None" and "pe_parse_uuid env' param = Some (rc_id rc)"
    and "ctx' ''tenant_id'' = Some (CtxId tenant)"
  shows "\<exists>file. fst (download_handler env' cfg ctx' c param w2) = Served file
    \<and> sv_data file = content2 \<and> sv_checksum file = ''sha256:'' @ be_sha (pe_blob env) content1"
proof -
  obtain type tags metadata sealed stored st where
      sealed: "seal_content env cfg ctx tenant content1 (aw_keys w) = (Inr (stored, sealed), st)"
      and kept: "keeps_upload (be_sha (pe_blob env)) (rc_id rc)
          (uploaded_record env cfg tenant f repo type file1 content1 tags metadata sealed) stored w1"
      and "\<exists>repo_name other. re_repo (pe_rec env) repo = Some (repo_name, type, other)"
    by (rule uploaded_keeps [OF assms(1,3,6,8,5,10-14)])
  let ?a = "uploaded_record env cfg tenant f repo type file1 content1 tags metadata sealed"
  have plain: "sealed = None" using sealed assms(15) by (simp add: seal_content_def)
  have sound: "sound_coder (aw_blobs w1)" using upload_keeps_sound [OF assms(11), of env cfg ctx f] assms(1) by simp
  obtain type2 tags2 metadata2 sealed2 stored2 st2 t2 bs2 a2 rows2 where
      second: "seal_content env2 cfg ctx2 tenant content2 (aw_keys w1) = (Inr (stored2, sealed2), st2)"
        "upload_artifact (pe_blob env2) (upload_ref env2 tenant repo g) (Some stored2) (aw_blobs w1) = (Inr t2, bs2)"
        "create_or_update (pe_rec env2) (uploaded_record env2 cfg tenant g repo type2 file2 content2 tags2 metadata2 sealed2) (aw_rows w1) = (Inr a2, rows2)"
        "aw_rows w2 = rows2" "aw_blobs w2 = bs2"
  proof (cases rule: upload_reaches_storage [OF assms(2)])
    case 1
    then show thesis using 1(2) [of rc2] by simp
  next
    case (2 tenant' filename content repo' repo_name type other tags metadata)
    have same: "tenant' = tenant" "filename = file2" "content = content2" "repo' = repo"
      using 2(1-3) assms(4,7,9) by simp_all
    show thesis
    proof (cases rule: store_and_record_cases [OF 2(5) [unfolded same]])
      case (1 st)
      then show thesis using 1(2) [of rc2] by simp
    next
      case (4 st t bs stored sealed a rows)
      then show thesis by (intro that [OF 4(1-3)]) simp_all
    qed simp_all
  qed
  have stored2: "stored2 = content2" using second(1) assms(15) by (simp add: seal_content_def)
  have "\<not> same_release (fm_name g) (fm_version g) repo ?a" using assms(16) by (auto simp: same_release_def)
  then have rows: "rows_ok (aw_rows w2) \<and> (\<exists>r. row_of (rc_id rc) (aw_rows w2) = Some r \<and> records ?a r)"
    using keeps_rows [OF kept second(3)] second(4) by simp
  have blob: "blob_content e (blob_ref_of ?a) (aw_blobs w2) = Some content2" if "be_sha e = be_sha (pe_blob env)" for e
  proof -
    have "be_sha e = be_sha (pe_blob env2)" using that assms(19) by simp
    from blobs.fetch_stored [OF sound this, of "upload_ref env2 tenant repo g" content2 bs2]
    show ?thesis using second(2,5) stored2 assms(17) by simp
  qed
  have "keeps_upload (be_sha (pe_blob env)) (rc_id rc) ?a content2 w2"
    using rows blob by (simp add: keeps_upload_def)
  moreover have "open_content env' cfg r content2 = Inr content2" if "records ?a r" for r
    using that plain by (simp add: open_content_def records_def uploaded_record_def artifact_of_upload_def Let_def)
  ultimately obtain r where r: "records ?a r" and "fst (download_handler env' cfg ctx' c param w2)
      = (case ctx' ''tenant_id'' of None \<Rightarrow> DownAuthRequired
         | Some v \<Rightarrow> if v = CtxId (sa_tenant ?a) then Served (serve r content2) else DownAccessDenied)"
    using download_of_kept [of _ "rc_id rc" ?a content2 w2 env' cfg content2 param ctx' c] assms(18,20-22) by fastforce
  then have "fst (download_handler env' cfg ctx' c param w2) = Served (serve r content2)" using assms(23) by simp
  moreover have "sv_checksum (serve r content2) = ''sha256:'' @ be_sha (pe_blob env) content1"
    using r by (simp add: serve_def records_def)
  ultimately show ?thesis by (intro exI [of _ "serve r content2"]) (simp add: serve_def)
qed

lemma colliding_names: "artifact_blob_id ''a-1'' ''2'' n = artifact_blob_id ''a'' ''1-2'' n"
  by (simp add: artifact_blob_id_def)


theorem colliding_releases_swap_contents_witness:
  "\<exists>file. fst (download_handler api_example (api_config False) (as_tenant ''t'') \<lparr>ci_forwarded_for = [], ci_real_ip = [], ci_remote = ''h'', ci_remote_host = None\<rparr> ''i''
     (snd (upload_handler (api_example\<lparr>pe_rec := (pe_rec api_example)\<lparr>re_new_id := ''j''\<rparr>\<rparr>) (api_config False) (as_tenant ''t'') (api_form ''a'' ''1-2'' [9])
       (snd (upload_handler api_example (api_config False) (as_tenant ''t'') (api_form ''a-1'' ''2'' [5]) api_start))))) = Served file
   \<and> sv_data file = [9] \<and> sv_checksum file = ''sha256:'' @ be_sha demo_env [5]"
proof -
  let ?env2 = "api_example\<lparr>pe_rec := (pe_rec api_example)\<lparr>re_new_id := ''j''\<rparr>\<rparr>"
  let ?one = "upload_handler api_example (api_config False) (as_tenant ''t'') (api_form ''a-1'' ''2'' [5]) api_start"
  let ?two = "upload_handler ?env2 (api_config False) (as_tenant ''t'') (api_form ''a'' ''1-2'' [9]) (snd ?one)"
  have "fst ?one = Uploaded (example_receipt ''a-1'' ''2'' [5] ''i'')" by code_simp
  then have one: "?one = (Uploaded (example_receipt ''a-1'' ''2'' [5] ''i''), snd ?one)" by (metis prod.collapse)
  have "fst ?two = Uploaded (example_receipt ''a'' ''1-2'' [9] ''j'')" by code_simp
  then have two: "?two = (Uploaded (example_receipt ''a'' ''1-2'' [9] ''j''), snd ?two)" by (metis prod.collapse)
  have "\<exists>file. fst (download_handler api_example (api_config False) (as_tenant ''t'') \<lparr>ci_forwarded_for = [], ci_real_ip = [], ci_remote = ''h'', ci_remote_host = None\<rparr> ''i'' (snd ?two)) = Served file
      \<and> sv_data file = [9] \<and> sv_checksum file = ''sha256:'' @ be_sha (pe_blob api_example) [5]"
    by (rule colliding_releases_swap_contents [where tenant = "''t''" and repo = "''r''", OF one two])
      (use example_sound colliding_names [of 100] in
        \<open>simp_all add: api_form_def api_example_def api_start_def api_config_def rows_ok_def upload_ref_def example_receipt_def uuid_nil_def\<close>)
  then show ?thesis by (simp add: api_example_def)
qed

end
