(* ===== verification/ScanService.thy ===== *)
theory ScanService
  imports ArtifactApi Resilience
begin

text \<open>
  The scan of an artifact from its record to the compliance audit (internal/service/scan_service.go,
  internal/scanner/scanner_manager.go, \<^verbatim>\<open>ScanWithAll\<close>, internal/repository/compliance_repository.go) and
  the handlers that start, cancel and read scans (internal/handlers/scanning_handler.go and the scan
  handlers of internal/handlers/artifact_handler.go). A scan runs in a goroutine of its own: it is two
  steps, the preparation up to the status running and the rest, between which other requests are served.
\<close>

section \<open>State and environment\<close>

record compliance_audit =
  ca_tenant :: uuid
  ca_artifact :: uuid
  ca_status :: string
  ca_score :: int
  ca_auditor :: string
  ca_license :: string
  ca_security :: string
  ca_quality :: string
  ca_privacy :: string
  ca_audited_at :: time

record scan_world =
  sw_api :: api_world
  sw_files :: "(string \<times> bytes) list"
  sw_audits :: "compliance_audit list"

text \<open>What the scanners are given: the artifact's file, the POM (\<open>None\<close> when its copy is missing), or the generated SBOM.\<close>

datatype scan_input = ArtifactFile bytes | PomFile "bytes option" | SbomFile bytes

datatype scan_failure =
    TempDirFailed | OciReadFailed | NoStorageId | FetchFailed blob_error | FileReadFailed | NoFilePath
  | ScanNonceMissing | ScanNonceEncoding | ScanNonceType | ScanDecryptFailed enc_error | TempWriteFailed
  | StatusUpdateFailed | SaveFailed | FinalUpdateFailed

text \<open>
  Besides the environment of the handlers: the temporary directory and its files (a write that fails may
  leave a part of the content behind), the files other
  uploads left on the disk, the POM beside a JAR and the SBOM generator, the environment variable with
  the key identifier, the scanners as they answer for an input, the database's verdict on an audit, and the
  texts of the errors.
\<close>

record scan_setup =
  sv_api :: api_env
  sv_mkdir_ok :: bool
  sv_write_ok :: bool
  sv_partial :: "bytes \<Rightarrow> bytes option"
  sv_wipe_ok :: bool
  sv_remove_ok :: bool
  sv_noise :: "nat \<Rightarrow> bytes"
  sv_read :: "string \<Rightarrow> bytes option"
  sv_pom_exists :: "string \<Rightarrow> bool"
  sv_pom_copied :: "string \<Rightarrow> bytes option"
  sv_sbom :: "bytes \<Rightarrow> bytes option"
  sv_services :: bool
  sv_kms_key :: string
  sv_registry :: "scan_input \<Rightarrow> scanner_registry"
  sv_context :: scan_context
  sv_order :: "nat list"
  sv_now :: time
  sv_audit_ok :: bool
  sv_message :: "scan_failure \<Rightarrow> string"

section \<open>Fetching the content\<close>

definition string_in :: "(string \<times> json) list \<Rightarrow> string \<Rightarrow> string option" where
  "string_in m k = (case map_of m k of Some (JText s) \<Rightarrow> Some s | _ \<Rightarrow> None)"

definition fetch_stored_blob :: "scan_setup \<Rightarrow> stored_artifact \<Rightarrow> api_world \<Rightarrow> scan_failure + bytes" where
  "fetch_stored_blob env a w =
     (case string_in (sa_metadata a) ''storage_id'' of
        None \<Rightarrow> Inl NoStorageId
      | Some sid \<Rightarrow>
          (case download_artifact (pe_blob (sv_api env)) \<lparr>ar_tenant = sa_tenant a, ar_repo = sa_repo a, ar_artifact = sid\<rparr> (aw_blobs w) of
             Inl e \<Rightarrow> Inl (FetchFailed e)
           | Inr data \<Rightarrow> Inr data))"

definition fetch_for_scan :: "scan_setup \<Rightarrow> stored_artifact \<Rightarrow> api_world \<Rightarrow> scan_failure + bytes" where
  "fetch_for_scan env a w =
     (if sa_type a = ''docker''
      then (case (string_in (sa_metadata a) ''artifact_type'' = Some ''manifest'', string_in (sa_metadata a) ''storage_path'') of
              (True, Some path) \<Rightarrow> (case sv_read env path of None \<Rightarrow> Inl OciReadFailed | Some data \<Rightarrow> Inr data)
            | _ \<Rightarrow> fetch_stored_blob env a w)
      else if string_in (sa_metadata a) ''storage_type'' = Some ''erasure_coded'' then fetch_stored_blob env a w
      else if sa_type a = ''maven'' \<or> sa_type a = ''npm''
      then (case string_in (sa_metadata a) ''file_path'' of
              None \<Rightarrow> Inl NoFilePath
            | Some path \<Rightarrow> (case sv_read env path of None \<Rightarrow> Inl FileReadFailed | Some data \<Rightarrow> Inr data))
      else fetch_stored_blob env a w)"

text \<open>
  An artifact whose record says that it is encrypted is decrypted when the services are set; a nonce
  written as a list of numbers, which the download takes, is refused here.
\<close>

definition open_for_scan :: "scan_setup \<Rightarrow> stored_artifact \<Rightarrow> bytes \<Rightarrow> scan_failure + bytes" where
  "open_for_scan env a data =
     (if \<not> sa_encrypted a \<or> \<not> sv_services env then Inr data
      else case map_of (case sa_enc_metadata a of None \<Rightarrow> [] | Some m \<Rightarrow> m) ''nonce'' of
        None \<Rightarrow> Inl ScanNonceMissing
      | Some (JText s) \<Rightarrow>
          (case base64_decode s of
             None \<Rightarrow> Inl ScanNonceEncoding
           | Some nonce \<Rightarrow>
               (case decrypt_artifact (pe_open (sv_api env)) (pe_kms_dec (sv_api env))
                      \<lparr>ed_ciphertext = data, ed_encrypted_dek = sa_enc_dek a, ed_nonce = nonce, ed_algorithm = sa_enc_algorithm a,
                       ed_key_version = sa_enc_version a, ed_tenant_id = sa_tenant a, ed_encrypted_at = 0\<rparr> (sv_kms_key env) of
                  Inl e \<Rightarrow> Inl (ScanDecryptFailed e)
                | Inr plaintext \<Rightarrow> Inr plaintext))
      | Some _ \<Rightarrow> Inl ScanNonceType)"

section \<open>Temporary files\<close>

definition temp_name :: "uuid \<Rightarrow> uuid \<Rightarrow> string" where
  "temp_name artifact scan = ''artifact-'' @ artifact @ ''-'' @ scan"

text \<open>The deferred clean-up overwrites the file with noise and removes it.\<close>

definition wipe_temp :: "scan_setup \<Rightarrow> string \<Rightarrow> (string \<times> bytes) list \<Rightarrow> (string \<times> bytes) list" where
  "wipe_temp env name files =
     (case map_of files name of
        None \<Rightarrow> files
      | Some content \<Rightarrow>
          if sv_remove_ok env then AList.delete name files
          else if sv_wipe_ok env then AList.update name (sv_noise env (length content)) files else files)"

text \<open>The POM beside a Maven artifact, and the SBOM made of it, take the artifact's place.\<close>

definition scan_input_of :: "scan_setup \<Rightarrow> stored_artifact \<Rightarrow> bytes \<Rightarrow> scan_input" where
  "scan_input_of env a data =
     (case if sa_type a = ''maven'' then string_in (sa_metadata a) ''file_path'' else None of
        None \<Rightarrow> ArtifactFile data
      | Some path \<Rightarrow>
          let pom = trim_suffix path ''.jar'' @ ''.pom''
          in if \<not> sv_pom_exists env pom then ArtifactFile data
             else case sv_pom_copied env pom of
                 None \<Rightarrow> PomFile None
               | Some content \<Rightarrow> (case sv_sbom env content of None \<Rightarrow> PomFile (Some content) | Some sbom \<Rightarrow> SbomFile sbom))"

section \<open>Assessment\<close>

definition scan_with_all :: "scan_setup \<Rightarrow> scan_input \<Rightarrow> string \<Rightarrow> string \<Rightarrow> scan_error + scan_result list" where
  "scan_with_all env input path type =
     (let reg = sv_registry env input;
          workflow = (case get_workflow_for_type type reg of Some flow \<Rightarrow> wf_name flow | None \<Rightarrow> ''generic'')
      in case pipeline_execute (sv_context env) (sv_now env) (sv_order env) reg
             \<lparr>sq_path = path, sq_type = type, sq_workflow = workflow, sq_scanners = [], sq_concurrency = 0, sq_timeout = 0,
              sq_options = \<lparr>op_fail_fast = False, op_retry_count = 0, op_skip_unavailable = False, op_priority = []\<rparr>\<rparr> of
           Inl e \<Rightarrow> Inl e
         | Inr agg \<Rightarrow> Inr (ag_results agg))"

definition item_of :: "vulnerability \<Rightarrow> vulnerability_item" where
  "item_of v = \<lparr>vi_id = vu_id v, vi_cve = vu_cve v, vi_title = vu_title v, vi_description = vu_description v,
     vi_severity = vu_severity v, vi_score = vu_cvss v, vi_component = vu_package v, vi_version = vu_version v,
     vi_fixed_version = vu_fixed_in v, vi_references = vu_references v, vi_status = ''open''\<rparr>"

definition count_severity :: "string \<Rightarrow> vulnerability_item list \<Rightarrow> int" where
  "count_severity s items = int (length (filter (\<lambda>v. vi_severity v = s) items))"

definition convert_scanner_results :: "scan_result list \<Rightarrow> vulnerability_report" where
  "convert_scanner_results results =
     (let items = concat (map (\<lambda>r. map item_of (sr_vulnerabilities r)) results)
      in \<lparr>vr_total = int (length items), vr_critical = count_severity ''CRITICAL'' items, vr_high = count_severity ''HIGH'' items,
          vr_medium = count_severity ''MEDIUM'' items, vr_low = count_severity ''LOW'' items,
          vr_info = int (length (filter (\<lambda>v. vi_severity v \<notin> {''CRITICAL'', ''HIGH'', ''MEDIUM'', ''LOW''}) items)),
          vr_fixed = 0, vr_unfixed = int (length items), vr_items = items\<rparr>)"

definition no_vulnerabilities :: vulnerability_report where
  "no_vulnerabilities = \<lparr>vr_total = 0, vr_critical = 0, vr_high = 0, vr_medium = 0, vr_low = 0, vr_info = 0,
     vr_fixed = 0, vr_unfixed = 0, vr_items = []\<rparr>"

definition generate_summary :: "vulnerability_report \<Rightarrow> string" where
  "generate_summary v =
     (if vr_total v = 0 then ''No vulnerabilities found''
      else ''Found '' @ show_int (vr_total v) @ '' vulnerabilities: '' @ show_int (vr_critical v) @ '' critical, ''
        @ show_int (vr_high v) @ '' high, '' @ show_int (vr_medium v) @ '' medium, '' @ show_int (vr_low v) @ '' low'')"

definition calculate_risk_level :: "vulnerability_report \<Rightarrow> string" where
  "calculate_risk_level v =
     (if 0 < vr_critical v then ''critical'' else if 0 < vr_high v then ''high'' else if 0 < vr_medium v then ''medium'' else ''low'')"

definition calculate_score :: "vulnerability_report \<Rightarrow> int" where
  "calculate_score v =
     (if vr_total v = 0 then 100
      else max 0 (100 - vr_critical v * 20 - vr_high v * 10 - vr_medium v * 5 - vr_low v))"

definition generate_recommendations :: "vulnerability_report \<Rightarrow> string list" where
  "generate_recommendations v =
     (if vr_total v = 0 then [''No vulnerabilities found. Artifact appears secure.'']
      else (if 0 < vr_critical v then [''URGENT: Address critical vulnerabilities immediately''] else [])
         @ (if 0 < vr_high v then [''Address high severity vulnerabilities as soon as possible''] else [])
         @ (if 0 < vr_medium v then [''Plan to address medium severity vulnerabilities''] else [])
         @ (if 0 < vr_low v then [''Consider addressing low severity vulnerabilities when convenient''] else [])
         @ [''Update dependencies to latest secure versions''])"

text \<open>When the scanners fail the report is an empty one.\<close>

definition scan_report_of :: "security_scan \<Rightarrow> scan_error + scan_result list \<Rightarrow> scan_report" where
  "scan_report_of s outcome =
     (case outcome of
        Inl _ \<Rightarrow> \<lparr>rp_scan = scn_id s, rp_tenant = scn_tenant s, rp_score = 0, rp_risk = ''unknown'', rp_summary = ''Scanner failed'',
           rp_recommendations = generate_recommendations no_vulnerabilities, rp_vulnerabilities = no_vulnerabilities,
           rp_files_scanned = 1, rp_threats_found = 0\<rparr>
      | Inr results \<Rightarrow> let v = convert_scanner_results results
          in \<lparr>rp_scan = scn_id s, rp_tenant = scn_tenant s, rp_score = calculate_score v, rp_risk = calculate_risk_level v,
              rp_summary = generate_summary v, rp_recommendations = generate_recommendations v, rp_vulnerabilities = v,
              rp_files_scanned = 1, rp_threats_found = 0\<rparr>)"

section \<open>Compliance audits\<close>

definition create_audit :: "scan_setup \<Rightarrow> compliance_audit \<Rightarrow> compliance_audit list \<Rightarrow> compliance_audit list" where
  "create_audit env c audits =
     (if sv_audit_ok env \<and> 0 \<le> ca_score c \<and> ca_score c \<le> 100 \<and> length (ca_security c) \<le> 50 then audits @ [c] else audits)"

definition audit_history :: "uuid \<Rightarrow> compliance_audit list \<Rightarrow> compliance_audit list" where
  "audit_history artifact audits = newest ca_audited_at (filter (\<lambda>c. ca_artifact c = artifact) audits)"

definition latest_audit :: "scan_setup \<Rightarrow> uuid \<Rightarrow> compliance_audit list \<Rightarrow> compliance_audit option" where
  "latest_audit env artifact audits =
     (if \<not> se_query_ok (pe_scan (sv_api env)) then None
      else case audit_history artifact audits of [] \<Rightarrow> None | c # _ \<Rightarrow> Some c)"

definition security_text :: "vulnerability_report \<Rightarrow> string" where
  "security_text v = ''Critical: '' @ show_int (vr_critical v) @ '', High: '' @ show_int (vr_high v)
     @ '', Medium: '' @ show_int (vr_medium v) @ '', Low: '' @ show_int (vr_low v)"

text \<open>An earlier audit is copied with the new verdict; an error of the insertion is only logged.\<close>

definition update_compliance_from_scan ::
  "scan_setup \<Rightarrow> stored_artifact \<Rightarrow> vulnerability_report \<Rightarrow> compliance_audit list \<Rightarrow> compliance_audit list" where
  "update_compliance_from_scan env a v audits =
     (let (status, score) = calculate_compliance (Some \<lparr>vc_critical = vr_critical v, vc_high = vr_high v,
                              vc_medium = vr_medium v, vc_low = vr_low v\<rparr>);
          old = (case latest_audit env (sa_id a) audits of
                   Some c \<Rightarrow> c
                 | None \<Rightarrow> \<lparr>ca_tenant = sa_tenant a, ca_artifact = sa_id a, ca_status = [], ca_score = 0, ca_auditor = [],
                     ca_license = [], ca_security = [], ca_quality = [], ca_privacy = [], ca_audited_at = 0\<rparr>)
      in create_audit env (old\<lparr>ca_tenant := sa_tenant a, ca_status := status, ca_score := score, ca_auditor := ''Auto-Scan'',
           ca_audited_at := sv_now env, ca_security := security_text v\<rparr>) audits)"

section \<open>A run\<close>

abbreviation set_scans :: "scan_tables \<Rightarrow> scan_world \<Rightarrow> scan_world" where
  "set_scans t w \<equiv> w\<lparr>sw_api := (sw_api w)\<lparr>aw_scans := t\<rparr>\<rparr>"

definition begin_scan ::
  "scan_setup \<Rightarrow> stored_artifact \<Rightarrow> security_scan \<Rightarrow> scan_world \<Rightarrow> (scan_failure + scan_input) \<times> scan_world" where
  "begin_scan env a s w =
     (if \<not> sv_mkdir_ok env then (Inl TempDirFailed, w)
      else case fetch_for_scan env a (sw_api w) of
        Inl e \<Rightarrow> (Inl e, w)
      | Inr data \<Rightarrow>
     (case open_for_scan env a data of
        Inl e \<Rightarrow> (Inl e, w)
      | Inr content \<Rightarrow>
     (let name = temp_name (sa_id a) (scn_id s)
      in if \<not> sv_write_ok env
      then (Inl TempWriteFailed,
            case sv_partial env content of None \<Rightarrow> w | Some part \<Rightarrow> w\<lparr>sw_files := AList.update name part (sw_files w)\<rparr>)
      else let w = w\<lparr>sw_files := AList.update name content (sw_files w)\<rparr>
           in case update_scan (pe_scan (sv_api env)) (s\<lparr>scn_status := ''running''\<rparr>) (aw_scans (sw_api w)) of
                (False, _) \<Rightarrow> (Inl StatusUpdateFailed, w\<lparr>sw_files := wipe_temp env name (sw_files w)\<rparr>)
              | (True, t) \<Rightarrow> (Inr (scan_input_of env a content), set_scans t w))))"

text \<open>From the scanners on, to the deferred clean-up.\<close>

definition finish_scan ::
  "scan_setup \<Rightarrow> stored_artifact \<Rightarrow> security_scan \<Rightarrow> scan_input \<Rightarrow> scan_world \<Rightarrow> (scan_failure + unit) \<times> scan_world" where
  "finish_scan env a s input w =
     (let name = temp_name (sa_id a) (scn_id s);
          report = scan_report_of s (scan_with_all env input name (sa_type a));
          cleaned = (\<lambda>w. w\<lparr>sw_files := wipe_temp env name (sw_files w)\<rparr>)
      in case save_results (pe_scan (sv_api env)) report (aw_scans (sw_api w)) of
           (False, _) \<Rightarrow> (Inl SaveFailed, cleaned w)
         | (True, t) \<Rightarrow>
             (let w = set_scans t w;
                  s = s\<lparr>scn_status := ''completed'', scn_completed_at := Some (sv_now env),
                         scn_duration := Some (go_quot (sv_now env - scn_started_at s) second)\<rparr>
              in case update_scan (pe_scan (sv_api env)) s t of
                   (False, _) \<Rightarrow> (Inl FinalUpdateFailed, cleaned w)
                 | (True, t) \<Rightarrow>
                     (Inr (), cleaned ((set_scans t w)\<lparr>sw_audits := update_compliance_from_scan env a (rp_vulnerabilities report) (sw_audits w)\<rparr>))))"

definition scan_artifact ::
  "scan_setup \<Rightarrow> stored_artifact \<Rightarrow> security_scan \<Rightarrow> scan_world \<Rightarrow> (scan_failure + unit) \<times> scan_world" where
  "scan_artifact env a s w =
     (case begin_scan env a s w of
        (Inl e, w) \<Rightarrow> (Inl e, w)
      | (Inr input, w) \<Rightarrow> finish_scan env a s input w)"

text \<open>The goroutine of the handlers: a failed run marks its scan.\<close>

definition run_scan :: "scan_setup \<Rightarrow> stored_artifact \<Rightarrow> security_scan \<Rightarrow> scan_world \<Rightarrow> scan_world" where
  "run_scan env a s w =
     (case scan_artifact env a s w of
        (Inr _, w) \<Rightarrow> w
      | (Inl e, w) \<Rightarrow>
          set_scans (snd (update_scan (pe_scan (sv_api env))
            (s\<lparr>scn_status := ''failed'', scn_error := Some (sv_message env e), scn_completed_at := Some (sv_now env),
               scn_duration := (if e = FinalUpdateFailed then Some (go_quot (sv_now env - scn_started_at s) second) else scn_duration s)\<rparr>)
            (aw_scans (sw_api w)))) w)"

definition cancel_scan :: "scan_setup \<Rightarrow> uuid \<Rightarrow> scan_tables \<Rightarrow> bool \<times> scan_tables" where
  "cancel_scan env i t =
     (case scan_by_id (pe_scan (sv_api env)) i t of
        None \<Rightarrow> (False, t)
      | Some s \<Rightarrow>
          if \<not> is_active s then (False, t)
          else update_scan (pe_scan (sv_api env)) (s\<lparr>scn_status := ''cancelled'', scn_completed_at := Some (sv_now env),
                 scn_duration := (if scn_started_at s < sv_now env then Some (go_quot (sv_now env - scn_started_at s) second)
                                  else scn_duration s)\<rparr>) t)"

section \<open>The handlers\<close>

datatype start_answer =
    StNoTenant | StBadTenant | StBadId | StBadRequest | StNotFound | StDenied | StConflict security_scan | StCreateFailed
  | StStarted stored_artifact security_scan

text \<open>The body of a scan request: the kind and priority asked for and the parts switched on.\<close>

record scan_config =
  sg_type :: string
  sg_priority :: string
  sg_parts :: "bool \<times> bool \<times> bool \<times> bool"

text \<open>
  The artifact is read without the columns of its encryption; the goroutine gets that record and the scan.
\<close>

definition start_scan :: "scan_setup \<Rightarrow> uuid \<Rightarrow> uuid \<Rightarrow> scan_config \<Rightarrow> scan_world \<Rightarrow> start_answer \<times> scan_world" where
  "start_scan env tenant i g w =
     (let api = sv_api env; t = aw_scans (sw_api w)
      in case get_by_id_and_tenant (pe_rec api) i tenant (aw_rows (sw_api w)) of
           Inl _ \<Rightarrow> (StNotFound, w)
         | Inr a \<Rightarrow>
             (case active_scan (pe_scan api) i t of
                Some s \<Rightarrow> (StConflict s, w)
              | None \<Rightarrow>
                  (case create_scan (pe_scan api) (new_scan tenant i (sg_type g) (sg_priority g) (sg_parts g) (sv_now env)) t of
                     (None, _) \<Rightarrow> (StCreateFailed, w)
                   | (Some s, t) \<Rightarrow> (StStarted a s, set_scans t w))))"

text \<open>\<^verbatim>\<open>POST /scanning\<close>: the identifier is in the body, which may not bind.\<close>

definition create_scan_handler ::
  "scan_setup \<Rightarrow> gin_context \<Rightarrow> (uuid \<times> scan_config) option \<Rightarrow> scan_world \<Rightarrow> start_answer \<times> scan_world" where
  "create_scan_handler env ctx body w =
     with_tenant ctx (StNoTenant, w) (StBadTenant, w) (\<lambda>tenant.
       case body of
         None \<Rightarrow> (StBadRequest, w)
       | Some (i, g) \<Rightarrow>
           if i = uuid_nil then (StBadRequest, w)
           else start_scan env tenant i (g\<lparr>sg_type := (if sg_type g = [] then ''full'' else sg_type g),
                  sg_priority := (if sg_priority g = [] then ''normal'' else sg_priority g)\<rparr>) w)"

text \<open>\<^verbatim>\<open>POST /scanning/artifacts/:id/scan\<close>: a body that does not bind gives the full scan.\<close>

definition scan_artifact_handler ::
  "scan_setup \<Rightarrow> gin_context \<Rightarrow> string \<Rightarrow> scan_config option \<Rightarrow> scan_world \<Rightarrow> start_answer \<times> scan_world" where
  "scan_artifact_handler env ctx param body w =
     with_tenant ctx (StNoTenant, w) (StBadTenant, w) (\<lambda>tenant.
       case pe_parse_uuid (sv_api env) param of
         None \<Rightarrow> (StBadId, w)
       | Some i \<Rightarrow>
           start_scan env tenant i
             (case body of None \<Rightarrow> \<lparr>sg_type = ''full'', sg_priority = ''normal'', sg_parts = (True, True, True, True)\<rparr>
              | Some g \<Rightarrow> g\<lparr>sg_type := ''full''\<rparr>) w)"

fun bulk_start :: "scan_setup \<Rightarrow> uuid \<Rightarrow> scan_config \<Rightarrow> uuid list \<Rightarrow> scan_world \<Rightarrow> (uuid \<times> start_answer) list \<times> scan_world" where
  "bulk_start env tenant g [] w = ([], w)"
| "bulk_start env tenant g (i # is) w =
     (let (answer, w) = start_scan env tenant i (g\<lparr>sg_type := ''bulk''\<rparr>) w; (answers, w) = bulk_start env tenant g is w
      in ((i, answer) # answers, w))"

definition bulk_scan_handler ::
  "scan_setup \<Rightarrow> gin_context \<Rightarrow> (uuid list \<times> scan_config) option \<Rightarrow> scan_world \<Rightarrow> (start_answer + (uuid \<times> start_answer) list) \<times> scan_world" where
  "bulk_scan_handler env ctx body w =
     with_tenant ctx (Inl StNoTenant, w) (Inl StBadTenant, w) (\<lambda>tenant.
       case body of
         None \<Rightarrow> (Inl StBadRequest, w)
       | Some (ids, g) \<Rightarrow>
           if ids = [] \<or> 50 < length ids then (Inl StBadRequest, w)
           else let (answers, w) = bulk_start env tenant g ids w in (Inr answers, w))"

text \<open>
  \<^verbatim>\<open>POST /artifacts/:id/scan\<close> of the artifact handler: the record is created, and nothing runs it. The
  scan has no start time (Go's zero time).
\<close>

definition manual_scan_handler ::
  "scan_setup \<Rightarrow> gin_context \<Rightarrow> string \<Rightarrow> string \<Rightarrow> string \<Rightarrow> scan_world \<Rightarrow> start_answer \<times> scan_world" where
  "manual_scan_handler env ctx param type priority w =
     (case owned_record (sv_api env) ctx param (sw_api w) of
        Inl RecNoTenant \<Rightarrow> (StNoTenant, w)
      | Inl RecBadTenant \<Rightarrow> (StBadTenant, w)
      | Inl RecBadId \<Rightarrow> (StBadId, w)
      | Inl RecDenied \<Rightarrow> (StDenied, w)
      | Inl _ \<Rightarrow> (StNotFound, w)
      | Inr a \<Rightarrow>
          let type = (if type = [] then ''full'' else type); priority = (if priority = [] then ''normal'' else priority);
              parts = (type \<in> {''full'', ''vulnerability''}, type \<in> {''full'', ''malware''},
                       type \<in> {''full'', ''license''}, type \<in> {''full'', ''dependency''})
          in case create_scan (pe_scan (sv_api env)) (new_scan (sa_tenant a) (sa_id a) type priority parts zero_time) (aw_scans (sw_api w)) of
               (None, _) \<Rightarrow> (StCreateFailed, w)
             | (Some s, t) \<Rightarrow> (StStarted a s, set_scans t w))"

text \<open>Cancelling and reading a scan ask for no tenant.\<close>

datatype scan_answer = ScBadId | ScNotFound | ScFailed | ScCancelled | ScShown security_scan "scan_report option"

definition cancel_scan_handler :: "scan_setup \<Rightarrow> string \<Rightarrow> scan_world \<Rightarrow> scan_answer \<times> scan_world" where
  "cancel_scan_handler env param w =
     (case pe_parse_uuid (sv_api env) param of
        None \<Rightarrow> (if atoi param = None then ScBadId else ScNotFound, w)
      | Some i \<Rightarrow>
          (case cancel_scan env i (aw_scans (sw_api w)) of
             (False, _) \<Rightarrow> (ScFailed, w)
           | (True, t) \<Rightarrow> (ScCancelled, set_scans t w)))"

definition get_scan_handler :: "scan_setup \<Rightarrow> string \<Rightarrow> scan_world \<Rightarrow> scan_answer" where
  "get_scan_handler env param w =
     (case pe_parse_uuid (sv_api env) param of
        None \<Rightarrow> (if atoi param = None then ScBadId else ScNotFound)
      | Some i \<Rightarrow>
          (case scan_by_id (pe_scan (sv_api env)) i (aw_scans (sw_api w)) of
             None \<Rightarrow> ScNotFound
           | Some s \<Rightarrow> ScShown s (if scn_status s \<in> {''completed'', ''completed_with_errors''}
                 then results_of_scan (pe_scan (sv_api env)) i (aw_scans (sw_api w)) else None)))"

definition all_scans_handler ::
  "scan_setup \<Rightarrow> gin_context \<Rightarrow> string \<Rightarrow> string \<Rightarrow> string \<Rightarrow> string \<Rightarrow> string \<Rightarrow> scan_world \<Rightarrow> (security_scan list \<times> nat) option" where
  "all_scans_handler env ctx status type priority limit offset w =
     with_tenant ctx None None (\<lambda>tenant. all_scans_by_tenant (pe_scan (sv_api env)) tenant status type priority
       (limit_of 50 limit) (offset_of offset) (aw_scans (sw_api w)))"

definition scan_history_handler ::
  "scan_setup \<Rightarrow> gin_context \<Rightarrow> string \<Rightarrow> string \<Rightarrow> string \<Rightarrow> scan_world \<Rightarrow> (security_scan list \<times> nat) option" where
  "scan_history_handler env ctx param limit offset w =
     with_tenant ctx None None (\<lambda>tenant.
       case pe_parse_uuid (sv_api env) param of
         None \<Rightarrow> None
       | Some i \<Rightarrow>
           (case get_by_id_and_tenant (pe_rec (sv_api env)) i tenant (aw_rows (sw_api w)) of
              Inl _ \<Rightarrow> None
            | Inr _ \<Rightarrow> get_scan_history (pe_scan (sv_api env)) i (limit_of 10 limit) (offset_of offset) (aw_scans (sw_api w))))"

text \<open>The findings of the latest report, filtered by severity and status; the empty text is no filter.\<close>

definition get_vulnerabilities :: "scan_setup \<Rightarrow> uuid \<Rightarrow> string \<Rightarrow> string \<Rightarrow> scan_world \<Rightarrow> vulnerability_item list option" where
  "get_vulnerabilities env i severity status w =
     (case latest_result (pe_scan (sv_api env)) i (aw_scans (sw_api w)) of
        None \<Rightarrow> None
      | Some (_, None) \<Rightarrow> Some []
      | Some (_, Some r) \<Rightarrow>
          Some (filter (\<lambda>v. (severity = [] \<or> vi_severity v = severity) \<and> (status = [] \<or> vi_status v = status))
                  (vr_items (rp_vulnerabilities r))))"

section \<open>An example\<close>

text \<open>A server without scanner programs, right after an encrypted upload that triggers no scan of its own.\<close>

definition scan_example :: scan_setup where
  "scan_example =
     \<lparr>sv_api = api_example, sv_mkdir_ok = True, sv_write_ok = True, sv_partial = (\<lambda>_. None), sv_wipe_ok = True, sv_remove_ok = True,
      sv_noise = (\<lambda>n. replicate n 0), sv_read = (\<lambda>_. None), sv_pom_exists = (\<lambda>_. False), sv_pom_copied = (\<lambda>_. None),
      sv_sbom = (\<lambda>_. None), sv_services = True, sv_kms_key = ''kek'', sv_registry = (\<lambda>_. new_scanner_registry),
      sv_context = calm, sv_order = [], sv_now = 7, sv_audit_ok = True, sv_message = (\<lambda>_. ''failed'')\<rparr>"

abbreviation quiet_config :: upload_config where
  "quiet_config \<equiv> (api_config True)\<lparr>cf_scans := False\<rparr>"

abbreviation quiet_upload :: "upload_answer \<times> api_world" where
  "quiet_upload \<equiv> upload_handler api_example quiet_config (as_tenant ''t'') (api_form ''lib'' ''1'' [1, 2, 3]) api_start"

definition scan_start :: scan_world where
  "scan_start = \<lparr>sw_api = snd quiet_upload, sw_files = [], sw_audits = []\<rparr>"

definition example_scan_config :: scan_config where
  "example_scan_config = \<lparr>sg_type = ''full'', sg_priority = ''normal'', sg_parts = (True, True, True, True)\<rparr>"

definition example_record :: stored_artifact where
  "example_record = without_encryption (hd (aw_rows (snd quiet_upload)))"

definition example_scan :: security_scan where
  "example_scan = (new_scan ''t'' ''i'' ''full'' ''normal'' (True, True, True, True) 7)\<lparr>scn_id := ''s''\<rparr>"

abbreviation example_started :: scan_world where
  "example_started \<equiv> snd (start_scan scan_example ''t'' ''i'' example_scan_config scan_start)"

section \<open>Temporary files are gone\<close>

lemma wipe_removes: "sv_remove_ok env \<Longrightarrow> map_of (wipe_temp env name files) = (map_of files)(name := None)"
  by (rule ext) (auto simp: wipe_temp_def split: option.split)

lemma begin_scan_files:
  assumes "begin_scan env a s w = (r, w')" and "sv_remove_ok env" and "sv_write_ok env \<or> sv_partial env = (\<lambda>_. None)"
  shows "case r of
      Inl _ \<Rightarrow> map_of (sw_files w') \<in> {map_of (sw_files w), (map_of (sw_files w))(temp_name (sa_id a) (scn_id s) := None)}
    | Inr _ \<Rightarrow> \<exists>content. map_of (sw_files w') = (map_of (sw_files w))(temp_name (sa_id a) (scn_id s) \<mapsto> content)"
  using assms(1,3)
  by (auto simp: begin_scan_def Let_def wipe_removes [OF assms(2)] split: if_splits sum.splits option.splits prod.splits bool.splits)

lemma finish_scan_files:
  assumes "sv_remove_ok env"
  shows "map_of (sw_files (snd (finish_scan env a s input w))) = (map_of (sw_files w))(temp_name (sa_id a) (scn_id s) := None)"
  using assms by (simp add: finish_scan_def Let_def wipe_removes split: prod.split bool.split)

text \<open>
  C26: A scan leaves no copy of the artifact behind. Whatever else fails during a run - the download, the
  decryption, the status updates, the scanners, the saving of the report - the artifact copies in the
  temporary directory end up as they were before, with the plaintext file of the scan gone, when files
  can be removed and a write that fails leaves nothing.
\<close>

theorem scan_leaves_no_plaintext:
  assumes "sv_remove_ok env" and "sv_write_ok env \<or> sv_partial env = (\<lambda>_. None)"
    and "map_of (sw_files w) (temp_name (sa_id a) (scn_id s)) = None"
  shows "map_of (sw_files (run_scan env a s w)) = map_of (sw_files w)"
proof -
  have same: "(map_of (sw_files w))(temp_name (sa_id a) (scn_id s) := None) = map_of (sw_files w)"
    using assms(3) by (simp add: fun_upd_idem_iff)
  obtain r w1 where b: "begin_scan env a s w = (r, w1)" by fastforce
  have swept: "map_of (sw_files (snd (scan_artifact env a s w))) = map_of (sw_files w)"
  proof (cases r)
    case (Inl e)
    then show ?thesis using begin_scan_files [OF b assms(1,2)] same b by (auto simp: scan_artifact_def)
  next
    case (Inr input)
    then obtain content where "map_of (sw_files w1) = (map_of (sw_files w))(temp_name (sa_id a) (scn_id s) \<mapsto> content)"
      using begin_scan_files [OF b assms(1,2)] by auto
    then show ?thesis using Inr b finish_scan_files [OF assms(1), of a s input w1] same
      by (simp add: scan_artifact_def)
  qed
  then show ?thesis by (auto simp: run_scan_def split: prod.split sum.split)
qed

theorem scan_leaves_no_plaintext_witness:
  "map_of (sw_files (run_scan scan_example example_record example_scan scan_start)) = map_of (sw_files scan_start)"
  by (rule scan_leaves_no_plaintext) (simp_all add: scan_example_def scan_start_def)

text \<open>
  The clean-up is set up after the file is written: a write that fails half-way, on a full disk, leaves
  the plaintext it has written.
\<close>

lemma failed_write_leaves_plaintext:
  assumes "sv_mkdir_ok env" and "fetch_for_scan env a (sw_api w) = Inr data" and "open_for_scan env a data = Inr content"
    and "\<not> sv_write_ok env" and "sv_partial env content = Some part"
  shows "map_of (sw_files (run_scan env a s w)) (temp_name (sa_id a) (scn_id s)) = Some part"
  using assms by (simp add: run_scan_def scan_artifact_def begin_scan_def Let_def update_conv')

section \<open>Reports\<close>

lemma count_partition: "int (length items) = count_severity ''CRITICAL'' items + count_severity ''HIGH'' items
    + count_severity ''MEDIUM'' items + count_severity ''LOW'' items
    + int (length (filter (\<lambda>v. vi_severity v \<notin> {''CRITICAL'', ''HIGH'', ''MEDIUM'', ''LOW''}) items))"
  by (induction items) (auto simp: count_severity_def)

lemma count_nonneg [simp]: "0 \<le> count_severity s items"
  by (simp add: count_severity_def)

lemma count_pos: "0 < count_severity s items \<longleftrightarrow> (\<exists>v \<in> set items. vi_severity v = s)"
  by (auto simp: count_severity_def filter_empty_conv)


lemma duplicates_count_twice:
  "vr_critical (convert_scanner_results [r, r]) = 2 * vr_critical (convert_scanner_results [r])"
  by (simp add: convert_scanner_results_def count_severity_def Let_def)

section \<open>What the audits say\<close>

lemma latest_audit_artifact:
  assumes "latest_audit env i audits = Some c"
  shows "ca_artifact c = i"
proof -
  obtain rest where "newest ca_audited_at (filter (\<lambda>c. ca_artifact c = i) audits) = c # rest"
    using assms by (auto simp: latest_audit_def audit_history_def split: if_splits list.splits)
  then have "c \<in> set (filter (\<lambda>c. ca_artifact c = i) audits)" by (metis list.set_intros(1) set_newest)
  then show ?thesis by simp
qed

lemma quiet_security_text: "length (security_text no_vulnerabilities) \<le> 50"
  by code_simp

lemma quiet_compliance: "calculate_compliance (Some \<lparr>vc_critical = 0, vc_high = 0, vc_medium = 0, vc_low = 0\<rparr>) = (''compliant'', 100)"
  by code_simp

lemma finish_scan_done:
  assumes "finish_scan env a s input w = (Inr (), w')"
  defines "report \<equiv> scan_report_of s (scan_with_all env input (temp_name (sa_id a) (scn_id s)) (sa_type a))"
  shows "report \<in> set (st_reports (aw_scans (sw_api w')))"
    and "sw_audits w' = update_compliance_from_scan env a (rp_vulnerabilities report) (sw_audits w)"
  using assms
  by (auto simp: finish_scan_def save_results_def update_scan_def Let_def split: if_splits prod.splits bool.splits)

text \<open>
  When every scanner fails the artifact is recorded as compliant. If the scanners cannot be run -
  none of the workflow's scanners is installed, or all of them fail - the run ends as completed, its
  report says that the risk is unknown and the score zero, and the compliance audit written for it
  says compliant with the full score of 100.
\<close>

theorem failed_scanners_count_as_compliant:
  assumes "finish_scan env a s input w = (Inr (), w')" and "sv_audit_ok env"
    and "scan_with_all env input (temp_name (sa_id a) (scn_id s)) (sa_type a) = Inl e"
  shows "\<exists>c r. sw_audits w' = sw_audits w @ [c] \<and> ca_artifact c = sa_id a \<and> ca_status c = ''compliant'' \<and> ca_score c = 100
    \<and> r \<in> set (st_reports (aw_scans (sw_api w'))) \<and> rp_scan r = scn_id s \<and> rp_risk r = ''unknown'' \<and> rp_score r = 0"
proof -
  define report where "report = scan_report_of s (scan_with_all env input (temp_name (sa_id a) (scn_id s)) (sa_type a))"
  have report: "rp_vulnerabilities report = no_vulnerabilities" "rp_scan report = scn_id s" "rp_risk report = ''unknown''" "rp_score report = 0"
    by (simp_all add: report_def assms(3) scan_report_of_def)
  define old where "old = (case latest_audit env (sa_id a) (sw_audits w) of
       Some c \<Rightarrow> c
     | None \<Rightarrow> \<lparr>ca_tenant = sa_tenant a, ca_artifact = sa_id a, ca_status = [], ca_score = 0, ca_auditor = [],
         ca_license = [], ca_security = [], ca_quality = [], ca_privacy = [], ca_audited_at = 0\<rparr>)"
  have "ca_artifact old = sa_id a"
    using latest_audit_artifact by (auto simp: old_def split: option.split)
  moreover have "sw_audits w' = sw_audits w @ [old\<lparr>ca_tenant := sa_tenant a, ca_status := ''compliant'', ca_score := 100,
      ca_auditor := ''Auto-Scan'', ca_audited_at := sv_now env, ca_security := security_text no_vulnerabilities\<rparr>]"
    using finish_scan_done(2) [OF assms(1)] report(1) quiet_compliance quiet_security_text assms(2)
    by (simp add: report_def [symmetric] update_compliance_from_scan_def old_def [symmetric] create_audit_def)
      (simp add: no_vulnerabilities_def)
  ultimately show ?thesis
    using finish_scan_done(1) [OF assms(1)] report by (auto simp: report_def [symmetric])
qed

lemma example_run:
  "fst (finish_scan scan_example example_record example_scan (ArtifactFile [1, 2, 3]) example_started) = Inr ()"
  "is_ok (scan_with_all scan_example (ArtifactFile [1, 2, 3]) (temp_name (sa_id example_record) (scn_id example_scan)) (sa_type example_record)) = False"
   apply code_simp
  apply code_simp
  done

theorem failed_scanners_count_as_compliant_witness:
  "\<exists>c r. sw_audits (snd (finish_scan scan_example example_record example_scan (ArtifactFile [1, 2, 3]) example_started)) = sw_audits example_started @ [c]
    \<and> ca_artifact c = sa_id example_record \<and> ca_status c = ''compliant'' \<and> ca_score c = 100
    \<and> r \<in> set (st_reports (aw_scans (sw_api (snd (finish_scan scan_example example_record example_scan (ArtifactFile [1, 2, 3]) example_started)))))
    \<and> rp_scan r = scn_id example_scan \<and> rp_risk r = ''unknown'' \<and> rp_score r = 0"
proof -
  let ?f = "finish_scan scan_example example_record example_scan (ArtifactFile [1, 2, 3]) example_started"
  have run: "?f = (Inr (), snd ?f)" using example_run(1) by (metis prod.collapse)
  have audits: "sv_audit_ok scan_example" by (simp add: scan_example_def)
  obtain e where "scan_with_all scan_example (ArtifactFile [1, 2, 3]) (temp_name (sa_id example_record) (scn_id example_scan)) (sa_type example_record) = Inl e"
    using example_run(2) by (cases "scan_with_all scan_example (ArtifactFile [1, 2, 3]) (temp_name (sa_id example_record) (scn_id example_scan)) (sa_type example_record)") auto
  then show ?thesis by (rule failed_scanners_count_as_compliant [OF run audits])
qed

section \<open>Which bytes a scan reads\<close>

lemma uploaded_record_storage:
  "string_in (sa_metadata (uploaded_record env cfg tenant f repo type file content tags m s)) ''storage_type'' = Some ''erasure_coded''"
  "string_in (sa_metadata (uploaded_record env cfg tenant f repo type file content tags m s)) ''storage_id''
     = Some (artifact_blob_id (fm_name f) (fm_version f) (pe_unix env))"
  "sa_type (uploaded_record env cfg tenant f repo type file content tags m s) = type"
  by (simp_all add: uploaded_record_def artifact_of_upload_def storage_metadata_def display_metadata_def string_in_def Let_def
      split: option.split)

lemma fetch_of_uploaded:
  assumes "records (uploaded_record env cfg tenant f repo type file content tags m s) (a\<lparr>sa_encrypted := e, sa_enc_version := v,
      sa_enc_dek := d, sa_enc_algorithm := l, sa_enc_metadata := em\<rparr>)"
    and "blob_content (pe_blob (sv_api env')) (upload_ref env tenant repo f) (aw_blobs w) = Some stored" and "type \<noteq> ''docker''"
  shows "fetch_for_scan env' a w = Inr stored"
proof -
  have a: "sa_metadata a = sa_metadata (uploaded_record env cfg tenant f repo type file content tags m s)"
      "sa_type a = type" "sa_tenant a = tenant" "sa_repo a = repo"
    using assms(1) by (simp_all add: records_def uploaded_record_storage(3))
  have "download_artifact (pe_blob (sv_api env')) (upload_ref env tenant repo f) (aw_blobs w) = Inr stored"
    using assms(2) by (simp only: blob_content_Some)
  then show ?thesis using assms(3) a
    by (simp add: fetch_for_scan_def fetch_stored_blob_def uploaded_record_storage upload_ref_def)
qed

text \<open>
  A requested scan of an encrypted artifact reads the ciphertext. The scan handlers read the record
  with the query that leaves out the columns of the encryption. So the scan that the owner starts for an
  artifact uploaded with encryption hands the stored ciphertext to the scanners and never asks for the
  key, although it ends like any other scan.
\<close>

theorem requested_scan_reads_ciphertext:
  assumes "upload_handler env cfg ctx f w = (Uploaded rc, w')"
    and "ctx ''tenant_id'' = Some (CtxId tenant)" and "tenant \<noteq> uuid_nil"
    and "fm_file f = Some (filename, Some content)" and "pe_parse_uuid env (fm_repository f) = Some repo"
    and "rows_ok (aw_rows w)" and "sound_coder (aw_blobs w)"
    and "re_find_ok (pe_rec env)" and "re_new_id (pe_rec env) \<notin> sa_id ` set (aw_rows w)"
    and "\<forall>r \<in> set (aw_rows w). same_release (fm_name f) (fm_version f) repo r \<longrightarrow> sa_tenant r = tenant"
    and "re_repo (pe_rec env) repo = Some (repo_name, type, other)" and "type \<notin> {''docker'', ''maven''}" and "cf_encryption cfg"
    and "sw_api sw = w'" and "be_sha (pe_blob (sv_api env')) = be_sha (pe_blob env)"
    and "start_scan env' tenant (rc_id rc) g sw = (StStarted a s, sw')"
    and "sv_mkdir_ok env'" and "sv_write_ok env'" and "se_update_ok (pe_scan (sv_api env'))"
  shows "\<exists>ed. encrypt_artifact (pe_seal env) (pe_kms_enc env) (pe_rand1 env) (pe_rand2 env) tenant content (cf_kms_key cfg) = Inr ed
    \<and> fst (begin_scan env' a s sw') = Inr (ArtifactFile (ed_ciphertext ed))"
proof -
  obtain type' tags metadata sealed stored st where
      sealed: "seal_content env cfg ctx tenant content (aw_keys w) = (Inr (stored, sealed), st)"
      and kept: "keeps_upload (be_sha (pe_blob env)) (rc_id rc)
          (uploaded_record env cfg tenant f repo type' filename content tags metadata sealed) stored w'"
      and "\<exists>repo_name other. re_repo (pe_rec env) repo = Some (repo_name, type', other)"
    by (rule uploaded_keeps [OF assms(1,2,4,5,3,6-10)])
  then have type: "type' = type" using assms(11) by simp
  let ?u = "uploaded_record env cfg tenant f repo type filename content tags metadata sealed"
  obtain ed where ed: "encrypt_artifact (pe_seal env) (pe_kms_enc env) (pe_rand1 env) (pe_rand2 env) tenant content (cf_kms_key cfg) = Inr ed"
      "stored = ed_ciphertext ed"
    using sealed assms(13) by (auto simp: seal_content_def split: sum.splits prod.splits)
  obtain r where r: "row_of (rc_id rc) (aw_rows w') = Some r" "records ?u r" and ok: "rows_ok (aw_rows w')"
    using kept type by (auto simp: keeps_upload_def)
  have "get_by_id_and_tenant (pe_rec (sv_api env')) (rc_id rc) tenant (aw_rows w') = Inr a" and sw': "aw_blobs (sw_api sw') = aw_blobs w'"
    using assms(14,16) by (auto simp: start_scan_def Let_def split: sum.splits option.splits prod.splits)
  then obtain r' where "r' \<in> set (aw_rows w')" "sa_id r' = rc_id rc" and a: "a = without_encryption r'"
    by (auto simp: get_by_id_and_tenant_def split: if_splits option.splits dest!: find_SomeD)
  then have "r' = r" using row_of_member [OF ok] r(1) by fastforce
  have "records ?u (a\<lparr>sa_encrypted := sa_encrypted r, sa_enc_version := sa_enc_version r, sa_enc_dek := sa_enc_dek r,
      sa_enc_algorithm := sa_enc_algorithm r, sa_enc_metadata := sa_enc_metadata r\<rparr>)"
    using r(2) a \<open>r' = r\<close> by (simp add: records_def without_encryption_def)
  moreover have "blob_content (pe_blob (sv_api env')) (upload_ref env tenant repo f) (aw_blobs (sw_api sw')) = Some stored"
    using kept sw' assms(15) by (simp add: keeps_upload_def)
  ultimately have fetch: "fetch_for_scan env' a (sw_api sw') = Inr stored" using assms(12) by (intro fetch_of_uploaded) auto
  have "sa_type a = type" using r(2) a \<open>r' = r\<close> by (simp add: records_def uploaded_record_storage(3))
  then have "scan_input_of env' a stored = ArtifactFile stored" using assms(12) by (simp add: scan_input_of_def)
  moreover have "open_for_scan env' a stored = Inr stored" using a by (simp add: open_for_scan_def)
  ultimately have "fst (begin_scan env' a s sw') = Inr (ArtifactFile stored)"
    using fetch assms(17-19) by (simp add: begin_scan_def update_scan_def Let_def)
  then show ?thesis using ed by auto
qed

lemma example_quiet_upload:
  "quiet_upload = (Uploaded (example_receipt ''lib'' ''1'' [1, 2, 3] ''i''), snd quiet_upload)"
proof -
  have "fst quiet_upload = Uploaded (example_receipt ''lib'' ''1'' [1, 2, 3] ''i'')" by code_simp
  then show ?thesis by (metis prod.collapse)
qed

lemma example_start:
  "start_scan scan_example ''t'' ''i'' example_scan_config scan_start
     = (StStarted example_record example_scan, snd (start_scan scan_example ''t'' ''i'' example_scan_config scan_start))"
proof -
  have "fst (start_scan scan_example ''t'' ''i'' example_scan_config scan_start) = StStarted example_record example_scan" by code_simp
  then show ?thesis by (metis prod.collapse)
qed

theorem requested_scan_reads_ciphertext_witness:
  "\<exists>ed. encrypt_artifact toy_seal (mock_encrypt [1]) (Some [7]) (Some [9]) ''t'' [1, 2, 3] ''kek'' = Inr ed
    \<and> fst (begin_scan scan_example example_record example_scan
        (snd (start_scan scan_example ''t'' ''i'' example_scan_config scan_start))) = Inr (ArtifactFile (ed_ciphertext ed))"
proof -
  have "\<exists>ed. encrypt_artifact (pe_seal api_example) (pe_kms_enc api_example) (pe_rand1 api_example) (pe_rand2 api_example) ''t'' [1, 2, 3] (cf_kms_key quiet_config) = Inr ed
    \<and> fst (begin_scan scan_example example_record example_scan
        (snd (start_scan scan_example ''t'' (rc_id (example_receipt ''lib'' ''1'' [1, 2, 3] ''i'')) example_scan_config scan_start))) = Inr (ArtifactFile (ed_ciphertext ed))"
    by (rule requested_scan_reads_ciphertext [OF example_quiet_upload, where filename = "''lib.tgz''" and repo = "''r''"
          and repo_name = "''lib''" and type = "''npm''" and other = "''t''"])
      (use example_sound example_start in \<open>auto simp: api_form_def api_start_def api_example_def rows_ok_def uuid_nil_def
          example_receipt_def scan_start_def scan_example_def api_config_def\<close>)
  then show ?thesis by (simp add: api_example_def api_config_def example_receipt_def)
qed

section \<open>Scans and requests in sequence\<close>

text \<open>
  The steps of the server around scans: starting one, the two halves and the end of a run, cancelling,
  and the requests for artifacts. The label says which scan runs or is cancelled and which artifact is deleted.
\<close>

datatype scan_event = EvStart | EvRun uuid | EvCancel "uuid option" | EvRequest "uuid option"

fun deleted_by :: "api_env \<Rightarrow> api_call \<Rightarrow> uuid option" where
  "deleted_by env (CallDelete param) = pe_parse_uuid env param"
| "deleted_by env _ = None"

inductive scan_step :: "scan_event \<Rightarrow> scan_world \<Rightarrow> scan_world \<Rightarrow> bool" where
  step_start: "scan_step EvStart w (snd (start_scan env tenant i g w))"
| step_manual: "scan_step EvStart w (snd (manual_scan_handler env ctx param type priority w))"
| step_begin: "scan_step (EvRun (scn_id s)) w (snd (begin_scan env a s w))"
| step_finish: "scan_step (EvRun (scn_id s)) w (snd (finish_scan env a s input w))"
| step_run: "scan_step (EvRun (scn_id s)) w (run_scan env a s w)"
| step_cancel: "scan_step (EvCancel (pe_parse_uuid (sv_api env) param)) w (snd (cancel_scan_handler env param w))"
| step_request: "scan_step (EvRequest (deleted_by env call)) w (w\<lparr>sw_api := api_apply cfg (env, ctx, call) (sw_api w)\<rparr>)"

inductive_cases scan_step_E: "scan_step e w w'"

text \<open>A label that neither runs nor cancels the scan nor deletes its artifact.\<close>

definition spares :: "uuid \<Rightarrow> uuid \<Rightarrow> scan_event \<Rightarrow> bool" where
  "spares k i e \<longleftrightarrow> e \<noteq> EvRun k \<and> e \<noteq> EvCancel (Some k) \<and> e \<noteq> EvRequest (Some i)"

definition spared_step :: "uuid \<Rightarrow> uuid \<Rightarrow> scan_world \<Rightarrow> scan_world \<Rightarrow> bool" where
  "spared_step k i w w' \<longleftrightarrow> (\<exists>e. spares k i e \<and> scan_step e w w')"

definition blocked :: "uuid \<Rightarrow> uuid \<Rightarrow> scan_tables \<Rightarrow> bool" where
  "blocked k i t \<longleftrightarrow> (\<exists>s \<in> set (st_scans t). scn_id s = k \<and> scn_artifact s = i \<and> is_active s)"

lemma blocked_create: "blocked k i t \<Longrightarrow> blocked k i (snd (create_scan env s t))"
  by (auto simp: blocked_def create_scan_def split: option.split)

lemma blocked_update: "blocked k i t \<Longrightarrow> scn_id s \<noteq> k \<Longrightarrow> blocked k i (snd (update_scan env s t))"
  unfolding blocked_def update_scan_def by (auto intro!: rev_bexI)

lemma blocked_save: "blocked k i t \<Longrightarrow> blocked k i (snd (save_results env r t))"
  by (auto simp: blocked_def save_results_def)

lemma blocked_drop: "blocked k i t \<Longrightarrow> j \<noteq> i \<Longrightarrow> blocked k i (drop_artifact_scans j t)"
  by (auto simp: blocked_def drop_artifact_scans_def Let_def)

lemma blocked_trigger: "blocked k i t \<Longrightarrow> blocked k i (trigger_automatic_scan env cfg tenant j t)"
  by (simp add: trigger_automatic_scan_def blocked_create)

lemma blocked_upload: "blocked k i (aw_scans w) \<Longrightarrow> blocked k i (aw_scans (snd (upload_handler env cfg ctx f w)))"
proof -
  assume b: "blocked k i (aw_scans w)"
  obtain answer w' where h: "upload_handler env cfg ctx f w = (answer, w')" by fastforce
  show ?thesis
  proof (cases rule: upload_reaches_storage [OF h])
    case (2 tenant filename content repo repo_name type other tags metadata)
    show ?thesis
      by (cases rule: store_and_record_cases [OF 2(5)]) (use h b in \<open>simp_all add: blocked_trigger\<close>)
  qed (use h b in simp)
qed

lemma blocked_request:
  assumes "blocked k i (aw_scans w)" and "deleted_by env call \<noteq> Some i"
  shows "blocked k i (aw_scans (api_apply cfg (env, ctx, call) w))"
proof (cases call)
  case (CallUpload f)
  then show ?thesis using blocked_upload [OF assms(1)] by simp
next
  case (CallDownload c param)
  then show ?thesis using assms(1)
    by (auto simp: download_handler_def count_download_def split: option.split sum.split)
next
  case (CallCreate body)
  then show ?thesis using assms(1)
    by (auto simp: create_artifact_handler_def split: option.split ctx_value.split sum.split prod.split)
next
  case (CallDelete param)
  have "sa_id a \<noteq> i" if "owned_record env ctx param w = Inr a" for a
    using that assms(2) CallDelete
    by (auto simp: owned_record_def get_by_id_def row_by_id_def split: option.splits ctx_value.splits sum.splits if_splits
        dest!: find_SomeD)
  then show ?thesis using assms(1) CallDelete blocked_drop [OF assms(1)]
    by (auto simp: delete_artifact_handler_def split: sum.split prod.split)
qed

lemma begin_scans:
  "aw_scans (sw_api (snd (begin_scan env a s w))) = aw_scans (sw_api w)
   \<or> aw_scans (sw_api (snd (begin_scan env a s w))) = snd (update_scan (pe_scan (sv_api env)) (s\<lparr>scn_status := ''running''\<rparr>) (aw_scans (sw_api w)))"
  by (auto simp: begin_scan_def Let_def split: sum.split option.split prod.split bool.split)

lemma blocked_begin: "blocked k i (aw_scans (sw_api w)) \<Longrightarrow> scn_id s \<noteq> k \<Longrightarrow> blocked k i (aw_scans (sw_api (snd (begin_scan env a s w))))"
  using begin_scans [of env a s w] blocked_update [of k i "aw_scans (sw_api w)" "s\<lparr>scn_status := ''running''\<rparr>"] by auto

lemma blocked_finish:
  assumes "blocked k i (aw_scans (sw_api w))" and "scn_id s \<noteq> k"
  shows "blocked k i (aw_scans (sw_api (snd (finish_scan env a s input w))))"
proof -
  have saved: "blocked k i t" if "save_results e r (aw_scans (sw_api w)) = (ok, t)" for e r ok t
    using blocked_save [OF assms(1), of e r] that by simp
  moreover have "blocked k i t'" if "save_results e r (aw_scans (sw_api w)) = (ok, t)" "update_scan e' s' t = (ok', t')" "scn_id s' \<noteq> k" for e r ok t e' s' ok' t'
    using blocked_update [OF saved [OF that(1)] that(3), of e'] that(2) by simp
  ultimately show ?thesis
    using assms by (auto simp: finish_scan_def Let_def split: prod.split bool.split)
qed

lemma blocked_run:
  assumes "blocked k i (aw_scans (sw_api w))" and "scn_id s \<noteq> k"
  shows "blocked k i (aw_scans (sw_api (run_scan env a s w)))"
proof -
  have "blocked k i (aw_scans (sw_api (snd (scan_artifact env a s w))))"
    using blocked_begin [OF assms, of env a] blocked_finish [OF _ assms(2), of i _ env a]
    by (auto simp: scan_artifact_def split: prod.split sum.split)
  moreover have "blocked k i (snd (update_scan e s' t))" if "blocked k i t" "scn_id s' = scn_id s" for e s' t
    using blocked_update [OF that(1)] that(2) assms(2) by simp
  ultimately show ?thesis
    by (auto simp: run_scan_def split: prod.split sum.split)
qed

lemma start_scans:
  "\<exists>e s. aw_scans (sw_api (snd (start_scan env tenant j g w))) \<in> {aw_scans (sw_api w), snd (create_scan e s (aw_scans (sw_api w)))}"
proof -
  obtain r t where "create_scan (pe_scan (sv_api env)) (new_scan tenant j (sg_type g) (sg_priority g) (sg_parts g) (sv_now env))
      (aw_scans (sw_api w)) = (r, t)" by fastforce
  then have "aw_scans (sw_api (snd (start_scan env tenant j g w))) = aw_scans (sw_api w)
      \<or> aw_scans (sw_api (snd (start_scan env tenant j g w))) = snd (create_scan (pe_scan (sv_api env))
          (new_scan tenant j (sg_type g) (sg_priority g) (sg_parts g) (sv_now env)) (aw_scans (sw_api w)))"
    by (simp add: start_scan_def Let_def split: sum.split option.split)
  then show ?thesis by blast
qed

lemma manual_scans:
  "\<exists>e s. aw_scans (sw_api (snd (manual_scan_handler env ctx param type priority w)))
     \<in> {aw_scans (sw_api w), snd (create_scan e s (aw_scans (sw_api w)))}"
proof (cases "owned_record (sv_api env) ctx param (sw_api w)")
  case (Inl e)
  then show ?thesis by (simp add: manual_scan_handler_def split: record_answer.split)
next
  case (Inr a)
  define kind where "kind = (if type = [] then ''full'' else type)"
  define new where "new = new_scan (sa_tenant a) (sa_id a) kind (if priority = [] then ''normal'' else priority)
      (kind \<in> {''full'', ''vulnerability''}, kind \<in> {''full'', ''malware''}, kind \<in> {''full'', ''license''}, kind \<in> {''full'', ''dependency''}) zero_time"
  obtain r t where "create_scan (pe_scan (sv_api env)) new (aw_scans (sw_api w)) = (r, t)" by fastforce
  then have "aw_scans (sw_api (snd (manual_scan_handler env ctx param type priority w)))
     \<in> {aw_scans (sw_api w), snd (create_scan (pe_scan (sv_api env)) new (aw_scans (sw_api w)))}"
    using Inr by (simp add: manual_scan_handler_def Let_def new_def kind_def split: option.split)
  then show ?thesis by blast
qed

lemma cancelled_scans:
  "aw_scans (sw_api (snd (cancel_scan_handler env param w))) = aw_scans (sw_api w)
   \<or> (\<exists>s st c d. pe_parse_uuid (sv_api env) param = Some (scn_id s)
        \<and> aw_scans (sw_api (snd (cancel_scan_handler env param w))) = snd (update_scan (pe_scan (sv_api env))
            (s\<lparr>scn_status := st, scn_completed_at := c, scn_duration := d\<rparr>) (aw_scans (sw_api w))))"
proof (cases "pe_parse_uuid (sv_api env) param")
  case (Some i)
  show ?thesis
  proof (cases "scan_by_id (pe_scan (sv_api env)) i (aw_scans (sw_api w))")
    case None
    then show ?thesis using Some by (simp add: cancel_scan_handler_def cancel_scan_def)
  next
    case found: (Some s)
    then have "scn_id s = i" by (auto simp: scan_by_id_def split: if_splits dest: find_SomeD)
    let ?s = "s\<lparr>scn_status := ''cancelled'', scn_completed_at := Some (sv_now env), scn_duration := (if scn_started_at s < sv_now env
        then Some (go_quot (sv_now env - scn_started_at s) second) else scn_duration s)\<rparr>"
    have "aw_scans (sw_api (snd (cancel_scan_handler env param w)))
        \<in> {aw_scans (sw_api w), snd (update_scan (pe_scan (sv_api env)) ?s (aw_scans (sw_api w)))}"
      using Some found by (simp add: cancel_scan_handler_def cancel_scan_def split: prod.split bool.split)
    then show ?thesis using Some \<open>scn_id s = i\<close> by blast
  qed
qed (simp add: cancel_scan_handler_def)

lemma blocked_step:
  assumes "spared_step k i w w'" and "blocked k i (aw_scans (sw_api w))"
  shows "blocked k i (aw_scans (sw_api w'))"
proof -
  obtain e where spares: "spares k i e" and step: "scan_step e w w'" using assms(1) by (auto simp: spared_step_def)
  from step show ?thesis
  proof (cases rule: scan_step.cases)
    case (step_start env tenant j g)
    then show ?thesis using assms(2) blocked_create [OF assms(2)] start_scans [of env tenant j g w] by auto
  next
    case (step_manual env ctx param type priority)
    then show ?thesis using assms(2) blocked_create [OF assms(2)] manual_scans [of env ctx param type priority w] by auto
  next
    case (step_begin s env a)
    then show ?thesis using blocked_begin [OF assms(2)] spares by (auto simp: spares_def)
  next
    case (step_finish s env a input)
    then show ?thesis using blocked_finish [OF assms(2)] spares by (auto simp: spares_def)
  next
    case (step_run s env a)
    then show ?thesis using blocked_run [OF assms(2)] spares by (auto simp: spares_def)
  next
    case (step_cancel env param)
    show ?thesis using step_cancel spares assms(2) cancelled_scans [of env param w]
      by (auto simp: spares_def blocked_update)
  next
    case (step_request env call cfg ctx)
    then show ?thesis using blocked_request [OF assms(2)] spares by (auto simp: spares_def)
  qed
qed

lemma blocked_steps: "(spared_step k i)\<^sup>*\<^sup>* w w' \<Longrightarrow> blocked k i (aw_scans (sw_api w)) \<Longrightarrow> blocked k i (aw_scans (sw_api w'))"
  by (induction rule: rtranclp_induct) (auto intro: blocked_step)

lemma started_scan_is_active:
  assumes "manual_scan_handler env ctx param type priority w = (StStarted a s, w1)"
  shows "blocked (scn_id s) (sa_id a) (aw_scans (sw_api w1))"
  using assms
  by (auto simp: manual_scan_handler_def create_scan_def blocked_def is_active_def new_scan_def Let_def
      split: sum.splits option.splits record_answer.splits if_splits prod.splits)

lemma blocked_active:
  "blocked k i t \<Longrightarrow> se_query_ok e \<Longrightarrow> \<exists>s. active_scan e i t = Some s"
  using active_scan_None [of e i t] by (auto simp: blocked_def)

text \<open>
  A scan requested through the artifact routes is never run and keeps_upload all others from running. The
  handler records it as initiated and starts nothing. From then on, whatever else the server does - short
  of cancelling that scan or deleting the artifact - every other request to scan the artifact is turned
  away as already in progress, and new uploads of the artifact trigger no scan.
\<close>

theorem manual_scan_blocks_scanning:
  assumes "manual_scan_handler env ctx param type priority w = (StStarted a s, w1)"
    and "(spared_step (scn_id s) (sa_id a))\<^sup>*\<^sup>* w1 w2" and "se_query_ok (pe_scan (sv_api env2))"
  shows "(\<exists>s'. fst (start_scan env2 tenant (sa_id a) g w2) \<in> {StNotFound, StConflict s'})
    \<and> trigger_automatic_scan (sv_api env2) cfg tenant (sa_id a) (aw_scans (sw_api w2)) = aw_scans (sw_api w2)"
proof -
  obtain s' where "active_scan (pe_scan (sv_api env2)) (sa_id a) (aw_scans (sw_api w2)) = Some s'"
    using blocked_active [OF blocked_steps [OF assms(2) started_scan_is_active [OF assms(1)]] assms(3)] by blast
  then show ?thesis
    by (auto simp: start_scan_def trigger_automatic_scan_def Let_def split: sum.split)
qed

theorem manual_scan_blocks_scanning_witness:
  "\<exists>a s w1. manual_scan_handler scan_example (as_tenant ''t'') ''i'' [] [] scan_start = (StStarted a s, w1)
    \<and> (\<exists>s'. fst (start_scan scan_example ''t'' (sa_id a) example_scan_config w1) \<in> {StNotFound, StConflict s'})"
proof -
  let ?m = "manual_scan_handler scan_example (as_tenant ''t'') ''i'' [] [] scan_start"
  have "case fst ?m of StStarted a s \<Rightarrow> True | _ \<Rightarrow> False" by code_simp
  then obtain a s where m: "?m = (StStarted a s, snd ?m)" by (cases "fst ?m") (auto simp: prod_eq_iff)
  have "se_query_ok (pe_scan (sv_api scan_example))" by (simp add: scan_example_def api_example_def)
  then have "\<exists>s'. fst (start_scan scan_example ''t'' (sa_id a) example_scan_config (snd ?m)) \<in> {StNotFound, StConflict s'}"
    using manual_scan_blocks_scanning [OF m rtranclp.rtrancl_refl] by blast
  then show ?thesis using m by blast
qed

text \<open>Who cancels a running scan is told that it is cancelled; the run then overwrites that.\<close>

lemma cancelled_scan_completes:
  assumes "finish_scan env a s input w = (Inr (), w')" and "r \<in> set (st_scans (aw_scans (sw_api w')))" and "scn_id r = scn_id s"
  shows "scn_status r = ''completed''"
  using assms
  by (auto simp: finish_scan_def save_results_def update_scan_def Let_def split: if_splits prod.splits bool.splits)

lemma anyone_cancels:
  assumes "pe_parse_uuid (sv_api env) param = Some (scn_id s)" and "scan_by_id (pe_scan (sv_api env)) (scn_id s) (aw_scans (sw_api w)) = Some s"
    and "is_active s" and "se_update_ok (pe_scan (sv_api env))"
  shows "fst (cancel_scan_handler env param w) = ScCancelled"
  using assms by (simp add: cancel_scan_handler_def cancel_scan_def update_scan_def)

text \<open>A bulk request starts one scan at most per artifact.\<close>

lemma started_blocks:
  assumes "start_scan env tenant i g w = (StStarted a s, w')"
  shows "blocked (scn_id s) i (aw_scans (sw_api w'))"
  using assms
  by (auto simp: start_scan_def create_scan_def blocked_def is_active_def new_scan_def Let_def
      split: sum.splits option.splits if_splits prod.splits)

lemma started_needs_free:
  assumes "fst (start_scan env tenant i g w) = StStarted a s" and "se_query_ok (pe_scan (sv_api env))"
  shows "\<not> blocked k i (aw_scans (sw_api w))"
  using blocked_active [of k i "aw_scans (sw_api w)" "pe_scan (sv_api env)"] assms
  by (auto simp: start_scan_def Let_def split: sum.splits option.splits prod.splits)

definition started_in :: "uuid \<Rightarrow> (uuid \<times> start_answer) list \<Rightarrow> nat" where
  "started_in i answers = length (filter (\<lambda>(j, answer). j = i \<and> (\<exists>a s. answer = StStarted a s)) answers)"

lemma blocked_start: "blocked k i (aw_scans (sw_api w)) \<Longrightarrow> blocked k i (aw_scans (sw_api (snd (start_scan env tenant j g w))))"
  using start_scans [of env tenant j g w] blocked_create by auto

lemma bulk_blocked:
  assumes "blocked k i (aw_scans (sw_api w))" and "se_query_ok (pe_scan (sv_api env))"
  shows "started_in i (fst (bulk_start env tenant g is w)) = 0"
  using assms(1)
proof (induction "is" arbitrary: w)
  case (Cons j "is")
  obtain answer w1 where st: "start_scan env tenant j (g\<lparr>sg_type := ''bulk''\<rparr>) w = (answer, w1)" by fastforce
  obtain answers w2 where rest: "bulk_start env tenant g is w1 = (answers, w2)" by fastforce
  have "blocked k i (aw_scans (sw_api w1))" using blocked_start [OF Cons.prems, of env tenant j] st by (metis snd_conv)
  then have "started_in i answers = 0" using Cons.IH rest by fastforce
  moreover have "\<not> (j = i \<and> (\<exists>a s. answer = StStarted a s))"
  proof (intro notI, elim conjE exE)
    fix a s assume "j = i" "answer = StStarted a s"
    then have "\<not> blocked k i (aw_scans (sw_api w))"
      using started_needs_free [of env tenant i "g\<lparr>sg_type := ''bulk''\<rparr>" w a s k] st assms(2) by simp
    then show False using Cons.prems by simp
  qed
  ultimately show ?case using st rest by (simp add: started_in_def)
qed (simp add: started_in_def)

text \<open>
  A bulk request answers for every artifact in its order and starts at most one scan of each, even
  when an artifact is named more than once, as long as no scan it started ends before it is answered.
\<close>

theorem bulk_scan_starts_each_once:
  assumes "bulk_scan_handler env ctx (Some (ids, g)) w = (Inr answers, w')" and "se_query_ok (pe_scan (sv_api env))"
  shows "map fst answers = ids \<and> (\<forall>i. started_in i answers \<le> 1)"
proof -
  obtain tenant where run: "bulk_start env tenant g ids w = (answers, w')"
    using assms(1) by (auto simp: bulk_scan_handler_def with_tenant_def split: option.splits ctx_value.splits if_splits prod.splits)
  have "map fst (fst (bulk_start env tenant g is w)) = is" for "is" w
    by (induction "is" arbitrary: w) (simp_all split: prod.split, metis fst_conv)
  then have "map fst answers = ids" using run by (metis fst_conv)
  moreover have "started_in i (fst (bulk_start env tenant g is w)) \<le> 1" for i "is" w
  proof (induction "is" arbitrary: w)
    case (Cons j "is")
    obtain answer w1 where st: "start_scan env tenant j (g\<lparr>sg_type := ''bulk''\<rparr>) w = (answer, w1)" by fastforce
    show ?case
    proof (cases "j = i \<and> (\<exists>a s. answer = StStarted a s)")
      case True
      then obtain a s where "start_scan env tenant i (g\<lparr>sg_type := ''bulk''\<rparr>) w = (StStarted a s, w1)" using st by blast
      then have "started_in i (fst (bulk_start env tenant g is w1)) = 0"
        by (rule bulk_blocked [OF started_blocks assms(2)])
      moreover obtain answers w2 where "bulk_start env tenant g is w1 = (answers, w2)" by fastforce
      ultimately show ?thesis using st True by (simp add: started_in_def)
    next
      case False
      moreover obtain answers w2 where "bulk_start env tenant g is w1 = (answers, w2)" by fastforce
      ultimately show ?thesis using st Cons.IH [of w1] by (auto simp: started_in_def)
    qed
  qed (simp add: started_in_def)
  ultimately show ?thesis using run by (metis fst_conv)
qed

theorem bulk_scan_starts_each_once_witness:
  "\<exists>answers w'. bulk_scan_handler scan_example (as_tenant ''t'') (Some ([''i'', ''j'', ''i''], example_scan_config)) scan_start = (Inr answers, w')
    \<and> map fst answers = [''i'', ''j'', ''i''] \<and> (\<forall>i. started_in i answers \<le> 1)"
proof -
  let ?b = "bulk_scan_handler scan_example (as_tenant ''t'') (Some ([''i'', ''j'', ''i''], example_scan_config)) scan_start"
  have "is_ok (fst ?b)" by code_simp
  then obtain answers where b: "?b = (Inr answers, snd ?b)" by (cases "fst ?b") (auto simp: prod_eq_iff)
  have "se_query_ok (pe_scan (sv_api scan_example))" by (simp add: scan_example_def api_example_def)
  then have answers: "map fst answers = [''i'', ''j'', ''i''] \<and> (\<forall>i. started_in i answers \<le> 1)"
    by (rule bulk_scan_starts_each_once [OF b])
  show ?thesis by (intro exI conjI, rule b) (rule answers [THEN conjunct1], rule answers [THEN conjunct2])
qed

end
