(* ===== verification/Properties.thy ===== *)
theory Properties
  imports Envelope Encoding Queries
begin

text \<open>
  The key-value properties of artifacts: their table with the trigger that keeps its audit log
  (internal/repository/property_repository.go, internal/database/migrations.go), the service that
  validates, encrypts and masks them (internal/service/property_service.go) and the request handlers
  (internal/handlers/property_handler.go). Sensitive values are sealed under a key that the service makes
  for the tenant and keeps in memory only. Full-text search is a parameter; the request to rebuild the
  search index has no caller.
\<close>

section \<open>Data\<close>

record property =
  pt_id :: uuid
  pt_tenant :: uuid
  pt_repo :: string
  pt_artifact :: string
  pt_key :: string
  pt_value :: string
  pt_value_type :: string
  pt_sensitive :: bool
  pt_system :: bool
  pt_multi :: bool
  pt_encrypted :: "string option"
  pt_key_id :: "string option"
  pt_algorithm :: "string option"
  pt_nonce :: "string option"
  pt_created_by :: "uuid option"
  pt_created_at :: time
  pt_updated_by :: "uuid option"
  pt_updated_at :: time
  pt_version :: int
  pt_tags :: "string list"
  pt_description :: "string option"

text \<open>An entry of the audit log, which a trigger of the table writes.\<close>

record property_log =
  pg_tenant :: uuid
  pg_property :: uuid
  pg_artifact :: string
  pg_action :: string
  pg_key :: string
  pg_old :: "string option"
  pg_new :: "string option"
  pg_user :: "uuid option"

record property_world =
  pw_rows :: "property list"
  pw_log :: "property_log list"
  pw_keys :: "(uuid \<times> bytes) list"

text \<open>
  The environment: clock, identifiers, the database's answers (\<open>pn_accepts\<close>: the references of the
  row exist and its texts are valid), the random source and AES-GCM.
\<close>

record property_env =
  pn_now :: time
  pn_ids :: "nat \<Rightarrow> uuid"
  pn_get_ok :: bool
  pn_find_ok :: bool
  pn_accepts :: "property \<Rightarrow> bool"
  pn_update_ok :: bool
  pn_delete_ok :: bool
  pn_count_ok :: bool
  pn_list_ok :: bool
  pn_full_text :: "string \<Rightarrow> string \<Rightarrow> bool"
  pn_new_key :: "bytes option"
  pn_new_nonce :: "nat \<Rightarrow> bytes option"
  pn_seal :: seal_fun
  pn_open :: open_fun
  pn_parse_uuid :: "string \<Rightarrow> uuid option"

datatype property_error =
    KeyEmpty | KeyTooLong | KeyMalformed | ValueTooLarge | DescriptionTooLong | TooManyTags | SystemKey
  | PropertyExists | KeyPanic | NonceFailed | BadCiphertext | BadNonce | Unsealing enc_error
  | InsertRefused | PropertyNotFound | PropertyQueryFailed | SystemProperty | VersionConflict
  | NoProperties | TooManyProperties | AtIndex nat property_error

section \<open>Validation\<close>

definition key_char :: "char \<Rightarrow> bool" where
  "key_char c \<longleftrightarrow> is_alnum c \<or> c = CHR ''.'' \<or> c = CHR ''_'' \<or> c = CHR ''-''"

text \<open>\<open>None\<close>: the key is valid. The test of the pattern bounds the length again.\<close>

definition validate_property_key :: "string \<Rightarrow> property_error option" where
  "validate_property_key k =
     (if k = [] then Some KeyEmpty
      else if 255 < length k then Some KeyTooLong
      else if \<not> list_all key_char k \<or> 255 < length k then Some KeyMalformed else None)"

definition system_property_prefixes :: "string list" where
  "system_property_prefixes = [''securestor.'', ''artifact.'', ''scanner.'', ''compliance.'', ''signature.'']"

definition is_system_property :: "string \<Rightarrow> bool" where
  "is_system_property k \<longleftrightarrow> list_ex (has_prefix k) system_property_prefixes"

definition validate_property_value :: "string \<Rightarrow> property_error option" where
  "validate_property_value v = (if 65536 < int (length v) then Some ValueTooLarge else None)"

definition validate_description :: "string \<Rightarrow> property_error option" where
  "validate_description d = (if 1024 < int (length d) then Some DescriptionTooLong else None)"

definition validate_tags :: "string list \<Rightarrow> property_error option" where
  "validate_tags tags = (if 20 < length tags then Some TooManyTags else None)"

text \<open>The first complaint of a list of checks.\<close>

fun first_error :: "'e option list \<Rightarrow> 'e option" where
  "first_error [] = None"
| "first_error (None # es) = first_error es"
| "first_error (Some e # _) = Some e"

section \<open>Encryption\<close>

text \<open>The key of a tenant is made at its first use, also when that use is a decryption.\<close>

definition get_or_create_encryption_key ::
  "property_env \<Rightarrow> uuid \<Rightarrow> (uuid \<times> bytes) list \<Rightarrow> (property_error + bytes) \<times> (uuid \<times> bytes) list" where
  "get_or_create_encryption_key env tenant keys' =
     (case map_of keys' tenant of
        Some key \<Rightarrow> (Inr key, keys')
      | None \<Rightarrow> (case pn_new_key env of None \<Rightarrow> (Inl KeyPanic, keys') | Some key \<Rightarrow> (Inr key, AList.update tenant key keys')))"

text \<open>The result: the encoded ciphertext, the key identifier and the encoded nonce.\<close>

definition encrypt_value ::
  "property_env \<Rightarrow> nat \<Rightarrow> uuid \<Rightarrow> string \<Rightarrow> (uuid \<times> bytes) list
     \<Rightarrow> (property_error + string \<times> string \<times> string) \<times> (uuid \<times> bytes) list" where
  "encrypt_value env i tenant v keys' =
     (case get_or_create_encryption_key env tenant keys' of
        (Inl e, keys') \<Rightarrow> (Inl e, keys')
      | (Inr key, keys') \<Rightarrow>
          (case pn_new_nonce env i of
             None \<Rightarrow> (Inl NonceFailed, keys')
           | Some nonce \<Rightarrow> (Inr (base64_encode (pn_seal env key nonce (bytes_of v) []), tenant, base64_encode nonce), keys')))"

definition text_of :: "bytes \<Rightarrow> string" where
  "text_of bs = map (\<lambda>b. char_of (unat b)) bs"

definition decrypt_value ::
  "property_env \<Rightarrow> uuid \<Rightarrow> string \<Rightarrow> string \<Rightarrow> (uuid \<times> bytes) list \<Rightarrow> (property_error + string) \<times> (uuid \<times> bytes) list" where
  "decrypt_value env tenant encrypted nonce keys' =
     (case get_or_create_encryption_key env tenant keys' of
        (Inl e, keys') \<Rightarrow> (Inl e, keys')
      | (Inr key, keys') \<Rightarrow>
          (case base64_decode encrypted of
             None \<Rightarrow> (Inl BadCiphertext, keys')
           | Some ciphertext \<Rightarrow>
               (case base64_decode nonce of
                  None \<Rightarrow> (Inl BadNonce, keys')
                | Some n \<Rightarrow>
                    (case gcm_open (pn_open env) key n ciphertext [] of
                       Inl e \<Rightarrow> (Inl (Unsealing e), keys')
                     | Inr p \<Rightarrow> (Inr (text_of p), keys')))))"

text \<open>What a sensitive property stores in place of its value.\<close>

definition sealed_with :: "string \<times> string \<times> string \<Rightarrow> property \<Rightarrow> property" where
  "sealed_with s p =
     (case s of (encrypted, key_id, nonce) \<Rightarrow>
        p\<lparr>pt_encrypted := Some encrypted, pt_key_id := Some key_id, pt_nonce := Some nonce,
          pt_algorithm := Some ''AES-256-GCM'', pt_value := []\<rparr>)"

definition seal_property ::
  "property_env \<Rightarrow> nat \<Rightarrow> uuid \<Rightarrow> string \<Rightarrow> property \<Rightarrow> (uuid \<times> bytes) list \<Rightarrow> (property_error + property) \<times> (uuid \<times> bytes) list" where
  "seal_property env i tenant v p keys' =
     (case encrypt_value env i tenant v keys' of
        (Inl e, keys') \<Rightarrow> (Inl e, keys')
      | (Inr s, keys') \<Rightarrow> (Inr (sealed_with s p), keys'))"

section \<open>The table and its trigger\<close>

definition redacted :: "bool \<Rightarrow> string \<Rightarrow> string" where
  "redacted sensitive v = (if sensitive then ''***REDACTED***'' else v)"

definition log_insert :: "property \<Rightarrow> property_log" where
  "log_insert p = \<lparr>pg_tenant = pt_tenant p, pg_property = pt_id p, pg_artifact = pt_artifact p, pg_action = ''CREATE'',
     pg_key = pt_key p, pg_old = None, pg_new = Some (redacted (pt_sensitive p) (pt_value p)), pg_user = pt_created_by p\<rparr>"

definition log_update :: "property \<Rightarrow> property \<Rightarrow> property_log" where
  "log_update old new = \<lparr>pg_tenant = pt_tenant new, pg_property = pt_id new, pg_artifact = pt_artifact new, pg_action = ''UPDATE'',
     pg_key = pt_key new, pg_old = Some (redacted (pt_sensitive old) (pt_value old)),
     pg_new = Some (redacted (pt_sensitive new) (pt_value new)), pg_user = pt_updated_by new\<rparr>"

definition log_delete :: "property \<Rightarrow> property_log" where
  "log_delete p = \<lparr>pg_tenant = pt_tenant p, pg_property = pt_id p, pg_artifact = pt_artifact p, pg_action = ''DELETE'',
     pg_key = pt_key p, pg_old = Some (redacted (pt_sensitive p) (pt_value p)), pg_new = None, pg_user = None\<rparr>"

text \<open>The constraints of the table and the widths of its columns; lengths count characters.\<close>

definition row_allowed :: "property_env \<Rightarrow> property \<Rightarrow> bool" where
  "row_allowed env p \<longleftrightarrow>
     pn_accepts env p \<and> pt_key p \<noteq> [] \<and> list_all key_char (pt_key p) \<and> int (text_length (pt_value p)) \<le> 65535
     \<and> text_length (pt_key p) \<le> 255 \<and> text_length (pt_artifact p) \<le> 255 \<and> text_length (pt_repo p) \<le> 255
     \<and> text_length (pt_value_type p) \<le> 50"

text \<open>Whatever the caller leaves unset is filled in: \<open>i\<close> numbers the rows of one request.\<close>

definition stamped :: "property_env \<Rightarrow> nat \<Rightarrow> property \<Rightarrow> property" where
  "stamped env i p =
     p\<lparr>pt_id := (if pt_id p = uuid_nil then pn_ids env i else pt_id p),
       pt_created_at := (if pt_created_at p = zero_time then pn_now env else pt_created_at p),
       pt_updated_at := (if pt_updated_at p = zero_time then pn_now env else pt_updated_at p),
       pt_version := (if pt_version p = 0 then 1 else pt_version p)\<rparr>"

definition insert_property ::
  "property_env \<Rightarrow> nat \<Rightarrow> property \<Rightarrow> property_world \<Rightarrow> (property_error + property) \<times> property_world" where
  "insert_property env i p w =
     (let p = stamped env i p
      in if \<not> row_allowed env p \<or> pt_id p \<in> pt_id ` set (pw_rows w) then (Inl InsertRefused, w)
         else (Inr p, w\<lparr>pw_rows := pw_rows w @ [p], pw_log := pw_log w @ [log_insert p]\<rparr>))"

definition property_row :: "uuid \<Rightarrow> uuid \<Rightarrow> property_world \<Rightarrow> property option" where
  "property_row tenant i w = List.find (\<lambda>p. pt_id p = i \<and> pt_tenant p = tenant) (pw_rows w)"

definition property_by_id :: "property_env \<Rightarrow> uuid \<Rightarrow> uuid \<Rightarrow> property_world \<Rightarrow> property_error + property" where
  "property_by_id env tenant i w =
     (if \<not> pn_get_ok env then Inl PropertyQueryFailed
      else case property_row tenant i w of None \<Rightarrow> Inl PropertyNotFound | Some p \<Rightarrow> Inr p)"

definition property_by_key :: "property_env \<Rightarrow> uuid \<Rightarrow> string \<Rightarrow> string \<Rightarrow> property_world \<Rightarrow> property option" where
  "property_by_key env tenant artifact k w =
     (if \<not> pn_find_ok env then None
      else List.find (\<lambda>p. pt_tenant p = tenant \<and> pt_artifact p = artifact \<and> pt_key p = k) (pw_rows w))"

definition properties_by_artifact ::
  "property_env \<Rightarrow> uuid \<Rightarrow> string \<Rightarrow> int \<Rightarrow> int \<Rightarrow> property_world \<Rightarrow> (property list \<times> nat) option" where
  "properties_by_artifact env tenant artifact limit offset w =
     (let found = filter (\<lambda>p. pt_tenant p = tenant \<and> pt_artifact p = artifact) (pw_rows w);
          limit = (if limit \<le> 0 then 100 else limit)
      in if \<not> pn_count_ok env \<or> \<not> pn_list_ok env then None
         else map_option (\<lambda>ps. (ps, length found)) (page limit offset (newest pt_created_at found)))"

text \<open>An update goes through only for the version it was read with, and raises it.\<close>

definition changed_row :: "property_env \<Rightarrow> property \<Rightarrow> property \<Rightarrow> property" where
  "changed_row env p r =
     r\<lparr>pt_value := pt_value p, pt_value_type := pt_value_type p, pt_sensitive := pt_sensitive p, pt_multi := pt_multi p,
       pt_encrypted := pt_encrypted p, pt_key_id := pt_key_id p, pt_algorithm := pt_algorithm p, pt_nonce := pt_nonce p,
       pt_updated_by := pt_updated_by p, pt_updated_at := pn_now env, pt_version := pt_version r + 1,
       pt_tags := pt_tags p, pt_description := pt_description p\<rparr>"

definition update_row ::
  "property_env \<Rightarrow> property \<Rightarrow> property_world \<Rightarrow> (property_error + property) \<times> property_world" where
  "update_row env p w =
     (let hit = (\<lambda>r. pt_id r = pt_id p \<and> pt_tenant r = pt_tenant p \<and> pt_version r = pt_version p)
      in case List.find hit (pw_rows w) of
           None \<Rightarrow> (Inl VersionConflict, w)
         | Some r \<Rightarrow>
             if \<not> pn_update_ok env \<or> \<not> row_allowed env (changed_row env p r) then (Inl InsertRefused, w)
             else (Inr (p\<lparr>pt_version := pt_version r + 1, pt_updated_at := pn_now env\<rparr>),
                   w\<lparr>pw_rows := map (\<lambda>r. if hit r then changed_row env p r else r) (pw_rows w),
                     pw_log := pw_log w @ [log_update r (changed_row env p r)]\<rparr>))"

definition delete_rows :: "(property \<Rightarrow> bool) \<Rightarrow> property_world \<Rightarrow> property_world" where
  "delete_rows P w = w\<lparr>pw_rows := filter (\<lambda>p. \<not> P p) (pw_rows w), pw_log := pw_log w @ map log_delete (filter P (pw_rows w))\<rparr>"

definition delete_row_of ::
  "property_env \<Rightarrow> (property \<Rightarrow> bool) \<Rightarrow> property_world \<Rightarrow> (property_error + unit) \<times> property_world" where
  "delete_row_of env P w =
     (if \<not> pn_delete_ok env then (Inl PropertyQueryFailed, w)
      else if \<not> list_ex P (pw_rows w) then (Inl PropertyNotFound, w)
      else (Inr (), delete_rows P w))"

definition delete_property_row :: "property_env \<Rightarrow> uuid \<Rightarrow> uuid \<Rightarrow> property_world \<Rightarrow> (property_error + unit) \<times> property_world" where
  "delete_property_row env tenant i w = delete_row_of env (\<lambda>p. pt_id p = i \<and> pt_tenant p = tenant) w"

definition delete_by_key ::
  "property_env \<Rightarrow> uuid \<Rightarrow> string \<Rightarrow> string \<Rightarrow> property_world \<Rightarrow> (property_error + unit) \<times> property_world" where
  "delete_by_key env tenant artifact k w =
     delete_row_of env (\<lambda>p. pt_tenant p = tenant \<and> pt_artifact p = artifact \<and> pt_key p = k) w"

section \<open>Searching\<close>

record property_search =
  ps_key :: "string option"
  ps_value :: "string option"
  ps_key_pattern :: "string option"
  ps_value_pattern :: "string option"
  ps_keys :: "string list"
  ps_value_type :: "string option"
  ps_sensitive :: "bool option"
  ps_system :: "bool option"
  ps_multi :: "bool option"
  ps_tags :: "string list"
  ps_full_text :: "string option"
  ps_repo :: "string option"
  ps_artifact :: "string option"
  ps_created_after :: "time option"
  ps_created_before :: "time option"
  ps_limit :: int
  ps_offset :: int

record property_hit =
  ph_id :: uuid
  ph_tenant :: uuid
  ph_repo :: string
  ph_artifact :: string
  ph_key :: string
  ph_value :: string
  ph_value_type :: string
  ph_sensitive :: bool
  ph_system :: bool
  ph_created_at :: time
  ph_updated_at :: time

definition hit_of :: "property \<Rightarrow> property_hit" where
  "hit_of p = \<lparr>ph_id = pt_id p, ph_tenant = pt_tenant p, ph_repo = pt_repo p, ph_artifact = pt_artifact p, ph_key = pt_key p,
     ph_value = pt_value p, ph_value_type = pt_value_type p, ph_sensitive = pt_sensitive p, ph_system = pt_system p,
     ph_created_at = pt_created_at p, ph_updated_at = pt_updated_at p\<rparr>"

text \<open>The tags asked for are not looked at.\<close>

definition search_matches :: "property_env \<Rightarrow> uuid \<Rightarrow> property_search \<Rightarrow> property \<Rightarrow> bool" where
  "search_matches env tenant q p \<longleftrightarrow>
     pt_tenant p = tenant
     \<and> given (ps_key q) (\<lambda>k. pt_key p = k) \<and> given (ps_value q) (\<lambda>v. pt_value p = v)
     \<and> given (ps_key_pattern q) (\<lambda>k. sql_like k (pt_key p)) \<and> given (ps_value_pattern q) (\<lambda>v. sql_like v (pt_value p))
     \<and> (ps_keys q = [] \<or> pt_key p \<in> set (ps_keys q))
     \<and> given (ps_value_type q) (\<lambda>t. pt_value_type p = t) \<and> given (ps_sensitive q) (\<lambda>b. pt_sensitive p = b)
     \<and> given (ps_system q) (\<lambda>b. pt_system p = b) \<and> given (ps_multi q) (\<lambda>b. pt_multi p = b)
     \<and> given (ps_repo q) (\<lambda>r. pt_repo p = r) \<and> given (ps_artifact q) (\<lambda>a. pt_artifact p = a)
     \<and> given (ps_created_after q) (\<lambda>t. t \<le> pt_created_at p) \<and> given (ps_created_before q) (\<lambda>t. pt_created_at p \<le> t)
     \<and> given (ps_full_text q) (\<lambda>t. pn_full_text env t (pt_key p @ '' '' @ pt_value p))"

definition search_limit :: "property_search \<Rightarrow> int" where
  "search_limit q = (if ps_limit q \<le> 0 then 100 else min 1000 (ps_limit q))"

definition search_rows ::
  "property_env \<Rightarrow> uuid \<Rightarrow> property_search \<Rightarrow> property_world \<Rightarrow> (property_hit list \<times> nat) option" where
  "search_rows env tenant q w =
     (let found = filter (search_matches env tenant q) (pw_rows w)
      in if \<not> pn_count_ok env \<or> \<not> pn_list_ok env then None
         else map_option (\<lambda>ps. (map hit_of ps, length found)) (page (search_limit q) (ps_offset q) (newest pt_created_at found)))"

section \<open>Batches and statistics\<close>

text \<open>A batch is one transaction: the first row refused undoes the others.\<close>

fun insert_all :: "property_env \<Rightarrow> nat \<Rightarrow> property list \<Rightarrow> property_world \<Rightarrow> (property_error + unit) \<times> property_world" where
  "insert_all env i [] w = (Inr (), w)"
| "insert_all env i (p # ps) w =
     (case insert_property env i p w of
        (Inl e, w) \<Rightarrow> (Inl e, w)
      | (Inr _, w) \<Rightarrow> insert_all env (Suc i) ps w)"

definition batch_insert :: "property_env \<Rightarrow> property list \<Rightarrow> property_world \<Rightarrow> (property_error + unit) \<times> property_world" where
  "batch_insert env ps w = (case insert_all env 0 ps w of (Inl e, _) \<Rightarrow> (Inl e, w) | (Inr _, w) \<Rightarrow> (Inr (), w))"

definition batch_delete :: "property_env \<Rightarrow> uuid \<Rightarrow> uuid list \<Rightarrow> property_world \<Rightarrow> (property_error + unit) \<times> property_world" where
  "batch_delete env tenant is w =
     (if is = [] then (Inr (), w)
      else if \<not> pn_delete_ok env then (Inl PropertyQueryFailed, w)
      else (Inr (), delete_rows (\<lambda>p. pt_tenant p = tenant \<and> pt_id p \<in> set is) w))"

record property_statistics =
  pq_tenant :: uuid
  pq_total :: nat
  pq_artifacts :: nat
  pq_keys :: nat
  pq_sensitive :: nat
  pq_system :: nat
  pq_multi :: nat
  pq_last :: time

definition property_statistics_of :: "property_env \<Rightarrow> uuid \<Rightarrow> property_world \<Rightarrow> property_statistics option" where
  "property_statistics_of env tenant w =
     (let ps = filter (\<lambda>p. pt_tenant p = tenant) (pw_rows w)
      in if \<not> pn_count_ok env then None
         else Some \<lparr>pq_tenant = tenant, pq_total = length ps, pq_artifacts = length (remdups (map pt_artifact ps)),
           pq_keys = length (remdups (map pt_key ps)), pq_sensitive = length (filter pt_sensitive ps),
           pq_system = length (filter pt_system ps), pq_multi = length (filter pt_multi ps),
           pq_last = (if ps = [] then zero_time else Max (pt_created_at ` set ps))\<rparr>)"

section \<open>The service\<close>

record create_property_request =
  pc_key :: string
  pc_value :: string
  pc_value_type :: string
  pc_sensitive :: bool
  pc_multi :: bool
  pc_tags :: "string list"
  pc_description :: string

definition new_property :: "uuid \<Rightarrow> string \<Rightarrow> string \<Rightarrow> uuid \<Rightarrow> create_property_request \<Rightarrow> property" where
  "new_property tenant repo artifact user q =
     \<lparr>pt_id = uuid_nil, pt_tenant = tenant, pt_repo = repo, pt_artifact = artifact, pt_key = pc_key q, pt_value = pc_value q,
      pt_value_type = pc_value_type q, pt_sensitive = pc_sensitive q, pt_system = False, pt_multi = pc_multi q,
      pt_encrypted = None, pt_key_id = None, pt_algorithm = None, pt_nonce = None, pt_created_by = Some user,
      pt_created_at = zero_time, pt_updated_by = Some user, pt_updated_at = zero_time, pt_version = 0, pt_tags = pc_tags q,
      pt_description = (if pc_description q = [] then None else Some (pc_description q))\<rparr>"

abbreviation set_keys :: "(uuid \<times> bytes) list \<Rightarrow> property_world \<Rightarrow> property_world" where
  "set_keys ks w \<equiv> w\<lparr>pw_keys := ks\<rparr>"

text \<open>
  A creation is two steps, between which other requests run: the checks, and the encryption with the
  insertion.
\<close>

definition check_creation ::
  "property_env \<Rightarrow> uuid \<Rightarrow> string \<Rightarrow> create_property_request \<Rightarrow> property_world \<Rightarrow> property_error option" where
  "check_creation env tenant artifact q w =
     first_error
       [validate_property_key (pc_key q), validate_property_value (pc_value q), validate_description (pc_description q),
        validate_tags (pc_tags q), if is_system_property (pc_key q) then Some SystemKey else None,
        if \<not> pc_multi q \<and> property_by_key env tenant artifact (pc_key q) w \<noteq> None then Some PropertyExists else None]"

definition perform_creation ::
  "property_env \<Rightarrow> uuid \<Rightarrow> string \<Rightarrow> string \<Rightarrow> create_property_request \<Rightarrow> uuid \<Rightarrow> property_world
     \<Rightarrow> (property_error + property) \<times> property_world" where
  "perform_creation env tenant repo artifact q user w =
     (let p = new_property tenant repo artifact user q
      in if \<not> pc_sensitive q then insert_property env 0 p w
         else case seal_property env 0 tenant (pc_value q) p (pw_keys w) of
             (Inl e, ks) \<Rightarrow> (Inl e, set_keys ks w)
           | (Inr p, ks) \<Rightarrow> insert_property env 0 p (set_keys ks w))"

definition create_property ::
  "property_env \<Rightarrow> uuid \<Rightarrow> string \<Rightarrow> string \<Rightarrow> create_property_request \<Rightarrow> uuid \<Rightarrow> property_world
     \<Rightarrow> (property_error + property) \<times> property_world" where
  "create_property env tenant repo artifact q user w =
     (case check_creation env tenant artifact q w of
        Some e \<Rightarrow> (Inl e, w)
      | None \<Rightarrow> perform_creation env tenant repo artifact q user w)"

text \<open>What a reader is shown: the property without the columns of its encryption.\<close>

record property_response =
  px_id :: uuid
  px_tenant :: uuid
  px_repo :: string
  px_artifact :: string
  px_key :: string
  px_value :: string
  px_value_type :: string
  px_sensitive :: bool
  px_system :: bool
  px_multi :: bool
  px_created_by :: "uuid option"
  px_created_at :: time
  px_updated_by :: "uuid option"
  px_updated_at :: time
  px_version :: int
  px_tags :: "string list"
  px_description :: "string option"
  px_masked :: bool

definition to_property_response :: "bool \<Rightarrow> property \<Rightarrow> property_response" where
  "to_property_response masked p =
     (let hidden = masked \<and> pt_sensitive p
      in \<lparr>px_id = pt_id p, px_tenant = pt_tenant p, px_repo = pt_repo p, px_artifact = pt_artifact p, px_key = pt_key p,
          px_value = (if hidden then ''***MASKED***'' else pt_value p), px_value_type = pt_value_type p,
          px_sensitive = pt_sensitive p, px_system = pt_system p, px_multi = pt_multi p, px_created_by = pt_created_by p,
          px_created_at = pt_created_at p, px_updated_by = pt_updated_by p, px_updated_at = pt_updated_at p,
          px_version = pt_version p, px_tags = pt_tags p, px_description = pt_description p, px_masked = hidden\<rparr>)"

definition shown :: "string \<Rightarrow> property_response \<Rightarrow> property_response" where
  "shown v r = r\<lparr>px_value := v, px_masked := False\<rparr>"

definition get_property ::
  "property_env \<Rightarrow> uuid \<Rightarrow> uuid \<Rightarrow> property_world \<Rightarrow> (property_error + property_response) \<times> property_world" where
  "get_property env tenant i w =
     (case property_by_id env tenant i w of
        Inl e \<Rightarrow> (Inl e, w)
      | Inr p \<Rightarrow>
          let r = to_property_response False p
          in case (pt_sensitive p, pt_encrypted p, pt_nonce p) of
               (True, Some encrypted, Some nonce) \<Rightarrow>
                 (case decrypt_value env tenant encrypted nonce (pw_keys w) of
                    (Inl e, ks) \<Rightarrow> (Inl e, set_keys ks w)
                  | (Inr v, ks) \<Rightarrow> (Inr (shown v r), set_keys ks w))
             | _ \<Rightarrow> (Inr r, w))"

text \<open>In a listing a value that cannot be decrypted is shown as the row has it.\<close>

definition show_property ::
  "property_env \<Rightarrow> uuid \<Rightarrow> bool \<Rightarrow> property \<Rightarrow> (uuid \<times> bytes) list \<Rightarrow> property_response \<times> (uuid \<times> bytes) list" where
  "show_property env tenant masked p ks =
     (let r = to_property_response masked p
      in case (\<not> masked \<and> pt_sensitive p, pt_encrypted p, pt_nonce p) of
           (True, Some encrypted, Some nonce) \<Rightarrow>
             (case decrypt_value env tenant encrypted nonce ks of
                (Inl _, ks) \<Rightarrow> (r, ks)
              | (Inr v, ks) \<Rightarrow> (shown v r, ks))
         | _ \<Rightarrow> (r, ks))"

fun show_properties ::
  "property_env \<Rightarrow> uuid \<Rightarrow> bool \<Rightarrow> property list \<Rightarrow> (uuid \<times> bytes) list \<Rightarrow> property_response list \<times> (uuid \<times> bytes) list" where
  "show_properties env tenant masked [] ks = ([], ks)"
| "show_properties env tenant masked (p # ps) ks =
     (let (r, ks) = show_property env tenant masked p ks; (rs, ks) = show_properties env tenant masked ps ks in (r # rs, ks))"

definition get_properties_by_artifact ::
  "property_env \<Rightarrow> uuid \<Rightarrow> string \<Rightarrow> int \<Rightarrow> int \<Rightarrow> bool \<Rightarrow> property_world
     \<Rightarrow> (property_response list \<times> nat) option \<times> property_world" where
  "get_properties_by_artifact env tenant artifact limit offset masked w =
     (case properties_by_artifact env tenant artifact limit offset w of
        None \<Rightarrow> (None, w)
      | Some (ps, n) \<Rightarrow> let (rs, ks) = show_properties env tenant masked ps (pw_keys w) in (Some (rs, n), set_keys ks w))"

record update_property_request =
  pu_value :: "string option"
  pu_value_type :: "string option"
  pu_sensitive :: "bool option"
  pu_tags :: "string list option"
  pu_description :: "string option"

text \<open>An update reads the row, merges the request into it and writes it: two steps again.\<close>

definition or_kept :: "'a option \<Rightarrow> 'a \<Rightarrow> 'a" where
  "or_kept x old = (case x of None \<Rightarrow> old | Some v \<Rightarrow> v)"

definition merge_update :: "uuid \<Rightarrow> update_property_request \<Rightarrow> property \<Rightarrow> property_error + property" where
  "merge_update user q p =
     (if pt_system p then Inl SystemProperty
      else case first_error
          [Option.bind (pu_value q) validate_property_value, Option.bind (pu_description q) validate_description,
           Option.bind (pu_tags q) validate_tags] of
        Some e \<Rightarrow> Inl e
      | None \<Rightarrow>
          Inr (p\<lparr>pt_value := or_kept (pu_value q) (pt_value p),
             pt_description := (if pu_description q = None then pt_description p else pu_description q),
             pt_tags := or_kept (pu_tags q) (pt_tags p), pt_value_type := or_kept (pu_value_type q) (pt_value_type p),
             pt_sensitive := or_kept (pu_sensitive q) (pt_sensitive p), pt_updated_by := Some user\<rparr>))"

definition read_for_update ::
  "property_env \<Rightarrow> uuid \<Rightarrow> uuid \<Rightarrow> update_property_request \<Rightarrow> uuid \<Rightarrow> property_world \<Rightarrow> property_error + property" where
  "read_for_update env tenant i q user w =
     (case property_by_id env tenant i w of Inl _ \<Rightarrow> Inl PropertyNotFound | Inr p \<Rightarrow> merge_update user q p)"

definition write_update ::
  "property_env \<Rightarrow> uuid \<Rightarrow> update_property_request \<Rightarrow> property \<Rightarrow> property_world \<Rightarrow> (property_error + property) \<times> property_world" where
  "write_update env tenant q p w =
     (case (pt_sensitive p, pu_value q) of
        (True, Some v) \<Rightarrow>
          (case seal_property env 0 tenant v p (pw_keys w) of
             (Inl e, ks) \<Rightarrow> (Inl e, set_keys ks w)
           | (Inr p, ks) \<Rightarrow> update_row env p (set_keys ks w))
      | _ \<Rightarrow> update_row env p w)"

definition update_property ::
  "property_env \<Rightarrow> uuid \<Rightarrow> uuid \<Rightarrow> update_property_request \<Rightarrow> uuid \<Rightarrow> property_world
     \<Rightarrow> (property_error + property) \<times> property_world" where
  "update_property env tenant i q user w =
     (case read_for_update env tenant i q user w of Inl e \<Rightarrow> (Inl e, w) | Inr p \<Rightarrow> write_update env tenant q p w)"

definition delete_property :: "property_env \<Rightarrow> uuid \<Rightarrow> uuid \<Rightarrow> property_world \<Rightarrow> (property_error + unit) \<times> property_world" where
  "delete_property env tenant i w =
     (case property_by_id env tenant i w of
        Inl _ \<Rightarrow> (Inl PropertyNotFound, w)
      | Inr p \<Rightarrow> if pt_system p then (Inl SystemProperty, w) else delete_property_row env tenant i w)"

definition search_properties :: "property_env \<Rightarrow> uuid \<Rightarrow> property_search \<Rightarrow> property_world \<Rightarrow> (property_hit list \<times> nat) option" where
  "search_properties env tenant q w =
     map_option (\<lambda>(hits, n). (map (\<lambda>h. if ph_sensitive h then h\<lparr>ph_value := ''***MASKED***''\<rparr> else h) hits, n))
       (search_rows env tenant q w)"

text \<open>A batch checks neither descriptions nor tags nor whether the property is there already.\<close>

definition check_batch_item :: "create_property_request \<Rightarrow> property_error option" where
  "check_batch_item q =
     first_error [validate_property_key (pc_key q), validate_property_value (pc_value q),
       if is_system_property (pc_key q) then Some SystemKey else None]"

fun prepare_batch ::
  "property_env \<Rightarrow> uuid \<Rightarrow> string \<Rightarrow> uuid \<Rightarrow> nat \<Rightarrow> (string \<times> create_property_request) list \<Rightarrow> (uuid \<times> bytes) list
     \<Rightarrow> (property_error + property list) \<times> (uuid \<times> bytes) list" where
  "prepare_batch env tenant repo user i [] ks = (Inr [], ks)"
| "prepare_batch env tenant repo user i ((artifact, q) # qs) ks =
     (case check_batch_item q of
        Some e \<Rightarrow> (Inl (AtIndex i e), ks)
      | None \<Rightarrow>
          let p = new_property tenant repo artifact user q
          in case if pc_sensitive q then seal_property env i tenant (pc_value q) p ks else (Inr p, ks) of
               (Inl e, ks) \<Rightarrow> (Inl (AtIndex i e), ks)
             | (Inr p, ks) \<Rightarrow>
                 (case prepare_batch env tenant repo user (Suc i) qs ks of
                    (Inl e, ks) \<Rightarrow> (Inl e, ks)
                  | (Inr ps, ks) \<Rightarrow> (Inr (p # ps), ks)))"

definition batch_create_properties ::
  "property_env \<Rightarrow> uuid \<Rightarrow> string \<Rightarrow> (string \<times> create_property_request) list \<Rightarrow> uuid \<Rightarrow> property_world
     \<Rightarrow> (property_error + unit) \<times> property_world" where
  "batch_create_properties env tenant repo qs user w =
     (if qs = [] then (Inl NoProperties, w)
      else if 100 < length qs then (Inl TooManyProperties, w)
      else case prepare_batch env tenant repo user 0 qs (pw_keys w) of
          (Inl e, ks) \<Rightarrow> (Inl e, set_keys ks w)
        | (Inr ps, ks) \<Rightarrow> batch_insert env ps (set_keys ks w))"

definition batch_delete_properties ::
  "property_env \<Rightarrow> uuid \<Rightarrow> uuid list \<Rightarrow> property_world \<Rightarrow> (property_error + unit) \<times> property_world" where
  "batch_delete_properties env tenant is w =
     (if is = [] then (Inl NoProperties, w)
      else if 100 < length is then (Inl TooManyProperties, w)
      else if list_ex (\<lambda>i. case property_by_id env tenant i w of Inl _ \<Rightarrow> False | Inr p \<Rightarrow> pt_system p) is
      then (Inl SystemProperty, w)
      else batch_delete env tenant is w)"

section \<open>The handlers\<close>

datatype property_answer =
    PrNoTenant | PrBadTenant | PrNoUser | PrBadRequest | PrBadId | PrRefused property_error | PrNotFound | PrFailed
  | PrDone | PrCreated property | PrUpdated property | PrDeleted | PrShown property_response
  | PrListed "property_response list" nat | PrFound "property_hit list" nat | PrStatistics property_statistics

text \<open>\<open>None\<close> as a body: it does not bind. The tenant stands in for the repository.\<close>

definition create_property_handler ::
  "property_env \<Rightarrow> gin_context \<Rightarrow> string \<Rightarrow> create_property_request option \<Rightarrow> property_world \<Rightarrow> property_answer \<times> property_world" where
  "create_property_handler env ctx artifact body w =
     (if artifact = [] then (PrBadRequest, w)
      else with_tenant ctx (PrNoTenant, w) (PrBadTenant, w) (\<lambda>tenant.
        with_user (pn_parse_uuid env) ctx (PrNoUser, w) (\<lambda>user.
          case body of
            None \<Rightarrow> (PrBadRequest, w)
          | Some q \<Rightarrow>
              if pc_key q = [] \<or> pc_value q = [] then (PrBadRequest, w)
              else case create_property env tenant tenant artifact q user w of
                  (Inl e, w) \<Rightarrow> (PrRefused e, w)
                | (Inr p, w) \<Rightarrow> (PrCreated p, w))))"

text \<open>The three parameters of a listing are \<^verbatim>\<open>limit\<close>, \<^verbatim>\<open>offset\<close> and \<^verbatim>\<open>mask_sensitive\<close>; one that does not parse is zero or false, one out of range the nearest number.\<close>

definition parse_bool :: "string \<Rightarrow> bool" where
  "parse_bool s \<longleftrightarrow> s \<in> {''1'', ''t'', ''T'', ''true'', ''TRUE'', ''True''}"

definition query_int :: "int \<Rightarrow> string option \<Rightarrow> int" where
  "query_int standard q = (case q of None \<Rightarrow> standard | Some s \<Rightarrow> atoi_value s)"

definition list_properties_handler ::
  "property_env \<Rightarrow> gin_context \<Rightarrow> string \<Rightarrow> string option \<Rightarrow> string option \<Rightarrow> string option \<Rightarrow> property_world
     \<Rightarrow> property_answer \<times> property_world" where
  "list_properties_handler env ctx artifact limit offset masked w =
     (if artifact = [] then (PrBadRequest, w)
      else with_tenant ctx (PrNoTenant, w) (PrBadTenant, w) (\<lambda>tenant.
        case get_properties_by_artifact env tenant artifact (query_int 100 limit) (query_int 0 offset)
               (case masked of None \<Rightarrow> True | Some s \<Rightarrow> parse_bool s) w of
          (None, w) \<Rightarrow> (PrFailed, w)
        | (Some (rs, n), w) \<Rightarrow> (PrListed rs n, w)))"

definition get_property_handler ::
  "property_env \<Rightarrow> gin_context \<Rightarrow> string \<Rightarrow> property_world \<Rightarrow> property_answer \<times> property_world" where
  "get_property_handler env ctx param w =
     (if param = [] then (PrBadRequest, w)
      else with_tenant ctx (PrNoTenant, w) (PrBadTenant, w) (\<lambda>tenant.
        case pn_parse_uuid env param of
          None \<Rightarrow> (PrBadId, w)
        | Some i \<Rightarrow> (case get_property env tenant i w of (Inl _, w) \<Rightarrow> (PrNotFound, w) | (Inr r, w) \<Rightarrow> (PrShown r, w))))"

definition update_property_handler ::
  "property_env \<Rightarrow> gin_context \<Rightarrow> string \<Rightarrow> update_property_request option \<Rightarrow> property_world \<Rightarrow> property_answer \<times> property_world" where
  "update_property_handler env ctx param body w =
     (if param = [] then (PrBadRequest, w)
      else with_tenant ctx (PrNoTenant, w) (PrBadTenant, w) (\<lambda>tenant.
        with_user (pn_parse_uuid env) ctx (PrNoUser, w) (\<lambda>user.
          case (body, pn_parse_uuid env param) of
            (None, _) \<Rightarrow> (PrBadRequest, w)
          | (_, None) \<Rightarrow> (PrBadId, w)
          | (Some q, Some i) \<Rightarrow>
              (case update_property env tenant i q user w of (Inl e, w) \<Rightarrow> (PrRefused e, w) | (Inr p, w) \<Rightarrow> (PrUpdated p, w)))))"

definition delete_property_handler ::
  "property_env \<Rightarrow> gin_context \<Rightarrow> string \<Rightarrow> property_world \<Rightarrow> property_answer \<times> property_world" where
  "delete_property_handler env ctx param w =
     (if param = [] then (PrBadRequest, w)
      else with_tenant ctx (PrNoTenant, w) (PrBadTenant, w) (\<lambda>tenant.
        with_user (pn_parse_uuid env) ctx (PrNoUser, w) (\<lambda>user.
          case pn_parse_uuid env param of
            None \<Rightarrow> (PrBadId, w)
          | Some i \<Rightarrow> (case delete_property env tenant i w of (Inl e, w) \<Rightarrow> (PrRefused e, w) | (Inr _, w) \<Rightarrow> (PrDeleted, w)))))"

definition search_properties_handler ::
  "property_env \<Rightarrow> gin_context \<Rightarrow> property_search option \<Rightarrow> property_world \<Rightarrow> property_answer" where
  "search_properties_handler env ctx body w =
     with_tenant ctx PrNoTenant PrBadTenant (\<lambda>tenant.
       case body of
         None \<Rightarrow> PrBadRequest
       | Some q \<Rightarrow> (case search_properties env tenant q w of None \<Rightarrow> PrFailed | Some (ps, n) \<Rightarrow> PrFound ps n))"

definition property_statistics_handler :: "property_env \<Rightarrow> gin_context \<Rightarrow> property_world \<Rightarrow> property_answer" where
  "property_statistics_handler env ctx w =
     with_tenant ctx PrNoTenant PrBadTenant (\<lambda>tenant.
       case property_statistics_of env tenant w of None \<Rightarrow> PrFailed | Some s \<Rightarrow> PrStatistics s)"

section \<open>An example\<close>

definition property_example :: property_env where
  "property_example =
     \<lparr>pn_now = 5, pn_ids = (\<lambda>i. CHR ''p'' # show_nat i), pn_get_ok = True, pn_find_ok = True, pn_accepts = (\<lambda>_. True),
      pn_update_ok = True, pn_delete_ok = True, pn_count_ok = True, pn_list_ok = True, pn_full_text = (\<lambda>_ _. False),
      pn_new_key = Some (replicate 32 7), pn_new_nonce = (\<lambda>_. Some (replicate 12 3)), pn_seal = toy_seal, pn_open = toy_open,
      pn_parse_uuid = Some\<rparr>"

definition example_property :: create_property_request where
  "example_property = \<lparr>pc_key = ''token'', pc_value = ''s3cret'', pc_value_type = ''string'', pc_sensitive = True,
     pc_multi = False, pc_tags = [], pc_description = []\<rparr>"

definition no_properties :: property_world where
  "no_properties = \<lparr>pw_rows = [], pw_log = [], pw_keys = []\<rparr>"

abbreviation as_user :: "uuid \<Rightarrow> gin_context" where
  "as_user t \<equiv> [''tenant_id'' \<mapsto> CtxId t, ''user_id'' \<mapsto> CtxId ''u'']"

section \<open>Requests in sequence\<close>

text \<open>The batches are operations of the service without a route.\<close>

datatype property_call =
    PcCreate string "create_property_request option" | PcList string "string option" "string option" "string option"
  | PcGet string | PcUpdate string "update_property_request option" | PcDelete string
  | PcSearch "property_search option" | PcStatistics
  | PcBatchCreate uuid string "(string \<times> create_property_request) list" uuid | PcBatchDelete uuid "uuid list"

definition batch_answer :: "(property_error + unit) \<times> property_world \<Rightarrow> property_answer \<times> property_world" where
  "batch_answer r = (case r of (Inl e, w) \<Rightarrow> (PrRefused e, w) | (Inr _, w) \<Rightarrow> (PrDone, w))"

fun property_respond :: "property_env \<Rightarrow> gin_context \<Rightarrow> property_call \<Rightarrow> property_world \<Rightarrow> property_answer \<times> property_world" where
  "property_respond env ctx (PcCreate artifact body) w = create_property_handler env ctx artifact body w"
| "property_respond env ctx (PcList artifact limit offset masked) w = list_properties_handler env ctx artifact limit offset masked w"
| "property_respond env ctx (PcGet param) w = get_property_handler env ctx param w"
| "property_respond env ctx (PcUpdate param body) w = update_property_handler env ctx param body w"
| "property_respond env ctx (PcDelete param) w = delete_property_handler env ctx param w"
| "property_respond env ctx (PcSearch body) w = (search_properties_handler env ctx body w, w)"
| "property_respond env ctx PcStatistics w = (property_statistics_handler env ctx w, w)"
| "property_respond env ctx (PcBatchCreate tenant repo qs user) w = batch_answer (batch_create_properties env tenant repo qs user w)"
| "property_respond env ctx (PcBatchDelete tenant is) w = batch_answer (batch_delete_properties env tenant is w)"

fun property_run :: "(property_env \<times> gin_context \<times> property_call) list \<Rightarrow> property_world \<Rightarrow> property_world" where
  "property_run [] w = w"
| "property_run ((env, ctx, call) # calls) w = property_run calls (snd (property_respond env ctx call w))"

text \<open>The tenant for which a call acts and the rows it may change or delete.\<close>

fun call_tenant :: "gin_context \<Rightarrow> property_call \<Rightarrow> uuid option" where
  "call_tenant ctx (PcBatchCreate tenant _ _ _) = Some tenant"
| "call_tenant ctx (PcBatchDelete tenant _) = Some tenant"
| "call_tenant ctx _ = (case ctx ''tenant_id'' of Some (CtxId t) \<Rightarrow> Some t | _ \<Rightarrow> None)"

fun call_touches :: "property_env \<Rightarrow> property_call \<Rightarrow> uuid \<Rightarrow> bool" where
  "call_touches env (PcUpdate param _) i \<longleftrightarrow> pn_parse_uuid env param = Some i"
| "call_touches env (PcDelete param) i \<longleftrightarrow> pn_parse_uuid env param = Some i"
| "call_touches env (PcBatchDelete _ is) i \<longleftrightarrow> i \<in> set is"
| "call_touches env _ i \<longleftrightarrow> False"

text \<open>
  Whatever is done, the state changes by four kinds of steps of one tenant: a first key, a new row, an
  update, a deletion. The invariants are proved of the steps.
\<close>

inductive property_step :: "uuid \<Rightarrow> (uuid \<Rightarrow> bool) \<Rightarrow> property_world \<Rightarrow> property_world \<Rightarrow> bool"
  for tenant :: uuid and touched :: "uuid \<Rightarrow> bool" where
  st_key: "map_of (pw_keys w) tenant = None \<Longrightarrow> property_step tenant touched w (set_keys (AList.update tenant key (pw_keys w)) w)"
| st_insert: "pt_tenant p = tenant \<Longrightarrow> insert_property env i p w = (Inr p', w') \<Longrightarrow> property_step tenant touched w w'"
| st_update: "pt_tenant p = tenant \<Longrightarrow> touched (pt_id p) \<Longrightarrow> update_row env p w = (Inr p', w') \<Longrightarrow> property_step tenant touched w w'"
| st_delete: "\<forall>p. P p \<longrightarrow> pt_tenant p = tenant \<and> touched (pt_id p) \<Longrightarrow> property_step tenant touched w (delete_rows P w)"

abbreviation property_steps :: "uuid \<Rightarrow> (uuid \<Rightarrow> bool) \<Rightarrow> property_world \<Rightarrow> property_world \<Rightarrow> bool" where
  "property_steps tenant touched \<equiv> (property_step tenant touched)\<^sup>*\<^sup>*"

lemma insert_steps:
  "pt_tenant p = tenant \<Longrightarrow> property_steps tenant touched w (snd (insert_property env i p w))"
proof (cases "insert_property env i p w")
  case (Pair r w')
  assume p: "pt_tenant p = tenant"
  show ?thesis
  proof (cases r)
    case (Inl e)
    then have "w' = w" using Pair by (auto simp: insert_property_def Let_def split: if_splits)
    then show ?thesis using Pair by simp
  next
    case (Inr q)
    then show ?thesis using st_insert [OF p, of env i w q w' touched] Pair by auto
  qed
qed

lemma update_steps:
  assumes "pt_tenant p = tenant" and "touched (pt_id p)"
  shows "property_steps tenant touched w (snd (update_row env p w))"
proof (cases "update_row env p w")
  case (Pair r w')
  show ?thesis
  proof (cases r)
    case (Inl e)
    then have "w' = w" using Pair by (auto simp: update_row_def Let_def split: if_splits option.splits)
    then show ?thesis using Pair by simp
  next
    case (Inr q)
    then show ?thesis using st_update [where touched = touched, OF assms, of env w q w'] Pair by auto
  qed
qed

lemma key_steps: "property_steps tenant touched w (set_keys (snd (get_or_create_encryption_key env tenant (pw_keys w))) w)"
proof (cases "map_of (pw_keys w) tenant")
  case None
  then show ?thesis
    using st_key [OF None, of touched] by (auto simp: get_or_create_encryption_key_def split: option.split)
qed (simp add: get_or_create_encryption_key_def)

lemma encrypt_keys: "snd (encrypt_value env i tenant v ks) = snd (get_or_create_encryption_key env tenant ks)"
  by (auto simp: encrypt_value_def split: prod.split sum.split option.split)

lemma decrypt_keys: "snd (decrypt_value env tenant e n ks) = snd (get_or_create_encryption_key env tenant ks)"
  by (auto simp: decrypt_value_def split: prod.split sum.split option.split)

lemma seal_keys: "snd (seal_property env i tenant v p ks) = snd (get_or_create_encryption_key env tenant ks)"
  using encrypt_keys [of env i tenant v ks] by (auto simp: seal_property_def split: prod.split sum.split)

lemma sealed_fields: "seal_property env i tenant v p ks = (Inr q, ks') \<Longrightarrow>
    pt_tenant q = pt_tenant p \<and> pt_id q = pt_id p \<and> pt_version q = pt_version p"
  by (auto simp: seal_property_def sealed_with_def split: prod.splits sum.splits)

text \<open>Sealing a row and passing it on to a statement.\<close>

lemma seal_steps:
  assumes "\<And>q ks'. seal_property env i tenant v p (pw_keys w) = (Inr q, ks') \<Longrightarrow>
      property_steps tenant touched (set_keys ks' w) (snd (f q (set_keys ks' w)))"
  shows "property_steps tenant touched w
    (snd (case seal_property env i tenant v p (pw_keys w) of (Inl e, ks) \<Rightarrow> (Inl e, set_keys ks w) | (Inr q, ks) \<Rightarrow> f q (set_keys ks w)))"
proof (cases "seal_property env i tenant v p (pw_keys w)")
  case (Pair r ks)
  have first: "property_steps tenant touched w (set_keys ks w)"
    using key_steps [of tenant touched w env] seal_keys [of env i tenant v p "pw_keys w"] Pair by simp
  show ?thesis
  proof (cases r)
    case (Inr q)
    then show ?thesis using assms [of q ks] first Pair by (simp add: rtranclp_trans)
  qed (use first Pair in simp)
qed

lemma create_steps: "property_steps tenant touched w (snd (create_property env tenant repo artifact q user w))"
proof -
  have new: "pt_tenant (new_property tenant repo artifact user q) = tenant" by (simp add: new_property_def)
  have "property_steps tenant touched w (snd (perform_creation env tenant repo artifact q user w))"
    unfolding perform_creation_def Let_def
    by (cases "pc_sensitive q")
      (use new in \<open>auto simp only: if_True if_False not_True_eq_False not_False_eq_True dest!: sealed_fields intro!: seal_steps insert_steps\<close>)
  then show ?thesis by (simp add: create_property_def split: option.split)
qed

lemma property_by_id_found:
  "property_by_id env tenant i w = Inr p \<Longrightarrow> p \<in> set (pw_rows w) \<and> pt_id p = i \<and> pt_tenant p = tenant"
  by (auto simp: property_by_id_def property_row_def split: if_splits option.splits dest!: find_SomeD)

lemma merged_fields: "merge_update user q p = Inr p' \<Longrightarrow>
    pt_tenant p' = pt_tenant p \<and> pt_id p' = pt_id p \<and> pt_version p' = pt_version p"
  by (auto simp: merge_update_def split: if_splits option.splits)

lemma read_for_update_fields:
  "read_for_update env tenant i q user w = Inr p \<Longrightarrow> pt_tenant p = tenant \<and> pt_id p = i"
  by (auto simp: read_for_update_def split: sum.splits dest!: merged_fields property_by_id_found)

lemma write_update_steps:
  assumes "pt_tenant p = tenant" and "touched (pt_id p)"
  shows "property_steps tenant touched w (snd (write_update env tenant q p w))"
proof (cases "pt_sensitive p \<and> pu_value q \<noteq> None")
  case True
  then obtain v where v: "pu_value q = Some v" by auto
  show ?thesis unfolding write_update_def using True assms
    by (auto simp only: v bool.case prod.case option.case dest!: sealed_fields intro!: seal_steps update_steps)
next
  case False
  then show ?thesis using update_steps [where touched = touched, OF assms]
    by (auto simp: write_update_def split: bool.split option.split)
qed

lemma update_property_steps:
  "touched i \<Longrightarrow> property_steps tenant touched w (snd (update_property env tenant i q user w))"
  using write_update_steps [of _ tenant touched w env q] read_for_update_fields [of env tenant i q user w]
  by (auto simp: update_property_def split: sum.split)

lemma delete_row_steps:
  "\<forall>p. P p \<longrightarrow> pt_tenant p = tenant \<and> touched (pt_id p) \<Longrightarrow> property_steps tenant touched w (snd (delete_row_of env P w))"
  using st_delete [of P tenant touched w] by (auto simp: delete_row_of_def)

lemma delete_property_steps:
  "touched i \<Longrightarrow> property_steps tenant touched w (snd (delete_property env tenant i w))"
  using delete_row_steps [of "\<lambda>p. pt_id p = i \<and> pt_tenant p = tenant" tenant touched w env]
  by (auto simp: delete_property_def delete_property_row_def split: sum.split)

lemma show_property_keys: "snd (show_property env tenant masked p ks) \<in> {ks, snd (get_or_create_encryption_key env tenant ks)}"
  using decrypt_keys [of env tenant "the (pt_encrypted p)" "the (pt_nonce p)" ks]
  by (auto simp: show_property_def Let_def split: prod.split sum.split bool.split option.split)

lemma show_steps:
  "property_steps tenant touched w (set_keys (snd (show_properties env tenant masked ps (pw_keys w))) w)"
proof (induction ps arbitrary: w)
  case (Cons p ps)
  obtain r ks where r: "show_property env tenant masked p (pw_keys w) = (r, ks)" by fastforce
  obtain rs ks' where rs: "show_properties env tenant masked ps ks = (rs, ks')" by fastforce
  have "property_steps tenant touched w (set_keys ks w)"
    using key_steps [of tenant touched w env] show_property_keys [of env tenant masked p "pw_keys w"] r by auto
  moreover have "property_steps tenant touched (set_keys ks w) (set_keys ks' w)"
    using Cons.IH [of "set_keys ks w"] rs by simp
  ultimately show ?case using r rs by (simp add: rtranclp_trans)
qed simp

lemma get_property_steps: "property_steps tenant touched w (snd (get_property env tenant i w))"
proof (cases "property_by_id env tenant i w")
  case (Inr p)
  have "property_steps tenant touched w (set_keys ks w)" if "decrypt_value env tenant e n (pw_keys w) = (r, ks)" for e n r ks
    using key_steps [of tenant touched w env] decrypt_keys [of env tenant e n "pw_keys w"] that by simp
  then show ?thesis
    using Inr by (auto simp: get_property_def Let_def split: prod.split bool.split option.split sum.split)
qed (simp add: get_property_def)

lemma prepare_steps:
  "property_steps tenant touched w (set_keys (snd (prepare_batch env tenant repo user i qs (pw_keys w))) w)"
proof (induction qs arbitrary: i w)
  case (Cons aq qs)
  obtain artifact q where aq: "aq = (artifact, q)" by fastforce
  define p where "p = new_property tenant repo artifact user q"
  obtain r ks where r: "(if pc_sensitive q then seal_property env i tenant (pc_value q) p (pw_keys w) else (Inr p, pw_keys w)) = (r, ks)"
    by fastforce
  then have first: "property_steps tenant touched w (set_keys ks w)"
    using key_steps [of tenant touched w env] seal_keys [of env i tenant "pc_value q" p "pw_keys w"] by (auto split: if_splits)
  obtain rs ks' where rs: "prepare_batch env tenant repo user (Suc i) qs ks = (rs, ks')" by fastforce
  have "property_steps tenant touched w (set_keys ks' w)"
    using rtranclp_trans [OF first] Cons.IH [of "set_keys ks w" "Suc i"] rs by simp
  then show ?case using first aq r rs
    by (simp add: Let_def p_def [symmetric] split: option.split sum.split)
qed simp

lemma prepared_tenant:
  "prepare_batch env tenant repo user i qs ks = (Inr ps, ks') \<Longrightarrow> \<forall>p \<in> set ps. pt_tenant p = tenant"
proof (induction qs arbitrary: i ks ps)
  case (Cons aq qs)
  obtain artifact q where aq: "aq = (artifact, q)" by fastforce
  define p where "p = new_property tenant repo artifact user q"
  obtain r ks1 where r: "(if pc_sensitive q then seal_property env i tenant (pc_value q) p ks else (Inr p, ks)) = (r, ks1)" by fastforce
  with Cons.prems aq obtain p' where p': "r = Inr p'"
    by (cases r) (auto simp: Let_def p_def [symmetric] split: option.splits)
  then have "pt_tenant p' = tenant"
    using r sealed_fields [of env i tenant "pc_value q" p ks p' ks1] by (auto simp: p_def new_property_def split: if_splits)
  then show ?case
    using Cons.prems Cons.IH [of "Suc i" ks1] aq r p'
    by (auto simp: Let_def p_def [symmetric] split: option.splits sum.splits prod.splits)
qed simp

lemma insert_all_steps:
  "\<forall>p \<in> set ps. pt_tenant p = tenant \<Longrightarrow> property_steps tenant touched w (snd (insert_all env i ps w))"
proof (induction ps arbitrary: i w)
  case (Cons p ps)
  obtain r w1 where r: "insert_property env i p w = (r, w1)" by fastforce
  have "property_steps tenant touched w w1" using insert_steps [of p tenant touched w env i] Cons.prems r by simp
  moreover have "property_steps tenant touched w1 (snd (insert_all env (Suc i) ps w1))" using Cons by simp
  ultimately show ?case using r by (simp add: rtranclp_trans split: sum.split)
qed simp

lemma batch_insert_steps:
  "\<forall>p \<in> set ps. pt_tenant p = tenant \<Longrightarrow> property_steps tenant touched w (snd (batch_insert env ps w))"
  using insert_all_steps [of ps tenant touched w env 0] by (auto simp: batch_insert_def split: prod.split sum.split)

lemma batch_create_steps:
  "property_steps tenant touched w (snd (batch_create_properties env tenant repo qs user w))"
proof -
  obtain r ks where r: "prepare_batch env tenant repo user 0 qs (pw_keys w) = (r, ks)" by fastforce
  have first: "property_steps tenant touched w (set_keys ks w)"
    using prepare_steps [of tenant touched w env repo user 0 qs] r by simp
  have "property_steps tenant touched w (snd (batch_insert env ps (set_keys ks w)))" if "r = Inr ps" for ps
    using rtranclp_trans [OF first] batch_insert_steps [of ps tenant touched "set_keys ks w" env] prepared_tenant r that by blast
  then show ?thesis using first r by (auto simp: batch_create_properties_def split: sum.split)
qed

lemma batch_delete_steps:
  "property_steps tenant (\<lambda>i. i \<in> set is) w (snd (batch_delete_properties env tenant is w))"
  using st_delete [of "\<lambda>p. pt_tenant p = tenant \<and> pt_id p \<in> set is" tenant "\<lambda>i. i \<in> set is" w]
  by (auto simp: batch_delete_properties_def batch_delete_def)

text \<open>A call acts for one tenant, or changes nothing.\<close>

lemma respond_steps:
  "case call_tenant ctx call of
     None \<Rightarrow> snd (property_respond env ctx call w) = w
   | Some tenant \<Rightarrow> property_steps tenant (call_touches env call) w (snd (property_respond env ctx call w))"
proof (cases call)
  case (PcCreate artifact body)
  then show ?thesis
    using create_steps [of _ "call_touches env call" w env]
    by (auto simp: create_property_handler_def with_tenant_def with_user_def Let_def
        split: option.split ctx_value.split prod.split sum.split) (metis snd_conv)+
next
  case (PcList artifact limit offset m)
  then show ?thesis
    using show_steps [of _ "call_touches env call" w env]
    by (auto simp: list_properties_handler_def get_properties_by_artifact_def with_tenant_def Let_def
        split: option.split ctx_value.split prod.split) (metis snd_conv)+
next
  case (PcGet param)
  then show ?thesis
    using get_property_steps [of _ "call_touches env call" w env]
    by (auto simp: get_property_handler_def with_tenant_def split: option.split ctx_value.split prod.split sum.split) (metis snd_conv)+
next
  case (PcUpdate param body)
  then show ?thesis
    using update_property_steps [of "call_touches env call" _ _ w env]
    by (auto simp: update_property_handler_def with_tenant_def with_user_def
        split: option.split ctx_value.split prod.split sum.split) (metis snd_conv)+
next
  case (PcDelete param)
  then show ?thesis
    using delete_property_steps [of "call_touches env call" _ _ w env]
    by (auto simp: delete_property_handler_def with_tenant_def with_user_def
        split: option.split ctx_value.split prod.split sum.split) (metis snd_conv)+
next
  case (PcBatchCreate tenant repo qs user)
  then show ?thesis using batch_create_steps [of tenant _ w env repo qs user]
    by (auto simp: batch_answer_def split: prod.split sum.split)
next
  case (PcBatchDelete tenant "is")
  moreover have "call_touches env (PcBatchDelete tenant is) = (\<lambda>i. i \<in> set is)" by (rule ext) simp
  ultimately show ?thesis using batch_delete_steps [of tenant "is" w env]
    by (auto simp: batch_answer_def split: prod.split sum.split)
qed (auto split: option.split ctx_value.split)

section \<open>What the steps keep\<close>

lemma find_filter_keep: "(\<And>x. P x \<Longrightarrow> Q x) \<Longrightarrow> List.find P (filter Q xs) = List.find P xs"
  by (induction xs) auto

lemma find_map_keep: "(\<And>x. P (f x) = P x) \<Longrightarrow> (\<And>x. P x \<Longrightarrow> f x = x) \<Longrightarrow> List.find P (map f xs) = List.find P xs"
  by (induction xs) auto

lemma find_append: "List.find P (xs @ ys) = (case List.find P xs of None \<Rightarrow> List.find P ys | Some x \<Rightarrow> Some x)"
  by (induction xs) auto

lemma inserted_world:
  assumes "insert_property env i p w = (Inr p', w')"
  shows "p' = stamped env i p" and "pw_rows w' = pw_rows w @ [p']" and "pw_log w' = pw_log w @ [log_insert p']"
    and "pw_keys w' = pw_keys w" and "pt_id p' \<notin> pt_id ` set (pw_rows w)"
  using assms by (auto simp: insert_property_def Let_def split: if_splits)

lemma stamped_tenant [simp]: "pt_tenant (stamped env i p) = pt_tenant p"
  by (simp add: stamped_def)

lemma changed_row_fields [simp]:
  "pt_id (changed_row env p r) = pt_id r" "pt_tenant (changed_row env p r) = pt_tenant r"
  "pt_artifact (changed_row env p r) = pt_artifact r" "pt_key (changed_row env p r) = pt_key r"
  by (simp_all add: changed_row_def)

lemma updated_world:
  assumes "update_row env p w = (Inr p', w')"
  obtains r where "List.find (\<lambda>r. pt_id r = pt_id p \<and> pt_tenant r = pt_tenant p \<and> pt_version r = pt_version p) (pw_rows w) = Some r"
    and "w' = w\<lparr>pw_rows := map (\<lambda>r. if pt_id r = pt_id p \<and> pt_tenant r = pt_tenant p \<and> pt_version r = pt_version p
              then changed_row env p r else r) (pw_rows w),
            pw_log := pw_log w @ [log_update r (changed_row env p r)]\<rparr>"
    and "p' = p\<lparr>pt_version := pt_version r + 1, pt_updated_at := pn_now env\<rparr>"
  using assms that by (auto simp: update_row_def Let_def split: option.splits if_splits)

text \<open>A row that is not touched stays, and so does the key of its tenant.\<close>

definition holds_row :: "property \<Rightarrow> bytes \<Rightarrow> property_world \<Rightarrow> bool" where
  "holds_row p key w \<longleftrightarrow> property_row (pt_tenant p) (pt_id p) w = Some p \<and> map_of (pw_keys w) (pt_tenant p) = Some key"

lemma holds_row_step:
  assumes "property_step tenant touched w w'" and "holds_row p key w" and "tenant \<noteq> pt_tenant p \<or> \<not> touched (pt_id p)"
  shows "holds_row p key w'"
  using assms(1)
proof cases
  case (st_key k)
  then show ?thesis using assms(2) by (auto simp: holds_row_def property_row_def)
next
  case (st_insert q env i q')
  then show ?thesis using assms(2) inserted_world [OF st_insert(2)]
    by (simp add: holds_row_def property_row_def find_append)
next
  case (st_update q env q')
  obtain r where w': "pw_rows w' = map (\<lambda>r. if pt_id r = pt_id q \<and> pt_tenant r = pt_tenant q \<and> pt_version r = pt_version q
      then changed_row env q r else r) (pw_rows w)" "pw_keys w' = pw_keys w"
    by (rule updated_world [OF st_update(3)]) simp
  have "pt_id q \<noteq> pt_id p \<or> pt_tenant q \<noteq> pt_tenant p" using st_update(1,2) assms(3) by auto
  then have "property_row (pt_tenant p) (pt_id p) w' = property_row (pt_tenant p) (pt_id p) w"
    unfolding property_row_def w'(1) by (intro find_map_keep) auto
  then show ?thesis using assms(2) w'(2) by (simp add: holds_row_def)
next
  case (st_delete P)
  then have "property_row (pt_tenant p) (pt_id p) w' = property_row (pt_tenant p) (pt_id p) w"
    using assms(3) by (auto simp: property_row_def delete_rows_def intro!: find_filter_keep)
  then show ?thesis using assms(2) st_delete by (simp add: holds_row_def delete_rows_def)
qed

lemma holds_row_steps:
  "property_steps tenant touched w w' \<Longrightarrow> tenant \<noteq> pt_tenant p \<or> \<not> touched (pt_id p) \<Longrightarrow> holds_row p key w \<Longrightarrow> holds_row p key w'"
  by (induction rule: rtranclp_induct) (auto intro: holds_row_step)

lemma holds_row_respond:
  assumes "holds_row p key w" and "call_tenant ctx call = Some (pt_tenant p) \<longrightarrow> \<not> call_touches env call (pt_id p)"
  shows "holds_row p key (snd (property_respond env ctx call w))"
  using respond_steps [where ctx = ctx and call = call and env = env and w = w] assms
  by (auto split: option.splits elim!: holds_row_steps)

text \<open>The calls that leave a property alone.\<close>

definition leaves_property :: "property \<Rightarrow> property_env \<times> gin_context \<times> property_call \<Rightarrow> bool" where
  "leaves_property p c \<longleftrightarrow>
     (case c of (env, ctx, call) \<Rightarrow> call_tenant ctx call = Some (pt_tenant p) \<longrightarrow> \<not> call_touches env call (pt_id p))"

lemma holds_row_run:
  "list_all (leaves_property p) calls \<Longrightarrow> holds_row p key w \<Longrightarrow> holds_row p key (property_run calls w)"
  by (induction calls w rule: property_run.induct) (auto simp: leaves_property_def intro: holds_row_respond)

section \<open>Sensitive values\<close>

lemma text_of_bytes [simp]: "text_of (bytes_of s) = s"
proof -
  have "char_of (unat (of_char c :: byte)) = c" for c
  proof -
    have "unat (word_of_nat (of_char c) :: byte) = (of_char c :: nat)"
      by (simp add: unsigned_of_nat take_bit_eq_mod)
    then show ?thesis by (simp add: of_nat_of_char)
  qed
  then show ?thesis by (simp add: text_of_def bytes_of_def comp_def)
qed

text \<open>What a successful creation of a sensitive property leaves in the table.\<close>

lemma created_sensitive:
  assumes "create_property env tenant repo artifact q user w = (Inr p, w')" and "pc_sensitive q"
  obtains key nonce where "holds_row p key w'" and "pt_tenant p = tenant" and "pt_sensitive p" and "pt_value p = []"
    and "pn_new_nonce env 0 = Some nonce" and "pt_nonce p = Some (base64_encode nonce)"
    and "pt_encrypted p = Some (base64_encode (pn_seal env key nonce (bytes_of (pc_value q)) []))"
proof -
  define n where "n = new_property tenant repo artifact user q"
  have "perform_creation env tenant repo artifact q user w = (Inr p, w')"
    using assms(1) by (simp add: create_property_def split: option.splits)
  then obtain s ks where s: "seal_property env 0 tenant (pc_value q) n (pw_keys w) = (Inr s, ks)"
      and ins: "insert_property env 0 s (set_keys ks w) = (Inr p, w')"
    using assms(2) by (auto simp: perform_creation_def n_def Let_def split: prod.splits sum.splits)
  then obtain key nonce where key: "get_or_create_encryption_key env tenant (pw_keys w) = (Inr key, ks)"
      and nonce: "pn_new_nonce env 0 = Some nonce"
      and sealed: "s = sealed_with (base64_encode (pn_seal env key nonce (bytes_of (pc_value q)) []), tenant, base64_encode nonce) n"
    by (auto simp: seal_property_def encrypt_value_def split: prod.splits sum.splits option.splits)
  have "map_of ks tenant = Some key"
    using key by (auto simp: get_or_create_encryption_key_def split: option.splits)
  moreover have p: "p = stamped env 0 s" "pw_rows w' = pw_rows w @ [p]" "pw_keys w' = ks" "pt_id p \<notin> pt_id ` set (pw_rows w)"
    using inserted_world [OF ins] by simp_all
  moreover have fields: "pt_tenant p = tenant" "pt_sensitive p" "pt_value p = []" "pt_nonce p = Some (base64_encode nonce)"
      "pt_encrypted p = Some (base64_encode (pn_seal env key nonce (bytes_of (pc_value q)) []))"
    using assms(2) by (simp_all add: p(1) sealed sealed_with_def stamped_def n_def new_property_def)
  moreover have "property_row tenant (pt_id p) w' = Some p"
  proof -
    have "List.find (\<lambda>r. pt_id r = pt_id p \<and> pt_tenant r = tenant) (pw_rows w) = None"
      using p(4) by (auto simp: find_None_iff image_iff)
    then show ?thesis using p(2) fields(1) by (simp add: property_row_def find_append)
  qed
  ultimately show ?thesis using that nonce by (simp add: holds_row_def)
qed

lemma read_sensitive:
  assumes "holds_row p key w" and "pt_sensitive p" and "pt_nonce p = Some (base64_encode nonce)" and "length nonce = gcm_nonce_size"
    and "pt_encrypted p = Some (base64_encode (seal key nonce (bytes_of v) []))" and "gcm_correct seal (pn_open env)" and "pn_get_ok env"
  shows "get_property env (pt_tenant p) (pt_id p) w = (Inr (shown v (to_property_response False p)), w)"
  using assms
  by (simp add: holds_row_def get_property_def property_by_id_def decrypt_value_def get_or_create_encryption_key_def
      base64_round_trip gcm_open_def gcm_correct_def)

lemma created_by_handler:
  assumes "create_property_handler env ctx artifact (Some q) w = (PrCreated p, w')"
  obtains tenant repo user where "create_property env tenant repo artifact q user w = (Inr p, w')"
  using assms
  by (auto simp: create_property_handler_def with_tenant_def with_user_def
      split: if_splits option.splits ctx_value.splits prod.splits sum.splits)



text \<open>
  The key lives in the memory of the service. After a restart the tenant gets another one, and no
  sensitive value can be read any more; the handler answers that the property is not found.
\<close>

lemma restart_loses_sensitive_values:
  assumes "holds_row p key w" and "pt_sensitive p" and "pt_nonce p = Some (base64_encode nonce)" and "length nonce = gcm_nonce_size"
    and "pt_encrypted p = Some (base64_encode (seal key nonce (bytes_of v) []))"
    and "\<forall>key' nonce p. key' \<noteq> key \<longrightarrow> pn_open env key' nonce (seal key nonce p []) [] = None"
    and "pn_new_key env = Some new_key" and "new_key \<noteq> key" and "pn_get_ok env"
  shows "fst (get_property env (pt_tenant p) (pt_id p) (set_keys [] w)) = Inl (Unsealing OpenFailed)"
proof -
  have "property_row (pt_tenant p) (pt_id p) (set_keys [] w) = Some p" using assms(1) by (simp add: holds_row_def property_row_def)
  then show ?thesis
    using assms(2-9) by (simp add: get_property_def property_by_id_def decrypt_value_def get_or_create_encryption_key_def gcm_open_def Let_def)
qed

text \<open>
  Marking a property as sensitive without sending its value leaves the plaintext in the row: it is masked
  in the listings, and every reader of the single property and every search by value still sees it.
\<close>

lemma marking_keeps_plaintext:
  assumes "write_update env tenant q p w = (Inr p', w')" and "pu_value q = None" and "pt_sensitive p"
  shows "pt_value p' = pt_value p" and "pt_encrypted p' = pt_encrypted p"
  using assms by (auto simp: write_update_def elim!: updated_world)

text \<open>A value of 65536 bytes passes the validation and is refused by the table, whose limit is one less.\<close>

lemma longest_value_refused:
  assumes "v = replicate 65536 CHR ''x''" and "pt_value p = v"
  shows "validate_property_value v = None \<and> \<not> row_allowed env p"
  using assms by (simp add: validate_property_value_def row_allowed_def text_length_def filter_replicate)

section \<open>Tenants\<close>

lemma step_other_tenants:
  assumes "property_step tenant touched w w'"
  shows "filter (\<lambda>p. pt_tenant p \<noteq> tenant) (pw_rows w') = filter (\<lambda>p. pt_tenant p \<noteq> tenant) (pw_rows w)"
    and "\<forall>t. t \<noteq> tenant \<longrightarrow> map_of (pw_keys w') t = map_of (pw_keys w) t"
    and "\<exists>new. pw_log w' = pw_log w @ new \<and> (\<forall>g \<in> set new. pg_tenant g = tenant)"
proof -
  have "filter (\<lambda>p. pt_tenant p \<noteq> tenant) (pw_rows w') = filter (\<lambda>p. pt_tenant p \<noteq> tenant) (pw_rows w)
      \<and> (\<forall>t. t \<noteq> tenant \<longrightarrow> map_of (pw_keys w') t = map_of (pw_keys w) t)
      \<and> (\<exists>new. pw_log w' = pw_log w @ new \<and> (\<forall>g \<in> set new. pg_tenant g = tenant))"
    using assms
  proof cases
    case (st_insert p env i p')
    then show ?thesis using inserted_world [OF st_insert(2)] by (simp add: log_insert_def)
  next
    case (st_update p env p')
    have same: "filter (\<lambda>p. pt_tenant p \<noteq> tenant) (map (\<lambda>r. if pt_id r = i \<and> pt_tenant r = tenant \<and> pt_version r = v then changed_row env p r else r) rows)
        = filter (\<lambda>p. pt_tenant p \<noteq> tenant) rows" for i v rows
      by (induction rows) auto
    obtain r where "List.find (\<lambda>r. pt_id r = pt_id p \<and> pt_tenant r = pt_tenant p \<and> pt_version r = pt_version p) (pw_rows w) = Some r"
      and w': "w' = w\<lparr>pw_rows := map (\<lambda>r. if pt_id r = pt_id p \<and> pt_tenant r = pt_tenant p \<and> pt_version r = pt_version p
              then changed_row env p r else r) (pw_rows w), pw_log := pw_log w @ [log_update r (changed_row env p r)]\<rparr>"
      by (rule updated_world [OF st_update(3)])
    then have "pt_tenant r = tenant" using st_update(1) by (auto dest!: find_SomeD)
    then show ?thesis using same st_update(1) by (simp add: w' log_update_def)
  next
    case (st_delete P)
    then have "filter (\<lambda>p. \<not> P p \<and> pt_tenant p \<noteq> tenant) rows = filter (\<lambda>p. pt_tenant p \<noteq> tenant) rows" for rows
      by (intro filter_cong) auto
    then show ?thesis using st_delete by (auto simp: delete_rows_def log_delete_def)
  qed simp
  then show "filter (\<lambda>p. pt_tenant p \<noteq> tenant) (pw_rows w') = filter (\<lambda>p. pt_tenant p \<noteq> tenant) (pw_rows w)"
    and "\<forall>t. t \<noteq> tenant \<longrightarrow> map_of (pw_keys w') t = map_of (pw_keys w) t"
    and "\<exists>new. pw_log w' = pw_log w @ new \<and> (\<forall>g \<in> set new. pg_tenant g = tenant)" by blast+
qed

lemma steps_other_tenants:
  "property_steps tenant touched w w' \<Longrightarrow>
    filter (\<lambda>p. pt_tenant p \<noteq> tenant) (pw_rows w') = filter (\<lambda>p. pt_tenant p \<noteq> tenant) (pw_rows w)
    \<and> (\<forall>t. t \<noteq> tenant \<longrightarrow> map_of (pw_keys w') t = map_of (pw_keys w) t)
    \<and> (\<exists>new. pw_log w' = pw_log w @ new \<and> (\<forall>g \<in> set new. pg_tenant g = tenant))"
proof (induction rule: rtranclp_induct)
  case (step w1 w2)
  then show ?case using step_other_tenants [OF step.hyps(2)]
    by (auto simp: ball_Un)
qed simp

text \<open>The tenants of whatever an answer shows.\<close>

fun answer_tenants :: "property_answer \<Rightarrow> uuid set" where
  "answer_tenants (PrCreated p) = {pt_tenant p}"
| "answer_tenants (PrUpdated p) = {pt_tenant p}"
| "answer_tenants (PrShown r) = {px_tenant r}"
| "answer_tenants (PrListed rs n) = px_tenant ` set rs"
| "answer_tenants (PrFound hs n) = ph_tenant ` set hs"
| "answer_tenants (PrStatistics s) = {pq_tenant s}"
| "answer_tenants _ = {}"

lemma response_tenant [simp]: "px_tenant (to_property_response m p) = pt_tenant p" "px_tenant (shown v r) = px_tenant r"
  by (simp_all add: to_property_response_def shown_def Let_def)

lemma created_tenant: "create_property env tenant repo artifact q user w = (Inr p, w') \<Longrightarrow> pt_tenant p = tenant"
proof -
  assume c: "create_property env tenant repo artifact q user w = (Inr p, w')"
  have "pt_tenant (stamped env 0 (new_property tenant repo artifact user q)) = tenant" by (simp add: new_property_def)
  moreover have "pt_tenant s = tenant" if "seal_property env 0 tenant v (new_property tenant repo artifact user q) ks = (Inr s, ks')" for s v ks ks'
    using sealed_fields [OF that] by (simp add: new_property_def)
  ultimately show ?thesis using c
    by (auto simp: create_property_def perform_creation_def Let_def dest!: inserted_world(1) split: option.splits if_splits prod.splits sum.splits)
qed

lemma updated_tenant: "update_property env tenant i q user w = (Inr p, w') \<Longrightarrow> pt_tenant p = tenant"
  by (auto simp: update_property_def write_update_def
      dest!: read_for_update_fields sealed_fields elim!: updated_world
      split: sum.splits bool.splits option.splits prod.splits)

lemma got_tenant: "get_property env tenant i w = (Inr r, w') \<Longrightarrow> px_tenant r = tenant"
  by (auto simp: get_property_def Let_def dest!: property_by_id_found split: sum.splits bool.splits option.splits prod.splits)

lemma show_property_tenant [simp]: "px_tenant (fst (show_property env tenant m p ks)) = pt_tenant p"
  by (auto simp: show_property_def Let_def split: prod.split sum.split bool.split option.split)

lemma shown_tenants: "px_tenant ` set (fst (show_properties env tenant m ps ks)) = pt_tenant ` set ps"
proof (induction ps arbitrary: ks)
  case (Cons p ps)
  obtain r ks1 where r: "show_property env tenant m p ks = (r, ks1)" by fastforce
  then have "px_tenant r = pt_tenant p" using show_property_tenant [of env tenant m p ks] by simp
  moreover obtain rs ks2 where "show_properties env tenant m ps ks1 = (rs, ks2)" by fastforce
  ultimately show ?case using r Cons [of ks1] by simp
qed simp

lemma set_page: "page limit offset xs = Some ys \<Longrightarrow> set ys \<subseteq> set xs"
  by (auto simp: page_def split: if_splits dest!: in_set_takeD in_set_dropD)

lemma listed_tenants:
  assumes "get_properties_by_artifact env tenant artifact limit offset m w = (Some (rs, n), w')"
  shows "\<forall>r \<in> set rs. px_tenant r = tenant"
proof -
  obtain ps ks where ps: "properties_by_artifact env tenant artifact limit offset w = Some (ps, n)"
      "rs = fst (show_properties env tenant m ps (pw_keys w))"
    using assms by (auto simp: get_properties_by_artifact_def Let_def split: option.splits prod.splits)
  then have "set ps \<subseteq> set (filter (\<lambda>p. pt_tenant p = tenant \<and> pt_artifact p = artifact) (pw_rows w))"
    by (auto simp: properties_by_artifact_def Let_def split: if_splits dest!: set_page)
  then show ?thesis using ps(2) shown_tenants [of env tenant m ps "pw_keys w"] by auto
qed

lemma found_tenants:
  assumes "search_properties env tenant q w = Some (hs, n)"
  shows "\<forall>h \<in> set hs. ph_tenant h = tenant"
proof -
  obtain ps where ps: "page (search_limit q) (ps_offset q) (newest pt_created_at (filter (search_matches env tenant q) (pw_rows w))) = Some ps"
      "hs = map (\<lambda>h. if ph_sensitive h then h\<lparr>ph_value := ''***MASKED***''\<rparr> else h) (map hit_of ps)"
    using assms by (auto simp: search_properties_def search_rows_def Let_def split: if_splits)
  have "pt_tenant p = tenant" if "p \<in> set ps" for p
    using set_page [OF ps(1)] that by (auto simp: search_matches_def)
  then show ?thesis by (auto simp: ps(2) hit_of_def)
qed



section \<open>The audit log\<close>

text \<open>What the log tells of a property: artifact, key and the value as far as it may be shown.\<close>

fun replay :: "property_log list \<Rightarrow> uuid \<Rightarrow> (string \<times> string \<times> string) option" where
  "replay [] = (\<lambda>_. None)"
| "replay (g # gs) =
     (case pg_new g of
        None \<Rightarrow> (replay gs)(pg_property g := None)
      | Some v \<Rightarrow> (replay gs)(pg_property g \<mapsto> (pg_artifact g, pg_key g, v)))"

definition public_view :: "property \<Rightarrow> string \<times> string \<times> string" where
  "public_view p = (pt_artifact p, pt_key p, redacted (pt_sensitive p) (pt_value p))"

definition log_accounts :: "property_world \<Rightarrow> bool" where
  "log_accounts w \<longleftrightarrow> distinct (map pt_id (pw_rows w))
     \<and> (\<forall>i. replay (rev (pw_log w)) i = map_option public_view (List.find (\<lambda>p. pt_id p = i) (pw_rows w)))"

lemma find_id:
  assumes "distinct (map pt_id rows)" and "p \<in> set rows"
  shows "List.find (\<lambda>r. pt_id r = pt_id p) rows = Some p"
  using assms by (induction rows) (auto simp: rev_image_eqI)

lemma replay_deletes:
  "replay (map log_delete (rev ps) @ gs) i = (if i \<in> pt_id ` set ps then None else replay gs i)"
  by (induction ps arbitrary: gs) (auto simp: log_delete_def fun_upd_def)

lemma log_accounts_step:
  assumes "property_step tenant touched w w'" and "log_accounts w"
  shows "log_accounts w'"
  using assms(1)
proof cases
  case (st_key key)
  then show ?thesis using assms(2) by (simp add: log_accounts_def)
next
  case (st_insert p env i p')
  note ins = inserted_world [OF st_insert(2)]
  have "List.find (\<lambda>r. pt_id r = pt_id p') (pw_rows w) = None" using ins(5) by (auto simp: find_None_iff image_iff)
  then show ?thesis
    using assms(2) ins(2-5)
    by (auto simp: log_accounts_def log_insert_def public_view_def find_append split: option.split)
next
  case (st_update p env p')
  obtain r where found: "List.find (\<lambda>r. pt_id r = pt_id p \<and> pt_tenant r = pt_tenant p \<and> pt_version r = pt_version p) (pw_rows w) = Some r"
    and w': "w' = w\<lparr>pw_rows := map (\<lambda>r. if pt_id r = pt_id p \<and> pt_tenant r = pt_tenant p \<and> pt_version r = pt_version p
            then changed_row env p r else r) (pw_rows w), pw_log := pw_log w @ [log_update r (changed_row env p r)]\<rparr>"
    by (rule updated_world [OF st_update(3)])
  let ?change = "\<lambda>r. if pt_id r = pt_id p \<and> pt_tenant r = pt_tenant p \<and> pt_version r = pt_version p then changed_row env p r else r"
  have r: "r \<in> set (pw_rows w)" "pt_id r = pt_id p" "pt_tenant r = pt_tenant p" "pt_version r = pt_version p"
    using found by (auto dest!: find_SomeD)
  have ids: "map pt_id (map ?change rows) = map pt_id rows" for rows by (induction rows) auto
  have find_changed: "List.find (\<lambda>q. pt_id q = i) (map ?change rows) = map_option ?change (List.find (\<lambda>q. pt_id q = i) rows)" for i rows
    by (induction rows) auto
  have d: "distinct (map pt_id (pw_rows w))" using assms(2) by (simp add: log_accounts_def)
  have "?change q = q" if "q \<in> set (pw_rows w)" "pt_id q \<noteq> pt_id p" for q using that by simp
  then have other: "map_option ?change (List.find (\<lambda>q. pt_id q = i) (pw_rows w)) = List.find (\<lambda>q. pt_id q = i) (pw_rows w)"
    if "i \<noteq> pt_id p" for i
    using that by (cases "List.find (\<lambda>q. pt_id q = i) (pw_rows w)") (auto dest!: find_SomeD)
  have own: "List.find (\<lambda>q. pt_id q = pt_id p) (pw_rows w) = Some r" using find_id [OF d r(1)] r(2) by simp
  show ?thesis
    unfolding log_accounts_def
  proof (intro conjI allI)
    have rows: "pw_rows w' = map ?change (pw_rows w)" by (simp add: w')
    show "distinct (map pt_id (pw_rows w'))" unfolding rows ids by (rule d)
  next
    fix i
    show "replay (rev (pw_log w')) i = map_option public_view (List.find (\<lambda>q. pt_id q = i) (pw_rows w'))"
    proof (cases "i = pt_id p")
      case True
      then show ?thesis using own r find_changed by (simp add: w' log_update_def public_view_def)
    next
      case False
      then show ?thesis using assms(2) r(2) other [OF False] find_changed by (simp add: w' log_update_def log_accounts_def)
    qed
  qed
next
  case (st_delete P)
  have d: "distinct (map pt_id (pw_rows w))" using assms(2) by (simp add: log_accounts_def)
  have "List.find (\<lambda>q. pt_id q = i) (filter (\<lambda>p. \<not> P p) rows)
      = (if i \<in> pt_id ` set (filter P rows) then None else List.find (\<lambda>q. pt_id q = i) rows)"
    if "distinct (map pt_id rows)" for i rows
  proof (cases "i \<in> pt_id ` set (filter P rows)")
    case True
    then obtain x where x: "x \<in> set rows" "P x" "pt_id x = i" by auto
    then have "r = x" if "r \<in> set rows" "pt_id r = i" for r
      using \<open>distinct (map pt_id rows)\<close> that by (auto simp: distinct_map dest: inj_onD)
    then show ?thesis using True x(2) by (auto simp: find_None_iff)
  next
    case False
    then have "\<forall>r \<in> set rows. pt_id r = i \<longrightarrow> \<not> P r" by auto
    then show ?thesis using False by (induction rows) auto
  qed
  then show ?thesis
    using assms(2) d replay_deletes [of "filter P (pw_rows w)" "rev (pw_log w)"]
    by (auto simp: st_delete delete_rows_def log_accounts_def rev_map distinct_map_filter)
qed

lemma log_accounts_respond: "log_accounts w \<Longrightarrow> log_accounts (snd (property_respond env ctx call w))"
proof -
  assume a: "log_accounts w"
  have "log_accounts w2" if "property_steps tenant touched w w2" for tenant touched w2
    using that by (induction rule: rtranclp_induct) (auto intro: a log_accounts_step)
  then show ?thesis
    using respond_steps [where ctx = ctx and call = call and env = env and w = w] a by (auto split: option.splits)
qed

text \<open>
  C30: The audit log accounts for the whole table. After any requests and batches, starting from the empty
  table, replaying the entries of the log gives exactly the properties the table holds, each with its
  artifact, its key and its present value - with the value hidden where the property is sensitive - and
  no two properties share an identifier.
\<close>

theorem audit_log_accounts_for_table:
  "let w = property_run calls \<lparr>pw_rows = [], pw_log = [], pw_keys = keys'\<rparr>
   in distinct (map pt_id (pw_rows w))
    \<and> (\<forall>i. replay (rev (pw_log w)) i = map_option public_view (List.find (\<lambda>p. pt_id p = i) (pw_rows w)))"
proof -
  have "log_accounts (property_run calls w)" if "log_accounts w" for w
    using that by (induction calls w rule: property_run.induct) (auto intro: log_accounts_respond)
  then show ?thesis by (simp add: log_accounts_def [symmetric] Let_def) (simp add: log_accounts_def)
qed

section \<open>Requests that overlap\<close>

text \<open>
  Two updates of one property that overlap do not both succeed. When both have read the row before
  either writes, the one that writes second is refused and changes nothing but the keys in memory,
  whatever the requests ask for.
\<close>

theorem overlapping_updates_conflict:
  assumes "read_for_update env1 tenant i q1 user1 w = Inr p1" and "read_for_update env2 tenant i q2 user2 w = Inr p2"
    and "write_update env1 tenant q1 p1 w = (Inr r1, w1)"
  shows "\<exists>e w2. write_update env2 tenant q2 p2 w1 = (Inl e, w2) \<and> pw_rows w2 = pw_rows w1 \<and> pw_log w2 = pw_log w1"
proof -
  obtain row where row: "property_row tenant i w = Some row"
    using assms(1) by (auto simp: read_for_update_def property_by_id_def split: if_splits option.splits)
  have p: "pt_id p1 = i" "pt_tenant p1 = tenant" "pt_id p2 = i" "pt_tenant p2 = tenant"
    using assms(1,2) by (auto dest: read_for_update_fields)
  have v: "pt_version p1 = pt_version row" "pt_version p2 = pt_version row"
    using assms(1,2) row by (auto simp: read_for_update_def property_by_id_def dest!: merged_fields split: if_splits)
  have same_rows: "pw_rows (set_keys ks w) = pw_rows w" for ks by simp
  obtain s ks where up: "update_row env1 s (set_keys ks w) = (Inr r1, w1)"
      and s: "pt_id s = i" "pt_tenant s = tenant" "pt_version s = pt_version row"
  proof (cases "pt_sensitive p1 \<and> pu_value q1 \<noteq> None")
    case True
    then show ?thesis using assms(3) that p v
      by (auto simp: write_update_def dest!: sealed_fields split: prod.splits sum.splits)
  next
    case False
    then have "update_row env1 p1 (set_keys (pw_keys w) w) = (Inr r1, w1)"
      using assms(3) by (auto simp: write_update_def split: bool.splits option.splits)
    then show ?thesis using that p v by blast
  qed
  have none: "\<not> (pt_id r = i \<and> pt_tenant r = tenant \<and> pt_version r = pt_version row)" if "r \<in> set (pw_rows w1)" for r
  proof -
    have "pt_version (changed_row env1 s r') = pt_version r' + 1" for r' by (simp add: changed_row_def)
    moreover obtain r0 where "w1 = (set_keys ks w)\<lparr>pw_rows := map (\<lambda>r. if pt_id r = pt_id s \<and> pt_tenant r = pt_tenant s \<and> pt_version r = pt_version s
              then changed_row env1 s r else r) (pw_rows (set_keys ks w)),
            pw_log := pw_log (set_keys ks w) @ [log_update r0 (changed_row env1 s r0)]\<rparr>"
      by (rule updated_world [OF up])
    ultimately show ?thesis using that s by (auto split: if_splits)
  qed
  then have refused: "update_row env2 t (set_keys ks' w1) = (Inl VersionConflict, set_keys ks' w1)"
    if "pt_id t = i" "pt_tenant t = tenant" "pt_version t = pt_version row" for t ks'
    using that by (auto simp: update_row_def Let_def find_None_iff split: option.split dest!: find_SomeD)
  show ?thesis
  proof (cases "pt_sensitive p2 \<and> pu_value q2 \<noteq> None")
    case True
    then obtain x where x: "pu_value q2 = Some x" by auto
    obtain r ks2 where r: "seal_property env2 0 tenant x p2 (pw_keys w1) = (r, ks2)" by fastforce
    then show ?thesis
    proof (cases r)
      case (Inr t)
      then have "update_row env2 t (set_keys ks2 w1) = (Inl VersionConflict, set_keys ks2 w1)"
        using r sealed_fields p v by (intro refused) auto
      then show ?thesis using True x r Inr by (simp add: write_update_def)
    qed (use True x r in \<open>simp add: write_update_def\<close>)
  next
    case False
    then have "write_update env2 tenant q2 p2 w1 = update_row env2 p2 (set_keys (pw_keys w1) w1)"
      by (auto simp: write_update_def split: option.split bool.split)
    then show ?thesis using refused [OF p(3,4) v(2), of "pw_keys w1"] by simp
  qed
qed

definition example_update :: "string \<Rightarrow> update_property_request" where
  "example_update v = \<lparr>pu_value = Some v, pu_value_type = None, pu_sensitive = None, pu_tags = None, pu_description = None\<rparr>"

theorem overlapping_updates_conflict_witness:
  "\<exists>w p1 p2 r1 w1 e w2. read_for_update property_example ''t'' ''p0'' (example_update ''x'') ''u'' w = Inr p1
    \<and> read_for_update property_example ''t'' ''p0'' (example_update ''y'') ''v'' w = Inr p2
    \<and> write_update property_example ''t'' (example_update ''x'') p1 w = (Inr r1, w1)
    \<and> write_update property_example ''t'' (example_update ''y'') p2 w1 = (Inl e, w2)"
proof -
  let ?w = "snd (create_property_handler property_example (as_user ''t'') ''a'' (Some example_property) no_properties)"
  let ?r = "\<lambda>v u. read_for_update property_example ''t'' ''p0'' (example_update v) u ?w"
  have "is_ok (?r ''x'' ''u'')" "is_ok (?r ''y'' ''v'')" by code_simp+
  then obtain p1 p2 where p: "?r ''x'' ''u'' = Inr p1" "?r ''y'' ''v'' = Inr p2" by (auto simp: is_ok_iff)
  have "case ?r ''x'' ''u'' of Inl _ \<Rightarrow> False | Inr p \<Rightarrow> is_ok (fst (write_update property_example ''t'' (example_update ''x'') p ?w))"
    by code_simp
  then have "is_ok (fst (write_update property_example ''t'' (example_update ''x'') p1 ?w))" using p(1) by simp
  then obtain r1 where r1: "fst (write_update property_example ''t'' (example_update ''x'') p1 ?w) = Inr r1" by (auto simp: is_ok_iff)
  then obtain w1 where w1: "write_update property_example ''t'' (example_update ''x'') p1 ?w = (Inr r1, w1)" by (metis prod.collapse)
  show ?thesis using overlapping_updates_conflict [OF p w1] p w1 by blast
qed

text \<open>
  Creations have no such guard: the table has no unique key, so two creations of one property that
  overlap both succeed.
\<close>

lemma overlapping_creations_duplicate:
  assumes "check_creation env1 tenant artifact q w = None" and "check_creation env2 tenant artifact q w = None"
    and "perform_creation env1 tenant repo artifact q u1 w = (Inr p1, w1)"
    and "perform_creation env2 tenant repo artifact q u2 w1 = (Inr p2, w2)" and "\<not> pc_sensitive q"
  shows "p1 \<in> set (pw_rows w2) \<and> p2 \<in> set (pw_rows w2) \<and> pt_id p1 \<noteq> pt_id p2 \<and> pt_key p1 = pt_key p2 \<and> pt_artifact p1 = pt_artifact p2"
proof -
  have one: "insert_property env1 0 (new_property tenant repo artifact u1 q) w = (Inr p1, w1)"
    and two: "insert_property env2 0 (new_property tenant repo artifact u2 q) w1 = (Inr p2, w2)"
    using assms(3-5) by (simp_all add: perform_creation_def Let_def)
  note a = inserted_world [OF one] and b = inserted_world [OF two]
  have "pt_id p1 \<noteq> pt_id p2" using a(2) b(5) by auto
  then show ?thesis using a(1,2) b(1,2) by (simp add: stamped_def new_property_def)
qed

end
