(* ===== verification/AuditTrail.thy ===== *)
theory AuditTrail
  imports Complex_Main Queries Access
begin

text \<open>
  The audit log of the tenants (internal/service/audit_log_service.go), the sessions of the users
  (internal/service/user_session_service.go), the middleware that records requests
  (internal/middleware/audit_middleware.go) and the request handlers
  (internal/handlers/audit_log_handler.go), over the tables of internal/database/migrations.go.
\<close>

section \<open>Addresses of callers\<close>

text \<open>\<^verbatim>\<open>net.ParseIP\<close>: whether a text is an address; zones are refused.\<close>

definition ipv4_field :: "string \<Rightarrow> bool" where
  "ipv4_field f \<longleftrightarrow> f \<noteq> [] \<and> (1 < length f \<longrightarrow> hd f \<noteq> CHR ''0'') \<and> (case read_digits 0 f of None \<Rightarrow> False | Some n \<Rightarrow> n \<le> 255)"

definition is_ipv4 :: "string \<Rightarrow> bool" where
  "is_ipv4 s \<longleftrightarrow> (let fs = split_on CHR ''.'' s in length fs = 4 \<and> list_all ipv4_field fs)"

definition hex_group :: "string \<Rightarrow> bool" where
  "hex_group f \<longleftrightarrow> f \<noteq> [] \<and> length f \<le> 4
     \<and> list_all (\<lambda>c. char_between CHR ''0'' CHR ''9'' c \<or> char_between CHR ''a'' CHR ''f'' c \<or> char_between CHR ''A'' CHR ''F'' c) f"

text \<open>The number of groups; the last two may be written as an IPv4 address.\<close>

fun hex_groups :: "string list \<Rightarrow> nat option" where
  "hex_groups [] = Some 0"
| "hex_groups [f] = (if hex_group f then Some 1 else if is_ipv4 f then Some 2 else None)"
| "hex_groups (f # fs) = (if hex_group f then map_option Suc (hex_groups fs) else None)"

fun split_double_colon :: "string \<Rightarrow> (string \<times> string) option" where
  "split_double_colon (c # d # s) =
     (if c = CHR '':'' \<and> d = CHR '':'' then Some ([], s)
      else map_option (\<lambda>(l, r). (c # l, r)) (split_double_colon (d # s)))"
| "split_double_colon _ = None"

definition is_ipv6 :: "string \<Rightarrow> bool" where
  "is_ipv6 s \<longleftrightarrow>
     (case split_double_colon s of
        None \<Rightarrow> hex_groups (split_on CHR '':'' s) = Some 8
      | Some (l, r) \<Rightarrow>
          let ls = (if l = [] then [] else split_on CHR '':'' l)
          in list_all hex_group ls
             \<and> (case if r = [] then Some 0 else hex_groups (split_on CHR '':'' r) of None \<Rightarrow> False | Some n \<Rightarrow> length ls + n \<le> 7))"

definition parse_ip :: "string \<Rightarrow> bool" where
  "parse_ip s \<longleftrightarrow>
     (case find (\<lambda>c. c = CHR ''.'' \<or> c = CHR '':'' \<or> c = CHR ''%'') s of
        None \<Rightarrow> False
      | Some c \<Rightarrow> if c = CHR ''.'' then is_ipv4 s else if c = CHR '':'' then CHR ''%'' \<notin> set s \<and> is_ipv6 s else False)"

definition split_host_port :: "string \<Rightarrow> (string \<times> string) option" where
  "split_host_port s =
     (if CHR '':'' \<notin> set s then None
      else case s of
        [] \<Rightarrow> None
      | c # t \<Rightarrow>
          if c = CHR ''['' then
            (case dropWhile (\<lambda>x. x \<noteq> CHR '']'') t of
               _ # p # port \<Rightarrow>
                 if p = CHR '':'' \<and> CHR '':'' \<notin> set port \<and> CHR ''['' \<notin> set t \<and> CHR '']'' \<notin> set port
                 then Some (takeWhile (\<lambda>x. x \<noteq> CHR '']'') t, port) else None
             | _ \<Rightarrow> None)
          else
            let port = rev (takeWhile (\<lambda>x. x \<noteq> CHR '':'') (rev s));
                host = take (length s - length port - 1) s
            in if CHR '':'' \<in> set host \<or> CHR ''['' \<in> set s \<or> CHR '']'' \<in> set s then None else Some (host, port))"

text \<open>The whole forwarding header is taken for one address.\<close>

definition extract_ip_from_request :: "string \<Rightarrow> string \<Rightarrow> string \<Rightarrow> string" where
  "extract_ip_from_request remote forwarded real_ip =
     (if forwarded \<noteq> [] \<and> parse_ip forwarded then forwarded
      else if real_ip \<noteq> [] \<and> parse_ip real_ip then real_ip
      else case split_host_port remote of None \<Rightarrow> remote | Some (host, _) \<Rightarrow> host)"

section \<open>Data\<close>

datatype meta = MetaText string | MetaBool bool | MetaInt int

record audit_entry =
  al_id :: uuid
  al_tenant :: uuid
  al_event :: string
  al_resource :: string
  al_resource_type :: string
  al_user :: "uuid option"
  al_action :: string
  al_old :: string
  al_new :: string
  al_ip :: string
  al_agent :: string
  al_success :: bool
  al_error :: string
  al_meta :: "(string \<times> meta) list"
  al_time :: time

text \<open>What a caller asks to record: identifiers are texts still.\<close>

record audit_event =
  av_tenant :: string
  av_event :: string
  av_resource :: string
  av_resource_type :: string
  av_user :: "string option"
  av_action :: string
  av_old :: string
  av_new :: string
  av_ip :: string
  av_agent :: string
  av_session :: string
  av_success :: bool
  av_error :: string
  av_meta :: "(string \<times> meta) list"
  av_time :: "time option"

record login_session =
  ls_id :: uuid
  ls_user :: uuid
  ls_ip :: string
  ls_agent :: string
  ls_created :: time
  ls_activity :: time
  ls_expires :: time
  ls_active :: bool

record audit_world =
  aw_log :: "audit_entry list"
  aw_sessions :: "login_session list"

text \<open>
  The environment of a request: clock, generated identifiers, which statements reach the database, its
  syntax of identifiers and addresses, and the rows of the tenants and users tables (a user's name).
\<close>

record audit_env =
  ad_now :: time
  ad_log_id :: uuid
  ad_session_id :: uuid
  ad_log_ok :: bool
  ad_query_ok :: bool
  ad_session_ok :: bool
  ad_uuid :: "string \<Rightarrow> uuid option"
  ad_inet :: "string \<Rightarrow> bool"
  ad_tenant :: "uuid \<Rightarrow> bool"
  ad_user :: "uuid \<Rightarrow> string option"

datatype audit_error = LogInsertFailed | LogQueryFailed | SessionQueryFailed | SessionInsertFailed | LogNotFound

section \<open>Writing the log\<close>

text \<open>The user column takes no empty and no anonymous user; it refers to a row of the users table.\<close>

definition logged_user :: "audit_event \<Rightarrow> string option" where
  "logged_user v = (case av_user v of None \<Rightarrow> None | Some u \<Rightarrow> if u = [] \<or> u = ''anonymous'' then None else Some u)"

definition user_column :: "audit_env \<Rightarrow> string option \<Rightarrow> uuid option option" where
  "user_column env u =
     (case u of
        None \<Rightarrow> Some None
      | Some s \<Rightarrow> (case ad_uuid env s of None \<Rightarrow> None | Some i \<Rightarrow> if ad_user env i = None then None else Some (Some i)))"

definition tenant_column :: "audit_env \<Rightarrow> string \<Rightarrow> uuid option" where
  "tenant_column env s = (case ad_uuid env s of None \<Rightarrow> None | Some t \<Rightarrow> if ad_tenant env t then Some t else None)"

definition event_allowed :: "audit_env \<Rightarrow> audit_event \<Rightarrow> bool" where
  "event_allowed env v \<longleftrightarrow>
     ad_log_ok env \<and> ad_inet env (av_ip v) \<and> text_length (av_event v) \<le> 100 \<and> text_length (av_resource_type v) \<le> 100
     \<and> text_length (av_action v) \<le> 100"

definition entry_of :: "audit_env \<Rightarrow> uuid \<Rightarrow> uuid option \<Rightarrow> audit_event \<Rightarrow> audit_entry" where
  "entry_of env tenant user v =
     \<lparr>al_id = ad_log_id env, al_tenant = tenant, al_event = av_event v, al_resource = av_resource v,
      al_resource_type = av_resource_type v, al_user = user, al_action = av_action v, al_old = av_old v, al_new = av_new v,
      al_ip = av_ip v, al_agent = av_agent v, al_success = av_success v, al_error = av_error v, al_meta = av_meta v,
      al_time = (case av_time v of None \<Rightarrow> ad_now env | Some t \<Rightarrow> t)\<rparr>"

text \<open>Without a tenant nothing is recorded and no error reported (\<open>Inr None\<close>).\<close>

definition log_event :: "audit_env \<Rightarrow> audit_event \<Rightarrow> audit_world \<Rightarrow> (audit_error + audit_entry option) \<times> audit_world" where
  "log_event env v w =
     (if av_tenant v = [] then (Inr None, w)
      else case tenant_column env (av_tenant v) of
        None \<Rightarrow> (Inl LogInsertFailed, w)
      | Some tenant \<Rightarrow>
          (case user_column env (logged_user v) of
             None \<Rightarrow> (Inl LogInsertFailed, w)
           | Some user \<Rightarrow>
               let e = entry_of env tenant user v
               in if \<not> event_allowed env v \<or> al_id e \<in> al_id ` set (aw_log w) then (Inl LogInsertFailed, w)
                  else (Inr (Some e), w\<lparr>aw_log := aw_log w @ [e]\<rparr>)))"

definition given_user :: "string \<Rightarrow> string option" where
  "given_user u = (if u = [] then None else Some u)"

definition log_download ::
  "audit_env \<Rightarrow> string \<Rightarrow> uuid \<Rightarrow> string \<Rightarrow> string \<Rightarrow> string \<Rightarrow> string \<Rightarrow> audit_world \<Rightarrow> (audit_error + audit_entry option) \<times> audit_world" where
  "log_download env tenant artifact user ip agent session w =
     log_event env
       \<lparr>av_tenant = tenant, av_event = ''artifact_access'', av_resource = artifact, av_resource_type = ''artifact'',
        av_user = given_user user, av_action = ''download'', av_old = [], av_new = [], av_ip = ip, av_agent = agent,
        av_session = session, av_success = True, av_error = [],
        av_meta = [(''download_timestamp'', MetaInt (ad_now env div second)), (''client_type'', MetaText ''api'')],
        av_time = None\<rparr> w"

definition log_user_session ::
  "audit_env \<Rightarrow> string \<Rightarrow> string \<Rightarrow> string \<Rightarrow> string \<Rightarrow> string \<Rightarrow> string \<Rightarrow> (string \<times> meta) list \<Rightarrow> audit_world
     \<Rightarrow> (audit_error + audit_entry option) \<times> audit_world" where
  "log_user_session env tenant user action ip agent session metadata w =
     log_event env
       \<lparr>av_tenant = tenant, av_event = ''user_session'', av_resource = ''session'', av_resource_type = ''system'',
        av_user = given_user user, av_action = action, av_old = [], av_new = [], av_ip = ip, av_agent = agent,
        av_session = session,
        av_success = (case map_of metadata ''login_successful'' of Some (MetaBool b) \<Rightarrow> b | _ \<Rightarrow> True), av_error = [],
        av_meta = metadata, av_time = None\<rparr> w"

definition log_page_view ::
  "audit_env \<Rightarrow> string \<Rightarrow> string \<Rightarrow> string \<Rightarrow> string \<Rightarrow> string \<Rightarrow> string \<Rightarrow> audit_world \<Rightarrow> (audit_error + audit_entry option) \<times> audit_world" where
  "log_page_view env tenant user viewed ip agent session w =
     log_event env
       \<lparr>av_tenant = tenant, av_event = ''page_view'', av_resource = viewed, av_resource_type = ''system'',
        av_user = given_user user, av_action = ''view'', av_old = [], av_new = [], av_ip = ip, av_agent = agent,
        av_session = session, av_success = True, av_error = [],
        av_meta = [(''page'', MetaText viewed), (''timestamp'', MetaInt (ad_now env div second))], av_time = None\<rparr> w"

definition log_api_access ::
  "audit_env \<Rightarrow> string \<Rightarrow> string \<Rightarrow> string \<Rightarrow> string \<Rightarrow> string \<Rightarrow> string \<Rightarrow> string \<Rightarrow> int \<Rightarrow> audit_world
     \<Rightarrow> (audit_error + audit_entry option) \<times> audit_world" where
  "log_api_access env user tenant called http_method ip agent session status w =
     log_event env
       \<lparr>av_tenant = tenant, av_event = ''api_access'', av_resource = called, av_resource_type = ''api'',
        av_user = given_user user, av_action = http_method, av_old = [], av_new = [], av_ip = ip, av_agent = agent,
        av_session = session, av_success = (200 \<le> status \<and> status < 400), av_error = [],
        av_meta = [(''endpoint'', MetaText called), (''method'', MetaText http_method), (''status_code'', MetaInt status),
                   (''timestamp'', MetaInt (ad_now env div second))], av_time = None\<rparr> w"

section \<open>Reading the log\<close>

record audit_filters =
  af_tenant :: string
  af_event :: string
  af_resource_type :: string
  af_user :: string
  af_action :: string
  af_start :: "time option"
  af_end :: "time option"
  af_success :: "bool option"
  af_limit :: int
  af_offset :: int

definition text_filter :: "string \<Rightarrow> string \<Rightarrow> bool" where
  "text_filter wanted x \<longleftrightarrow> wanted = [] \<or> x = wanted"

definition audit_matches :: "audit_env \<Rightarrow> audit_filters \<Rightarrow> audit_entry \<Rightarrow> bool" where
  "audit_matches env f e \<longleftrightarrow>
     (af_tenant f = [] \<or> ad_uuid env (af_tenant f) = Some (al_tenant e))
     \<and> text_filter (af_event f) (al_event e) \<and> text_filter (af_resource_type f) (al_resource_type e)
     \<and> text_filter (af_action f) (al_action e) \<and> given (af_start f) (\<lambda>t. t \<le> al_time e) \<and> given (af_end f) (\<lambda>t. al_time e \<le> t)
     \<and> given (af_success f) (\<lambda>b. al_success e = b)"

definition audit_limit :: "audit_filters \<Rightarrow> int" where
  "audit_limit f = (if af_limit f \<le> 0 then 50 else min 1000 (af_limit f))"

definition audit_username :: "audit_env \<Rightarrow> audit_entry \<Rightarrow> string" where
  "audit_username env e = (case Option.bind (al_user e) (ad_user env) of None \<Rightarrow> ''unknown'' | Some n \<Rightarrow> n)"

text \<open>
  The entries with the names of their users, and the number of all that match. A filter on the user makes
  the second statement ambiguous, since the users table it joins has that column too: it fails.
\<close>

definition get_audit_logs ::
  "audit_env \<Rightarrow> audit_filters \<Rightarrow> audit_world \<Rightarrow> audit_error + (audit_entry \<times> string) list \<times> nat" where
  "get_audit_logs env f w =
     (if \<not> ad_query_ok env \<or> (af_tenant f \<noteq> [] \<and> ad_uuid env (af_tenant f) = None) \<or> af_user f \<noteq> [] then Inl LogQueryFailed
      else let found = filter (audit_matches env f) (aw_log w)
           in case page (audit_limit f) (af_offset f) (newest al_time found) of
                None \<Rightarrow> Inl LogQueryFailed
              | Some es \<Rightarrow> Inr (map (\<lambda>e. (e, audit_username env e)) es, length found))"

definition get_audit_log_by_id :: "audit_env \<Rightarrow> uuid \<Rightarrow> audit_world \<Rightarrow> audit_error + audit_entry" where
  "get_audit_log_by_id env i w =
     (if \<not> ad_query_ok env then Inl LogQueryFailed
      else case find (\<lambda>e. al_id e = i) (aw_log w) of None \<Rightarrow> Inl LogNotFound | Some e \<Rightarrow> Inr e)"

text \<open>Days are counted from the epoch.\<close>

definition day_of :: "time \<Rightarrow> int" where "day_of t = t div (24 * hour)"

definition active_users_today :: "audit_env \<Rightarrow> audit_world \<Rightarrow> nat" where
  "active_users_today env w =
     length (remdups (List.map_filter al_user (filter (\<lambda>e. day_of (al_time e) = day_of (ad_now env)) (aw_log w))))"

definition downloads_today :: "audit_env \<Rightarrow> audit_world \<Rightarrow> nat" where
  "downloads_today env w =
     length (filter (\<lambda>e. al_action e = ''download'' \<and> day_of (al_time e) = day_of (ad_now env)) (aw_log w))"

record user_activity =
  ua_days :: int
  ua_actions :: nat
  ua_active_days :: nat
  ua_downloads :: nat
  ua_logins :: nat
  ua_page_views :: nat

definition get_user_activity :: "audit_env \<Rightarrow> string \<Rightarrow> int \<Rightarrow> audit_world \<Rightarrow> audit_error + user_activity" where
  "get_user_activity env user days w =
     (let days = (if days \<le> 0 then 7 else days)
      in case ad_uuid env user of
           None \<Rightarrow> Inl LogQueryFailed
         | Some u \<Rightarrow>
             if \<not> ad_query_ok env then Inl LogQueryFailed
             else let es = filter (\<lambda>e. al_user e = Some u \<and> day_of (ad_now env) - days \<le> day_of (al_time e)) (aw_log w)
                  in Inr \<lparr>ua_days = days, ua_actions = length es, ua_active_days = length (remdups (map (day_of \<circ> al_time) es)),
                       ua_downloads = length (filter (\<lambda>e. al_action e = ''download'') es),
                       ua_logins = length (filter (\<lambda>e. al_action e = ''login'') es),
                       ua_page_views = length (filter (\<lambda>e. al_event e = ''page_view'') es)\<rparr>)"

record audit_stats =
  as_total :: nat
  as_successful :: nat
  as_failed :: nat
  as_rate :: rat
  as_events :: "(string \<times> nat) list"
  as_resources :: "(string \<times> nat) list"
  as_actions :: "(string \<times> nat) list"
  as_top_users :: "(uuid \<times> nat \<times> time) list"
  as_timeline :: "(int \<times> nat \<times> nat \<times> nat) list"

definition tally :: "(audit_entry \<Rightarrow> 'k) \<Rightarrow> audit_entry list \<Rightarrow> ('k \<times> nat) list" where
  "tally key es = map (\<lambda>k. (k, length (filter (\<lambda>e. key e = k) es))) (remdups (map key es))"

definition top_users :: "audit_entry list \<Rightarrow> (uuid \<times> nat \<times> time) list" where
  "top_users es =
     List.map_filter (\<lambda>(u, n). map_option (\<lambda>i. (i, n, Max (al_time ` set (filter (\<lambda>e. al_user e = u) es)))) u)
       (take 10 (order_by True snd (tally al_user es)))"

definition timeline :: "audit_entry list \<Rightarrow> (int \<times> nat \<times> nat \<times> nat) list" where
  "timeline es =
     map (\<lambda>d. let here = filter (\<lambda>e. day_of (al_time e) = d) es
              in (d, length here, length (filter al_success here), length (filter (\<lambda>e. \<not> al_success e) here)))
       (sort (remdups (map (day_of \<circ> al_time) es)))"

text \<open>The tallies are over the tenant's entries; the most active users and the timeline over everybody's.\<close>

definition get_audit_stats :: "audit_env \<Rightarrow> time \<Rightarrow> time \<Rightarrow> string \<Rightarrow> audit_world \<Rightarrow> audit_error + audit_stats" where
  "get_audit_stats env start stop tenant w =
     (if \<not> ad_query_ok env \<or> (tenant \<noteq> [] \<and> ad_uuid env tenant = None) then Inl LogQueryFailed
      else let everybody = filter (\<lambda>e. start \<le> al_time e \<and> al_time e \<le> stop) (aw_log w);
               es = filter (\<lambda>e. tenant = [] \<or> ad_uuid env tenant = Some (al_tenant e)) everybody;
               good = length (filter al_success es)
           in Inr \<lparr>as_total = length es, as_successful = good, as_failed = length (filter (\<lambda>e. \<not> al_success e) es),
                as_rate = (if es = [] then 0 else of_nat good / of_nat (length es) * 100),
                as_events = tally al_event es, as_resources = tally al_resource_type es, as_actions = tally al_action es,
                as_top_users = top_users everybody, as_timeline = timeline everybody\<rparr>)"

section \<open>The requests for the log\<close>

record audit_query =
  aq_page :: string
  aq_limit :: string
  aq_event :: string
  aq_user :: string
  aq_action :: string
  aq_resource_type :: string
  aq_start :: "time option"
  aq_end :: "time option"

datatype audit_answer =
    AuditUnauthorized | AuditBadContext | AuditFailed
  | AuditLogs "(audit_entry \<times> string) list" nat int int
  | AuditStatistics audit_stats

definition page_number :: "string \<Rightarrow> int" where
  "page_number q = (let n = (if q = [] then 1 else atoi_value q) in if n < 1 then 1 else n)"

definition log_page_limit :: "string \<Rightarrow> int" where
  "log_page_limit q = (let n = (if q = [] then 50 else atoi_value q) in if n < 1 \<or> 500 < n then 50 else n)"

definition filters_of :: "uuid \<Rightarrow> audit_query \<Rightarrow> audit_filters" where
  "filters_of tenant q =
     \<lparr>af_tenant = tenant, af_event = aq_event q, af_resource_type = aq_resource_type q, af_user = aq_user q,
      af_action = aq_action q, af_start = aq_start q, af_end = aq_end q, af_success = None,
      af_limit = log_page_limit (aq_limit q), af_offset = wrap64 ((page_number (aq_page q) - 1) * log_page_limit (aq_limit q))\<rparr>"

definition audit_logs_handler :: "audit_env \<Rightarrow> gin_context \<Rightarrow> audit_query \<Rightarrow> audit_world \<Rightarrow> audit_answer" where
  "audit_logs_handler env ctx q w =
     with_tenant ctx AuditUnauthorized AuditBadContext
       (\<lambda>tenant. case get_audit_logs env (filters_of tenant q) w of
           Inl _ \<Rightarrow> AuditFailed
         | Inr (es, n) \<Rightarrow> AuditLogs es n (page_number (aq_page q)) (log_page_limit (aq_limit q)))"

definition audit_stats_handler :: "audit_env \<Rightarrow> gin_context \<Rightarrow> string \<Rightarrow> audit_world \<Rightarrow> audit_answer" where
  "audit_stats_handler env ctx days w =
     with_tenant ctx AuditUnauthorized AuditBadContext
       (\<lambda>tenant. let n = (if days = [] then 7 else atoi_value days);
                     n = (if n < 1 \<or> 90 < n then 7 else n)
                 in case get_audit_stats env (ad_now env - n * 24 * hour) (ad_now env) tenant w of
                      Inl _ \<Rightarrow> AuditFailed
                    | Inr s \<Rightarrow> AuditStatistics s)"

section \<open>Sessions\<close>

text \<open>The look-up of a user's tenant names a column that the users table has not got; it leaves the tenant empty.\<close>

definition tenant_of_session_user :: "string \<Rightarrow> string" where
  "tenant_of_session_user user = []"

definition create_session ::
  "audit_env \<Rightarrow> string \<Rightarrow> string \<Rightarrow> string \<Rightarrow> string \<Rightarrow> audit_world \<Rightarrow> (audit_error + login_session) \<times> audit_world" where
  "create_session env tenant user ip agent w =
     (case ad_uuid env user of
        None \<Rightarrow> (Inl SessionInsertFailed, w)
      | Some u \<Rightarrow>
          let s = \<lparr>ls_id = ad_session_id env, ls_user = u, ls_ip = ip, ls_agent = agent, ls_created = ad_now env,
                   ls_activity = ad_now env, ls_expires = ad_now env + 24 * hour, ls_active = True\<rparr>
          in if \<not> ad_session_ok env \<or> ad_user env u = None \<or> 45 < text_length ip \<or> ls_id s \<in> ls_id ` set (aw_sessions w)
             then (Inl SessionInsertFailed, w)
             else (Inr s,
                   snd (log_user_session env tenant user ''login'' ip agent (ls_id s)
                     [(''session_created'', MetaBool True), (''login_time'', MetaInt (ad_now env div second))]
                     (w\<lparr>aw_sessions := aw_sessions w @ [s]\<rparr>))))"

text \<open>\<open>Inr None\<close>: there is no such session, or it has ended.\<close>

definition get_login_session :: "audit_env \<Rightarrow> string \<Rightarrow> audit_world \<Rightarrow> audit_error + login_session option" where
  "get_login_session env sid w =
     (case ad_uuid env sid of
        None \<Rightarrow> Inl SessionQueryFailed
      | Some i \<Rightarrow>
          if \<not> ad_query_ok env then Inl SessionQueryFailed
          else Inr (case find (\<lambda>s. ls_id s = i) (aw_sessions w) of
                 None \<Rightarrow> None
               | Some s \<Rightarrow> if ls_expires s < ad_now env \<or> \<not> ls_active s then None else Some s))"

definition update_activity ::
  "audit_env \<Rightarrow> string \<Rightarrow> string \<Rightarrow> string \<Rightarrow> string \<Rightarrow> audit_world \<Rightarrow> (audit_error + unit) \<times> audit_world" where
  "update_activity env sid user ip agent w =
     (case ad_uuid env sid of
        None \<Rightarrow> (Inl SessionQueryFailed, w)
      | Some i \<Rightarrow>
          let hit = (\<lambda>s. ls_id s = i \<and> ls_active s \<and> ad_now env < ls_expires s)
          in if \<not> ad_session_ok env then (Inl SessionQueryFailed, w)
             else if list_ex hit (aw_sessions w)
                  then (Inr (), w\<lparr>aw_sessions := map (\<lambda>s. if hit s then s\<lparr>ls_activity := ad_now env\<rparr> else s) (aw_sessions w)\<rparr>)
             else (case create_session env (tenant_of_session_user user) user ip agent w of
                     (Inl e, w) \<Rightarrow> (Inl e, w)
                   | (Inr _, w) \<Rightarrow> (Inr (), w)))"

text \<open>Whoever names a session ends it. Its end is recorded under the empty tenant: not at all.\<close>

definition end_session ::
  "audit_env \<Rightarrow> string \<Rightarrow> string \<Rightarrow> string \<Rightarrow> string \<Rightarrow> audit_world \<Rightarrow> (audit_error + unit) \<times> audit_world" where
  "end_session env sid user ip agent w =
     (case ad_uuid env sid of
        None \<Rightarrow> (Inl SessionQueryFailed, w)
      | Some i \<Rightarrow>
          if \<not> ad_session_ok env then (Inl SessionQueryFailed, w)
          else (Inr (),
                snd (log_user_session env (tenant_of_session_user user) user ''logout'' ip agent sid
                  [(''session_ended'', MetaBool True), (''logout_time'', MetaInt (ad_now env div second))]
                  (w\<lparr>aw_sessions := map (\<lambda>s. if ls_id s = i then s\<lparr>ls_active := False, ls_activity := ad_now env\<rparr> else s)
                      (aw_sessions w)\<rparr>))))"

definition get_active_sessions :: "audit_env \<Rightarrow> string \<Rightarrow> audit_world \<Rightarrow> audit_error + login_session list" where
  "get_active_sessions env user w =
     (case ad_uuid env user of
        None \<Rightarrow> Inl SessionQueryFailed
      | Some u \<Rightarrow>
          if \<not> ad_query_ok env then Inl SessionQueryFailed
          else Inr (newest ls_activity (filter (\<lambda>s. ls_user s = u \<and> ls_active s \<and> ad_now env < ls_expires s) (aw_sessions w))))"

record session_stats =
  st_active :: nat
  st_total :: nat
  st_users :: nat
  st_minutes :: rat
  st_today :: nat
  st_users_today :: nat

text \<open>Lengths of sessions in minutes; today begins at midnight.\<close>

definition get_session_stats :: "audit_env \<Rightarrow> audit_world \<Rightarrow> audit_error + session_stats" where
  "get_session_stats env w =
     (let ss = aw_sessions w;
          today = filter (\<lambda>s. 24 * hour * day_of (ad_now env) \<le> ls_created s) ss
      in if \<not> ad_query_ok env then Inl SessionQueryFailed
         else Inr \<lparr>st_active = length (filter (\<lambda>s. ls_active s \<and> ad_now env < ls_expires s) ss), st_total = length ss,
                st_users = length (remdups (map ls_user ss)),
                st_minutes = (if ss = [] then 0
                  else of_int (sum_list (map (\<lambda>s. ls_activity s - ls_created s) ss)) / of_int second / of_nat (length ss) / 60),
                st_today = length today, st_users_today = length (remdups (map ls_user today))\<rparr>)"

definition cleanup_expired_sessions :: "audit_env \<Rightarrow> audit_world \<Rightarrow> (audit_error + nat) \<times> audit_world" where
  "cleanup_expired_sessions env w =
     (let hit = (\<lambda>s. ls_expires s \<le> ad_now env \<and> ls_active s)
      in if \<not> ad_session_ok env then (Inl SessionQueryFailed, w)
         else (Inr (length (filter hit (aw_sessions w))),
               w\<lparr>aw_sessions := map (\<lambda>s. if hit s then s\<lparr>ls_active := False\<rparr> else s) (aw_sessions w)\<rparr>))"

text \<open>A session that is there is handed out whoever its user is, as it was before its activity is noted.\<close>

definition get_or_create_session ::
  "audit_env \<Rightarrow> string \<Rightarrow> string \<Rightarrow> string \<Rightarrow> string \<Rightarrow> audit_world \<Rightarrow> (audit_error + login_session) \<times> audit_world" where
  "get_or_create_session env sid user ip agent w =
     (case if sid = [] then Inr None else get_login_session env sid w of
        Inr (Some s) \<Rightarrow> (Inr s, snd (update_activity env sid user ip agent w))
      | _ \<Rightarrow> create_session env (tenant_of_session_user user) user ip agent w)"

section \<open>The middleware\<close>

record audited_request =
  ar_auth :: "http_auth option"
  ar_path :: string
  ar_query :: string
  ar_method :: string
  ar_remote :: string
  ar_cookie :: "string option"
  ar_header :: "string \<Rightarrow> string"

record audit_context =
  ax_user :: string
  ax_tenant :: string
  ax_session :: string
  ax_ip :: string
  ax_agent :: string

definition excluded_paths :: "string list" where
  "excluded_paths = [''/health'', ''/metrics'', ''/static'', ''/favicon.ico'']"

text \<open>Who is not authenticated is believed to be the user that the header names.\<close>

definition extract_audit_context :: "audited_request \<Rightarrow> audit_context" where
  "extract_audit_context r =
     (let (user, tenant) = (case ar_auth r of None \<Rightarrow> (''anonymous'', []) | Some a \<Rightarrow> (ha_user_id a, ha_tenant_id a));
          user = (if user = ''anonymous'' \<and> ar_header r ''X-User-ID'' \<noteq> [] then ar_header r ''X-User-ID'' else user);
          tenant = (if tenant = [] \<and> ar_header r ''X-Tenant-ID'' \<noteq> [] then ar_header r ''X-Tenant-ID'' else tenant);
          session = ar_header r ''X-Session-ID'';
          session = (if session = [] then (case ar_cookie r of None \<Rightarrow> [] | Some c \<Rightarrow> c) else session)
      in \<lparr>ax_user = user, ax_tenant = tenant, ax_session = session,
          ax_ip = extract_ip_from_request (ar_remote r) (ar_header r ''X-Forwarded-For'') (ar_header r ''X-Real-IP''),
          ax_agent = ar_header r ''User-Agent''\<rparr>)"

definition handle_session_tracking :: "audit_env \<Rightarrow> audit_context \<Rightarrow> audit_world \<Rightarrow> audit_context \<times> audit_world" where
  "handle_session_tracking env x w =
     (if ax_user x = ''anonymous'' then (x, w)
      else case get_or_create_session env (ax_session x) (ax_user x) (ax_ip x) (ax_agent x) w of
        (Inl _, w) \<Rightarrow> (x, w)
      | (Inr s, w) \<Rightarrow> (x\<lparr>ax_session := ls_id s\<rparr>, w))"

definition log_request :: "audit_env \<Rightarrow> audit_context \<Rightarrow> audited_request \<Rightarrow> int \<Rightarrow> audit_world \<Rightarrow> audit_world" where
  "log_request env x r status w =
     snd (log_api_access env (ax_user x) (ax_tenant x) (ar_path r @ (if ar_query r = [] then [] else ''?'' @ ar_query r))
       (ar_method r) (ax_ip x) (ax_agent x) (ax_session x) status w)"

definition log_viewed_page :: "audit_env \<Rightarrow> audit_context \<Rightarrow> audited_request \<Rightarrow> audit_world \<Rightarrow> audit_world" where
  "log_viewed_page env x r w =
     snd (log_page_view env (ax_tenant x) (ax_user x) (if ar_path r = ''/'' then ''dashboard'' else ar_path r)
       (ax_ip x) (ax_agent x) (ax_session x) w)"

text \<open>
  \<open>next\<close> is the handler behind; it sees the world with the session in it and answers with a status. The
  two entries are written by goroutines of their own, each with identifiers and a time of its own.
\<close>

definition audit_middleware ::
  "audit_env \<Rightarrow> audit_env \<Rightarrow> audit_env \<Rightarrow> (audit_world \<Rightarrow> int \<times> audit_world) \<Rightarrow> audited_request \<Rightarrow> audit_world \<Rightarrow> int \<times> audit_world" where
  "audit_middleware env env1 env2 nxt r w =
     (if list_ex (has_prefix (ar_path r)) excluded_paths then nxt w
      else let (x, w) = (if ax_user (extract_audit_context r) \<noteq> [] then handle_session_tracking env (extract_audit_context r) w
                         else (extract_audit_context r, w));
               (status, w) = nxt w;
               known = (ax_user x \<noteq> [] \<and> ax_tenant x \<noteq> []);
               w = (if known then log_request env1 x r status w else w);
               w = (if known \<and> \<not> has_prefix (ar_path r) ''/api/'' then log_viewed_page env2 x r w else w)
           in (status, w))"

text \<open>The first path element after one called \<open>artifacts\<close> that is an identifier.\<close>

fun artifact_in_path :: "(string \<Rightarrow> uuid option) \<Rightarrow> string list \<Rightarrow> uuid" where
  "artifact_in_path parse (p # q # ps) =
     (case if p = ''artifacts'' then parse q else None of Some i \<Rightarrow> i | None \<Rightarrow> artifact_in_path parse (q # ps))"
| "artifact_in_path parse _ = uuid_nil"

definition download_tracking ::
  "audit_env \<Rightarrow> (string \<Rightarrow> uuid option) \<Rightarrow> (audit_world \<Rightarrow> int \<times> audit_world) \<Rightarrow> audit_context \<Rightarrow> string \<Rightarrow> audit_world \<Rightarrow> int \<times> audit_world" where
  "download_tracking env parse nxt x path w =
     (if \<not> str_contains path ''/download'' then nxt w
      else let artifact = artifact_in_path parse (split_on CHR ''/'' path);
               (status, w) = nxt w
           in (status,
               if artifact \<noteq> uuid_nil \<and> ax_user x \<noteq> ''anonymous''
               then snd (log_download env (ax_tenant x) artifact (ax_user x) (ax_ip x) (ax_agent x) (ax_session x) w) else w))"

section \<open>What the operations do to the log and the sessions\<close>

datatype audit_op =
    RecordEvent audit_event
  | OpenSession string string string string
  | TouchSession string string string string
  | EndSession string string string string
  | VisitSession string string string string
  | CleanSessions

fun audit_apply :: "audit_env \<times> audit_op \<Rightarrow> audit_world \<Rightarrow> audit_world" where
  "audit_apply (env, RecordEvent v) w = snd (log_event env v w)"
| "audit_apply (env, OpenSession tenant user ip agent) w = snd (create_session env tenant user ip agent w)"
| "audit_apply (env, TouchSession sid user ip agent) w = snd (update_activity env sid user ip agent w)"
| "audit_apply (env, EndSession sid user ip agent) w = snd (end_session env sid user ip agent w)"
| "audit_apply (env, VisitSession sid user ip agent) w = snd (get_or_create_session env sid user ip agent w)"
| "audit_apply (env, CleanSessions) w = snd (cleanup_expired_sessions env w)"

definition audit_run :: "(audit_env \<times> audit_op) list \<Rightarrow> audit_world \<Rightarrow> audit_world" where
  "audit_run ops w = fold audit_apply ops w"

text \<open>Recording changes the log only, by at most one entry with an identifier of its own.\<close>

lemma log_event_sessions [simp]: "aw_sessions (snd (log_event env v w)) = aw_sessions w"
  by (auto simp: log_event_def Let_def split: option.split)

lemma log_user_session_sessions [simp]:
  "aw_sessions (snd (log_user_session env tenant user action ip agent sid md w)) = aw_sessions w"
  by (simp add: log_user_session_def)

definition log_grows :: "audit_world \<Rightarrow> audit_world \<Rightarrow> bool" where
  "log_grows w w' \<longleftrightarrow> (\<exists>es. aw_log w' = aw_log w @ es \<and> distinct (map al_id es) \<and> al_id ` set es \<inter> al_id ` set (aw_log w) = {})"

lemma log_grows_refl [simp]: "aw_log w' = aw_log w \<Longrightarrow> log_grows w w'"
  by (simp add: log_grows_def)

lemma log_grows_trans [trans]:
  assumes "log_grows w w'" and "log_grows w' w''"
  shows "log_grows w w''"
proof -
  obtain es where es: "aw_log w' = aw_log w @ es" "distinct (map al_id es)" "al_id ` set es \<inter> al_id ` set (aw_log w) = {}"
    using assms(1) by (auto simp: log_grows_def)
  obtain fs where fs: "aw_log w'' = aw_log w' @ fs" "distinct (map al_id fs)" "al_id ` set fs \<inter> al_id ` set (aw_log w') = {}"
    using assms(2) by (auto simp: log_grows_def)
  show ?thesis unfolding log_grows_def by (rule exI [of _ "es @ fs"]) (use es fs in auto)
qed

lemma log_event_recorded:
  assumes "av_tenant v \<noteq> []" and "tenant_column env (av_tenant v) = Some t" and "user_column env (logged_user v) = Some u"
    and "event_allowed env v" and "ad_log_id env \<notin> al_id ` set (aw_log w)"
  shows "log_event env v w = (Inr (Some (entry_of env t u v)), w\<lparr>aw_log := aw_log w @ [entry_of env t u v]\<rparr>)"
  using assms by (simp add: log_event_def entry_of_def Let_def)

lemma log_event_grows: "log_grows w (snd (log_event env v w))"
proof -
  have "aw_log (snd (log_event env v w)) = aw_log w
      \<or> (\<exists>e. aw_log (snd (log_event env v w)) = aw_log w @ [e] \<and> al_id e \<notin> al_id ` set (aw_log w))"
    by (auto simp: log_event_def Let_def split: option.split)
  then show ?thesis by (fastforce simp: log_grows_def)
qed

lemma log_user_session_grows:
  "aw_log w' = aw_log w \<Longrightarrow> log_grows w (snd (log_user_session env tenant user action ip agent sid md w'))"
  using log_event_grows log_grows_trans log_grows_refl unfolding log_user_session_def by blast

lemma create_session_grows: "log_grows w (snd (create_session env tenant user ip agent w))"
  by (auto simp: create_session_def Let_def log_user_session_grows split: option.split)

lemma update_activity_grows: "log_grows w (snd (update_activity env sid user ip agent w))"
  using create_session_grows [of w env "tenant_of_session_user user" user ip agent]
  by (auto simp: update_activity_def Let_def split: option.split prod.split sum.split)

lemma audit_apply_grows: "log_grows w (audit_apply op w)"
proof (cases op)
  case (Pair env a)
  then show ?thesis
    using create_session_grows update_activity_grows log_event_grows
    by (cases a) (auto simp: end_session_def get_or_create_session_def cleanup_expired_sessions_def Let_def log_user_session_grows
        split: option.split sum.split)
qed


section \<open>Sessions that are over\<close>

text \<open>From the time \<open>t\<close> on, the session \<open>i\<close> is of no use any more.\<close>

definition session_over :: "uuid \<Rightarrow> time \<Rightarrow> audit_world \<Rightarrow> bool" where
  "session_over i t w \<longleftrightarrow>
     i \<in> ls_id ` set (aw_sessions w) \<and> (\<forall>s \<in> set (aw_sessions w). ls_id s = i \<longrightarrow> \<not> ls_active s \<or> ls_expires s < t)"

lemma session_over_log [simp]:
  "session_over i t (snd (log_event env v w)) = session_over i t w"
  "session_over i t (snd (log_user_session env tenant user action ip agent sid md w)) = session_over i t w"
  by (simp_all add: session_over_def)

lemma session_over_map:
  assumes "session_over i t w"
    and "\<And>s. ls_id (f s) = ls_id s \<and> ls_expires (f s) = ls_expires s \<and> (ls_active (f s) \<longrightarrow> ls_active s)"
  shows "session_over i t (w\<lparr>aw_sessions := map f (aw_sessions w)\<rparr>)"
proof -
  have "ls_id ` (f ` set (aw_sessions w)) = ls_id ` set (aw_sessions w)" using assms(2) by (auto simp: image_iff)
  then show ?thesis using assms by (auto simp: session_over_def)
qed

lemma create_session_over: "session_over i t w \<Longrightarrow> session_over i t (snd (create_session env tenant user ip agent w))"
  by (auto simp: session_over_def create_session_def Let_def split: option.split)

lemma update_activity_over: "session_over i t w \<Longrightarrow> session_over i t (snd (update_activity env sid user ip agent w))"
  using create_session_over [of i t w env "tenant_of_session_user user" user ip agent]
  by (auto simp: update_activity_def Let_def split: option.split prod.split sum.split if_split_asm intro!: session_over_map)

lemma audit_apply_over: "session_over i t w \<Longrightarrow> session_over i t (audit_apply op w)"
proof (cases op)
  case (Pair env a)
  assume over: "session_over i t w"
  show ?thesis
    by (cases a)
      (use over Pair create_session_over update_activity_over in
        \<open>auto simp: get_or_create_session_def end_session_def cleanup_expired_sessions_def Let_def
          split: option.split sum.split if_split_asm intro!: session_over_map\<close>)
qed

lemma audit_run_over: "session_over i t w \<Longrightarrow> session_over i t (audit_run ops w)"
  by (induction ops arbitrary: w) (simp_all add: audit_run_def audit_apply_over)

lemma over_not_got:
  assumes "session_over i t w" and "t \<le> ad_now env" and "get_login_session env sid w = Inr (Some s)"
  shows "ls_id s \<noteq> i"
  using assms by (force simp: session_over_def get_login_session_def split: option.splits if_splits dest!: find_SomeD)

lemma created_session_new:
  "create_session env tenant user ip agent w = (Inr s, w') \<Longrightarrow> ls_id s \<notin> ls_id ` set (aw_sessions w)"
  by (auto simp: create_session_def Let_def split: option.splits if_splits)

lemma over_not_visited:
  assumes over: "session_over i t w" and t: "t \<le> ad_now env"
    and v: "get_or_create_session env sid user ip agent w = (Inr s, w')"
  shows "ls_id s \<noteq> i"
proof (cases "sid \<noteq> [] \<and> (\<exists>s. get_login_session env sid w = Inr (Some s))")
  case True
  then obtain s' where "sid \<noteq> []" "get_login_session env sid w = Inr (Some s')" by blast
  then show ?thesis using v over_not_got [OF over t, of sid s'] by (simp add: get_or_create_session_def)
next
  case False
  then have "create_session env (tenant_of_session_user user) user ip agent w = (Inr s, w')"
    using v by (auto simp: get_or_create_session_def split: if_splits sum.splits option.splits)
  then show ?thesis using over created_session_new by (fastforce simp: session_over_def)
qed

lemma over_not_listed:
  assumes "session_over i t w" and "t \<le> ad_now env" and "get_active_sessions env user w = Inr ss"
  shows "i \<notin> ls_id ` set ss"
  using assms by (auto simp: session_over_def get_active_sessions_def split: option.splits if_splits)

lemma ended_is_over:
  assumes "get_login_session env sid w = Inr (Some s)" and "ad_uuid env' sid' = Some (ls_id s)"
    and "end_session env' sid' user ip agent w = (Inr (), w')"
  shows "session_over (ls_id s) t w'"
proof -
  have "s \<in> set (aw_sessions w)"
    using assms(1) by (auto simp: get_login_session_def split: option.splits if_splits dest: find_SomeD)
  then have ids: "ls_id s \<in> ls_id ` f ` set (aw_sessions w)" if "\<And>x. ls_id (f x) = ls_id x" for f
    using that by (force simp: image_image)
  show ?thesis using assms(2,3)
    by (auto simp: end_session_def session_over_def simp del: if_image_distrib split: if_splits intro!: ids)
qed

text \<open>C32: A session that was ended stays ended: whatever requests follow, at whatever times, it is not found again, not
  listed among the active ones of any user and not handed out to anyone who presents its identifier.\<close>

theorem ended_session_stays_ended:
  assumes "get_login_session env sid w = Inr (Some s)" and "ad_uuid env1 sid1 = Some (ls_id s)"
    and "end_session env1 sid1 user ip agent w = (Inr (), w1)"
    and "w2 = audit_run ops w1"
  shows "(\<forall>s2. get_login_session env2 sid2 w2 = Inr (Some s2) \<longrightarrow> ls_id s2 \<noteq> ls_id s)
    \<and> (\<forall>user2 ss. get_active_sessions env2 user2 w2 = Inr ss \<longrightarrow> ls_id s \<notin> ls_id ` set ss)
    \<and> (\<forall>user2 ip2 agent2 s3 w3. get_or_create_session env2 sid2 user2 ip2 agent2 w2 = (Inr s3, w3) \<longrightarrow> ls_id s3 \<noteq> ls_id s)"
proof -
  have "session_over (ls_id s) (ad_now env2) w2"
    unfolding assms(4) by (rule audit_run_over [OF ended_is_over [OF assms(1-3)]])
  then show ?thesis
    using over_not_got [where t = "ad_now env2" and env = env2] over_not_listed [where t = "ad_now env2" and env = env2]
      over_not_visited [where t = "ad_now env2" and env = env2]
    by fast
qed

text \<open>A session whose time is over is not extended by being used.\<close>

lemma expired_session_stays_expired:
  assumes "get_login_session env sid w = Inr (Some s)" and "distinct (map ls_id (aw_sessions w))"
    and "ls_expires s < ad_now env2"
  shows "get_login_session env2 sid2 (audit_run ops w) = Inr (Some s2) \<Longrightarrow> ls_id s2 \<noteq> ls_id s"
proof -
  have "s \<in> set (aw_sessions w)"
    using assms(1) by (auto simp: get_login_session_def split: option.splits if_splits dest: find_SomeD)
  then have "session_over (ls_id s) (ad_now env2) w"
    using assms(2,3) by (auto simp: session_over_def dest: map_of_eq_Some_iff [THEN iffD2] inj_onD [OF distinct_map [THEN iffD1, THEN conjunct2]])
  then show "get_login_session env2 sid2 (audit_run ops w) = Inr (Some s2) \<Longrightarrow> ls_id s2 \<noteq> ls_id s"
    using over_not_got [OF audit_run_over order_refl] by blast
qed

section \<open>An example\<close>

definition example_audit_env :: "time \<Rightarrow> uuid \<Rightarrow> audit_env" where
  "example_audit_env now i = \<lparr>ad_now = now, ad_log_id = i, ad_session_id = i, ad_log_ok = True, ad_query_ok = True,
     ad_session_ok = True, ad_uuid = Some, ad_inet = parse_ip, ad_tenant = (\<lambda>t. t = ''t''),
     ad_user = (\<lambda>u. if u = ''u'' then Some ''ann'' else None)\<rparr>"

definition example_log :: audit_world where
  "example_log = audit_run
     [(example_audit_env 5 ''a'', OpenSession ''t'' ''u'' ''10.0.0.1'' []),
      (example_audit_env 7 ''b'', OpenSession ''t'' ''u'' ''::1'' [])] \<lparr>aw_log = [], aw_sessions = []\<rparr>"

definition example_audit_query :: audit_query where
  "example_audit_query = \<lparr>aq_page = [], aq_limit = ''1'', aq_event = ''user_session'', aq_user = [], aq_action = [],
     aq_resource_type = [], aq_start = None, aq_end = None\<rparr>"

definition example_session :: login_session where
  "example_session = hd (aw_sessions example_log)"

lemma example_log_entries: "map al_time (aw_log example_log) = [5, 7]"
  by code_simp

lemma ended_session_stays_ended_witness:
  "ls_id example_session = ''a'' \<and> get_login_session (example_audit_env 10 []) ''a'' example_log = Inr (Some example_session)
    \<and> (\<nexists>s2. get_login_session (example_audit_env 20 ''d'') ''a''
           (audit_run [(example_audit_env 15 ''e'', TouchSession ''a'' ''u'' ''10.0.0.1'' []),
             (example_audit_env 16 ''f'', VisitSession ''a'' ''u'' ''10.0.0.1'' [])]
             (snd (end_session (example_audit_env 12 ''c'') ''a'' ''u'' ''10.0.0.1'' [] example_log))) = Inr (Some s2)
         \<and> ls_id s2 = ''a'')"
proof -
  have a: "ls_id example_session = ''a''" by code_simp
  have got: "get_login_session (example_audit_env 10 []) ''a'' example_log = Inr (Some example_session)" by code_simp
  have "fst (end_session (example_audit_env 12 ''c'') ''a'' ''u'' ''10.0.0.1'' [] example_log) = Inr ()" by code_simp
  then obtain w1 where w1: "end_session (example_audit_env 12 ''c'') ''a'' ''u'' ''10.0.0.1'' [] example_log = (Inr (), w1)"
    by (metis prod.collapse)
  have "ad_uuid (example_audit_env 12 ''c'') ''a'' = Some (ls_id example_session)" by (simp add: a example_audit_env_def)
  from ended_session_stays_ended [OF got this w1 refl] show ?thesis by (auto simp: a got w1)
qed

section \<open>Pages of the log\<close>

lemma atoi_value_show: "int n < 2 ^ 63 \<Longrightarrow> atoi_value (show_nat n) = int n"
  by (simp add: atoi_value_def atoi_show_nat)

lemma filters_page: "audit_matches env (filters_of t (q\<lparr>aq_page := x\<rparr>)) = audit_matches env (filters_of t q)"
  by (rule ext) (simp add: audit_matches_def filters_of_def)

lemma log_page:
  assumes env: "ad_query_ok env" "ad_uuid env t = Some t" and q: "aq_user q = []" "aq_limit q = show_nat n" "0 < n" "n \<le> 500"
    and k: "int (Suc k * n) < 2 ^ 63" and ctx: "ctx ''tenant_id'' = Some (CtxId t)"
    and found: "found = newest al_time (filter (audit_matches env (filters_of t q)) (aw_log w))"
  shows "audit_logs_handler env ctx (q\<lparr>aq_page := show_nat (Suc k)\<rparr>) w
    = AuditLogs (map (\<lambda>e. (e, audit_username env e)) (take n (drop (k * n) found))) (length found) (int (Suc k)) (int n)"
proof -
  have "Suc k * 1 \<le> Suc k * n" using q(3) by (intro mult_le_mono2) simp
  then have "int (Suc k) \<le> int (Suc k * n)" by (simp only: of_nat_le_iff nat_mult_1_right)
  then have "int (Suc k) < 2 ^ 63" using k by (rule order.strict_trans1)
  moreover have "int n < 2 ^ 63" using q(4) by simp
  ultimately have small: "int (Suc k) < 2 ^ 63" "int n < 2 ^ 63" by blast+
  have pn: "page_number (show_nat (Suc k)) = int (Suc k)"
    using small(1) by (simp add: page_number_def atoi_value_show del: of_nat_Suc)
  have lim: "log_page_limit (show_nat n) = int n" using q(3,4) small(2) by (simp add: log_page_limit_def atoi_value_show)
  have "int (k * n) \<le> int (Suc k * n)" by (simp only: of_nat_le_iff) simp
  then have "int (k * n) < 2 ^ 63" using k by (rule order.strict_trans1)
  then have "wrap64 (int k * int n) = int (k * n)" 
    by (simp add: wrap64_id order.trans [of _ 0])
  then have "af_offset (filters_of t (q\<lparr>aq_page := show_nat (Suc k)\<rparr>)) = int (k * n)"
    and "audit_limit (filters_of t (q\<lparr>aq_page := show_nat (Suc k)\<rparr>)) = int n"
    using q pn lim by (simp_all add: filters_of_def audit_limit_def)
  moreover have "af_user (filters_of t (q\<lparr>aq_page := show_nat (Suc k)\<rparr>)) = []" using q by (simp add: filters_of_def)
  moreover have "af_tenant (filters_of t (q\<lparr>aq_page := show_nat (Suc k)\<rparr>)) = t" by (simp add: filters_of_def)
  ultimately show ?thesis
    using env ctx pn lim q(2)
    by (simp add: audit_logs_handler_def with_tenant_def get_audit_logs_def filters_page page_def found newest_def Let_def
        del: of_nat_mult of_nat_Suc)
qed

text \<open>Reading the audit log page by page, with any filter on the kind of event, its resource, its action or its time, gives
  the entries of the request's tenant and of no other that match, each once and newest first, and every page states
  how many there are.\<close>

theorem audit_pages_cover_the_tenant:
  assumes "ad_query_ok env" and "ad_uuid env t = Some t" and "t \<noteq> []" and "ctx ''tenant_id'' = Some (CtxId t)"
    and "aq_user q = []" and "aq_limit q = show_nat n" and "0 < n" and "n \<le> 500" and "int (m * n) < 2 ^ 63"
    and "found = newest al_time (filter (audit_matches env (filters_of t q)) (aw_log w))"
  shows "\<exists>pages. length pages = m
    \<and> (\<forall>k<m. audit_logs_handler env ctx (q\<lparr>aq_page := show_nat (Suc k)\<rparr>) w = AuditLogs (pages ! k) (length found) (int (Suc k)) (int n))
    \<and> map fst (concat pages) = take (m * n) found
    \<and> set found = {e \<in> set (aw_log w). al_tenant e = t \<and> audit_matches env (filters_of t q) e}"
proof -
  define pages where "pages = map (\<lambda>k. map (\<lambda>e. (e, audit_username env e)) (take n (drop (k * n) found))) [0..<m]"
  have small: "int (Suc k * n) < 2 ^ 63" if "k < m" for k
  proof -
    have "int (Suc k * n) \<le> int (m * n)" using that by (simp only: of_nat_le_iff) (simp add: mult_le_mono1 Suc_leI del: mult_Suc)
    then show ?thesis using assms(9) by (rule order.strict_trans1)
  qed
  have "\<forall>k<m. audit_logs_handler env ctx (q\<lparr>aq_page := show_nat (Suc k)\<rparr>) w = AuditLogs (pages ! k) (length found) (int (Suc k)) (int n)"
  proof (intro allI impI)
    fix k
    assume k: "k < m"
    show "audit_logs_handler env ctx (q\<lparr>aq_page := show_nat (Suc k)\<rparr>) w = AuditLogs (pages ! k) (length found) (int (Suc k)) (int n)"
      using log_page [where ctx = ctx and w = w and k = k and found = found, OF assms(1,2,5-8) small [OF k] assms(4,10)] k by (simp add: pages_def)
  qed
  moreover have "map fst (concat pages) = take (m * n) found"
    by (simp add: pages_def map_concat comp_def concat_pages)
  moreover have "af_tenant (filters_of t q) = t" by (simp add: filters_of_def)
  then have "audit_matches env (filters_of t q) e \<Longrightarrow> al_tenant e = t" for e
    using assms(2,3) by (simp add: audit_matches_def)
  then have "set found = {e \<in> set (aw_log w). al_tenant e = t \<and> audit_matches env (filters_of t q) e}"
    by (auto simp: assms(10))
  ultimately show ?thesis by (intro exI [of _ pages]) (simp add: pages_def)
qed

lemma audit_pages_cover_the_tenant_witness:
  "\<exists>pages. length pages = 2
    \<and> (\<forall>k<2. audit_logs_handler (example_audit_env 9 ''c'') [''tenant_id'' \<mapsto> CtxId ''t''] (example_audit_query\<lparr>aq_page := show_nat (Suc k)\<rparr>)
         example_log = AuditLogs (pages ! k) 2 (int (Suc k)) 1)"
proof -
  define found where "found = newest al_time (filter (audit_matches (example_audit_env 9 ''c'') (filters_of ''t'' example_audit_query)) (aw_log example_log))"
  have two: "length found = 2" unfolding found_def by code_simp
  have "\<exists>pages. length pages = 2
    \<and> (\<forall>k<2. audit_logs_handler (example_audit_env 9 ''c'') [''tenant_id'' \<mapsto> CtxId ''t''] (example_audit_query\<lparr>aq_page := show_nat (Suc k)\<rparr>)
         example_log = AuditLogs (pages ! k) (length found) (int (Suc k)) (int 1))
    \<and> map fst (concat pages) = take (2 * 1) found
    \<and> set found = {e \<in> set (aw_log example_log). al_tenant e = ''t''
        \<and> audit_matches (example_audit_env 9 ''c'') (filters_of ''t'' example_audit_query) e}"
    by (rule audit_pages_cover_the_tenant) (simp_all add: example_audit_env_def example_audit_query_def found_def, code_simp)
  then show ?thesis unfolding two by auto
qed

section \<open>What the log does not hold, and what it gives away\<close>

text \<open>The end of a session is never recorded.\<close>

lemma logout_not_recorded: "aw_log (snd (end_session env sid user ip agent w)) = aw_log w"
  by (auto simp: end_session_def log_user_session_def log_event_def tenant_of_session_user_def split: option.split)

text \<open>Filtering the log by a user always fails.\<close>

lemma filter_by_user_fails: "af_user f \<noteq> [] \<Longrightarrow> get_audit_logs env f w = Inl LogQueryFailed"
  by (simp add: get_audit_logs_def)

text \<open>A session is handed to whoever names it.\<close>

lemma anyone_takes_session:
  "sid \<noteq> [] \<Longrightarrow> get_login_session env sid w = Inr (Some s) \<Longrightarrow> fst (get_or_create_session env sid user ip agent w) = Inr s"
  by (simp add: get_or_create_session_def)

text \<open>A forwarding header that names a chain of proxies is not taken for an address.\<close>

lemma split_on_chars: "c \<in> set s \<Longrightarrow> c = sep \<or> (\<exists>f \<in> set (split_on sep s). c \<in> set f)"
  by (induction s) (auto split: list.splits)

lemma ipv4_no_comma: "is_ipv4 s \<Longrightarrow> CHR '','' \<notin> set s"
proof
  assume s: "is_ipv4 s" "CHR '','' \<in> set s"
  then obtain f where f: "f \<in> set (split_on CHR ''.'' s)" "CHR '','' \<in> set f"
    using split_on_chars [OF s(2), of "CHR ''.''"] by auto
  have none: "CHR '','' \<in> set f \<Longrightarrow> read_digits acc f = None" for acc f
    by (induction f arbitrary: acc) (auto simp: digit_value_def split: option.split)
  show False using s f none [OF f(2), of 0] by (auto simp: is_ipv4_def Let_def list_all_iff ipv4_field_def)
qed

lemma hex_group_no_comma: "hex_group f \<Longrightarrow> CHR '','' \<notin> set f"
  by (auto simp: hex_group_def list_all_iff char_between_def)

lemma hex_groups_no_comma: "hex_groups fs = Some n \<Longrightarrow> f \<in> set fs \<Longrightarrow> CHR '','' \<notin> set f"
  by (induction fs arbitrary: n f rule: hex_groups.induct)
    (auto split: if_splits dest: hex_group_no_comma ipv4_no_comma)

lemma split_double_colon_eq: "split_double_colon s = Some (l, r) \<Longrightarrow> s = l @ ''::'' @ r"
  by (induction s arbitrary: l r rule: split_double_colon.induct) (auto split: if_splits)

lemma no_comma_parts: "(\<forall>f \<in> set (split_on CHR '':'' s). CHR '','' \<notin> set f) \<Longrightarrow> CHR '','' \<notin> set s"
  using split_on_chars [of "CHR '',''" s "CHR '':''"] by auto

lemma groups_no_comma: "hex_groups (split_on CHR '':'' s) = Some n \<Longrightarrow> CHR '','' \<notin> set s"
  by (intro no_comma_parts) (blast dest: hex_groups_no_comma)

lemma ipv6_no_comma:
  assumes s: "is_ipv6 s"
  shows "CHR '','' \<notin> set s"
proof (cases "split_double_colon s")
  case None
  with s show ?thesis using groups_no_comma [of s 8] by (simp add: is_ipv6_def)
next
  case (Some p)
  obtain l r where p: "p = (l, r)" by fastforce
  have "l = [] \<or> list_all hex_group (split_on CHR '':'' l)" and "r = [] \<or> (\<exists>n. hex_groups (split_on CHR '':'' r) = Some n)"
    using s p Some by (auto simp: is_ipv6_def Let_def split: option.splits if_splits)
  then have "CHR '','' \<notin> set l" and "CHR '','' \<notin> set r"
    using hex_group_no_comma no_comma_parts groups_no_comma by (auto simp: list_all_iff)
  then show ?thesis using split_double_colon_eq [OF Some [unfolded p]] by auto
qed

lemma forwarded_chain_ignored:
  assumes "CHR '','' \<in> set forwarded"
  shows "extract_ip_from_request remote forwarded real_ip = extract_ip_from_request remote [] real_ip"
  using assms ipv4_no_comma ipv6_no_comma
  by (auto simp: extract_ip_from_request_def parse_ip_def split: option.splits if_splits)

text \<open>A request without authentication is recorded under whatever user and tenant its headers name.\<close>

lemma forged_header_is_recorded:
  assumes "ar_auth r = None" and "ar_header r ''X-User-ID'' = u" and "ar_header r ''X-Tenant-ID'' = t" and "u \<noteq> []"
    and "u \<noteq> ''anonymous''" and "t \<noteq> []" and "ad_uuid env t = Some t" and "ad_tenant env t" and "ad_uuid env u = Some u"
    and "ad_user env u \<noteq> None" and "ad_log_ok env" and "ad_inet env (ax_ip x)" and "text_length (ar_method r) \<le> 100"
    and "ad_log_id env \<notin> al_id ` set (aw_log w)" and "x = extract_audit_context r"
  shows "\<exists>e. aw_log (log_request env x r status w) = aw_log w @ [e] \<and> al_user e = Some u \<and> al_tenant e = t"
proof -
  have x: "ax_user x = u" "ax_tenant x = t" using assms(1-6) by (simp_all add: assms(15) extract_audit_context_def Let_def)
  have "tenant_column env t = Some t" "user_column env (Some u) = Some (Some u)"
    using assms(7-10) by (auto simp: tenant_column_def user_column_def)
  moreover have "text_length ''api_access'' \<le> 100" "text_length ''api'' \<le> 100" by (simp_all add: text_length_def)
  ultimately show ?thesis using assms(4-6,11-14)
    by (simp add: log_request_def log_api_access_def log_event_recorded [where t = t and u = "Some u"] x given_user_def
        logged_user_def event_allowed_def entry_of_def)
qed

text \<open>The timeline of a tenant's statistics counts the entries of every tenant.\<close>

lemma sum_list_partition:
  "distinct ks \<Longrightarrow> set (map f xs) \<subseteq> set ks \<Longrightarrow> sum_list (map (\<lambda>k. length (filter (\<lambda>x. f x = k) xs)) ks) = length xs"
proof (induction xs)
  case (Cons x xs)
  have "sum_list (map (\<lambda>k. length (filter (\<lambda>x. f x = k) (x # xs))) ks)
      = sum_list (map (\<lambda>k. length (filter (\<lambda>x. f x = k) xs) + (if f x = k then 1 else 0)) ks)"
    by (intro arg_cong [of _ _ sum_list] map_cong) auto
  also have "\<dots> = length xs + sum_list (map (\<lambda>k. if f x = k then 1 else 0) ks)"
    using Cons by (simp add: sum_list_addf)
  also have "sum_list (map (\<lambda>k. if f x = k then 1 else 0 :: nat) ks) = 1"
    using Cons.prems by (subst sum_list_distinct_conv_sum_set) auto
  finally show ?case by simp
qed simp

lemma timeline_total: "sum_list (map (\<lambda>(_, n, _, _). n) (timeline es)) = length es"
  using sum_list_partition [of "sort (remdups (map (day_of \<circ> al_time) es))" "day_of \<circ> al_time" es]
  by (simp add: timeline_def comp_def Let_def)

lemma timeline_counts_everybody:
  assumes "get_audit_stats env start stop tenant w = Inr st"
  shows "sum_list (map (\<lambda>(_, n, _, _). n) (as_timeline st))
    = length (filter (\<lambda>e. start \<le> al_time e \<and> al_time e \<le> stop) (aw_log w))"
proof -
  have "as_timeline st = timeline (filter (\<lambda>e. start \<le> al_time e \<and> al_time e \<le> stop) (aw_log w))"
    using assms by (auto simp: get_audit_stats_def Let_def split: if_splits)
  then show ?thesis by (simp add: timeline_total)
qed

end
