(* ===== verification/Users.thy ===== *)
theory Users
  imports AuditTrail "HOL-Library.List_Lexorder" "HOL-Library.Char_ord"
begin

text \<open>
  The users of the tenants: their table, roles, permissions and invitations
  (internal/service/user_management_service.go), the rules for passwords
  (internal/service/password_service.go), logging in (internal/handlers/auth_basic_handler.go) and the
  request handlers (internal/handlers/user_management_handler.go), over the tables of
  internal/database/migrations.go.
\<close>

section \<open>Data\<close>

text \<open>Columns that have a default but may be set to NULL are options.\<close>

record account =
  us_id :: uuid
  us_tenant :: uuid
  us_sub :: "string option"
  us_username :: string
  us_email :: string
  us_hash :: "string option"
  us_first :: "string option"
  us_last :: "string option"
  us_display :: "string option"
  us_active :: "bool option"
  us_verified :: "bool option"
  us_last_login :: "time option"
  us_created :: "time option"
  us_updated :: "time option"

record role_row =
  ro_id :: uuid
  ro_tenant :: uuid
  ro_name :: string
  ro_display :: "string option"
  ro_description :: "string option"
  ro_system :: "bool option"
  ro_created :: "time option"
  ro_updated :: "time option"

record permission_row =
  pe_id :: uuid
  pe_tenant :: uuid
  pe_name :: string
  pe_resource :: string
  pe_action :: string
  pe_description :: "string option"
  pe_created :: "time option"

record assignment =
  ga_tenant :: uuid
  ga_user :: uuid
  ga_role :: uuid
  ga_expires :: "time option"

record grant =
  gr_tenant :: uuid
  gr_role :: uuid
  gr_permission :: uuid

record invite_row =
  iv_id :: uuid
  iv_tenant :: uuid
  iv_email :: string
  iv_first :: "string option"
  iv_last :: "string option"
  iv_by :: uuid
  iv_token :: string
  iv_expires :: time
  iv_accepted :: "time option"
  iv_created :: time

record invite_role =
  ir_invite :: uuid
  ir_role :: uuid
  ir_tenant :: uuid

record user_world =
  uw_tenants :: "uuid list"
  uw_users :: "account list"
  uw_roles :: "role_row list"
  uw_permissions :: "permission_row list"
  uw_assignments :: "assignment list"
  uw_grants :: "grant list"
  uw_invites :: "invite_row list"
  uw_invite_roles :: "invite_role list"
  uw_audit :: audit_world

text \<open>
  The environment of a request: clock, identifiers the database generates, which statements reach it, how
  it reads booleans and times, what it makes of an order and of a statement whose column names are not
  names, random bytes, bcrypt, the signed tokens, and the environment of the audit log.
\<close>

record user_env =
  ue_now :: time
  ue_id :: uuid
  ue_query_ok :: bool
  ue_exec_ok :: bool
  ue_tx_ok :: bool
  ue_uuid :: "string \<Rightarrow> uuid option"
  ue_bool :: "string \<Rightarrow> bool option"
  ue_time :: "string \<Rightarrow> time option"
  ue_order :: "string \<Rightarrow> bool \<Rightarrow> account list \<Rightarrow> account list option"
  ue_role_order :: "string \<Rightarrow> bool \<Rightarrow> role_row list \<Rightarrow> role_row list option"
  ue_permission_order :: "string \<Rightarrow> bool \<Rightarrow> permission_row list \<Rightarrow> permission_row list option"
  ue_injected :: "string list \<Rightarrow> user_world \<Rightarrow> user_world option"
  ue_random :: "bytes option"
  ue_bcrypt :: bcrypt
  ue_salt :: bytes
  ue_cost :: "string \<Rightarrow> int option"
  ue_tokens :: auth_env
  ue_audit :: audit_env

datatype user_error =
    UserNotFound | UserQueryFailed | UnreadableRow | DuplicateKey | UserInsertFailed | UserUpdateFailed | UserTokenFailed
  | InviteRolesFailed | TransactionFailed | InvalidInvite | InviteNotMarked | AssignmentFailed | AssignmentNotFound
  | RoleNotFound | RoleQueryFailed | SystemRoleProtected | RoleHasUsers | RoleInsertFailed | RoleUpdateFailed | GrantFailed
  | GrantNotFound | PermissionInsertFailed

text \<open>The audit log sees the users and the tenants of this world.\<close>

definition audit_view :: "user_env \<Rightarrow> user_world \<Rightarrow> audit_env" where
  "audit_view env w =
     (ue_audit env)\<lparr>ad_tenant := (\<lambda>t. t \<in> set (uw_tenants w)),
       ad_user := (\<lambda>u. map_option us_username (find (\<lambda>a. us_id a = u) (uw_users w)))\<rparr>"

section \<open>Passwords\<close>

datatype password_error =
    EmptyPassword | PasswordTooShort | PasswordTooLong | NoUppercase | NoLowercase | NoDigit | NoSpecial
  | InvalidPassword password_error | PasswordHashFailed

definition special_char :: "char \<Rightarrow> bool" where
  "special_char c \<longleftrightarrow> char_between CHR ''!'' CHR ''/'' c \<or> char_between CHR '':'' CHR ''@'' c
     \<or> char_between CHR ''['' CHR 0x60 c \<or> char_between CHR ''{'' CHR ''~'' c"

definition validate_password :: "string \<Rightarrow> password_error option" where
  "validate_password p =
     (if length p < 8 then Some PasswordTooShort
      else if 128 < length p then Some PasswordTooLong
      else if \<not> list_ex (char_between CHR ''A'' CHR ''Z'') p then Some NoUppercase
      else if \<not> list_ex (char_between CHR ''a'' CHR ''z'') p then Some NoLowercase
      else if \<not> list_ex (char_between CHR ''0'' CHR ''9'') p then Some NoDigit
      else if \<not> list_ex special_char p then Some NoSpecial else None)"

definition hash_password :: "user_env \<Rightarrow> string \<Rightarrow> password_error + string" where
  "hash_password env p =
     (if p = [] then Inl EmptyPassword
      else case validate_password p of
        Some e \<Rightarrow> Inl (InvalidPassword e)
      | None \<Rightarrow> (case bc_generate (ue_bcrypt env) (ue_salt env) p of None \<Rightarrow> Inl PasswordHashFailed | Some h \<Rightarrow> Inr h))"

definition verify_password :: "user_env \<Rightarrow> string \<Rightarrow> string \<Rightarrow> bool" where
  "verify_password env p h \<longleftrightarrow> bc_compare (ue_bcrypt env) h p"

text \<open>The buffer it fills first is not used.\<close>

definition generate_temporary_password :: "string" where
  "generate_temporary_password = ''TempPass1!''"

definition needs_rehash :: "user_env \<Rightarrow> string \<Rightarrow> bool" where
  "needs_rehash env h = (case ue_cost env h of None \<Rightarrow> True | Some c \<Rightarrow> c < 10)"

section \<open>The users table\<close>

definition text_fits :: "nat \<Rightarrow> string option \<Rightarrow> bool" where
  "text_fits n s = given s (\<lambda>s. text_length s \<le> n)"

definition account_fits :: "user_world \<Rightarrow> account \<Rightarrow> bool" where
  "account_fits w a \<longleftrightarrow>
     us_tenant a \<in> set (uw_tenants w) \<and> text_length (us_username a) \<le> 255 \<and> text_length (us_email a) \<le> 255
     \<and> text_fits 100 (us_first a) \<and> text_fits 100 (us_last a) \<and> text_fits 255 (us_display a) \<and> text_fits 255 (us_hash a)
     \<and> text_fits 255 (us_sub a)"

text \<open>The unique keys: the identifier, and a tenant's user names and addresses.\<close>

definition same_account_key :: "account \<Rightarrow> account \<Rightarrow> bool" where
  "same_account_key a b \<longleftrightarrow>
     us_id a = us_id b \<or> (us_tenant a = us_tenant b \<and> (us_username a = us_username b \<or> us_email a = us_email b))"

fun all_pairs :: "('a \<Rightarrow> 'a \<Rightarrow> bool) \<Rightarrow> 'a list \<Rightarrow> bool" where
  "all_pairs P [] = True"
| "all_pairs P (x # xs) = (list_all (P x) xs \<and> all_pairs P xs)"

definition insert_account :: "user_env \<Rightarrow> account \<Rightarrow> user_world \<Rightarrow> (user_error + account) \<times> user_world" where
  "insert_account env a w =
     (let a = a\<lparr>us_id := ue_id env, us_created := Some (ue_now env), us_updated := Some (ue_now env)\<rparr>
      in if \<not> ue_exec_ok env \<or> \<not> account_fits w a then (Inl UserInsertFailed, w)
         else if list_ex (same_account_key a) (uw_users w) then (Inl DuplicateKey, w)
         else (Inr a, w\<lparr>uw_users := uw_users w @ [a]\<rparr>))"

text \<open>A row with a NULL where the code reads a value is not readable.\<close>

definition account_readable :: "account \<Rightarrow> bool" where
  "account_readable a \<longleftrightarrow> us_active a \<noteq> None \<and> us_verified a \<noteq> None \<and> us_created a \<noteq> None \<and> us_updated a \<noteq> None"

definition role_readable :: "role_row \<Rightarrow> bool" where
  "role_readable r \<longleftrightarrow> ro_system r \<noteq> None \<and> ro_created r \<noteq> None \<and> ro_updated r \<noteq> None"

definition permission_readable :: "permission_row \<Rightarrow> bool" where
  "permission_readable p \<longleftrightarrow> pe_created p \<noteq> None"

section \<open>Roles and permissions of a user\<close>

text \<open>A join: one row for every assignment; the tenant and the end of an assignment are not looked at.\<close>

definition roles_of :: "user_world \<Rightarrow> uuid \<Rightarrow> role_row list" where
  "roles_of w u =
     sort_key ro_name (concat (map (\<lambda>r. map (\<lambda>_. r) (filter (\<lambda>g. ga_role g = ro_id r \<and> ga_user g = u) (uw_assignments w))) (uw_roles w)))"

definition get_user_roles :: "user_env \<Rightarrow> uuid \<Rightarrow> user_world \<Rightarrow> user_error + role_row list" where
  "get_user_roles env u w =
     (if \<not> ue_query_ok env then Inl RoleQueryFailed
      else if \<not> list_all role_readable (roles_of w u) then Inl UnreadableRow else Inr (roles_of w u))"

definition permitted :: "user_world \<Rightarrow> uuid \<Rightarrow> permission_row \<Rightarrow> bool" where
  "permitted w u p \<longleftrightarrow>
     list_ex (\<lambda>g. gr_permission g = pe_id p \<and> list_ex (\<lambda>a. ga_role a = gr_role g \<and> ga_user a = u) (uw_assignments w)) (uw_grants w)"

definition permissions_of :: "user_world \<Rightarrow> uuid \<Rightarrow> permission_row list" where
  "permissions_of w u = sort_key pe_resource (sort_key pe_action (filter (permitted w u) (uw_permissions w)))"

definition get_user_permissions :: "user_env \<Rightarrow> uuid \<Rightarrow> user_world \<Rightarrow> user_error + permission_row list" where
  "get_user_permissions env u w =
     (if \<not> ue_query_ok env then Inl RoleQueryFailed
      else if \<not> list_all permission_readable (permissions_of w u) then Inl UnreadableRow else Inr (permissions_of w u))"

record user_view =
  uv_account :: account
  uv_roles :: "role_row list"
  uv_permissions :: "permission_row list"

definition is_admin :: "user_view \<Rightarrow> bool" where
  "is_admin u \<longleftrightarrow> list_ex (\<lambda>r. ro_name r = ''admin'') (uv_roles u)"

text \<open>The first row that the database finds.\<close>

definition read_user :: "user_env \<Rightarrow> (account \<Rightarrow> bool) \<Rightarrow> user_world \<Rightarrow> user_error + user_view" where
  "read_user env P w =
     (if \<not> ue_query_ok env then Inl UserQueryFailed
      else case find P (uw_users w) of
        None \<Rightarrow> Inl UserNotFound
      | Some a \<Rightarrow>
          if \<not> account_readable a then Inl UnreadableRow
          else case get_user_roles env (us_id a) w of
            Inl e \<Rightarrow> Inl e
          | Inr rs \<Rightarrow>
              (case get_user_permissions env (us_id a) w of
                 Inl e \<Rightarrow> Inl e
               | Inr ps \<Rightarrow> Inr \<lparr>uv_account = a, uv_roles = rs, uv_permissions = ps\<rparr>))"

definition get_user_by_username :: "user_env \<Rightarrow> string \<Rightarrow> user_world \<Rightarrow> user_error + user_view" where
  "get_user_by_username env name w = read_user env (\<lambda>a. us_username a = name \<and> us_active a = Some True) w"

definition get_user_by_id :: "user_env \<Rightarrow> uuid \<Rightarrow> user_world \<Rightarrow> user_error + user_view" where
  "get_user_by_id env u w = read_user env (\<lambda>a. us_id a = u) w"

section \<open>Listing users\<close>

record user_filter =
  uf_search :: string
  uf_active :: "bool option"
  uf_tenant :: "int option"
  uf_limit :: int
  uf_offset :: int
  uf_sort :: string
  uf_direction :: string

definition search_filter :: "string \<Rightarrow> string option list \<Rightarrow> bool" where
  "search_filter s texts \<longleftrightarrow> s = [] \<or> list_ex (\<lambda>x. x \<noteq> None \<and> ilike (the x) (contains_pattern s)) texts"

definition user_matches :: "user_filter \<Rightarrow> account \<Rightarrow> bool" where
  "user_matches f a \<longleftrightarrow>
     search_filter (uf_search f) [Some (us_username a), Some (us_email a), us_first a, us_last a]
     \<and> given (uf_active f) (\<lambda>b. us_active a = Some b)"

definition descending :: "string \<Rightarrow> bool" where
  "descending s \<longleftrightarrow> to_lower s = ''desc''"

text \<open>NULL comes first in descending order.\<close>

definition newest_created :: "('a \<Rightarrow> time option) \<Rightarrow> 'a list \<Rightarrow> 'a list" where
  "newest_created key rows = filter (\<lambda>r. key r = None) rows @ newest key (filter (\<lambda>r. key r \<noteq> None) rows)"

definition sorted_rows ::
  "(string \<Rightarrow> bool \<Rightarrow> 'a list \<Rightarrow> 'a list option) \<Rightarrow> ('a list \<Rightarrow> 'a list) \<Rightarrow> string \<Rightarrow> string \<Rightarrow> 'a list \<Rightarrow> 'a list option" where
  "sorted_rows order standard column direction rows =
     (if column = [] then Some (standard rows) else order column (descending direction) rows)"

definition bounded_limit :: "int \<Rightarrow> int \<Rightarrow> int \<Rightarrow> int" where
  "bounded_limit standard most l = (if 0 < l \<and> l \<le> most then l else standard)"

text \<open>
  A filter on the tenant compares an identifier with a number and fails. Nothing else confines the list to
  a tenant.
\<close>

definition get_users :: "user_env \<Rightarrow> user_filter \<Rightarrow> user_world \<Rightarrow> user_error + (account \<times> role_row list) list \<times> nat" where
  "get_users env f w =
     (let found = filter (user_matches f) (uw_users w)
      in if \<not> ue_query_ok env \<or> uf_tenant f \<noteq> None then Inl UserQueryFailed
         else case sorted_rows (ue_order env) (newest_created us_created) (uf_sort f) (uf_direction f) found of
           None \<Rightarrow> Inl UserQueryFailed
         | Some rows \<Rightarrow>
             let shown = take (nat (bounded_limit 50 100 (uf_limit f))) (drop (nat (max 0 (uf_offset f))) rows)
             in if \<not> list_all (\<lambda>a. account_readable a \<and> list_all role_readable (roles_of w (us_id a))) shown then Inl UnreadableRow
                else Inr (map (\<lambda>a. (a, roles_of w (us_id a))) shown, length found))"

section \<open>Changing users\<close>

text \<open>
  An update names its columns in the statement: the names of the request's fields become SQL text. A name
  made of letters, digits and underscores is a column whatever the case of its letters; anything else
  makes another statement (\<open>ue_injected\<close>). A value is sent as text or NULL; arrays and objects are refused.
\<close>

datatype json_arg = ArgNull | ArgText string | ArgCompound

definition column_name :: "string \<Rightarrow> bool" where
  "column_name f \<longleftrightarrow> f \<noteq> [] \<and> list_all (\<lambda>c. is_alnum c \<or> c = CHR ''_'') f \<and> \<not> char_between CHR ''0'' CHR ''9'' (hd f)"

definition optional_value :: "(string \<Rightarrow> 'a option) \<Rightarrow> string option \<Rightarrow> 'a option option" where
  "optional_value parse v = (case v of None \<Rightarrow> Some None | Some s \<Rightarrow> map_option Some (parse s))"

definition required_value :: "(string \<Rightarrow> 'a option) \<Rightarrow> string option \<Rightarrow> 'a option" where
  "required_value parse v = Option.bind v parse"

text \<open>What assigning a value to a column does to a row; \<open>None\<close>: no such column or no such value.\<close>

definition account_column :: "user_env \<Rightarrow> string \<Rightarrow> string option \<Rightarrow> (account \<Rightarrow> account) option" where
  "account_column env c v =
     (if c = ''user_id'' then map_option (\<lambda>i. us_id_update (\<lambda>_. i)) (required_value (ue_uuid env) v)
      else if c = ''tenant_id'' then map_option (\<lambda>i. us_tenant_update (\<lambda>_. i)) (required_value (ue_uuid env) v)
      else if c = ''sub'' then Some (us_sub_update (\<lambda>_. v))
      else if c = ''username'' then map_option (\<lambda>s. us_username_update (\<lambda>_. s)) v
      else if c = ''email'' then map_option (\<lambda>s. us_email_update (\<lambda>_. s)) v
      else if c = ''password_hash'' then Some (us_hash_update (\<lambda>_. v))
      else if c = ''first_name'' then Some (us_first_update (\<lambda>_. v))
      else if c = ''last_name'' then Some (us_last_update (\<lambda>_. v))
      else if c = ''display_name'' then Some (us_display_update (\<lambda>_. v))
      else if c = ''is_active'' then map_option (\<lambda>b. us_active_update (\<lambda>_. b)) (optional_value (ue_bool env) v)
      else if c = ''is_email_verified'' then map_option (\<lambda>b. us_verified_update (\<lambda>_. b)) (optional_value (ue_bool env) v)
      else if c = ''mfa_required'' then map_option (\<lambda>_. id) (optional_value (ue_bool env) v)
      else if c = ''mfa_enforced_at'' then map_option (\<lambda>_. id) (optional_value (ue_time env) v)
      else if c = ''last_login_at'' then map_option (\<lambda>t. us_last_login_update (\<lambda>_. t)) (optional_value (ue_time env) v)
      else if c = ''created_at'' then map_option (\<lambda>t. us_created_update (\<lambda>_. t)) (optional_value (ue_time env) v)
      else None)"

text \<open>
  The change that a list of fields makes, column by column. The code adds the time of the update itself, so
  a field of that name assigns a column twice, which is an error, as are two names for one column.
\<close>

fun compose_columns ::
  "(string \<Rightarrow> string option \<Rightarrow> ('a \<Rightarrow> 'a) option) \<Rightarrow> (string \<times> json_arg) list \<Rightarrow> ('a \<Rightarrow> 'a) option" where
  "compose_columns col [] = Some (\<lambda>r. r)"
| "compose_columns col ((f, v) # fs) =
     (case v of
        ArgCompound \<Rightarrow> None
      | ArgNull \<Rightarrow> (case col (to_lower f) None of None \<Rightarrow> None | Some g \<Rightarrow> map_option (\<lambda>h. h \<circ> g) (compose_columns col fs))
      | ArgText s \<Rightarrow> (case col (to_lower f) (Some s) of None \<Rightarrow> None | Some g \<Rightarrow> map_option (\<lambda>h. h \<circ> g) (compose_columns col fs)))"

definition assigned_columns ::
  "(string \<Rightarrow> string option \<Rightarrow> ('a \<Rightarrow> 'a) option) \<Rightarrow> (string \<times> json_arg) list \<Rightarrow> ('a \<Rightarrow> 'a) option" where
  "assigned_columns col changes =
     (if \<not> distinct (''updated_at'' # map (to_lower \<circ> fst) changes) then None else compose_columns col changes)"

definition change_where :: "('a \<Rightarrow> bool) \<Rightarrow> ('a \<Rightarrow> 'a) \<Rightarrow> 'a list \<Rightarrow> 'a list" where
  "change_where P f rows = map (\<lambda>r. if P r then f r else r) rows"

text \<open>The key of a row that others refer to cannot change while they do.\<close>

definition user_referenced :: "user_world \<Rightarrow> uuid \<Rightarrow> bool" where
  "user_referenced w u \<longleftrightarrow>
     list_ex (\<lambda>g. ga_user g = u) (uw_assignments w) \<or> list_ex (\<lambda>i. iv_by i = u) (uw_invites w)
     \<or> list_ex (\<lambda>e. al_user e = Some u) (aw_log (uw_audit w)) \<or> list_ex (\<lambda>s. ls_user s = u) (aw_sessions (uw_audit w))"

definition store_accounts :: "account list \<Rightarrow> uuid \<Rightarrow> user_world \<Rightarrow> user_world option" where
  "store_accounts rows u w =
     (if list_all (account_fits w) rows \<and> all_pairs (\<lambda>a b. \<not> same_account_key a b) rows
         \<and> (user_referenced w u \<longrightarrow> u \<in> us_id ` set rows \<or> u \<notin> us_id ` set (uw_users w))
      then Some (w\<lparr>uw_users := rows\<rparr>) else None)"

definition update_account :: "user_env \<Rightarrow> uuid \<Rightarrow> (string \<times> json_arg) list \<Rightarrow> user_world \<Rightarrow> user_world option" where
  "update_account env u changes w =
     (if \<not> ue_exec_ok env then None
      else if \<not> list_all (column_name \<circ> fst) changes then ue_injected env (map fst changes) w
      else case assigned_columns (account_column env) changes of
        None \<Rightarrow> None
      | Some f \<Rightarrow> store_accounts (change_where (\<lambda>a. us_id a = u) (\<lambda>a. (f a)\<lparr>us_updated := Some (ue_now env)\<rparr>) (uw_users w)) u w)"

definition update_user ::
  "user_env \<Rightarrow> uuid \<Rightarrow> (string \<times> json_arg) list \<Rightarrow> user_world \<Rightarrow> (user_error + user_view) \<times> user_world" where
  "update_user env u changes w =
     (if changes = [] then (get_user_by_id env u w, w)
      else case update_account env u changes w of
        None \<Rightarrow> (Inl UserUpdateFailed, w)
      | Some w \<Rightarrow> (get_user_by_id env u w, w))"

definition delete_user :: "user_env \<Rightarrow> uuid \<Rightarrow> user_world \<Rightarrow> (user_error + unit) \<times> user_world" where
  "delete_user env u w =
     (if \<not> ue_exec_ok env then (Inl UserUpdateFailed, w)
      else if \<not> list_ex (\<lambda>a. us_id a = u) (uw_users w) then (Inl UserNotFound, w)
      else (Inr (), w\<lparr>uw_users := change_where (\<lambda>a. us_id a = u)
             (\<lambda>a. a\<lparr>us_active := Some False, us_updated := Some (ue_now env)\<rparr>) (uw_users w)\<rparr>))"

section \<open>Assignments\<close>

definition assign_user_role :: "user_env \<Rightarrow> uuid \<Rightarrow> uuid \<Rightarrow> uuid \<Rightarrow> user_world \<Rightarrow> (user_error + unit) \<times> user_world" where
  "assign_user_role env u r tenant w =
     (if \<not> ue_exec_ok env \<or> tenant \<notin> set (uw_tenants w) \<or> u \<notin> us_id ` set (uw_users w) \<or> r \<notin> ro_id ` set (uw_roles w)
      then (Inl AssignmentFailed, w)
      else if list_ex (\<lambda>g. ga_tenant g = tenant \<and> ga_user g = u \<and> ga_role g = r) (uw_assignments w) then (Inr (), w)
      else (Inr (), w\<lparr>uw_assignments := uw_assignments w @ [\<lparr>ga_tenant = tenant, ga_user = u, ga_role = r, ga_expires = None\<rparr>]\<rparr>))"

definition remove_user_role :: "user_env \<Rightarrow> uuid \<Rightarrow> uuid \<Rightarrow> user_world \<Rightarrow> (user_error + unit) \<times> user_world" where
  "remove_user_role env u r w =
     (let hit = (\<lambda>g. ga_user g = u \<and> ga_role g = r)
      in if \<not> ue_exec_ok env then (Inl AssignmentFailed, w)
         else if \<not> list_ex hit (uw_assignments w) then (Inl AssignmentNotFound, w)
         else (Inr (), w\<lparr>uw_assignments := filter (\<lambda>g. \<not> hit g) (uw_assignments w)\<rparr>))"

text \<open>The list of roles for the forms asks for a column that the table has not got.\<close>

definition get_simple_roles :: "user_env \<Rightarrow> user_world \<Rightarrow> user_error + role_row list" where
  "get_simple_roles env w = Inl RoleQueryFailed"

section \<open>Invitations\<close>

record invite =
  in_row :: invite_row
  in_roles :: "uuid list"
  in_expired :: bool

definition insert_invite :: "user_env \<Rightarrow> invite_row \<Rightarrow> user_world \<Rightarrow> user_error + user_world" where
  "insert_invite env i w =
     (if \<not> ue_exec_ok env \<or> iv_tenant i \<notin> set (uw_tenants w) \<or> iv_by i \<notin> us_id ` set (uw_users w)
         \<or> 255 < text_length (iv_email i) \<or> \<not> text_fits 100 (iv_first i) \<or> \<not> text_fits 100 (iv_last i)
      then Inl UserInsertFailed
      else if list_ex (\<lambda>j. iv_id j = iv_id i \<or> iv_token j = iv_token i \<or> (iv_tenant j = iv_tenant i \<and> iv_email j = iv_email i))
             (uw_invites w)
      then Inl DuplicateKey
      else Inr (w\<lparr>uw_invites := uw_invites w @ [i]\<rparr>))"

text \<open>Each role is a statement of its own; the ones before a failure stay.\<close>

fun associate_invite_roles :: "user_env \<Rightarrow> uuid \<Rightarrow> uuid list \<Rightarrow> uuid \<Rightarrow> user_world \<Rightarrow> (user_error + unit) \<times> user_world" where
  "associate_invite_roles env i [] tenant w = (Inr (), w)"
| "associate_invite_roles env i (r # rs) tenant w =
     (let row = \<lparr>ir_invite = i, ir_role = r, ir_tenant = tenant\<rparr>
      in if \<not> ue_exec_ok env \<or> i \<notin> iv_id ` set (uw_invites w) \<or> r \<notin> ro_id ` set (uw_roles w) \<or> tenant \<notin> set (uw_tenants w)
         then (Inl InviteRolesFailed, w)
         else if row \<in> set (uw_invite_roles w) then (Inl DuplicateKey, w)
         else associate_invite_roles env i rs tenant (w\<lparr>uw_invite_roles := uw_invite_roles w @ [row]\<rparr>))"

definition invite_user ::
  "user_env \<Rightarrow> string \<Rightarrow> string option \<Rightarrow> string option \<Rightarrow> uuid list \<Rightarrow> uuid \<Rightarrow> uuid \<Rightarrow> user_world
     \<Rightarrow> (user_error + invite) \<times> user_world" where
  "invite_user env email first_name last_name roles by_user tenant w =
     (case ue_random env of
        None \<Rightarrow> (Inl UserTokenFailed, w)
      | Some random \<Rightarrow>
          let i = \<lparr>iv_id = ue_id env, iv_tenant = tenant, iv_email = email, iv_first = first_name, iv_last = last_name,
                   iv_by = by_user, iv_token = hex_encode random, iv_expires = ue_now env + 7 * 24 * hour,
                   iv_accepted = None, iv_created = ue_now env\<rparr>
          in case insert_invite env i w of
               Inl e \<Rightarrow> (Inl e, w)
             | Inr w \<Rightarrow>
                 (case associate_invite_roles env (iv_id i) roles tenant w of
                    (Inl e, w) \<Rightarrow> (Inl e, w)
                  | (Inr _, w) \<Rightarrow> (Inr \<lparr>in_row = i, in_roles = roles, in_expired = False\<rparr>, w)))"

definition invite_roles :: "user_world \<Rightarrow> uuid \<Rightarrow> uuid list" where
  "invite_roles w i = map ir_role (filter (\<lambda>r. ir_invite r = i) (uw_invite_roles w))"

definition get_user_invites :: "user_env \<Rightarrow> bool \<Rightarrow> user_world \<Rightarrow> user_error + invite list" where
  "get_user_invites env include_expired w =
     (if \<not> ue_query_ok env then Inl UserQueryFailed
      else Inr (map (\<lambda>i. \<lparr>in_row = i, in_roles = invite_roles w (iv_id i), in_expired = iv_expires i < ue_now env\<rparr>)
             (newest iv_created (filter (\<lambda>i. iv_accepted i = None \<and> (include_expired \<or> ue_now env < iv_expires i)) (uw_invites w)))))"

fun assign_roles :: "user_env \<Rightarrow> uuid \<Rightarrow> uuid list \<Rightarrow> uuid \<Rightarrow> user_world \<Rightarrow> user_world option" where
  "assign_roles env u [] tenant w = Some w"
| "assign_roles env u (r # rs) tenant w =
     (case assign_user_role env u r tenant w of (Inl _, _) \<Rightarrow> None | (Inr _, w) \<Rightarrow> assign_roles env u rs tenant w)"

text \<open>
  One transaction: a failure on the way leaves the world as it was. The password is not used; the user is
  created without one.
\<close>

definition accept_invite ::
  "user_env \<Rightarrow> string \<Rightarrow> string \<Rightarrow> string \<Rightarrow> user_world \<Rightarrow> (user_error + user_view) \<times> user_world" where
  "accept_invite env token name password w =
     (if \<not> ue_tx_ok env then (Inl TransactionFailed, w)
      else if \<not> ue_query_ok env then (Inl UserQueryFailed, w)
      else case find (\<lambda>i. iv_token i = token \<and> iv_accepted i = None \<and> ue_now env < iv_expires i) (uw_invites w) of
        None \<Rightarrow> (Inl InvalidInvite, w)
      | Some i \<Rightarrow>
          let a = \<lparr>us_id = uuid_nil, us_tenant = iv_tenant i, us_sub = None, us_username = name, us_email = iv_email i,
                   us_hash = None, us_first = iv_first i, us_last = iv_last i, us_display = None, us_active = Some True,
                   us_verified = Some True, us_last_login = None, us_created = None, us_updated = None\<rparr>
          in case insert_account env a w of
               (Inl e, _) \<Rightarrow> (Inl e, w)
             | (Inr a, w') \<Rightarrow>
                 (case assign_roles env (us_id a) (invite_roles w' (iv_id i)) (iv_tenant i) w' of
                    None \<Rightarrow> (Inl AssignmentFailed, w)
                  | Some w' \<Rightarrow>
                      let w' = w'\<lparr>uw_invites := change_where (\<lambda>j. iv_id j = iv_id i) (\<lambda>j. j\<lparr>iv_accepted := Some (ue_now env)\<rparr>)
                                  (uw_invites w')\<rparr>
                      in (get_user_by_id env (us_id a) w', w')))"

section \<open>Logging in\<close>

text \<open>An answer is an HTTP status for a failure, or what the body shows.\<close>

datatype user_answer =
    UserFailed nat
  | UserDone nat
  | LoggedIn string account
  | UserShown user_view
  | AccountShown account
  | UsersListed "(account \<times> role_row list) list" nat int int
  | RolesListed "role_row list"
  | InviteShown invite
  | InvitesListed "invite list"

record caller =
  ca_client_ip :: string
  ca_remote :: string
  ca_forwarded :: string
  ca_real_ip :: string
  ca_agent :: string

definition caller_ip :: "caller \<Rightarrow> string" where
  "caller_ip c =
     extract_ip_from_request (case split_host_port (ca_remote c) of None \<Rightarrow> ca_client_ip c | Some (host, _) \<Rightarrow> host)
       (ca_forwarded c) (ca_real_ip c)"

text \<open>A failed attempt is to be recorded under the name given, and under the zero tenant when there is no such user.\<close>

definition log_failed_login :: "user_env \<Rightarrow> caller \<Rightarrow> string \<Rightarrow> string \<Rightarrow> uuid option \<Rightarrow> user_world \<Rightarrow> user_world" where
  "log_failed_login env c name reason tenant w =
     w\<lparr>uw_audit := snd (log_user_session (audit_view env w) (case tenant of None \<Rightarrow> uuid_nil | Some t \<Rightarrow> t) name ''login''
         (caller_ip c) (ca_agent c) []
         [(''login_successful'', MetaBool False), (''login_method'', MetaText ''basic_auth_gin''),
          (''failure_reason'', MetaText reason), (''username'', MetaText name)] (uw_audit w))\<rparr>"

text \<open>The identifiers of the second entry are those of another environment.\<close>

definition log_login :: "user_env \<Rightarrow> user_env \<Rightarrow> caller \<Rightarrow> account \<Rightarrow> user_world \<Rightarrow> user_world" where
  "log_login env env' c a w =
     (case create_session (audit_view env w) (us_tenant a) (us_id a) (caller_ip c) (ca_agent c) (uw_audit w) of
        (Inl _, x) \<Rightarrow> w\<lparr>uw_audit := x\<rparr>
      | (Inr s, x) \<Rightarrow>
          w\<lparr>uw_audit := snd (log_user_session (audit_view env' w) (us_tenant a) (us_id a) ''login'' (caller_ip c) (ca_agent c) (ls_id s)
              [(''login_successful'', MetaBool True), (''login_method'', MetaText ''basic_auth_gin'')] x)\<rparr>)"

definition login ::
  "user_env \<Rightarrow> user_env \<Rightarrow> jwt_auth \<Rightarrow> caller \<Rightarrow> string \<Rightarrow> string \<Rightarrow> user_world \<Rightarrow> user_answer \<times> user_world" where
  "login env env' auth c name password w =
     (if name = [] \<or> password = [] then (UserFailed 400, w)
      else case get_user_by_username env name w of
        Inl UserNotFound \<Rightarrow> (UserFailed 401, log_failed_login env c name ''user_not_found'' None w)
      | Inl _ \<Rightarrow> (UserFailed 500, log_failed_login env c name ''authentication_error'' None w)
      | Inr u \<Rightarrow>
          let a = uv_account u
          in case us_hash a of
               None \<Rightarrow> (UserFailed 401, log_failed_login env c name ''no_password_configured'' (Some (us_tenant a)) w)
             | Some h \<Rightarrow>
                 if \<not> verify_password env password h
                 then (UserFailed 401, log_failed_login env c name ''invalid_password'' (Some (us_tenant a)) w)
                 else if us_active a \<noteq> Some True
                 then (UserFailed 401, log_failed_login env c name ''account_disabled'' (Some (us_tenant a)) w)
                 else case generate_token (ue_tokens env) auth (us_id a) (us_tenant a) (us_username a) (us_email a) (is_admin u) of
                   None \<Rightarrow> (UserFailed 500, w)
                 | Some token \<Rightarrow> (LoggedIn token a, log_login env env' c a w))"

definition get_current_user :: "user_env \<Rightarrow> gin_context \<Rightarrow> user_world \<Rightarrow> user_answer" where
  "get_current_user env ctx w =
     (case ctx ''user_id'' of
        None \<Rightarrow> UserFailed 401
      | Some (CtxText _) \<Rightarrow> UserFailed 500
      | Some (CtxId u) \<Rightarrow>
          (case get_user_by_id env u w of
             Inl UserNotFound \<Rightarrow> UserFailed 404
           | Inl _ \<Rightarrow> UserFailed 500
           | Inr v \<Rightarrow> AccountShown (uv_account v)))"

definition change_password ::
  "user_env \<Rightarrow> gin_context \<Rightarrow> string \<Rightarrow> string \<Rightarrow> user_world \<Rightarrow> user_answer \<times> user_world" where
  "change_password env ctx current new w =
     (case ctx ''user_id'' of
        None \<Rightarrow> (UserFailed 401, w)
      | Some (CtxText _) \<Rightarrow> (UserFailed 500, w)
      | Some (CtxId u) \<Rightarrow>
          if current = [] \<or> new = [] then (UserFailed 400, w)
          else case get_user_by_id env u w of
            Inl _ \<Rightarrow> (UserFailed 500, w)
          | Inr v \<Rightarrow>
              (case us_hash (uv_account v) of
                 None \<Rightarrow> (UserFailed 400, w)
               | Some h \<Rightarrow>
                   if \<not> verify_password env current h then (UserFailed 400, w)
                   else if validate_password new \<noteq> None then (UserFailed 400, w)
                   else case hash_password env new of
                     Inl _ \<Rightarrow> (UserFailed 500, w)
                   | Inr h' \<Rightarrow>
                       (case update_user env u [(''password_hash'', ArgText h')] w of
                          (Inl _, w) \<Rightarrow> (UserFailed 500, w)
                        | (Inr _, w) \<Rightarrow> (UserDone 200, w))))"

section \<open>The requests\<close>

record users_query =
  lq_search :: string
  lq_sort :: string
  lq_direction :: string
  lq_limit :: string
  lq_offset :: string
  lq_active :: string
  lq_tenant :: string

definition user_filter_of :: "users_query \<Rightarrow> user_filter" where
  "user_filter_of q =
     \<lparr>uf_search = lq_search q, uf_active = (if lq_active q = [] then None else read_bool (lq_active q)),
      uf_tenant = (if lq_tenant q = [] then None else atoi (lq_tenant q)),
      uf_limit = (if lq_limit q = [] then 50 else case atoi (lq_limit q) of None \<Rightarrow> 0 | Some n \<Rightarrow> n),
      uf_offset = (case atoi (lq_offset q) of None \<Rightarrow> 0 | Some n \<Rightarrow> n), uf_sort = lq_sort q, uf_direction = lq_direction q\<rparr>"

definition get_users_handler :: "user_env \<Rightarrow> users_query \<Rightarrow> user_world \<Rightarrow> user_answer" where
  "get_users_handler env q w =
     (case get_users env (user_filter_of q) w of
        Inl _ \<Rightarrow> UserFailed 500
      | Inr (us, n) \<Rightarrow> UsersListed us n (uf_limit (user_filter_of q)) (uf_offset (user_filter_of q)))"

text \<open>An identifier in the path that does not parse.\<close>

definition with_id :: "user_env \<Rightarrow> string \<Rightarrow> 'a \<Rightarrow> (uuid \<Rightarrow> 'a) \<Rightarrow> 'a" where
  "with_id env s bad k = (case ue_uuid env s of None \<Rightarrow> bad | Some i \<Rightarrow> k i)"

definition failure :: "user_error \<Rightarrow> user_answer" where
  "failure e = UserFailed (case e of UserNotFound \<Rightarrow> 404 | AssignmentNotFound \<Rightarrow> 404 | RoleNotFound \<Rightarrow> 404 | GrantNotFound \<Rightarrow> 404
     | SystemRoleProtected \<Rightarrow> 403 | RoleHasUsers \<Rightarrow> 409 | _ \<Rightarrow> 500)"

text \<open>The answer shows the stored hash of the password too.\<close>

definition get_user_handler :: "user_env \<Rightarrow> string \<Rightarrow> user_world \<Rightarrow> user_answer" where
  "get_user_handler env s w =
     with_id env s (UserFailed 400) (\<lambda>u. case get_user_by_id env u w of Inl e \<Rightarrow> failure e | Inr v \<Rightarrow> UserShown v)"

text \<open>The body of the request is the row, the hash of the password included; \<open>None\<close>: it does not parse.\<close>

definition create_user_handler :: "user_env \<Rightarrow> gin_context \<Rightarrow> account option \<Rightarrow> user_world \<Rightarrow> user_answer \<times> user_world" where
  "create_user_handler env ctx body w =
     with_tenant ctx (UserFailed 401, w) (UserFailed 500, w)
       (\<lambda>tenant. case body of
           None \<Rightarrow> (UserFailed 400, w)
         | Some a \<Rightarrow>
             if us_username a = [] \<or> us_email a = [] then (UserFailed 400, w)
             else case insert_account env (a\<lparr>us_tenant := tenant, us_active := Some True, us_verified := Some False, us_last_login := None\<rparr>) w of
               (Inl DuplicateKey, w) \<Rightarrow> (UserFailed 409, w)
             | (Inl _, w) \<Rightarrow> (UserFailed 500, w)
             | (Inr a, w) \<Rightarrow> (AccountShown a, w))"

definition update_user_handler ::
  "user_env \<Rightarrow> string \<Rightarrow> (string \<times> json_arg) list option \<Rightarrow> user_world \<Rightarrow> user_answer \<times> user_world" where
  "update_user_handler env s body w =
     with_id env s (UserFailed 400, w)
       (\<lambda>u. case body of
           None \<Rightarrow> (UserFailed 400, w)
         | Some changes \<Rightarrow>
             (case update_user env u (filter (\<lambda>(f, _). f \<noteq> ''id'' \<and> f \<noteq> ''created_at'') changes) w of
                (Inl e, w) \<Rightarrow> (failure e, w)
              | (Inr v, w) \<Rightarrow> (UserShown v, w)))"

definition delete_user_handler :: "user_env \<Rightarrow> string \<Rightarrow> user_world \<Rightarrow> user_answer \<times> user_world" where
  "delete_user_handler env s w =
     with_id env s (UserFailed 400, w)
       (\<lambda>u. case delete_user env u w of (Inl e, w) \<Rightarrow> (failure e, w) | (Inr _, w) \<Rightarrow> (UserDone 204, w))"

definition get_simple_roles_handler :: "user_env \<Rightarrow> user_world \<Rightarrow> user_answer" where
  "get_simple_roles_handler env w = (case get_simple_roles env w of Inl _ \<Rightarrow> UserFailed 500 | Inr rs \<Rightarrow> RolesListed rs)"

text \<open>The roles of a user are not looked up.\<close>

definition get_user_roles_handler :: "user_env \<Rightarrow> string \<Rightarrow> user_answer" where
  "get_user_roles_handler env s = with_id env s (UserFailed 400) (\<lambda>_. RolesListed [])"

text \<open>The tenant is the one the body names.\<close>

definition assign_role_handler ::
  "user_env \<Rightarrow> string \<Rightarrow> (uuid \<times> uuid) option \<Rightarrow> user_world \<Rightarrow> user_answer \<times> user_world" where
  "assign_role_handler env s body w =
     with_id env s (UserFailed 400, w)
       (\<lambda>u. case body of
           None \<Rightarrow> (UserFailed 400, w)
         | Some (r, tenant) \<Rightarrow>
             if r = uuid_nil \<or> tenant = uuid_nil then (UserFailed 400, w)
             else case assign_user_role env u r tenant w of
               (Inl e, w) \<Rightarrow> (failure e, w)
             | (Inr _, w) \<Rightarrow> (UserDone 200, w))"

definition remove_role_handler :: "user_env \<Rightarrow> string \<Rightarrow> string \<Rightarrow> user_world \<Rightarrow> user_answer \<times> user_world" where
  "remove_role_handler env s t w =
     with_id env s (UserFailed 400, w)
       (\<lambda>u. with_id env t (UserFailed 400, w)
         (\<lambda>r. case remove_user_role env u r w of (Inl e, w) \<Rightarrow> (failure e, w) | (Inr _, w) \<Rightarrow> (UserDone 204, w)))"

record invite_request =
  iq_email :: string
  iq_first :: "string option"
  iq_last :: "string option"
  iq_roles :: "string list"
  iq_by :: string
  iq_tenant :: string

text \<open>Who invites, and into which tenant, is what the body says.\<close>

definition invite_user_handler :: "user_env \<Rightarrow> invite_request option \<Rightarrow> user_world \<Rightarrow> user_answer \<times> user_world" where
  "invite_user_handler env body w =
     (case body of
        None \<Rightarrow> (UserFailed 400, w)
      | Some q \<Rightarrow>
          (case those (map (ue_uuid env) (iq_roles q)) of
             None \<Rightarrow> (UserFailed 400, w)
           | Some roles \<Rightarrow>
               with_id env (iq_by q) (UserFailed 400, w)
                 (\<lambda>by_user. with_id env (iq_tenant q) (UserFailed 400, w)
                   (\<lambda>tenant. case invite_user env (iq_email q) (iq_first q) (iq_last q) roles by_user tenant w of
                       (Inl DuplicateKey, w) \<Rightarrow> (UserFailed 409, w)
                     | (Inl _, w) \<Rightarrow> (UserFailed 500, w)
                     | (Inr i, w) \<Rightarrow> (InviteShown i, w)))))"

definition get_invites_handler :: "user_env \<Rightarrow> string \<Rightarrow> user_world \<Rightarrow> user_answer" where
  "get_invites_handler env expired w =
     (case get_user_invites env (read_bool expired = Some True) w of Inl _ \<Rightarrow> UserFailed 500 | Inr is \<Rightarrow> InvitesListed is)"

definition resend_invite_handler :: "user_env \<Rightarrow> user_answer" where
  "resend_invite_handler env = UserFailed 501"

section \<open>What a login shows\<close>

lemma read_user_found:
  assumes "read_user env P w = Inr v"
  shows "find P (uw_users w) = Some (uv_account v)" and "uv_roles v = roles_of w (us_id (uv_account v))"
    and "account_readable (uv_account v)" and "ue_query_ok env"
    and "list_all role_readable (roles_of w (us_id (uv_account v)))"
    and "list_all permission_readable (permissions_of w (us_id (uv_account v)))"
    and "uv_permissions v = permissions_of w (us_id (uv_account v))"
  using assms
  by (auto simp: read_user_def get_user_roles_def get_user_permissions_def split: if_splits option.splits sum.splits)

lemma roles_of_set:
  "r \<in> set (roles_of w u) \<longleftrightarrow> r \<in> set (uw_roles w) \<and> (\<exists>g \<in> set (uw_assignments w). ga_role g = ro_id r \<and> ga_user g = u)"
  by (auto simp: roles_of_def)

definition holds_admin_role :: "user_world \<Rightarrow> uuid \<Rightarrow> bool" where
  "holds_admin_role w u \<longleftrightarrow>
     (\<exists>r \<in> set (uw_roles w). ro_name r = ''admin'' \<and> (\<exists>g \<in> set (uw_assignments w). ga_role g = ro_id r \<and> ga_user g = u))"

lemma is_admin_iff: "read_user env P w = Inr v \<Longrightarrow> is_admin v \<longleftrightarrow> holds_admin_role w (us_id (uv_account v))"
  using read_user_found(2) [of env P w v] by (auto simp: is_admin_def holds_admin_role_def list_ex_iff Bex_def roles_of_set)

lemma login_cases:
  assumes "login env env' auth c name password w = (LoggedIn token a, w')"
  obtains v h where "get_user_by_username env name w = Inr v" and "uv_account v = a" and "us_hash a = Some h"
    and "verify_password env password h" and "us_active a = Some True" and "w' = log_login env env' c a w"
    and "generate_token (ue_tokens env) auth (us_id a) (us_tenant a) (us_username a) (us_email a) (is_admin v) = Some token"
  using assms
  by (auto simp: login_def Let_def split: if_splits sum.splits user_error.splits option.splits)

lemma login_account:
  assumes "login env env' auth c name password w = (LoggedIn token a, w')"
  shows "find (\<lambda>a. us_username a = name \<and> us_active a = Some True) (uw_users w) = Some a"
    and "a \<in> set (uw_users w)" and "us_username a = name" and "us_active a = Some True" and "us_hash a \<noteq> None"
proof -
  obtain v h where v: "get_user_by_username env name w = Inr v" "uv_account v = a" "us_hash a = Some h"
    using login_cases [OF assms] by metis
  show f: "find (\<lambda>a. us_username a = name \<and> us_active a = Some True) (uw_users w) = Some a"
    using read_user_found(1) [OF v(1) [unfolded get_user_by_username_def]] v(2) by simp
  show "a \<in> set (uw_users w)" and "us_username a = name" and "us_active a = Some True"
    using find_SomeD [OF f] by blast+
  show "us_hash a \<noteq> None" using v(3) by simp
qed

lemma log_login_frame: "log_login env env' c a w = w\<lparr>uw_audit := uw_audit (log_login env env' c a w)\<rparr>"
  by (auto simp: log_login_def split: prod.split sum.split)


section \<open>Passwords that change\<close>

lemma find_change_where:
  "(\<And>x. P (f x) = P x) \<Longrightarrow> find P (change_where Q f xs) = map_option (\<lambda>x. if Q x then f x else x) (find P xs)"
  by (induction xs) (auto simp: change_where_def)

lemma set_change_where: "set (change_where P f xs) = (\<lambda>x. if P x then f x else x) ` set xs"
  by (auto simp: change_where_def)

definition with_hash :: "user_env \<Rightarrow> string \<Rightarrow> account \<Rightarrow> account" where
  "with_hash env h a = a\<lparr>us_hash := Some h, us_updated := Some (ue_now env)\<rparr>"

lemma password_update:
  assumes "update_user env u [(''password_hash'', ArgText h)] w = (Inr v, w')"
  shows "w' = w\<lparr>uw_users := change_where (\<lambda>a. us_id a = u) (with_hash env h) (uw_users w)\<rparr>"
proof -
  have "assigned_columns (account_column env) [(''password_hash'', ArgText h)] = Some (us_hash_update (\<lambda>_. Some h))"
    by (simp add: assigned_columns_def account_column_def to_lower_def lower_char_def comp_def)
  moreover have "column_name ''password_hash''" by code_simp
  ultimately show ?thesis using assms
    by (auto simp: update_user_def update_account_def store_accounts_def with_hash_def [abs_def] split: option.splits if_splits)
qed

text \<open>bcrypt tells passwords of up to 72 bytes apart.\<close>

definition bcrypt_exact :: "bcrypt \<Rightarrow> bool" where
  "bcrypt_exact b \<longleftrightarrow>
     (\<forall>salt p h p'. bc_generate b salt p = Some h \<longrightarrow> length p' \<le> 72 \<longrightarrow> bc_compare b h p' = (p' = p))"

lemma change_password_done:
  assumes "change_password env ctx current new w = (UserDone 200, w')" and "ctx ''user_id'' = Some (CtxId u)"
  obtains h where "bc_generate (ue_bcrypt env) (ue_salt env) new = Some h"
    and "w' = w\<lparr>uw_users := change_where (\<lambda>a. us_id a = u) (with_hash env h) (uw_users w)\<rparr>" and "new \<noteq> []"
  using assms password_update
  by (fastforce simp: change_password_def hash_password_def split: if_splits sum.splits option.splits prod.splits)

lemma roles_of_users [simp]:
  "roles_of (w\<lparr>uw_users := us\<rparr>) u = roles_of w u" "permissions_of (w\<lparr>uw_users := us\<rparr>) u = permissions_of w u"
  by (simp_all add: roles_of_def permissions_of_def permitted_def [abs_def])

lemma name_look_up_after_change:
  assumes v: "get_user_by_username env name w = Inr v" and u: "us_id (uv_account v) = u"
    and w': "w' = w\<lparr>uw_users := change_where (\<lambda>a. us_id a = u) (with_hash env1 h) (uw_users w)\<rparr>"
  shows "get_user_by_username env name w' = Inr (v\<lparr>uv_account := with_hash env1 h (uv_account v)\<rparr>)"
proof -
  note r = read_user_found [OF v [unfolded get_user_by_username_def]]
  have "find (\<lambda>a. us_username a = name \<and> us_active a = Some True) (uw_users w') = Some (with_hash env1 h (uv_account v))"
    by (simp add: w' find_change_where [where f = "with_hash env1 h"] with_hash_def [of env1 h] r(1) u)
  then show ?thesis
    using r by (cases v) (simp add: get_user_by_username_def read_user_def get_user_roles_def get_user_permissions_def w'
      with_hash_def account_readable_def)
qed

text \<open>C34: Once a password was changed the user logs in with the new one and not with the old one: while the name still finds
  this user, the new password is accepted, and the one given as the current password is refused with status 401.\<close>

theorem changed_password_replaces_the_old:
  assumes "change_password env ctx current new w = (UserDone 200, w')" and "ctx ''user_id'' = Some (CtxId u)"
    and "get_user_by_username env2 name w = Inr v" and "us_id (uv_account v) = u" and "name \<noteq> []"
    and "ue_bcrypt env2 = ue_bcrypt env" and "bcrypt_exact (ue_bcrypt env)" and "length new \<le> 72" and "length current \<le> 72"
    and "generate_token (ue_tokens env2) auth u (us_tenant (uv_account v)) (us_username (uv_account v)) (us_email (uv_account v)) (is_admin v)
           = Some token"
  shows "(\<exists>a. fst (login env2 env3 auth c name new w') = LoggedIn token a \<and> us_id a = u)
    \<and> (current \<noteq> new \<longrightarrow> current \<noteq> [] \<longrightarrow> fst (login env2 env3 auth c name current w') = UserFailed 401)"
proof -
  obtain h where h: "bc_generate (ue_bcrypt env) (ue_salt env) new = Some h" "new \<noteq> []"
    and w': "w' = w\<lparr>uw_users := change_where (\<lambda>a. us_id a = u) (with_hash env h) (uw_users w)\<rparr>"
    using change_password_done [OF assms(1,2)] by blast
  note found = name_look_up_after_change [OF assms(3,4) w']
  have active: "us_active (uv_account v) = Some True"
    using read_user_found(1) [OF assms(3) [unfolded get_user_by_username_def]] by (auto dest!: find_SomeD)
  have same: "bc_compare (ue_bcrypt env) h p = (p = new)" if "length p \<le> 72" for p
    using h(1) assms(7) that by (simp add: bcrypt_exact_def)
  have admin: "is_admin (v\<lparr>uv_account := x\<rparr>) = is_admin v" for x by (simp add: is_admin_def)
  show ?thesis
    using found active assms(4-6,8-10) h(2)
    by (auto simp: login_def Let_def with_hash_def verify_password_def same admin)
qed

section \<open>Attempts that fail\<close>

lemma no_user_column: "ad_uuid env name = None \<Longrightarrow> name \<noteq> [] \<Longrightarrow> name \<noteq> ''anonymous'' \<Longrightarrow>
    snd (log_user_session env tenant name action ip agent sid md x) = x"
  by (simp add: log_user_session_def log_event_def logged_user_def given_user_def user_column_def split: option.split)

text \<open>A failed login is not recorded: under a user name that is not itself the identifier of a user, any attempt that
  fails, for whatever reason and whatever it presents, leaves the audit log and everything else as it was.\<close>

theorem failed_login_not_recorded:
  assumes "login env env' auth c name password w = (UserFailed n, w')"
    and "ad_uuid (ue_audit env) name = None" and "name \<noteq> ''anonymous''"
  shows "w' = w"
proof (cases "name = []")
  case False
  have "ad_uuid (audit_view env w) name = None" using assms(2) by (simp add: audit_view_def)
  then have "log_failed_login env c name reason tenant w = w" for reason tenant
    using False assms(3) by (simp add: log_failed_login_def no_user_column)
  then show ?thesis
    using assms(1) by (auto simp: login_def Let_def split: if_splits sum.splits user_error.splits option.splits)
qed (use assms(1) in \<open>simp add: login_def\<close>)

text \<open>The first user of a name stands before all others: nobody else of this name logs in.\<close>

lemma namesake_blocks_login:
  assumes "find (\<lambda>a. us_username a = name \<and> us_active a = Some True) (uw_users w) = Some b"
    and "login env env' auth c name password w = (LoggedIn token a, w')"
  shows "a = b"
  using assms(1) login_account [OF assms(2)] by simp

lemma deactivated_user_cannot_log_in:
  assumes "delete_user env u w = (Inr (), w')" and "login env2 env3 auth c name password w' = (LoggedIn token a, w'')"
  shows "us_id a \<noteq> u"
proof -
  note a = login_account(2,4) [OF assms(2)]
  have "w' = w\<lparr>uw_users := change_where (\<lambda>a. us_id a = u)
      (\<lambda>a. a\<lparr>us_active := Some False, us_updated := Some (ue_now env)\<rparr>) (uw_users w)\<rparr>"
    using assms(1) by (simp add: delete_user_def split: if_splits)
  then have "a \<in> (\<lambda>a. if us_id a = u then a\<lparr>us_active := Some False, us_updated := Some (ue_now env)\<rparr> else a) ` set (uw_users w)"
    using a(1) by (simp add: set_change_where)
  then show ?thesis using a(2) by (elim imageE) (simp split: if_splits)
qed

text \<open>The rules admit passwords that bcrypt refuses.\<close>

lemma long_password_fails:
  assumes "72 < length new" and "\<And>salt p. 72 < length p \<Longrightarrow> bc_generate (ue_bcrypt env) salt p = None"
  shows "fst (change_password env ctx current new w) \<noteq> UserDone 200"
  using assms
  by (auto simp: change_password_def hash_password_def split: option.split ctx_value.split sum.split)

text \<open>One row whose flag was set to NULL makes every listing fail that comes upon it.\<close>

definition plain_query :: users_query where
  "plain_query = \<lparr>lq_search = [], lq_sort = [], lq_direction = [], lq_limit = [], lq_offset = [], lq_active = [], lq_tenant = []\<rparr>"

lemma plain_filter: "user_filter_of plain_query =
    \<lparr>uf_search = [], uf_active = None, uf_tenant = None, uf_limit = 50, uf_offset = 0, uf_sort = [], uf_direction = []\<rparr>"
  unfolding user_filter_of_def plain_query_def by (simp add: atoi_def)

lemma set_newest_created [simp]: "set (newest_created key rows) = set rows"
  by (auto simp: newest_created_def)

lemma length_newest [simp]: "length (newest key rows) = length rows"
  by (simp add: newest_def)

lemma length_newest_created [simp]: "length (newest_created key rows) = length rows"
  using sum_length_filter_compl [of "\<lambda>r. key r = None" rows] by (simp add: newest_created_def)

lemma all_users_match: "user_matches (user_filter_of plain_query) a"
  by (simp add: plain_filter user_matches_def search_filter_def given_def)

lemma plain_users:
  "get_users env (user_filter_of plain_query) w =
     (let shown = take 50 (newest_created us_created (uw_users w))
      in if \<not> ue_query_ok env then Inl UserQueryFailed
         else if \<not> list_all (\<lambda>a. account_readable a \<and> list_all role_readable (roles_of w (us_id a))) shown then Inl UnreadableRow
         else Inr (map (\<lambda>a. (a, roles_of w (us_id a))) shown, length (uw_users w)))"
  unfolding get_users_def using all_users_match
  by (simp add: plain_filter sorted_rows_def bounded_limit_def Let_def)

lemma null_flag_breaks_listing:
  assumes "a \<in> set (uw_users w)" and "us_active a = None" and "length (uw_users w) \<le> 50"
  shows "get_users_handler env plain_query w = UserFailed 500"
proof -
  have "\<not> list_all (\<lambda>a. account_readable a \<and> list_all role_readable (roles_of w (us_id a))) (uw_users w)"
    using assms(1,2) by (auto simp: list_all_iff account_readable_def)
  then show ?thesis using assms(3) by (simp add: get_users_handler_def plain_users Let_def list_all_iff)
qed

text \<open>The listing is not confined to a tenant.\<close>

lemma listing_shows_every_tenant:
  assumes "get_users_handler env plain_query w = UsersListed us n l o'" and "length (uw_users w) \<le> 50"
  shows "fst ` set us = set (uw_users w)"
  using assms by (auto simp: get_users_handler_def plain_users Let_def image_image split: if_splits)

section \<open>Invitations that are accepted\<close>

definition assigned :: "user_world \<Rightarrow> (uuid \<times> uuid \<times> uuid) set" where
  "assigned w = (\<lambda>g. (ga_tenant g, ga_user g, ga_role g)) ` set (uw_assignments w)"

lemma assign_user_role_done:
  assumes "assign_user_role env u r tenant w = (Inr (), w')"
  shows "assigned w' = insert (tenant, u, r) (assigned w)" and "\<exists>rows. w' = w\<lparr>uw_assignments := rows\<rparr>"
  using assms
  by (auto simp: assign_user_role_def assigned_def list_ex_iff split: if_splits intro: rev_image_eqI exI [of _ "uw_assignments w"])

lemma assign_roles_done:
  assumes "assign_roles env u rs tenant w = Some w'"
  shows "assigned w' = (\<lambda>r. (tenant, u, r)) ` set rs \<union> assigned w \<and> (\<exists>rows. w' = w\<lparr>uw_assignments := rows\<rparr>)"
  using assms
proof (induction rs arbitrary: w)
  case Nil
  then show ?case by (auto intro: exI [of _ "uw_assignments w"])
next
  case (Cons r rs)
  then obtain w1 where w1: "assign_user_role env u r tenant w = (Inr (), w1)" and rest: "assign_roles env u rs tenant w1 = Some w'"
    by (auto split: prod.splits sum.splits)
  obtain rows where "w1 = w\<lparr>uw_assignments := rows\<rparr>" using assign_user_role_done(2) [OF w1] by blast
  then show ?case using Cons.IH [OF rest] assign_user_role_done(1) [OF w1] by auto
qed

text \<open>The user that an invitation makes.\<close>

definition guest :: "user_env \<Rightarrow> string \<Rightarrow> invite_row \<Rightarrow> account" where
  "guest env name i = \<lparr>us_id = ue_id env, us_tenant = iv_tenant i, us_sub = None, us_username = name, us_email = iv_email i,
     us_hash = None, us_first = iv_first i, us_last = iv_last i, us_display = None, us_active = Some True,
     us_verified = Some True, us_last_login = None, us_created = Some (ue_now env), us_updated = Some (ue_now env)\<rparr>"

lemma accept_invite_cases:
  assumes "accept_invite env token name password w = (r, w')" and "w' \<noteq> w"
  shows "\<exists>i rows. find (\<lambda>i. iv_token i = token \<and> iv_accepted i = None \<and> ue_now env < iv_expires i) (uw_invites w) = Some i
    \<and> us_id (guest env name i) \<notin> us_id ` set (uw_users w)
    \<and> assigned w' = (\<lambda>r. (iv_tenant i, us_id (guest env name i), r)) ` set (invite_roles w (iv_id i)) \<union> assigned w
    \<and> w' = w\<lparr>uw_users := uw_users w @ [guest env name i], uw_assignments := rows,
         uw_invites := change_where (\<lambda>j. iv_id j = iv_id i) (\<lambda>j. j\<lparr>iv_accepted := Some (ue_now env)\<rparr>) (uw_invites w)\<rparr>"
proof -
  obtain i where i: "find (\<lambda>i. iv_token i = token \<and> iv_accepted i = None \<and> ue_now env < iv_expires i) (uw_invites w) = Some i"
    using assms by (auto simp: accept_invite_def split: if_splits option.splits)
  let ?w = "w\<lparr>uw_users := uw_users w @ [guest env name i]\<rparr>"
  have fresh: "us_id (guest env name i) \<notin> us_id ` set (uw_users w)"
    and w1: "\<exists>w1. assign_roles env (us_id (guest env name i)) (invite_roles w (iv_id i)) (iv_tenant i) ?w = Some w1
      \<and> w' = w1\<lparr>uw_invites := change_where (\<lambda>j. iv_id j = iv_id i) (\<lambda>j. j\<lparr>iv_accepted := Some (ue_now env)\<rparr>) (uw_invites w1)\<rparr>"
    using assms i
    by (auto simp: accept_invite_def insert_account_def Let_def invite_roles_def list_ex_iff same_account_key_def guest_def
        split: if_splits option.splits)
  obtain w1 where a: "assign_roles env (us_id (guest env name i)) (invite_roles w (iv_id i)) (iv_tenant i) ?w = Some w1"
    and w': "w' = w1\<lparr>uw_invites := change_where (\<lambda>j. iv_id j = iv_id i) (\<lambda>j. j\<lparr>iv_accepted := Some (ue_now env)\<rparr>) (uw_invites w1)\<rparr>"
    using w1 by blast
  obtain rows where rows: "w1 = ?w\<lparr>uw_assignments := rows\<rparr>" using assign_roles_done [OF a] by blast
  have "assigned w' = (\<lambda>r. (iv_tenant i, us_id (guest env name i), r)) ` set (invite_roles w (iv_id i)) \<union> assigned w"
    using assign_roles_done [OF a] by (simp add: w' assigned_def)
  then show ?thesis using i fresh by (intro exI [of _ i] exI [of _ rows]) (simp add: w' rows)
qed

text \<open>C35: An invitation admits one user. When accepting it succeeds, the one new user belongs to the tenant of the invitation
  and has its address and exactly the roles it lists; the token is refused from then on; and the password the guest
  gave is lost, so that no login admits the new user.\<close>

theorem invitation_admits_one_user:
  assumes "accept_invite env token name password w = (r, w')" and "w' \<noteq> w"
    and "distinct (map iv_token (uw_invites w))" and "\<forall>g \<in> set (uw_assignments w). ga_user g \<in> us_id ` set (uw_users w)"
  shows "\<exists>i a. i \<in> set (uw_invites w) \<and> iv_token i = token \<and> iv_accepted i = None \<and> ue_now env < iv_expires i
    \<and> uw_users w' = uw_users w @ [a] \<and> us_tenant a = iv_tenant i \<and> us_email a = iv_email i
    \<and> {(t, u, r) \<in> assigned w'. u = us_id a} = (\<lambda>r. (iv_tenant i, us_id a, r)) ` set (invite_roles w (iv_id i))
    \<and> (\<forall>env2 name2 password2. \<not> is_ok (fst (accept_invite env2 token name2 password2 w'))
         \<and> snd (accept_invite env2 token name2 password2 w') = w')
    \<and> (\<forall>env2 env3 auth c password2 session b w2. login env2 env3 auth c name password2 w' = (LoggedIn session b, w2) \<longrightarrow> us_id b \<noteq> us_id a)"
proof -
  obtain i rows where i: "find (\<lambda>i. iv_token i = token \<and> iv_accepted i = None \<and> ue_now env < iv_expires i) (uw_invites w) = Some i"
    and fresh: "us_id (guest env name i) \<notin> us_id ` set (uw_users w)"
    and asg: "assigned w' = (\<lambda>r. (iv_tenant i, us_id (guest env name i), r)) ` set (invite_roles w (iv_id i)) \<union> assigned w"
    and w': "w' = w\<lparr>uw_users := uw_users w @ [guest env name i], uw_assignments := rows,
         uw_invites := change_where (\<lambda>j. iv_id j = iv_id i) (\<lambda>j. j\<lparr>iv_accepted := Some (ue_now env)\<rparr>) (uw_invites w)\<rparr>"
    using accept_invite_cases [OF assms(1,2)] by blast
  define a where "a = guest env name i"
  note i' = find_SomeD [OF i]
  have a: "us_tenant a = iv_tenant i" "us_email a = iv_email i" "us_hash a = None" by (simp_all add: a_def guest_def)
  have users: "uw_users w' = uw_users w @ [a]"
    and invites: "uw_invites w' = change_where (\<lambda>j. iv_id j = iv_id i) (\<lambda>j. j\<lparr>iv_accepted := Some (ue_now env)\<rparr>) (uw_invites w)"
    by (simp_all add: w' a_def)
  have "u \<in> us_id ` set (uw_users w)" if "(t, u, r) \<in> assigned w" for t u r
    using that assms(4) by (auto simp: assigned_def)
  then have "u \<noteq> us_id a" if "(t, u, r) \<in> assigned w" for t u r
    using that fresh unfolding a_def by blast
  then have roles: "{(t, u, r) \<in> assigned w'. u = us_id a} = (\<lambda>r. (iv_tenant i, us_id a, r)) ` set (invite_roles w (iv_id i))"
    unfolding asg a_def [symmetric] by blast
  have "iv_accepted j \<noteq> None" if "j \<in> set (uw_invites w')" and "iv_token j = token" for j
  proof -
    obtain k where k: "k \<in> set (uw_invites w)" "j = (if iv_id k = iv_id i then k\<lparr>iv_accepted := Some (ue_now env)\<rparr> else k)"
      using \<open>j \<in> _\<close> by (auto simp: invites set_change_where)
    then have "iv_token k = iv_token i" using that(2) i' by (auto split: if_splits)
    then have "k = i" using k(1) i' assms(3) by (auto simp: distinct_map dest: inj_onD)
    then show ?thesis using k(2) by simp
  qed
  then have "find (\<lambda>j. iv_token j = token \<and> iv_accepted j = None \<and> ue_now env2 < iv_expires j) (uw_invites w') = None" for env2 :: user_env
    by (auto simp: find_None_iff)
  then have once: "\<not> is_ok (fst (accept_invite env2 token name2 password2 w')) \<and> snd (accept_invite env2 token name2 password2 w') = w'"
    for env2 name2 password2
    by (simp add: accept_invite_def)
  have old: "us_id b \<noteq> us_id a" if "b \<in> set (uw_users w)" for b
    using that fresh unfolding a_def by (metis image_eqI)
  have "us_id b \<noteq> us_id a" if "login env2 env3 auth c name password2 w' = (LoggedIn session b, w2)" for env2 env3 auth c password2 session b w2
  proof -
    show ?thesis using login_account(2,5) [OF that] a(3) old [of b] by (auto simp: users)
  qed
  then show ?thesis using i' a users roles once by (intro exI [of _ i] exI [of _ a]) blast
qed

section \<open>An example\<close>

definition ann_claims :: auth_claims where
  "ann_claims = \<lparr>cl_user_id = ''u'', cl_tenant_id = ''t'', cl_username = ''ann'', cl_email = ''a@x'', cl_is_admin = True,
     cl_expires_at = 24 * hour, cl_issued_at = 0, cl_not_before = 0, cl_issuer = ''securestor'', cl_subject = ''u''\<rparr>"

definition ann_jwt :: jwt_library where
  "ann_jwt = \<lparr>jl_sign = (\<lambda>secret claims. if secret = ''k'' \<and> claims = ann_claims then Some ''signed'' else None),
     jl_parse = (\<lambda>key now token. if key HMAC = Some ''k'' \<and> token = ''signed'' \<and> 0 \<le> now \<and> now < 24 * hour
                  then Some (ann_claims, True) else None)\<rparr>"

definition example_bcrypt :: bcrypt where
  "example_bcrypt = \<lparr>bc_generate = (\<lambda>salt p. if length p \<le> 72 then Some p else None), bc_compare = (\<lambda>h p. h = p)\<rparr>"

definition example_user_env :: "time \<Rightarrow> uuid \<Rightarrow> user_env" where
  "example_user_env now i = \<lparr>ue_now = now, ue_id = i, ue_query_ok = True, ue_exec_ok = True, ue_tx_ok = True, ue_uuid = Some,
     ue_bool = read_bool, ue_time = (\<lambda>_. None), ue_order = (\<lambda>_ _ _. None), ue_role_order = (\<lambda>_ _ _. None),
     ue_permission_order = (\<lambda>_ _ _. None), ue_injected = (\<lambda>_ _. None), ue_random = Some [1], ue_bcrypt = example_bcrypt, ue_salt = [],
     ue_cost = (\<lambda>_. None), ue_tokens = \<lparr>au_now = 0, au_jwt = ann_jwt, au_parse_uuid = Some\<rparr>,
     ue_audit = (example_audit_env now i)\<lparr>ad_uuid := (\<lambda>s. if length s = 1 then Some s else None)\<rparr>\<rparr>"

definition ann :: account where
  "ann = \<lparr>us_id = ''u'', us_tenant = ''t'', us_sub = None, us_username = ''ann'', us_email = ''a@x'', us_hash = Some ''Secret-1'',
     us_first = None, us_last = None, us_display = None, us_active = Some True, us_verified = Some True, us_last_login = None,
     us_created = Some 0, us_updated = Some 0\<rparr>"

definition admin_role :: role_row where
  "admin_role = \<lparr>ro_id = ''r'', ro_tenant = ''t'', ro_name = ''admin'', ro_display = None, ro_description = None,
     ro_system = Some True, ro_created = Some 0, ro_updated = Some 0\<rparr>"

definition example_users :: user_world where
  "example_users = \<lparr>uw_tenants = [''t''], uw_users = [ann], uw_roles = [admin_role], uw_permissions = [],
     uw_assignments = [\<lparr>ga_tenant = ''t'', ga_user = ''u'', ga_role = ''r'', ga_expires = None\<rparr>], uw_grants = [],
     uw_invites = [\<lparr>iv_id = ''i'', iv_tenant = ''t'', iv_email = ''b@x'', iv_first = None, iv_last = None, iv_by = ''u'',
        iv_token = ''01'', iv_expires = 100, iv_accepted = None, iv_created = 0\<rparr>],
     uw_invite_roles = [\<lparr>ir_invite = ''i'', ir_role = ''r'', ir_tenant = ''t''\<rparr>], uw_audit = \<lparr>aw_log = [], aw_sessions = []\<rparr>\<rparr>"

definition example_caller :: caller where
  "example_caller = \<lparr>ca_client_ip = [], ca_remote = ''10.0.0.9:80'', ca_forwarded = [], ca_real_ip = [], ca_agent = []\<rparr>"

definition example_secret :: jwt_auth where "example_secret = \<lparr>ja_secret = ''k''\<rparr>"

lemma ann_jwt_laws: "jwt_laws ann_jwt"
  by (auto simp: jwt_laws_def ann_jwt_def ann_claims_def split: if_splits)

lemma example_bcrypt_exact: "bcrypt_exact example_bcrypt"
  by (auto simp: bcrypt_exact_def example_bcrypt_def split: if_splits)

lemma ann_found: "get_user_by_username (example_user_env 3 ''s'') ''ann'' example_users
    = Inr \<lparr>uv_account = ann, uv_roles = [admin_role], uv_permissions = []\<rparr>"
  by code_simp


lemma changed_password_replaces_the_old_witness:
  "fst (login (example_user_env 3 ''s'') (example_user_env 4 ''q'') example_secret example_caller ''ann'' ''Secret-1''
     (snd (change_password (example_user_env 2 ''p'') [''user_id'' \<mapsto> CtxId ''u''] ''Secret-1'' ''Secret-2'' example_users))) = UserFailed 401"
proof -
  let ?c = "change_password (example_user_env 2 ''p'') [''user_id'' \<mapsto> CtxId ''u''] ''Secret-1'' ''Secret-2'' example_users"
  have "fst ?c = UserDone 200" by code_simp
  then obtain w' where c: "?c = (UserDone 200, w')" by (metis prod.collapse)
  have token: "generate_token (ue_tokens (example_user_env 3 ''s'')) example_secret ''u'' ''t'' ''ann'' ''a@x'' True = Some ''signed''"
    by code_simp
  have "is_admin \<lparr>uv_account = ann, uv_roles = [admin_role], uv_permissions = []\<rparr>" by code_simp
  then show ?thesis
    using changed_password_replaces_the_old [OF c _ ann_found, where auth = example_secret and token = "''signed''"] token c
      example_bcrypt_exact
    by (simp add: example_user_env_def ann_def)
qed

lemma failed_login_not_recorded_witness:
  "snd (login (example_user_env 3 ''s'') (example_user_env 4 ''q'') example_secret example_caller ''ann'' ''wrong'' example_users) = example_users"
proof -
  let ?l = "login (example_user_env 3 ''s'') (example_user_env 4 ''q'') example_secret example_caller ''ann'' ''wrong'' example_users"
  have "fst ?l = UserFailed 401" by code_simp
  then obtain w' where l: "?l = (UserFailed 401, w')" by (metis prod.collapse)
  have "ad_uuid (ue_audit (example_user_env 3 ''s'')) ''ann'' = None" by code_simp
  from failed_login_not_recorded [OF l this] show ?thesis by (simp add: l)
qed

lemma invitation_admits_one_user_witness:
  "\<exists>a. uw_users (snd (accept_invite (example_user_env 5 ''v'') ''01'' ''bob'' ''Secret-9'' example_users)) = [ann, a] \<and> us_tenant a = ''t''"
proof -
  let ?r = "accept_invite (example_user_env 5 ''v'') ''01'' ''bob'' ''Secret-9'' example_users"
  have "length (uw_users (snd ?r)) \<noteq> length (uw_users example_users)" by code_simp
  then have "snd ?r \<noteq> example_users" by auto
  moreover have "distinct (map iv_token (uw_invites example_users))"
    and "\<forall>g \<in> set (uw_assignments example_users). ga_user g \<in> us_id ` set (uw_users example_users)"
    by (simp_all add: example_users_def ann_def)
  ultimately obtain i a where "i \<in> set (uw_invites example_users)" and "uw_users (snd ?r) = uw_users example_users @ [a]"
      and "us_tenant a = iv_tenant i"
    using invitation_admits_one_user [of "example_user_env 5 ''v''" "''01''" "''bob''" "''Secret-9''" example_users "fst ?r" "snd ?r"]
    by auto
  then show ?thesis by (auto simp: example_users_def)
qed

end
