(* ===== verification/Roles.thy ===== *)
theory Roles
  imports Users
begin

text \<open>
  Roles and permissions (internal/service/role_management_service.go) and their requests
  (internal/handlers/role_management_handler.go), over the tables of internal/database/migrations.go; then
  what all requests on users, roles and permissions together keep, and what they let a caller do.
\<close>

section \<open>Reading roles\<close>

record role_filter =
  rf_search :: string
  rf_system :: "bool option"
  rf_include_system :: bool
  rf_limit :: int
  rf_offset :: int
  rf_sort :: string
  rf_direction :: string

record permission_filter =
  pf_search :: string
  pf_resource :: string
  pf_action :: string
  pf_limit :: int
  pf_offset :: int
  pf_sort :: string
  pf_direction :: string

record role_view =
  rv_role :: role_row
  rv_permissions :: "permission_row list"
  rv_users :: nat

definition role_matches :: "role_filter \<Rightarrow> role_row \<Rightarrow> bool" where
  "role_matches f r \<longleftrightarrow>
     search_filter (rf_search f) [Some (ro_name r), ro_display r, ro_description r]
     \<and> given (rf_system f) (\<lambda>b. ro_system r = Some b) \<and> (rf_include_system f \<or> ro_system r = Some False)"

definition user_is_active :: "user_world \<Rightarrow> uuid \<Rightarrow> bool" where
  "user_is_active w u \<longleftrightarrow> list_ex (\<lambda>a. us_id a = u \<and> us_active a = Some True) (uw_users w)"

text \<open>How many assignments of the role active users have.\<close>

definition role_user_count :: "user_world \<Rightarrow> uuid \<Rightarrow> nat" where
  "role_user_count w r = length (filter (\<lambda>g. ga_role g = r \<and> user_is_active w (ga_user g)) (uw_assignments w))"

text \<open>A join: one row for every grant.\<close>

definition permissions_of_role :: "user_world \<Rightarrow> uuid \<Rightarrow> permission_row list" where
  "permissions_of_role w r =
     sort_key pe_resource (sort_key pe_action
       (concat (map (\<lambda>p. map (\<lambda>_. p) (filter (\<lambda>g. gr_permission g = pe_id p \<and> gr_role g = r) (uw_grants w))) (uw_permissions w))))"

definition view_of_role :: "user_world \<Rightarrow> role_row \<Rightarrow> role_view option" where
  "view_of_role w r =
     (if \<not> role_readable r \<or> \<not> list_all permission_readable (permissions_of_role w (ro_id r)) then None
      else Some \<lparr>rv_role = r, rv_permissions = permissions_of_role w (ro_id r), rv_users = role_user_count w (ro_id r)\<rparr>)"

text \<open>The roles of every tenant.\<close>

definition get_roles :: "user_env \<Rightarrow> role_filter \<Rightarrow> user_world \<Rightarrow> user_error + role_view list \<times> nat" where
  "get_roles env f w =
     (let found = filter (role_matches f) (uw_roles w)
      in if \<not> ue_query_ok env then Inl RoleQueryFailed
         else case sorted_rows (ue_role_order env) (newest_created ro_created) (rf_sort f) (rf_direction f) found of
           None \<Rightarrow> Inl RoleQueryFailed
         | Some rows \<Rightarrow>
             (case those (map (view_of_role w) (take (nat (bounded_limit 50 100 (rf_limit f))) (drop (nat (max 0 (rf_offset f))) rows))) of
                None \<Rightarrow> Inl UnreadableRow
              | Some vs \<Rightarrow> Inr (vs, length found)))"

definition role_with_id :: "user_world \<Rightarrow> uuid \<Rightarrow> role_row option" where
  "role_with_id w r = find (\<lambda>x. ro_id x = r) (uw_roles w)"

definition get_role_by_id :: "user_env \<Rightarrow> uuid \<Rightarrow> user_world \<Rightarrow> user_error + role_view" where
  "get_role_by_id env r w =
     (if \<not> ue_query_ok env then Inl RoleQueryFailed
      else case role_with_id w r of
        None \<Rightarrow> Inl RoleNotFound
      | Some x \<Rightarrow> (case view_of_role w x of None \<Rightarrow> Inl UnreadableRow | Some v \<Rightarrow> Inr v))"

definition get_role_by_id_simple :: "user_env \<Rightarrow> uuid \<Rightarrow> user_world \<Rightarrow> user_error + role_row" where
  "get_role_by_id_simple env r w =
     (if \<not> ue_query_ok env then Inl RoleQueryFailed
      else case role_with_id w r of
        None \<Rightarrow> Inl RoleNotFound
      | Some x \<Rightarrow> if role_readable x then Inr x else Inl UnreadableRow)"

definition is_system_role :: "user_env \<Rightarrow> uuid \<Rightarrow> user_world \<Rightarrow> user_error + bool" where
  "is_system_role env r w =
     (if \<not> ue_query_ok env then Inl RoleQueryFailed
      else case role_with_id w r of
        None \<Rightarrow> Inl RoleNotFound
      | Some x \<Rightarrow> (case ro_system x of None \<Rightarrow> Inl UnreadableRow | Some b \<Rightarrow> Inr b))"

text \<open>What may be done to a role that is not the system's.\<close>

definition on_ordinary_role ::
  "user_env \<Rightarrow> uuid \<Rightarrow> user_world \<Rightarrow> ((user_error + 'a) \<times> user_world) \<Rightarrow> (user_error + 'a) \<times> user_world" where
  "on_ordinary_role env r w result =
     (case is_system_role env r w of
        Inl e \<Rightarrow> (Inl e, w)
      | Inr b \<Rightarrow> if b then (Inl SystemRoleProtected, w) else result)"

section \<open>Changing roles\<close>

definition role_fits :: "user_world \<Rightarrow> role_row \<Rightarrow> bool" where
  "role_fits w r \<longleftrightarrow> ro_tenant r \<in> set (uw_tenants w) \<and> text_length (ro_name r) \<le> 50 \<and> text_fits 100 (ro_display r)"

definition same_role_key :: "role_row \<Rightarrow> role_row \<Rightarrow> bool" where
  "same_role_key a b \<longleftrightarrow> ro_id a = ro_id b \<or> (ro_tenant a = ro_tenant b \<and> ro_name a = ro_name b)"

definition create_role :: "user_env \<Rightarrow> role_row \<Rightarrow> user_world \<Rightarrow> (user_error + role_row) \<times> user_world" where
  "create_role env r w =
     (let r = r\<lparr>ro_id := ue_id env, ro_created := Some (ue_now env), ro_updated := Some (ue_now env)\<rparr>
      in if \<not> ue_exec_ok env \<or> \<not> role_fits w r then (Inl RoleInsertFailed, w)
         else if list_ex (same_role_key r) (uw_roles w) then (Inl DuplicateKey, w)
         else (Inr r, w\<lparr>uw_roles := uw_roles w @ [r]\<rparr>))"

definition role_column :: "user_env \<Rightarrow> string \<Rightarrow> string option \<Rightarrow> (role_row \<Rightarrow> role_row) option" where
  "role_column env c v =
     (if c = ''role_id'' then map_option (\<lambda>i. ro_id_update (\<lambda>_. i)) (required_value (ue_uuid env) v)
      else if c = ''tenant_id'' then map_option (\<lambda>i. ro_tenant_update (\<lambda>_. i)) (required_value (ue_uuid env) v)
      else if c = ''name'' then map_option (\<lambda>s. ro_name_update (\<lambda>_. s)) v
      else if c = ''display_name'' then Some (ro_display_update (\<lambda>_. v))
      else if c = ''description'' then Some (ro_description_update (\<lambda>_. v))
      else if c = ''is_system_role'' then map_option (\<lambda>b. ro_system_update (\<lambda>_. b)) (optional_value (ue_bool env) v)
      else if c = ''created_at'' then map_option (\<lambda>t. ro_created_update (\<lambda>_. t)) (optional_value (ue_time env) v)
      else None)"

definition role_referenced :: "user_world \<Rightarrow> uuid \<Rightarrow> bool" where
  "role_referenced w r \<longleftrightarrow>
     list_ex (\<lambda>g. ga_role g = r) (uw_assignments w) \<or> list_ex (\<lambda>g. gr_role g = r) (uw_grants w)
     \<or> list_ex (\<lambda>i. ir_role i = r) (uw_invite_roles w)"

definition store_roles :: "role_row list \<Rightarrow> uuid \<Rightarrow> user_world \<Rightarrow> user_world option" where
  "store_roles rows r w =
     (if list_all (role_fits w) rows \<and> all_pairs (\<lambda>a b. \<not> same_role_key a b) rows
         \<and> (role_referenced w r \<longrightarrow> r \<in> ro_id ` set rows \<or> r \<notin> ro_id ` set (uw_roles w))
      then Some (w\<lparr>uw_roles := rows\<rparr>) else None)"

definition update_role_row :: "user_env \<Rightarrow> uuid \<Rightarrow> (string \<times> json_arg) list \<Rightarrow> user_world \<Rightarrow> user_world option" where
  "update_role_row env r changes w =
     (if \<not> ue_exec_ok env then None
      else if \<not> list_all (column_name \<circ> fst) changes then ue_injected env (map fst changes) w
      else case assigned_columns (role_column env) changes of
        None \<Rightarrow> None
      | Some f \<Rightarrow> store_roles (change_where (\<lambda>x. ro_id x = r) (\<lambda>x. (f x)\<lparr>ro_updated := Some (ue_now env)\<rparr>) (uw_roles w)) r w)"

text \<open>The field that makes a system role is dropped when it is written in small letters.\<close>

definition update_role ::
  "user_env \<Rightarrow> uuid \<Rightarrow> (string \<times> json_arg) list \<Rightarrow> user_world \<Rightarrow> (user_error + role_row) \<times> user_world" where
  "update_role env r changes w =
     (if changes = [] then (get_role_by_id_simple env r w, w)
      else on_ordinary_role env r w
        (let changes = filter (\<lambda>(f, _). f \<noteq> ''is_system_role'') changes
         in if changes = [] then (get_role_by_id_simple env r w, w)
            else case update_role_row env r changes w of
              None \<Rightarrow> (Inl RoleUpdateFailed, w)
            | Some w \<Rightarrow> (get_role_by_id_simple env r w, w)))"

text \<open>
  A deletion is two steps, between which other requests run: the checks, and one transaction. The rows
  that refer to the role go with it.
\<close>

definition check_role_deletion :: "user_env \<Rightarrow> uuid \<Rightarrow> user_world \<Rightarrow> user_error option" where
  "check_role_deletion env r w =
     (case is_system_role env r w of
        Inl e \<Rightarrow> Some e
      | Inr b \<Rightarrow> if b then Some SystemRoleProtected else if 0 < role_user_count w r then Some RoleHasUsers else None)"

definition perform_role_deletion :: "user_env \<Rightarrow> uuid \<Rightarrow> user_world \<Rightarrow> (user_error + unit) \<times> user_world" where
  "perform_role_deletion env r w =
     (if \<not> ue_tx_ok env \<or> \<not> ue_exec_ok env then (Inl TransactionFailed, w)
      else if role_with_id w r = None then (Inl RoleNotFound, w)
      else (Inr (), w\<lparr>uw_roles := filter (\<lambda>x. ro_id x \<noteq> r) (uw_roles w), uw_grants := filter (\<lambda>g. gr_role g \<noteq> r) (uw_grants w),
              uw_assignments := filter (\<lambda>g. ga_role g \<noteq> r) (uw_assignments w),
              uw_invite_roles := filter (\<lambda>i. ir_role i \<noteq> r) (uw_invite_roles w)\<rparr>))"

definition delete_role :: "user_env \<Rightarrow> uuid \<Rightarrow> user_world \<Rightarrow> (user_error + unit) \<times> user_world" where
  "delete_role env r w = (case check_role_deletion env r w of Some e \<Rightarrow> (Inl e, w) | None \<Rightarrow> perform_role_deletion env r w)"

section \<open>Permissions\<close>

definition permission_matches :: "permission_filter \<Rightarrow> permission_row \<Rightarrow> bool" where
  "permission_matches f p \<longleftrightarrow>
     search_filter (pf_search f) [Some (pe_name p), pe_description p] \<and> text_filter (pf_resource f) (pe_resource p)
     \<and> text_filter (pf_action f) (pe_action p)"

definition get_permissions :: "user_env \<Rightarrow> permission_filter \<Rightarrow> user_world \<Rightarrow> user_error + permission_row list \<times> nat" where
  "get_permissions env f w =
     (let found = filter (permission_matches f) (uw_permissions w)
      in if \<not> ue_query_ok env then Inl RoleQueryFailed
         else case sorted_rows (ue_permission_order env) (\<lambda>ps. sort_key pe_resource (sort_key pe_action ps)) (pf_sort f)
                     (pf_direction f) found of
           None \<Rightarrow> Inl RoleQueryFailed
         | Some rows \<Rightarrow>
             let shown = take (nat (bounded_limit 100 500 (pf_limit f))) (drop (nat (max 0 (pf_offset f))) rows)
             in if \<not> list_all permission_readable shown then Inl UnreadableRow else Inr (shown, length found))"

text \<open>The statement gives no tenant and returns a column that the table has not got: it always fails.\<close>

definition create_permission :: "user_env \<Rightarrow> permission_row \<Rightarrow> user_world \<Rightarrow> (user_error + permission_row) \<times> user_world" where
  "create_permission env p w = (Inl PermissionInsertFailed, w)"

definition insert_grant :: "user_env \<Rightarrow> grant \<Rightarrow> user_world \<Rightarrow> user_world option" where
  "insert_grant env g w =
     (if ue_exec_ok env \<and> gr_tenant g \<in> set (uw_tenants w) \<and> gr_role g \<in> ro_id ` set (uw_roles w)
         \<and> gr_permission g \<in> pe_id ` set (uw_permissions w) \<and> g \<notin> set (uw_grants w)
      then Some (w\<lparr>uw_grants := uw_grants w @ [g]\<rparr>) else None)"

fun insert_grants :: "user_env \<Rightarrow> uuid \<Rightarrow> uuid \<Rightarrow> uuid list \<Rightarrow> user_world \<Rightarrow> user_world option" where
  "insert_grants env tenant r [] w = Some w"
| "insert_grants env tenant r (p # ps) w =
     Option.bind (insert_grant env \<lparr>gr_tenant = tenant, gr_role = r, gr_permission = p\<rparr> w) (insert_grants env tenant r ps)"

text \<open>The tenant of a role, as its own look-up finds it.\<close>

definition with_role_tenant ::
  "user_world \<Rightarrow> uuid \<Rightarrow> (uuid \<Rightarrow> (user_error + 'a) \<times> user_world) \<Rightarrow> (user_error + 'a) \<times> user_world" where
  "with_role_tenant w r k = (case role_with_id w r of None \<Rightarrow> (Inl RoleQueryFailed, w) | Some x \<Rightarrow> k (ro_tenant x))"

text \<open>One transaction: the first permission refused undoes all.\<close>

definition assign_role_permissions :: "user_env \<Rightarrow> uuid \<Rightarrow> uuid list \<Rightarrow> user_world \<Rightarrow> (user_error + unit) \<times> user_world" where
  "assign_role_permissions env r ps w =
     on_ordinary_role env r w (with_role_tenant w r
       (\<lambda>tenant.
          if \<not> ue_tx_ok env \<or> \<not> ue_exec_ok env then (Inl TransactionFailed, w)
          else case insert_grants env tenant r ps (w\<lparr>uw_grants := filter (\<lambda>g. gr_role g \<noteq> r) (uw_grants w)\<rparr>) of
            None \<Rightarrow> (Inl GrantFailed, w)
          | Some w \<Rightarrow> (Inr (), w)))"

definition add_role_permission :: "user_env \<Rightarrow> uuid \<Rightarrow> uuid \<Rightarrow> user_world \<Rightarrow> (user_error + unit) \<times> user_world" where
  "add_role_permission env r p w =
     on_ordinary_role env r w (with_role_tenant w r
       (\<lambda>tenant. let g = \<lparr>gr_tenant = tenant, gr_role = r, gr_permission = p\<rparr>
                 in if ue_exec_ok env \<and> g \<in> set (uw_grants w) then (Inr (), w)
                    else case insert_grant env g w of None \<Rightarrow> (Inl GrantFailed, w) | Some w \<Rightarrow> (Inr (), w)))"

definition remove_role_permission :: "user_env \<Rightarrow> uuid \<Rightarrow> uuid \<Rightarrow> user_world \<Rightarrow> (user_error + unit) \<times> user_world" where
  "remove_role_permission env r p w =
     on_ordinary_role env r w
       (let hit = (\<lambda>g. gr_role g = r \<and> gr_permission g = p)
        in if \<not> ue_exec_ok env then (Inl GrantFailed, w)
           else if \<not> list_ex hit (uw_grants w) then (Inl GrantNotFound, w)
           else (Inr (), w\<lparr>uw_grants := filter (\<lambda>g. \<not> hit g) (uw_grants w)\<rparr>))"

definition get_role_users :: "user_env \<Rightarrow> uuid \<Rightarrow> user_world \<Rightarrow> user_error + account list" where
  "get_role_users env r w =
     (let us = sort_key us_username (concat (map (\<lambda>a. map (\<lambda>_. a) (filter (\<lambda>g. ga_user g = us_id a \<and> ga_role g = r) (uw_assignments w)))
                 (filter (\<lambda>a. us_active a = Some True) (uw_users w))))
      in if \<not> ue_query_ok env then Inl RoleQueryFailed
         else if \<not> list_all account_readable us then Inl UnreadableRow else Inr us)"

definition get_resources_and_actions :: "user_env \<Rightarrow> user_world \<Rightarrow> user_error + (string \<times> string list) list" where
  "get_resources_and_actions env w =
     (let pairs = remdups (map (\<lambda>p. (pe_resource p, pe_action p)) (uw_permissions w))
      in if \<not> ue_query_ok env then Inl RoleQueryFailed
         else Inr (map (\<lambda>r. (r, sort (map snd (filter (\<lambda>x. fst x = r) pairs)))) (remdups (map fst pairs))))"

section \<open>The requests\<close>

datatype role_answer =
    RoleFailed user_answer
  | RoleDone nat
  | RoleShown role_row
  | RoleViewed role_view
  | RoleViews "role_view list" nat int int
  | GrantsShown string "permission_row list"
  | RoleUsers "account list"
  | PermissionsListed "permission_row list" nat int int
  | PermissionShown permission_row
  | ResourcesListed "(string \<times> string list) list"

record role_query =
  rq_search :: string
  rq_include_system :: string
  rq_system :: string
  rq_limit :: string
  rq_offset :: string
  rq_sort :: string
  rq_direction :: string

abbreviation refused :: "nat \<Rightarrow> role_answer" where "refused n \<equiv> RoleFailed (UserFailed n)"

definition number_or :: "int \<Rightarrow> string \<Rightarrow> int" where
  "number_or standard q = (case atoi q of None \<Rightarrow> standard | Some n \<Rightarrow> n)"

definition role_filter_of :: "role_query \<Rightarrow> role_filter" where
  "role_filter_of q =
     \<lparr>rf_search = rq_search q, rf_system = (if rq_system q = [] then None else read_bool (rq_system q)),
      rf_include_system = (rq_include_system q = ''true''), rf_limit = number_or 50 (rq_limit q),
      rf_offset = number_or 0 (rq_offset q), rf_sort = rq_sort q, rf_direction = rq_direction q\<rparr>"

definition get_roles_handler :: "user_env \<Rightarrow> role_query \<Rightarrow> user_world \<Rightarrow> role_answer" where
  "get_roles_handler env q w =
     (case get_roles env (role_filter_of q) w of
        Inl _ \<Rightarrow> refused 500
      | Inr (vs, n) \<Rightarrow> RoleViews vs n (rf_limit (role_filter_of q)) (rf_offset (role_filter_of q)))"

definition get_role_handler :: "user_env \<Rightarrow> string \<Rightarrow> user_world \<Rightarrow> role_answer" where
  "get_role_handler env s w =
     with_id env s (refused 400) (\<lambda>r. case get_role_by_id env r w of Inl e \<Rightarrow> RoleFailed (failure e) | Inr v \<Rightarrow> RoleViewed v)"

definition create_role_handler :: "user_env \<Rightarrow> gin_context \<Rightarrow> role_row option \<Rightarrow> user_world \<Rightarrow> role_answer \<times> user_world" where
  "create_role_handler env ctx body w =
     (case body of
        None \<Rightarrow> (refused 400, w)
      | Some r \<Rightarrow>
          if ro_name r = [] then (refused 400, w)
          else with_tenant ctx (refused 401, w) (refused 500, w)
            (\<lambda>tenant. case create_role env (r\<lparr>ro_tenant := tenant, ro_system := Some False\<rparr>) w of
                (Inl DuplicateKey, w) \<Rightarrow> (refused 409, w)
              | (Inl _, w) \<Rightarrow> (refused 500, w)
              | (Inr r, w) \<Rightarrow> (RoleShown r, w)))"

definition update_role_handler ::
  "user_env \<Rightarrow> string \<Rightarrow> (string \<times> json_arg) list option \<Rightarrow> user_world \<Rightarrow> role_answer \<times> user_world" where
  "update_role_handler env s body w =
     with_id env s (refused 400, w)
       (\<lambda>r. case body of
           None \<Rightarrow> (refused 400, w)
         | Some changes \<Rightarrow>
             (case update_role env r (filter (\<lambda>(f, _). f \<notin> {''id'', ''created_at'', ''is_system_role''}) changes) w of
                (Inl e, w) \<Rightarrow> (RoleFailed (failure e), w)
              | (Inr x, w) \<Rightarrow> (RoleShown x, w)))"

text \<open>A request on a role that only says whether it went through.\<close>

definition role_request ::
  "user_env \<Rightarrow> string \<Rightarrow> nat \<Rightarrow> (uuid \<Rightarrow> user_world \<Rightarrow> (user_error + unit) \<times> user_world) \<Rightarrow> user_world \<Rightarrow> role_answer \<times> user_world" where
  "role_request env s status act w =
     with_id env s (refused 400, w)
       (\<lambda>r. case act r w of (Inl e, w) \<Rightarrow> (RoleFailed (failure e), w) | (Inr _, w) \<Rightarrow> (RoleDone status, w))"

definition delete_role_handler :: "user_env \<Rightarrow> string \<Rightarrow> user_world \<Rightarrow> role_answer \<times> user_world" where
  "delete_role_handler env s w = role_request env s 204 (delete_role env) w"

definition get_role_permissions_handler :: "user_env \<Rightarrow> string \<Rightarrow> user_world \<Rightarrow> role_answer" where
  "get_role_permissions_handler env s w =
     with_id env s (refused 400)
       (\<lambda>r. case get_role_by_id env r w of
           Inl e \<Rightarrow> RoleFailed (failure e)
         | Inr v \<Rightarrow> GrantsShown (ro_name (rv_role v)) (rv_permissions v))"

definition assign_role_permissions_handler ::
  "user_env \<Rightarrow> string \<Rightarrow> uuid list option \<Rightarrow> user_world \<Rightarrow> role_answer \<times> user_world" where
  "assign_role_permissions_handler env s body w =
     with_id env s (refused 400, w)
       (\<lambda>_. case body of
           None \<Rightarrow> (refused 400, w)
         | Some ps \<Rightarrow> role_request env s 204 (\<lambda>r. assign_role_permissions env r ps) w)"

definition add_role_permission_handler :: "user_env \<Rightarrow> string \<Rightarrow> string \<Rightarrow> user_world \<Rightarrow> role_answer \<times> user_world" where
  "add_role_permission_handler env s t w =
     with_id env s (refused 400, w)
       (\<lambda>_. with_id env t (refused 400, w) (\<lambda>p. role_request env s 200 (\<lambda>r. add_role_permission env r p) w))"

definition remove_role_permission_handler :: "user_env \<Rightarrow> string \<Rightarrow> string \<Rightarrow> user_world \<Rightarrow> role_answer \<times> user_world" where
  "remove_role_permission_handler env s t w =
     with_id env s (refused 400, w)
       (\<lambda>_. with_id env t (refused 400, w) (\<lambda>p. role_request env s 204 (\<lambda>r. remove_role_permission env r p) w))"

definition get_role_users_handler :: "user_env \<Rightarrow> string \<Rightarrow> user_world \<Rightarrow> role_answer" where
  "get_role_users_handler env s w =
     with_id env s (refused 400) (\<lambda>r. case get_role_users env r w of Inl e \<Rightarrow> RoleFailed (failure e) | Inr us \<Rightarrow> RoleUsers us)"

record permission_query =
  pr_search :: string
  pr_resource :: string
  pr_action :: string
  pr_limit :: string
  pr_offset :: string
  pr_sort :: string
  pr_direction :: string

definition permission_filter_of :: "permission_query \<Rightarrow> permission_filter" where
  "permission_filter_of q =
     \<lparr>pf_search = pr_search q, pf_resource = pr_resource q, pf_action = pr_action q, pf_limit = number_or 50 (pr_limit q),
      pf_offset = number_or 0 (pr_offset q), pf_sort = pr_sort q, pf_direction = pr_direction q\<rparr>"

definition get_permissions_handler :: "user_env \<Rightarrow> permission_query \<Rightarrow> user_world \<Rightarrow> role_answer" where
  "get_permissions_handler env q w =
     (case get_permissions env (permission_filter_of q) w of
        Inl _ \<Rightarrow> refused 500
      | Inr (ps, n) \<Rightarrow> PermissionsListed ps n (pf_limit (permission_filter_of q)) (pf_offset (permission_filter_of q)))"

definition create_permission_handler :: "user_env \<Rightarrow> permission_row option \<Rightarrow> user_world \<Rightarrow> role_answer \<times> user_world" where
  "create_permission_handler env body w =
     (case body of
        None \<Rightarrow> (refused 400, w)
      | Some p \<Rightarrow>
          if pe_name p = [] \<or> pe_resource p = [] \<or> pe_action p = [] then (refused 400, w)
          else case create_permission env p w of
            (Inl DuplicateKey, w) \<Rightarrow> (refused 409, w)
          | (Inl _, w) \<Rightarrow> (refused 500, w)
          | (Inr p, w) \<Rightarrow> (PermissionShown p, w))"

definition get_resources_handler :: "user_env \<Rightarrow> user_world \<Rightarrow> role_answer" where
  "get_resources_handler env w = (case get_resources_and_actions env w of Inl _ \<Rightarrow> refused 500 | Inr rs \<Rightarrow> ResourcesListed rs)"

section \<open>All requests together\<close>

text \<open>
  What any request on users, roles and permissions does to the tables, in the environment of its time; the
  requests that only read leave them alone.
\<close>

datatype access_request =
    CreateUser gin_context "account option"
  | UpdateUser string "(string \<times> json_arg) list option"
  | DeleteUser string
  | AssignRole string "(uuid \<times> uuid) option"
  | RemoveRole string string
  | InviteUser "invite_request option"
  | AcceptInvite string string string
  | Login jwt_auth caller string string user_env
  | ChangePassword gin_context string string
  | CreateRole gin_context "role_row option"
  | UpdateRole string "(string \<times> json_arg) list option"
  | DeleteRole string
  | AssignPermissions string "uuid list option"
  | AddPermission string string
  | RemovePermission string string
  | CreatePermission "permission_row option"

fun access_respond :: "user_env \<times> access_request \<Rightarrow> user_world \<Rightarrow> user_world" where
  "access_respond (env, CreateUser ctx body) w = snd (create_user_handler env ctx body w)"
| "access_respond (env, UpdateUser s body) w = snd (update_user_handler env s body w)"
| "access_respond (env, DeleteUser s) w = snd (delete_user_handler env s w)"
| "access_respond (env, AssignRole s body) w = snd (assign_role_handler env s body w)"
| "access_respond (env, RemoveRole s t) w = snd (remove_role_handler env s t w)"
| "access_respond (env, InviteUser body) w = snd (invite_user_handler env body w)"
| "access_respond (env, AcceptInvite token name password) w = snd (accept_invite env token name password w)"
| "access_respond (env, Login auth c name password env') w = snd (login env env' auth c name password w)"
| "access_respond (env, ChangePassword ctx current new) w = snd (change_password env ctx current new w)"
| "access_respond (env, CreateRole ctx body) w = snd (create_role_handler env ctx body w)"
| "access_respond (env, UpdateRole s body) w = snd (update_role_handler env s body w)"
| "access_respond (env, DeleteRole s) w = snd (delete_role_handler env s w)"
| "access_respond (env, AssignPermissions s body) w = snd (assign_role_permissions_handler env s body w)"
| "access_respond (env, AddPermission s t) w = snd (add_role_permission_handler env s t w)"
| "access_respond (env, RemovePermission s t) w = snd (remove_role_permission_handler env s t w)"
| "access_respond (env, CreatePermission body) w = snd (create_permission_handler env body w)"

definition access_run :: "(user_env \<times> access_request) list \<Rightarrow> user_world \<Rightarrow> user_world" where
  "access_run rs w = fold access_respond rs w"

text \<open>Requests whose field names are names, so that their statements are the ones the code means.\<close>

fun plain_request :: "access_request \<Rightarrow> bool" where
  "plain_request (UpdateUser s (Some changes)) = list_all (column_name \<circ> fst) changes"
| "plain_request (UpdateRole s (Some changes)) = list_all (column_name \<circ> fst) changes"
| "plain_request _ = True"

section \<open>The elementary changes\<close>

text \<open>
  Every request is a sequence of changes of these kinds: of the users, the invitations and the audit log;
  of the assignments; of one role that is not the system's, or a new one; of the grants of such a role.
\<close>

definition same_roles :: "user_world \<Rightarrow> user_world \<Rightarrow> bool" where
  "same_roles w w' \<longleftrightarrow> uw_roles w' = uw_roles w \<and> uw_grants w' = uw_grants w"

definition ordinary :: "user_world \<Rightarrow> uuid \<Rightarrow> bool" where
  "ordinary w r \<longleftrightarrow> (\<exists>x. role_with_id w r = Some x \<and> ro_system x = Some False)"

inductive role_step :: "user_world \<Rightarrow> user_world \<Rightarrow> bool" where
  rs_same: "same_roles w w' \<Longrightarrow> role_step w w'"
| rs_create: "list_all (\<lambda>x. ro_id r \<noteq> ro_id x) (uw_roles w) \<Longrightarrow> uw_roles w' = uw_roles w @ [r] \<Longrightarrow> uw_grants w' = uw_grants w
    \<Longrightarrow> role_step w w'"
| rs_update: "ordinary w r \<Longrightarrow> uw_roles w' = change_where (\<lambda>x. ro_id x = r) f (uw_roles w) \<Longrightarrow> distinct (map ro_id (uw_roles w'))
    \<Longrightarrow> uw_grants w' = uw_grants w \<Longrightarrow> role_step w w'"
| rs_delete: "ordinary w r \<Longrightarrow> uw_roles w' = filter (\<lambda>x. ro_id x \<noteq> r) (uw_roles w)
    \<Longrightarrow> uw_grants w' = filter (\<lambda>g. gr_role g \<noteq> r) (uw_grants w) \<Longrightarrow> role_step w w'"
| rs_grants: "ordinary w r \<Longrightarrow> uw_roles w' = uw_roles w
    \<Longrightarrow> filter (\<lambda>g. gr_role g \<noteq> r) (uw_grants w') = filter (\<lambda>g. gr_role g \<noteq> r) (uw_grants w) \<Longrightarrow> role_step w w'"

lemma same_roles_refl [simp]: "same_roles w w"
  by (simp add: same_roles_def)

lemma insert_account_same: "same_roles w (snd (insert_account env a w))"
  by (auto simp: same_roles_def insert_account_def Let_def)

lemma assign_user_role_same: "same_roles w (snd (assign_user_role env u r tenant w))"
  by (auto simp: same_roles_def assign_user_role_def)

lemma remove_user_role_same: "same_roles w (snd (remove_user_role env u r w))"
  by (auto simp: same_roles_def remove_user_role_def Let_def)

lemma delete_user_same: "same_roles w (snd (delete_user env u w))"
  by (auto simp: same_roles_def delete_user_def)

lemma login_same: "same_roles w (snd (login env env' auth c name password w))"
proof -
  have "same_roles w (log_failed_login env c name reason tenant w)" and "same_roles w (log_login env env' c a w)" for reason tenant a
    by (auto simp: same_roles_def log_failed_login_def log_login_def split: prod.split sum.split)
  then show ?thesis by (auto simp: login_def Let_def split: sum.split user_error.split option.split)
qed

lemma update_user_same:
  "list_all (column_name \<circ> fst) changes \<Longrightarrow> same_roles w (snd (update_user env u changes w))"
  by (auto simp: update_user_def update_account_def store_accounts_def same_roles_def split: option.split)

lemma associate_same: "same_roles w (snd (associate_invite_roles env i rs tenant w))"
proof (induction rs arbitrary: w)
  case (Cons r rs)
  then show ?case by (auto simp: Let_def same_roles_def)
qed simp

lemma invite_user_same: "same_roles w (snd (invite_user env email f l roles by_user tenant w))"
proof -
  have "same_roles w w' \<Longrightarrow> same_roles w (snd (associate_invite_roles env i roles tenant w'))" for i w'
    using associate_same [of w' env i roles tenant] by (simp add: same_roles_def)
  moreover have "insert_invite env i w = Inr w' \<Longrightarrow> same_roles w w'" for i w'
    by (auto simp: insert_invite_def same_roles_def split: if_splits)
  ultimately show ?thesis
    by (auto simp: invite_user_def Let_def split_beta split: option.split sum.split)
qed

lemma accept_invite_same: "same_roles w (snd (accept_invite env token name password w))"
  using accept_invite_cases [of env token name password w "fst (accept_invite env token name password w)"
      "snd (accept_invite env token name password w)"]
  by (cases "snd (accept_invite env token name password w) = w") (auto simp: same_roles_def)

lemma change_password_same: "same_roles w (snd (change_password env ctx current new w))"
proof -
  have "same_roles w (snd (update_user env u [(''password_hash'', ArgText h)] w))" for u h
    by (rule update_user_same) code_simp
  then show ?thesis
    by (auto simp: change_password_def split_beta split: option.split ctx_value.split sum.split)
qed

lemmas handler_splits = option.split sum.split user_error.split ctx_value.split

lemma user_handlers_same:
  "same_roles w (snd (create_user_handler env ctx a w))" "same_roles w (snd (delete_user_handler env s w))"
  "same_roles w (snd (assign_role_handler env s b w))" "same_roles w (snd (remove_role_handler env s t w))"
  "same_roles w (snd (invite_user_handler env q w))"
  subgoal using insert_account_same by (auto simp: create_user_handler_def with_tenant_def split_beta split: handler_splits)
  subgoal using delete_user_same by (auto simp: delete_user_handler_def with_id_def split_beta split: handler_splits)
  subgoal using assign_user_role_same by (auto simp: assign_role_handler_def with_id_def split_beta split: handler_splits)
  subgoal using remove_user_role_same by (auto simp: remove_role_handler_def with_id_def split_beta split: handler_splits)
  subgoal using invite_user_same by (auto simp: invite_user_handler_def with_id_def split_beta split: handler_splits)
  done

lemma list_all_filter: "list_all P xs \<Longrightarrow> list_all P (filter Q xs)"
  by (auto simp: list_all_iff)

lemma update_user_handler_same:
  "plain_request (UpdateUser s body) \<Longrightarrow> same_roles w (snd (update_user_handler env s body w))"
  by (cases body)
    (auto simp: update_user_handler_def with_id_def split_beta split: handler_splits intro!: update_user_same list_all_filter)

section \<open>Role requests are steps\<close>

lemma on_ordinary:
  "on_ordinary_role env r w result = (x, w') \<Longrightarrow> w' \<noteq> w \<Longrightarrow> ordinary w r \<and> result = (x, w')"
  by (auto simp: on_ordinary_role_def is_system_role_def ordinary_def split: if_splits option.splits sum.splits)

lemma all_pairs_distinct: "all_pairs (\<lambda>a b. \<not> same_role_key a b) rows \<Longrightarrow> distinct (map ro_id rows)"
  by (induction rows) (auto simp: list_all_iff same_role_key_def)

lemma update_role_step:
  assumes "list_all (column_name \<circ> fst) changes" and "update_role env r changes w = (x, w')"
  shows "role_step w w'"
proof (cases "w' = w")
  case False
  let ?changes = "filter (\<lambda>(f, _). f \<noteq> ''is_system_role'') changes"
  have ord: "ordinary w r" and upd: "update_role_row env r ?changes w = Some w'"
    using assms(2) False by (auto simp: update_role_def Let_def split: if_splits option.splits dest!: on_ordinary)
  have "list_all (column_name \<circ> fst) ?changes" using assms(1) by (rule list_all_filter)
  with upd obtain f where "store_roles (change_where (\<lambda>x. ro_id x = r) f (uw_roles w)) r w = Some w'"
    by (auto simp: update_role_row_def split: if_splits option.splits)
  then have "uw_roles w' = change_where (\<lambda>x. ro_id x = r) f (uw_roles w)" "distinct (map ro_id (uw_roles w'))" "uw_grants w' = uw_grants w"
    by (auto simp: store_roles_def split: if_splits dest: all_pairs_distinct)
  with ord show ?thesis by (rule rs_update)
qed (simp add: rs_same)

lemma create_role_step: "create_role env r w = (x, w') \<Longrightarrow> role_step w w'"
  by (auto simp: create_role_def Let_def list_ex_iff list_all_iff same_role_key_def split: if_splits
      intro: rs_same rs_create [of "r\<lparr>ro_id := ue_id env, ro_created := Some (ue_now env), ro_updated := Some (ue_now env)\<rparr>"])

lemma delete_role_step: "delete_role env r w = (x, w') \<Longrightarrow> role_step w w'"
  by (auto simp: delete_role_def check_role_deletion_def perform_role_deletion_def is_system_role_def ordinary_def
      split: if_splits option.splits sum.splits intro: rs_same rs_delete [of w r])

lemma insert_grants_frame:
  "insert_grants env tenant r ps w = Some w' \<Longrightarrow>
     uw_roles w' = uw_roles w \<and> filter (\<lambda>g. gr_role g \<noteq> r) (uw_grants w') = filter (\<lambda>g. gr_role g \<noteq> r) (uw_grants w)"
  by (induction ps arbitrary: w) (fastforce simp: insert_grant_def bind_eq_Some_conv split: if_splits)+

lemma assign_permissions_step: "assign_role_permissions env r ps w = (x, w') \<Longrightarrow> role_step w w'"
proof (cases "w' = w")
  case False
  assume "assign_role_permissions env r ps w = (x, w')"
  from on_ordinary [OF this [unfolded assign_role_permissions_def] False] obtain tenant
    where ord: "ordinary w r" and ins: "insert_grants env tenant r ps (w\<lparr>uw_grants := filter (\<lambda>g. gr_role g \<noteq> r) (uw_grants w)\<rparr>) = Some w'"
    using False by (auto simp: with_role_tenant_def split: if_splits option.splits)
  show ?thesis using insert_grants_frame [OF ins] by (intro rs_grants [OF ord]) auto
qed (simp add: rs_same)

lemma add_permission_step: "add_role_permission env r p w = (x, w') \<Longrightarrow> role_step w w'"
proof (cases "w' = w")
  case False
  assume "add_role_permission env r p w = (x, w')"
  from on_ordinary [OF this [unfolded add_role_permission_def] False] show ?thesis
    using False by (auto simp: with_role_tenant_def insert_grant_def Let_def split: if_splits option.splits intro!: rs_grants [of w r])
qed (simp add: rs_same)

lemma remove_permission_step: "remove_role_permission env r p w = (x, w') \<Longrightarrow> role_step w w'"
proof (cases "w' = w")
  case False
  assume "remove_role_permission env r p w = (x, w')"
  from on_ordinary [OF this [unfolded remove_role_permission_def] False] show ?thesis
    using False by (auto simp: Let_def split: if_splits intro!: rs_grants [of w r] arg_cong [where f = "\<lambda>P. filter P xs" for xs])
qed (simp add: rs_same)

lemma role_request_step:
  "(\<And>r x w'. act r w = (x, w') \<Longrightarrow> role_step w w') \<Longrightarrow> role_step w (snd (role_request env s status act w))"
  by (auto simp: role_request_def with_id_def intro: rs_same split: handler_splits prod.split)

lemma respond_step:
  assumes "plain_request r"
  shows "role_step w (access_respond (env, r) w)"
proof (cases r)
  case (UpdateUser s body)
  then show ?thesis using update_user_handler_same [of s body w env] assms by (auto intro: rs_same)
next
  case (CreateRole ctx body)
  then show ?thesis
    using create_role_step by (auto simp: create_role_handler_def with_tenant_def intro: rs_same split: handler_splits prod.split)
next
  case (UpdateRole s body)
  show ?thesis
  proof (cases body)
    case (Some changes)
    then have "list_all (column_name \<circ> fst) (filter (\<lambda>(f, _). f \<notin> {''id'', ''created_at'', ''is_system_role''}) changes)"
      using assms UpdateRole by (simp add: list_all_filter)
    from update_role_step [OF this] show ?thesis using UpdateRole Some
      by (auto simp: update_role_handler_def with_id_def intro: rs_same split: handler_splits prod.split)
  qed (use UpdateRole in \<open>auto simp: update_role_handler_def with_id_def intro: rs_same split: handler_splits prod.split\<close>)
next
  case (DeleteRole s)
  then show ?thesis using delete_role_step by (auto simp: delete_role_handler_def intro!: role_request_step)
next
  case (AssignPermissions s body)
  then show ?thesis using assign_permissions_step
    by (cases body) (auto simp: assign_role_permissions_handler_def with_id_def intro: rs_same intro!: role_request_step split: option.split)
next
  case (AddPermission s t)
  then show ?thesis using add_permission_step
    by (auto simp: add_role_permission_handler_def with_id_def intro: rs_same intro!: role_request_step split: option.split)
next
  case (RemovePermission s t)
  then show ?thesis using remove_permission_step
    by (auto simp: remove_role_permission_handler_def with_id_def intro: rs_same intro!: role_request_step split: option.split)
next
  case (CreatePermission body)
  then show ?thesis by (auto simp: create_permission_handler_def create_permission_def intro: rs_same split: option.split)
qed (simp_all add: rs_same user_handlers_same login_same accept_invite_same change_password_same)

section \<open>What requests keep\<close>

lemma ordinary_other:
  assumes "ordinary w q" and "distinct (map ro_id (uw_roles w))" and "r \<in> set (uw_roles w)" and "ro_system r = Some True"
  shows "ro_id r \<noteq> q"
proof
  assume q: "ro_id r = q"
  from assms(1) obtain x where "x \<in> set (uw_roles w)" "ro_id x = q" "ro_system x = Some False"
    by (auto simp: ordinary_def role_with_id_def dest!: find_SomeD)
  then show False using assms(2-4) q by (metis distinct_map inj_onD option.inject)
qed

lemma other_grants:
  "filter (\<lambda>g. gr_role g \<noteq> q) (gs' :: grant list) = filter (\<lambda>g. gr_role g \<noteq> q) gs \<Longrightarrow> i \<noteq> q \<Longrightarrow>
     filter (\<lambda>g. gr_role g = i) gs' = filter (\<lambda>g. gr_role g = i) gs"
proof -
  assume *: "filter (\<lambda>g. gr_role g \<noteq> q) gs' = filter (\<lambda>g. gr_role g \<noteq> q) gs" and i: "i \<noteq> q"
  have part: "filter (\<lambda>g. gr_role g = i) xs = filter (\<lambda>g. gr_role g = i) (filter (\<lambda>g. gr_role g \<noteq> q) xs)" for xs :: "grant list"
    using i by (induction xs) auto
  show ?thesis unfolding part [of gs'] part [of gs] * ..
qed

definition keeps_role :: "role_row \<Rightarrow> user_world \<Rightarrow> user_world \<Rightarrow> bool" where
  "keeps_role r w w' \<longleftrightarrow> distinct (map ro_id (uw_roles w')) \<and> r \<in> set (uw_roles w')
     \<and> filter (\<lambda>g. gr_role g = ro_id r) (uw_grants w') = filter (\<lambda>g. gr_role g = ro_id r) (uw_grants w)"

lemma role_step_keeps:
  assumes "role_step w w'" and "distinct (map ro_id (uw_roles w))" and "r \<in> set (uw_roles w)" and "ro_system r = Some True"
  shows "keeps_role r w w'"
  using assms(1)
proof cases
  case rs_same
  then show ?thesis using assms by (simp add: keeps_role_def same_roles_def)
next
  case (rs_create q)
  then show ?thesis using assms by (auto simp: keeps_role_def list_all_iff)
next
  case (rs_update q f)
  with ordinary_other [OF rs_update(1) assms(2-4)] assms show ?thesis
    by (auto simp: keeps_role_def set_change_where intro: rev_image_eqI)
next
  case (rs_delete q)
  have "filter (\<lambda>g. gr_role g = ro_id r) (uw_grants w') = filter (\<lambda>g. gr_role g = ro_id r) (uw_grants w)"
    by (rule other_grants [of q]) (use rs_delete ordinary_other [OF rs_delete(1) assms(2-4)] in simp_all)
  with rs_delete ordinary_other [OF rs_delete(1) assms(2-4)] assms(2,3) show ?thesis
    by (simp add: keeps_role_def distinct_map_filter)
next
  case (rs_grants q)
  with other_grants [OF rs_grants(3) ordinary_other [OF rs_grants(1) assms(2-4)]] assms(2,3) show ?thesis
    by (simp add: keeps_role_def)
qed


lemma concat_filter_nil:
  "(\<And>x. x \<in> set xs \<Longrightarrow> \<not> P x \<Longrightarrow> h x = []) \<Longrightarrow> concat (map h (filter P xs)) = concat (map h xs)"
  by (induction xs) auto

lemma unused_role:
  "role_user_count w r = 0 \<Longrightarrow> user_is_active w u \<Longrightarrow> g \<in> set (uw_assignments w) \<Longrightarrow> ga_role g = r \<Longrightarrow> ga_user g \<noteq> u"
  by (auto simp: role_user_count_def filter_empty_conv)

text \<open>
  C37: Deleting a role takes no role and no permission from an active user, and leaves no assignment, grant or
  invitation that names it.
\<close>

theorem role_deletion_keeps_active_permissions:
  assumes "delete_role env r w = (Inr (), w')"
  shows "(\<forall>u. user_is_active w u \<longrightarrow> roles_of w' u = roles_of w u \<and> permissions_of w' u = permissions_of w u)
    \<and> role_with_id w' r = None \<and> \<not> role_referenced w' r \<and> uw_users w' = uw_users w"
proof -
  have unused: "role_user_count w r = 0"
    and w': "w' = w\<lparr>uw_roles := filter (\<lambda>x. ro_id x \<noteq> r) (uw_roles w), uw_grants := filter (\<lambda>g. gr_role g \<noteq> r) (uw_grants w),
              uw_assignments := filter (\<lambda>g. ga_role g \<noteq> r) (uw_assignments w),
              uw_invite_roles := filter (\<lambda>i. ir_role i \<noteq> r) (uw_invite_roles w)\<rparr>"
    using assms by (auto simp: delete_role_def check_role_deletion_def perform_role_deletion_def split: if_splits option.splits sum.splits)
  have "roles_of w' u = roles_of w u \<and> permissions_of w' u = permissions_of w u" if active: "user_is_active w u" for u
  proof -
    have mine: "ga_role g \<noteq> r" if "g \<in> set (uw_assignments w)" "ga_user g = u" for g
      using unused_role [OF unused active that(1)] that(2) by blast
    let ?held = "\<lambda>w x. filter (\<lambda>g. ga_role g = ro_id x \<and> ga_user g = u) (uw_assignments w)"
    have held: "?held w' x = ?held w x" for x
      unfolding w' using mine by (auto intro!: filter_cong)
    have "?held w x = []" if "\<not> ro_id x \<noteq> r" for x
      using mine that by (auto simp: filter_empty_conv)
    then have "concat (map (\<lambda>x. map (\<lambda>_. x) (?held w x)) (filter (\<lambda>x. ro_id x \<noteq> r) (uw_roles w)))
        = concat (map (\<lambda>x. map (\<lambda>_. x) (?held w x)) (uw_roles w))"
      by (intro concat_filter_nil) (simp only: map_is_Nil_conv)
    moreover have "uw_roles w' = filter (\<lambda>x. ro_id x \<noteq> r) (uw_roles w)" by (simp add: w')
    ultimately have "roles_of w' u = roles_of w u" unfolding roles_of_def held by simp
    moreover have "permitted w' u = permitted w u"
      unfolding w' using mine by (fastforce simp: permitted_def list_ex_iff)
    then have "permissions_of w' u = permissions_of w u" by (simp add: permissions_of_def w')
    ultimately show ?thesis ..
  qed
  moreover have "role_with_id w' r = None" "\<not> role_referenced w' r" "uw_users w' = uw_users w"
    by (auto simp: w' role_with_id_def role_referenced_def list_ex_iff find_None_iff)
  ultimately show ?thesis by blast
qed

lemma insert_grants_done:
  "insert_grants env tenant r ps w = Some w' \<Longrightarrow>
     distinct ps \<and> w' = w\<lparr>uw_grants := uw_grants w @ map (\<lambda>p. \<lparr>gr_tenant = tenant, gr_role = r, gr_permission = p\<rparr>) ps\<rparr>
     \<and> set ps \<subseteq> pe_id ` set (uw_permissions w)
     \<and> (\<forall>p \<in> set ps. \<lparr>gr_tenant = tenant, gr_role = r, gr_permission = p\<rparr> \<notin> set (uw_grants w))"
  by (induction ps arbitrary: w) (fastforce simp: insert_grant_def bind_eq_Some_conv split: if_splits)+

text \<open>
  Assigning permissions to a role replaces them as a whole: either the role grants just the permissions
  given, each once, in its own tenant, and every other role what it did, or nothing has changed.
\<close>

theorem permissions_replaced_as_a_whole:
  assumes "assign_role_permissions env r ps w = (result, w')"
  shows "case result of
      Inl _ \<Rightarrow> w' = w
    | Inr _ \<Rightarrow> (\<exists>x. role_with_id w r = Some x \<and> ro_system x = Some False \<and> distinct ps
         \<and> uw_grants w' = filter (\<lambda>g. gr_role g \<noteq> r) (uw_grants w)
             @ map (\<lambda>p. \<lparr>gr_tenant = ro_tenant x, gr_role = r, gr_permission = p\<rparr>) ps
         \<and> set ps \<subseteq> pe_id ` set (uw_permissions w) \<and> uw_roles w' = uw_roles w)"
proof (cases result)
  case (Inl e)
  then show ?thesis using assms
    by (auto simp: assign_role_permissions_def on_ordinary_role_def with_role_tenant_def
        split: if_splits option.splits sum.splits)
next
  case (Inr u)
  then show ?thesis using assms
    by (auto simp: assign_role_permissions_def on_ordinary_role_def is_system_role_def with_role_tenant_def
        split: if_splits option.splits sum.splits dest!: insert_grants_done)
qed

text \<open>The field that makes a system role, written with a capital, passes both filters.\<close>

lemma letter_case_makes_system_role:
  assumes "is_system_role env r w = Inr False"
  shows "update_role env r (filter (\<lambda>(f, _). f \<notin> {''id'', ''created_at'', ''is_system_role''}) [(''Is_System_Role'', v)]) w
    = (case update_role_row env r [(''Is_System_Role'', v)] w of
         None \<Rightarrow> (Inl RoleUpdateFailed, w)
       | Some w \<Rightarrow> (get_role_by_id_simple env r w, w))"
  using assms by (simp add: update_role_def on_ordinary_role_def)

section \<open>The routes\<close>

text \<open>A request of the API: the token decides whose it is; nothing looks at the role of the caller.\<close>

definition auth_values :: "http_auth \<Rightarrow> gin_context" where
  "auth_values a = [''user_id'' \<mapsto> CtxId (ha_user_id a), ''tenant_id'' \<mapsto> CtxId (ha_tenant_id a)]"

definition protected_request ::
  "auth_env \<Rightarrow> jwt_auth \<Rightarrow> string \<Rightarrow> (gin_context \<Rightarrow> user_env \<times> access_request) \<Rightarrow> user_world \<Rightarrow> user_world gin_state" where
  "protected_request env auth header request w =
     gin_serve (gin_require_auth env auth header)
       (\<lambda>c. case gs_auth c of None \<Rightarrow> c | Some a \<Rightarrow> c\<lparr>gs_world := access_respond (request (auth_values a)) (gs_world c)\<rparr>) w"

lemma protected_request_answer:
  "protected_request env auth header request w =
     (case require_auth env auth header of
        Inl e \<Rightarrow> \<lparr>gs_auth = None, gs_past = True, gs_aborted = True, gs_refusals = [e], gs_world = w\<rparr>
      | Inr a \<Rightarrow> \<lparr>gs_auth = Some a, gs_past = True, gs_aborted = False, gs_refusals = [],
                   gs_world = access_respond (request (auth_values a)) w\<rparr>)"
  by (simp add: protected_request_def gin_serve_def gin_require_auth_def gin_next_def gin_abort_def split: sum.split)

lemma holds_admin_role_if:
  "r \<in> set (uw_roles w) \<Longrightarrow> ro_name r = ''admin'' \<Longrightarrow> (tenant, u, ro_id r) \<in> assigned w \<Longrightarrow> holds_admin_role w u"
  by (auto simp: holds_admin_role_def assigned_def intro!: bexI [of _ r])

text \<open>Anybody who has logged in can give himself the administrator's role of his tenant.\<close>

lemma any_user_becomes_admin:
  assumes "login env env' auth c name password w = (LoggedIn token a, w')" and "jwt_laws (au_jwt (ue_tokens env))"
    and "au_jwt env2 = au_jwt (ue_tokens env)" and "au_now (ue_tokens env) \<le> au_now env2"
    and "au_now env2 < au_now (ue_tokens env) + 24 * hour"
    and "au_parse_uuid env2 (us_id a) = Some (us_id a)" and "au_parse_uuid env2 (us_tenant a) = Some (us_tenant a)"
    and "r \<in> set (uw_roles w)" and "ro_name r = ''admin''" and "ro_id r \<noteq> uuid_nil"
    and "us_tenant a \<in> set (uw_tenants w)" and "us_tenant a \<noteq> uuid_nil"
    and "ue_exec_ok e" and "ue_uuid e s = Some (us_id a)"
  shows "holds_admin_role (gs_world (protected_request env2 auth (''Bearer '' @ token)
      (\<lambda>_. (e, AssignRole s (Some (ro_id r, us_tenant a)))) w')) (us_id a)"
proof -
  from login_cases [OF assms(1)] obtain v where v: "get_user_by_username env name w = Inr v" "uv_account v = a"
    and w': "w' = log_login env env' c a w"
    and token: "generate_token (ue_tokens env) auth (us_id a) (us_tenant a) (us_username a) (us_email a) (is_admin v) = Some token"
    by blast
  have a: "a \<in> set (uw_users w)"
    using read_user_found(1) [OF v(1) [unfolded get_user_by_username_def]] v(2) by (auto dest!: find_SomeD)
  obtain x where auth: "require_auth env2 auth (''Bearer '' @ token) = Inr x"
    using token assms(2-7)
    by (auto simp: require_auth_def bearer_def has_prefix_def validate_token_def generate_token_def jwt_laws_def)
  have tables: "uw_roles w' = uw_roles w" "uw_users w' = uw_users w" "uw_tenants w' = uw_tenants w"
    unfolding w' by (subst log_login_frame; simp)+
  then have "assign_user_role e (us_id a) (ro_id r) (us_tenant a) w'
      = (Inr (), snd (assign_user_role e (us_id a) (ro_id r) (us_tenant a) w'))"
    using a assms(8,11,13) by (auto simp: assign_user_role_def)
  from assign_user_role_done [OF this]
  have "holds_admin_role (snd (assign_user_role e (us_id a) (ro_id r) (us_tenant a) w')) (us_id a)"
    using assms(8,9) tables(1) by (intro holds_admin_role_if [of r _ "us_tenant a"]) auto
  then show ?thesis using auth assms(10,12,14)
    by (simp add: protected_request_answer assign_role_handler_def with_id_def split_beta split: sum.split)
qed

section \<open>Examples\<close>

definition reader_role :: role_row where
  "reader_role = admin_role\<lparr>ro_id := ''g'', ro_name := ''reader'', ro_system := Some False\<rparr>"

definition read_permission :: permission_row where
  "read_permission = \<lparr>pe_id = ''p'', pe_tenant = ''t'', pe_name = ''read'', pe_resource = ''artifact'',
     pe_action = ''read'', pe_description = None, pe_created = Some 0\<rparr>"

definition example_roles :: user_world where
  "example_roles = example_users\<lparr>uw_roles := [admin_role, reader_role], uw_permissions := [read_permission],
     uw_grants := [\<lparr>gr_tenant = ''t'', gr_role = ''r'', gr_permission = ''p''\<rparr>]\<rparr>"


lemma role_deletion_keeps_active_permissions_witness:
  "permissions_of (snd (delete_role (example_user_env 1 ''a'') ''g'' example_roles)) ''u'' = [read_permission]"
proof -
  let ?d = "delete_role (example_user_env 1 ''a'') ''g'' example_roles"
  have "fst ?d = Inr ()" by code_simp
  then have "?d = (Inr (), snd ?d)" by (metis prod.collapse)
  moreover have "user_is_active example_roles ''u''" by code_simp
  moreover have "permissions_of example_roles ''u'' = [read_permission]" by code_simp
  ultimately show ?thesis using role_deletion_keeps_active_permissions [of "example_user_env 1 ''a''" "''g''" example_roles] by metis
qed

lemma permissions_replaced_as_a_whole_witness:
  "filter (\<lambda>g. gr_role g = ''g'') (uw_grants (snd (assign_role_permissions (example_user_env 1 ''a'') ''g'' [''p''] example_roles)))
     = [\<lparr>gr_tenant = ''t'', gr_role = ''g'', gr_permission = ''p''\<rparr>]"
proof -
  let ?a = "assign_role_permissions (example_user_env 1 ''a'') ''g'' [''p''] example_roles"
  have "fst ?a = Inr ()" by code_simp
  then have "?a = (Inr (), snd ?a)" by (metis prod.collapse)
  moreover have "role_with_id example_roles ''g'' = Some reader_role" "ro_tenant reader_role = ''t''" by code_simp+
  ultimately show ?thesis
    using permissions_replaced_as_a_whole [of "example_user_env 1 ''a''" "''g''" "[''p'']" example_roles "Inr ()" "snd ?a"] by auto
qed

end
