(* ===== verification/ManagedKeys.thy ===== *)
theory ManagedKeys
  imports Roles Envelope
begin

text \<open>
  The API keys that users manage themselves (internal/service/api_key_management_service.go) and the
  requests for them (internal/handlers/api_key_management_handler.go), over the tables of
  internal/database/migrations.go.
\<close>

section \<open>Data\<close>

record managed_key =
  mk_id :: uuid
  mk_tenant :: uuid
  mk_user :: uuid
  mk_name :: string
  mk_description :: string
  mk_hash :: string
  mk_prefix :: string
  mk_scopes :: "string list"
  mk_active :: bool
  mk_last_used :: "time option"
  mk_last_ip :: "string option"
  mk_count :: nat
  mk_per_hour :: int
  mk_per_day :: int
  mk_expires :: "time option"
  mk_created :: time
  mk_updated :: time

record api_scope =
  sc_id :: uuid
  sc_tenant :: uuid
  sc_name :: string
  sc_description :: "string option"
  sc_resource :: string
  sc_actions :: "string list"
  sc_default :: "bool option"
  sc_created :: "time option"

record key_world =
  kw_keys :: "managed_key list"
  kw_scopes :: "api_scope list"

text \<open>
  The environment of a request: clock, the identifier and the secret that are generated, SHA-256, which
  statements reach the database, its syntax of identifiers and addresses, the tenants and the users it
  holds, its orders, and the function that counts the uses of a key in a window, which the migrations do
  not create: for the database they make, \<open>me_rate\<close> is \<open>None\<close> everywhere.
\<close>

record managed_env =
  me_now :: time
  me_key_id :: string
  me_secret :: "bytes option"
  me_sha :: "bytes \<Rightarrow> bytes"
  me_tx_ok :: bool
  me_query_ok :: bool
  me_exec_ok :: bool
  me_commit_ok :: bool
  me_uuid :: "string \<Rightarrow> uuid option"
  me_inet :: "string \<Rightarrow> bool"
  me_tenants :: "uuid list"
  me_user :: "uuid \<Rightarrow> string option"
  me_order :: "string \<Rightarrow> bool \<Rightarrow> managed_key list \<Rightarrow> managed_key list option"
  me_rate :: "uuid \<Rightarrow> string \<Rightarrow> int \<Rightarrow> bool option"
  me_time :: "string \<Rightarrow> time option"

datatype managed_error =
    SecretFailed | KeyTxFailed | KeyRowRefused | KeyTaken | KeyCommitFailed | KeyStatementFailed | BadKeyId | NoSuchKey
  | KeyMalformed | KeyUnusable | RateCheckFailed | ScopesUnreadable | AnalyticsUnavailable | UsageNotLogged

section \<open>Keys\<close>

definition hash_key :: "managed_env \<Rightarrow> string \<Rightarrow> string" where
  "hash_key env key = hex_encode (me_sha env (bytes_of key))"

text \<open>The limits are 32-bit columns; a user and a tenant must exist.\<close>

definition key_fits :: "managed_env \<Rightarrow> managed_key \<Rightarrow> bool" where
  "key_fits env k \<longleftrightarrow>
     mk_tenant k \<in> set (me_tenants env) \<and> me_user env (mk_user k) \<noteq> None \<and> text_length (mk_name k) \<le> 255
     \<and> length (mk_hash k) \<le> 128 \<and> length (mk_prefix k) \<le> 16 \<and> mk_per_hour k < 2 ^ 31 \<and> mk_per_day k < 2 ^ 31"

text \<open>The answer holds the row and the text of the key, which is not stored.\<close>

definition create_managed_key ::
  "managed_env \<Rightarrow> uuid \<Rightarrow> uuid \<Rightarrow> string \<Rightarrow> string \<Rightarrow> string list \<Rightarrow> time option \<Rightarrow> int \<Rightarrow> int \<Rightarrow> key_world
     \<Rightarrow> (managed_error + managed_key \<times> string) \<times> key_world" where
  "create_managed_key env user tenant name description scopes expires per_hour per_day w =
     (case me_secret env of
        None \<Rightarrow> (Inl SecretFailed, w)
      | Some secret \<Rightarrow>
          let full = me_key_id env @ '':'' @ hex_encode secret
          in if \<not> me_tx_ok env then (Inl KeyTxFailed, w)
             else case me_uuid env (me_key_id env) of
               None \<Rightarrow> (Inl BadKeyId, w)
             | Some i \<Rightarrow>
                 let k = \<lparr>mk_id = i, mk_tenant = tenant, mk_user = user, mk_name = name, mk_description = description,
                          mk_hash = hash_key env full, mk_prefix = take 8 (me_key_id env), mk_scopes = scopes, mk_active = True,
                          mk_last_used = None, mk_last_ip = None, mk_count = 0, mk_per_hour = per_hour, mk_per_day = per_day,
                          mk_expires = expires, mk_created = me_now env, mk_updated = me_now env\<rparr>
                 in if \<not> me_exec_ok env \<or> \<not> key_fits env k then (Inl KeyRowRefused, w)
                    else if list_ex (\<lambda>x. mk_id x = i \<or> mk_hash x = mk_hash k) (kw_keys w) then (Inl KeyTaken, w)
                    else if \<not> me_commit_ok env then (Inl KeyCommitFailed, w)
                    else (Inr (k, full), w\<lparr>kw_keys := kw_keys w @ [k]\<rparr>))"

record key_filter =
  kf_user :: "uuid option"
  kf_tenant :: "uuid option"
  kf_search :: string
  kf_active :: "bool option"
  kf_scopes :: "string list"
  kf_limit :: int
  kf_offset :: int
  kf_sort :: string
  kf_direction :: string

definition key_matches :: "key_filter \<Rightarrow> managed_key \<Rightarrow> bool" where
  "key_matches f k \<longleftrightarrow>
     given (kf_user f) (\<lambda>u. mk_user k = u) \<and> given (kf_tenant f) (\<lambda>t. mk_tenant k = t)
     \<and> search_filter (kf_search f) [Some (mk_name k), Some (mk_description k)] \<and> given (kf_active f) (\<lambda>b. mk_active k = b)
     \<and> (kf_scopes f = [] \<or> list_ex (\<lambda>s. s \<in> set (kf_scopes f)) (mk_scopes k))"

text \<open>A key with the name of its user.\<close>

definition named_key :: "managed_env \<Rightarrow> managed_key \<Rightarrow> (managed_key \<times> string) option" where
  "named_key env k = map_option (Pair k) (me_user env (mk_user k))"

definition get_managed_keys :: "managed_env \<Rightarrow> key_filter \<Rightarrow> key_world \<Rightarrow> managed_error + (managed_key \<times> string) list \<times> nat" where
  "get_managed_keys env f w =
     (let found = filter (key_matches f) (kw_keys w)
      in if \<not> me_query_ok env then Inl KeyStatementFailed
         else case sorted_rows (me_order env) (newest mk_created) (kf_sort f) (kf_direction f) found of
           None \<Rightarrow> Inl KeyStatementFailed
         | Some rows \<Rightarrow>
             (case those (map (named_key env) (take (nat (bounded_limit 50 100 (kf_limit f))) (drop (nat (max 0 (kf_offset f))) rows))) of
                None \<Rightarrow> Inl KeyStatementFailed
              | Some ks \<Rightarrow> Inr (ks, length found)))"

definition managed_row :: "uuid \<Rightarrow> key_world \<Rightarrow> managed_key option" where
  "managed_row i w = find (\<lambda>k. mk_id k = i) (kw_keys w)"

definition get_managed_key :: "managed_env \<Rightarrow> string \<Rightarrow> key_world \<Rightarrow> managed_error + managed_key \<times> string" where
  "get_managed_key env s w =
     (if \<not> me_query_ok env then Inl KeyStatementFailed
      else case me_uuid env s of
        None \<Rightarrow> Inl BadKeyId
      | Some i \<Rightarrow>
          (case managed_row i w of
             None \<Rightarrow> Inl NoSuchKey
           | Some k \<Rightarrow> (case named_key env k of None \<Rightarrow> Inl KeyStatementFailed | Some x \<Rightarrow> Inr x)))"

definition key_usable :: "managed_env \<Rightarrow> managed_key \<Rightarrow> bool" where
  "key_usable env k \<longleftrightarrow> mk_active k \<and> (case mk_expires k of None \<Rightarrow> True | Some t \<Rightarrow> me_now env < t)"

definition validate_managed_key :: "managed_env \<Rightarrow> string \<Rightarrow> key_world \<Rightarrow> managed_error + managed_key \<times> string" where
  "validate_managed_key env s w =
     (let parts = split_on CHR '':'' s
      in if length parts \<noteq> 2 then Inl KeyMalformed
         else if \<not> me_query_ok env then Inl KeyStatementFailed
         else case me_uuid env (hd parts) of
           None \<Rightarrow> Inl BadKeyId
         | Some i \<Rightarrow>
             (case find (\<lambda>k. mk_id k = i \<and> mk_hash k = hash_key env s \<and> key_usable env k) (kw_keys w) of
                None \<Rightarrow> Inl KeyUnusable
              | Some k \<Rightarrow> (case named_key env k of None \<Rightarrow> Inl KeyStatementFailed | Some x \<Rightarrow> Inr x)))"

definition touch_key :: "managed_env \<Rightarrow> string \<Rightarrow> managed_key \<Rightarrow> managed_key" where
  "touch_key env ip k =
     k\<lparr>mk_last_used := Some (me_now env), mk_last_ip := Some ip, mk_count := mk_count k + 1, mk_updated := me_now env\<rparr>"

definition update_key_usage :: "managed_env \<Rightarrow> uuid \<Rightarrow> string \<Rightarrow> key_world \<Rightarrow> (managed_error + unit) \<times> key_world" where
  "update_key_usage env i ip w =
     (if \<not> me_exec_ok env \<or> \<not> me_inet env ip then (Inl KeyStatementFailed, w)
      else (Inr (), w\<lparr>kw_keys := change_where (\<lambda>k. mk_id k = i) (touch_key env ip) (kw_keys w)\<rparr>))"

definition check_rate_limit_window :: "managed_env \<Rightarrow> uuid \<Rightarrow> string \<Rightarrow> int \<Rightarrow> managed_error + bool" where
  "check_rate_limit_window env i window l = (case me_rate env i window l of None \<Rightarrow> Inl RateCheckFailed | Some b \<Rightarrow> Inr b)"

definition check_rate_limit :: "managed_env \<Rightarrow> managed_key \<Rightarrow> managed_error + bool" where
  "check_rate_limit env k =
     (case check_rate_limit_window env (mk_id k) ''hour'' (mk_per_hour k) of
        Inl e \<Rightarrow> Inl e
      | Inr ok \<Rightarrow> if \<not> ok then Inr False else check_rate_limit_window env (mk_id k) ''day'' (mk_per_day k))"

text \<open>The reason is not kept.\<close>

definition revoke_managed_key :: "managed_env \<Rightarrow> string \<Rightarrow> string \<Rightarrow> key_world \<Rightarrow> (managed_error + unit) \<times> key_world" where
  "revoke_managed_key env s reason w =
     (if \<not> me_query_ok env then (Inl KeyStatementFailed, w)
      else case me_uuid env s of
        None \<Rightarrow> (Inl BadKeyId, w)
      | Some i \<Rightarrow>
          if managed_row i w = None then (Inl NoSuchKey, w)
          else if \<not> me_exec_ok env then (Inl KeyStatementFailed, w)
          else (Inr (), w\<lparr>kw_keys := change_where (\<lambda>k. mk_id k = i) (\<lambda>k. k\<lparr>mk_active := False, mk_updated := me_now env\<rparr>) (kw_keys w)\<rparr>))"

text \<open>The scopes of all tenants.\<close>

definition get_api_scopes :: "managed_env \<Rightarrow> key_world \<Rightarrow> managed_error + api_scope list" where
  "get_api_scopes env w =
     (if \<not> me_query_ok env \<or> list_ex (\<lambda>s. sc_default s = None \<or> sc_created s = None) (kw_scopes w) then Inl ScopesUnreadable
      else Inr (sort_key sc_resource (sort_key sc_name (kw_scopes w))))"

text \<open>
  Both statements name columns the usage table has not got (\<^verbatim>\<open>error_message\<close>, \<^verbatim>\<open>request_timestamp\<close>), and
  the first gives no tenant: they always fail.
\<close>

definition log_key_usage :: "managed_env \<Rightarrow> uuid \<Rightarrow> key_world \<Rightarrow> (managed_error + unit) \<times> key_world" where
  "log_key_usage env i w = (Inl UsageNotLogged, w)"

definition get_usage_analytics :: "managed_env \<Rightarrow> string \<Rightarrow> int \<Rightarrow> key_world \<Rightarrow> managed_error + unit" where
  "get_usage_analytics env s days w = Inl AnalyticsUnavailable"

section \<open>The requests\<close>

record key_query =
  kq_search :: string
  kq_user :: string
  kq_active :: string
  kq_scopes :: string
  kq_limit :: string
  kq_offset :: string
  kq_sort :: string
  kq_direction :: string

record key_body =
  kb_name :: string
  kb_description :: string
  kb_scopes :: "string list"
  kb_expires :: "string option"
  kb_per_hour :: int
  kb_per_day :: int

datatype key_answer =
    KeyFailed nat
  | KeyCreated managed_key string
  | KeyShown managed_key string
  | KeysListed "(managed_key \<times> string) list" nat int int
  | KeyDone nat
  | KeyValid managed_key
  | ScopesListed "api_scope list" "(string \<times> api_scope list) list"

definition key_filter_of :: "managed_env \<Rightarrow> uuid \<Rightarrow> key_query \<Rightarrow> key_filter" where
  "key_filter_of env tenant q =
     \<lparr>kf_user = (if kq_user q = [] then None else me_uuid env (kq_user q)), kf_tenant = Some tenant, kf_search = kq_search q,
      kf_active = (if kq_active q = [] then None else read_bool (kq_active q)),
      kf_scopes = (if kq_scopes q = [] then [] else split_on CHR '','' (kq_scopes q)),
      kf_limit = number_or 50 (kq_limit q), kf_offset = number_or 0 (kq_offset q), kf_sort = kq_sort q,
      kf_direction = kq_direction q\<rparr>"

definition get_keys_handler :: "managed_env \<Rightarrow> gin_context \<Rightarrow> key_query \<Rightarrow> key_world \<Rightarrow> key_answer" where
  "get_keys_handler env ctx q w =
     with_tenant ctx (KeyFailed 401) (KeyFailed 500)
       (\<lambda>tenant. let f = key_filter_of env tenant q
                 in case get_managed_keys env f w of
                      Inl _ \<Rightarrow> KeyFailed 500
                    | Inr (ks, n) \<Rightarrow> KeysListed ks n (kf_limit f) (kf_offset f))"

text \<open>What may be done with a key of the caller's tenant; other keys do not seem to exist.\<close>

definition with_own_key :: "managed_env \<Rightarrow> gin_context \<Rightarrow> string \<Rightarrow> key_world \<Rightarrow> (nat \<Rightarrow> 'a) \<Rightarrow> (managed_key \<Rightarrow> string \<Rightarrow> 'a) \<Rightarrow> 'a" where
  "with_own_key env ctx s w fail k =
     with_tenant ctx (fail 401) (fail 500)
       (\<lambda>tenant. if s = [] then fail 400
                 else case get_managed_key env s w of
                   Inl e \<Rightarrow> fail (if e = NoSuchKey then 404 else 500)
                 | Inr (x, name) \<Rightarrow> if mk_tenant x \<noteq> tenant then fail 404 else k x name)"

definition get_key_handler :: "managed_env \<Rightarrow> gin_context \<Rightarrow> string \<Rightarrow> key_world \<Rightarrow> key_answer" where
  "get_key_handler env ctx s w = with_own_key env ctx s w KeyFailed KeyShown"

definition create_key_handler :: "managed_env \<Rightarrow> gin_context \<Rightarrow> key_body option \<Rightarrow> key_world \<Rightarrow> key_answer \<times> key_world" where
  "create_key_handler env ctx body w =
     (case body of
        None \<Rightarrow> (KeyFailed 400, w)
      | Some b \<Rightarrow>
          if kb_name b = [] \<or> kb_scopes b = [] then (KeyFailed 400, w)
          else
            let per_hour = (if kb_per_hour b \<le> 0 then 1000 else kb_per_hour b);
                per_day = (if kb_per_day b \<le> 0 then 10000 else kb_per_day b);
                expires = (case kb_expires b of None \<Rightarrow> Some None | Some s \<Rightarrow> if s = [] then Some None else map_option Some (me_time env s))
            in case expires of
                 None \<Rightarrow> (KeyFailed 400, w)
               | Some expires \<Rightarrow>
                   (case ctx ''user_id'' of
                      None \<Rightarrow> (KeyFailed 401, w)
                    | Some (CtxText _) \<Rightarrow> (KeyFailed 500, w)
                    | Some (CtxId user) \<Rightarrow>
                        with_tenant ctx (KeyFailed 401, w) (KeyFailed 500, w)
                          (\<lambda>tenant. case create_managed_key env user tenant (kb_name b) (kb_description b) (kb_scopes b) expires
                                           per_hour per_day w of
                               (Inl e, w) \<Rightarrow> (KeyFailed (if e = KeyTaken then 409 else 500), w)
                             | (Inr (k, full), w) \<Rightarrow> (KeyCreated k full, w))))"

definition revoke_key_handler :: "managed_env \<Rightarrow> gin_context \<Rightarrow> string \<Rightarrow> string option \<Rightarrow> key_world \<Rightarrow> key_answer \<times> key_world" where
  "revoke_key_handler env ctx s reason w =
     with_own_key env ctx s w (\<lambda>n. (KeyFailed n, w))
       (\<lambda>_ _. case revoke_managed_key env s (case reason of None \<Rightarrow> ''Revoked by user'' | Some r \<Rightarrow> r) w of
           (Inl e, w) \<Rightarrow> (KeyFailed (if e = NoSuchKey then 404 else 500), w)
         | (Inr _, w) \<Rightarrow> (KeyDone 204, w))"

definition key_analytics_handler :: "managed_env \<Rightarrow> gin_context \<Rightarrow> string \<Rightarrow> string \<Rightarrow> key_world \<Rightarrow> key_answer" where
  "key_analytics_handler env ctx s days w =
     with_own_key env ctx s w KeyFailed
       (\<lambda>_ _. let days = (case atoi days of Some n \<Rightarrow> if 0 < n then n else 30 | None \<Rightarrow> 30)
              in case get_usage_analytics env s days w of Inl _ \<Rightarrow> KeyFailed 500 | Inr _ \<Rightarrow> KeyDone 200)"

definition key_usage_handler :: "managed_env \<Rightarrow> gin_context \<Rightarrow> string \<Rightarrow> key_world \<Rightarrow> key_answer" where
  "key_usage_handler env ctx s w = with_own_key env ctx s w KeyFailed KeyShown"

definition group_scopes :: "api_scope list \<Rightarrow> (string \<times> api_scope list) list" where
  "group_scopes ss = map (\<lambda>r. (r, filter (\<lambda>s. sc_resource s = r) ss)) (remdups (map sc_resource ss))"

definition get_scopes_handler :: "managed_env \<Rightarrow> key_world \<Rightarrow> key_answer" where
  "get_scopes_handler env w = (case get_api_scopes env w of Inl _ \<Rightarrow> KeyFailed 500 | Inr ss \<Rightarrow> ScopesListed ss (group_scopes ss))"

text \<open>
  The answer to an error depends on its text: the database calls an identifier it cannot read
  invalid. A use that cannot be recorded does not matter.
\<close>

definition validate_key_handler :: "managed_env \<Rightarrow> string \<Rightarrow> string \<Rightarrow> key_world \<Rightarrow> key_answer \<times> key_world" where
  "validate_key_handler env s ip w =
     (if s = [] then (KeyFailed 400, w)
      else case validate_managed_key env s w of
        Inl e \<Rightarrow> (KeyFailed (if e = KeyStatementFailed then 500 else 401), w)
      | Inr (k, _) \<Rightarrow>
          (case check_rate_limit env k of
             Inl _ \<Rightarrow> (KeyFailed 500, w)
           | Inr ok \<Rightarrow> if \<not> ok then (KeyFailed 429, w) else (KeyValid k, snd (update_key_usage env (mk_id k) ip w))))"

datatype key_request =
    MakeKey gin_context "key_body option"
  | DropKey gin_context string "string option"
  | TestKey string string

fun key_respond :: "managed_env \<times> key_request \<Rightarrow> key_world \<Rightarrow> key_world" where
  "key_respond (env, MakeKey ctx body) w = snd (create_key_handler env ctx body w)"
| "key_respond (env, DropKey ctx s reason) w = snd (revoke_key_handler env ctx s reason w)"
| "key_respond (env, TestKey s ip) w = snd (validate_key_handler env s ip w)"

definition key_run :: "(managed_env \<times> key_request) list \<Rightarrow> key_world \<Rightarrow> key_world" where
  "key_run rs w = fold key_respond rs w"

section \<open>The elementary changes\<close>

text \<open>Every request is one of these changes: it adds a key of its tenant, counts a use, or revokes a key of its tenant.\<close>

datatype key_event = Nothing | Adds uuid | Counts uuid | Revokes uuid uuid

inductive key_step :: "key_event \<Rightarrow> key_world \<Rightarrow> key_world \<Rightarrow> bool" where
  key_nothing: "key_step Nothing w w"
| key_adds: "mk_id k \<notin> mk_id ` set (kw_keys w) \<Longrightarrow> key_step (Adds (mk_tenant k)) w (w\<lparr>kw_keys := kw_keys w @ [k]\<rparr>)"
| key_counts: "key_step (Counts i) w (w\<lparr>kw_keys := change_where (\<lambda>k. mk_id k = i) (touch_key env ip) (kw_keys w)\<rparr>)"
| key_revokes: "managed_row i w = Some k \<Longrightarrow> key_step (Revokes (mk_tenant k) i) w
    (w\<lparr>kw_keys := change_where (\<lambda>k. mk_id k = i) (\<lambda>k. k\<lparr>mk_active := False, mk_updated := t\<rparr>) (kw_keys w)\<rparr>)"

text \<open>The changes a request may make.\<close>

fun event_of :: "managed_env \<times> key_request \<Rightarrow> key_event set" where
  "event_of (env, MakeKey ctx body) = insert Nothing {e. \<exists>t. ctx ''tenant_id'' = Some (CtxId t) \<and> e = Adds t}"
| "event_of (env, DropKey ctx s reason) =
     insert Nothing {e. \<exists>t i. ctx ''tenant_id'' = Some (CtxId t) \<and> me_uuid env s = Some i \<and> e = Revokes t i}"
| "event_of (env, TestKey s ip) = insert Nothing (range Counts)"

lemma create_managed_key_done:
  "create_managed_key env user tenant name description scopes expires per_hour per_day w = (Inr (k, full), w') \<Longrightarrow>
     w' = w\<lparr>kw_keys := kw_keys w @ [k]\<rparr> \<and> mk_id k \<notin> mk_id ` set (kw_keys w) \<and> mk_tenant k = tenant \<and> mk_user k = user
     \<and> mk_scopes k = scopes \<and> mk_expires k = expires \<and> mk_active k \<and> mk_hash k = hash_key env full
     \<and> me_uuid env (me_key_id env) = Some (mk_id k) \<and> (\<exists>secret. full = me_key_id env @ '':'' @ hex_encode secret)"
  by (auto simp: create_managed_key_def Let_def list_ex_iff split: option.splits if_splits)

lemma create_managed_key_failed:
  "create_managed_key env user tenant name description scopes expires per_hour per_day w = (Inl e, w') \<Longrightarrow> w' = w"
  by (auto simp: create_managed_key_def Let_def split: option.splits if_splits)

lemma with_tenant_cases:
  "with_tenant ctx none bad k = r \<Longrightarrow> r = none \<or> r = bad \<or> (\<exists>t. ctx ''tenant_id'' = Some (CtxId t) \<and> r = k t)"
  by (auto simp: with_tenant_def split: option.split ctx_value.split)

lemma create_handler_cases:
  assumes "create_key_handler env ctx body w = (answer, w')"
  obtains (failed) n where "answer = KeyFailed n" and "w' = w"
  | (created) b k full user tenant expires per_hour per_day where "answer = KeyCreated k full" and "body = Some b"
      and "ctx ''user_id'' = Some (CtxId user)" and "ctx ''tenant_id'' = Some (CtxId tenant)" and "kb_scopes b \<noteq> []"
      and "create_managed_key env user tenant (kb_name b) (kb_description b) (kb_scopes b) expires per_hour per_day w = (Inr (k, full), w')"
  using assms
  by (auto simp: create_key_handler_def with_tenant_def Let_def
      split: option.splits if_splits ctx_value.splits sum.splits prod.splits dest: create_managed_key_failed)

lemma own_key_cases:
  assumes "with_own_key env ctx s w fail k = r"
  obtains (failed) n where "r = fail n"
  | (own) tenant i x name where "ctx ''tenant_id'' = Some (CtxId tenant)" and "me_uuid env s = Some i" and "managed_row i w = Some x"
      and "mk_tenant x = tenant" and "r = k x name"
  using assms
  by (auto simp: with_own_key_def with_tenant_def get_managed_key_def named_key_def
      split: option.splits ctx_value.splits if_splits sum.splits)

lemma revoke_handler_cases:
  assumes "revoke_key_handler env ctx s reason w = (answer, w')"
  obtains (failed) n where "answer = KeyFailed n" and "w' = w"
  | (revoked) tenant i x where "answer = KeyDone 204" and "ctx ''tenant_id'' = Some (CtxId tenant)" and "me_uuid env s = Some i"
      and "managed_row i w = Some x" and "mk_tenant x = tenant"
      and "w' = w\<lparr>kw_keys := change_where (\<lambda>k. mk_id k = i) (\<lambda>k. k\<lparr>mk_active := False, mk_updated := me_now env\<rparr>) (kw_keys w)\<rparr>"
proof (rule own_key_cases [OF assms [unfolded revoke_key_handler_def]])
  fix tenant i x name
  assume own: "ctx ''tenant_id'' = Some (CtxId tenant)" "me_uuid env s = Some i" "managed_row i w = Some x" "mk_tenant x = tenant"
    and r: "(answer, w') = (case revoke_managed_key env s (case reason of None \<Rightarrow> ''Revoked by user'' | Some r \<Rightarrow> r) w of
           (Inl e, w) \<Rightarrow> (KeyFailed (if e = NoSuchKey then 404 else 500), w)
         | (Inr _, w) \<Rightarrow> (KeyDone 204, w))"
  show thesis using r own
    by (cases "me_query_ok env"; cases "me_exec_ok env")
      (auto simp: revoke_managed_key_def intro: failed revoked)
qed (auto intro: failed)

lemma validate_handler_cases:
  assumes "validate_key_handler env s ip w = (answer, w')"
  shows "w' = w \<or> (\<exists>i. w' = w\<lparr>kw_keys := change_where (\<lambda>k. mk_id k = i) (touch_key env ip) (kw_keys w)\<rparr>)"
  using assms
  by (auto simp: validate_key_handler_def update_key_usage_def split: if_splits sum.splits)

lemma key_respond_step: "\<exists>e \<in> event_of x. key_step e w (key_respond x w)"
proof (cases x)
  case (Pair env r)
  show ?thesis
  proof (cases r)
    case (MakeKey ctx body)
    obtain answer w' where c: "create_key_handler env ctx body w = (answer, w')" by fastforce
    from c show ?thesis
    proof (cases rule: create_handler_cases)
      case failed
      then show ?thesis using Pair MakeKey c by (auto intro: key_nothing)
    next
      case (created b k full user tenant expires per_hour per_day)
      from create_managed_key_done [OF created(6)] created(4) show ?thesis
        using Pair MakeKey c key_adds [of k w] by auto
    qed
  next
    case (DropKey ctx s reason)
    obtain answer w' where c: "revoke_key_handler env ctx s reason w = (answer, w')" by fastforce
    from c show ?thesis
    proof (cases rule: revoke_handler_cases)
      case failed
      then show ?thesis using Pair DropKey c by (auto intro: key_nothing)
    next
      case (revoked tenant i x)
      then show ?thesis using Pair DropKey c key_revokes [of i w x "me_now env"] by auto
    qed
  next
    case (TestKey s ip)
    obtain answer w' where c: "validate_key_handler env s ip w = (answer, w')" by fastforce
    from validate_handler_cases [OF c] show ?thesis
      using Pair TestKey c key_nothing [of w] key_counts [of _ w env ip] by fastforce
  qed
qed

section \<open>Keys that live and keys that are revoked\<close>

definition unique_ids :: "key_world \<Rightarrow> bool" where
  "unique_ids w \<longleftrightarrow> distinct (map mk_id (kw_keys w))"

definition key_holds :: "(managed_key \<Rightarrow> bool) \<Rightarrow> uuid \<Rightarrow> key_world \<Rightarrow> bool" where
  "key_holds P i w \<longleftrightarrow> unique_ids w \<and> (\<exists>k. managed_row i w = Some k \<and> P k)"

text \<open>A property of a row that counting keeps, and revoking unless it is of this row.\<close>

definition unaffected :: "(managed_key \<Rightarrow> bool) \<Rightarrow> uuid \<Rightarrow> key_event \<Rightarrow> bool" where
  "unaffected P i e \<longleftrightarrow>
     (\<forall>env ip k. P k \<longrightarrow> P (touch_key env ip k))
     \<and> (\<forall>k t. e = Revokes (mk_tenant k) i \<longrightarrow> P k \<longrightarrow> P (k\<lparr>mk_active := False, mk_updated := t\<rparr>))"

lemma touch_key_frame [simp]:
  "mk_id (touch_key env ip k) = mk_id k" "mk_tenant (touch_key env ip k) = mk_tenant k" "mk_user (touch_key env ip k) = mk_user k"
  "mk_scopes (touch_key env ip k) = mk_scopes k" "mk_hash (touch_key env ip k) = mk_hash k"
  "mk_active (touch_key env ip k) = mk_active k" "mk_expires (touch_key env ip k) = mk_expires k"
  by (simp_all add: touch_key_def)

lemma managed_row_change:
  "(\<And>k. mk_id (f k) = mk_id k) \<Longrightarrow>
     managed_row i (w\<lparr>kw_keys := change_where Q f (kw_keys w)\<rparr>) = map_option (\<lambda>k. if Q k then f k else k) (managed_row i w)"
  by (simp add: managed_row_def find_change_where)

lemma unique_ids_change: "(\<And>k. mk_id (f k) = mk_id k) \<Longrightarrow> unique_ids (w\<lparr>kw_keys := change_where Q f (kw_keys w)\<rparr>) = unique_ids w"
proof -
  assume "\<And>k. mk_id (f k) = mk_id k"
  then have "map mk_id (change_where Q f ks) = map mk_id ks" for ks by (simp add: change_where_def)
  then show ?thesis by (simp add: unique_ids_def)
qed

lemma managed_row_id: "managed_row i w = Some k \<Longrightarrow> mk_id k = i \<and> k \<in> set (kw_keys w)"
  by (auto simp: managed_row_def dest: find_SomeD)

lemma managed_row_append: "managed_row i w = Some k \<Longrightarrow> managed_row i (w\<lparr>kw_keys := kw_keys w @ ks\<rparr>) = Some k"
proof -
  have "find P xs = Some k \<Longrightarrow> find P (xs @ ks) = Some k" for P xs by (induction xs) auto
  then show "managed_row i w = Some k \<Longrightarrow> ?thesis" by (simp add: managed_row_def)
qed

lemma key_step_unique: "key_step e w w' \<Longrightarrow> unique_ids w \<Longrightarrow> unique_ids w'"
  by (induction rule: key_step.induct) (simp_all add: unique_ids_change, auto simp: unique_ids_def)

lemma key_step_holds:
  assumes "key_step e w w'" and "key_holds P i w" and "unaffected P i e"
  shows "key_holds P i w'"
proof -
  obtain k where k: "managed_row i w = Some k" "P k" and "unique_ids w" using assms(2) by (auto simp: key_holds_def)
  then have "unique_ids w'" using assms(1) key_step_unique by blast
  moreover from assms(1) have "\<exists>k. managed_row i w' = Some k \<and> P k"
  proof cases
    case key_nothing
    then show ?thesis using k by auto
  next
    case (key_adds x)
    then show ?thesis using k managed_row_append by blast
  next
    case (key_counts j env ip)
    then show ?thesis using k assms(3) by (simp add: managed_row_change unaffected_def)
  next
    case (key_revokes j x t)
    then show ?thesis using k assms(3) managed_row_id [OF k(1)] by (auto simp: managed_row_change unaffected_def)
  qed
  ultimately show ?thesis by (simp add: key_holds_def)
qed

lemma key_run_holds:
  assumes "key_holds P i w" and "\<forall>x \<in> set rs. \<forall>e \<in> event_of x. unaffected P i e"
  shows "key_holds P i (key_run rs w)"
  using assms
proof (induction rs arbitrary: w)
  case (Cons x rs)
  obtain e where "e \<in> event_of x" and "key_step e w (key_respond x w)" using key_respond_step by blast
  with Cons.prems have "key_holds P i (key_respond x w)" by (auto intro: key_step_holds)
  with Cons show ?case by (simp add: key_run_def)
qed (simp add: key_run_def)

lemma find_of_row:
  assumes "unique_ids w" and "managed_row i w = Some k"
  shows "find (\<lambda>k. mk_id k = i \<and> Q k) (kw_keys w) = (if Q k then Some k else None)"
proof -
  have only: "x = k" if "x \<in> set (kw_keys w)" "mk_id x = i" for x
    using assms managed_row_id [OF assms(2)] that by (auto simp: unique_ids_def distinct_map dest: inj_onD)
  show ?thesis
  proof (cases "find (\<lambda>k. mk_id k = i \<and> Q k) (kw_keys w)")
    case None
    then show ?thesis using managed_row_id [OF assms(2)] by (auto simp: find_None_iff)
  next
    case (Some x)
    then show ?thesis using only [of x] by (auto dest!: find_SomeD)
  qed
qed

lemma hex_no_colon: "CHR '':'' \<notin> set (hex_encode bs)"
proof -
  have "\<forall>n \<in> set [0..<16]. CHR '':'' \<noteq> hex_digit n" by code_simp
  moreover have "unat b div 16 < 16" "unat b mod 16 < 16" for b :: byte
    using byte_bound [of b] by (simp_all add: div_less_iff_less_mult)
  ultimately show ?thesis by (simp add: hex_encode_def)
qed


text \<open>
  A key that its tenant has revoked never works again: whatever requests follow, no text with its
  identifier is accepted.
\<close>

theorem revoked_managed_key_is_dead:
  assumes "revoke_key_handler env ctx s reason w = (KeyDone 204, w1)" and "unique_ids w" and "me_uuid env s = Some i"
    and "me_uuid env' (hd (split_on CHR '':'' text)) = Some i"
  shows "\<exists>e. validate_managed_key env' text (key_run rs w1) = Inl e"
proof -
  from assms(1) obtain x where x: "managed_row i w = Some x"
      and w1: "w1 = w\<lparr>kw_keys := change_where (\<lambda>k. mk_id k = i) (\<lambda>k. k\<lparr>mk_active := False, mk_updated := me_now env\<rparr>) (kw_keys w)\<rparr>"
    by (cases rule: revoke_handler_cases) (use assms(3) in auto)
  have "key_holds (\<lambda>k. \<not> mk_active k) i w1"
    using x managed_row_id [OF x] assms(2) by (simp add: w1 key_holds_def managed_row_change unique_ids_change)
  then have "key_holds (\<lambda>k. \<not> mk_active k) i (key_run rs w1)"
    by (rule key_run_holds) (simp add: unaffected_def)
  then obtain k where "managed_row i (key_run rs w1) = Some k" "\<not> mk_active k" "unique_ids (key_run rs w1)"
    by (auto simp: key_holds_def)
  then show ?thesis
    using assms(4) find_of_row [of "key_run rs w1" i k "\<lambda>k. mk_hash k = hash_key env' text \<and> key_usable env' k"]
    by (simp add: validate_managed_key_def Let_def key_usable_def)
qed

section \<open>Keys and tenants\<close>

fun tenant_of_key_request :: "key_request \<Rightarrow> uuid option" where
  "tenant_of_key_request (MakeKey ctx body) = (case ctx ''tenant_id'' of Some (CtxId t) \<Rightarrow> Some t | _ \<Rightarrow> None)"
| "tenant_of_key_request (DropKey ctx s reason) = (case ctx ''tenant_id'' of Some (CtxId t) \<Rightarrow> Some t | _ \<Rightarrow> None)"
| "tenant_of_key_request (TestKey s ip) = None"

definition others_keys :: "uuid \<Rightarrow> key_world \<Rightarrow> managed_key list" where
  "others_keys t w = filter (\<lambda>k. mk_tenant k \<noteq> t) (kw_keys w)"

lemma change_others:
  "(\<And>k. k \<in> set ks \<Longrightarrow> Q k \<Longrightarrow> \<not> P k) \<Longrightarrow> (\<And>k. P (f k) = P k) \<Longrightarrow> filter P (change_where Q f ks) = filter P ks"
  by (induction ks) (auto simp: change_where_def)

lemma key_step_others:
  assumes "key_step e w w'" and "unique_ids w" and "e \<in> {Nothing, Adds t} \<union> range (Revokes t)"
  shows "others_keys t w' = others_keys t w"
  using assms(1)
proof cases
  case (key_adds k)
  then show ?thesis using assms(3) by (auto simp: others_keys_def)
next
  case (key_revokes i k tm)
  have "mk_tenant x = t" if "x \<in> set (kw_keys w)" "mk_id x = i" for x
    using managed_row_id [OF key_revokes(3)] that assms(2,3) key_revokes(1) by (auto simp: unique_ids_def distinct_map dest: inj_onD)
  then show ?thesis using key_revokes(2) by (simp add: others_keys_def) (rule change_others, auto)
qed (use assms(3) in auto)

lemma requests_keep_others:
  assumes "unique_ids w" and "\<forall>(e, r) \<in> set rs. tenant_of_key_request r = Some t"
  shows "others_keys t (key_run rs w) = others_keys t w"
  using assms
proof (induction rs arbitrary: w)
  case (Cons x rs)
  obtain e where e: "e \<in> event_of x" and step: "key_step e w (key_respond x w)" using key_respond_step by blast
  obtain env r where x: "x = (env, r)" by fastforce
  have "e \<in> {Nothing, Adds t} \<union> range (Revokes t)"
    using e Cons.prems(2) by (cases r) (auto simp: x split: option.splits ctx_value.splits)
  with step Cons.prems(1) have "others_keys t (key_respond x w) = others_keys t w" by (rule key_step_others)
  with Cons.IH [of "key_respond x w"] key_step_unique [OF step Cons.prems(1)] Cons.prems(2)
  show ?case by (simp add: key_run_def)
qed (simp add: key_run_def)

definition order_keeps_rows :: "managed_env \<Rightarrow> bool" where
  "order_keeps_rows env \<longleftrightarrow> (\<forall>c d rows ys. me_order env c d rows = Some ys \<longrightarrow> set ys = set rows)"

lemma those_set: "those xs = Some ys \<Longrightarrow> y \<in> set ys \<Longrightarrow> Some y \<in> set xs"
  by (induction xs arbitrary: ys) (auto split: option.splits)

lemma listed_key_own:
  assumes "get_keys_handler env ctx q w = KeysListed ks n l off" and "ctx ''tenant_id'' = Some (CtxId t)" and "order_keeps_rows env"
    and "(k, name) \<in> set ks"
  shows "k \<in> set (kw_keys w) \<and> mk_tenant k = t"
proof -
  let ?f = "key_filter_of env t q"
  let ?found = "filter (key_matches ?f) (kw_keys w)"
  from assms(1,2) obtain rows
    where rows: "sorted_rows (me_order env) (newest mk_created) (kf_sort ?f) (kf_direction ?f) ?found = Some rows"
      and ks: "those (map (named_key env) (take (nat (bounded_limit 50 100 (kf_limit ?f))) (drop (nat (max 0 (kf_offset ?f))) rows))) = Some ks"
    by (auto simp: get_keys_handler_def with_tenant_def get_managed_keys_def Let_def split: sum.splits option.splits if_splits)
  have "set rows = set ?found"
    using rows assms(3) by (auto simp: sorted_rows_def order_keeps_rows_def split: if_splits)
  moreover have "k \<in> set rows"
    using those_set [OF ks assms(4)] by (auto simp: named_key_def map_option_case split: option.splits dest!: in_set_takeD in_set_dropD)
  ultimately have "k \<in> set (kw_keys w)" "key_matches ?f k" by auto
  then show ?thesis by (simp add: key_matches_def key_filter_of_def given_def)
qed

text \<open>
  C39: Tenants see and change their own keys only. Whatever keys a tenant makes and revokes, the keys of the others
  stay as they are, and no listing or look-up for it shows a key of another tenant.
\<close>

theorem managed_keys_stay_in_tenant:
  assumes "unique_ids w" and "\<forall>(e, r) \<in> set rs. tenant_of_key_request r = Some t"
    and "ctx ''tenant_id'' = Some (CtxId t)" and "order_keeps_rows env"
  shows "others_keys t (key_run rs w) = others_keys t w
    \<and> (\<forall>q ks n l off k name. get_keys_handler env ctx q w = KeysListed ks n l off \<and> (k, name) \<in> set ks \<longrightarrow> mk_tenant k = t)
    \<and> (\<forall>s k name. get_key_handler env ctx s w = KeyShown k name \<or> key_usage_handler env ctx s w = KeyShown k name \<longrightarrow> mk_tenant k = t)"
proof (intro conjI allI impI)
  show "others_keys t (key_run rs w) = others_keys t w" using assms(1,2) by (rule requests_keep_others)
next
  fix q ks n l off k name
  assume "get_keys_handler env ctx q w = KeysListed ks n l off \<and> (k, name) \<in> set ks"
  then show "mk_tenant k = t" using listed_key_own assms(3,4) by blast
next
  fix s k name
  assume "get_key_handler env ctx s w = KeyShown k name \<or> key_usage_handler env ctx s w = KeyShown k name"
  then have "with_own_key env ctx s w KeyFailed KeyShown = KeyShown k name"
    by (auto simp: get_key_handler_def key_usage_handler_def)
  then show "mk_tenant k = t" by (cases rule: own_key_cases) (use assms(3) in auto)
qed

text \<open>With the database that the migrations make no key is ever found valid by the request for it.\<close>

lemma no_key_validates:
  assumes "me_rate env = (\<lambda>_ _ _. None)"
  shows "\<exists>n. validate_key_handler env s ip w = (KeyFailed n, w)"
  using assms
  by (auto simp: validate_key_handler_def check_rate_limit_def check_rate_limit_window_def split: sum.split)

text \<open>Any user of the tenant revokes the keys of all others.\<close>

lemma colleague_revokes_key:
  assumes "managed_row i w = Some k" and "me_uuid env s = Some i" and "s \<noteq> []" and "me_query_ok env" and "me_exec_ok env"
    and "me_user env (mk_user k) = Some name" and "ctx ''tenant_id'' = Some (CtxId (mk_tenant k))"
  shows "fst (revoke_key_handler env ctx s reason w) = KeyDone 204"
  using assms
  by (simp add: revoke_key_handler_def with_own_key_def with_tenant_def get_managed_key_def named_key_def revoke_managed_key_def)

section \<open>Examples\<close>

definition example_managed_env :: "time \<Rightarrow> string \<Rightarrow> managed_env" where
  "example_managed_env now i = \<lparr>me_now = now, me_key_id = i, me_secret = Some [7], me_sha = (\<lambda>bs. bs), me_tx_ok = True, me_query_ok = True,
     me_exec_ok = True, me_commit_ok = True, me_uuid = Some, me_inet = (\<lambda>_. True), me_tenants = [''t'', ''s''],
     me_user = (\<lambda>u. Some ''ann''), me_order = (\<lambda>_ _ _. None), me_rate = (\<lambda>_ _ _. Some True), me_time = (\<lambda>_. Some 50)\<rparr>"

definition example_body :: key_body where
  "example_body = \<lparr>kb_name = ''ci'', kb_description = [], kb_scopes = [''read''], kb_expires = Some ''soon'', kb_per_hour = 0, kb_per_day = 0\<rparr>"

definition no_keys :: key_world where "no_keys = \<lparr>kw_keys = [], kw_scopes = []\<rparr>"

definition ann_context :: gin_context where
  "ann_context = [''user_id'' \<mapsto> CtxId ''u'', ''tenant_id'' \<mapsto> CtxId ''t'']"

definition eve_context :: gin_context where
  "eve_context = [''user_id'' \<mapsto> CtxId ''e'', ''tenant_id'' \<mapsto> CtxId ''s'']"

definition foreign_requests :: "(managed_env \<times> key_request) list" where
  "foreign_requests = [(example_managed_env 2 ''j'', MakeKey eve_context (Some example_body)),
     (example_managed_env 3 [], DropKey eve_context ''i'' None), (example_managed_env 4 [], DropKey eve_context ''j'' None)]"


lemma revoked_managed_key_is_dead_witness:
  "\<exists>e. validate_managed_key (example_managed_env 5 []) ''i:07'' (key_run foreign_requests
     (snd (revoke_key_handler (example_managed_env 2 []) ann_context ''i'' None
       (snd (create_key_handler (example_managed_env 1 ''i'') ann_context (Some example_body) no_keys))))) = Inl e"
proof -
  let ?w = "snd (create_key_handler (example_managed_env 1 ''i'') ann_context (Some example_body) no_keys)"
  let ?r = "revoke_key_handler (example_managed_env 2 []) ann_context ''i'' None ?w"
  have "fst ?r = KeyDone 204" by code_simp
  then have r: "?r = (KeyDone 204, snd ?r)" by (metis prod.collapse)
  have "unique_ids ?w" by code_simp
  moreover have "me_uuid (example_managed_env 5 []) (hd (split_on CHR '':'' ''i:07'')) = Some ''i''" by code_simp
  ultimately show ?thesis using revoked_managed_key_is_dead [OF r] by (simp add: example_managed_env_def)
qed

lemma managed_keys_stay_in_tenant_witness:
  "length (others_keys ''s'' (key_run foreign_requests
     (snd (create_key_handler (example_managed_env 1 ''i'') ann_context (Some example_body) no_keys)))) = 1"
proof -
  let ?w = "snd (create_key_handler (example_managed_env 1 ''i'') ann_context (Some example_body) no_keys)"
  have "unique_ids ?w" by code_simp
  moreover have "\<forall>(e, r) \<in> set foreign_requests. tenant_of_key_request r = Some ''s''" by code_simp
  moreover have "eve_context ''tenant_id'' = Some (CtxId ''s'')" by code_simp
  moreover have "order_keeps_rows (example_managed_env 1 ''i'')" by (simp add: order_keeps_rows_def example_managed_env_def)
  ultimately have "others_keys ''s'' (key_run foreign_requests ?w) = others_keys ''s'' ?w"
    using managed_keys_stay_in_tenant by blast
  moreover have "length (others_keys ''s'' ?w) = 1" by code_simp
  ultimately show ?thesis by simp
qed

end
