(* ===== verification/HelmCharts.thy ===== *)
theory HelmCharts
  imports ArtifactRecords
begin

text \<open>
  The chart repository (internal/api/helm_handler.go, the routes on Gin): the index, uploads, downloads
  and deletions, over the table of artifacts and the files of the charts.
\<close>

section \<open>Data\<close>

record chart_meta =
  cm_api_version :: string
  cm_name :: string
  cm_version :: string
  cm_kube_version :: string
  cm_description :: string
  cm_keywords :: "string list"
  cm_home :: string
  cm_sources :: "string list"
  cm_app_version :: string

text \<open>What the readers of gzip and tar make of the bytes: the entries up to the first error.\<close>

datatype tar_item = TarEntry string "bytes option" | TarError

record chart_repo =
  cr_id :: uuid
  cr_tenant :: uuid
  cr_name :: string
  cr_type :: string

record helm_world =
  hw_rows :: "stored_artifact list"
  hw_files :: "(path \<times> bytes) list"
  hw_replicated :: "(uuid \<times> uuid \<times> uuid \<times> bytes) list"

text \<open>
  The environment of a request: the repositories of all tenants, the directory of the charts and the
  working directory, the readers of archives and of YAML, SHA-256 in hexadecimal, which calls of the operating system succeed (a write that
  fails leaves so many bytes), the access to the table, and whether replication is enabled.
\<close>

record helm_env =
  he_repos :: "chart_repo list option"
  he_storage :: path
  he_cwd :: path
  he_entries :: "bytes \<Rightarrow> tar_item list option"
  he_yaml :: "bytes \<Rightarrow> chart_meta option"
  he_sha :: "bytes \<Rightarrow> string"
  he_mkdir :: "path \<Rightarrow> bool"
  he_write :: "path \<Rightarrow> nat option"
  he_remove :: "path \<Rightarrow> bool"
  he_records :: record_env
  he_replicates :: bool

datatype helm_answer =
    HelmFailed nat
  | ChartUploaded string string uuid
  | ChartFile bytes
  | ChartDirectory
  | ChartDeleted
  | ChartIndex "(string \<times> (string \<times> string \<times> string option \<times> string option) list) list"

section \<open>Charts\<close>

text \<open>The first entry that is named Chart.yaml decides, in whatever directory it is.\<close>

fun find_chart :: "(bytes \<Rightarrow> chart_meta option) \<Rightarrow> tar_item list \<Rightarrow> chart_meta option" where
  "find_chart yaml [] = None"
| "find_chart yaml (TarError # _) = None"
| "find_chart yaml (TarEntry name content # items) =
     (if has_suffix name ''/Chart.yaml'' \<or> name = ''Chart.yaml'' then Option.bind content yaml else find_chart yaml items)"

definition extract_chart_metadata :: "helm_env \<Rightarrow> bytes \<Rightarrow> chart_meta option" where
  "extract_chart_metadata env data = Option.bind (he_entries env data) (find_chart (he_yaml env))"

definition repo_named :: "string \<Rightarrow> chart_repo list \<Rightarrow> chart_repo option" where
  "repo_named name repos = find (\<lambda>r. cr_type r = ''helm'' \<and> cr_name r = name) repos"

definition given_repo :: "string \<Rightarrow> string" where
  "given_repo repo = (if repo = [] then ''default'' else repo)"

definition chart_filename :: "chart_meta \<Rightarrow> string" where
  "chart_filename m = cm_name m @ ''-'' @ cm_version m @ ''.tgz''"

definition chart_path :: "helm_env \<Rightarrow> chart_repo \<Rightarrow> string \<Rightarrow> path" where
  "chart_path env r filename = path_join (he_storage env) [cr_id r, filename]"

definition show_path :: "path \<Rightarrow> string" where
  "show_path p = ''/'' @ join_with ''/'' p"

text \<open>Something is a directory when a file lies below it.\<close>

definition below_path :: "path \<Rightarrow> path \<Rightarrow> bool" where
  "below_path d p \<longleftrightarrow> length d < length p \<and> take (length d) p = d"

definition holds_files :: "(path \<times> bytes) list \<Rightarrow> path \<Rightarrow> bool" where
  "holds_files files d \<longleftrightarrow> list_ex (\<lambda>(p, _). below_path d p) files"

definition mkdir_possible :: "helm_env \<Rightarrow> (path \<times> bytes) list \<Rightarrow> path \<Rightarrow> bool" where
  "mkdir_possible env files d \<longleftrightarrow> he_mkdir env d \<and> list_all (\<lambda>(p, _). p \<noteq> d \<and> \<not> below_path p d) files"

definition write_chart :: "helm_env \<Rightarrow> path \<Rightarrow> bytes \<Rightarrow> (path \<times> bytes) list \<Rightarrow> bool \<times> (path \<times> bytes) list" where
  "write_chart env p data files =
     (if holds_files files p then (False, files)
      else case he_write env p of
        None \<Rightarrow> (True, AList.update p data files)
      | Some n \<Rightarrow> (False, AList.update p (take n data) files))"

section \<open>The requests\<close>

definition chart_record :: "helm_env \<Rightarrow> chart_repo \<Rightarrow> chart_meta \<Rightarrow> bytes \<Rightarrow> stored_artifact" where
  "chart_record env r m data =
     \<lparr>sa_id = uuid_nil, sa_name = cm_name m, sa_version = cm_version m, sa_type = ''helm'', sa_repo = cr_id r, sa_tenant = uuid_nil,
      sa_size = int (length data), sa_checksum = he_sha env data, sa_license = None,
      sa_metadata = [(''description'', JText (cm_description m)), (''appVersion'', JText (cm_app_version m)),
        (''apiVersion'', JText (cm_api_version m)), (''kubeVersion'', JText (cm_kube_version m)),
        (''keywords'', JList (map JText (cm_keywords m))), (''home'', JText (cm_home m)),
        (''sources'', JList (map JText (cm_sources m))), (''maintainers'', JOther), (''deprecated'', JOther),
        (''file_path'', JText (show_path (chart_path env r (chart_filename m)))), (''filename'', JText (chart_filename m))],
      sa_tags = [], sa_uploaded_at = zero_time, sa_created_at = zero_time, sa_downloads = 0, sa_encrypted = False,
      sa_enc_version = 0, sa_enc_dek = [], sa_enc_algorithm = [], sa_enc_metadata = None\<rparr>"

text \<open>The form holds a file with its name; reading it may fail.\<close>

definition upload_chart :: "helm_env \<Rightarrow> string \<Rightarrow> (string \<times> bytes option) option \<Rightarrow> helm_world \<Rightarrow> helm_answer \<times> helm_world" where
  "upload_chart env repo form w =
     (case form of
        None \<Rightarrow> (HelmFailed 400, w)
      | Some (name, content) \<Rightarrow>
          if \<not> has_suffix name ''.tgz'' \<and> \<not> has_suffix name ''.tar.gz'' then (HelmFailed 400, w)
          else case content of
            None \<Rightarrow> (HelmFailed 500, w)
          | Some data \<Rightarrow>
              (case extract_chart_metadata env data of
                 None \<Rightarrow> (HelmFailed 400, w)
               | Some m \<Rightarrow>
                   (case he_repos env of
                      None \<Rightarrow> (HelmFailed 500, w)
                    | Some repos \<Rightarrow>
                        (case repo_named (given_repo repo) repos of
                           None \<Rightarrow> (HelmFailed 404, w)
                         | Some r \<Rightarrow>
                             let p = chart_path env r (chart_filename m)
                             in if \<not> mkdir_possible env (hw_files w) (butlast p) then (HelmFailed 500, w)
                                else case write_chart env p data (hw_files w) of
                                  (False, files) \<Rightarrow> (HelmFailed 500, w\<lparr>hw_files := files\<rparr>)
                                | (True, files) \<Rightarrow>
                                    (case insert_artifact (he_records env) (chart_record env r m data) (hw_rows w) of
                                       (Inl _, rows) \<Rightarrow> (HelmFailed 500, w\<lparr>hw_files := files, hw_rows := rows\<rparr>)
                                     | (Inr a, rows) \<Rightarrow>
                                         (ChartUploaded (cm_name m) (cm_version m) (sa_id a),
                                          w\<lparr>hw_files := files, hw_rows := rows,
                                            hw_replicated := hw_replicated w
                                              @ (if he_replicates env then [(cr_tenant r, cr_id r, sa_id a, data)] else [])\<rparr>))))))"

definition download_chart :: "helm_env \<Rightarrow> string \<Rightarrow> string \<Rightarrow> helm_world \<Rightarrow> helm_answer" where
  "download_chart env repo filename w =
     (case he_repos env of
        None \<Rightarrow> HelmFailed 500
      | Some repos \<Rightarrow>
          (case repo_named (given_repo repo) repos of
             None \<Rightarrow> HelmFailed 404
           | Some r \<Rightarrow>
               let p = chart_path env r filename
               in (case map_of (hw_files w) p of
                     Some data \<Rightarrow> ChartFile data
                   | None \<Rightarrow> if holds_files (hw_files w) p then ChartDirectory else HelmFailed 404)))"

definition no_filter :: artifact_filter where
  "no_filter = \<lparr>af_search = [], af_types = [], af_repositories = [], af_repository_id = None, af_sort_by = [], af_sort_order = [],
     af_created_after = None, af_created_before = None, af_min_size = None, af_max_size = None, af_limit = 0, af_offset = 0\<rparr>"

definition text_of_metadata :: "string \<Rightarrow> stored_artifact \<Rightarrow> string option" where
  "text_of_metadata key a = (case map_of (sa_metadata a) key of Some (JText s) \<Rightarrow> Some s | _ \<Rightarrow> None)"

text \<open>A name that is not rooted is taken from the working directory.\<close>

definition file_named :: "path \<Rightarrow> string \<Rightarrow> path" where
  "file_named cwd s = path_join (if has_prefix s ''/'' then [] else cwd) [s]"

text \<open>\<^verbatim>\<open>os.Remove\<close>; a file that is not there is no error to the caller.\<close>

definition remove_chart_file :: "helm_env \<Rightarrow> string \<Rightarrow> (path \<times> bytes) list \<Rightarrow> ((path \<times> bytes) list) option" where
  "remove_chart_file env s files =
     (let p = file_named (he_cwd env) s
      in if map_of files p = None then (if holds_files files p then None else Some files)
         else if he_remove env p then Some (AList.delete p files) else None)"

text \<open>The artifact is looked for among the first page of the artifacts of all tenants.\<close>

definition delete_chart :: "helm_env \<Rightarrow> string \<Rightarrow> string \<Rightarrow> helm_world \<Rightarrow> helm_answer \<times> helm_world" where
  "delete_chart env name version w =
     (case list_rows (he_records env) no_filter (hw_rows w) of
        Inl _ \<Rightarrow> (HelmFailed 500, w)
      | Inr (artifacts, _) \<Rightarrow>
          (case find (\<lambda>a. sa_type a = ''helm'' \<and> sa_name a = name \<and> sa_version a = version) artifacts of
             None \<Rightarrow> (HelmFailed 404, w)
           | Some a \<Rightarrow>
               let s = (case text_of_metadata ''file_path'' a of None \<Rightarrow> [] | Some s \<Rightarrow> s)
               in case if s = [] then Some (hw_files w) else remove_chart_file env s (hw_files w) of
                    None \<Rightarrow> (HelmFailed 500, w)
                  | Some files \<Rightarrow>
                      (case delete_row (he_records env) (sa_id a) (hw_rows w) of
                         (Inl _, rows) \<Rightarrow> (HelmFailed 500, w\<lparr>hw_files := files, hw_rows := rows\<rparr>)
                       | (Inr _, rows) \<Rightarrow> (ChartDeleted, w\<lparr>hw_files := files, hw_rows := rows\<rparr>))))"

text \<open>
  The index by chart: version, digest, description and application version. Without a name the first chart
  repository of the list answers.
\<close>

definition index_entry :: "stored_artifact \<Rightarrow> string \<times> string \<times> string option \<times> string option" where
  "index_entry a = (sa_version a, sa_checksum a, text_of_metadata ''description'' a, text_of_metadata ''appVersion'' a)"

definition index_of :: "stored_artifact list \<Rightarrow> (string \<times> (string \<times> string \<times> string option \<times> string option) list) list" where
  "index_of artifacts =
     (let charts = filter (\<lambda>a. sa_type a = ''helm'') artifacts
      in map (\<lambda>n. (n, map index_entry (filter (\<lambda>a. sa_name a = n) charts))) (remdups (map sa_name charts)))"

definition get_index :: "helm_env \<Rightarrow> string \<Rightarrow> helm_world \<Rightarrow> helm_answer" where
  "get_index env repo w =
     (case he_repos env of
        None \<Rightarrow> HelmFailed 500
      | Some repos \<Rightarrow>
          (case find (\<lambda>r. cr_type r = ''helm'' \<and> (cr_name r = given_repo repo \<or> given_repo repo = ''default'')) repos of
             None \<Rightarrow> HelmFailed 404
           | Some r \<Rightarrow>
               (case list_rows (he_records env) (no_filter\<lparr>af_repository_id := Some (cr_id r)\<rparr>) (hw_rows w) of
                  Inl _ \<Rightarrow> HelmFailed 500
                | Inr (artifacts, _) \<Rightarrow> ChartIndex (index_of artifacts))))"

datatype helm_request = UploadChart string "(string \<times> bytes option) option" | DeleteChart string string

fun helm_respond :: "helm_env \<times> helm_request \<Rightarrow> helm_world \<Rightarrow> helm_world" where
  "helm_respond (env, UploadChart repo form) w = snd (upload_chart env repo form w)"
| "helm_respond (env, DeleteChart name version) w = snd (delete_chart env name version w)"

definition helm_run :: "(helm_env \<times> helm_request) list \<Rightarrow> helm_world \<Rightarrow> helm_world" where
  "helm_run rs w = fold helm_respond rs w"

section \<open>The file of a chart\<close>

text \<open>The file an upload writes, as far as it gets there.\<close>

definition upload_path :: "helm_env \<Rightarrow> string \<Rightarrow> (string \<times> bytes option) option \<Rightarrow> path option" where
  "upload_path env repo form =
     Option.bind (Option.bind form snd) (\<lambda>data. Option.bind (extract_chart_metadata env data) (\<lambda>m.
       Option.bind (he_repos env) (\<lambda>repos. map_option (\<lambda>r. chart_path env r (chart_filename m)) (repo_named (given_repo repo) repos))))"

text \<open>The file a record names.\<close>

definition file_of_record :: "path \<Rightarrow> stored_artifact \<Rightarrow> path option" where
  "file_of_record cwd a =
     (case text_of_metadata ''file_path'' a of None \<Rightarrow> None | Some s \<Rightarrow> if s = [] then None else Some (file_named cwd s))"

lemma write_chart_other: "write_chart env p data files = (ok, files') \<Longrightarrow> q \<noteq> p \<Longrightarrow> map_of files' q = map_of files q"
  by (auto simp: write_chart_def update_conv' split: if_splits option.splits)

lemma write_chart_ok: "write_chart env p data files = (True, files') \<Longrightarrow> map_of files' p = Some data"
  by (auto simp: write_chart_def update_conv' split: if_splits option.splits)

lemma insert_chart_rows:
  assumes "insert_artifact env a rows = (result, rows')" and "sa_tags a = []"
  shows "\<forall>r \<in> set rows'. r \<in> set rows \<or> sa_metadata r = sa_metadata a \<and> sa_name r = sa_name a \<and> sa_version r = sa_version a"
  using assms
  by (auto simp: insert_artifact_def insert_as_def Let_def inserted_row_def split: option.splits insertion.splits if_splits)

lemma chart_record_simps [simp]:
  "sa_tags (chart_record env r m data) = []" "sa_name (chart_record env r m data) = cm_name m"
  "sa_version (chart_record env r m data) = cm_version m"
  "map_of (sa_metadata (chart_record env r m data)) ''file_path'' = Some (JText (show_path (chart_path env r (chart_filename m))))"
  by (simp_all add: chart_record_def)

text \<open>An upload changes at most the file it writes, and adds at most the record that names it.\<close>

lemma upload_changes:
  assumes "upload_chart env repo form w = (answer, w')"
  shows "w' = w \<and> (\<forall>n v i. answer \<noteq> ChartUploaded n v i) \<or> (\<exists>name data m repos r. form = Some (name, Some data) \<and> extract_chart_metadata env data = Some m \<and> he_repos env = Some repos
      \<and> repo_named (given_repo repo) repos = Some r
      \<and> (\<forall>q. q \<noteq> chart_path env r (chart_filename m) \<longrightarrow> map_of (hw_files w') q = map_of (hw_files w) q)
      \<and> (\<forall>a \<in> set (hw_rows w'). a \<in> set (hw_rows w) \<or> sa_metadata a = sa_metadata (chart_record env r m data)
           \<and> sa_name a = cm_name m \<and> sa_version a = cm_version m)
      \<and> (\<forall>n v i. answer = ChartUploaded n v i \<longrightarrow> n = cm_name m \<and> v = cm_version m
           \<and> map_of (hw_files w') (chart_path env r (chart_filename m)) = Some data))"
  using assms
  by (auto simp: upload_chart_def Let_def write_chart_other write_chart_ok
      split: option.splits if_splits prod.splits bool.splits sum.splits dest!: insert_chart_rows)

lemma show_path_round_trip:
  assumes "list_all plain_name p"
  shows "path_join [] [show_path p] = p"
proof (cases "p = []")
  case False
  have "split_on CHR ''/'' (join_with ''/'' p) = p"
    using assms False
  proof (induction p)
    case (Cons c p)
    then show ?case
      by (cases p) (auto simp: plain_name_def split_on_id split_on_append)
  qed simp
  then show ?thesis
    using assms by (simp add: path_join_def show_path_def clean_onto_plain)
qed (simp add: path_join_def show_path_def)

lemma record_names_its_file:
  assumes "sa_metadata a = sa_metadata (chart_record env r m data)"
  shows "file_of_record cwd a = Some (chart_path env r (chart_filename m))"
proof -
  let ?p = "chart_path env r (chart_filename m)"
  have "has_prefix (show_path ?p) ''/''" by (simp add: show_path_def has_prefix_def)
  then have "file_named cwd (show_path ?p) = ?p"
    using show_path_round_trip [of ?p] by (simp add: file_named_def chart_path_def)
  then show ?thesis using assms by (simp add: file_of_record_def text_of_metadata_def show_path_def)
qed

lemma upload_path_eq:
  "extract_chart_metadata env data = Some m \<Longrightarrow> he_repos env = Some repos \<Longrightarrow> repo_named (given_repo repo) repos = Some r \<Longrightarrow>
     upload_path env repo (Some (name, Some data)) = Some (chart_path env r (chart_filename m))"
  by (simp add: upload_path_def)

lemma listed_row:
  assumes "list_rows env f rows = Inr (found, n)" and "a \<in> set found"
  shows "\<exists>b \<in> set rows. a = without_encryption b"
proof -
  have "set found \<subseteq> without_encryption ` set rows"
    using assms(1) by (auto simp: list_rows_def Let_def split: if_splits dest!: in_set_takeD in_set_dropD)
  then show ?thesis using assms(2) by auto
qed

lemma file_of_without [simp]: "file_of_record cwd (without_encryption a) = file_of_record cwd a"
  by (simp add: file_of_record_def text_of_metadata_def)

text \<open>A deletion removes at most the file that the record found names.\<close>

lemma removed_file:
  "(if s = [] then Some files else remove_chart_file env s files) = Some files' \<Longrightarrow>
     map_of files' q = map_of files q \<or> s \<noteq> [] \<and> file_named (he_cwd env) s = q"
  by (auto simp: remove_chart_file_def Let_def delete_conv' split: if_splits)

lemma delete_changes:
  assumes "delete_chart env name version w = (answer, w')"
  shows "set (hw_rows w') \<subseteq> set (hw_rows w)
    \<and> (\<forall>q. map_of (hw_files w') q = map_of (hw_files w) q
         \<or> (\<exists>a \<in> set (hw_rows w). sa_name a = name \<and> sa_version a = version \<and> file_of_record (he_cwd env) a = Some q))"
proof (cases "list_rows (he_records env) no_filter (hw_rows w)")
  case (Inr found)
  obtain artifacts n where f: "list_rows (he_records env) no_filter (hw_rows w) = Inr (artifacts, n)" using Inr by (cases found) auto
  show ?thesis
  proof (cases "find (\<lambda>a. sa_type a = ''helm'' \<and> sa_name a = name \<and> sa_version a = version) artifacts")
    case (Some a)
    then have a: "a \<in> set artifacts" "sa_name a = name" "sa_version a = version" by (auto dest!: find_SomeD)
    then obtain b where b: "b \<in> set (hw_rows w)" "a = without_encryption b" using listed_row [OF f] by blast
    define s where "s = (case text_of_metadata ''file_path'' a of None \<Rightarrow> [] | Some s \<Rightarrow> s)"
    define left where "left = (if s = [] then Some (hw_files w) else remove_chart_file env s (hw_files w))"
    have del: "set (snd (delete_row (he_records env) (sa_id a) (hw_rows w))) \<subseteq> set (hw_rows w)"
      by (auto simp: delete_row_def)
    have "file_of_record (he_cwd env) b = (if s = [] then None else Some (file_named (he_cwd env) s))"
      unfolding file_of_without [of "he_cwd env" b, symmetric] b(2) [symmetric] s_def by (simp add: file_of_record_def split: option.split)
    then have removed: "left = Some files \<Longrightarrow> map_of files q = map_of (hw_files w) q \<or> file_of_record (he_cwd env) b = Some q" for files q
      using removed_file [of s "hw_files w" env files q] by (auto simp: left_def)
    have run: "delete_chart env name version w =
        (case left of
           None \<Rightarrow> (HelmFailed 500, w)
         | Some files \<Rightarrow>
             (case delete_row (he_records env) (sa_id a) (hw_rows w) of
                (Inl _, rows) \<Rightarrow> (HelmFailed 500, w\<lparr>hw_files := files, hw_rows := rows\<rparr>)
              | (Inr _, rows) \<Rightarrow> (ChartDeleted, w\<lparr>hw_files := files, hw_rows := rows\<rparr>)))"
      using f Some by (simp add: delete_chart_def left_def s_def Let_def)
    show ?thesis
    proof (cases left)
      case None
      then show ?thesis using assms run by simp
    next
      case (Some files)
      then have "hw_files w' = files" "hw_rows w' = snd (delete_row (he_records env) (sa_id a) (hw_rows w))"
        using assms run by (auto split: prod.splits sum.splits)
      then show ?thesis using del removed [OF Some] a(2,3) b by auto
    qed
  qed (use assms f in \<open>auto simp: delete_chart_def\<close>)
qed (use assms in \<open>auto simp: delete_chart_def\<close>)

section \<open>What is uploaded is downloaded\<close>

fun leaves_chart :: "path \<Rightarrow> string \<Rightarrow> string \<Rightarrow> helm_env \<times> helm_request \<Rightarrow> bool" where
  "leaves_chart p n v (env, UploadChart repo form) = (upload_path env repo form \<noteq> Some p)"
| "leaves_chart p n v (env, DeleteChart name version) = ((name, version) \<noteq> (n, v))"

definition chart_there :: "path \<Rightarrow> path \<Rightarrow> string \<Rightarrow> string \<Rightarrow> bytes \<Rightarrow> helm_world \<Rightarrow> bool" where
  "chart_there cwd p n v data w \<longleftrightarrow>
     map_of (hw_files w) p = Some data
     \<and> (\<forall>a \<in> set (hw_rows w). file_of_record cwd a = Some p \<longrightarrow> sa_name a = n \<and> sa_version a = v)"

lemma chart_stays_there:
  assumes "chart_there cwd p n v data w" and "leaves_chart p n v x" and "he_cwd (fst x) = cwd"
  shows "chart_there cwd p n v data (helm_respond x w)"
proof (cases x)
  case (Pair env r)
  show ?thesis
  proof (cases r)
    case (UploadChart repo form)
    obtain answer w' where u: "upload_chart env repo form w = (answer, w')" by fastforce
    from upload_changes [OF u] show ?thesis
    proof
      assume "w' = w \<and> (\<forall>n v i. answer \<noteq> ChartUploaded n v i)"
      then show ?thesis using assms(1) Pair UploadChart u by simp
    next
      assume "\<exists>name data m repos r. form = Some (name, Some data) \<and> extract_chart_metadata env data = Some m \<and> he_repos env = Some repos
          \<and> repo_named (given_repo repo) repos = Some r
          \<and> (\<forall>q. q \<noteq> chart_path env r (chart_filename m) \<longrightarrow> map_of (hw_files w') q = map_of (hw_files w) q)
          \<and> (\<forall>a \<in> set (hw_rows w'). a \<in> set (hw_rows w) \<or> sa_metadata a = sa_metadata (chart_record env r m data)
               \<and> sa_name a = cm_name m \<and> sa_version a = cm_version m)
          \<and> (\<forall>n v i. answer = ChartUploaded n v i \<longrightarrow> n = cm_name m \<and> v = cm_version m
               \<and> map_of (hw_files w') (chart_path env r (chart_filename m)) = Some data)"
      then obtain name chart m repos r
        where up: "form = Some (name, Some chart)" "extract_chart_metadata env chart = Some m" "he_repos env = Some repos"
            "repo_named (given_repo repo) repos = Some r"
          and files: "\<forall>q. q \<noteq> chart_path env r (chart_filename m) \<longrightarrow> map_of (hw_files w') q = map_of (hw_files w) q"
          and rows: "\<forall>a \<in> set (hw_rows w'). a \<in> set (hw_rows w) \<or> sa_metadata a = sa_metadata (chart_record env r m chart)"
        by blast
      have other: "p \<noteq> chart_path env r (chart_filename m)"
        using assms(2) upload_path_eq [OF up(2-4)] by (auto simp: Pair UploadChart up(1))
      have "chart_there cwd p n v data w'"
        using assms(1) files rows other record_names_its_file by (fastforce simp: chart_there_def)
      then show ?thesis using Pair UploadChart u by simp
    qed
  next
    case (DeleteChart name version)
    obtain answer w' where d: "delete_chart env name version w = (answer, w')" by fastforce
    have "\<nexists>a. a \<in> set (hw_rows w) \<and> sa_name a = name \<and> sa_version a = version \<and> file_of_record (he_cwd env) a = Some p"
      using assms by (auto simp: chart_there_def Pair DeleteChart)
    with delete_changes [OF d] have "set (hw_rows w') \<subseteq> set (hw_rows w)" "map_of (hw_files w') p = map_of (hw_files w) p" by blast+
    then have "chart_there cwd p n v data w'" using assms(1) by (auto simp: chart_there_def)
    then show ?thesis using Pair DeleteChart d by simp
  qed
qed


section \<open>Names of charts\<close>

text \<open>The name of a chart becomes part of a path: it may climb out of the directory of the charts.\<close>

lemma chart_name_climbs:
  assumes "he_storage env = base @ [d]" and "list_all plain_name base" and "plain_name d" and "plain_name (cr_id r)"
    and "cm_name m = climb 2 @ t" and "plain_name (t @ ''-'' @ cm_version m @ ''.tgz'')"
  shows "chart_path env r (chart_filename m) = base @ [t @ ''-'' @ cm_version m @ ''.tgz'']"
proof -
  let ?f = "t @ ''-'' @ cm_version m @ ''.tgz''"
  have "split_on CHR ''/'' ?f = [?f]" using assms(6) by (simp add: split_on_id plain_name_def)
  moreover have "chart_filename m = climb 2 @ ?f" by (simp add: chart_filename_def assms(5))
  moreover have "concat (map (split_on CHR ''/'') (base @ [d, cr_id r])) = base @ [d, cr_id r]"
    by (rule concat_split_plain) (use assms in simp)
  ultimately have "chart_path env r (chart_filename m) = clean_onto [] ((base @ [d, cr_id r]) @ replicate 2 ''..'' @ [?f])"
    using split_climb [of 2 ?f] unfolding chart_path_def path_join_def assms(1) by (simp del: append_assoc add: append_assoc [symmetric])
  also have "\<dots> = clean_onto (drop 2 (rev (base @ [d, cr_id r]))) [?f]"
    using assms by (subst clean_onto_append) (simp_all add: clean_onto_dots)
  also have "\<dots> = base @ [?f]" using assms(6) by (simp add: plain_name_def)
  finally show ?thesis .
qed

text \<open>Charts with different names and versions may share their file.\<close>

lemma two_charts_one_file:
  "cm_name m = n @ ''-'' @ k \<Longrightarrow> cm_version m = v \<Longrightarrow> cm_name m' = n \<Longrightarrow> cm_version m' = k @ ''-'' @ v \<Longrightarrow>
     chart_filename m = chart_filename m'"
  by (simp add: chart_filename_def)

text \<open>A deletion removes whatever file the metadata of the record name.\<close>

lemma deletion_removes_named_file:
  assumes "list_rows (he_records env) no_filter (hw_rows w) = Inr (artifacts, n)"
    and "find (\<lambda>a. sa_type a = ''helm'' \<and> sa_name a = name \<and> sa_version a = version) artifacts = Some a"
    and "text_of_metadata ''file_path'' a = Some s" and "s \<noteq> []" and "he_remove env (file_named (he_cwd env) s)"
    and "map_of (hw_files w) (file_named (he_cwd env) s) = Some data"
  shows "map_of (hw_files (snd (delete_chart env name version w))) (file_named (he_cwd env) s) = None"
  using assms
  by (auto simp: delete_chart_def remove_chart_file_def Let_def delete_conv' split: prod.split sum.split)

section \<open>Examples\<close>

definition example_chart_env :: "uuid \<Rightarrow> helm_env" where
  "example_chart_env i = \<lparr>he_repos = Some [\<lparr>cr_id = ''r'', cr_tenant = ''t'', cr_name = ''charts'', cr_type = ''helm''\<rparr>],
     he_storage = [''data''], he_cwd = [], he_entries = (\<lambda>bs. Some [TarEntry ''web/README'' None, TarEntry ''web/Chart.yaml'' (Some bs)]),
     he_yaml = (\<lambda>bs. Some \<lparr>cm_api_version = ''v2'', cm_name = (if bs = [1] then ''web'' else ''db''), cm_version = ''1'', cm_kube_version = [],
        cm_description = [], cm_keywords = [], cm_home = [], cm_sources = [], cm_app_version = []\<rparr>),
     he_sha = (\<lambda>_. []), he_mkdir = (\<lambda>_. True), he_write = (\<lambda>_. None), he_remove = (\<lambda>_. True),
     he_records = \<lparr>re_now = 0, re_new_id = i, re_temp_id = [], re_repo = (\<lambda>_. Some (''charts'', ''helm'', ''t'')), re_get_ok = True,
        re_find_ok = True, re_refetch_ok = True, re_update_ok = True, re_delete_ok = True, re_accepts = (\<lambda>_. True),
        re_clear_tags_ok = True, re_tag_ok = (\<lambda>_. True), re_nil_json_ok = True, re_count_ok = True, re_list_ok = True,
        re_collation = (\<lambda>s. s)\<rparr>,
     he_replicates = True\<rparr>"

definition no_charts :: helm_world where "no_charts = \<lparr>hw_rows = [], hw_files = [], hw_replicated = []\<rparr>"

definition example_chart_requests :: "(helm_env \<times> helm_request) list" where
  "example_chart_requests = [(example_chart_env ''b'', UploadChart ''charts'' (Some (''db.tgz'', Some [2]))),
     (example_chart_env ''c'', DeleteChart ''db'' ''1'')]"


end
