(* ===== verification/Spec2Isabelle.thy ===== *)
theory Spec2Isabelle
  imports KeyCache Kms Envelope TenantKeys Rewrap Erasure BlobStore Replication Failover DiskCache
    Scanning Resilience RefreshTokens ArtifactStore Tenants Plugins Workflows TierCache ChunkedUpload
    Access Registry ScanService Properties AuditTrail Users Roles
    ManagedKeys HelmCharts
begin

text \<open>
  A verification development for SecureStor, an artifact repository written in Go. It models the
  parts of \<^verbatim>\<open>src/internal\<close> that keep artifacts and keys safe: encryption and key management, erasure
  coded storage, replication, failover, the caches, chunked uploads, the container registry, the scan
  pipeline with its plugins and workflows, the risk score, who may do what (tenants, tokens,
  sessions and API keys), users, roles and the audit log, Helm charts, and the requests for artifacts and scans
  that put these parts together.

  \<^bold>\<open>Parts and how they interact.\<close> An upload request makes sure that the tenant has a master key, encrypts
  the content, stores the blob, creates or updates the record and starts a scan; a download reads the
  record, fetches and decrypts the blob and logs the access. A blob reaches the blob storage, which splits it with the
  erasure coder, writes the shards and hands the data to the replicator of the tenant; a chunked
  upload stores its chunks there and joins them in the end. Artifacts
  are encrypted under data keys; the data keys are wrapped by the KMS or under a key derived from
  the tenant's master key, which the key service creates, caches, rotates and serves, and which the
  re-wrapping job applies to existing artifacts. The failover service watches the database all of
  this is recorded in. The proxy keeps fetched packages in the disk cache and in the multi-tier
  cache. Uploaded artifacts are scanned by the pipeline, or by a workflow over the registered
  plugins; the counts become the report of the scan and the compliance audit. A request passes the tenant middleware, which
  finds the tenant in a header or the host, and a guard, which checks its token, session or key.

  \<^bold>\<open>Theories.\<close>
  \<^item> \<open>Prelude\<close>: bytes, times, results, association lists for Go maps, a memory of byte buffers,
    \<^verbatim>\<open>int64\<close> wrap-around. \<open>GoLib\<close>: the parts of \<^verbatim>\<open>strings\<close>, \<^verbatim>\<open>strconv\<close> and \<^verbatim>\<open>path/filepath\<close> in use.
  \<^item> \<open>TtlStore\<close>: the contract of a store with expiring values (locale \<open>ttl_store\<close>), and what a
    client sees of any sequence of calls.
  \<^item> \<open>KeyCache\<close> (encrypt/key_cache.go): the cache over explicit buffers, so that copying and
    wiping are visible. Keys never alias callers' buffers, dropped keys are zeroed, and the cache
    refines the expiring store by interpretation of the locale.
  \<^item> \<open>Kms\<close> (encrypt/kms_client.go): the AWS client over a parameter and the mock client in full,
    which interprets the locales \<open>kms_client\<close> and \<open>kms_generating\<close>.
  \<^item> \<open>Envelope\<close> (encrypt/encryption_service.go, encryption.go): artifact encryption; round trip and
    binding of the ciphertext to the tenant, from named laws of AES-GCM.
  \<^item> \<open>TenantKeys\<close> (encrypt/tmk_service.go): table, cache and audit log of the master keys; in every
    reachable state a tenant is served its own active key.
  \<^item> \<open>Rewrap\<close> (encrypt/rewrap_service.go): the batch job; data keys survive, each artifact is
    visited once, failures leave the metadata alone.
  \<^item> \<open>ArtifactStore\<close>: what clients of an artifact store rely on (locale \<open>artifact_store\<close>), which
    \<open>BlobStore\<close> interprets.
  \<^item> \<open>Erasure\<close>, \<open>BlobStore\<close> (storage/erasure_coding.go, blob_storage.go): encoding, upload,
    download, deletion, listing, integrity check on a disk whose calls can fail; the nested read
    lock as a transition system explored exhaustively.
  \<^item> \<open>Replication\<close> (replicate/replication.go, replicator.go): node health, local and S3 copies, the
    parallel fan-out under every interleaving, the cache of services per tenant.
  \<^item> \<open>Failover\<close> (failover/database_failover.go, patroni_service.go): probes, promotion,
    switchover, the monitor loop tick by tick, the Patroni client.
  \<^item> \<open>DiskCache\<close> (api/storage_l2.go): the index with its usage counter, eviction, expiry, recovery.
  \<^item> \<open>Scanning\<close> (scanner/registry.go, executor.go, aggregator.go, pipeline.go): selection, retries,
    collection in any order of arrival, deduplication, sorting (a \<open>linorder\<close> instance for the
    rank of a finding), summary.
  \<^item> \<open>Resilience\<close> (scanner/performance_enhancer.go, service/compliance_calculator.go): the circuit
    breaker as a state machine and the compliance score with its wrap-around.
  \<^item> \<open>RefreshTokens\<close> (auth/refresh_token_service.go): the token table, rotation in its two steps.
  \<^item> \<open>Tenants\<close> (tenant/resolver.go, middleware.go, middleware/gin_tenant_middleware.go): the resolver
    over its cache, which interprets \<open>ttl_store\<close>, the middleware, the CORS test. Requests reach the
    tenant they name in every state that edits of the table can lead to.
  \<^item> \<open>Plugins\<close> (scanner/plugin_manager.go, selection_strategies.go, health_checker.go): registry and
    index, the ranking strategies as interpretations of one locale \<open>selection\<close>, the health monitor.
  \<^item> \<open>Workflows\<close> (scanner/workflow_engine.go): validation, loading, execution; exactly which
    workflows return.
  \<^item> \<open>TierCache\<close> (cache/multi_tier_manager.go, handlers/remote_proxy_handler.go): Redis over disk,
    promotion, flushing, and the proxy in front of the public registries.
  \<^item> \<open>ChunkedUpload\<close> (api/chunked_upload_handler.go): sessions are well-formed, and the upload is the
    concatenation of its chunks, over the laws of \<open>artifact_store\<close>.
  \<^item> \<open>Access\<close> (middleware/auth.go, gin_jwt_auth.go, optional_auth.go, health_auth.go,
    jwt_middleware.go, models/auth.go, auth/apikey_service.go): tokens, guards, sessions, API keys.
  \<^item> \<open>Registry\<close> (storage/oci_handler.go, api/docker_registry_handler.go): blobs and manifests on a
    file system with hard links, named by inodes.
  \<^item> \<open>Encoding\<close>: base64 as the standard library writes it, with its round trip.
  \<^item> \<open>ArtifactRecords\<close> (repository/artifact_repository.go, service/artifact_service.go): the table of
    artifacts, creation and update, the queries with the columns they leave out, the listings.
  \<^item> \<open>ArtifactApi\<close> (handlers/upload_download_handler.go, artifact_handler.go): the requests for
    artifacts over keys, blobs, records, scans and the access log; what is uploaded is what is
    downloaded, after any sequence of other requests.
  \<^item> \<open>ScanRecords\<close>, \<open>ScanService\<close> (repository/scan_repository.go, service/scan_service.go,
    scanner/scanner_manager.go, repository/compliance_repository.go, handlers/scanning_handler.go): a scan
    from its record over the temporary file to the report and the audit; starting, cancelling and
    running as a step relation beside the other requests.
  \<^item> \<open>Queries\<close>: conditions, orders and pages of SQL statements, the tenant and user of a request.
  \<^item> \<open>Properties\<close> (repository/property_repository.go, service/property_service.go,
    handlers/property_handler.go): key-value properties with sealed values; every request is a sequence
    of elementary steps of its tenant, of which the invariants are proved; the audit log of the trigger
    accounts for the table.
  \<^item> \<open>AuditTrail\<close> (service/audit_log_service.go, user_session_service.go, middleware/audit_middleware.go,
    handlers/audit_log_handler.go): the audit log only grows under every operation, a session that has
    ended never comes back, pages of the log cover what belongs to the tenant.
  \<^item> \<open>Users\<close> (service/user_management_service.go, password_service.go, handlers/auth_basic_handler.go,
    user_management_handler.go): the tables of users, roles and invitations with their keys and references;
    a login admits the user it names and nobody else, a changed password replaces the old one, an
    invitation admits one user.
  \<^item> \<open>Roles\<close> (service/role_management_service.go, handlers/role_management_handler.go): every request on
    users and roles is an elementary step on roles and grants (\<open>role_step\<close>), which keeps system roles; a
    deletion takes nothing from an active user; permissions are replaced as a whole.
  \<^item> \<open>ManagedKeys\<close> (service/api_key_management_service.go, handlers/api_key_management_handler.go): every
    request is an elementary step on the table of keys (\<open>key_step\<close>); a key works until it expires or its
    tenant revokes it, and never again after that; tenants see and change their own keys only.
  \<^item> \<open>HelmCharts\<close> (api/helm_handler.go, the routes on Gin): charts as files and artifacts; what is uploaded
    is what is downloaded after other uploads and deletions, and where the names of charts break that.

  \<^bold>\<open>Correspondence.\<close> A struct is a record, an error value a constructor of the component's error
  type, a Go map that is iterated an association list in iteration order. A call that can fail
  for outside reasons (disk, SQL, HTTP, random source) asks an environment record, so every error
  branch is reachable. Methods that hold a mutex are single steps; goroutines that run in parallel
  are threads with explicit program points and a schedule (\<open>fan_step\<close> in \<open>Replication\<close>,
  \<open>lock_next\<close> in \<open>BlobStore\<close>, \<open>rotate_read\<close> and \<open>rotate_write\<close> in \<open>RefreshTokens\<close>).
  Code outside the repository is a parameter with its documented behaviour as a named predicate:
  \<open>gcm_correct\<close>, \<open>gcm_binds_aad\<close>, \<open>rs_laws\<close>, \<open>jwt_laws\<close>, \<open>bcrypt_laws\<close>, \<open>hash_text\<close> (a digest is
  hexadecimal text); each has a concrete instance in a witness.

  \<^bold>\<open>Bounds.\<close> No model uses fuel. The retry loop of the scan executor recurses on the attempts left,
  the wait of a switchover on its thirty rounds, the re-wrapping job on the artifacts left to
  visit. \<open>replicate_file\<close> is partial in the schedule: \<open>replicate_file_returns\<close> shows that five
  steps of each goroutine are enough. The wait of a workflow stage is a \<open>partial_function\<close>, since it
  may never end; \<open>workflow_returns_iff\<close> says exactly when it does. The monitor theorems assume a threshold below \<open>2 ^ 62\<close>
  nanoseconds (146 years), which keeps the products within \<^verbatim>\<open>int64\<close>.

  \<^bold>\<open>Not modelled.\<close> HTTP parsing and routing, SQL text beyond the rows a statement reads and
  writes, SDK clients, external scanner programs, configuration and logging, statistics and
  listings for the dashboards. Floating-point scores are rationals. Failures of single removals
  inside \<^verbatim>\<open>os.RemoveAll\<close> are per file; directories are tracked only as far as the listing needs
  them.

  \<^bold>\<open>Left out.\<close> The proxy engine with its retry handler and virtual repositories; policy evaluation, which an
  OPA server decides; MFA, token introspection, OIDC and SCIM, which store what libraries decide; the handlers of
  compliance policies, which mostly answer with fixed data, and their schedules; statistics of tenants; the RBAC
  service, whose queries name views and columns the migrations do not create; the policy for signatures; the
  Maven, npm and PyPI handlers and the routes for charts on mux, which the server does not register.
\<close>

section \<open>Storage and replication together\<close>

lemma uploaded_service_nodes:
  "current_nodes renv (init_replication_service_with_db renv True tenant) = tenant_nodes renv True tenant"
  using current_tenant_nodes [of "init_replication_service_with_db renv True tenant" renv]
  by (simp add: init_replication_service_with_db_def load_keeps)



end
